(* ===== verification/Prelude.thy ===== *)
theory Prelude
  imports Complex_Main "HOL-Library.AList"
begin

text \<open>
  Shared vocabulary of the development.

  Python dictionaries are association lists in insertion order: a lookup is \<open>map_of\<close>, an
  assignment \<open>d[k] = v\<close> is \<open>AList.update k v d\<close> (it keeps the position of an existing key and
  appends a new one, as Python does), \<open>d.pop(k)\<close> is \<open>AList.delete k d\<close>.  The lemmas on
  \<open>dict_ok\<close> and \<open>keyed\<close> carry every store of the development.  The locale \<open>keyed_store\<close> is the
  persistence protocol (save / load / delete / list) that the kernel and the runtime ask of their
  stores.  \<open>pyval\<close> is the type of the JSON-like values that manifests, tool inputs and audit
  details are made of.  Instants are integers (microseconds since the epoch), amounts of money
  are rationals.
\<close>

named_theorems dict_simps \<open>rewrite rules for dictionaries\<close>
named_theorems inv_intros \<open>an operation keeps the invariant of its component\<close>

type_synonym time = int
type_synonym ('k, 'v) dict = "('k \<times> 'v) list"

abbreviation dset :: "'k \<Rightarrow> 'v \<Rightarrow> ('k, 'v) dict \<Rightarrow> ('k, 'v) dict" where
  "dset \<equiv> AList.update"

abbreviation dpop :: "'k \<Rightarrow> ('k, 'v) dict \<Rightarrow> ('k, 'v) dict" where
  "dpop \<equiv> AList.delete"

abbreviation dkeys :: "('k, 'v) dict \<Rightarrow> 'k list" where
  "dkeys d \<equiv> map fst d"

abbreviation dvals :: "('k, 'v) dict \<Rightarrow> 'v list" where
  "dvals d \<equiv> map snd d"

text \<open>\<open>d.get(k, default)\<close>\<close>

definition dget_default :: "('k, 'v) dict \<Rightarrow> 'k \<Rightarrow> 'v \<Rightarrow> 'v" where
  "dget_default d k v = (case map_of d k of None \<Rightarrow> v | Some w \<Rightarrow> w)"

text \<open>In-place mutation of the object a dictionary holds at a key, if there is one.\<close>

definition dmod :: "'k \<Rightarrow> ('v \<Rightarrow> 'v) \<Rightarrow> ('k, 'v) dict \<Rightarrow> ('k, 'v) dict" where
  "dmod k f d = (case map_of d k of None \<Rightarrow> d | Some v \<Rightarrow> dset k (f v) d)"

text \<open>\<open>x or default\<close> for a possibly absent list.\<close>

definition or_nil :: "'a list option \<Rightarrow> 'a list" where
  "or_nil x = (case x of None \<Rightarrow> [] | Some xs \<Rightarrow> xs)"

subsection \<open>Dictionaries\<close>

definition dict_ok :: "('k, 'v) dict \<Rightarrow> bool" where
  "dict_ok d = distinct (dkeys d)"

lemma dict_ok_Nil [simp, inv_intros]: "dict_ok []"
  by (simp add: dict_ok_def)

lemma dict_ok_update [simp, inv_intros]: "dict_ok d \<Longrightarrow> dict_ok (dset k v d)"
  by (simp add: dict_ok_def distinct_update)

lemma dict_ok_delete [simp, inv_intros]: "dict_ok d \<Longrightarrow> dict_ok (dpop k d)"
  by (simp add: dict_ok_def distinct_delete)

lemma map_of_dset [simp, dict_simps]:
  "map_of (dset k v d) k' = (if k' = k then Some v else map_of d k')"
  by (simp add: update_conv')

lemma map_of_dpop [simp, dict_simps]:
  "map_of (dpop k d) k' = (if k' = k then None else map_of d k')"
  by (simp add: delete_conv')

lemma map_of_dmod [simp, dict_simps]:
  "map_of (dmod k f d) k' = (if k' = k then map_option f (map_of d k) else map_of d k')"
  by (auto simp: dmod_def split: option.splits)

lemma dict_ok_dmod [simp, inv_intros]: "dict_ok d \<Longrightarrow> dict_ok (dmod k f d)"
  by (auto simp: dmod_def split: option.splits)

lemma dkeys_dset_present: "map_of d k = Some w \<Longrightarrow> dkeys (dset k v d) = dkeys d"
  by (induction d) (auto split: if_splits)

lemma dkeys_dmod [simp]: "dkeys (dmod k f d) = dkeys d"
  by (auto simp: dmod_def dkeys_dset_present split: option.splits)

lemma dkeys_dset_absent: "map_of d k = None \<Longrightarrow> dset k v d = d @ [(k, v)]"
  by (induction d) (auto split: if_splits)

lemma in_dict_iff: "dict_ok d \<Longrightarrow> (k, v) \<in> set d \<longleftrightarrow> map_of d k = Some v"
  by (simp add: dict_ok_def)

lemma in_dvals_iff: "dict_ok d \<Longrightarrow> v \<in> set (dvals d) \<longleftrightarrow> (\<exists>k. map_of d k = Some v)"
  by (force simp: in_dict_iff [symmetric])

lemma length_dpop_present:
  "dict_ok d \<Longrightarrow> map_of d k = Some v \<Longrightarrow> length d = Suc (length (dpop k d))"
proof (induction d)
  case Nil
  then show ?case by simp
next
  case (Cons p d)
  then show ?case
    by (cases p) (auto simp: dict_ok_def map_of_eq_None_iff delete_idem split: if_splits)
qed

lemma dget_default_Some [simp]: "map_of d k = Some v \<Longrightarrow> dget_default d k w = v"
  by (simp add: dget_default_def)

lemma dget_default_None [simp]: "map_of d k = None \<Longrightarrow> dget_default d k w = w"
  by (simp add: dget_default_def)

lemma dget_default_dset [simp]:
  "dget_default (dset k v d) k' w = (if k' = k then v else dget_default d k' w)"
  by (simp add: dget_default_def)

text \<open>The same dictionary with every value mapped.\<close>

definition dmap :: "('v \<Rightarrow> 'w) \<Rightarrow> ('k, 'v) dict \<Rightarrow> ('k, 'w) dict" where
  "dmap f d = map (\<lambda>(k, v). (k, f v)) d"

lemma dmap_dset [simp]: "dmap f (dset k v d) = dset k (f v) (dmap f d)"
  by (induction d) (auto simp: dmap_def)

lemma dmap_dpop [simp]: "dmap f (dpop k d) = dpop k (dmap f d)"
  by (induction d) (auto simp: dmap_def)

lemma map_of_dmap [simp]: "map_of (dmap f d) k = map_option f (map_of d k)"
  by (induction d) (auto simp: dmap_def)

lemma dkeys_dmap [simp]: "dkeys (dmap f d) = dkeys d"
  by (induction d) (auto simp: dmap_def)

lemma dvals_dmap [simp]: "dvals (dmap f d) = map f (dvals d)"
  by (induction d) (auto simp: dmap_def)

lemma dict_ok_dmap [simp]: "dict_ok (dmap f d) = dict_ok d"
  by (simp add: dict_ok_def)

subsection \<open>Records indexed by one of their fields\<close>

definition keyed :: "('r \<Rightarrow> 'k) \<Rightarrow> ('k, 'r) dict \<Rightarrow> bool" where
  "keyed key d = (dict_ok d \<and> (\<forall>(k, r) \<in> set d. key r = k))"

lemma keyedI: "dict_ok d \<Longrightarrow> (\<And>k r. map_of d k = Some r \<Longrightarrow> key r = k) \<Longrightarrow> keyed key d"
  by (auto simp: keyed_def in_dict_iff)

lemma keyed_dict_ok: "keyed key d \<Longrightarrow> dict_ok d"
  by (simp add: keyed_def)

lemma keyed_lookup: "keyed key d \<Longrightarrow> map_of d k = Some r \<Longrightarrow> key r = k"
  by (auto simp: keyed_def dest: map_of_SomeD)

lemma keyed_Nil [simp, inv_intros]: "keyed key []"
  by (simp add: keyed_def)

lemma keyed_dset [inv_intros]: "keyed key d \<Longrightarrow> key r = k \<Longrightarrow> keyed key (dset k r d)"
  by (rule keyedI) (auto dest: keyed_dict_ok keyed_lookup split: if_splits)

lemma keyed_dpop [inv_intros]: "keyed key d \<Longrightarrow> keyed key (dpop k d)"
  by (rule keyedI) (auto dest: keyed_dict_ok keyed_lookup split: if_splits)

lemma keyed_dmod [inv_intros]:
  "keyed key d \<Longrightarrow> (\<And>r. key (f r) = key r) \<Longrightarrow> keyed key (dmod k f d)"
  by (rule keyedI) (auto dest: keyed_dict_ok keyed_lookup split: if_splits)

lemma keyed_vals:
  "keyed key d \<Longrightarrow> r \<in> set (dvals d) \<longleftrightarrow> map_of d (key r) = Some r"
  using in_dvals_iff keyed_dict_ok keyed_lookup by metis

lemma keyed_vals_distinct: "keyed key d \<Longrightarrow> distinct (map key (dvals d))"
proof -
  assume a: "keyed key d"
  then have "map key (dvals d) = dkeys d"
    by (auto simp: keyed_def)
  moreover from a have "distinct (dkeys d)" by (simp add: keyed_def dict_ok_def)
  ultimately show ?thesis by (simp only:)
qed

subsection \<open>The persistence protocol\<close>

text \<open>
  What a client of \<open>save\<close> / \<open>load\<close> / \<open>delete\<close> / \<open>list_all\<close> relies on.  \<open>stored r\<close> is the record
  that a later load returns (a store may stamp it, as the continuation stores do).
\<close>

locale keyed_store =
  fixes key :: "'r \<Rightarrow> 'k"
    and stored :: "'r \<Rightarrow> 'r"
    and empty_store :: "'s"
    and save :: "'r \<Rightarrow> 's \<Rightarrow> 's"
    and load :: "'s \<Rightarrow> 'k \<Rightarrow> 'r option"
    and delete :: "'k \<Rightarrow> 's \<Rightarrow> bool \<times> 's"
    and list_recs :: "'s \<Rightarrow> 'r list"
    and invar :: "'s \<Rightarrow> bool"
  assumes key_stored: "key (stored r) = key r"
    and invar_empty: "invar empty_store"
    and load_empty: "load empty_store k = None"
    and invar_save: "invar s \<Longrightarrow> invar (save r s)"
    and load_save: "invar s \<Longrightarrow> load (save r s) k = (if k = key r then Some (stored r) else load s k)"
    and invar_delete: "invar s \<Longrightarrow> invar (snd (delete k s))"
    and load_delete: "invar s \<Longrightarrow> load (snd (delete k s)) k' = (if k' = k then None else load s k')"
    and delete_found: "invar s \<Longrightarrow> fst (delete k s) \<longleftrightarrow> load s k \<noteq> None"
    and load_key: "invar s \<Longrightarrow> load s k = Some r \<Longrightarrow> key r = k"
    and list_recs: "invar s \<Longrightarrow> r \<in> set (list_recs s) \<longleftrightarrow> load s (key r) = Some r"
    and list_distinct: "invar s \<Longrightarrow> distinct (map key (list_recs s))"
begin

lemma load_saved: "invar s \<Longrightarrow> load (save r s) (key r) = Some (stored r)"
  by (simp add: load_save)

lemma save_frame: "invar s \<Longrightarrow> k \<noteq> key r \<Longrightarrow> load (save r s) k = load s k"
  by (simp add: load_save)

lemma delete_gone: "invar s \<Longrightarrow> load (snd (delete k s)) k = None"
  by (simp add: load_delete)

lemma delete_twice: "invar s \<Longrightarrow> \<not> fst (delete k (snd (delete k s)))"
  by (simp add: delete_found invar_delete load_delete)

lemma save_then_delete: "invar s \<Longrightarrow> fst (delete (key r) (save r s))"
  by (simp add: delete_found invar_save load_save)

lemma list_after_delete:
  assumes "invar s"
  shows "set (list_recs (snd (delete k s))) = {r \<in> set (list_recs s). key r \<noteq> k}"
  using assms by (auto simp: list_recs invar_delete load_delete split: if_splits)

lemma list_after_save:
  assumes "invar s"
  shows "set (list_recs (save r s)) = insert (stored r) {r' \<in> set (list_recs s). key r' \<noteq> key r}"
  using assms by (auto simp: list_recs invar_save load_save key_stored split: if_splits)

end

text \<open>The dictionary of records under their own key satisfies the protocol.\<close>

lemma keyed_dict_store:
  assumes "\<And>r. key (stored r) = key r"
  shows "keyed_store key stored [] (\<lambda>r d. dset (key r) (stored r) d) map_of
    (\<lambda>k d. (map_of d k \<noteq> None, dpop k d)) dvals (keyed key)"
proof (unfold_locales, goal_cases)
  case (4 s r)
  with assms show ?case by (intro keyed_dset) auto
next
  case (6 s k)
  then show ?case by (simp only: snd_conv) (rule keyed_dpop)
next
  case (9 s k r)
  then show ?case by (rule keyed_lookup)
next
  case (10 s r)
  then show ?case by (rule keyed_vals)
next
  case (11 s)
  then show ?case by (rule keyed_vals_distinct)
qed (simp_all add: assms)

subsection \<open>JSON-like values\<close>

datatype pyval = PNone | PBool bool | PInt int | PFloat rat | PStr string
  | PList "pyval list" | PDict "(string \<times> pyval) list"

text \<open>The truth value of a Python object.\<close>

fun truthy :: "pyval \<Rightarrow> bool" where
  "truthy PNone = False"
| "truthy (PBool b) = b"
| "truthy (PInt i) = (i \<noteq> 0)"
| "truthy (PFloat x) = (x \<noteq> 0)"
| "truthy (PStr s) = (s \<noteq> [])"
| "truthy (PList xs) = (xs \<noteq> [])"
| "truthy (PDict d) = (d \<noteq> [])"

text \<open>The number a value is, where \<open>==\<close> compares numbers (booleans are the integers 0 and 1).\<close>

fun num_of :: "pyval \<Rightarrow> rat option" where
  "num_of (PBool b) = Some (if b then 1 else 0)"
| "num_of (PInt i) = Some (of_int i)"
| "num_of (PFloat x) = Some x"
| "num_of _ = None"

text \<open>Python's \<open>==\<close>: numbers by value, lists pointwise, dictionaries regardless of the order.\<close>

primrec py_eq :: "pyval \<Rightarrow> pyval \<Rightarrow> bool"
  and py_eq_list :: "pyval list \<Rightarrow> pyval list \<Rightarrow> bool"
  and py_sub_dict :: "(string \<times> pyval) list \<Rightarrow> (string \<times> pyval) list \<Rightarrow> bool"
  and py_sub_item :: "string \<times> pyval \<Rightarrow> (string \<times> pyval) list \<Rightarrow> bool" where
  "py_eq PNone w = (w = PNone)"
| "py_eq (PStr s) w = (w = PStr s)"
| "py_eq (PBool b) w = (num_of w = Some (if b then 1 else 0))"
| "py_eq (PInt i) w = (num_of w = Some (of_int i))"
| "py_eq (PFloat x) w = (num_of w = Some x)"
| "py_eq (PList xs) w = (case w of PList ys \<Rightarrow> py_eq_list xs ys | _ \<Rightarrow> False)"
| "py_eq (PDict d) w = (case w of PDict e \<Rightarrow> length d = length e \<and> py_sub_dict d e | _ \<Rightarrow> False)"
| "py_eq_list [] ys = (ys = [])"
| "py_eq_list (x # xs) ys = (case ys of [] \<Rightarrow> False | y # ys' \<Rightarrow> py_eq x y \<and> py_eq_list xs ys')"
| "py_sub_dict [] e = True"
| "py_sub_dict (p # d) e = (py_sub_item p e \<and> py_sub_dict d e)"
| "py_sub_item (k, v) e = (case map_of e k of None \<Rightarrow> False | Some w \<Rightarrow> py_eq v w)"

text \<open>\<open>v in xs\<close> for a list.\<close>

definition py_in :: "pyval \<Rightarrow> pyval list \<Rightarrow> bool" where
  "py_in v xs = list_ex (\<lambda>x. py_eq x v) xs"

subsection \<open>Strings\<close>

definition starts_with :: "string \<Rightarrow> string \<Rightarrow> bool" where
  "starts_with p s = (take (length p) s = p)"

definition ends_with :: "string \<Rightarrow> string \<Rightarrow> bool" where
  "ends_with p s = starts_with (rev p) (rev s)"

fun is_substring :: "string \<Rightarrow> string \<Rightarrow> bool" where
  "is_substring p [] = (p = [])"
| "is_substring p (c # s) = (starts_with p (c # s) \<or> is_substring p s)"

text \<open>\<open>s.rstrip("*")\<close> and its kin: drop the trailing characters that satisfy the test.\<close>

definition rstrip :: "(char \<Rightarrow> bool) \<Rightarrow> string \<Rightarrow> string" where
  "rstrip p s = rev (dropWhile p (rev s))"

lemma starts_with_append: "starts_with p s \<longleftrightarrow> (\<exists>t. s = p @ t)"
  by (auto simp: starts_with_def intro: append_take_drop_id [symmetric])
    (metis append_take_drop_id)

lemma ends_with_append: "ends_with p s \<longleftrightarrow> (\<exists>t. s = t @ p)"
  by (auto simp: ends_with_def starts_with_append)
    (metis rev_append rev_rev_ident)

lemma starts_with_Nil [simp]: "starts_with [] s"
  by (simp add: starts_with_def)

lemma starts_with_self [simp]: "starts_with s s"
  by (simp add: starts_with_def)

end
