(* ===== verification/Manifest.thy ===== *)
theory Manifest
  imports Prelude
begin

text \<open>
  The agent definition and the manifest sections the kernel reads (\<open>src/src/forgeos_sdk/manifest.py\<close>,
  \<open>src/stacks/base.py\<close>).  A section is the typed record its pydantic model validates; an absent
  optional section is \<open>None\<close>.  \<open>read_v2_section\<close>, the one reader of sections, is modelled on the
  raw dictionaries.
\<close>

subsection \<open>Rules, approvals and policies\<close>

record predicate =
  pd_op :: "string option"
  pd_field :: string
  pd_value :: pyval

text \<open>A JSON-logic rule; an empty or absent clause is \<open>None\<close> (both are false in Python).
  \<open>has_keys\<close> says that the dictionary is not empty, whatever its keys are.\<close>

record rule =
  has_keys :: bool
  deny_if :: "predicate option"
  ask_human_if :: "predicate option"

datatype approval_mode = Always | Never | Conditional
datatype timeout_action = Proceed | Abort | Reask

record approval_rule =
  ar_tool :: string
  ar_mode :: approval_mode
  ar_when :: "rule option"
  ar_approvers :: "string list"
  ar_sla_hours :: rat
  ar_priority :: string
  ar_on_timeout :: timeout_action
  ar_reason :: string

record hitl_approval =
  h_event :: string
  h_approvers :: "string list"
  h_sla_hours :: rat

record policy_ref =
  pol_name :: string
  pol_inline :: "rule option"

record governance =
  g_approvals :: "approval_rule list"
  g_human_in_loop :: "hitl_approval list"
  g_policies :: "policy_ref list"
  g_audit_level :: string

text \<open>The rule an event-keyed \<open>human_in_loop\<close> entry becomes.\<close>

definition approval_of_hitl :: "hitl_approval \<Rightarrow> approval_rule" where
  "approval_of_hitl h = \<lparr>ar_tool = h_event h, ar_mode = Always, ar_when = None,
     ar_approvers = h_approvers h, ar_sla_hours = h_sla_hours h, ar_priority = ''medium'',
     ar_on_timeout = Abort, ar_reason = []\<rparr>"

definition fold_legacy_hitl :: "governance \<Rightarrow> governance" where
  "fold_legacy_hitl g =
     (if g_human_in_loop g \<noteq> [] \<and> g_approvals g = []
      then g\<lparr>g_approvals := map approval_of_hitl (g_human_in_loop g)\<rparr> else g)"

subsection \<open>Capabilities and boundaries\<close>

record exec_capability =
  x_enabled :: bool
  x_allowed_commands :: "string list option"

record a2a_peer =
  peer_namespace :: string
  peer_name :: string

record capabilities =
  cap_tools_denied :: "string list option"
  cap_exec :: "exec_capability option"
  cap_can_be_called_by :: "a2a_peer list"

record budgets =
  daily_usd :: "rat option"
  per_task_usd :: "rat option"

record data_boundaries =
  allowed_namespaces :: "string list"
  blocked_namespaces :: "string list"
  bd_pii_policy :: "string option"

record boundaries =
  b_budgets :: "budgets option"
  b_data :: "data_boundaries option"

subsection \<open>Agent definitions\<close>

datatype execution_type = AlwaysOn | Scheduled | EventDriven | Reflex | Autonomous
datatype ownership_type = Personal | Shared | Client

record llm_config =
  cf_model :: string
  cf_provider :: string
  cf_endpoint :: "string option"
  cf_key_ref :: "string option"

text \<open>
  The typed fields of the sections and \<open>a_tenant\<close> are what the kernel reads in the metadata; \<open>a_metadata\<close>
  holds the entries that are read as they are.
\<close>

record agent_def =
  a_id :: string
  a_name :: string
  a_namespace :: string
  a_stack :: string
  a_execution :: execution_type
  a_ownership :: ownership_type
  a_owner :: "string option"
  a_department :: string
  a_tools :: "string list"
  a_tenant :: "string option"
  a_capabilities :: "capabilities option"
  a_boundaries :: "boundaries option"
  a_governance :: "governance option"
  a_llm :: llm_config
  a_schedule :: "string option"
  a_triggers :: "string list"
  a_goal :: "string option"
  a_prompt :: string
  a_description :: string
  a_config_path :: string
  a_metadata :: "(string \<times> pyval) list"

definition default_llm :: llm_config where
  "default_llm = \<lparr>cf_model = ''claude-4-sonnet'', cf_provider = ''anthropic'', cf_endpoint = None, cf_key_ref = None\<rparr>"

definition stack_names :: "string list" where
  "stack_names = [''forgeos'', ''crewai'', ''adk'', ''openclaw'', ''sandbox'',
     ''anthropic-agent-sdk'', ''anthropic-managed'', ''openai-agents'']"

text \<open>What the kernel's accessors of the sections return (\<open>section or {}\<close>, then \<open>.get\<close>).\<close>

definition tools_denied :: "agent_def \<Rightarrow> string list" where
  "tools_denied a = (case a_capabilities a of None \<Rightarrow> [] | Some c \<Rightarrow> or_nil (cap_tools_denied c))"

definition exec_of :: "agent_def \<Rightarrow> exec_capability" where
  "exec_of a = (case a_capabilities a of None \<Rightarrow> \<lparr>x_enabled = False, x_allowed_commands = None\<rparr>
     | Some c \<Rightarrow> (case cap_exec c of None \<Rightarrow> \<lparr>x_enabled = False, x_allowed_commands = None\<rparr> | Some x \<Rightarrow> x))"

definition budgets_of :: "agent_def \<Rightarrow> budgets" where
  "budgets_of a = (case a_boundaries a of None \<Rightarrow> \<lparr>daily_usd = None, per_task_usd = None\<rparr>
     | Some b \<Rightarrow> (case b_budgets b of None \<Rightarrow> \<lparr>daily_usd = None, per_task_usd = None\<rparr> | Some u \<Rightarrow> u))"

definition data_of :: "agent_def \<Rightarrow> data_boundaries" where
  "data_of a =
     (let none = \<lparr>allowed_namespaces = [], blocked_namespaces = [], bd_pii_policy = None\<rparr>
      in case a_boundaries a of None \<Rightarrow> none
         | Some b \<Rightarrow> (case b_data b of None \<Rightarrow> none | Some d \<Rightarrow> d))"

definition policies_of :: "agent_def \<Rightarrow> policy_ref list" where
  "policies_of a = (case a_governance a of None \<Rightarrow> [] | Some g \<Rightarrow> g_policies g)"

subsection \<open>Reading a section of a raw dictionary\<close>

datatype section_error = UnknownSection string

definition v2_bag_keys :: "(string \<times> string) list" where
  "v2_bag_keys = [(''memory'', ''_memory''), (''guardrails'', ''_guardrails''),
     (''observability'', ''_observability''), (''runtime'', ''_runtime''),
     (''lifecycle'', ''_lifecycle''), (''capabilities'', ''_capabilities''),
     (''boundaries'', ''_boundaries''), (''triggers'', ''_triggers''),
     (''governance'', ''_governance''), (''drive'', ''_drive''),
     (''dependencies'', ''_dependencies''), (''namespace'', ''_namespace''),
     (''agent_version'', ''_agent_version''), (''labels'', ''_labels''),
     (''annotations'', ''_annotations'')]"

text \<open>A key that is present with a value other than \<open>None\<close>.\<close>

definition present :: "(string \<times> pyval) list \<Rightarrow> string \<Rightarrow> pyval option" where
  "present d k = (case map_of d k of None \<Rightarrow> None | Some PNone \<Rightarrow> None | Some v \<Rightarrow> Some v)"

definition section_from_spec :: "(string \<times> pyval) list \<Rightarrow> string \<Rightarrow> pyval \<Rightarrow> pyval" where
  "section_from_spec src sec dflt =
     (case map_of src ''spec'' of
        Some (PDict spec) \<Rightarrow> (case present spec sec of Some v \<Rightarrow> v | None \<Rightarrow> dflt)
      | _ \<Rightarrow> dflt)"

definition read_v2_section ::
    "(string \<times> pyval) list \<Rightarrow> string \<Rightarrow> pyval \<Rightarrow> section_error + pyval" where
  "read_v2_section src sec dflt =
     (case map_of v2_bag_keys sec of
        None \<Rightarrow> Inl (UnknownSection sec)
      | Some bag \<Rightarrow>
        (case present src sec of
           Some v \<Rightarrow> Inr v
         | None \<Rightarrow>
           (case map_of src ''metadata'' of
              Some (PDict md) \<Rightarrow>
                (case map_of md bag of
                   Some v \<Rightarrow> Inr v
                 | None \<Rightarrow> Inr (section_from_spec src sec dflt))
            | _ \<Rightarrow> Inr (section_from_spec src sec dflt))))"

lemma read_v2_section_first_class:
  assumes "map_of v2_bag_keys sec = Some bag" and "present src sec = Some v"
  shows "read_v2_section src sec dflt = Inr v"
  using assms by (simp add: read_v2_section_def)

lemma read_v2_section_bag:
  assumes "map_of v2_bag_keys sec = Some bag" and "present src sec = None"
    and "map_of src ''metadata'' = Some (PDict md)" and "map_of md bag = Some v"
  shows "read_v2_section src sec dflt = Inr v"
  using assms by (simp add: read_v2_section_def)

lemma read_v2_section_unknown:
  "map_of v2_bag_keys sec = None \<Longrightarrow> read_v2_section src sec dflt = Inl (UnknownSection sec)"
  by (simp add: read_v2_section_def)

lemma read_v2_section_known:
  "map_of v2_bag_keys sec = Some bag \<Longrightarrow> \<exists>v. read_v2_section src sec dflt = Inr v"
  by (auto simp: read_v2_section_def split: option.splits pyval.splits)

lemma fold_legacy_hitl_idem: "fold_legacy_hitl (fold_legacy_hitl g) = fold_legacy_hitl g"
  by (simp add: fold_legacy_hitl_def)

end
