(* ===== verification/Registry.thy ===== *)
theory Registry
  imports Manifest
begin

text \<open>
  The agent registry (\<open>src/src/platform/registry.py\<close>): the in-memory catalogue of agent definitions
  and their legacy statuses.  The optional Postgres backing store is left out: every operation is
  the one of a registry constructed without a store.  Humans are registered in the A2H gateway
  model.
\<close>

datatype agent_status = SIdle | SRunning | SPaused | SStopped | SFailed | SCompleted | SQuarantined

record registry =
  r_agents :: "(string, agent_def) dict"
  r_statuses :: "(string, agent_status) dict"

datatype registry_error = AlreadyRegistered string | NotFound string

definition empty_registry :: registry where
  "empty_registry = \<lparr>r_agents = [], r_statuses = []\<rparr>"

definition reg_register :: "agent_def \<Rightarrow> registry \<Rightarrow> registry_error + string \<times> registry" where
  "reg_register a r =
     (if map_of (r_agents r) (a_id a) \<noteq> None then Inl (AlreadyRegistered (a_id a))
      else Inr (a_id a, r\<lparr>r_agents := dset (a_id a) a (r_agents r),
                          r_statuses := dset (a_id a) SIdle (r_statuses r)\<rparr>))"

definition reg_update :: "agent_def \<Rightarrow> registry \<Rightarrow> registry_error + string \<times> registry" where
  "reg_update a r =
     (if map_of (r_agents r) (a_id a) = None then Inl (NotFound (a_id a))
      else Inr (a_id a, r\<lparr>r_agents := dset (a_id a) a (r_agents r)\<rparr>))"

definition reg_unregister :: "string \<Rightarrow> registry \<Rightarrow> bool \<times> registry" where
  "reg_unregister k r =
     (if map_of (r_agents r) k \<noteq> None
      then (True, r\<lparr>r_agents := dpop k (r_agents r), r_statuses := dpop k (r_statuses r)\<rparr>)
      else (False, r))"

definition reg_get :: "registry \<Rightarrow> string \<Rightarrow> agent_def option" where
  "reg_get r k = map_of (r_agents r) k"

definition reg_set_status :: "string \<Rightarrow> agent_status \<Rightarrow> registry \<Rightarrow> registry" where
  "reg_set_status k st r =
     (if map_of (r_agents r) k \<noteq> None then r\<lparr>r_statuses := dset k st (r_statuses r)\<rparr> else r)"

definition reg_get_status :: "registry \<Rightarrow> string \<Rightarrow> agent_status" where
  "reg_get_status r k = dget_default (r_statuses r) k SStopped"

definition reg_list_all :: "registry \<Rightarrow> agent_def list" where
  "reg_list_all r = dvals (r_agents r)"

text \<open>A falsy filter (\<open>None\<close> or the empty string) does not filter.\<close>

definition wants :: "'a option \<Rightarrow> 'a \<Rightarrow> bool" where
  "wants f x = (case f of None \<Rightarrow> True | Some y \<Rightarrow> x = y)"

definition wants_str :: "string option \<Rightarrow> string option \<Rightarrow> bool" where
  "wants_str f x = (case f of None \<Rightarrow> True | Some y \<Rightarrow> y = [] \<or> x = Some y)"

definition reg_query :: "string option \<Rightarrow> execution_type option \<Rightarrow> ownership_type option \<Rightarrow>
    string option \<Rightarrow> string option \<Rightarrow> agent_status option \<Rightarrow> registry \<Rightarrow> agent_def list" where
  "reg_query stack exec own owner dept st r =
     filter (\<lambda>a. wants st (reg_get_status r (a_id a)))
       (filter (\<lambda>a. wants_str dept (Some (a_department a)))
         (filter (\<lambda>a. wants_str owner (a_owner a))
           (filter (\<lambda>a. wants own (a_ownership a))
             (filter (\<lambda>a. wants exec (a_execution a))
               (filter (\<lambda>a. wants_str stack (Some (a_stack a))) (reg_list_all r))))))"

text \<open>\<open>counts[k] = counts.get(k, 0) + 1\<close>\<close>

definition count_up :: "'k \<Rightarrow> ('k, nat) dict \<Rightarrow> ('k, nat) dict" where
  "count_up k d = dset k (dget_default d k 0 + 1) d"

definition reg_count_by_stack :: "registry \<Rightarrow> (string, nat) dict" where
  "reg_count_by_stack r =
     fold (\<lambda>a. count_up (a_stack a)) (reg_list_all r) (map (\<lambda>s. (s, 0)) stack_names)"

definition reg_running :: "registry \<Rightarrow> nat" where
  "reg_running r = length (filter (\<lambda>s. s = SRunning) (dvals (r_statuses r)))"

subsection \<open>Invariant\<close>

text \<open>Agents are stored under their id, and exactly the registered agents have a status.\<close>

definition reg_ok :: "registry \<Rightarrow> bool" where
  "reg_ok r = (keyed a_id (r_agents r) \<and> dict_ok (r_statuses r)
     \<and> (\<forall>k. map_of (r_agents r) k = None \<longleftrightarrow> map_of (r_statuses r) k = None))"

lemma reg_okI:
  "keyed a_id (r_agents r) \<Longrightarrow> dict_ok (r_statuses r)
   \<Longrightarrow> (\<And>k. map_of (r_agents r) k = None \<longleftrightarrow> map_of (r_statuses r) k = None) \<Longrightarrow> reg_ok r"
  by (simp add: reg_ok_def)

lemma reg_ok_empty [inv_intros]: "reg_ok empty_registry"
  by (simp add: reg_ok_def empty_registry_def)

lemma reg_ok_register [inv_intros]: "reg_ok r \<Longrightarrow> reg_register a r = Inr (i, r') \<Longrightarrow> reg_ok r'"
  by (auto simp: reg_register_def reg_ok_def intro: keyed_dset split: if_splits)

lemma reg_ok_update [inv_intros]: "reg_ok r \<Longrightarrow> reg_update a r = Inr (i, r') \<Longrightarrow> reg_ok r'"
  by (auto simp: reg_update_def reg_ok_def intro: keyed_dset split: if_splits)

lemma reg_ok_unregister [inv_intros]: "reg_ok r \<Longrightarrow> reg_ok (snd (reg_unregister k r))"
  by (auto simp: reg_unregister_def reg_ok_def intro: keyed_dpop split: if_splits)

lemma reg_ok_set_status [inv_intros]: "reg_ok r \<Longrightarrow> reg_ok (reg_set_status k st r)"
  by (auto simp: reg_set_status_def reg_ok_def)

lemma reg_agents_set_status [simp]: "r_agents (reg_set_status k st r) = r_agents r"
  by (simp add: reg_set_status_def)

lemma reg_get_status_set [simp]:
  "reg_get_status (reg_set_status k st r) k' =
     (if k' = k \<and> map_of (r_agents r) k \<noteq> None then st else reg_get_status r k')"
  by (auto simp: reg_set_status_def reg_get_status_def)

subsection \<open>Counting\<close>

lemma count_up_keys: "set (dkeys (count_up k d)) = insert k (set (dkeys d))"
  by (simp add: count_up_def dom_update image_Un)

lemma count_up_get: "dget_default (count_up k d) k' 0 = dget_default d k' 0 + (if k' = k then 1 else 0)"
  by (simp add: count_up_def)

lemma fold_count_up:
  "dget_default (fold (\<lambda>a. count_up (f a)) xs d) k 0 =
     dget_default d k 0 + length (filter (\<lambda>a. f a = k) xs)"
  by (induction xs arbitrary: d) (auto simp: count_up_get)

lemma dget_default_zeros: "dget_default (map (\<lambda>s. (s, 0)) ks) k (0::nat) = 0"
  by (induction ks) (auto simp: dget_default_def)

lemma reg_count_by_stack_get:
  "dget_default (reg_count_by_stack r) s 0 = length (filter (\<lambda>a. a_stack a = s) (reg_list_all r))"
  by (simp add: reg_count_by_stack_def fold_count_up dget_default_zeros)

lemma reg_query_sound:
  "a \<in> set (reg_query stack exec own owner dept st r) \<longleftrightarrow>
     a \<in> set (reg_list_all r) \<and> wants_str stack (Some (a_stack a)) \<and> wants exec (a_execution a)
     \<and> wants own (a_ownership a) \<and> wants_str owner (a_owner a)
     \<and> wants_str dept (Some (a_department a)) \<and> wants st (reg_get_status r (a_id a))"
  by (auto simp: reg_query_def)

end
