(* ===== verification/Pyrt.thy ===== *)
theory Pyrt
  imports Prelude
begin

text \<open>
  The parts of the Python run time the modelled code uses: exceptions as values, \<open>str\<close>, \<open>repr\<close> and
  the \<open>.2f\<close> format, \<open>str.split\<close>, and \<open>float(x)\<close> on JSON values.  A float is its exact rational
  value, so \<open>str\<close> of a float writes the decimal expansion (at most 17 digits) and does not use the
  exponent form; \<open>repr\<close> of a string escapes the quote, the backslash, tab, newline and return.
\<close>

subsection \<open>Exceptions\<close>

datatype py_exn = TypeError | ValueError | KeyError string | AttributeError string | Raised string

type_synonym 'a res = "py_exn + 'a"

definition rbind :: "'a res \<Rightarrow> ('a \<Rightarrow> 'b res) \<Rightarrow> 'b res" where
  "rbind r f = (case r of Inl e \<Rightarrow> Inl e | Inr x \<Rightarrow> f x)"

lemma rbind_simps [simp]: "rbind (Inl e) f = Inl e" "rbind (Inr x) f = f x"
  by (simp_all add: rbind_def)

lemma rbind_eq_Inr: "rbind r f = Inr y \<longleftrightarrow> (\<exists>x. r = Inr x \<and> f x = Inr y)"
  by (cases r) simp_all

lemma rbind_eq_Inl: "rbind r f = Inl e \<longleftrightarrow> r = Inl e \<or> (\<exists>x. r = Inr x \<and> f x = Inl e)"
  by (cases r) simp_all

lemma isl_Inr_iff: "\<not> isl r \<longleftrightarrow> (\<exists>x. r = Inr x)"
  by (cases r) simp_all

subsection \<open>Printing\<close>

definition digit_char :: "nat \<Rightarrow> char" where
  "digit_char d = char_of (48 + d)"

fun str_nat :: "nat \<Rightarrow> string" where
  "str_nat n = (if n < 10 then [digit_char n] else str_nat (n div 10) @ [digit_char (n mod 10)])"

declare str_nat.simps [simp del]

definition str_int :: "int \<Rightarrow> string" where
  "str_int i = (if i < 0 then CHR ''-'' # str_nat (nat (- i)) else str_nat (nat i))"

text \<open>The digits after the point of a remainder over a denominator.\<close>

fun frac_digits :: "nat \<Rightarrow> nat \<Rightarrow> nat \<Rightarrow> string" where
  "frac_digits 0 r d = []"
| "frac_digits (Suc k) r d =
     digit_char (10 * r div d) # (if 10 * r mod d = 0 then [] else frac_digits k (10 * r mod d) d)"

definition str_float :: "rat \<Rightarrow> string" where
  "str_float x = (case quotient_of \<bar>x\<bar> of (n, d) \<Rightarrow>
     (if x < 0 then ''-'' else []) @ str_int (n div d) @ ''.'' @ frac_digits 17 (nat (n mod d)) (nat d))"

text \<open>The nearest integer, half to even.\<close>

definition half_even :: "rat \<Rightarrow> int" where
  "half_even x = (let f = \<lfloor>x\<rfloor>; r = x - of_int f
     in if r < 1 / 2 then f else if 1 / 2 < r then f + 1 else if even f then f else f + 1)"

text \<open>\<open>f"{x:.2f}"\<close>.\<close>

definition cents :: "rat \<Rightarrow> int" where
  "cents x = half_even (100 * x)"

definition fmt2 :: "rat \<Rightarrow> string" where
  "fmt2 x = (let c = cents \<bar>x\<bar>
     in (if x < 0 then ''-'' else []) @ str_int (c div 100) @ ''.'' @
        [digit_char (nat (c mod 100) div 10), digit_char (nat (c mod 100) mod 10)])"

definition quote_char :: char where
  "quote_char = CHR 0x27"

text \<open>\<open>f"'{s}'"\<close>\<close>

definition quoted :: "string \<Rightarrow> string" where
  "quoted s = quote_char # s @ [quote_char]"

definition escape_char :: "char \<Rightarrow> char \<Rightarrow> string" where
  "escape_char q c =
     (if c = q \<or> c = CHR 0x5C then [CHR 0x5C, c]
      else if c = CHR 0x0A then [CHR 0x5C, CHR ''n'']
      else if c = CHR 0x0D then [CHR 0x5C, CHR ''r'']
      else if c = CHR 0x09 then [CHR 0x5C, CHR ''t'']
      else [c])"

definition repr_str :: "string \<Rightarrow> string" where
  "repr_str s = (let q = (if quote_char \<in> set s \<and> CHR 0x22 \<notin> set s then CHR 0x22 else quote_char)
     in q # concat (map (escape_char q) s) @ [q])"

definition joined :: "string \<Rightarrow> string list \<Rightarrow> string" where
  "joined sep xs = (case xs of [] \<Rightarrow> [] | x # ys \<Rightarrow> x @ concat (map (\<lambda>y. sep @ y) ys))"

primrec py_repr :: "pyval \<Rightarrow> string"
  and py_repr_list :: "pyval list \<Rightarrow> string list"
  and py_repr_items :: "(string \<times> pyval) list \<Rightarrow> string list"
  and py_repr_item :: "string \<times> pyval \<Rightarrow> string" where
  "py_repr PNone = ''None''"
| "py_repr (PBool b) = (if b then ''True'' else ''False'')"
| "py_repr (PInt i) = str_int i"
| "py_repr (PFloat x) = str_float x"
| "py_repr (PStr s) = repr_str s"
| "py_repr (PList xs) = ''['' @ joined '', '' (py_repr_list xs) @ '']''"
| "py_repr (PDict d) = ''{'' @ joined '', '' (py_repr_items d) @ ''}''"
| "py_repr_list [] = []"
| "py_repr_list (x # xs) = py_repr x # py_repr_list xs"
| "py_repr_items [] = []"
| "py_repr_items (p # d) = py_repr_item p # py_repr_items d"
| "py_repr_item (k, v) = repr_str k @ '': '' @ py_repr v"

definition py_str :: "pyval \<Rightarrow> string" where
  "py_str v = (case v of PStr s \<Rightarrow> s | _ \<Rightarrow> py_repr v)"

definition repr_strs :: "string list \<Rightarrow> string" where
  "repr_strs xs = py_repr (PList (map PStr xs))"

text \<open>\<open>str(exc)\<close>, up to the messages of the run time itself.\<close>

definition exn_text :: "py_exn \<Rightarrow> string" where
  "exn_text e = (case e of TypeError \<Rightarrow> ''TypeError'' | ValueError \<Rightarrow> ''ValueError'' | KeyError k \<Rightarrow> repr_str k
     | AttributeError a \<Rightarrow> ''no attribute '' @ quoted a | Raised m \<Rightarrow> m)"

subsection \<open>Splitting and stripping\<close>

text \<open>\<open>s.split(c)\<close> for a one-character separator.\<close>

fun split_on :: "char \<Rightarrow> string \<Rightarrow> string list" where
  "split_on c [] = [[]]"
| "split_on c (x # s) = (if x = c then [] # split_on c s
     else (case split_on c s of [] \<Rightarrow> [[x]] | w # ws \<Rightarrow> (x # w) # ws))"

definition is_space :: "char \<Rightarrow> bool" where
  "is_space c = (let n = of_char c :: nat in n = 32 \<or> (9 \<le> n \<and> n \<le> 13) \<or> (28 \<le> n \<and> n \<le> 31))"

definition strip :: "string \<Rightarrow> string" where
  "strip s = rstrip is_space (dropWhile is_space s)"

text \<open>The first word of \<open>s.strip().split()\<close>, the empty string if there is none.\<close>

definition first_word :: "string \<Rightarrow> string" where
  "first_word s = takeWhile (\<lambda>c. \<not> is_space c) (dropWhile is_space s)"

definition lower_char :: "char \<Rightarrow> char" where
  "lower_char c = (let n = of_char c :: nat in if 65 \<le> n \<and> n \<le> 90 then char_of (n + 32) else c)"

definition lower :: "string \<Rightarrow> string" where
  "lower s = map lower_char s"

lemma split_on_no_sep: "c \<notin> set s \<Longrightarrow> split_on c s = [s]"
  by (induction s) auto

lemma split_on_append: "c \<notin> set s \<Longrightarrow> split_on c (s @ c # t) = s # split_on c t"
  by (induction s) auto

subsection \<open>\<open>float(x)\<close>\<close>

datatype pyfloat = Fin rat | PosInf | NegInf | NaN

fun fl_less :: "pyfloat \<Rightarrow> pyfloat \<Rightarrow> bool" where
  "fl_less (Fin x) (Fin y) = (x < y)"
| "fl_less (Fin _) PosInf = True"
| "fl_less NegInf (Fin _) = True"
| "fl_less NegInf PosInf = True"
| "fl_less _ _ = False"

definition is_digit :: "char \<Rightarrow> bool" where
  "is_digit c = (let n = of_char c :: nat in 48 \<le> n \<and> n \<le> 57)"

definition digit_val :: "char \<Rightarrow> nat" where
  "digit_val c = of_char c - 48"

text \<open>Digits, with single underscores between them; the flag says that a digit came before.\<close>

fun scan_digits :: "bool \<Rightarrow> string \<Rightarrow> nat list \<times> string" where
  "scan_digits prev [] = ([], [])"
| "scan_digits prev (c # cs) =
     (if is_digit c then (case scan_digits True cs of (ds, r) \<Rightarrow> (digit_val c # ds, r))
      else if c = CHR ''_'' \<and> prev \<and> (case cs of [] \<Rightarrow> False | d # _ \<Rightarrow> is_digit d)
           then scan_digits False cs
      else ([], c # cs))"

definition digits_value :: "nat list \<Rightarrow> nat" where
  "digits_value ds = foldl (\<lambda>a d. 10 * a + d) 0 ds"

definition scan_sign :: "string \<Rightarrow> bool \<times> string" where
  "scan_sign s = (case s of [] \<Rightarrow> (False, [])
     | c # t \<Rightarrow> if c = CHR ''-'' then (True, t) else if c = CHR ''+'' then (False, t) else (False, s))"

definition scan_exponent :: "string \<Rightarrow> int option" where
  "scan_exponent s = (case s of [] \<Rightarrow> Some 0
     | c # t \<Rightarrow> if c \<in> {CHR ''e'', CHR ''E''}
                then (case scan_sign t of (neg, u) \<Rightarrow> case scan_digits False u of (ds, r) \<Rightarrow>
                  if ds = [] \<or> r \<noteq> [] then None
                  else Some ((if neg then -1 else 1) * int (digits_value ds)))
                else None)"

definition pow10 :: "int \<Rightarrow> rat" where
  "pow10 e = (if 0 \<le> e then 10 ^ nat e else 1 / 10 ^ nat (- e))"

definition scan_decimal :: "string \<Rightarrow> rat option" where
  "scan_decimal s =
     (case scan_digits False s of (ip, r) \<Rightarrow>
      case (case r of [] \<Rightarrow> ([], []) | c # t \<Rightarrow> if c = CHR ''.'' then scan_digits False t else ([], r))
        of (fp, r') \<Rightarrow>
      if ip @ fp = [] then None
      else map_option (\<lambda>e. of_nat (digits_value (ip @ fp)) * pow10 (e - int (length fp)))
             (scan_exponent r'))"

definition float_of_str :: "string \<Rightarrow> pyfloat option" where
  "float_of_str s =
     (case scan_sign (strip s) of (neg, t) \<Rightarrow>
        if lower t \<in> {''inf'', ''infinity''} then Some (if neg then NegInf else PosInf)
        else if lower t = ''nan'' then Some NaN
        else map_option (\<lambda>x. Fin (if neg then - x else x)) (scan_decimal t))"

text \<open>\<open>None\<close> is the \<open>TypeError\<close> or \<open>ValueError\<close>.\<close>

definition py_float :: "pyval \<Rightarrow> pyfloat option" where
  "py_float v = (case v of PStr s \<Rightarrow> float_of_str s | _ \<Rightarrow> map_option Fin (num_of v))"

end
