(* ===== verification/Rules.thy ===== *)
theory Rules
  imports Manifest Pyrt
begin

text \<open>
  Decisions, JSON-logic rules and the policy engine of the kernel
  (\<open>src/src/platform/kernel/_facade.py\<close>).  A decision keeps its action, reason and details; its
  random audit id and time stamp are read by nothing in the kernel and are left out.
\<close>

subsection \<open>Decisions\<close>

datatype action = Allow | Deny | Mask | AskHuman | RateLimit

fun action_value :: "action \<Rightarrow> string" where
  "action_value Allow = ''allow''"
| "action_value Deny = ''deny''"
| "action_value Mask = ''mask''"
| "action_value AskHuman = ''ask_human''"
| "action_value RateLimit = ''rate_limit''"

type_synonym details = "(string \<times> pyval) list"

record decision =
  d_action :: action
  d_reason :: string
  d_details :: details

definition d_allow :: "string \<Rightarrow> details \<Rightarrow> decision" where
  "d_allow r d = \<lparr>d_action = Allow, d_reason = r, d_details = d\<rparr>"

definition d_deny :: "string \<Rightarrow> details \<Rightarrow> decision" where
  "d_deny r d = \<lparr>d_action = Deny, d_reason = r, d_details = d\<rparr>"

definition d_ask_human :: "string \<Rightarrow> details \<Rightarrow> decision" where
  "d_ask_human r d = \<lparr>d_action = AskHuman, d_reason = r, d_details = d\<rparr>"

definition d_mask :: "string \<Rightarrow> details \<Rightarrow> decision" where
  "d_mask r d = \<lparr>d_action = Mask, d_reason = r, d_details = d\<rparr>"

definition allowed :: "decision \<Rightarrow> bool" where
  "allowed d = (d_action d = Allow)"

definition denied :: "decision \<Rightarrow> bool" where
  "denied d = (d_action d = Deny)"

definition needs_human :: "decision \<Rightarrow> bool" where
  "needs_human d = (d_action d = AskHuman)"

lemma d_action_simps [simp]:
  "d_action (d_allow r d) = Allow" "d_action (d_deny r d) = Deny"
  "d_action (d_ask_human r d) = AskHuman" "d_action (d_mask r d) = Mask"
  by (simp_all add: d_allow_def d_deny_def d_ask_human_def d_mask_def)

lemma d_details_simps [simp]:
  "d_details (d_allow r d) = d" "d_details (d_deny r d) = d"
  "d_details (d_ask_human r d) = d" "d_details (d_mask r d) = d"
  by (simp_all add: d_allow_def d_deny_def d_ask_human_def d_mask_def)

subsection \<open>Predicates\<close>

definition dict_get :: "pyval \<Rightarrow> string \<Rightarrow> pyval option" where
  "dict_get v k = (case v of PDict d \<Rightarrow> Some (dget_default d k PNone) | _ \<Rightarrow> None)"

text \<open>\<open>_get_field\<close>: follow a dotted path; leaving the dictionaries yields \<open>None\<close>.\<close>

fun walk_path :: "pyval \<Rightarrow> string list \<Rightarrow> pyval" where
  "walk_path v [] = v"
| "walk_path v (p # ps) = (case dict_get v p of Some w \<Rightarrow> walk_path w ps | None \<Rightarrow> PNone)"

definition get_field :: "pyval \<Rightarrow> string \<Rightarrow> pyval" where
  "get_field context path = walk_path context (split_on (CHR ''.'') path)"

text \<open>\<open>actual in (target or [])\<close>; membership in a string needs a string, in a dictionary a hashable
  value, and a number is no container.\<close>

definition contained_in :: "pyval \<Rightarrow> pyval \<Rightarrow> bool res" where
  "contained_in x target =
     (if \<not> truthy target then Inr False
      else case target of
        PList ys \<Rightarrow> Inr (py_in x ys)
      | PStr s \<Rightarrow> (case x of PStr p \<Rightarrow> Inr (is_substring p s) | _ \<Rightarrow> Inl TypeError)
      | PDict d \<Rightarrow> (case x of PStr k \<Rightarrow> Inr (k \<in> set (dkeys d)) | PList _ \<Rightarrow> Inl TypeError
                    | PDict _ \<Rightarrow> Inl TypeError | _ \<Rightarrow> Inr False)
      | _ \<Rightarrow> Inl TypeError)"

text \<open>What \<open>for s in (target or [])\<close> iterates over.\<close>

definition iterate :: "pyval \<Rightarrow> pyval list res" where
  "iterate target =
     (if \<not> truthy target then Inr []
      else case target of
        PList ys \<Rightarrow> Inr ys
      | PStr s \<Rightarrow> Inr (map (\<lambda>c. PStr [c]) s)
      | PDict d \<Rightarrow> Inr (map (\<lambda>k. PStr k) (dkeys d))
      | _ \<Rightarrow> Inl TypeError)"

definition on_str :: "pyval \<Rightarrow> (string \<Rightarrow> bool res) \<Rightarrow> bool res" where
  "on_str v f = (case v of PStr s \<Rightarrow> f s | _ \<Rightarrow> Inr False)"

definition ends_with_any :: "string \<Rightarrow> pyval \<Rightarrow> bool res" where
  "ends_with_any s target = rbind (iterate target) (\<lambda>ys. Inr (list_ex (\<lambda>y. ends_with (py_str y) s) ys))"

definition eval_predicate :: "predicate \<Rightarrow> pyval \<Rightarrow> bool res" where
  "eval_predicate p context =
     (let opr = (case pd_op p of None \<Rightarrow> ''equals'' | Some x \<Rightarrow> x);
          actual = get_field context (pd_field p);
          target = pd_value p
      in if opr = ''equals'' then Inr (py_eq actual target)
         else if opr = ''contains'' then on_str actual (\<lambda>s. Inr (is_substring (py_str target) s))
         else if opr = ''startswith'' then on_str actual (\<lambda>s. Inr (starts_with (py_str target) s))
         else if opr = ''endswith'' then on_str actual (\<lambda>s. Inr (ends_with (py_str target) s))
         else if opr = ''gt'' \<or> opr = ''lt'' then
           Inr (case (py_float actual, py_float target) of
                  (Some x, Some y) \<Rightarrow> if opr = ''gt'' then fl_less y x else fl_less x y
                | _ \<Rightarrow> False)
         else if opr = ''in'' then contained_in actual target
         else if opr = ''not_in'' then rbind (contained_in actual target) (\<lambda>b. Inr (\<not> b))
         else if opr = ''endswith_any'' then on_str actual (\<lambda>s. ends_with_any s target)
         else if opr = ''not_endswith_any'' then
           on_str actual (\<lambda>s. rbind (ends_with_any s target) (\<lambda>b. Inr (\<not> b)))
         else Inr False)"

lemma get_field_top: "CHR ''.'' \<notin> set k \<Longrightarrow> get_field (PDict d) k = dget_default d k PNone"
  by (simp add: get_field_def split_on_no_sep dict_get_def)

lemma get_field_nested:
  "CHR ''.'' \<notin> set k \<Longrightarrow> get_field (PDict d) (k @ CHR ''.'' # path) =
     get_field (dget_default d k PNone) path"
  by (simp add: get_field_def split_on_append dict_get_def)

lemma get_field_no_dict: "(\<And>d. v \<noteq> PDict d) \<Longrightarrow> get_field v path = PNone"
proof -
  assume "\<And>d. v \<noteq> PDict d"
  then have "dict_get v k = None" for k by (cases v) (auto simp: dict_get_def)
  moreover have "split_on c path \<noteq> []" for c
    by (induction path) (auto split: list.splits)
  ultimately show ?thesis
    by (cases "split_on (CHR ''.'') path") (auto simp: get_field_def)
qed

text \<open>A list on the right never raises.\<close>

lemma contained_in_list [simp]: "contained_in x (PList ys) = Inr (py_in x ys)"
  by (auto simp: contained_in_def py_in_def)

lemma ends_with_any_list [simp]:
  "ends_with_any s (PList ys) = Inr (list_ex (\<lambda>y. ends_with (py_str y) s) ys)"
  by (auto simp: ends_with_any_def iterate_def)

text \<open>Predicates whose target cannot make the evaluation raise.\<close>

definition well_typed :: "predicate \<Rightarrow> bool" where
  "well_typed p = (pd_op p \<in> Some ` {''in'', ''not_in'', ''endswith_any'', ''not_endswith_any''}
     \<longrightarrow> (case pd_value p of PList _ \<Rightarrow> True | PNone \<Rightarrow> True | _ \<Rightarrow> False))"

lemma contained_in_None [simp]: "contained_in x PNone = Inr False"
  by (simp add: contained_in_def)

lemma ends_with_any_None [simp]: "ends_with_any s PNone = Inr False"
  by (simp add: ends_with_any_def iterate_def)

lemma if_total:
  "(c \<Longrightarrow> \<exists>b. x = Inr b) \<Longrightarrow> (\<not> c \<Longrightarrow> \<exists>b. y = Inr b) \<Longrightarrow> \<exists>b. (if c then x else y) = Inr b"
  by simp

lemma on_str_total: "(\<And>s. \<exists>b. f s = Inr b) \<Longrightarrow> \<exists>b. on_str v f = Inr b"
  by (cases v) (auto simp: on_str_def)

lemma Inr_total: "\<exists>b. Inr x = Inr b"
  by simp

lemma rbind_total: "\<exists>b. r = Inr b \<Longrightarrow> (\<And>x. \<exists>b. f x = Inr b) \<Longrightarrow> \<exists>b. rbind r f = Inr b"
  by auto

lemma eval_predicate_total:
  assumes "well_typed p" shows "\<exists>b. eval_predicate p context = Inr b"
proof -
  let ?opr = "case pd_op p of None \<Rightarrow> ''equals'' | Some x \<Rightarrow> x"
  have target: "pd_value p = PNone \<or> (\<exists>ys. pd_value p = PList ys)"
    if "?opr \<in> {''in'', ''not_in'', ''endswith_any'', ''not_endswith_any''}"
    using assms that by (auto simp: well_typed_def split: pyval.splits option.splits)
  then have cont: "?opr \<in> {''in'', ''not_in''} \<Longrightarrow> \<exists>b. contained_in x (pd_value p) = Inr b"
    and ends: "?opr \<in> {''endswith_any'', ''not_endswith_any''} \<Longrightarrow>
      \<exists>b. ends_with_any t (pd_value p) = Inr b" for x t
    by fastforce+
  show ?thesis
    unfolding eval_predicate_def Let_def
    by (intro if_total on_str_total rbind_total cont ends Inr_total) simp_all
qed

text \<open>\<open>not_in\<close> negates \<open>in\<close>; \<open>not_endswith_any\<close> negates \<open>endswith_any\<close> on strings only.\<close>

lemma negated_predicates:
  assumes "pd_value p = PList ys"
  shows "eval_predicate (p\<lparr>pd_op := Some ''not_in''\<rparr>) context =
      map_sum id Not (eval_predicate (p\<lparr>pd_op := Some ''in''\<rparr>) context) \<and>
    eval_predicate (p\<lparr>pd_op := Some ''not_endswith_any''\<rparr>) context =
      (case get_field context (pd_field p) of
         PStr s \<Rightarrow> map_sum id Not (eval_predicate (p\<lparr>pd_op := Some ''endswith_any''\<rparr>) context)
       | _ \<Rightarrow> Inr False)"
  using assms by (auto simp: eval_predicate_def Let_def on_str_def split: pyval.splits)

subsection \<open>Tri-state rules\<close>

datatype verdict = VAllow | VAsk | VDeny

text \<open>Verdicts are ordered by severity.\<close>

fun severity :: "verdict \<Rightarrow> nat" where
  "severity VAllow = 0" | "severity VAsk = 1" | "severity VDeny = 2"

lemma severity_inj: "severity x = severity y \<Longrightarrow> x = y"
  by (cases x; cases y) simp_all

instantiation verdict :: linorder
begin

definition less_eq_verdict :: "verdict \<Rightarrow> verdict \<Rightarrow> bool" where
  "less_eq_verdict x y = (severity x \<le> severity y)"

definition less_verdict :: "verdict \<Rightarrow> verdict \<Rightarrow> bool" where
  "less_verdict x y = (severity x < severity y)"

instance
  by standard (auto simp: less_eq_verdict_def less_verdict_def intro: severity_inj)

end

definition clause_fires :: "predicate option \<Rightarrow> pyval \<Rightarrow> bool res" where
  "clause_fires c context = (case c of None \<Rightarrow> Inr False | Some p \<Rightarrow> eval_predicate p context)"

definition evaluate_rule_tristate :: "rule \<Rightarrow> pyval \<Rightarrow> verdict res" where
  "evaluate_rule_tristate r context =
     rbind (clause_fires (deny_if r) context) (\<lambda>dn.
       if dn then Inr VDeny
       else rbind (clause_fires (ask_human_if r) context) (\<lambda>ak.
         Inr (if ak then VAsk else VAllow)))"

lemma verdict_deny_iff:
  "evaluate_rule_tristate r context = Inr VDeny \<longleftrightarrow> clause_fires (deny_if r) context = Inr True"
  by (cases "clause_fires (deny_if r) context"; cases "clause_fires (ask_human_if r) context")
    (auto simp: evaluate_rule_tristate_def)

lemma verdict_ask_iff:
  "evaluate_rule_tristate r context = Inr VAsk \<longleftrightarrow>
     clause_fires (deny_if r) context = Inr False \<and> clause_fires (ask_human_if r) context = Inr True"
  by (cases "clause_fires (deny_if r) context"; cases "clause_fires (ask_human_if r) context")
    (auto simp: evaluate_rule_tristate_def)

definition rule_well_typed :: "rule \<Rightarrow> bool" where
  "rule_well_typed r = (pred_option well_typed (deny_if r) \<and> pred_option well_typed (ask_human_if r))"

lemma clause_fires_total: "pred_option well_typed c \<Longrightarrow> \<exists>b. clause_fires c context = Inr b"
  by (cases c) (auto simp: clause_fires_def intro: eval_predicate_total)

lemma evaluate_rule_total:
  assumes "rule_well_typed r" shows "\<exists>v. evaluate_rule_tristate r context = Inr v"
  using assms clause_fires_total [of "deny_if r" "context"] clause_fires_total [of "ask_human_if r" "context"]
  by (auto simp: rule_well_typed_def evaluate_rule_tristate_def)

subsection \<open>The policy engine\<close>

type_synonym policy_engine = "(string, rule) dict"

definition load_policy :: "string \<Rightarrow> rule \<Rightarrow> policy_engine \<Rightarrow> policy_engine" where
  "load_policy name r pe = dset name r pe"

definition empty_rule :: "rule \<Rightarrow> bool" where
  "empty_rule r = (\<not> has_keys r)"

text \<open>\<open>ref.get("inline") or self._policies.get(policy_name)\<close>, where an empty rule counts as missing.\<close>

definition resolve_policy :: "policy_engine \<Rightarrow> policy_ref \<Rightarrow> rule option" where
  "resolve_policy pe ref =
     (case (case pol_inline ref of
              Some r \<Rightarrow> if empty_rule r then map_of pe (pol_name ref) else Some r
            | None \<Rightarrow> map_of pe (pol_name ref)) of
        None \<Rightarrow> None
      | Some r \<Rightarrow> if empty_rule r then None else Some r)"

fun evaluate_refs :: "policy_engine \<Rightarrow> string option \<Rightarrow> policy_ref list \<Rightarrow> pyval \<Rightarrow> decision res" where
  "evaluate_refs pe asked [] context = Inr
     (case asked of
        Some n \<Rightarrow> d_ask_human (''Policy '' @ quoted n @ '' requires human approval'') [(''policy'', PStr n)]
      | None \<Rightarrow> d_allow ''all policies permit'' [])"
| "evaluate_refs pe asked (ref # refs) context =
     (case resolve_policy pe ref of
        None \<Rightarrow> Inr (d_deny (''Policy '' @ quoted (pol_name ref) @ '' not loaded (referenced but missing)'')
                  [(''policy'', PStr (pol_name ref))])
      | Some r \<Rightarrow> rbind (evaluate_rule_tristate r context) (\<lambda>v.
          if v = VDeny then Inr (d_deny (''Policy '' @ quoted (pol_name ref) @ '' denies action'')
                  [(''policy'', PStr (pol_name ref))])
          else evaluate_refs pe
            (if v = VAsk \<and> asked = None then Some (pol_name ref) else asked) refs context))"

definition pe_evaluate :: "policy_engine \<Rightarrow> policy_ref list \<Rightarrow> pyval \<Rightarrow> decision res" where
  "pe_evaluate pe refs context = evaluate_refs pe None refs context"

text \<open>What one reference contributes: a missing policy is a denial.\<close>

definition ref_verdict :: "policy_engine \<Rightarrow> pyval \<Rightarrow> policy_ref \<Rightarrow> verdict res" where
  "ref_verdict pe context ref = (case resolve_policy pe ref of None \<Rightarrow> Inr VDeny
     | Some r \<Rightarrow> evaluate_rule_tristate r context)"

definition verdict_action :: "verdict \<Rightarrow> action" where
  "verdict_action v = (case v of VAllow \<Rightarrow> Allow | VAsk \<Rightarrow> AskHuman | VDeny \<Rightarrow> Deny)"

lemma verdict_le_simps [simp]:
  "VAllow \<le> v" "v \<le> VDeny" "max VAllow v = v" "max v VAllow = v" "max VDeny v = VDeny"
  "max v VDeny = VDeny"
  by (cases v; simp add: less_eq_verdict_def max_def)+

text \<open>With verdicts \<open>vs\<close> for the references, the engine's action is the most severe one.\<close>

lemma evaluate_refs_action:
  assumes "map (ref_verdict pe context) refs = map Inr vs"
  shows "\<exists>d. evaluate_refs pe asked refs context = Inr d \<and>
    d_action d = verdict_action (fold max vs (case asked of None \<Rightarrow> VAllow | Some _ \<Rightarrow> VAsk))"
  using assms
proof (induction refs arbitrary: vs asked)
  case Nil
  then show ?case by (auto simp: verdict_action_def split: option.splits)
next
  case (Cons ref refs)
  then obtain v vs' where vs: "vs = v # vs'" and v: "ref_verdict pe context ref = Inr v"
    and vs': "map (ref_verdict pe context) refs = map Inr vs'" by (cases vs) auto
  have deny: "fold max xs VDeny = VDeny" for xs by (induction xs) simp_all
  show ?case
  proof (cases v)
    case VDeny
    with v show ?thesis
      by (auto simp: vs ref_verdict_def deny verdict_action_def split: option.splits)
  next
    case VAllow
    with v Cons.IH [OF vs', of asked] show ?thesis
      by (auto simp: vs ref_verdict_def split: option.splits)
  next
    case VAsk
    have "max VAsk (case asked of None \<Rightarrow> VAllow | Some _ \<Rightarrow> VAsk) = VAsk"
      by (simp split: option.splits)
    with VAsk v Cons.IH [OF vs', of "if asked = None then Some (pol_name ref) else asked"] show ?thesis
      by (auto simp: vs ref_verdict_def split: option.splits)
  qed
qed

lemma ref_verdict_total:
  "pred_option rule_well_typed (resolve_policy pe ref) \<Longrightarrow> \<exists>v. ref_verdict pe context ref = Inr v"
  by (auto simp: ref_verdict_def evaluate_rule_total split: option.splits)

lemma fold_max_verdict:
  "fold max vs a = VDeny \<longleftrightarrow> a = VDeny \<or> VDeny \<in> set vs"
  "fold max vs a = VAllow \<longleftrightarrow> a = VAllow \<and> set vs \<subseteq> {VAllow}"
proof -
  have "max v b = VDeny \<longleftrightarrow> v = VDeny \<or> b = VDeny" for v b :: verdict
    by (cases v; cases b) (simp_all add: max_def less_eq_verdict_def)
  then have "fold max vs a = VDeny \<longleftrightarrow> a = VDeny \<or> VDeny \<in> set vs"
    by (induction vs arbitrary: a) auto
  moreover have "max v b = VAllow \<longleftrightarrow> v = VAllow \<and> b = VAllow" for v b :: verdict
    by (cases v; cases b) (simp_all add: max_def less_eq_verdict_def)
  then have "fold max vs a = VAllow \<longleftrightarrow> a = VAllow \<and> set vs \<subseteq> {VAllow}"
    by (induction vs arbitrary: a) auto
  ultimately show "fold max vs a = VDeny \<longleftrightarrow> a = VDeny \<or> VDeny \<in> set vs"
    and "fold max vs a = VAllow \<longleftrightarrow> a = VAllow \<and> set vs \<subseteq> {VAllow}" by blast+
qed

lemma verdicts_total:
  assumes "list_all (\<lambda>ref. pred_option rule_well_typed (resolve_policy pe ref)) refs"
  shows "\<exists>vs. map (ref_verdict pe context) refs = map Inr vs"
  using assms
proof (induction refs)
  case (Cons ref refs)
  then obtain vs where vs: "map (ref_verdict pe context) refs = map Inr vs" by auto
  from Cons.prems obtain v where "ref_verdict pe context ref = Inr v"
    using ref_verdict_total [of pe ref "context"] by auto
  with vs have "map (ref_verdict pe context) (ref # refs) = map Inr (v # vs)" by simp
  then show ?case by blast
qed simp

lemma pe_evaluate_action:
  assumes "list_all (\<lambda>ref. pred_option rule_well_typed (resolve_policy pe ref)) refs"
  shows "\<exists>d. pe_evaluate pe refs context = Inr d \<and>
    d_action d = (if \<exists>ref \<in> set refs. ref_verdict pe context ref = Inr VDeny then Deny
      else if \<exists>ref \<in> set refs. ref_verdict pe context ref = Inr VAsk then AskHuman else Allow)"
proof -
  from verdicts_total [OF assms, of "context"] obtain vs
    where vs: "map (ref_verdict pe context) refs = map Inr vs" by blast
  then have "set (map (ref_verdict pe context) refs) = set (map Inr vs)" by (simp only:)
  then have img: "ref_verdict pe context ` set refs = Inr ` set vs" by simp
  have mem: "(\<exists>ref \<in> set refs. ref_verdict pe context ref = Inr v) \<longleftrightarrow> v \<in> set vs" for v
  proof -
    have "(\<exists>ref \<in> set refs. ref_verdict pe context ref = Inr v) \<longleftrightarrow> Inr v \<in> ref_verdict pe context ` set refs"
      by force
    also have "\<dots> \<longleftrightarrow> v \<in> set vs" by (simp add: img image_iff)
    finally show ?thesis .
  qed
  have cases: "v = VAllow \<or> v = VAsk \<or> v = VDeny" for v by (cases v) simp_all
  have "fold max vs VAllow = (if VDeny \<in> set vs then VDeny else if VAsk \<in> set vs then VAsk else VAllow)"
    using fold_max_verdict(1) [of vs VAllow] fold_max_verdict(2) [of vs VAllow]
      cases [of "fold max vs VAllow"] cases by (auto split: if_splits)
  with evaluate_refs_action [OF vs, of None] show ?thesis
    by (auto simp: pe_evaluate_def mem verdict_action_def split: if_splits)
qed

subsection \<open>Properties\<close>

text \<open>The policy engine takes the most severe verdict whatever the order of the references: it denies
  exactly when some reference is to a policy that is not loaded or whose \<open>deny_if\<close> fires, it asks
  a human exactly when none denies and the \<open>ask_human_if\<close> of some policy fires without its
  \<open>deny_if\<close>, and it allows otherwise; and it does return a decision, as long as the operands of the
  membership predicates are lists.\<close>

theorem policy_engine_most_severe:
  assumes "list_all (\<lambda>ref. pred_option rule_well_typed (resolve_policy pe ref)) refs"
  shows "\<exists>d. pe_evaluate pe refs context = Inr d \<and>
    (denied d \<longleftrightarrow> (\<exists>ref \<in> set refs. resolve_policy pe ref = None \<or>
       (\<exists>r. resolve_policy pe ref = Some r \<and> clause_fires (deny_if r) context = Inr True))) \<and>
    (needs_human d \<longleftrightarrow> \<not> denied d \<and> (\<exists>ref \<in> set refs. \<exists>r. resolve_policy pe ref = Some r \<and>
       clause_fires (deny_if r) context = Inr False \<and> clause_fires (ask_human_if r) context = Inr True)) \<and>
    (allowed d \<longleftrightarrow> \<not> denied d \<and> \<not> needs_human d)"
proof -
  have dn: "ref_verdict pe context ref = Inr VDeny \<longleftrightarrow> resolve_policy pe ref = None \<or>
      (\<exists>r. resolve_policy pe ref = Some r \<and> clause_fires (deny_if r) context = Inr True)" for ref
    by (auto simp: ref_verdict_def verdict_deny_iff split: option.splits)
  have ak: "ref_verdict pe context ref = Inr VAsk \<longleftrightarrow> (\<exists>r. resolve_policy pe ref = Some r \<and>
      clause_fires (deny_if r) context = Inr False \<and> clause_fires (ask_human_if r) context = Inr True)"
    for ref
    by (auto simp: ref_verdict_def verdict_ask_iff split: option.splits)
  from pe_evaluate_action [OF assms, of "context"] show ?thesis
    unfolding dn ak denied_def needs_human_def allowed_def by (auto split: if_splits)
qed

definition demo_rule :: rule where
  "demo_rule = \<lparr>has_keys = True, deny_if = Some \<lparr>pd_op = Some ''startswith'', pd_field = ''tool_name'', pd_value = PStr ''sh''\<rparr>,
     ask_human_if = Some \<lparr>pd_op = Some ''gt'', pd_field = ''tool_input.usd'', pd_value = PInt 5\<rparr>\<rparr>"

theorem policy_engine_most_severe_witness:
  "\<exists>d. pe_evaluate [(''p'', demo_rule)] [\<lparr>pol_name = ''p'', pol_inline = None\<rparr>]
      (PDict [(''tool_name'', PStr ''pay''), (''tool_input'', PDict [(''usd'', PInt 9)])]) = Inr d \<and>
    needs_human d"
proof -
  let ?c = "PDict [(''tool_name'', PStr ''pay''), (''tool_input'', PDict [(''usd'', PInt 9)])]"
  let ?refs = "[\<lparr>pol_name = ''p'', pol_inline = None\<rparr>]"
  have r: "resolve_policy [(''p'', demo_rule)] \<lparr>pol_name = ''p'', pol_inline = None\<rparr> = Some demo_rule"
    by (simp add: resolve_policy_def empty_rule_def demo_rule_def)
  have w: "rule_well_typed demo_rule" by (simp add: rule_well_typed_def demo_rule_def well_typed_def)
  have "clause_fires (deny_if demo_rule) ?c = Inr False" "clause_fires (ask_human_if demo_rule) ?c = Inr True"
    by (simp_all add: demo_rule_def clause_fires_def eval_predicate_def get_field_def dict_get_def
        dget_default_def on_str_def py_str_def starts_with_def py_float_def)
  with policy_engine_most_severe [of "[(''p'', demo_rule)]" ?refs ?c] r w show ?thesis by auto
qed

end
