(* ===== verification/Permissions.thy ===== *)
theory Permissions
  imports Registry Rules
begin

text \<open>
  The permission manager and the data boundary manager of the kernel
  (\<open>src/src/platform/kernel/_facade.py\<close>).  Both read an optional registry; no registry means
  permissive.  The A2A handler is not in the repository, so its access check is a parameter.
\<close>

subsection \<open>Tool names and patterns\<close>

definition star :: char where
  "star = CHR ''*''"

definition pat_matches :: "string \<Rightarrow> string \<Rightarrow> bool" where
  "pat_matches tool pat =
     (if pat = tool then True
      else if ends_with [star] pat \<and> starts_with (rstrip (\<lambda>c. c = star) pat) tool then True
      else False)"

lemma rstrip_snoc_star: "star \<notin> set p \<Longrightarrow> rstrip (\<lambda>c. c = star) (p @ [star]) = p"
  by (induction p rule: rev_induct) (auto simp: rstrip_def)

lemma pat_matches_prefix:
  "star \<notin> set p \<Longrightarrow> pat_matches tool (p @ [star]) \<longleftrightarrow> starts_with p tool \<or> tool = p @ [star]"
  by (auto simp: pat_matches_def rstrip_snoc_star ends_with_append)

lemma pat_matches_exact: "\<not> ends_with [star] pat \<Longrightarrow> pat_matches tool pat \<longleftrightarrow> tool = pat"
  by (auto simp: pat_matches_def)

subsection \<open>Approvals\<close>

definition suspendable_stacks :: "string list" where
  "suspendable_stacks = [''forgeos'', ''sandbox'', ''anthropic-agent-sdk'']"

text \<open>\<open>tool_input or {}\<close>\<close>

definition or_dict :: "pyval \<Rightarrow> pyval" where
  "or_dict v = (if truthy v then v else PDict [])"

definition or_str :: "string \<Rightarrow> string \<Rightarrow> string" where
  "or_str s t = (if s \<noteq> [] then s else t)"

fun timeout_value :: "timeout_action \<Rightarrow> string" where
  "timeout_value Proceed = ''proceed''"
| "timeout_value Abort = ''abort''"
| "timeout_value Reask = ''reask''"

definition approval_rules :: "agent_def \<Rightarrow> approval_rule list" where
  "approval_rules a = (case a_governance a of None \<Rightarrow> []
     | Some g \<Rightarrow> if g_approvals g = [] \<and> g_human_in_loop g \<noteq> []
                then map approval_of_hitl (g_human_in_loop g) else g_approvals g)"

definition approval_context :: "string \<Rightarrow> pyval \<Rightarrow> pyval" where
  "approval_context tool inp = PDict [(''tool_name'', PStr tool), (''tool_input'', or_dict inp)]"

definition captured_action :: "string \<Rightarrow> pyval \<Rightarrow> pyval" where
  "captured_action tool inp = PDict [(''verb'', PStr ''tool.call''), (''tool_name'', PStr tool),
     (''tool_input'', or_dict inp)]"

text \<open>The decision of a rule that requires approval: parking is possible only on a stack whose loop
  the platform owns.\<close>

definition require_approval :: "string \<Rightarrow> string \<Rightarrow> pyval \<Rightarrow> approval_rule \<Rightarrow> decision" where
  "require_approval stack tool inp r =
     (if stack \<notin> set suspendable_stacks
      then d_deny (''tool '' @ quoted tool @ '' requires human approval, but stack '' @ quoted stack @
              '' cannot suspend mid-tool (no durable A2H); denied'')
            [(''tool'', PStr tool), (''downgraded_from'', PStr ''ask_human''), (''stack'', PStr stack)]
      else d_ask_human (or_str (ar_reason r) (''tool '' @ quoted tool @ '' requires human approval''))
            [(''tool'', PStr tool), (''suspend_reason'', PStr ''human_approval''),
             (''captured_action'', captured_action tool inp),
             (''approvers'', PList (map PStr (ar_approvers r))), (''sla_hours'', PFloat (ar_sla_hours r)),
             (''priority'', PStr (ar_priority r)), (''on_timeout'', PStr (timeout_value (ar_on_timeout r)))])"

definition when_verdict :: "approval_rule \<Rightarrow> pyval \<Rightarrow> verdict res" where
  "when_verdict r context = (case ar_when r of None \<Rightarrow> Inr VAllow | Some w \<Rightarrow> evaluate_rule_tristate w context)"

fun scan_approvals :: "string \<Rightarrow> string \<Rightarrow> pyval \<Rightarrow> approval_rule list \<Rightarrow> decision option res" where
  "scan_approvals stack tool inp [] = Inr None"
| "scan_approvals stack tool inp (r # rs) =
     (if \<not> pat_matches tool (ar_tool r) then scan_approvals stack tool inp rs
      else case ar_mode r of
        Never \<Rightarrow> Inr None
      | Always \<Rightarrow> Inr (Some (require_approval stack tool inp r))
      | Conditional \<Rightarrow>
          rbind (when_verdict r (approval_context tool inp)) (\<lambda>v.
            case v of
              VDeny \<Rightarrow> Inr (Some (d_deny (or_str (ar_reason r)
                         (''Tool '' @ quoted tool @ '' denied by approval policy'')) [(''tool'', PStr tool)]))
            | VAllow \<Rightarrow> scan_approvals stack tool inp rs
            | VAsk \<Rightarrow> Inr (Some (require_approval stack tool inp r))))"

definition check_approvals :: "agent_def \<Rightarrow> string \<Rightarrow> pyval \<Rightarrow> decision option res" where
  "check_approvals a tool inp = scan_approvals (a_stack a) tool inp (approval_rules a)"

subsection \<open>Tool calls\<close>

definition perm_tool_call :: "registry option \<Rightarrow> string \<Rightarrow> string \<Rightarrow> pyval \<Rightarrow> decision res" where
  "perm_tool_call reg aid tool inp =
     (case reg of
        None \<Rightarrow> Inr (d_allow ''no registry; wire registry for enforcement'' [])
      | Some r \<Rightarrow>
        (case reg_get r aid of
           None \<Rightarrow> Inr (d_deny (''Agent '' @ aid @ '' not found'') [(''tool'', PStr tool)])
         | Some a \<Rightarrow>
           if list_ex (pat_matches tool) (tools_denied a)
           then Inr (d_deny (''Tool '' @ quoted tool @ '' is explicitly denied'')
                 [(''tool'', PStr tool), (''namespace'', PStr (a_namespace a))])
           else if a_tools a \<noteq> [] \<and> \<not> list_ex (pat_matches tool) (a_tools a)
           then Inr (d_deny (''Tool '' @ quoted tool @ '' not in agent''@ [quote_char] @ ''s allowed tools'')
                 [(''tool'', PStr tool), (''namespace'', PStr (a_namespace a)),
                  (''allowed'', PList (map PStr (a_tools a)))])
           else rbind (check_approvals a tool inp) (\<lambda>ap.
             case ap of Some d \<Rightarrow> Inr d
             | None \<Rightarrow> Inr (d_allow ''tool permitted''
                 [(''tool'', PStr tool), (''namespace'', PStr (a_namespace a))]))))"

definition perm_env_exec :: "registry option \<Rightarrow> (string \<Rightarrow> string option) option \<Rightarrow> string \<Rightarrow> string \<Rightarrow>
    details \<Rightarrow> decision" where
  "perm_env_exec reg lookup aid env args =
     (case reg of
        None \<Rightarrow> d_allow ''no registry; wire registry for enforcement'' []
      | Some r \<Rightarrow>
        (case reg_get r aid of
           None \<Rightarrow> d_deny (''Agent '' @ aid @ '' not found'') [(''env_id'', PStr env)]
         | Some a \<Rightarrow>
           (let bound = (case lookup of None \<Rightarrow> None | Some f \<Rightarrow> f aid)
            in if bound = None \<or> bound = Some [] \<or> bound \<noteq> Some env
            then d_deny (''Agent not bound to environment '' @ quoted env) [(''env_id'', PStr env)]
            else if \<not> x_enabled (exec_of a)
            then d_deny ''capabilities.exec.enabled is not set'' [(''env_id'', PStr env)]
            else (let cmds = or_nil (x_allowed_commands (exec_of a));
                      leading = first_word (py_str (dget_default args ''command'' (PStr [])))
              in if cmds \<noteq> [] \<and> leading \<notin> set cmds
                 then d_deny (''Command '' @ quoted leading @ '' not in allowed_commands'') [(''env_id'', PStr env)]
                 else d_allow ''env exec permitted'' [(''env_id'', PStr env)]))))"

subsection \<open>Agent-to-agent calls\<close>

definition qual :: "string \<Rightarrow> string \<Rightarrow> string" where
  "qual ns n = ns @ ''/'' @ n"

definition find_agent :: "registry \<Rightarrow> string \<Rightarrow> string \<Rightarrow> agent_def option" where
  "find_agent r ns n = find (\<lambda>a. a_name a = n \<and> a_namespace a = ns) (reg_list_all r)"

definition perm_a2a :: "registry option \<Rightarrow> (agent_def \<Rightarrow> string \<Rightarrow> string \<Rightarrow> bool) option \<Rightarrow>
    string \<Rightarrow> string \<Rightarrow> string \<Rightarrow> decision" where
  "perm_a2a reg handler caller_id tns tname =
     (case reg of
        None \<Rightarrow> d_allow ''no registry; permissive default'' []
      | Some r \<Rightarrow>
        (case reg_get r caller_id of
           None \<Rightarrow> d_deny (''Caller '' @ caller_id @ '' not found'') []
         | Some caller \<Rightarrow>
           (case find_agent r tns tname of
              None \<Rightarrow> d_deny (''Target agent '' @ qual tns tname @ '' not found'') []
            | Some callee \<Rightarrow>
              (case handler of
                 Some acl \<Rightarrow>
                   if acl callee (a_namespace caller) (a_name caller)
                   then d_allow ''A2A ACL permits''
                         [(''caller'', PStr (qual (a_namespace caller) (a_name caller))),
                          (''target'', PStr (qual tns tname))]
                   else d_deny (''A2A ACL denies: '' @ qual (a_namespace caller) (a_name caller) @
                          '' -> '' @ qual tns tname) []
               | None \<Rightarrow>
                   if a_namespace caller = a_namespace callee
                   then d_allow ''same-namespace default permit'' []
                   else d_deny ''cross-namespace without explicit ACL'' []))))"

subsection \<open>Data boundaries\<close>

definition data_access :: "registry option \<Rightarrow> string \<Rightarrow> string \<Rightarrow> decision" where
  "data_access reg aid ns =
     (case reg of
        None \<Rightarrow> d_allow ''no registry; permissive default'' []
      | Some r \<Rightarrow>
        (case reg_get r aid of
           None \<Rightarrow> d_deny (''Agent '' @ aid @ '' not found'') []
         | Some a \<Rightarrow>
           (let al = allowed_namespaces (data_of a); bl = blocked_namespaces (data_of a)
            in if ns \<in> set bl then d_deny (''Namespace '' @ quoted ns @ '' is in blocked list'') []
               else if al \<noteq> [] \<and> ns \<notin> set al
                    then d_deny (''Namespace '' @ quoted ns @ '' not in allowed list: '' @ repr_strs al) []
               else if al = [] \<and> bl = [] \<and> ns \<noteq> a_namespace a
                    then d_deny (''No data boundaries declared; default deny cross-namespace (agent ns='' @
                           a_namespace a @ '', target='' @ ns @ '')'') []
               else d_allow ''data access permitted'' [])))"

definition get_pii_policy :: "registry option \<Rightarrow> string \<Rightarrow> string" where
  "get_pii_policy reg aid =
     (case reg of None \<Rightarrow> ''detect''
      | Some r \<Rightarrow> (case reg_get r aid of None \<Rightarrow> ''detect''
          | Some a \<Rightarrow> (case bd_pii_policy (data_of a) of None \<Rightarrow> ''detect'' | Some p \<Rightarrow> p)))"

subsection \<open>Lemmas\<close>

lemma require_approval_action:
  "d_action (require_approval stack tool inp r) =
     (if stack \<in> set suspendable_stacks then AskHuman else Deny)"
  by (simp add: require_approval_def)

text \<open>The first rule that decides a call.\<close>

definition decides :: "string \<Rightarrow> pyval \<Rightarrow> approval_rule \<Rightarrow> bool" where
  "decides tool inp r = (pat_matches tool (ar_tool r) \<and>
     (ar_mode r \<noteq> Conditional \<or> when_verdict r (approval_context tool inp) \<noteq> Inr VAllow))"

definition rule_outcome :: "string \<Rightarrow> string \<Rightarrow> pyval \<Rightarrow> approval_rule \<Rightarrow> action option res" where
  "rule_outcome stack tool inp r =
     (case ar_mode r of
        Never \<Rightarrow> Inr None
      | Always \<Rightarrow> Inr (Some (if stack \<in> set suspendable_stacks then AskHuman else Deny))
      | Conditional \<Rightarrow> rbind (when_verdict r (approval_context tool inp)) (\<lambda>v.
          Inr (Some (if v = VAsk \<and> stack \<in> set suspendable_stacks then AskHuman else Deny))))"

lemma scan_approvals_first:
  "map_sum id (map_option d_action) (scan_approvals stack tool inp rs) =
     (case find (decides tool inp) rs of None \<Rightarrow> Inr None | Some r \<Rightarrow> rule_outcome stack tool inp r)"
proof (induction rs)
  case (Cons r rs)
  then show ?case
    by (cases "when_verdict r (approval_context tool inp)")
      (auto simp: decides_def rule_outcome_def require_approval_action
        split: approval_mode.split verdict.split)
qed simp

lemma check_approvals_actions:
  "check_approvals a tool inp = Inr (Some d) \<Longrightarrow> d_action d = AskHuman \<or> d_action d = Deny"
proof -
  assume "check_approvals a tool inp = Inr (Some d)"
  then have "map_sum id (map_option d_action) (scan_approvals (a_stack a) tool inp (approval_rules a)) =
      Inr (Some (d_action d))"
    by (simp add: check_approvals_def)
  then show ?thesis
    unfolding scan_approvals_first
    by (auto simp: rule_outcome_def rbind_eq_Inr split: option.splits approval_mode.splits if_splits)
qed

lemma approvals_ask_stack:
  "check_approvals a tool inp = Inr (Some d) \<Longrightarrow> d_action d = AskHuman \<Longrightarrow>
   a_stack a \<in> set suspendable_stacks"
proof -
  assume "check_approvals a tool inp = Inr (Some d)" and ask: "d_action d = AskHuman"
  then have "map_sum id (map_option d_action) (scan_approvals (a_stack a) tool inp (approval_rules a)) =
      Inr (Some (d_action d))"
    by (simp add: check_approvals_def)
  then show ?thesis
    using ask unfolding scan_approvals_first
    by (auto simp: rule_outcome_def rbind_eq_Inr split: option.splits approval_mode.splits if_splits)
qed

text \<open>The same check as a cascade of three tests.\<close>

lemma perm_tool_call_cascade:
  assumes "reg_get r aid = Some a"
  shows "map_sum id d_action (perm_tool_call (Some r) aid tool inp) =
    (if list_ex (pat_matches tool) (tools_denied a) then Inr Deny
     else if a_tools a \<noteq> [] \<and> \<not> list_ex (pat_matches tool) (a_tools a) then Inr Deny
     else map_sum id (\<lambda>ap. case ap of None \<Rightarrow> Allow | Some d \<Rightarrow> d_action d) (check_approvals a tool inp))"
proof (cases "check_approvals a tool inp")
  case (Inr ap)
  with assms show ?thesis by (cases ap) (simp_all add: perm_tool_call_def)
qed (simp add: assms perm_tool_call_def)

lemma map_sum_eq_Inr: "map_sum id f x = Inr y \<longleftrightarrow> (\<exists>z. x = Inr z \<and> y = f z)"
  by (cases x) auto

lemma perm_tool_call_allow_iff:
  assumes "reg_get r aid = Some a"
  shows "map_sum id d_action (perm_tool_call (Some r) aid tool inp) = Inr Allow \<longleftrightarrow>
    \<not> list_ex (pat_matches tool) (tools_denied a) \<and>
      (a_tools a = [] \<or> list_ex (pat_matches tool) (a_tools a)) \<and> check_approvals a tool inp = Inr None"
proof -
  have "map_sum id (\<lambda>ap. case ap of None \<Rightarrow> Allow | Some d \<Rightarrow> d_action d) (check_approvals a tool inp)
      = Inr Allow \<longleftrightarrow> check_approvals a tool inp = Inr None"
  proof
    assume "map_sum id (\<lambda>ap. case ap of None \<Rightarrow> Allow | Some d \<Rightarrow> d_action d)
      (check_approvals a tool inp) = Inr Allow"
    then obtain ap where ap: "check_approvals a tool inp = Inr ap"
      "Allow = (case ap of None \<Rightarrow> Allow | Some d \<Rightarrow> d_action d)"
      unfolding map_sum_eq_Inr by blast
    then show "check_approvals a tool inp = Inr None"
      using check_approvals_actions [of a tool inp] by (cases ap) auto
  qed simp
  then show ?thesis unfolding perm_tool_call_cascade [OF assms] by simp
qed

text \<open>Folding the legacy events into rules when the manifest is read, or when the call is checked,
  makes no difference to the kernel.\<close>

lemma approval_rules_fold:
  "a_governance a = Some g \<Longrightarrow>
   approval_rules (a\<lparr>a_governance := Some (fold_legacy_hitl g)\<rparr>) = approval_rules a"
  by (simp add: approval_rules_def fold_legacy_hitl_def)

lemma scan_approvals_ask_Cons:
  assumes "scan_approvals stack tool inp (r # rs) = Inr (Some d)" and "d_action d = AskHuman"
  shows "scan_approvals stack tool inp rs = Inr (Some d) \<or> d = require_approval stack tool inp r"
proof (cases "pat_matches tool (ar_tool r)")
  case True
  show ?thesis
  proof (cases "ar_mode r")
    case Conditional
    show ?thesis
    proof (cases "when_verdict r (approval_context tool inp)")
      case (Inr v)
      with True Conditional assms show ?thesis by (cases v) auto
    qed (use True Conditional assms in simp)
  qed (use True assms in simp_all)
qed (use assms in simp)

lemma require_approval_ask:
  assumes "d_action (require_approval stack tool inp r) = AskHuman"
  shows "stack \<in> set suspendable_stacks \<and>
    map_of (d_details (require_approval stack tool inp r)) ''captured_action'' = Some (captured_action tool inp)"
proof -
  from assms have "stack \<in> set suspendable_stacks"
    by (simp add: require_approval_action split: if_splits)
  then show ?thesis by (simp add: require_approval_def)
qed

lemma scan_approvals_ask:
  assumes "scan_approvals stack tool inp rs = Inr (Some d)" and "d_action d = AskHuman"
  shows "stack \<in> set suspendable_stacks \<and> map_of (d_details d) ''captured_action'' = Some (captured_action tool inp)"
  using assms
proof (induction rs)
  case (Cons r rs)
  from scan_approvals_ask_Cons [OF Cons.prems] consider
    "scan_approvals stack tool inp rs = Inr (Some d)" | "d = require_approval stack tool inp r" by blast
  then show ?case
  proof cases
    case 1
    then show ?thesis using Cons.prems(2) by (rule Cons.IH)
  next
    case 2
    with require_approval_ask [of stack tool inp r] Cons.prems(2) show ?thesis by (simp only:)
  qed
qed simp

lemma perm_tool_call_ask:
  assumes "perm_tool_call (Some r) aid tool inp = Inr d" and "d_action d = AskHuman"
  shows "\<exists>a. reg_get r aid = Some a \<and> check_approvals a tool inp = Inr (Some d)"
proof (cases "reg_get r aid")
  case (Some a)
  note a = this
  have "check_approvals a tool inp = Inr (Some d)"
  proof (cases "check_approvals a tool inp")
    case (Inr ap)
    with assms a show ?thesis by (cases ap) (auto simp: perm_tool_call_def split: if_splits)
  qed (use assms a in \<open>auto simp: perm_tool_call_def split: if_splits\<close>)
  with a show ?thesis by blast
qed (use assms in \<open>auto simp: perm_tool_call_def\<close>)

subsection \<open>Properties\<close>

definition demo_agent :: agent_def where
  "demo_agent = \<lparr>a_id = ''a1'', a_name = ''ann'', a_namespace = ''ops'', a_stack = ''forgeos'',
     a_execution = AlwaysOn, a_ownership = Shared, a_owner = None, a_department = ''d'',
     a_tools = [''mail.*'', ''db.read''], a_tenant = None,
     a_capabilities = Some \<lparr>cap_tools_denied = Some [''mail.wipe''],
        cap_exec = Some \<lparr>x_enabled = True, x_allowed_commands = Some [''ls'']\<rparr>, cap_can_be_called_by = []\<rparr>,
     a_boundaries = None,
     a_governance = Some \<lparr>g_approvals = [\<lparr>ar_tool = ''mail.draft'', ar_mode = Never, ar_when = None,
          ar_approvers = [], ar_sla_hours = 24, ar_priority = ''medium'', ar_on_timeout = Abort, ar_reason = []\<rparr>,
        \<lparr>ar_tool = ''mail.*'', ar_mode = Always, ar_when = None,
          ar_approvers = [''boss''], ar_sla_hours = 4, ar_priority = ''high'', ar_on_timeout = Abort, ar_reason = []\<rparr>],
        g_human_in_loop = [], g_policies = [], g_audit_level = ''full''\<rparr>, a_llm = default_llm, a_schedule = None, a_triggers = [], a_goal = None, a_prompt = [],
     a_description = [], a_config_path = [], a_metadata = []\<rparr>"

definition demo_registry :: registry where
  "demo_registry = \<lparr>r_agents = [(''a1'', demo_agent)], r_statuses = [(''a1'', SIdle)]\<rparr>"

text \<open>C21. The check of a tool call by a registered agent, as a table: a call that matches the deny list
  is denied; else one outside a non-empty tool list is denied; else the first approval rule that
  decides the call (it matches the tool and is not a conditional rule whose clauses stay silent)
  settles it: an exemption or no such rule allows, a rule that requires approval asks a human, or
  denies where the agent's stack cannot be suspended, and a failing condition is passed on as the
  exception it raised.\<close>

theorem tool_call_decision_table:
  assumes "reg_get r aid = Some a"
  shows "map_sum id d_action (perm_tool_call (Some r) aid tool inp) =
    (if list_ex (pat_matches tool) (tools_denied a) then Inr Deny
     else if a_tools a \<noteq> [] \<and> \<not> list_ex (pat_matches tool) (a_tools a) then Inr Deny
     else case find (decides tool inp) (approval_rules a) of
       None \<Rightarrow> Inr Allow
     | Some rl \<Rightarrow> map_sum id (\<lambda>x. case x of None \<Rightarrow> Allow | Some act \<Rightarrow> act) (rule_outcome (a_stack a) tool inp rl))"
proof -
  have "map_sum id (\<lambda>ap. case ap of None \<Rightarrow> Allow | Some d \<Rightarrow> d_action d) x =
      map_sum id (\<lambda>x. case x of None \<Rightarrow> Allow | Some act \<Rightarrow> act) (map_sum id (map_option d_action) x)"
    for x :: "decision option res"
    by (cases x) (auto split: option.splits)
  then show ?thesis
    unfolding perm_tool_call_cascade [OF assms] check_approvals_def
    by (simp add: scan_approvals_first split: option.split)
qed

theorem tool_call_decision_table_witness:
  "map_sum id d_action (perm_tool_call (Some demo_registry) ''a1'' ''mail.send'' PNone) = Inr AskHuman"
proof -
  have "reg_get demo_registry ''a1'' = Some demo_agent" by (simp add: demo_registry_def reg_get_def)
  from tool_call_decision_table [OF this, of "''mail.send''" PNone] show ?thesis
    by (simp add: demo_agent_def tools_denied_def or_nil_def pat_matches_def star_def rstrip_def
        ends_with_def starts_with_def approval_rules_def decides_def rule_outcome_def suspendable_stacks_def)
qed

text \<open>A tool call is parked for a human only where the run can really be suspended, and the request
  carries exactly the call that was made: if the check asks a human, the agent exists, its stack is
  one whose loop the platform owns, and the captured action is the tool with its input.\<close>

theorem ask_human_only_when_suspendable:
  assumes "perm_tool_call (Some r) aid tool inp = Inr d" and "needs_human d"
  shows "\<exists>a. reg_get r aid = Some a \<and> a_stack a \<in> set suspendable_stacks \<and>
    map_of (d_details d) ''captured_action'' = Some (captured_action tool inp)"
proof -
  from assms(2) have ask: "d_action d = AskHuman" by (simp add: needs_human_def)
  from perm_tool_call_ask [OF assms(1) ask] obtain a
    where a: "reg_get r aid = Some a" "check_approvals a tool inp = Inr (Some d)" by blast
  from scan_approvals_ask [OF a(2) [unfolded check_approvals_def] ask] a(1) show ?thesis by blast
qed

theorem ask_human_only_when_suspendable_witness:
  "a_stack demo_agent \<in> set suspendable_stacks"
proof -
  have g: "reg_get demo_registry ''a1'' = Some demo_agent" by (simp add: demo_registry_def reg_get_def)
  have "perm_tool_call (Some demo_registry) ''a1'' ''mail.send'' PNone =
      Inr (require_approval ''forgeos'' ''mail.send'' PNone (approval_rules demo_agent ! 1))"
    by (simp add: perm_tool_call_def g demo_agent_def tools_denied_def or_nil_def pat_matches_def star_def
        rstrip_def ends_with_def starts_with_def approval_rules_def check_approvals_def)
  from ask_human_only_when_suspendable [OF this] g show ?thesis
    by (simp add: needs_human_def require_approval_action suspendable_stacks_def)
qed

text \<open>A shell command is admitted exactly when the agent is registered, bound to that very
  environment (and the environment has a name), its manifest enables execution, and its first word
  is on the command list, if there is one.\<close>

theorem env_exec_allowed_iff:
  "allowed (perm_env_exec (Some r) lookup aid env args) \<longleftrightarrow>
    (\<exists>a f. reg_get r aid = Some a \<and> lookup = Some f \<and> f aid = Some env \<and> env \<noteq> [] \<and> x_enabled (exec_of a) \<and>
      (or_nil (x_allowed_commands (exec_of a)) = [] \<or>
       first_word (py_str (dget_default args ''command'' (PStr []))) \<in> set (or_nil (x_allowed_commands (exec_of a)))))"
proof (cases "reg_get r aid"; cases lookup)
  fix a f assume "reg_get r aid = Some a" "lookup = Some f"
  then show ?thesis by (cases "f aid") (auto simp: perm_env_exec_def allowed_def Let_def)
qed (auto simp: perm_env_exec_def allowed_def Let_def)

text \<open>Data of a namespace is readable exactly when the agent is registered, the namespace is not
  blocked, and it is on the allowed list or, with an empty allowed list, either some namespace is
  blocked or it is the agent's own.  So declaring only a block list opens every other namespace.\<close>

theorem data_access_allowed_iff:
  "allowed (data_access (Some r) aid ns) \<longleftrightarrow>
    (\<exists>a. reg_get r aid = Some a \<and> ns \<notin> set (blocked_namespaces (data_of a)) \<and>
      (if allowed_namespaces (data_of a) = []
       then if blocked_namespaces (data_of a) = [] then ns = a_namespace a else True
       else ns \<in> set (allowed_namespaces (data_of a))))"
  by (cases "reg_get r aid") (auto simp: data_access_def allowed_def Let_def)

text \<open>Without an ACL handler an agent-to-agent call is allowed exactly between two registered
  agents of one namespace, where the target is the first agent registered under that name.\<close>

theorem a2a_default_same_namespace:
  "allowed (perm_a2a (Some r) None caller tns tname) \<longleftrightarrow>
    (\<exists>a b. reg_get r caller = Some a \<and> find_agent r tns tname = Some b \<and> a_namespace a = tns)"
proof -
  have "a_namespace b = tns" if "find_agent r tns tname = Some b" for b
    using that by (auto simp: find_agent_def find_Some_iff)
  then show ?thesis
    by (auto simp: perm_a2a_def allowed_def split: option.splits)
qed

end
