(* ===== verification/Admission.thy ===== *)
theory Admission
  imports Permissions
begin

text \<open>
  The admission controller (\<open>AdmissionController.admit\<close> in \<open>src/src/platform/kernel/_facade.py\<close>): the
  validation of a raw deploy request.  What a tool executor offers is a parameter (\<open>None\<close> for no
  executor, an exception where building the definitions raises); the registration of typed A2A
  contracts needs an enterprise module that the repository does not have and is left out.
\<close>

record admission_result =
  admitted :: bool
  ad_reason :: string
  ad_errors :: "string list"
  ad_warnings :: "string list"
  ad_uid :: "string option"

text \<open>A raw request, and how it is read.\<close>

type_synonym raw = "(string \<times> pyval) list"

definition field :: "raw \<Rightarrow> string \<Rightarrow> pyval" where
  "field c k = dget_default c k PNone"

definition section_of :: "raw \<Rightarrow> string \<Rightarrow> pyval \<Rightarrow> pyval res" where
  "section_of c sec dflt = (case read_v2_section c sec dflt of
     Inl (UnknownSection s) \<Rightarrow> Inl (KeyError (''unknown v2 section: '' @ repr_str s)) | Inr v \<Rightarrow> Inr v)"

text \<open>\<open>(v or {}).get(k, d)\<close>; what is neither false nor a dictionary has no \<open>get\<close>.\<close>

definition or_dict_get :: "pyval \<Rightarrow> string \<Rightarrow> pyval \<Rightarrow> pyval res" where
  "or_dict_get v k d = (if \<not> truthy v then Inr d
     else case v of PDict e \<Rightarrow> Inr (dget_default e k d) | _ \<Rightarrow> Inl (AttributeError ''get''))"

subsection \<open>The checks\<close>

definition is_letter :: "char \<Rightarrow> bool" where
  "is_letter c = (let n = of_char c :: nat in (65 \<le> n \<and> n \<le> 90) \<or> (97 \<le> n \<and> n \<le> 122))"

text \<open>\<open>^[a-zA-Z][a-zA-Z0-9_-]{1,63}$\<close>, where \<open>$\<close> also matches before a final newline.\<close>

definition name_core :: "string \<Rightarrow> bool" where
  "name_core s = (case s of [] \<Rightarrow> False
     | c # t \<Rightarrow> is_letter c \<and> 1 \<le> length t \<and> length t \<le> 63 \<and>
         list_all (\<lambda>d. is_letter d \<or> is_digit d \<or> d = CHR ''_'' \<or> d = CHR ''-'') t)"

definition valid_name :: "string \<Rightarrow> bool" where
  "valid_name s = (name_core s \<or> (s \<noteq> [] \<and> last s = CHR 0x0A \<and> name_core (butlast s)))"

definition name_errors :: "pyval \<Rightarrow> string list res" where
  "name_errors name =
     (if \<not> truthy name then Inr [''Invalid agent name: '' @ py_repr name]
      else case name of
        PStr s \<Rightarrow> Inr (if valid_name s then [] else [''Invalid agent name: '' @ py_repr name])
      | _ \<Rightarrow> Inl TypeError)"

definition namespace_errors :: "pyval \<Rightarrow> string list res" where
  "namespace_errors ns =
     (case ns of PStr s \<Rightarrow> Inr (if valid_name s then [] else [''Invalid namespace: '' @ py_repr ns])
      | _ \<Rightarrow> Inl TypeError)"

definition admission_stacks :: "string list" where
  "admission_stacks = [''forgeos'', ''crewai'', ''adk'', ''openclaw'', ''langgraph'']"

definition stack_errors :: "pyval \<Rightarrow> string list" where
  "stack_errors st = (if py_in st (map PStr admission_stacks) then [] else [''Unknown stack: '' @ py_repr st])"

definition names :: "agent_def \<Rightarrow> pyval \<Rightarrow> pyval \<Rightarrow> bool" where
  "names a ns n = (py_eq (PStr (a_name a)) n \<and> py_eq (PStr (a_namespace a)) ns)"

definition unique_errors :: "registry option \<Rightarrow> pyval \<Rightarrow> pyval \<Rightarrow> string list" where
  "unique_errors reg ns n =
     (case reg of None \<Rightarrow> []
      | Some r \<Rightarrow> (case find (\<lambda>a. names a ns n) (reg_list_all r) of None \<Rightarrow> []
          | Some a \<Rightarrow> [''Agent '' @ quoted (py_str ns @ ''/'' @ py_str n) @ '' already exists (uid='' @ a_id a @ '')'']))"

definition tool_missing :: "string list \<Rightarrow> pyval \<Rightarrow> bool res" where
  "tool_missing avail t =
     (case t of
        PStr s \<Rightarrow> Inr (if ends_with [star] s
                      then \<not> list_ex (\<lambda>n. starts_with (rstrip (\<lambda>c. c = star) s) n) avail
                      else s \<notin> set avail)
      | _ \<Rightarrow> Inl (AttributeError ''endswith''))"

fun missing_tools :: "string list \<Rightarrow> pyval list \<Rightarrow> pyval list res" where
  "missing_tools avail [] = Inr []"
| "missing_tools avail (t # ts) = rbind (tool_missing avail t) (\<lambda>m. rbind (missing_tools avail ts) (\<lambda>ms.
     Inr (if m then t # ms else ms)))"

text \<open>Errors and warnings; any exception of the tool check becomes a warning.\<close>

definition tool_findings :: "string list res option \<Rightarrow> pyval \<Rightarrow> string list \<times> string list" where
  "tool_findings executor tools =
     (case executor of None \<Rightarrow> ([], [])
      | Some av \<Rightarrow>
        if \<not> truthy tools then ([], [])
        else (case rbind av (\<lambda>avail. rbind (iterate tools) (missing_tools avail)) of
           Inl e \<Rightarrow> ([], [''Tool validation skipped: '' @ exn_text e])
         | Inr [] \<Rightarrow> ([], [])
         | Inr ms \<Rightarrow> ([''Tools not available: '' @ py_repr (PList ms)], [])))"

definition lifecycle_findings :: "raw \<Rightarrow> string list \<times> string list" where
  "lifecycle_findings c =
     (let ex = field c ''execution_type''
      in ((if py_eq ex (PStr ''scheduled'') \<and> \<not> truthy (field c ''schedule'')
           then [''scheduled agents require a '' @ quoted ''schedule'' @ '' cron expression''] else [])
          @ (if py_eq ex (PStr ''event_driven'') \<and> \<not> truthy (field c ''event_triggers'')
             then [''event_driven agents require '' @ quoted ''event_triggers''] else []),
          if py_eq ex (PStr ''autonomous'') \<and> \<not> truthy (field c ''goal'')
          then [''autonomous agents should set a '' @ quoted ''goal'' @ '' for completion detection''] else []))"

fun dependency_findings :: "registry \<Rightarrow> pyval list \<Rightarrow> (string list \<times> string list) res" where
  "dependency_findings r [] = Inr ([], [])"
| "dependency_findings r (dep # deps) =
     (case dep of
        PDict d \<Rightarrow>
          (let ns = dget_default d ''namespace'' (PStr ''default''); n = dget_default d ''name'' PNone;
               msg = ''Dependency '' @ py_str ns @ ''/'' @ py_str n @ '' not found''
           in rbind (dependency_findings r deps) (\<lambda>(es, ws).
                if list_ex (\<lambda>a. names a ns n) (reg_list_all r) then Inr (es, ws)
                else if truthy (dget_default d ''optional'' (PBool False)) then Inr (es, msg # ws)
                else Inr (msg # es, ws)))
      | _ \<Rightarrow> Inl (AttributeError ''get''))"

definition dependencies :: "registry option \<Rightarrow> raw \<Rightarrow> (string list \<times> string list) res" where
  "dependencies reg c =
     rbind (section_of c ''dependencies'' (PDict [])) (\<lambda>sec.
     rbind (or_dict_get sec ''agents'' (PList [])) (\<lambda>deps.
       case reg of None \<Rightarrow> Inr ([], [])
       | Some r \<Rightarrow> if \<not> truthy deps then Inr ([], [])
                  else rbind (iterate deps) (dependency_findings r)))"

definition approval_warnings :: "raw \<Rightarrow> string list res" where
  "approval_warnings c =
     rbind (section_of c ''governance'' (PDict [])) (\<lambda>gov.
     rbind (or_dict_get gov ''approvals'' PNone) (\<lambda>ap.
       if \<not> truthy ap then Inr []
       else case field c ''stack'' of
         PList _ \<Rightarrow> Inl TypeError
       | PDict _ \<Rightarrow> Inl TypeError
       | st \<Rightarrow> Inr (if py_in st (map PStr suspendable_stacks) then []
           else [''stack '' @ quoted (py_str st) @ '' cannot suspend mid-tool; declared approvals will be enforced'' @
                 '' as DENY, not human-in-the-loop''])))"

text \<open>Everything after the license gate.\<close>

definition admission_checks :: "registry option \<Rightarrow> string list res option \<Rightarrow> string \<Rightarrow> string list \<Rightarrow> raw \<Rightarrow>
    admission_result res" where
  "admission_checks reg executor fresh license_errors c =
     rbind (name_errors (field c ''name'')) (\<lambda>e1.
     rbind (section_of c ''namespace'' (PStr ''default'')) (\<lambda>ns.
     rbind (namespace_errors ns) (\<lambda>e3.
     rbind (dependencies reg c) (\<lambda>(e6, w6).
     rbind (approval_warnings c) (\<lambda>w7.
       let tf = tool_findings executor (field c ''tools''); lf = lifecycle_findings c;
           es = license_errors @ e1 @ stack_errors (field c ''stack'') @ e3 @
                unique_errors reg ns (field c ''name'') @ fst tf @ fst lf @ e6;
           ws = snd tf @ snd lf @ w6 @ w7
       in Inr (if es \<noteq> []
               then \<lparr>admitted = False, ad_reason = str_nat (length es) @ '' admission error(s)'', ad_errors = es,
                     ad_warnings = ws, ad_uid = None\<rparr>
               else \<lparr>admitted = True, ad_reason = ''admitted'', ad_errors = [], ad_warnings = ws,
                     ad_uid = Some fresh\<rparr>))))))"

text \<open>The license gate reads the tenant first; the license manager is a parameter.\<close>

definition license_errors :: "(string \<Rightarrow> decision res) option \<Rightarrow> bool \<Rightarrow> pyval \<Rightarrow> string list res" where
  "license_errors license production tenant =
     (case license of
        Some check \<Rightarrow> rbind (check (py_str tenant)) (\<lambda>d.
          Inr (if denied d then [''License verification failed: '' @ d_reason d] else []))
      | None \<Rightarrow> Inr (if production then [''Production mode requires a valid Enterprise License Key. Visit https://makingscience.com to purchase a key.''] else []))"

definition admit :: "registry option \<Rightarrow> string list res option \<Rightarrow> (string \<Rightarrow> decision res) option \<Rightarrow> bool \<Rightarrow>
    string \<Rightarrow> raw \<Rightarrow> admission_result res" where
  "admit reg executor license production fresh c =
     rbind (section_of c ''tenant_id'' (PStr ''default'')) (\<lambda>tenant.
     rbind (license_errors license production tenant) (\<lambda>le.
       admission_checks reg executor fresh le c))"

subsection \<open>Lemmas\<close>

lemma section_of_known: "map_of v2_bag_keys sec = Some bag \<Longrightarrow> \<exists>v. section_of c sec d = Inr v"
  using read_v2_section_known [of sec bag c d] by (auto simp: section_of_def)

lemma admission_checks_admitted:
  assumes "admission_checks reg executor fresh le c = Inr res" and "admitted res"
  shows "le = [] \<and> name_errors (field c ''name'') = Inr [] \<and> stack_errors (field c ''stack'') = [] \<and>
    (\<exists>ns. section_of c ''namespace'' (PStr ''default'') = Inr ns \<and> namespace_errors ns = Inr [] \<and>
       unique_errors reg ns (field c ''name'') = [])"
  using assms by (auto simp: admission_checks_def rbind_eq_Inr Let_def split: if_splits prod.splits)

lemma name_errors_none: "name_errors v = Inr [] \<longleftrightarrow> (\<exists>s. v = PStr s \<and> valid_name s)"
  by (cases v) (auto simp: name_errors_def valid_name_def name_core_def)

lemma namespace_errors_none: "namespace_errors v = Inr [] \<longleftrightarrow> (\<exists>s. v = PStr s \<and> valid_name s)"
  by (cases v) (auto simp: namespace_errors_def)

lemma unique_errors_none:
  "unique_errors (Some r) (PStr ns) (PStr n) = [] \<longleftrightarrow> find_agent r ns n = None"
  by (auto simp: unique_errors_def find_agent_def names_def find_None_iff split: option.splits)
    (auto simp: find_Some_iff)

subsection \<open>Properties\<close>

text \<open>No agent is ever admitted: the controller reads the tenant through the section reader, which
  knows no section of that name, so every admission raises a \<open>KeyError\<close> before its first check.\<close>

theorem admission_always_raises:
  "admit reg executor license production fresh c =
     Inl (KeyError (''unknown v2 section: '' @ repr_str ''tenant_id''))"
  by (simp add: admit_def section_of_def read_v2_section_unknown v2_bag_keys_def)

text \<open>The checks behind that gate are sound: what they admit has a well-formed name and namespace, one
  of the five accepted stacks, no license error, and a qualified name that no registered agent
  has.\<close>

theorem admission_checks_sound:
  assumes "admission_checks (Some r) executor fresh le c = Inr res" and "admitted res"
  shows "\<exists>n ns. field c ''name'' = PStr n \<and> section_of c ''namespace'' (PStr ''default'') = Inr (PStr ns) \<and>
    valid_name n \<and> valid_name ns \<and> le = [] \<and> py_in (field c ''stack'') (map PStr admission_stacks) \<and>
    find_agent r ns n = None"
proof -
  from admission_checks_admitted [OF assms] obtain ns
    where "le = []" "name_errors (field c ''name'') = Inr []" and st: "stack_errors (field c ''stack'') = []"
      and ns: "section_of c ''namespace'' (PStr ''default'') = Inr ns" "namespace_errors ns = Inr []"
        "unique_errors (Some r) ns (field c ''name'') = []" by blast
  then obtain n m where "field c ''name'' = PStr n" "valid_name n" "ns = PStr m" "valid_name m"
    unfolding name_errors_none namespace_errors_none by blast
  with ns st \<open>le = []\<close> unique_errors_none [of r m n] show ?thesis
    by (auto simp: stack_errors_def split: if_splits)
qed

definition demo_request :: raw where
  "demo_request = [(''name'', PStr ''bob''), (''stack'', PStr ''forgeos''), (''namespace'', PStr ''ops'')]"

theorem admission_checks_sound_witness:
  "find_agent demo_registry ''ops'' ''bob'' = None"
proof -
  have sec: "section_of demo_request ''namespace'' d = Inr (PStr ''ops'')" for d
    by (simp add: section_of_def read_v2_section_def v2_bag_keys_def demo_request_def present_def)
  have dep: "dependencies (Some demo_registry) demo_request = Inr ([], [])"
    by (simp add: dependencies_def section_of_def read_v2_section_def v2_bag_keys_def demo_request_def present_def
        section_from_spec_def or_dict_get_def)
  have ap: "approval_warnings demo_request = Inr []"
    by (simp add: approval_warnings_def section_of_def read_v2_section_def v2_bag_keys_def demo_request_def
        present_def section_from_spec_def or_dict_get_def)
  have n: "field demo_request ''name'' = PStr ''bob''" "field demo_request ''stack'' = PStr ''forgeos''"
    by (simp_all add: field_def demo_request_def dget_default_def)
  have vn: "valid_name ''bob''" "valid_name ''ops''"
    by (simp_all add: valid_name_def name_core_def is_letter_def)
  have "unique_errors (Some demo_registry) (PStr ''ops'') (PStr ''bob'') = []"
    by (simp add: unique_errors_none find_agent_def reg_list_all_def demo_registry_def demo_agent_def)
  then obtain res where "admission_checks (Some demo_registry) None ''u'' [] demo_request = Inr res" "admitted res"
    using sec dep ap n vn
    by (simp add: admission_checks_def name_errors_def namespace_errors_def Let_def tool_findings_def
        lifecycle_findings_def stack_errors_def admission_stacks_def py_in_def field_def demo_request_def
        dget_default_def)
  from admission_checks_sound [OF this] n sec show ?thesis by auto
qed

end
