(* ===== verification/Decode.thy ===== *)
theory Decode
  imports Pyrt
begin

text \<open>
  Reading JSON-like values into the typed fields of the model's records, and \<open>int(x)\<close>.  A constructor
  call with keyword arguments reads each field with \<open>kwarg\<close>.  Python does not check the types of
  fields: a value that a field of the model cannot hold, which Python would carry along, is \<open>Inl untyped\<close>.
\<close>

definition untyped :: py_exn where
  "untyped = Raised ''untyped''"

definition as_str :: "pyval \<Rightarrow> string res" where
  "as_str v = (case v of PStr s \<Rightarrow> Inr s | _ \<Rightarrow> Inl untyped)"

definition as_opt_str :: "pyval \<Rightarrow> string option res" where
  "as_opt_str v = (case v of PNone \<Rightarrow> Inr None | PStr s \<Rightarrow> Inr (Some s) | _ \<Rightarrow> Inl untyped)"

definition as_int :: "pyval \<Rightarrow> int res" where
  "as_int v = (case v of PInt i \<Rightarrow> Inr i | _ \<Rightarrow> Inl untyped)"

definition as_opt_int :: "pyval \<Rightarrow> int option res" where
  "as_opt_int v = (case v of PNone \<Rightarrow> Inr None | PInt i \<Rightarrow> Inr (Some i) | _ \<Rightarrow> Inl untyped)"

definition as_nat :: "pyval \<Rightarrow> nat res" where
  "as_nat v = (case v of PInt i \<Rightarrow> if 0 \<le> i then Inr (nat i) else Inl untyped | _ \<Rightarrow> Inl untyped)"

definition as_bool :: "pyval \<Rightarrow> bool res" where
  "as_bool v = (case v of PBool b \<Rightarrow> Inr b | _ \<Rightarrow> Inl untyped)"

definition as_list :: "pyval \<Rightarrow> pyval list res" where
  "as_list v = (case v of PList xs \<Rightarrow> Inr xs | _ \<Rightarrow> Inl untyped)"

definition as_dict :: "pyval \<Rightarrow> (string \<times> pyval) list res" where
  "as_dict v = (case v of PDict d \<Rightarrow> Inr d | _ \<Rightarrow> Inl untyped)"

text \<open>\<open>x.get("k") or {}\<close>\<close>

definition as_dict_or_empty :: "pyval \<Rightarrow> (string \<times> pyval) list res" where
  "as_dict_or_empty v = (if truthy v then as_dict v else Inr [])"

primrec all_of :: "('a \<Rightarrow> 'b res) \<Rightarrow> 'a list \<Rightarrow> 'b list res" where
  "all_of f [] = Inr []"
| "all_of f (x # xs) = rbind (f x) (\<lambda>y. rbind (all_of f xs) (\<lambda>ys. Inr (y # ys)))"

text \<open>A keyword argument of a constructor: absent keys take the default of the field.\<close>

definition kwarg :: "(string \<times> pyval) list \<Rightarrow> string \<Rightarrow> 'a res \<Rightarrow> (pyval \<Rightarrow> 'a res) \<Rightarrow> 'a res" where
  "kwarg d k dflt dec = (case map_of d k of None \<Rightarrow> dflt | Some v \<Rightarrow> dec v)"

definition opt_str_val :: "string option \<Rightarrow> pyval" where
  "opt_str_val x = (case x of None \<Rightarrow> PNone | Some s \<Rightarrow> PStr s)"

definition opt_int_val :: "int option \<Rightarrow> pyval" where
  "opt_int_val x = (case x of None \<Rightarrow> PNone | Some i \<Rightarrow> PInt i)"

lemma as_opt_str_val [simp]: "as_opt_str (opt_str_val x) = Inr x"
  by (simp add: as_opt_str_def opt_str_val_def split: option.split)

lemma as_opt_int_val [simp]: "as_opt_int (opt_int_val x) = Inr x"
  by (simp add: as_opt_int_def opt_int_val_def split: option.split)

lemma as_simps [simp]: "as_str (PStr s) = Inr s" "as_int (PInt i) = Inr i" "as_nat (PInt (int n)) = Inr n"
  "as_bool (PBool b) = Inr b" "as_list (PList xs) = Inr xs" "as_dict (PDict d) = Inr d"
  "as_dict_or_empty (PDict d) = Inr d"
  by (simp_all add: as_str_def as_int_def as_nat_def as_bool_def as_list_def as_dict_def as_dict_or_empty_def)

lemma all_of_map: "(\<And>x. f (g x) = Inr (h x)) \<Longrightarrow> all_of f (map g xs) = Inr (map h xs)"
  by (induction xs) simp_all

lemma all_of_strs [simp]: "all_of as_str (map PStr xs) = Inr xs"
  using all_of_map [of as_str PStr id xs] by simp

lemma kwarg_present [simp]: "map_of d k = Some v \<Longrightarrow> kwarg d k dflt dec = dec v"
  by (simp add: kwarg_def)

lemma kwarg_filter: "kwarg (filter (\<lambda>(k, v). P k) d) k x f = (if P k then kwarg d k x f else x)"
  by (induction d) (auto simp: kwarg_def)

subsection \<open>\<open>int(x)\<close>\<close>

text \<open>A decimal literal with an optional sign and single underscores between digits; white space around it is ignored.\<close>

definition int_of_str :: "string \<Rightarrow> int option" where
  "int_of_str s =
     (case scan_sign (strip s) of (neg, t) \<Rightarrow>
        (case scan_digits False t of (ds, r) \<Rightarrow>
           if ds = [] \<or> r \<noteq> [] then None else Some ((if neg then -1 else 1) * int (digits_value ds))))"

text \<open>Booleans are 0 and 1, floats are truncated towards zero.\<close>

definition py_int :: "pyval \<Rightarrow> int res" where
  "py_int v = (case v of
       PStr s \<Rightarrow> (case int_of_str s of None \<Rightarrow> Inl ValueError | Some i \<Rightarrow> Inr i)
     | _ \<Rightarrow> (case num_of v of None \<Rightarrow> Inl TypeError | Some x \<Rightarrow> Inr (if 0 \<le> x then \<lfloor>x\<rfloor> else \<lceil>x\<rceil>)))"

lemma py_int_PInt [simp]: "py_int (PInt i) = Inr i"
  by (simp add: py_int_def)

lemma py_int_PStr: "py_int (PStr s) = (case int_of_str s of None \<Rightarrow> Inl ValueError | Some i \<Rightarrow> Inr i)"
  by (simp add: py_int_def)

lemma int_of_str_examples:
  "int_of_str ''15'' = Some 15" "int_of_str '' -3 '' = Some (- 3)" "int_of_str '''' = None" "int_of_str ''1_0'' = Some 10"
  "int_of_str ''hour'' = None"
  by code_simp+

end
