(* ===== verification/Process.thy ===== *)
theory Process
  imports Registry Pyrt
begin

text \<open>
  The agent process table (\<open>src/src/platform/kernel/_process.py\<close>): the phase machine, resource
  accounting, process records, and the table with its cascade to child processes and its mirror
  into the registry's legacy statuses.  Python mutates the process object that the table holds;
  the model updates the table entry of that pid.
\<close>

subsection \<open>Phases\<close>

datatype phase = Pending | Admitted | Starting | Running | AwaitingHuman | AwaitingExternal
  | Draining | Stopped | Failed | Quarantined | Evicted

definition all_phases :: "phase list" where
  "all_phases = [Pending, Admitted, Starting, Running, AwaitingHuman, AwaitingExternal,
     Draining, Stopped, Failed, Quarantined, Evicted]"

fun phase_value :: "phase \<Rightarrow> string" where
  "phase_value Pending = ''pending''"
| "phase_value Admitted = ''admitted''"
| "phase_value Starting = ''starting''"
| "phase_value Running = ''running''"
| "phase_value AwaitingHuman = ''awaiting_human''"
| "phase_value AwaitingExternal = ''awaiting_external''"
| "phase_value Draining = ''draining''"
| "phase_value Stopped = ''stopped''"
| "phase_value Failed = ''failed''"
| "phase_value Quarantined = ''quarantined''"
| "phase_value Evicted = ''evicted''"

fun allowed_transitions :: "phase \<Rightarrow> phase list" where
  "allowed_transitions Pending = [Admitted, Failed, Quarantined]"
| "allowed_transitions Admitted = [Starting, Failed, Quarantined, Evicted, Stopped]"
| "allowed_transitions Starting = [Running, Failed, Quarantined, Evicted, Stopped]"
| "allowed_transitions Running =
     [AwaitingHuman, AwaitingExternal, Draining, Failed, Quarantined, Evicted, Stopped]"
| "allowed_transitions AwaitingHuman =
     [Running, AwaitingExternal, Draining, Failed, Quarantined, Evicted, Stopped]"
| "allowed_transitions AwaitingExternal =
     [Running, AwaitingHuman, Draining, Failed, Quarantined, Evicted, Stopped]"
| "allowed_transitions Draining = [Stopped, Failed, Evicted]"
| "allowed_transitions Stopped = []"
| "allowed_transitions Failed = [Quarantined, Stopped]"
| "allowed_transitions Quarantined = [Stopped, Admitted]"
| "allowed_transitions Evicted = [Stopped, Admitted]"

definition is_terminal :: "phase \<Rightarrow> bool" where
  "is_terminal p = (p = Stopped)"

definition can_transition :: "phase \<Rightarrow> phase \<Rightarrow> bool" where
  "can_transition cur tgt = (tgt \<in> set (allowed_transitions cur))"

subsection \<open>Accounting, identity, process records\<close>

record usage =
  tokens_in :: int
  tokens_out :: int
  dollars :: rat
  tool_calls :: int
  wallclock_ms :: rat
  last_heartbeat_at :: "time option"

definition no_usage :: usage where
  "no_usage = \<lparr>tokens_in = 0, tokens_out = 0, dollars = 0, tool_calls = 0, wallclock_ms = 0,
     last_heartbeat_at = None\<rparr>"

definition accumulate :: "int \<Rightarrow> int \<Rightarrow> rat \<Rightarrow> int \<Rightarrow> rat \<Rightarrow> usage \<Rightarrow> usage" where
  "accumulate ti tko d tc w u = u\<lparr>tokens_in := tokens_in u + ti, tokens_out := tokens_out u + tko,
     dollars := dollars u + d, tool_calls := tool_calls u + tc, wallclock_ms := wallclock_ms u + w\<rparr>"

definition total_tokens :: "usage \<Rightarrow> int" where
  "total_tokens u = tokens_in u + tokens_out u"

record identity =
  pid :: string
  id_name :: string
  id_namespace :: string
  generation :: int
  owner_id :: "string option"
  tenant_id :: string
  parent_pid :: "string option"

definition qualified_name :: "identity \<Rightarrow> string" where
  "qualified_name i = (if id_name i \<noteq> [] then id_namespace i @ ''/'' @ id_name i else id_namespace i)"

record process =
  ident :: identity
  spec_ref :: string
  phase_of :: phase
  resource_usage :: usage
  pending_signals :: "string list"
  last_error :: "string option"
  created_at :: time
  phase_changed_at :: time

definition new_process :: "time \<Rightarrow> identity \<Rightarrow> string \<Rightarrow> phase \<Rightarrow> process" where
  "new_process now i sr ph = \<lparr>ident = i, spec_ref = sr, phase_of = ph, resource_usage = no_usage,
     pending_signals = [], last_error = None, created_at = now, phase_changed_at = now\<rparr>"

text \<open>\<open>AgentProcess.transition\<close>: the result, and the process afterwards.\<close>

definition proc_transition :: "time \<Rightarrow> phase \<Rightarrow> string \<Rightarrow> bool \<Rightarrow> process \<Rightarrow> bool \<times> process" where
  "proc_transition now ph reason force p =
     (if ph = phase_of p then (True, p)
      else if \<not> force \<and> \<not> can_transition (phase_of p) ph then (False, p)
      else (True, p\<lparr>phase_of := ph, phase_changed_at := now,
                    last_error := (if reason \<noteq> [] \<and> ph \<in> {Failed, Quarantined, Evicted}
                                   then Some reason else last_error p)\<rparr>))"

subsection \<open>Legacy status mapping\<close>

definition status_value_to_phase :: "(string \<times> phase) list" where
  "status_value_to_phase = [(''idle'', Running), (''running'', Running), (''paused'', Draining),
     (''stopped'', Stopped), (''failed'', Failed), (''completed'', Stopped),
     (''quarantined'', Quarantined)]"

definition phase_from_status_value :: "string \<Rightarrow> phase" where
  "phase_from_status_value s = dget_default status_value_to_phase (lower s) Pending"

fun status_value_from_phase :: "phase \<Rightarrow> string" where
  "status_value_from_phase Pending = ''idle''"
| "status_value_from_phase Admitted = ''idle''"
| "status_value_from_phase Starting = ''idle''"
| "status_value_from_phase Running = ''running''"
| "status_value_from_phase AwaitingHuman = ''paused''"
| "status_value_from_phase AwaitingExternal = ''paused''"
| "status_value_from_phase Draining = ''paused''"
| "status_value_from_phase Stopped = ''stopped''"
| "status_value_from_phase Failed = ''failed''"
| "status_value_from_phase Quarantined = ''quarantined''"
| "status_value_from_phase Evicted = ''stopped''"

text \<open>\<open>AgentStatus(value)\<close>; \<open>None\<close> is the \<open>ValueError\<close> the caller swallows.\<close>

definition agent_status_of_value :: "string \<Rightarrow> agent_status option" where
  "agent_status_of_value s = map_of [(''idle'', SIdle), (''running'', SRunning),
     (''paused'', SPaused), (''stopped'', SStopped), (''failed'', SFailed),
     (''completed'', SCompleted), (''quarantined'', SQuarantined)] s"

subsection \<open>The process table\<close>

record ptable =
  registry_of :: "registry option"
  processes :: "(string, process) dict"

datatype process_error = ProcessAlreadyRegistered string

definition empty_ptable :: "registry option \<Rightarrow> ptable" where
  "empty_ptable r = \<lparr>registry_of = r, processes = []\<rparr>"

definition attach_registry :: "registry \<Rightarrow> ptable \<Rightarrow> ptable" where
  "attach_registry r t = t\<lparr>registry_of := Some r\<rparr>"

definition pt_get :: "ptable \<Rightarrow> string \<Rightarrow> process option" where
  "pt_get t k = map_of (processes t) k"

definition mirror_phases :: "phase list" where
  "mirror_phases = [Stopped, Failed, Quarantined, Evicted]"

definition mirror_status :: "process \<Rightarrow> ptable \<Rightarrow> ptable" where
  "mirror_status p t =
     (case registry_of t of
        None \<Rightarrow> t
      | Some r \<Rightarrow>
        (if phase_of p \<notin> set mirror_phases then t
         else case agent_status_of_value (status_value_from_phase (phase_of p)) of
                None \<Rightarrow> t
              | Some st \<Rightarrow> t\<lparr>registry_of := Some (reg_set_status (pid (ident p)) st r)\<rparr>))"

definition pt_register ::
    "time \<Rightarrow> identity \<Rightarrow> string \<Rightarrow> phase \<Rightarrow> ptable \<Rightarrow> process_error + process \<times> ptable" where
  "pt_register now i sr ph t =
     (if map_of (processes t) (pid i) \<noteq> None then Inl (ProcessAlreadyRegistered (pid i))
      else let p = new_process now i sr ph
           in Inr (p, mirror_status p (t\<lparr>processes := dset (pid i) p (processes t)\<rparr>)))"

definition pt_unregister :: "string \<Rightarrow> ptable \<Rightarrow> bool \<times> ptable" where
  "pt_unregister k t = (map_of (processes t) k \<noteq> None, t\<lparr>processes := dpop k (processes t)\<rparr>)"

definition children_of :: "ptable \<Rightarrow> string \<Rightarrow> process list" where
  "children_of t k = filter (\<lambda>p. parent_pid (ident p) = Some k) (dvals (processes t))"

text \<open>The signal and the forced transition that one child receives.\<close>

definition cascade_signal :: "phase \<Rightarrow> string" where
  "cascade_signal ph = (if ph \<in> {Stopped, Failed} then ''parent_terminated'' else ''parent_quarantined'')"

definition drain_child :: "time \<Rightarrow> string \<Rightarrow> string \<Rightarrow> process \<Rightarrow> process" where
  "drain_child now signal reason c =
     snd (proc_transition now Draining reason True
            (c\<lparr>pending_signals := pending_signals c @ [signal]\<rparr>))"

definition cascade_one :: "time \<Rightarrow> string \<Rightarrow> string \<Rightarrow> process \<Rightarrow> ptable \<Rightarrow> ptable" where
  "cascade_one now signal reason c t =
     (if is_terminal (phase_of c) then t
      else let c' = drain_child now signal reason c
           in mirror_status c' (t\<lparr>processes := dset (pid (ident c)) c' (processes t)\<rparr>))"

definition cascade_reason :: "string \<Rightarrow> phase \<Rightarrow> string \<Rightarrow> string" where
  "cascade_reason k ph reason = ''parent '' @ k @ '' entered '' @ phase_value ph @ '': '' @ reason"

definition cascade_to_children :: "time \<Rightarrow> string \<Rightarrow> phase \<Rightarrow> string \<Rightarrow> ptable \<Rightarrow> ptable" where
  "cascade_to_children now k ph reason t =
     fold (cascade_one now (cascade_signal ph) (cascade_reason k ph reason)) (children_of t k) t"

definition cascade_phases :: "phase list" where
  "cascade_phases = [Stopped, Failed, Quarantined, Evicted]"

text \<open>\<open>ProcessTable.transition\<close>; the returned process is the one the table then holds.\<close>

definition pt_transition ::
    "time \<Rightarrow> string \<Rightarrow> phase \<Rightarrow> string \<Rightarrow> bool \<Rightarrow> bool \<Rightarrow> ptable \<Rightarrow> process option \<times> ptable" where
  "pt_transition now k ph reason force cascade t =
     (case map_of (processes t) k of
        None \<Rightarrow> (None, t)
      | Some p \<Rightarrow>
        (let (ok, p') = proc_transition now ph reason force p;
             t1 = t\<lparr>processes := dset k p' (processes t)\<rparr>;
             t2 = (if ok then mirror_status p' t1 else t1);
             t3 = (if cascade \<and> ph \<in> set cascade_phases
                   then cascade_to_children now k ph reason t2 else t2)
         in (map_of (processes t3) k, t3)))"

definition record_usage :: "string \<Rightarrow> int \<Rightarrow> int \<Rightarrow> rat \<Rightarrow> int \<Rightarrow> rat \<Rightarrow> ptable \<Rightarrow> ptable" where
  "record_usage k ti tko d tc w t = t\<lparr>processes := dmod k
     (\<lambda>p. p\<lparr>resource_usage := accumulate ti tko d tc w (resource_usage p)\<rparr>) (processes t)\<rparr>"

definition heartbeat :: "time \<Rightarrow> string \<Rightarrow> ptable \<Rightarrow> ptable" where
  "heartbeat now k t = t\<lparr>processes := dmod k
     (\<lambda>p. p\<lparr>resource_usage := (resource_usage p)\<lparr>last_heartbeat_at := Some now\<rparr>\<rparr>) (processes t)\<rparr>"

definition record_signal :: "string \<Rightarrow> string \<Rightarrow> ptable \<Rightarrow> ptable" where
  "record_signal k sig t = t\<lparr>processes := dmod k
     (\<lambda>p. if sig \<notin> set (pending_signals p)
          then p\<lparr>pending_signals := pending_signals p @ [sig]\<rparr> else p) (processes t)\<rparr>"

text \<open>\<open>list.remove\<close> drops the first occurrence.\<close>

definition clear_signal :: "string \<Rightarrow> string \<Rightarrow> ptable \<Rightarrow> ptable" where
  "clear_signal k sig t = t\<lparr>processes := dmod k
     (\<lambda>p. if sig \<in> set (pending_signals p)
          then p\<lparr>pending_signals := remove1 sig (pending_signals p)\<rparr> else p) (processes t)\<rparr>"

subsection \<open>Introspection\<close>

definition pt_list_all :: "ptable \<Rightarrow> process list" where
  "pt_list_all t = dvals (processes t)"

definition by_phase :: "ptable \<Rightarrow> phase \<Rightarrow> process list" where
  "by_phase t ph = filter (\<lambda>p. phase_of p = ph) (dvals (processes t))"

definition by_namespace :: "ptable \<Rightarrow> string \<Rightarrow> process list" where
  "by_namespace t ns = filter (\<lambda>p. id_namespace (ident p) = ns) (dvals (processes t))"

definition by_tenant :: "ptable \<Rightarrow> string \<Rightarrow> process list" where
  "by_tenant t tn = filter (\<lambda>p. tenant_id (ident p) = tn) (dvals (processes t))"

definition pt_summary :: "ptable \<Rightarrow> (string, nat) dict" where
  "pt_summary t =
     dset ''total'' (length (processes t))
       (fold (\<lambda>p. count_up (phase_value (phase_of p))) (dvals (processes t))
          (map (\<lambda>p. (phase_value p, 0)) all_phases))"

subsection \<open>The phase machine\<close>

lemma can_transition_simps [simp]:
  "can_transition Stopped q = False"
  "can_transition Draining q = (q \<in> {Stopped, Failed, Evicted})"
  "can_transition Pending q = (q \<in> {Admitted, Failed, Quarantined})"
  "can_transition Failed q = (q \<in> {Quarantined, Stopped})"
  "can_transition Quarantined q = (q \<in> {Stopped, Admitted})"
  "can_transition Evicted q = (q \<in> {Stopped, Admitted})"
  by (auto simp: can_transition_def)

lemma can_transition_irrefl: "\<not> can_transition p p"
  by (cases p) (auto simp: can_transition_def)

text \<open>A sequence of phases in which every step is legal.\<close>

fun legal_run :: "phase \<Rightarrow> phase list \<Rightarrow> bool" where
  "legal_run p [] = True"
| "legal_run p (q # qs) = (can_transition p q \<and> legal_run q qs)"

lemma legal_run_stopped: "legal_run Stopped qs \<Longrightarrow> qs = []"
  by (cases qs) auto

lemma into_running: "can_transition p Running \<Longrightarrow> p \<in> {Starting, AwaitingHuman, AwaitingExternal}"
  by (cases p) (auto simp: can_transition_def)

lemma into_starting: "can_transition p Starting \<Longrightarrow> p = Admitted"
  by (cases p) (auto simp: can_transition_def)

lemma into_awaiting:
  "can_transition p AwaitingHuman \<or> can_transition p AwaitingExternal
   \<Longrightarrow> p \<in> {Running, AwaitingHuman, AwaitingExternal}"
  by (cases p) (auto simp: can_transition_def)

definition live_phases :: "phase set" where
  "live_phases = {Running, AwaitingHuman, AwaitingExternal}"

lemma into_live: "can_transition p q \<Longrightarrow> q \<in> live_phases \<Longrightarrow> p \<in> live_phases \<or> p = Starting"
  using into_running into_awaiting by (auto simp: live_phases_def)

lemma legal_run_live:
  "legal_run p qs \<Longrightarrow> q \<in> set qs \<Longrightarrow> q \<in> live_phases \<Longrightarrow> p \<notin> live_phases \<Longrightarrow> p \<noteq> Starting
   \<Longrightarrow> Starting \<in> set qs"
  by (induction qs arbitrary: p) (use into_live in auto)

lemma legal_run_starting:
  "legal_run p qs \<Longrightarrow> Starting \<in> set qs \<Longrightarrow> p \<noteq> Admitted \<Longrightarrow> Admitted \<in> set qs"
  by (induction qs arbitrary: p) (use into_starting in auto)

subsection \<open>One process\<close>

lemma proc_transition_ident [simp]:
  "ident (snd (proc_transition now ph reason force p)) = ident p"
  "spec_ref (snd (proc_transition now ph reason force p)) = spec_ref p"
  "resource_usage (snd (proc_transition now ph reason force p)) = resource_usage p"
  "pending_signals (snd (proc_transition now ph reason force p)) = pending_signals p"
  by (simp_all add: proc_transition_def)

lemma proc_transition_ok:
  "fst (proc_transition now ph reason force p) \<longleftrightarrow>
     ph = phase_of p \<or> force \<or> can_transition (phase_of p) ph"
  by (auto simp: proc_transition_def)

lemma proc_transition_phase:
  "phase_of (snd (proc_transition now ph reason force p)) =
     (if fst (proc_transition now ph reason force p) then ph else phase_of p)"
  by (auto simp: proc_transition_def)

lemma proc_transition_rejected:
  "\<not> fst (proc_transition now ph reason force p) \<Longrightarrow> snd (proc_transition now ph reason force p) = p"
  by (auto simp: proc_transition_def split: if_splits)

lemma proc_transition_error:
  "last_error (snd (proc_transition now ph reason force p)) \<noteq> last_error p
   \<Longrightarrow> last_error (snd (proc_transition now ph reason force p)) = Some reason
     \<and> ph \<in> {Failed, Quarantined, Evicted}"
  by (auto simp: proc_transition_def split: if_splits)

lemma drain_child_simps [simp]:
  "ident (drain_child now signal reason c) = ident c"
  "phase_of (drain_child now signal reason c) = Draining"
  "pending_signals (drain_child now signal reason c) = pending_signals c @ [signal]"
  "resource_usage (drain_child now signal reason c) = resource_usage c"
  by (simp_all add: drain_child_def proc_transition_phase proc_transition_ok)

subsection \<open>The table invariant\<close>

abbreviation proc_key :: "process \<Rightarrow> string" where
  "proc_key p \<equiv> pid (ident p)"

definition pt_ok :: "ptable \<Rightarrow> bool" where
  "pt_ok t = (keyed proc_key (processes t) \<and> (\<forall>r. registry_of t = Some r \<longrightarrow> reg_ok r))"

lemma mirror_processes [simp]: "processes (mirror_status p t) = processes t"
  by (simp add: mirror_status_def split: option.splits)

lemma pt_ok_mirror [inv_intros]: "pt_ok t \<Longrightarrow> pt_ok (mirror_status p t)"
  by (auto simp: pt_ok_def mirror_status_def intro: reg_ok_set_status split: option.splits)

lemma pt_ok_processes [inv_intros]:
  "pt_ok t \<Longrightarrow> keyed proc_key d \<Longrightarrow> pt_ok (t\<lparr>processes := d\<rparr>)"
  by (simp add: pt_ok_def)

lemma pt_ok_keyed: "pt_ok t \<Longrightarrow> keyed proc_key (processes t)"
  by (simp add: pt_ok_def)

lemma pt_ok_empty [inv_intros]: "(\<And>r'. r = Some r' \<Longrightarrow> reg_ok r') \<Longrightarrow> pt_ok (empty_ptable r)"
  by (simp add: pt_ok_def empty_ptable_def)

lemma pt_ok_register [inv_intros]: "pt_ok t \<Longrightarrow> pt_register now i sr ph t = Inr (p, t') \<Longrightarrow> pt_ok t'"
  by (auto simp: pt_register_def Let_def new_process_def split: if_splits
      intro!: pt_ok_mirror pt_ok_processes keyed_dset pt_ok_keyed)

lemma pt_ok_unregister [inv_intros]: "pt_ok t \<Longrightarrow> pt_ok (snd (pt_unregister k t))"
  by (auto simp: pt_unregister_def intro!: pt_ok_processes keyed_dpop pt_ok_keyed)

lemma pt_ok_cascade_one [inv_intros]: "pt_ok t \<Longrightarrow> pt_ok (cascade_one now sig reason c t)"
  by (auto simp: cascade_one_def Let_def intro!: pt_ok_mirror pt_ok_processes keyed_dset pt_ok_keyed)

lemma pt_ok_cascade [inv_intros]: "pt_ok t \<Longrightarrow> pt_ok (cascade_to_children now k ph reason t)"
proof -
  have "pt_ok s \<Longrightarrow> pt_ok (fold (cascade_one now sig rsn) cs s)" for sig rsn cs s
    by (induction cs arbitrary: s) (auto intro: pt_ok_cascade_one)
  then show "pt_ok t \<Longrightarrow> ?thesis" by (simp add: cascade_to_children_def)
qed

lemma pt_ok_transition [inv_intros]:
  assumes "pt_ok t"
  shows "pt_ok (snd (pt_transition now k ph reason force cascade t))"
proof (cases "map_of (processes t) k")
  case None
  with assms show ?thesis by (simp add: pt_transition_def)
next
  case (Some p)
  have "proc_key p = k" using assms Some by (blast dest: pt_ok_keyed keyed_lookup)
  then have "pt_ok (t\<lparr>processes := dset k (snd (proc_transition now ph reason force p)) (processes t)\<rparr>)"
    using assms by (intro pt_ok_processes keyed_dset pt_ok_keyed) auto
  with Some show ?thesis
    by (auto simp: pt_transition_def split_beta Let_def intro: pt_ok_mirror pt_ok_cascade)
qed

lemma pt_ok_record_usage [inv_intros]: "pt_ok t \<Longrightarrow> pt_ok (record_usage k ti tko d tc w t)"
  by (auto simp: record_usage_def intro!: pt_ok_processes keyed_dmod pt_ok_keyed)

lemma pt_ok_heartbeat [inv_intros]: "pt_ok t \<Longrightarrow> pt_ok (heartbeat now k t)"
  by (auto simp: heartbeat_def intro!: pt_ok_processes keyed_dmod pt_ok_keyed)

lemma pt_ok_record_signal [inv_intros]: "pt_ok t \<Longrightarrow> pt_ok (record_signal k sig t)"
  by (auto simp: record_signal_def intro!: pt_ok_processes keyed_dmod pt_ok_keyed)

lemma pt_ok_clear_signal [inv_intros]: "pt_ok t \<Longrightarrow> pt_ok (clear_signal k sig t)"
  by (auto simp: clear_signal_def intro!: pt_ok_processes keyed_dmod pt_ok_keyed)

subsection \<open>The cascade, pointwise\<close>

text \<open>What the cascade of parent \<open>k\<close> does to any one process.\<close>

definition cascade_effect :: "time \<Rightarrow> string \<Rightarrow> phase \<Rightarrow> string \<Rightarrow> process \<Rightarrow> process" where
  "cascade_effect now k ph reason p =
     (if parent_pid (ident p) = Some k \<and> \<not> is_terminal (phase_of p)
      then drain_child now (cascade_signal ph) (cascade_reason k ph reason) p else p)"

lemma map_of_cascade_one:
  "map_of (processes (cascade_one now sig rsn c t)) j =
     (if j = proc_key c \<and> \<not> is_terminal (phase_of c) then Some (drain_child now sig rsn c)
      else map_of (processes t) j)"
  by (simp add: cascade_one_def Let_def)

lemma fold_cascade:
  assumes "distinct (map proc_key cs)" and "\<And>c. c \<in> set cs \<Longrightarrow> map_of (processes t) (proc_key c) = Some c"
  shows "map_of (processes (fold (cascade_one now sig rsn) cs t)) j =
    map_option (\<lambda>p. if j \<in> proc_key ` set cs \<and> \<not> is_terminal (phase_of p)
                    then drain_child now sig rsn p else p) (map_of (processes t) j)"
  using assms
proof (induction cs arbitrary: t)
  case Nil
  then show ?case by (simp add: option.map_ident)
next
  case (Cons c cs)
  let ?t = "cascade_one now sig rsn c t"
  have "map_of (processes ?t) (proc_key d) = Some d" if "d \<in> set cs" for d
    using Cons.prems that by (auto simp: map_of_cascade_one) (metis imageI)
  then have "map_of (processes (fold (cascade_one now sig rsn) cs ?t)) j =
    map_option (\<lambda>p. if j \<in> proc_key ` set cs \<and> \<not> is_terminal (phase_of p)
                    then drain_child now sig rsn p else p) (map_of (processes ?t) j)"
    using Cons by simp
  moreover have "map_of (processes t) (proc_key c) = Some c" using Cons.prems by simp
  ultimately show ?case
    using Cons.prems(1) by (cases "j = proc_key c") (auto simp: map_of_cascade_one)
qed

lemma map_of_cascade:
  assumes "pt_ok t"
  shows "map_of (processes (cascade_to_children now k ph reason t)) j =
    map_option (cascade_effect now k ph reason) (map_of (processes t) j)"
proof -
  note ky = pt_ok_keyed [OF assms]
  have d: "distinct (map proc_key (children_of t k))"
    using keyed_vals_distinct [OF ky] by (simp add: children_of_def distinct_map_filter)
  have m: "map_of (processes t) (proc_key c) = Some c" if "c \<in> set (children_of t k)" for c
    using that keyed_vals [OF ky] by (simp add: children_of_def)
  have "j \<in> proc_key ` set (children_of t k) \<longleftrightarrow> parent_pid (ident p) = Some k"
    if p: "map_of (processes t) j = Some p" for p
  proof -
    have "proc_key p = j" using ky p by (rule keyed_lookup)
    moreover have "p \<in> set (dvals (processes t))" using p keyed_vals [OF ky] calculation by simp
    ultimately show ?thesis using m p by (force simp: children_of_def)
  qed
  then show ?thesis
    by (cases "map_of (processes t) j")
      (simp_all add: cascade_to_children_def fold_cascade [OF d m] cascade_effect_def)
qed

text \<open>The table as a partial function, and a transition on it.\<close>

definition abs_transition :: "time \<Rightarrow> string \<Rightarrow> phase \<Rightarrow> string \<Rightarrow> bool \<Rightarrow> bool \<Rightarrow>
    (string \<rightharpoonup> process) \<Rightarrow> (string \<rightharpoonup> process)" where
  "abs_transition now k ph reason force cascade m =
     (case m k of
        None \<Rightarrow> m
      | Some p \<Rightarrow>
        let m' = m(k \<mapsto> snd (proc_transition now ph reason force p))
        in if cascade \<and> ph \<in> set cascade_phases
           then (\<lambda>j. map_option (cascade_effect now k ph reason) (m' j)) else m')"

lemma pt_transition_refines:
  assumes "pt_ok t"
  shows "map_of (processes (snd (pt_transition now k ph reason force cascade t))) =
    abs_transition now k ph reason force cascade (map_of (processes t))"
proof (cases "map_of (processes t) k")
  case None
  then show ?thesis by (simp add: pt_transition_def abs_transition_def)
next
  case (Some p)
  let ?p = "snd (proc_transition now ph reason force p)"
  let ?t = "t\<lparr>processes := dset k ?p (processes t)\<rparr>"
  have "proc_key ?p = k"
    using assms Some by (simp add: pt_ok_keyed keyed_lookup [of proc_key "processes t"])
  then have ok: "pt_ok ?t" "pt_ok (mirror_status ?p ?t)"
    using assms by (auto intro!: pt_ok_processes keyed_dset pt_ok_keyed pt_ok_mirror)
  show ?thesis
    using Some map_of_cascade [OF ok(1)] map_of_cascade [OF ok(2)]
    by (auto simp: pt_transition_def abs_transition_def split_beta Let_def fun_eq_iff)
qed

subsection \<open>Accounting, signals, mirror\<close>

lemma map_of_record_usage:
  "map_of (processes (record_usage k ti tko d tc w t)) j =
    map_option (\<lambda>p. if j = k then p\<lparr>resource_usage := accumulate ti tko d tc w (resource_usage p)\<rparr>
                    else p) (map_of (processes t) j)"
  by (cases "map_of (processes t) j") (auto simp: record_usage_def)

lemma total_tokens_accumulate:
  "total_tokens (accumulate ti tko d tc w u) = total_tokens u + ti + tko"
  by (simp add: total_tokens_def accumulate_def)

lemma pending_record_signal:
  "map_of (processes t) k = Some p \<Longrightarrow>
   \<exists>p'. map_of (processes (record_signal k sig t)) k = Some p'
     \<and> set (pending_signals p') = insert sig (set (pending_signals p))
     \<and> (distinct (pending_signals p) \<longrightarrow> distinct (pending_signals p'))"
  by (auto simp: record_signal_def)

lemma mirrored_status:
  assumes "registry_of t = Some r" and "phase_of p \<in> set mirror_phases"
    and "map_of (r_agents r) (proc_key p) \<noteq> None"
  shows "\<exists>r'. registry_of (mirror_status p t) = Some r'
    \<and> agent_status_of_value (status_value_from_phase (phase_of p)) = Some (reg_get_status r' (proc_key p))"
  using assms
  by (auto simp: mirror_status_def mirror_phases_def agent_status_of_value_def)

lemma status_roundtrip:
  "p \<in> {Running, Draining, Stopped, Failed, Quarantined} \<Longrightarrow>
   phase_from_status_value (status_value_from_phase p) = p"
  by (auto simp: phase_from_status_value_def status_value_to_phase_def lower_def lower_char_def)

lemma pt_summary_phase:
  "dget_default (pt_summary t) (phase_value ph) 0 = length (by_phase t ph)"
proof -
  have inj: "phase_value p = phase_value q \<longleftrightarrow> p = q" for p q
    by (cases p; cases q) simp_all
  have z: "dget_default (map (\<lambda>p. (phase_value p, 0::nat)) ps) s 0 = 0" for ps s
    by (induction ps) (auto simp: dget_default_def)
  have "phase_value ph \<noteq> ''total''" by (cases ph) simp_all
  then show ?thesis
    by (simp add: pt_summary_def fold_count_up z inj by_phase_def)
qed

subsection \<open>All operations\<close>

datatype pt_op = OpRegister identity string phase | OpUnregister string
  | OpTransition string phase string bool bool | OpUsage string int int rat int rat
  | OpHeartbeat string | OpSignal string string | OpClear string string

fun pt_apply :: "time \<times> pt_op \<Rightarrow> ptable \<Rightarrow> ptable" where
  "pt_apply (now, OpRegister i sr ph) t =
     (case pt_register now i sr ph t of Inl e \<Rightarrow> t | Inr (p, t') \<Rightarrow> t')"
| "pt_apply (now, OpUnregister k) t = snd (pt_unregister k t)"
| "pt_apply (now, OpTransition k ph reason force cascade) t =
     snd (pt_transition now k ph reason force cascade t)"
| "pt_apply (now, OpUsage k ti tko d tc w) t = record_usage k ti tko d tc w t"
| "pt_apply (now, OpHeartbeat k) t = heartbeat now k t"
| "pt_apply (now, OpSignal k sig) t = record_signal k sig t"
| "pt_apply (now, OpClear k sig) t = clear_signal k sig t"

lemma pt_ok_apply: "pt_ok t \<Longrightarrow> pt_ok (pt_apply opn t)"
  by (induction opn t rule: pt_apply.induct)
    (auto intro: inv_intros split: sum.splits)

text \<open>The unforced transitions of one process, one after the other: the phases it goes through.\<close>

fun phase_trace :: "process \<Rightarrow> (time \<times> phase \<times> string) list \<Rightarrow> phase list" where
  "phase_trace p [] = []"
| "phase_trace p ((now, ph, reason) # cs) =
     (let p' = snd (proc_transition now ph reason False p) in phase_of p' # phase_trace p' cs)"

text \<open>Requests that the guard rejects, or that name the current phase, leave the phase.\<close>

lemma trace_step:
  "phase_of (snd (proc_transition now ph reason False p)) = phase_of p
   \<or> can_transition (phase_of p) (phase_of (snd (proc_transition now ph reason False p)))"
  by (auto simp: proc_transition_def)

lemma trace_starting:
  "Starting \<in> set (phase_trace p cs) \<Longrightarrow> phase_of p \<notin> {Starting, Admitted} \<Longrightarrow>
   Admitted \<in> set (takeWhile (\<lambda>q. q \<noteq> Starting) (phase_trace p cs))"
proof (induction p cs rule: phase_trace.induct)
  case (2 p now ph reason cs)
  let ?p = "snd (proc_transition now ph reason False p)"
  have ne: "phase_of ?p \<noteq> Starting"
    using trace_step [of now ph reason p] into_starting "2.prems"(2) by auto
  show ?case
  proof (cases "phase_of ?p = Admitted")
    case True
    then show ?thesis by (simp add: Let_def)
  next
    case False
    with 2 ne show ?thesis by (simp add: Let_def)
  qed
qed simp

lemma trace_live:
  "q \<in> live_phases \<Longrightarrow> q \<in> set (phase_trace p cs) \<Longrightarrow> phase_of p \<notin> insert Starting live_phases \<Longrightarrow>
   Starting \<in> set (takeWhile (\<lambda>q. q \<notin> live_phases) (phase_trace p cs))"
proof (induction p cs rule: phase_trace.induct)
  case (2 p now ph reason cs)
  let ?p = "snd (proc_transition now ph reason False p)"
  have ne: "phase_of ?p \<notin> live_phases"
    using trace_step [of now ph reason p] into_live "2.prems"(3) by auto
  show ?case
  proof (cases "phase_of ?p = Starting")
    case True
    with ne show ?thesis by (simp add: Let_def)
  next
    case False
    with 2 ne show ?thesis by (auto simp: Let_def)
  qed
qed simp

lemma trace_stopped: "phase_of p = Stopped \<Longrightarrow> set (phase_trace p cs) \<subseteq> {Stopped}"
proof (induction p cs rule: phase_trace.induct)
  case (2 p now ph reason cs)
  have "phase_of (snd (proc_transition now ph reason False p)) = Stopped"
    using trace_step [of now ph reason p] "2.prems" by auto
  with 2 show ?case by (auto simp: Let_def)
qed simp

lemma phase_counts:
  "sum_list (map (\<lambda>ph. length (filter (\<lambda>p. phase_of p = ph) ps)) all_phases) = length ps"
proof (induction ps)
  case (Cons p ps)
  then show ?case by (cases "phase_of p") (simp_all add: all_phases_def)
qed (simp add: all_phases_def)

lemma pt_summary_total:
  "dget_default (pt_summary t) ''total'' 0 =
     sum_list (map (\<lambda>ph. dget_default (pt_summary t) (phase_value ph) 0) all_phases)"
  unfolding pt_summary_phase by_phase_def phase_counts by (simp add: pt_summary_def)

subsection \<open>Properties\<close>

text \<open>A parent in \<open>Draining\<close> with a quarantined and a stopped child, for the witnesses.\<close>

definition demo_identity :: "string \<Rightarrow> string option \<Rightarrow> identity" where
  "demo_identity k par = \<lparr>pid = k, id_name = k, id_namespace = ''default'', generation = 1,
     owner_id = None, tenant_id = ''default'', parent_pid = par\<rparr>"

definition demo_table :: ptable where
  "demo_table = \<lparr>registry_of = None, processes =
     [(''p'', new_process 0 (demo_identity ''p'' None) ''p'' Draining),
      (''c'', new_process 0 (demo_identity ''c'' (Some ''p'')) ''c'' Quarantined),
      (''d'', new_process 0 (demo_identity ''d'' (Some ''p'')) ''d'' Stopped)]\<rparr>"

lemma demo_table_ok: "pt_ok demo_table"
  by (simp add: pt_ok_def demo_table_def keyed_def dict_ok_def new_process_def demo_identity_def)

text \<open>C15. A phase transition with its cascade acts on the table exactly as the pointwise
  specification \<open>abs_transition\<close>: the addressed process makes its (possibly rejected) transition,
  and, on a cascading phase, every non-terminal child of it is drained once; every other process
  is untouched, and the returned process is the one the table then holds.\<close>

theorem transition_refines_map:
  assumes "pt_ok t"
  shows "map_of (processes (snd (pt_transition now k ph reason force cascade t))) =
      abs_transition now k ph reason force cascade (map_of (processes t))
    \<and> fst (pt_transition now k ph reason force cascade t) =
      abs_transition now k ph reason force cascade (map_of (processes t)) k"
proof -
  have "fst (pt_transition now k ph reason force cascade t) =
      map_of (processes (snd (pt_transition now k ph reason force cascade t))) k"
    by (auto simp: pt_transition_def split_beta Let_def split: option.splits)
  then show ?thesis by (simp add: pt_transition_refines [OF assms])
qed

theorem transition_refines_map_witness:
  "map_of (processes (snd (pt_transition 5 ''p'' Stopped ''bye'' False True demo_table))) =
     abs_transition 5 ''p'' Stopped ''bye'' False True (map_of (processes demo_table))"
  using transition_refines_map [OF demo_table_ok] by blast

text \<open>When a process enters \<open>Stopped\<close>, \<open>Failed\<close>, \<open>Quarantined\<close> or \<open>Evicted\<close> with the cascade on,
  every child of it ends in \<open>Draining\<close> or \<open>Stopped\<close>, a child that was not stopped receives exactly
  one new signal, and every process that is neither the parent nor a child keeps its record.\<close>

theorem cascade_drains_children:
  assumes "pt_ok t" and "map_of (processes t) k = Some p" and "ph \<in> set cascade_phases"
    and "map_of (processes t) j = Some c" and "j \<noteq> k"
  shows "let t' = snd (pt_transition now k ph reason force True t)
    in if parent_pid (ident c) = Some k
       then \<exists>c'. map_of (processes t') j = Some c' \<and> phase_of c' \<in> {Draining, Stopped}
         \<and> (phase_of c = Stopped \<or> pending_signals c' = pending_signals c @ [cascade_signal ph])
       else map_of (processes t') j = Some c"
  using assms
  by (auto simp: pt_transition_refines abs_transition_def cascade_effect_def is_terminal_def Let_def)

theorem cascade_drains_children_witness:
  "\<exists>c'. map_of (processes (snd (pt_transition 5 ''p'' Stopped ''bye'' False True demo_table))) ''c'' = Some c'
     \<and> phase_of c' \<in> {Draining, Stopped}"
proof -
  have "map_of (processes demo_table) ''p'' = Some (new_process 0 (demo_identity ''p'' None) ''p'' Draining)"
    and "map_of (processes demo_table) ''c'' =
      Some (new_process 0 (demo_identity ''c'' (Some ''p'')) ''c'' Quarantined)"
    by (simp_all add: demo_table_def)
  from cascade_drains_children [OF demo_table_ok this(1) _ this(2), of Stopped 5 "''bye''" False]
  show ?thesis by (auto simp: cascade_phases_def new_process_def demo_identity_def Let_def)
qed

text \<open>A process becomes live (running or awaiting) only through admission: in the phases that
  unforced transitions take it through, from any phase but \<open>Admitted\<close>, \<open>Starting\<close> and the live
  ones, \<open>Starting\<close> comes before the first live phase and \<open>Admitted\<close> before the first \<open>Starting\<close>;
  and a stopped process stays stopped.\<close>

theorem live_only_after_admission:
  assumes "phase_of p \<notin> {Admitted, Starting, Running, AwaitingHuman, AwaitingExternal}"
  shows "(q \<in> live_phases \<and> q \<in> set (phase_trace p cs) \<longrightarrow>
      Starting \<in> set (takeWhile (\<lambda>q. q \<notin> live_phases) (phase_trace p cs))
      \<and> Admitted \<in> set (takeWhile (\<lambda>q. q \<noteq> Starting) (phase_trace p cs)))
    \<and> (phase_of p = Stopped \<longrightarrow> set (phase_trace p cs) \<subseteq> {Stopped})"
proof (intro conjI impI, goal_cases)
  case 1
  with assms show ?case by (intro trace_live [of q]) (auto simp: live_phases_def)
next
  case 2
  with assms have "Starting \<in> set (phase_trace p cs)"
    using trace_live [of q p cs] by (auto simp: live_phases_def dest: set_takeWhileD)
  with assms show ?case by (intro trace_starting) auto
qed (rule trace_stopped)

theorem live_only_after_admission_witness:
  "let p = new_process 0 (demo_identity ''c'' None) ''c'' Quarantined;
       cs = [(1, Running, []), (2, Admitted, []), (3, Starting, []), (4, Running, [])]
   in phase_trace p cs = [Quarantined, Admitted, Starting, Running]
      \<and> Starting \<in> set (takeWhile (\<lambda>q. q \<notin> live_phases) (phase_trace p cs))"
proof -
  let ?p = "new_process 0 (demo_identity ''c'' None) ''c'' Quarantined"
  let ?cs = "[(1, Running, []), (2, Admitted, []), (3, Starting, []), (4, Running, [])]"
  have tr: "phase_trace ?p ?cs = [Quarantined, Admitted, Starting, Running]"
    by (simp add: proc_transition_def new_process_def can_transition_def)
  have "phase_of ?p \<notin> {Admitted, Starting, Running, AwaitingHuman, AwaitingExternal}"
    by (simp add: new_process_def)
  from live_only_after_admission [OF this, of Running ?cs] tr show ?thesis
    by (simp add: Let_def live_phases_def)
qed

text \<open>The cascade does not depend on the parent's transition being accepted: a request to
  quarantine a draining process is rejected and leaves the parent as it was, and yet every
  non-terminal child, a quarantined one included, is forced to \<open>Draining\<close>.\<close>

theorem rejected_transition_still_cascades:
  assumes "pt_ok t" and "map_of (processes t) k = Some p" and "phase_of p = Draining"
    and "parent_pid (ident p) \<noteq> Some k"
    and "map_of (processes t) j = Some c" and "j \<noteq> k" and "parent_pid (ident c) = Some k"
    and "phase_of c \<noteq> Stopped"
  shows "map_of (processes (snd (pt_transition now k Quarantined reason False True t))) k = Some p
    \<and> map_option phase_of
        (map_of (processes (snd (pt_transition now k Quarantined reason False True t))) j) = Some Draining"
  using assms
  by (simp add: pt_transition_refines abs_transition_def cascade_effect_def is_terminal_def
      Let_def proc_transition_def cascade_phases_def)

theorem rejected_transition_still_cascades_witness:
  "map_option phase_of (map_of (processes
      (snd (pt_transition 5 ''p'' Quarantined ''hold'' False True demo_table))) ''c'') = Some Draining"
  using rejected_transition_still_cascades [OF demo_table_ok, of "''p''" _ "''c''" _ 5 "''hold''"]
  by (simp add: demo_table_def new_process_def demo_identity_def)



end
