(* ===== verification/Checkpoint.thy ===== *)
theory Checkpoint
  imports Decode Process
begin

text \<open>
  Process checkpoints (\<open>src/src/platform/kernel/_checkpoint.py\<close>): the record with its dictionary form, the
  snapshot of a process, and the store that keeps the latest checkpoint of every process.
\<close>

record loop_progress =
  lp_step :: int
  lp_max :: "int option"
  lp_crashes :: int
  lp_goal :: "string option"
  lp_summary :: "string option"
  lp_extra :: "(string \<times> pyval) list"

record checkpoint =
  cp_pid :: string
  cp_generation :: int
  cp_phase :: string
  cp_usage :: "(string \<times> pyval) list"
  cp_progress :: loop_progress
  cp_digest :: "string option"
  cp_last_seq :: int
  cp_created :: time
  cp_extra :: "(string \<times> pyval) list"

definition no_progress :: loop_progress where
  "no_progress = \<lparr>lp_step = 0, lp_max = None, lp_crashes = 0, lp_goal = None, lp_summary = None, lp_extra = []\<rparr>"

text \<open>The digest of a conversation; the hash of the canonical JSON is a parameter.\<close>

definition digest_messages :: "(pyval list \<Rightarrow> string) \<Rightarrow> pyval list option \<Rightarrow> string option" where
  "digest_messages sha ms = (case ms of None \<Rightarrow> None | Some xs \<Rightarrow> if xs = [] then None else Some (take 16 (sha xs)))"

definition progress_dict :: "loop_progress \<Rightarrow> (string \<times> pyval) list" where
  "progress_dict p = [(''step_index'', PInt (lp_step p)), (''max_iterations'', opt_int_val (lp_max p)),
     (''crash_count'', PInt (lp_crashes p)), (''goal'', opt_str_val (lp_goal p)),
     (''last_output_summary'', opt_str_val (lp_summary p)), (''extra'', PDict (lp_extra p))]"

definition checkpoint_dict :: "checkpoint \<Rightarrow> (string \<times> pyval) list" where
  "checkpoint_dict c = [(''pid'', PStr (cp_pid c)), (''generation'', PInt (cp_generation c)), (''phase'', PStr (cp_phase c)),
     (''resource_usage'', PDict (cp_usage c)), (''loop_progress'', PDict (progress_dict (cp_progress c))),
     (''conversation_digest'', opt_str_val (cp_digest c)), (''last_event_seq'', PInt (cp_last_seq c)),
     (''created_at'', PInt (cp_created c)), (''extra'', PDict (cp_extra c))]"

definition progress_of_dict :: "(string \<times> pyval) list \<Rightarrow> loop_progress res" where
  "progress_of_dict d =
     rbind (kwarg d ''step_index'' (Inr 0) as_int) (\<lambda>step.
     rbind (kwarg d ''max_iterations'' (Inr None) as_opt_int) (\<lambda>mx.
     rbind (kwarg d ''crash_count'' (Inr 0) as_int) (\<lambda>crashes.
     rbind (kwarg d ''goal'' (Inr None) as_opt_str) (\<lambda>goal.
     rbind (kwarg d ''last_output_summary'' (Inr None) as_opt_str) (\<lambda>summary.
     rbind (kwarg d ''extra'' (Inr []) as_dict) (\<lambda>extra.
       Inr \<lparr>lp_step = step, lp_max = mx, lp_crashes = crashes, lp_goal = goal, lp_summary = summary, lp_extra = extra\<rparr>))))))"

definition required :: "(string \<times> pyval) list \<Rightarrow> string \<Rightarrow> (pyval \<Rightarrow> 'a res) \<Rightarrow> 'a res" where
  "required d k = kwarg d k (Inl (KeyError k))"

definition checkpoint_of_dict :: "time \<Rightarrow> (string \<times> pyval) list \<Rightarrow> checkpoint res" where
  "checkpoint_of_dict now d =
     rbind (rbind (kwarg d ''loop_progress'' (Inr []) as_dict_or_empty) progress_of_dict) (\<lambda>progress.
     rbind (required d ''pid'' as_str) (\<lambda>k.
     rbind (kwarg d ''generation'' (Inr 1) py_int) (\<lambda>gen.
     rbind (required d ''phase'' as_str) (\<lambda>ph.
     rbind (kwarg d ''resource_usage'' (Inr []) as_dict_or_empty) (\<lambda>u.
     rbind (kwarg d ''conversation_digest'' (Inr None) as_opt_str) (\<lambda>dig.
     rbind (kwarg d ''last_event_seq'' (Inr 0) py_int) (\<lambda>seq.
     rbind (kwarg d ''created_at'' (Inr now) as_int) (\<lambda>created.
     rbind (kwarg d ''extra'' (Inr []) as_dict_or_empty) (\<lambda>extra.
       Inr \<lparr>cp_pid = k, cp_generation = gen, cp_phase = ph, cp_usage = u, cp_progress = progress, cp_digest = dig,
            cp_last_seq = seq, cp_created = created, cp_extra = extra\<rparr>)))))))))"

definition usage_dict :: "usage \<Rightarrow> (string \<times> pyval) list" where
  "usage_dict u = [(''tokens_in'', PInt (tokens_in u)), (''tokens_out'', PInt (tokens_out u)), (''dollars'', PFloat (dollars u)),
     (''tool_calls'', PInt (tool_calls u)), (''wallclock_ms'', PFloat (wallclock_ms u)),
     (''last_heartbeat_at'', opt_int_val (last_heartbeat_at u))]"

definition checkpoint_of_process ::
    "time \<Rightarrow> process \<Rightarrow> loop_progress option \<Rightarrow> string option \<Rightarrow> (string \<times> pyval) list option \<Rightarrow> checkpoint" where
  "checkpoint_of_process now p progress dig extra =
     \<lparr>cp_pid = pid (ident p), cp_generation = generation (ident p), cp_phase = phase_value (phase_of p),
      cp_usage = usage_dict (Process.resource_usage p), cp_progress = (case progress of None \<Rightarrow> no_progress | Some x \<Rightarrow> x),
      cp_digest = dig, cp_last_seq = 0, cp_created = now, cp_extra = or_nil extra\<rparr>"

subsection \<open>The store\<close>

type_synonym checkpoints = "(string, checkpoint) dict"

definition ck_save :: "checkpoint \<Rightarrow> checkpoints \<Rightarrow> checkpoints" where
  "ck_save c d = dset (cp_pid c) c d"

definition ck_load :: "checkpoints \<Rightarrow> string \<Rightarrow> checkpoint option" where
  "ck_load = map_of"

definition ck_delete :: "string \<Rightarrow> checkpoints \<Rightarrow> bool \<times> checkpoints" where
  "ck_delete k d = (map_of d k \<noteq> None, dpop k d)"

definition ck_list_all :: "checkpoints \<Rightarrow> checkpoint list" where
  "ck_list_all d = dvals d"

interpretation ckpts: keyed_store cp_pid "\<lambda>c. c" "[]" ck_save ck_load ck_delete ck_list_all "keyed cp_pid"
  using keyed_dict_store [of cp_pid "\<lambda>c. c"]
  unfolding ck_save_def [abs_def] ck_load_def ck_delete_def [abs_def] ck_list_all_def [abs_def] by simp

subsection \<open>The round trip\<close>

lemma progress_roundtrip:
  "progress_of_dict (progress_dict p @ unknown) = Inr p"
  by (simp add: progress_of_dict_def progress_dict_def kwarg_def)

lemma checkpoint_fields [simp]:
  "kwarg (checkpoint_dict c @ u) ''pid'' x f = f (PStr (cp_pid c))"
  "kwarg (checkpoint_dict c @ u) ''generation'' x' f' = f' (PInt (cp_generation c))"
  "kwarg (checkpoint_dict c @ u) ''phase'' x f = f (PStr (cp_phase c))"
  "kwarg (checkpoint_dict c @ u) ''resource_usage'' y g = g (PDict (cp_usage c))"
  "kwarg (checkpoint_dict c @ u) ''loop_progress'' y g = g (PDict (progress_dict (cp_progress c)))"
  "kwarg (checkpoint_dict c @ u) ''conversation_digest'' z h = h (opt_str_val (cp_digest c))"
  "kwarg (checkpoint_dict c @ u) ''last_event_seq'' x' f' = f' (PInt (cp_last_seq c))"
  "kwarg (checkpoint_dict c @ u) ''created_at'' x' f' = f' (PInt (cp_created c))"
  "kwarg (checkpoint_dict c @ u) ''extra'' y g = g (PDict (cp_extra c))"
  by (simp_all add: kwarg_def checkpoint_dict_def)

text \<open>
  A checkpoint survives its dictionary, whatever keys a later version adds; without a generation it is
  read as generation 1, and without its process it is refused.
\<close>

theorem checkpoint_roundtrip:
  "checkpoint_of_dict now (checkpoint_dict c @ unknown) = Inr c \<and>
   checkpoint_of_dict now (filter (\<lambda>(k, v). k \<noteq> ''generation'') (checkpoint_dict c)) = Inr (c\<lparr>cp_generation := 1\<rparr>) \<and>
   checkpoint_of_dict now (filter (\<lambda>(k, v). k \<noteq> ''pid'') (checkpoint_dict c)) = Inl (KeyError ''pid'')"
  using progress_roundtrip [of "cp_progress c" "[]"]
  unfolding checkpoint_of_dict_def required_def kwarg_filter
  by (simp add: checkpoint_fields [where u = "[]", simplified append_Nil2])

end
