(* ===== verification/EventBus.thy ===== *)
theory EventBus
  imports Prelude
begin

text \<open>
  The event bus (\<open>src/src/platform/event_bus.py\<close>): subscriptions of agents to named events, the bounded history,
  and the mailbox for messages between agents, without the optional durable stores.  A callback is a
  value of type \<open>'cb\<close>: \<open>fire\<close> gives the callbacks to run, in order, and the caller runs them
  (an exception of one of them is logged and changes nothing).  \<open>_subscribers\<close> and \<open>_mailboxes\<close> are
  \<open>defaultdict\<close>s: indexing a missing key inserts an empty list.
\<close>

record bus_event =
  be_name :: string
  be_payload :: "(string \<times> pyval) list"
  be_time :: time
  be_source :: string

record agent_message =
  am_id :: string
  am_from :: string
  am_to :: string
  am_content :: "(string \<times> pyval) list"
  am_read :: bool
  am_created :: time

record 'cb bus =
  bu_subs :: "(string, (string \<times> 'cb) list) dict"
  bu_history :: "bus_event list"
  bu_mail :: "(string, agent_message list) dict"

definition empty_bus :: "'cb bus" where
  "empty_bus = \<lparr>bu_subs = [], bu_history = [], bu_mail = []\<rparr>"

definition max_history :: nat where
  "max_history = 1000"

definition bus_event_dict :: "bus_event \<Rightarrow> (string \<times> pyval) list" where
  "bus_event_dict e = [(''name'', PStr (be_name e)), (''payload'', PDict (be_payload e)), (''timestamp'', PInt (be_time e)),
     (''source'', PStr (be_source e))]"

definition agent_message_dict :: "agent_message \<Rightarrow> (string \<times> pyval) list" where
  "agent_message_dict m = [(''message_id'', PStr (am_id m)), (''from'', PStr (am_from m)), (''to'', PStr (am_to m)),
     (''content'', PDict (am_content m)), (''read'', PBool (am_read m)), (''created_at'', PInt (am_created m))]"

subsection \<open>Subscriptions\<close>

text \<open>The first subscription of the agent gets the callback, else one is appended.\<close>

primrec put_sub :: "string \<Rightarrow> 'cb \<Rightarrow> (string \<times> 'cb) list \<Rightarrow> (string \<times> 'cb) list" where
  "put_sub a cb [] = [(a, cb)]"
| "put_sub a cb (p # ps) = (if fst p = a then (a, cb) # ps else p # put_sub a cb ps)"

definition subscribe :: "string \<Rightarrow> string \<Rightarrow> 'cb \<Rightarrow> 'cb bus \<Rightarrow> 'cb bus" where
  "subscribe ev a cb b = b\<lparr>bu_subs := dset ev (put_sub a cb (dget_default (bu_subs b) ev [])) (bu_subs b)\<rparr>"

definition without_agent :: "string \<Rightarrow> (string \<times> 'cb) list \<Rightarrow> (string \<times> 'cb) list" where
  "without_agent a ps = filter (\<lambda>(x, cb). x \<noteq> a) ps"

definition unsubscribe_one :: "string \<Rightarrow> string \<Rightarrow> nat \<times> 'cb bus \<Rightarrow> nat \<times> 'cb bus" where
  "unsubscribe_one a ev x =
     (case x of (n, b) \<Rightarrow>
        (let ps = dget_default (bu_subs b) ev [] in
           (n + (length ps - length (without_agent a ps)), b\<lparr>bu_subs := dset ev (without_agent a ps) (bu_subs b)\<rparr>)))"

definition unsubscribe :: "string \<Rightarrow> string option \<Rightarrow> 'cb bus \<Rightarrow> nat \<times> 'cb bus" where
  "unsubscribe a ev b =
     fold (unsubscribe_one a) (case ev of Some e \<Rightarrow> if e = [] then dkeys (bu_subs b) else [e] | None \<Rightarrow> dkeys (bu_subs b)) (0, b)"

subsection \<open>Firing\<close>

definition bus_record :: "bus_event \<Rightarrow> 'cb bus \<Rightarrow> 'cb bus" where
  "bus_record e b =
     (let h = bu_history b @ [e] in b\<lparr>bu_history := (if max_history < length h then drop (length h - max_history) h else h)\<rparr>)"

text \<open>The subscriptions notified, with the callbacks to run.\<close>

definition fire :: "bus_event \<Rightarrow> 'cb bus \<Rightarrow> (string \<times> 'cb) list \<times> 'cb bus" where
  "fire e b = (dget_default (bu_subs b) (be_name e) [], bus_record e b)"

definition get_subscriptions :: "string option \<Rightarrow> 'cb bus \<Rightarrow> (string, string list) dict" where
  "get_subscriptions a b =
     fold (\<lambda>(ev, ps) d. (let ids = map fst ps in
         case a of Some x \<Rightarrow> (if x = [] then (if ids \<noteq> [] then dset ev ids d else d) else if x \<in> set ids then dset ev [x] d else d)
                 | None \<Rightarrow> if ids \<noteq> [] then dset ev ids d else d)) (bu_subs b) []"

text \<open>\<open>xs[-limit:]\<close>\<close>

definition last_slice :: "int \<Rightarrow> 'a list \<Rightarrow> 'a list" where
  "last_slice limit xs = (if limit \<le> 0 then drop (nat (- limit)) xs else drop (length xs - nat limit) xs)"

definition recent_events :: "int \<Rightarrow> 'cb bus \<Rightarrow> (string \<times> pyval) list list" where
  "recent_events limit b = map bus_event_dict (last_slice limit (bu_history b))"

subsection \<open>Messages\<close>

definition send_message :: "time \<Rightarrow> string \<Rightarrow> string \<Rightarrow> string \<Rightarrow> (string \<times> pyval) list \<Rightarrow> 'cb bus \<Rightarrow> string \<times> 'cb bus" where
  "send_message now i src to content b =
     (i, b\<lparr>bu_mail := dset to (dget_default (bu_mail b) to [] @
        [\<lparr>am_id = i, am_from = src, am_to = to, am_content = content, am_read = False, am_created = now\<rparr>]) (bu_mail b)\<rparr>)"

definition get_messages :: "string \<Rightarrow> bool \<Rightarrow> 'cb bus \<Rightarrow> (string \<times> pyval) list list" where
  "get_messages a unread b =
     (let ms = dget_default (bu_mail b) a [] in map agent_message_dict (if unread then filter (\<lambda>m. \<not> am_read m) ms else ms))"

text \<open>The first message with the id, in the order of the mailboxes; \<open>None\<close> when this mailbox has none.\<close>

primrec mark_in :: "string \<Rightarrow> agent_message list \<Rightarrow> agent_message list option" where
  "mark_in i [] = None"
| "mark_in i (m # ms) = (if am_id m = i then Some (m\<lparr>am_read := True\<rparr> # ms) else map_option ((#) m) (mark_in i ms))"

primrec mark_boxes :: "string \<Rightarrow> (string, agent_message list) dict \<Rightarrow> (string, agent_message list) dict" where
  "mark_boxes i [] = []"
| "mark_boxes i (p # ps) = (case mark_in i (snd p) of Some ms \<Rightarrow> (fst p, ms) # ps | None \<Rightarrow> p # mark_boxes i ps)"

definition mark_read :: "string \<Rightarrow> 'cb bus \<Rightarrow> 'cb bus" where
  "mark_read i b = b\<lparr>bu_mail := mark_boxes i (bu_mail b)\<rparr>"

subsection \<open>What subscriptions mean\<close>

text \<open>The callback that an agent has for an event.\<close>

definition callback_of :: "'cb bus \<Rightarrow> string \<Rightarrow> string \<Rightarrow> 'cb option" where
  "callback_of b ev a = map_of (dget_default (bu_subs b) ev []) a"

definition subs_ok :: "'cb bus \<Rightarrow> bool" where
  "subs_ok b \<longleftrightarrow> dict_ok (bu_subs b) \<and> (\<forall>ev. distinct (map fst (dget_default (bu_subs b) ev [])))"

lemma put_sub_get [simp]: "map_of (put_sub a cb ps) x = (if x = a then Some cb else map_of ps x)"
  by (induction ps) auto

lemma put_sub_keys: "set (map fst (put_sub a cb ps)) = insert a (set (map fst ps))"
  by (induction ps) auto

lemma put_sub_distinct: "distinct (map fst ps) \<Longrightarrow> distinct (map fst (put_sub a cb ps))"
  using put_sub_keys [of a cb] by (induction ps) auto

lemma without_agent_get [simp]: "map_of (without_agent a ps) x = (if x = a then None else map_of ps x)"
  by (induction ps) (auto simp: without_agent_def)

lemma without_agent_distinct: "distinct (map fst ps) \<Longrightarrow> distinct (map fst (without_agent a ps))"
  by (induction ps) (auto simp: without_agent_def)

lemma without_agent_absent: "map_of ps a = None \<Longrightarrow> without_agent a ps = ps"
  by (induction ps) (auto simp: without_agent_def split: if_splits)

lemma without_agent_count:
  "distinct (map fst ps) \<Longrightarrow> length ps - length (without_agent a ps) = (if map_of ps a = None then 0 else 1)"
proof (induction ps)
  case (Cons p ps)
  show ?case
  proof (cases "fst p = a")
    case True
    with Cons.prems have "map_of ps a = None" by (force simp: map_of_eq_None_iff)
    then have "without_agent a ps = ps" by (rule without_agent_absent)
    with True show ?thesis by (cases p) (simp add: without_agent_def)
  next
    case False
    have "length (without_agent a ps) \<le> length ps" by (simp add: without_agent_def)
    with False Cons show ?thesis by (cases p) (auto simp: without_agent_def)
  qed
qed (simp add: without_agent_def)

lemma subs_ok_empty [intro]: "subs_ok empty_bus"
  by (simp add: subs_ok_def empty_bus_def dget_default_def)

lemma callback_empty [simp]: "callback_of empty_bus ev a = None"
  by (simp add: callback_of_def empty_bus_def dget_default_def)

lemma subscribe_ok: "subs_ok b \<Longrightarrow> subs_ok (subscribe ev a cb b)"
  by (auto simp: subs_ok_def subscribe_def put_sub_distinct)

lemma callback_subscribe [simp]:
  "callback_of (subscribe ev a cb b) ev' a' = (if ev' = ev \<and> a' = a then Some cb else callback_of b ev' a')"
  by (auto simp: callback_of_def subscribe_def)

lemma unsubscribe_one_ok: "subs_ok (snd x) \<Longrightarrow> subs_ok (snd (unsubscribe_one a ev x))"
  by (auto simp: subs_ok_def unsubscribe_one_def Let_def without_agent_distinct split: prod.split)

lemma callback_unsubscribe_one [simp]:
  "callback_of (snd (unsubscribe_one a ev x)) ev' a' = (if ev' = ev \<and> a' = a then None else callback_of (snd x) ev' a')"
  by (auto simp: callback_of_def unsubscribe_one_def Let_def split: prod.split)

lemma unsubscribe_one_rest [simp]:
  "bu_history (snd (unsubscribe_one a ev x)) = bu_history (snd x)" "bu_mail (snd (unsubscribe_one a ev x)) = bu_mail (snd x)"
  by (simp_all add: unsubscribe_one_def Let_def split: prod.split)

lemma unsubscribe_fold:
  "subs_ok (snd x) \<Longrightarrow> subs_ok (snd (fold (unsubscribe_one a) evs x))"
  "callback_of (snd (fold (unsubscribe_one a) evs x)) ev a' = (if ev \<in> set evs \<and> a' = a then None else callback_of (snd x) ev a')"
  "bu_history (snd (fold (unsubscribe_one a) evs x)) = bu_history (snd x)"
  "bu_mail (snd (fold (unsubscribe_one a) evs x)) = bu_mail (snd x)"
  by (induction evs arbitrary: x) (auto simp: unsubscribe_one_ok)

lemma unsubscribe_all:
  "callback_of (snd (unsubscribe a None b)) ev a' = (if a' = a then None else callback_of b ev a')"
proof -
  have "callback_of b ev a' = None" if "ev \<notin> set (dkeys (bu_subs b))"
  proof -
    from that have "map_of (bu_subs b) ev = None" by (simp add: map_of_eq_None_iff)
    then show ?thesis by (simp add: callback_of_def dget_default_def)
  qed
  then show ?thesis by (auto simp: unsubscribe_def unsubscribe_fold)
qed

lemma unsubscribe_ok: "subs_ok b \<Longrightarrow> subs_ok (snd (unsubscribe a ev b))"
  unfolding unsubscribe_def by (rule unsubscribe_fold) simp

lemma unsubscribe_event:
  "ev \<noteq> [] \<Longrightarrow> callback_of (snd (unsubscribe a (Some ev) b)) ev' a' =
     (if ev' = ev \<and> a' = a then None else callback_of b ev' a')"
  by (simp add: unsubscribe_def)

lemma bus_record_rest [simp]: "bu_subs (bus_record e b) = bu_subs b" "bu_mail (bus_record e b) = bu_mail b"
  by (simp_all add: bus_record_def Let_def)

lemma callback_record [simp]: "callback_of (bus_record e b) = callback_of b"
  by (simp add: callback_of_def fun_eq_iff)

lemma fire_notifies:
  assumes "subs_ok b"
  shows "distinct (map fst (fst (fire e b)))"
    and "(a, cb) \<in> set (fst (fire e b)) \<longleftrightarrow> callback_of b (be_name e) a = Some cb"
  using assms by (simp_all add: fire_def subs_ok_def callback_of_def)

subsection \<open>Histories of the bus\<close>

datatype 'cb bus_op =
    Subscribe string string 'cb
  | Unsubscribe string "string option"
  | Fire bus_event
  | Send time string string string "(string \<times> pyval) list"
  | MarkRead string

fun bus_step :: "'cb bus_op \<Rightarrow> 'cb bus \<Rightarrow> 'cb bus" where
  "bus_step (Subscribe ev a cb) b = subscribe ev a cb b"
| "bus_step (Unsubscribe a ev) b = snd (unsubscribe a ev b)"
| "bus_step (Fire e) b = snd (fire e b)"
| "bus_step (Send now i src to c) b = snd (send_message now i src to c b)"
| "bus_step (MarkRead i) b = mark_read i b"

definition bus_run :: "'cb bus_op list \<Rightarrow> 'cb bus" where
  "bus_run ops = fold bus_step ops empty_bus"

text \<open>
  The abstract bus: a relation between events and agents, the list of the events fired, and the list of
  the messages sent, each with its read flag.
\<close>

fun binding :: "(string \<Rightarrow> string \<Rightarrow> 'cb option) \<Rightarrow> 'cb bus_op \<Rightarrow> string \<Rightarrow> string \<Rightarrow> 'cb option" where
  "binding r (Subscribe ev a cb) = r(ev := (r ev)(a := Some cb))"
| "binding r (Unsubscribe a ev) = (\<lambda>e. if ev = None \<or> ev = Some [] \<or> ev = Some e then (r e)(a := None) else r e)"
| "binding r _ = r"

fun fired :: "'cb bus_op \<Rightarrow> bus_event list" where
  "fired (Fire e) = [e]"
| "fired _ = []"

fun mail_spec :: "agent_message list \<Rightarrow> 'cb bus_op \<Rightarrow> agent_message list" where
  "mail_spec ms (Send now i src to c) =
     ms @ [\<lparr>am_id = i, am_from = src, am_to = to, am_content = c, am_read = False, am_created = now\<rparr>]"
| "mail_spec ms (MarkRead i) = map (\<lambda>m. if am_id m = i then m\<lparr>am_read := True\<rparr> else m) ms"
| "mail_spec ms _ = ms"

fun sent_ids :: "'cb bus_op \<Rightarrow> string list" where
  "sent_ids (Send now i src to c) = [i]"
| "sent_ids _ = []"

lemma send_rest [simp]: "bu_subs (snd (send_message now i src to c b)) = bu_subs b"
  "bu_history (snd (send_message now i src to c b)) = bu_history b"
  by (simp_all add: send_message_def)

lemma mark_rest [simp]: "bu_subs (mark_read i b) = bu_subs b" "bu_history (mark_read i b) = bu_history b"
  by (simp_all add: mark_read_def)

lemma subs_cong: "bu_subs b' = bu_subs b \<Longrightarrow> subs_ok b' = subs_ok b" "bu_subs b' = bu_subs b \<Longrightarrow> callback_of b' = callback_of b"
  by (simp_all add: subs_ok_def callback_of_def fun_eq_iff)

lemma bus_step_subs:
  assumes "subs_ok b"
  shows "subs_ok (bus_step o1 b)" and "callback_of (bus_step o1 b) = binding (callback_of b) o1"
proof -
  show "subs_ok (bus_step o1 b)"
    using assms subscribe_ok unsubscribe_ok subs_cong(1) [of "bus_step o1 b" b]
    by (cases o1) (auto simp: fire_def subscribe_ok unsubscribe_ok)
  show "callback_of (bus_step o1 b) = binding (callback_of b) o1"
  proof (cases o1)
    case (Unsubscribe a ev)
    show ?thesis
    proof (cases "ev = None \<or> ev = Some []")
      case True
      then have "unsubscribe a ev b = unsubscribe a None b" by (auto simp: unsubscribe_def)
      with True Unsubscribe show ?thesis by (auto simp: fun_eq_iff unsubscribe_all)
    next
      case False
      then show ?thesis using Unsubscribe by (auto simp: fun_eq_iff unsubscribe_event)
    qed
  qed (auto simp: fun_eq_iff fire_def subs_cong(2) [of "snd (send_message _ _ _ _ _ b)" b] subs_cong(2) [of "mark_read _ b" b])
qed

lemma bus_run_subs:
  "subs_ok b \<Longrightarrow> subs_ok (fold bus_step ops b) \<and> callback_of (fold bus_step ops b) = foldl binding (callback_of b) ops"
  by (induction ops arbitrary: b) (simp_all add: bus_step_subs)

definition newest_events :: "bus_event list \<Rightarrow> bus_event list" where
  "newest_events es = drop (length es - max_history) es"

lemma newest_snoc: "newest_events (newest_events es @ [e]) = newest_events (es @ [e])"
  by (simp add: newest_events_def max_history_def) (rule arg_cong [of _ _ "\<lambda>k. drop k es"], arith)

lemma record_history: "bu_history (bus_record e b) = newest_events (bu_history b @ [e])"
  by (simp add: bus_record_def newest_events_def Let_def)

lemma unsubscribe_history [simp]: "bu_history (snd (unsubscribe a ev b)) = bu_history b" "bu_mail (snd (unsubscribe a ev b)) = bu_mail b"
  by (simp_all add: unsubscribe_def unsubscribe_fold)

lemma bus_step_history:
  "bu_history b = newest_events es \<Longrightarrow> bu_history (bus_step o1 b) = newest_events (es @ fired o1)"
  by (cases o1) (simp_all add: subscribe_def fire_def record_history newest_snoc)

lemma bus_run_history:
  "bu_history b = newest_events es \<Longrightarrow> bu_history (fold bus_step ops b) = newest_events (es @ concat (map fired ops))"
  by (induction ops arbitrary: b es) (simp, use bus_step_history in fastforce)

text \<open>
  The bus refines the relation: after any history, firing an event notifies every agent whose last
  subscription to it was not undone since, each once, with the callback it gave last, and nobody else;
  and the recent events are the newest thousand of those fired, in order.
\<close>

theorem fired_events_reach_the_subscribers:
  "let b = bus_run ops; r = foldl binding (\<lambda>_ _. None) ops; (notified, b') = fire e b in
     distinct (map fst notified) \<and>
     (\<forall>a cb. (a, cb) \<in> set notified \<longleftrightarrow> r (be_name e) a = Some cb) \<and>
     recent_events (int max_history) b' = map bus_event_dict (newest_events (concat (map fired ops) @ [e])) \<and>
     callback_of b' = r"
proof -
  have start: "callback_of (empty_bus :: 'a bus) = (\<lambda>_ _. None)" by (simp add: fun_eq_iff)
  have run: "subs_ok (bus_run ops)" "callback_of (bus_run ops) = foldl binding (\<lambda>_ _. None) ops"
    using bus_run_subs [OF subs_ok_empty, of ops] by (simp_all add: bus_run_def start)
  have hist: "bu_history (bus_run ops) = newest_events (concat (map fired ops))"
    using bus_run_history [of empty_bus "[]" ops] by (simp add: bus_run_def empty_bus_def newest_events_def)
  have "bu_history (snd (fire e (bus_run ops))) = newest_events (concat (map fired ops) @ [e])"
    by (simp add: fire_def record_history hist newest_snoc)
  moreover have "last_slice (int max_history) (newest_events es) = newest_events es" for es
    by (simp add: last_slice_def newest_events_def max_history_def)
  ultimately show ?thesis
    using fire_notifies [OF run(1), where e = e] run(2) by (simp add: Let_def split_beta recent_events_def fire_def)
qed

subsection \<open>Messages\<close>

definition mail_of :: "'cb bus \<Rightarrow> string \<Rightarrow> agent_message list" where
  "mail_of b a = dget_default (bu_mail b) a []"

definition mail_ok :: "agent_message list \<Rightarrow> 'cb bus \<Rightarrow> bool" where
  "mail_ok ms b \<longleftrightarrow> dict_ok (bu_mail b) \<and> (\<forall>a. mail_of b a = filter (\<lambda>m. am_to m = a) ms)"

lemma mail_send: "mail_ok ms b \<Longrightarrow> mail_ok (mail_spec ms (Send now i src to c)) (snd (send_message now i src to c b))"
  by (auto simp: mail_ok_def mail_of_def send_message_def)

lemma mark_in_map: "distinct (map am_id ms) \<Longrightarrow>
    mark_in i ms = (if i \<in> am_id ` set ms then Some (map (\<lambda>m. if am_id m = i then m\<lparr>am_read := True\<rparr> else m) ms) else None)"
proof (induction ms)
  case (Cons m ms)
  have "map (\<lambda>x. if am_id x = i then x\<lparr>am_read := True\<rparr> else x) ms = ms" if "i \<notin> am_id ` set ms"
    using that by (intro map_idI) auto
  with Cons show ?case by auto
qed simp

lemma mark_boxes_get:
  assumes "dict_ok d" and "distinct (map am_id ms)" and "\<And>a. dget_default d a [] = filter (\<lambda>m. am_to m = a) ms"
  shows "dkeys (mark_boxes i d) = dkeys d" and
    "dget_default (mark_boxes i d) a [] = map (\<lambda>m. if am_id m = i then m\<lparr>am_read := True\<rparr> else m) (dget_default d a [])"
proof -
  have ident: "map (\<lambda>x. if am_id x = i then x\<lparr>am_read := True\<rparr> else x) xs = xs" if "i \<notin> am_id ` set xs" for xs
    using that by (intro map_idI) auto
  have inj: "x = y" if "x \<in> set ms" "y \<in> set ms" "am_id x = am_id y" for x y
    using assms(2) that by (auto simp: distinct_map dest: inj_onD)
  have "dkeys (mark_boxes i d) = dkeys d \<and>
    dget_default (mark_boxes i d) a [] = map (\<lambda>m. if am_id m = i then m\<lparr>am_read := True\<rparr> else m) (dget_default d a [])"
    if "dict_ok d" and "\<And>k xs. map_of d k = Some xs \<Longrightarrow> xs = filter (\<lambda>m. am_to m = k) ms" for d
    using that
  proof (induction d)
    case (Cons p d)
    obtain k0 xs0 where p0 [simp]: "p = (k0, xs0)" by (cases p)
    have p: "snd p = filter (\<lambda>m. am_to m = fst p) ms" using Cons.prems(2) [of "fst p" "snd p"] by simp
    then have dp: "distinct (map am_id (snd p))" using assms(2) by (simp add: distinct_map_filter)
    have tl: "xs = filter (\<lambda>m. am_to m = k) ms" if "map_of d k = Some xs" for k xs
    proof -
      from that Cons.prems(1) have "k \<noteq> fst p" by (auto simp: dict_ok_def dest!: map_of_SomeD intro: rev_image_eqI)
      with that Cons.prems(2) [of k xs] show ?thesis by simp
    qed
    have ok: "dict_ok d" using Cons.prems(1) by (simp add: dict_ok_def)
    show ?case
    proof (cases "i \<in> am_id ` set (snd p)")
      case True
      have other: "i \<notin> am_id ` set xs" if "map_of d k = Some xs" for k xs
      proof
        assume "i \<in> am_id ` set xs"
        then obtain y where y: "y \<in> set xs" "am_id y = i" by auto
        from True obtain x where x: "x \<in> set (snd p)" "am_id x = i" by auto
        from that tl have "xs = filter (\<lambda>m. am_to m = k) ms" by blast
        with y p x inj [of x y] have "k = fst p" by auto
        with that Cons.prems(1) show False by (auto simp: dict_ok_def dest!: map_of_SomeD intro: rev_image_eqI)
      qed
      then have "map (\<lambda>m. if am_id m = i then m\<lparr>am_read := True\<rparr> else m) (dget_default d a []) = dget_default d a []"
        by (auto simp: dget_default_def ident split: option.split)
      with True show ?thesis using mark_in_map [OF dp] by (auto simp: dget_default_def)
    next
      case False
      then show ?thesis using Cons.IH [OF ok tl] mark_in_map [OF dp] by (auto simp: dget_default_def ident)
    qed
  qed (simp add: dget_default_def)
  moreover have "xs = filter (\<lambda>m. am_to m = k) ms" if "map_of d k = Some xs" for k xs
    using assms(3) [of k] that by (simp add: dget_default_def)
  ultimately show "dkeys (mark_boxes i d) = dkeys d" and
    "dget_default (mark_boxes i d) a [] = map (\<lambda>m. if am_id m = i then m\<lparr>am_read := True\<rparr> else m) (dget_default d a [])"
    using assms(1) by blast+
qed

lemma mail_mark:
  assumes "mail_ok ms b" and "distinct (map am_id ms)"
  shows "mail_ok (mail_spec ms (MarkRead i)) (mark_read i b)"
proof -
  have to: "filter (\<lambda>m. am_to m = a) (map (\<lambda>m. if am_id m = i then m\<lparr>am_read := True\<rparr> else m) xs) =
      map (\<lambda>m. if am_id m = i then m\<lparr>am_read := True\<rparr> else m) (filter (\<lambda>m. am_to m = a) xs)" for a xs
    by (induction xs) auto
  have b: "dict_ok (bu_mail b)" "\<And>a. dget_default (bu_mail b) a [] = filter (\<lambda>m. am_to m = a) ms"
    using assms(1) by (simp_all add: mail_ok_def mail_of_def)
  show ?thesis
    using mark_boxes_get [OF b(1) assms(2) b(2), of i] b by (simp add: mail_ok_def mail_of_def mark_read_def dict_ok_def to)
qed

lemma mail_other: "mail_ok ms b \<Longrightarrow> bu_mail b' = bu_mail b \<Longrightarrow> mail_ok ms b'"
  by (simp add: mail_ok_def mail_of_def)

lemma bus_step_mail:
  assumes "mail_ok ms b" and "distinct (map am_id ms)"
  shows "mail_ok (mail_spec ms o1) (bus_step o1 b)"
proof (cases o1)
  case (Send now i src to c)
  then show ?thesis using mail_send [OF assms(1)] by (simp only: bus_step.simps)
next
  case (MarkRead i)
  then show ?thesis using mail_mark [OF assms] by (simp only: bus_step.simps)
qed (auto simp: subscribe_def fire_def intro!: mail_other [OF assms(1)])

lemma mail_spec_ids: "map am_id (mail_spec ms o1) = map am_id ms @ sent_ids o1"
  by (cases o1) simp_all

lemma bus_run_mail:
  "mail_ok ms b \<Longrightarrow> distinct (map am_id ms @ concat (map sent_ids ops)) \<Longrightarrow>
     mail_ok (foldl mail_spec ms ops) (fold bus_step ops b)"
proof (induction ops arbitrary: ms b)
  case (Cons o1 ops)
  from Cons.prems have "distinct (map am_id ms)" by simp
  with Cons.prems(1) have "mail_ok (mail_spec ms o1) (bus_step o1 b)" by (rule bus_step_mail)
  moreover have "distinct (map am_id (mail_spec ms o1) @ concat (map sent_ids ops))"
    using Cons.prems(2) unfolding mail_spec_ids by (simp only: list.map concat.simps append_assoc)
  ultimately show ?case using Cons.IH by simp
qed simp

text \<open>
  Messages between agents: after any history in which no message id is used twice, an agent receives
  exactly the messages sent to it, in the order they were sent, and among its unread ones exactly those
  that nobody marked as read since.
\<close>

theorem messages_are_delivered_in_order:
  assumes "distinct (concat (map sent_ids ops))"
  shows "get_messages a unread (bus_run ops) =
     map agent_message_dict (filter (\<lambda>m. am_to m = a \<and> (unread \<longrightarrow> \<not> am_read m)) (foldl mail_spec [] ops))"
proof -
  have "mail_ok [] (empty_bus :: 'a bus)" by (simp add: mail_ok_def mail_of_def empty_bus_def dget_default_def)
  from bus_run_mail [OF this, of ops] assms
  have "mail_of (bus_run ops) a = filter (\<lambda>m. am_to m = a) (foldl mail_spec [] ops)"
    by (simp add: mail_ok_def bus_run_def)
  then show ?thesis by (simp add: get_messages_def mail_of_def Let_def conj_commute)
qed

lemma messages_are_delivered_in_order_witness:
  "map (\<lambda>d. map_of d ''message_id'')
     (get_messages ''bob'' True (bus_run [Send 1 ''m1'' ''ann'' ''bob'' [], Send 2 ''m2'' ''eve'' ''ann'' [],
        Send 3 ''m3'' ''eve'' ''bob'' [], MarkRead ''m1'', Subscribe ''e'' ''bob'' ()])) = [Some (PStr ''m3'')]"
  by (subst messages_are_delivered_in_order) (simp_all add: agent_message_dict_def)

subsection \<open>The durable log of events\<close>

text \<open>
  \<open>src/src/platform/durable_event_store.py\<close>: the log is a list, the sequence number of an event its position
  from 1.  \<open>LIMIT\<close> with a negative number is no limit.
\<close>

type_synonym event_log = "bus_event list"

definition log_append :: "bus_event \<Rightarrow> event_log \<Rightarrow> nat \<times> event_log" where
  "log_append e l = (length l + 1, l @ [e])"

definition sqlite_recent :: "int \<Rightarrow> event_log \<Rightarrow> bus_event list" where
  "sqlite_recent limit l = (if limit < 0 then l else drop (length l - nat limit) l)"

definition sqlite_since :: "int \<Rightarrow> int option \<Rightarrow> event_log \<Rightarrow> bus_event list" where
  "sqlite_since seq limit l =
     (let xs = drop (nat seq) l in case limit of None \<Rightarrow> xs | Some n \<Rightarrow> if n < 0 then xs else take (nat n) xs)"

definition memory_recent :: "int \<Rightarrow> event_log \<Rightarrow> bus_event list" where
  "memory_recent limit l = last_slice limit l"

text \<open>\<open>xs[i:]\<close> and \<open>xs[:n]\<close>; a negative index counts from the end.\<close>

definition slice_from :: "int \<Rightarrow> 'a list \<Rightarrow> 'a list" where
  "slice_from i xs = (if i < 0 then drop (length xs - nat (- i)) xs else drop (nat i) xs)"

definition slice_to :: "int \<Rightarrow> 'a list \<Rightarrow> 'a list" where
  "slice_to n xs = (if n < 0 then take (length xs - nat (- n)) xs else take (nat n) xs)"

definition memory_since :: "int \<Rightarrow> int option \<Rightarrow> event_log \<Rightarrow> bus_event list" where
  "memory_since seq limit l = (let xs = slice_from seq l in case limit of None \<Rightarrow> xs | Some n \<Rightarrow> slice_to n xs)"

text \<open>The bus with the log wired: \<open>_record\<close> appends to both, \<open>recent_events\<close> reads the log.\<close>

definition record_both :: "bus_event \<Rightarrow> 'cb bus \<times> event_log \<Rightarrow> 'cb bus \<times> event_log" where
  "record_both e s = (bus_record e (fst s), snd (log_append e (snd s)))"

definition replay_into :: "int \<Rightarrow> 'cb bus \<times> event_log \<Rightarrow> nat \<times> ('cb bus \<times> event_log)" where
  "replay_into seq s = (let es = sqlite_since seq None (snd s) in (length es, fold record_both es s))"

lemma fold_record_both:
  "snd (fold record_both es s) = snd s @ es"
  "bu_history (fst s) = newest_events hs \<Longrightarrow> bu_history (fst (fold record_both es s)) = newest_events (hs @ es)"
  by (induction es arbitrary: s hs) (auto simp: record_both_def log_append_def record_history newest_snoc)

text \<open>
  Replaying the durable log into the bus it is wired to, which its documentation recommends at boot, fills
  the history with the newest logged events but records each of them in the log again: after \<open>n\<close> boots
  the log holds every event \<open>2 ^ n\<close> times.
\<close>

theorem replay_doubles_the_log:
  "let boot = (\<lambda>l. snd (snd (replay_into 0 (empty_bus :: 'cb bus, l)))) in
     bu_history (fst (snd (replay_into 0 (empty_bus :: 'cb bus, l)))) = newest_events l \<and>
     boot l = l @ l \<and> count_list ((boot ^^ n) l) e = 2 ^ n * count_list l e"
proof -
  define boot where "boot = (\<lambda>l. snd (snd (replay_into 0 (empty_bus :: 'cb bus, l))))"
  have boot: "boot l = l @ l" for l
    by (simp add: boot_def replay_into_def sqlite_since_def fold_record_both Let_def)
  have "count_list ((boot ^^ n) l) e = 2 ^ n * count_list l e"
    by (induction n) (simp_all add: boot)
  moreover have "bu_history (fst (snd (replay_into 0 (empty_bus :: 'cb bus, l)))) = newest_events l"
    using fold_record_both(2) [of "(empty_bus :: 'cb bus, l)" "[]" l]
    by (simp add: replay_into_def sqlite_since_def Let_def empty_bus_def newest_events_def)
  ultimately show ?thesis using boot by (simp add: Let_def boot_def)
qed

text \<open>The two stores answer alike, but for a limit of zero: SQLite gives nothing, the list everything.\<close>

lemma event_stores_agree:
  "0 < limit \<Longrightarrow> memory_recent limit l = sqlite_recent limit l"
  "0 \<le> seq \<Longrightarrow> (\<And>n. bound = Some n \<Longrightarrow> 0 \<le> n) \<Longrightarrow> memory_since seq bound l = sqlite_since seq bound l"
  "memory_recent 0 l = l" "sqlite_recent 0 l = []"
  by (auto simp: memory_recent_def sqlite_recent_def last_slice_def memory_since_def sqlite_since_def slice_from_def slice_to_def
      Let_def split: option.split)

end
