(* ===== verification/Scheduler.thy ===== *)
theory Scheduler
  imports Decode
begin

text \<open>
  The scheduler (\<open>src/src/platform/scheduler.py\<close>) with its interval backend, the one used when the optional
  package APScheduler is not installed and there is no job store: the parser of cron expressions, the
  table of jobs, and one turn of a job's timer task.  An active job is one whose task exists; the task
  ends only when it is cancelled.
\<close>

subsection \<open>Cron expressions\<close>

text \<open>\<open>s.split()\<close>\<close>

function split_ws :: "string \<Rightarrow> string list" where
  "split_ws s = (let t = dropWhile is_space s in
     if t = [] then [] else takeWhile (\<lambda>c. \<not> is_space c) t # split_ws (dropWhile (\<lambda>c. \<not> is_space c) t))"
  by auto
termination
proof (relation "measure length", simp)
  fix s t assume t: "t = dropWhile is_space s" "t \<noteq> []"
  then have "\<not> is_space (hd t)" using hd_dropWhile by metis
  with t(2) have "length (dropWhile (\<lambda>c. \<not> is_space c) t) < length t"
    by (cases t) (simp_all add: le_imp_less_Suc length_dropWhile_le)
  also have "length t \<le> length s" using t(1) by (simp add: length_dropWhile_le)
  finally show "(dropWhile (\<lambda>c. \<not> is_space c) t, s) \<in> measure length" by simp
qed

declare split_ws.simps [simp del]

text \<open>\<open>s.replace("*/", "")\<close>\<close>

fun drop_star_slash :: "string \<Rightarrow> string" where
  "drop_star_slash (a # b # s) = (if a = CHR ''*'' \<and> b = CHR ''/'' then drop_star_slash s else a # drop_star_slash (b # s))"
| "drop_star_slash s = s"

definition every_interval :: "string \<Rightarrow> int" where
  "every_interval w =
     (case int_of_str (rstrip (\<lambda>c. c \<in> {CHR ''s'', CHR ''m'', CHR ''h''}) w) of
        None \<Rightarrow> 3600
      | Some n \<Rightarrow> if ends_with ''s'' w then n else if ends_with ''m'' w then n * 60
                  else if ends_with ''h'' w then n * 3600 else n * 60)"

text \<open>The interval of a field \<open>*/N\<close>; \<open>None\<close> when it is no such field or \<open>N\<close> no number.\<close>

definition step_field :: "string \<Rightarrow> int option" where
  "step_field w = (if starts_with ''*/'' w then int_of_str (drop 2 w) else None)"

definition cron_interval :: "string \<Rightarrow> int" where
  "cron_interval expr =
     (let fields = split_ws expr;
          bare = (if starts_with ''*/'' expr
                  then (case int_of_str (drop_star_slash (hd fields)) of None \<Rightarrow> 3600 | Some n \<Rightarrow> n * 60) else 3600)
      in if length fields < 5 then bare
         else (let minute = fields ! 0; hour = fields ! 1; dow = fields ! 4
               in case step_field minute of Some n \<Rightarrow> n * 60
                | None \<Rightarrow>
                  (case step_field hour of Some n \<Rightarrow> n * 3600
                   | None \<Rightarrow> if dow \<notin> {''*'', ''?''} then 604800
                             else if hour \<noteq> ''*'' \<and> minute \<noteq> ''*'' then 86400 else bare)))"

definition parse_cron_interval_seconds :: "string \<Rightarrow> int" where
  "parse_cron_interval_seconds cron =
     (let expr = lower (strip cron)
      in if starts_with ''every '' expr \<and> 2 \<le> length (split_ws expr) then every_interval (split_ws expr ! 1)
         else cron_interval expr)"

text \<open>
  The trigger handed to APScheduler, when it is installed; whether it accepts a five-field expression is the
  parameter \<open>crontab_ok\<close>.
\<close>

datatype ap_trigger = IntervalTrigger int | CronTrigger string

definition every_trigger :: "string \<Rightarrow> ap_trigger option" where
  "every_trigger w =
     map_option (\<lambda>n. IntervalTrigger (if ends_with ''s'' w then n else if ends_with ''h'' w then n * 3600 else n * 60))
       (int_of_str (rstrip (\<lambda>c. c \<in> {CHR ''s'', CHR ''m'', CHR ''h''}) w))"

definition build_apscheduler_trigger :: "(string \<Rightarrow> bool) \<Rightarrow> string \<Rightarrow> ap_trigger" where
  "build_apscheduler_trigger crontab_ok cron =
     (let expr = lower (strip cron); fields = split_ws expr;
          every = (if starts_with ''every '' expr \<and> 2 \<le> length fields then every_trigger (fields ! 1) else None)
      in case every of Some t \<Rightarrow> t
         | None \<Rightarrow> if length fields = 5 \<and> crontab_ok expr then CronTrigger expr
                   else IntervalTrigger (parse_cron_interval_seconds cron))"

subsection \<open>The jobs\<close>

record 'cb timed_job =
  jb_agent :: string
  jb_cron :: string
  jb_callback :: 'cb
  jb_interval :: int
  jb_last :: "time option"
  jb_active :: bool

record 'cb scheduler =
  sd_jobs :: "(string, 'cb timed_job) dict"
  sd_running :: bool

definition empty_scheduler :: "'cb scheduler" where
  "empty_scheduler = \<lparr>sd_jobs = [], sd_running = False\<rparr>"

definition scheduled_job :: "string \<Rightarrow> string \<Rightarrow> 'cb \<Rightarrow> 'cb timed_job" where
  "scheduled_job a cron cb = \<lparr>jb_agent = a, jb_cron = cron, jb_callback = cb,
     jb_interval = parse_cron_interval_seconds cron, jb_last = None, jb_active = False\<rparr>"

text \<open>Removing a job cancels its task.\<close>

definition remove_job :: "string \<Rightarrow> 'cb scheduler \<Rightarrow> bool \<times> 'cb scheduler" where
  "remove_job a s = (map_of (sd_jobs s) a \<noteq> None, s\<lparr>sd_jobs := dpop a (sd_jobs s)\<rparr>)"

definition start_job :: "'cb timed_job \<Rightarrow> 'cb timed_job" where
  "start_job j = j\<lparr>jb_active := True\<rparr>"

definition add_job :: "string \<Rightarrow> string \<Rightarrow> 'cb \<Rightarrow> 'cb scheduler \<Rightarrow> 'cb scheduler" where
  "add_job a cron cb s =
     (let s1 = (if map_of (sd_jobs s) a \<noteq> None then snd (remove_job a s) else s);
          j = scheduled_job a cron cb
      in s1\<lparr>sd_jobs := dset a (if sd_running s1 then start_job j else j) (sd_jobs s1)\<rparr>)"

definition start_all :: "'cb scheduler \<Rightarrow> 'cb scheduler" where
  "start_all s = \<lparr>sd_jobs = dmap (\<lambda>j. if jb_active j then j else start_job j) (sd_jobs s), sd_running = True\<rparr>"

definition stop_all :: "'cb scheduler \<Rightarrow> 'cb scheduler" where
  "stop_all s = \<lparr>sd_jobs = dmap (\<lambda>j. j\<lparr>jb_active := False\<rparr>) (sd_jobs s), sd_running = False\<rparr>"

definition seconds :: "int \<Rightarrow> time" where
  "seconds n = n * 1000000"

definition next_run :: "time \<Rightarrow> 'cb timed_job \<Rightarrow> time" where
  "next_run now j = (case jb_last j of None \<Rightarrow> now | Some t \<Rightarrow> t) + seconds (jb_interval j)"

definition sched_list_jobs :: "time \<Rightarrow> 'cb scheduler \<Rightarrow> (string \<times> pyval) list list" where
  "sched_list_jobs now s = map (\<lambda>j. [(''agent_id'', PStr (jb_agent j)), (''cron_expr'', PStr (jb_cron j)),
       (''interval_seconds'', PInt (jb_interval j)), (''last_run'', opt_int_val (jb_last j)),
       (''next_run_at'', PInt (next_run now j)), (''active'', PBool (jb_active j))]) (dvals (sd_jobs s))"

definition next_run_for :: "time \<Rightarrow> string \<Rightarrow> 'cb scheduler \<Rightarrow> time option" where
  "next_run_for now a s = map_option (next_run now) (map_of (sd_jobs s) a)"

text \<open>The timer task of an active job wakes up: it stamps the job and runs the callback.\<close>

definition job_fires :: "time \<Rightarrow> string \<Rightarrow> 'cb scheduler \<Rightarrow> 'cb option \<times> 'cb scheduler" where
  "job_fires now a s =
     (case map_of (sd_jobs s) a of
        None \<Rightarrow> (None, s)
      | Some j \<Rightarrow> if jb_active j then (Some (jb_callback j), s\<lparr>sd_jobs := dset a (j\<lparr>jb_last := Some now\<rparr>) (sd_jobs s)\<rparr>)
                  else (None, s))"

subsection \<open>Histories of the scheduler\<close>

datatype 'cb sched_op = AddJob string string 'cb | RemoveJob string | StartAll | StopAll | Tick time string

fun sched_step :: "'cb sched_op \<Rightarrow> 'cb scheduler \<Rightarrow> 'cb scheduler" where
  "sched_step (AddJob a cron cb) s = add_job a cron cb s"
| "sched_step (RemoveJob a) s = snd (remove_job a s)"
| "sched_step StartAll s = start_all s"
| "sched_step StopAll s = stop_all s"
| "sched_step (Tick now a) s = snd (job_fires now a s)"

text \<open>What the operations ask for: the expression and callback of every agent, and whether the scheduler runs.\<close>

fun wanted :: "(string \<Rightarrow> (string \<times> 'cb) option) \<Rightarrow> 'cb sched_op \<Rightarrow> string \<Rightarrow> (string \<times> 'cb) option" where
  "wanted w (AddJob a cron cb) = w(a := Some (cron, cb))"
| "wanted w (RemoveJob a) = w(a := None)"
| "wanted w _ = w"

fun switched :: "bool \<Rightarrow> 'cb sched_op \<Rightarrow> bool" where
  "switched r StartAll = True"
| "switched r StopAll = False"
| "switched r _ = r"

definition sched_ok :: "(string \<Rightarrow> (string \<times> 'cb) option) \<Rightarrow> bool \<Rightarrow> 'cb scheduler \<Rightarrow> bool" where
  "sched_ok w r s \<longleftrightarrow> dict_ok (sd_jobs s) \<and> sd_running s = r \<and>
     (\<forall>a. w a = map_option (\<lambda>j. (jb_cron j, jb_callback j)) (map_of (sd_jobs s) a)) \<and>
     (\<forall>a j. map_of (sd_jobs s) a = Some j \<longrightarrow>
        jb_agent j = a \<and> jb_active j = r \<and> jb_interval j = parse_cron_interval_seconds (jb_cron j))"

lemma start_job_if [simp]: "(if jb_active j then j else start_job j) = j\<lparr>jb_active := True\<rparr>"
  by (cases j) (simp add: start_job_def)

lemma sched_step_ok: "sched_ok w r s \<Longrightarrow> sched_ok (wanted w o1) (switched r o1) (sched_step o1 s)"
proof (cases o1)
  case (Tick now a)
  assume "sched_ok w r s"
  then show ?thesis
    using Tick by (auto simp: sched_ok_def job_fires_def split: option.split)
qed (auto simp: sched_ok_def add_job_def remove_job_def scheduled_job_def start_job_def start_all_def stop_all_def Let_def
      map_of_dmap option.map_comp o_def)

lemma sched_run_ok: "sched_ok w r s \<Longrightarrow> sched_ok (foldl wanted w ops) (foldl switched r ops) (fold sched_step ops s)"
  by (induction ops arbitrary: w r s) (simp_all add: sched_step_ok)

text \<open>
  After any history of the scheduler every agent has exactly the job that was asked for last, with the
  interval its expression denotes, and its timer fires, with the callback given last, exactly when the scheduler runs.
\<close>

theorem jobs_fire_while_the_scheduler_runs:
  "let s = fold sched_step ops empty_scheduler; w = foldl wanted (\<lambda>_. None) ops in
     (\<forall>now a. fst (job_fires now a s) = (if foldl switched False ops then map_option snd (w a) else None)) \<and>
     (\<forall>a j. map_of (sd_jobs s) a = Some j \<longrightarrow>
        w a = Some (jb_cron j, jb_callback j) \<and> jb_interval j = parse_cron_interval_seconds (jb_cron j)) \<and>
     distinct (dkeys (sd_jobs s))"
proof -
  have "sched_ok (\<lambda>_. None) False (empty_scheduler :: 'a scheduler)" by (simp add: sched_ok_def empty_scheduler_def)
  from sched_run_ok [OF this, of ops]
  have ok: "sched_ok (foldl wanted (\<lambda>_. None) ops) (foldl switched False ops) (fold sched_step ops empty_scheduler)" .
  have fires: "fst (job_fires now a s) = (if r then map_option snd (w a) else None)" if "sched_ok w r s" for w r now a and s :: "'a scheduler"
  proof (cases "map_of (sd_jobs s) a")
    case None
    with that show ?thesis by (simp add: sched_ok_def job_fires_def)
  next
    case (Some j)
    with that have "jb_active j = r" by (simp add: sched_ok_def)
    with that Some show ?thesis by (simp add: sched_ok_def job_fires_def)
  qed
  show ?thesis using ok fires [OF ok] by (simp add: Let_def) (simp add: sched_ok_def dict_ok_def)
qed

subsection \<open>Intervals\<close>

lemma digit_char_digit [simp]: "n < 10 \<Longrightarrow> is_digit (digit_char n) \<and> digit_val (digit_char n) = n"
  by (simp add: is_digit_def digit_val_def digit_char_def)

lemma str_nat_digits: "list_all is_digit (str_nat n)" and str_nat_value: "digits_value (map digit_val (str_nat n)) = n"
  and str_nat_nonempty: "str_nat n \<noteq> []"
proof -
  have "list_all is_digit (str_nat n) \<and> digits_value (map digit_val (str_nat n)) = n \<and> str_nat n \<noteq> []"
    by (induction n rule: str_nat.induct) (subst (1 2 3) str_nat.simps, auto simp: digits_value_def)
  then show "list_all is_digit (str_nat n)" "digits_value (map digit_val (str_nat n)) = n" "str_nat n \<noteq> []" by auto
qed

lemma scan_digits_all: "list_all is_digit s \<Longrightarrow> scan_digits b s = (map digit_val s, [])"
  by (induction b s rule: scan_digits.induct) auto

lemma digit_not_space: "is_digit c \<Longrightarrow> \<not> is_space c"
  by (auto simp: is_digit_def is_space_def Let_def)

lemma digit_no_sign: "is_digit c \<Longrightarrow> c \<noteq> CHR ''-'' \<and> c \<noteq> CHR ''+''"
  by (auto simp: is_digit_def)

lemma strip_no_spaces: "list_all (\<lambda>c. \<not> is_space c) s \<Longrightarrow> strip s = s"
proof -
  assume s: "list_all (\<lambda>c. \<not> is_space c) s"
  then have "dropWhile is_space s = s" by (cases s) auto
  moreover from s have "dropWhile is_space (rev s) = rev s" by (cases s rule: rev_cases) auto
  ultimately show ?thesis by (simp add: strip_def rstrip_def)
qed

lemma int_of_str_nat: "int_of_str (str_nat n) = Some (int n)"
proof -
  have ns: "list_all (\<lambda>c. \<not> is_space c) (str_nat n)"
    using str_nat_digits [of n] by (auto simp: list_all_iff digit_not_space)
  have "scan_sign (str_nat n) = (False, str_nat n)"
    using str_nat_digits [of n] str_nat_nonempty [of n] by (cases "str_nat n") (simp_all add: scan_sign_def digit_no_sign)
  then show ?thesis
    using scan_digits_all [OF str_nat_digits [of n]] str_nat_value [of n] str_nat_nonempty [of n]
    by (simp add: int_of_str_def strip_no_spaces [OF ns])
qed

lemma split_ws_word:
  assumes "w \<noteq> []" and "list_all (\<lambda>c. \<not> is_space c) w" and "is_space c"
  shows "split_ws (w @ c # t) = w # split_ws t" and "split_ws w = [w]" and "split_ws (c # t) = split_ws t"
proof -
  from assms obtain x xs where w: "w = x # xs" "\<not> is_space x" by (cases w) auto
  have tk: "takeWhile (\<lambda>c. \<not> is_space c) (w @ c # t) = w" "dropWhile (\<lambda>c. \<not> is_space c) (w @ c # t) = c # t"
    "takeWhile (\<lambda>c. \<not> is_space c) w = w" "dropWhile (\<lambda>c. \<not> is_space c) w = []"
    using assms(2,3) by (simp_all add: list_all_iff takeWhile_append2 dropWhile_append2)
  show "split_ws (c # t) = split_ws t" using assms(3) by (subst (1 2) split_ws.simps) simp
  then show "split_ws (w @ c # t) = w # split_ws t"
    using w tk by (subst split_ws.simps) (simp add: Let_def)
  have "dropWhile is_space w = w" using w by simp
  then show "split_ws w = [w]" using assms(1) tk(3) by (subst split_ws.simps) (simp add: Let_def tk(4) split_ws.simps [of "[]"])
qed

lemma lower_words: "lower (s @ t) = lower s @ lower t" "lower (c # t) = lower_char c # lower t"
  by (simp_all add: lower_def)

lemma lower_digits: "list_all is_digit s \<Longrightarrow> lower s = s"
  by (induction s) (auto simp: lower_def lower_char_def is_digit_def Let_def)

lemma strip_words:
  assumes "v \<noteq> []" "list_all (\<lambda>c. \<not> is_space c) v" "u \<noteq> []" "list_all (\<lambda>c. \<not> is_space c) u"
  shows "strip (v @ t @ u) = v @ t @ u"
proof -
  from assms have "dropWhile is_space (v @ t @ u) = v @ t @ u" by (cases v) auto
  moreover from assms have "dropWhile is_space (rev (v @ t @ u)) = rev (v @ t @ u)" by (cases u rule: rev_cases) auto
  ultimately show ?thesis by (simp add: strip_def rstrip_def)
qed

lemma rstrip_none: "s \<noteq> [] \<Longrightarrow> \<not> p (last s) \<Longrightarrow> rstrip p s = s"
  by (cases s rule: rev_cases) (simp_all add: rstrip_def)

lemma rstrip_snoc: "p c \<Longrightarrow> rstrip p (s @ [c]) = rstrip p s"
  by (simp add: rstrip_def)

lemma every_interval_nat:
  "every_interval (str_nat n) = 60 * int n"
  "every_interval (str_nat n @ ''s'') = int n" "every_interval (str_nat n @ ''m'') = 60 * int n"
  "every_interval (str_nat n @ ''h'') = 3600 * int n"
proof -
  let ?p = "\<lambda>c. c \<in> {CHR ''s'', CHR ''m'', CHR ''h''}"
  have l: "is_digit (last (str_nat n))" using str_nat_digits [of n] str_nat_nonempty [of n] by (simp add: list_all_iff)
  then have bare: "rstrip ?p (str_nat n) = str_nat n" using str_nat_nonempty by (intro rstrip_none) (auto simp: is_digit_def)
  have no: "\<not> ends_with [c] (str_nat n)" if "?p c" for c
  proof
    assume "ends_with [c] (str_nat n)"
    then have "last (str_nat n) = c" by (auto simp: ends_with_append)
    with l that show False by (auto simp: is_digit_def)
  qed
  have suffix: "ends_with [c] (str_nat n @ [d]) \<longleftrightarrow> c = d" for c d by (auto simp: ends_with_append)
  show "every_interval (str_nat n) = 60 * int n"
    unfolding every_interval_def bare int_of_str_nat option.case using no by simp
  have snoc: "rstrip ?p (str_nat n @ [c]) = str_nat n" if "?p c" for c using that rstrip_snoc [of ?p c "str_nat n"] bare by simp
  show "every_interval (str_nat n @ ''s'') = int n" "every_interval (str_nat n @ ''m'') = 60 * int n"
    "every_interval (str_nat n @ ''h'') = 3600 * int n"
    unfolding every_interval_def using snoc suffix by (simp_all add: int_of_str_nat)
qed

text \<open>The shorthand in its documented form, and with the unit spelled out as a word of its own.\<close>

lemma every_words:
  assumes "list_all (\<lambda>c. \<not> is_space c) w" and "w \<noteq> []" and "lower w = w"
  shows "parse_cron_interval_seconds (''every'' @ CHR '' '' # w) = every_interval w"
    and "list_all (\<lambda>c. \<not> is_space c) u \<Longrightarrow> u \<noteq> [] \<Longrightarrow> lower u = u \<Longrightarrow>
      parse_cron_interval_seconds (''every'' @ CHR '' '' # w @ CHR '' '' # u) = every_interval w"
proof -
  define e where "e = ''every''"
  have e: "e \<noteq> []" "list_all (\<lambda>c. \<not> is_space c) e" "lower e = e" "''every '' = e @ '' ''" by (simp_all add: e_def) code_simp+
  have sp: "is_space CHR '' ''" "lower_char CHR '' '' = CHR '' ''" by code_simp+
  have key: "parse_cron_interval_seconds (e @ CHR '' '' # x) = every_interval w"
    if "strip (e @ CHR '' '' # x) = e @ CHR '' '' # x" "lower x = x" "split_ws x = w # ws" for x ws
  proof -
    have "lower (e @ CHR '' '' # x) = e @ CHR '' '' # x" by (simp add: lower_words e sp that)
    moreover have "starts_with ''every '' (e @ CHR '' '' # x)" unfolding e(4) by (simp add: starts_with_append)
    moreover have "split_ws (e @ CHR '' '' # x) = e # w # ws" using split_ws_word(1) [OF e(1,2) sp(1)] that(3) by simp
    ultimately show ?thesis by (simp add: parse_cron_interval_seconds_def that(1) Let_def)
  qed
  show "parse_cron_interval_seconds (''every'' @ CHR '' '' # w) = every_interval w"
    using key [of w "[]"] strip_words [OF e(1,2) assms(2,1), of "'' ''"] split_ws_word(2) [OF assms(2,1) sp(1)] assms(3)
    unfolding e_def [symmetric] by simp
  assume u: "list_all (\<lambda>c. \<not> is_space c) u" "u \<noteq> []" "lower u = u"
  show "parse_cron_interval_seconds (''every'' @ CHR '' '' # w @ CHR '' '' # u) = every_interval w"
    using key [of "w @ CHR '' '' # u" "[u]"] strip_words [OF e(1,2) u(2,1), of "'' '' @ w @ '' ''"]
      split_ws_word(1) [OF assms(2,1) sp(1)] split_ws_word(2) [OF u(2,1) sp(1)] assms(3) u(3)
    unfolding e_def [symmetric] by (simp add: lower_words sp)
qed

text \<open>
  The shorthand means what the documentation says for \<open>s\<close>, \<open>m\<close> and \<open>h\<close> right after the number; with the unit as
  a word of its own every unit counts as minutes, so that \<open>every 2 hours\<close> runs every two minutes and
  \<open>every 30 seconds\<close> every half hour.
\<close>

theorem spelled_out_units_are_minutes:
  "parse_cron_interval_seconds (''every'' @ CHR '' '' # str_nat n @ ''s'') = int n \<and>
   parse_cron_interval_seconds (''every'' @ CHR '' '' # str_nat n @ ''m'') = 60 * int n \<and>
   parse_cron_interval_seconds (''every'' @ CHR '' '' # str_nat n @ ''h'') = 3600 * int n \<and>
   parse_cron_interval_seconds (''every'' @ CHR '' '' # str_nat n @ CHR '' '' # ''seconds'') = 60 * int n \<and>
   parse_cron_interval_seconds (''every'' @ CHR '' '' # str_nat n @ CHR '' '' # ''hours'') = 60 * int n"
proof -
  have n: "list_all (\<lambda>c. \<not> is_space c) (str_nat n)" "lower (str_nat n) = str_nat n"
    using str_nat_digits [of n] by (auto simp: list_all_iff digit_not_space lower_digits)
  have c: "\<not> is_space c \<and> lower_char c = c" if "c \<in> {CHR ''s'', CHR ''m'', CHR ''h''}" for c using that by (auto simp: is_space_def lower_char_def)
  have one: "parse_cron_interval_seconds (''every'' @ CHR '' '' # str_nat n @ [c]) = every_interval (str_nat n @ [c])"
    if "c \<in> {CHR ''s'', CHR ''m'', CHR ''h''}" for c
    using n c [OF that] by (intro every_words(1)) (simp_all add: lower_words, simp add: lower_def)
  have two: "parse_cron_interval_seconds (''every'' @ CHR '' '' # str_nat n @ CHR '' '' # u) = every_interval (str_nat n)"
    if "list_all (\<lambda>c. \<not> is_space c) u" "u \<noteq> []" "lower u = u" for u
    using n str_nat_nonempty that by (intro every_words(2))
  have u: "list_all (\<lambda>c. \<not> is_space c) ''seconds''" "lower ''seconds'' = ''seconds''"
    "list_all (\<lambda>c. \<not> is_space c) ''hours''" "lower ''hours'' = ''hours''" by code_simp+
  show ?thesis
    using one [of "CHR ''s''"] one [of "CHR ''m''"] one [of "CHR ''h''"] two [OF u(1) _ u(2)] two [OF u(3) _ u(4)]
    unfolding every_interval_nat by simp
qed

text \<open>Fields of cron that the approximation ignores or turns into a busy loop.\<close>

lemma cron_approximations:
  "parse_cron_interval_seconds ''0 8 * * 1-5'' = 604800"
  "parse_cron_interval_seconds ''0 0 1 * *'' = 86400"
  "parse_cron_interval_seconds ''*/15 9 * * *'' = 900"
  "parse_cron_interval_seconds ''*/0 * * * *'' = 0"
  "parse_cron_interval_seconds ''every -5m'' = - 300"
  "parse_cron_interval_seconds ''hourly'' = 3600"
  by code_simp+

end
