(* ===== verification/Sessions.thy ===== *)
theory Sessions
  imports Pyrt
begin

text \<open>
  Conversation sessions of agents (\<open>src/src/core/session_store.py\<close>, \<open>InMemorySessionStore\<close>) and how a turn of an
  invocation is recorded in them (\<open>_append_session_turn\<close> and \<open>record_resumed_turn\<close> of
  \<open>src/src/platform/executor.py\<close>).  The object that \<open>get\<close> returns is the stored one: the executor's updates of its counters act on the store.
\<close>

record agent_session =
  sn_id :: string
  sn_agent :: string
  sn_tenant :: string
  sn_status :: string
  sn_messages :: "pyval list"
  sn_prompt :: string
  sn_turns :: nat
  sn_output_tokens :: int
  sn_workflow :: "string option"

record session_store =
  sx_sessions :: "(string, agent_session) dict"
  sx_tenant :: string

definition session_save :: "agent_session \<Rightarrow> session_store \<Rightarrow> session_store" where
  "session_save x s = s\<lparr>sx_sessions := dset (sn_id x) x (sx_sessions s)\<rparr>"

definition session_update :: "agent_session \<Rightarrow> session_store \<Rightarrow> session_store" where
  "session_update x s = s\<lparr>sx_sessions := dset (sn_id x) x (sx_sessions s)\<rparr>"

definition session_get :: "session_store \<Rightarrow> string \<Rightarrow> agent_session option" where
  "session_get s i =
     (case map_of (sx_sessions s) i of
        None \<Rightarrow> None
      | Some x \<Rightarrow> if sx_tenant s \<noteq> [] \<and> sn_tenant x \<noteq> sx_tenant s then None else Some x)"

definition session_append :: "string \<Rightarrow> pyval list \<Rightarrow> session_store \<Rightarrow> session_store" where
  "session_append i ms s = s\<lparr>sx_sessions := dmod i (\<lambda>x. x\<lparr>sn_messages := sn_messages x @ ms\<rparr>) (sx_sessions s)\<rparr>"

definition session_list_active :: "string option \<Rightarrow> session_store \<Rightarrow> agent_session list" where
  "session_list_active a s = filter (\<lambda>x. sn_status x = ''running'' \<and> (sx_tenant s = [] \<or> sn_tenant x = sx_tenant s) \<and>
     (case a of None \<Rightarrow> True | Some i \<Rightarrow> i = [] \<or> sn_agent x = i)) (dvals (sx_sessions s))"

definition session_list_by_workflow :: "string \<Rightarrow> session_store \<Rightarrow> agent_session list" where
  "session_list_by_workflow w s = filter (\<lambda>x. sn_workflow x = Some w) (dvals (sx_sessions s))"

definition session_get_resumable :: "string \<Rightarrow> session_store \<Rightarrow> agent_session option" where
  "session_get_resumable a s = find (\<lambda>x. sn_agent x = a \<and> sn_status x = ''running'') (dvals (sx_sessions s))"

subsection \<open>Recording turns\<close>

definition user_turn :: "string \<Rightarrow> pyval" where
  "user_turn p = PDict [(''role'', PStr ''user''), (''content'', PStr p)]"

definition agent_turn :: "string \<Rightarrow> pyval" where
  "agent_turn p = PDict [(''role'', PStr ''assistant''), (''content'', PStr p)]"

definition first_session :: "string \<Rightarrow> string \<Rightarrow> string \<Rightarrow> string \<Rightarrow> pyval list \<Rightarrow> int \<Rightarrow> agent_session" where
  "first_session i a tenant prompt ms tokens = \<lparr>sn_id = i, sn_agent = a, sn_tenant = tenant, sn_status = ''running'', sn_messages = ms,
     sn_prompt = prompt, sn_turns = 1, sn_output_tokens = tokens, sn_workflow = None\<rparr>"

text \<open>The session loaded before the invocation is the same object as the one in the store.\<close>

definition append_session_turn ::
    "bool \<Rightarrow> string \<Rightarrow> string \<Rightarrow> pyval list \<Rightarrow> int \<Rightarrow> string \<Rightarrow> string \<Rightarrow> session_store \<Rightarrow> session_store" where
  "append_session_turn known i a ms tokens tenant prompt s =
     (if \<not> known then session_save (first_session i a tenant prompt ms tokens) s
      else session_append i ms (s\<lparr>sx_sessions := dmod i
        (\<lambda>x. x\<lparr>sn_turns := sn_turns x + 1, sn_output_tokens := sn_output_tokens x + tokens\<rparr>) (sx_sessions s)\<rparr>))"

definition record_resumed_turn :: "string \<Rightarrow> string \<Rightarrow> int \<Rightarrow> session_store \<Rightarrow> session_store" where
  "record_resumed_turn i out tokens s =
     (if i = [] then s
      else case session_get s i of None \<Rightarrow> s
         | Some x \<Rightarrow> append_session_turn True i (sn_agent x) [agent_turn out] tokens ''default'' [] s)"

lemma session_get_append:
  assumes "session_get s i = Some x"
  shows "session_get (append_session_turn True i a ms tokens tenant prompt s) i =
      Some (x\<lparr>sn_turns := sn_turns x + 1, sn_output_tokens := sn_output_tokens x + tokens, sn_messages := sn_messages x @ ms\<rparr>)"
  using assms
  by (auto simp: session_get_def append_session_turn_def session_append_def map_of_dmod split: option.splits if_splits)

lemma session_get_first:
  assumes "sx_tenant s = [] \<or> sx_tenant s = tenant"
  shows "session_get (append_session_turn False i a ms tokens tenant prompt s) i = Some (first_session i a tenant prompt ms tokens)"
  using assms by (auto simp: session_get_def append_session_turn_def session_save_def first_session_def)

lemma session_get_other:
  "j \<noteq> i \<Longrightarrow> session_get (append_session_turn known i a ms tokens tenant prompt s) j = session_get s j"
  by (simp add: session_get_def append_session_turn_def session_append_def session_save_def first_session_def split: option.split)

end
