(* ===== verification/Executor.thy ===== *)
theory Executor
  imports Admission Checkpoint EventBus Scheduler Sessions
begin

text \<open>
  The platform executor (\<open>src/src/platform/executor.py\<close>): it deploys, invokes, stops and recovers agents, over
  the process table with its registry, the scheduler, the event bus, the checkpoints and the sessions.
  The stack adapters and the hooks of other subsystems are fields of the environment.  They act on the whole
  platform, since code of an agent may use it while its caller waits; a \<open>Cancelled\<close> result is the
  cancellation of the task at such a wait.  An invocation of a session holds the lock of the session.
\<close>

subsection \<open>The platform\<close>

record agent_result =
  rz_status :: agent_status
  rz_output :: string
  rz_error :: "string option"
  rz_tool_calls :: "pyval list"
  rz_tokens :: int
  rz_input_tokens :: int
  rz_output_tokens :: int
  rz_model :: "string option"
  rz_elapsed_ms :: rat
  rz_metadata :: "(string \<times> pyval) list"

definition failed_result :: "string \<Rightarrow> agent_result" where
  "failed_result e = \<lparr>rz_status = SFailed, rz_output = [], rz_error = Some e, rz_tool_calls = [], rz_tokens = 0,
     rz_input_tokens = 0, rz_output_tokens = 0, rz_model = None, rz_elapsed_ms = 0, rz_metadata = []\<rparr>"

text \<open>\<open>pf_auto\<close> holds the agents with an autonomous task; a timer's callback is the agent and its prompt.\<close>

record 'w platform =
  pf_table :: ptable
  pf_sched :: "(string \<times> string) scheduler"
  pf_bus :: "string bus"
  pf_ckpts :: checkpoints
  pf_auto :: "string list"
  pf_invoking :: "string list"
  pf_sessions :: "session_store option"
  pf_world :: 'w

text \<open>What an awaited call gives back: the task was cancelled, it raised, or it returned.\<close>

datatype halt = Cancelled | Exc py_exn

type_synonym ('w, 'a) awaited = "'w platform \<Rightarrow> (halt + 'a) \<times> 'w platform"

record 'w adapter =
  ad_scaffold :: "agent_def \<Rightarrow> ('w, unit) awaited"
  ad_create :: "agent_def \<Rightarrow> ('w, unit) awaited"
  ad_invoke :: "string \<Rightarrow> string \<Rightarrow> (string \<times> pyval) list \<Rightarrow> pyval list option \<Rightarrow> ('w, agent_result) awaited"
  ad_start_loop :: "string \<Rightarrow> ('w, unit) awaited"
  ad_stop :: "string \<Rightarrow> ('w, unit) awaited"
  ad_recover :: "('w, int) awaited"
  ad_tools :: "'w platform \<Rightarrow> string list"

text \<open>
  \<open>xv_run_started\<close> and \<open>xv_run_finished\<close> are the optional history of runs, \<open>xv_inject\<close> the credential
  store, \<open>xv_pending\<close> the gateway to humans (whether the agent has pending requests), \<open>xv_price\<close> the
  price list, an enterprise module, \<open>xv_sleep\<close> what others do while a task sleeps.
\<close>

record 'w xenv =
  xv_adapters :: "(string, 'w adapter) dict"
  xv_root :: "string list"
  xv_now :: "'w platform \<Rightarrow> time"
  xv_run_started :: "string \<Rightarrow> string \<Rightarrow> string \<Rightarrow> string \<Rightarrow> 'w platform \<Rightarrow> string option \<times> 'w platform"
  xv_run_finished :: "string option \<Rightarrow> string \<Rightarrow> agent_result \<Rightarrow> 'w platform \<Rightarrow> 'w platform"
  xv_inject :: "(string \<Rightarrow> string \<Rightarrow> string \<Rightarrow> (string \<times> pyval) list \<Rightarrow> 'w platform \<Rightarrow> (string \<times> pyval) list \<times> 'w platform) option"
  xv_pending :: "(string \<Rightarrow> 'w platform \<Rightarrow> bool \<times> 'w platform) option"
  xv_price :: "string \<Rightarrow> int \<Rightarrow> int \<Rightarrow> rat"
  xv_sleep :: "rat \<Rightarrow> ('w, unit) awaited"
  xv_rmtree :: "string \<Rightarrow> 'w platform \<Rightarrow> 'w platform"

subsection \<open>Parts of the platform\<close>

definition pf_registry :: "'w platform \<Rightarrow> registry" where
  "pf_registry s = (case registry_of (pf_table s) of None \<Rightarrow> empty_registry | Some r \<Rightarrow> r)"

definition on_registry :: "(registry \<Rightarrow> registry) \<Rightarrow> 'w platform \<Rightarrow> 'w platform" where
  "on_registry f s = s\<lparr>pf_table := (pf_table s)\<lparr>registry_of := Some (f (pf_registry s))\<rparr>\<rparr>"

definition set_status :: "string \<Rightarrow> agent_status \<Rightarrow> 'w platform \<Rightarrow> 'w platform" where
  "set_status k st = on_registry (reg_set_status k st)"

definition x_transition :: "'w xenv \<Rightarrow> string \<Rightarrow> phase \<Rightarrow> string \<Rightarrow> bool \<Rightarrow> 'w platform \<Rightarrow> 'w platform" where
  "x_transition env k ph reason force s = s\<lparr>pf_table := snd (pt_transition (xv_now env s) k ph reason force True (pf_table s))\<rparr>"

definition x_heartbeat :: "'w xenv \<Rightarrow> string \<Rightarrow> 'w platform \<Rightarrow> 'w platform" where
  "x_heartbeat env k s = s\<lparr>pf_table := heartbeat (xv_now env s) k (pf_table s)\<rparr>"

text \<open>\<open>(agent_def.metadata or {}).get(k, default)\<close>\<close>

definition meta :: "agent_def \<Rightarrow> string \<Rightarrow> pyval \<Rightarrow> pyval" where
  "meta a k d = dget_default (a_metadata a) k d"

definition identity_for :: "agent_def \<Rightarrow> identity" where
  "identity_for a = \<lparr>pid = a_id a, id_name = a_name a, id_namespace = a_namespace a, generation = 1, owner_id = a_owner a,
     tenant_id = (case a_tenant a of None \<Rightarrow> ''default'' | Some t \<Rightarrow> t),
     parent_pid = (case meta a ''parent_pid'' PNone of PStr p \<Rightarrow> Some p | _ \<Rightarrow> None)\<rparr>"

definition register_process :: "'w xenv \<Rightarrow> agent_def \<Rightarrow> 'w platform \<Rightarrow> 'w platform" where
  "register_process env a s =
     (case pt_register (xv_now env s) (identity_for a) (a_id a) Admitted (pf_table s) of
        Inr (_, t) \<Rightarrow> s\<lparr>pf_table := t\<rparr>
      | Inl _ \<Rightarrow> x_transition env (a_id a) Admitted [] True s)"

subsection \<open>Checkpoints of the autonomous loop\<close>

definition save_checkpoint :: "'w xenv \<Rightarrow> string \<Rightarrow> loop_progress \<Rightarrow> 'w platform \<Rightarrow> 'w platform" where
  "save_checkpoint env k progress s =
     (case pt_get (pf_table s) k of
        None \<Rightarrow> s
      | Some p \<Rightarrow> s\<lparr>pf_ckpts := ck_save (checkpoint_of_process (xv_now env s) p (Some progress) None None) (pf_ckpts s)\<rparr>)"

definition resume_point :: "string \<Rightarrow> 'w platform \<Rightarrow> (int \<times> int) \<times> 'w platform" where
  "resume_point k s =
     (case ck_load (pf_ckpts s) k of
        None \<Rightarrow> ((0, 0), s)
      | Some c \<Rightarrow>
        (case pt_get (pf_table s) k of
           Some p \<Rightarrow> if cp_generation c \<noteq> generation (ident p) then ((0, 0), s\<lparr>pf_ckpts := snd (ck_delete k (pf_ckpts s))\<rparr>)
                     else ((lp_step (cp_progress c), lp_crashes (cp_progress c)), s)
         | None \<Rightarrow> ((lp_step (cp_progress c), lp_crashes (cp_progress c)), s)))"

definition drop_checkpoint :: "string \<Rightarrow> 'w platform \<Rightarrow> 'w platform" where
  "drop_checkpoint k s = s\<lparr>pf_ckpts := snd (ck_delete k (pf_ckpts s))\<rparr>"

subsection \<open>Agent directories\<close>

text \<open>
  Paths are lists of components from the file system's root; \<open>xv_root\<close> is the resolved root of the
  agents.  A component \<open>..\<close> goes up when the path is resolved; symbolic links are not modelled.
\<close>

definition path_parts :: "string \<Rightarrow> string list" where
  "path_parts s = filter (\<lambda>c. c \<notin> {[], ''.''}) (split_on (CHR ''/'') s)"

text \<open>\<open>p / s\<close>: an absolute operand replaces the path.\<close>

definition path_join :: "string list \<Rightarrow> string \<Rightarrow> string list" where
  "path_join p s = (if starts_with ''/'' s then path_parts s else p @ path_parts s)"

definition path_resolve :: "string list \<Rightarrow> string list" where
  "path_resolve p = foldl (\<lambda>acc c. if c = ''..'' then butlast acc else acc @ [c]) [] p"

definition path_str :: "string list \<Rightarrow> string" where
  "path_str p = concat (map (\<lambda>c. CHR ''/'' # c) p)"

definition text_or :: "string option \<Rightarrow> string \<Rightarrow> string" where
  "text_or x d = (case x of None \<Rightarrow> d | Some s \<Rightarrow> if s = [] then d else s)"

definition agent_dir :: "string list \<Rightarrow> agent_def \<Rightarrow> string list" where
  "agent_dir base a =
     (case a_ownership a of
        Client \<Rightarrow> path_join (path_join (path_join base ''clients'') (text_or (a_owner a) ''default-client'')) (a_name a)
      | Personal \<Rightarrow> path_join (path_join (path_join base ''personal'') (text_or (a_owner a) ''default'')) (a_name a)
      | Shared \<Rightarrow> path_join (path_join base ''shared'') (a_name a))"

definition resolve_agent_dir :: "string list \<Rightarrow> agent_def \<Rightarrow> string list res" where
  "resolve_agent_dir base a =
     (let p = agent_dir base a
      in if take (length base) (path_resolve p) = base then Inr p else Inl ValueError)"

subsection \<open>Wiring the execution type\<close>

definition auto_add :: "string \<Rightarrow> 'w platform \<Rightarrow> 'w platform" where
  "auto_add k s = s\<lparr>pf_auto := List.insert k (pf_auto s)\<rparr>"

definition auto_drop :: "string \<Rightarrow> 'w platform \<Rightarrow> 'w platform" where
  "auto_drop k s = s\<lparr>pf_auto := removeAll k (pf_auto s)\<rparr>"

definition scheduled_prompt :: "string \<Rightarrow> string" where
  "scheduled_prompt cron = ''Scheduled run: '' @ cron"

definition wire_execution :: "'w adapter \<Rightarrow> agent_def \<Rightarrow> ('w, unit) awaited" where
  "wire_execution ad a s =
     (case a_execution a of
        AlwaysOn \<Rightarrow> (case ad_start_loop ad (a_id a) s of
             (Inl h, s1) \<Rightarrow> (Inl h, s1) | (Inr _, s1) \<Rightarrow> (Inr (), set_status (a_id a) SRunning s1))
      | Scheduled \<Rightarrow> (Inr (), case a_schedule a of
             None \<Rightarrow> s
           | Some cron \<Rightarrow> if cron = [] then s
                          else s\<lparr>pf_sched := add_job (a_id a) cron (a_id a, scheduled_prompt cron) (pf_sched s)\<rparr>)
      | EventDriven \<Rightarrow> (Inr (), s\<lparr>pf_bus := fold (\<lambda>t. subscribe t (a_id a) (a_id a)) (a_triggers a) (pf_bus s)\<rparr>)
      | Reflex \<Rightarrow> (Inr (), set_status (a_id a) SIdle s)
      | Autonomous \<Rightarrow> (Inr (), set_status (a_id a) SRunning (auto_add (a_id a) s)))"

subsection \<open>Deployment\<close>

text \<open>\<open>tier >= 3\<close> on a value that is no number raises.\<close>

definition untrusted :: "agent_def \<Rightarrow> bool res" where
  "untrusted a = (case num_of (meta a ''_tier'' (PInt 1)) of None \<Rightarrow> Inl TypeError | Some x \<Rightarrow> Inr (3 \<le> x))"

definition routed_stack :: "'w xenv \<Rightarrow> bool \<Rightarrow> agent_def \<Rightarrow> agent_def" where
  "routed_stack env low a =
     (if low \<and> map_of (xv_adapters env) ''sandbox'' \<noteq> None \<and> a_stack a \<noteq> ''sandbox'' then a\<lparr>a_stack := ''sandbox''\<rparr> else a)"

definition name_taken :: "agent_def \<Rightarrow> 'w platform \<Rightarrow> bool" where
  "name_taken a s = list_ex (\<lambda>b. a_name b = a_name a \<and> a_namespace b = a_namespace a) (reg_list_all (pf_registry s))"

text \<open>Scaffolding, \<open>STARTING\<close>, creation, wiring, \<open>RUNNING\<close>.\<close>

definition bring_up :: "'w xenv \<Rightarrow> 'w adapter \<Rightarrow> agent_def \<Rightarrow> ('w, unit) awaited" where
  "bring_up env ad a s =
     (case ad_scaffold ad a s of
        (Inl h, s1) \<Rightarrow> (Inl h, s1)
      | (Inr _, s1) \<Rightarrow>
        (case ad_create ad a (x_transition env (a_id a) Starting [] False s1) of
           (Inl h, s2) \<Rightarrow> (Inl h, s2)
         | (Inr _, s2) \<Rightarrow>
           (case wire_execution ad a s2 of
              (Inl h, s3) \<Rightarrow> (Inl h, s3)
            | (Inr _, s3) \<Rightarrow> (Inr (), x_transition env (a_id a) Running [] False s3))))"

definition roll_back :: "'w xenv \<Rightarrow> agent_def \<Rightarrow> string list \<Rightarrow> py_exn \<Rightarrow> 'w platform \<Rightarrow> 'w platform" where
  "roll_back env a dir e s =
     (let s1 = x_transition env (a_id a) Failed (''deploy failed: '' @ exn_text e) True s;
          s2 = s1\<lparr>pf_table := snd (pt_unregister (a_id a) (pf_table s1))\<rparr>
      in xv_rmtree env (path_str dir) (on_registry (\<lambda>r. snd (reg_unregister (a_id a) r)) s2))"

definition ends_with_star :: "string \<Rightarrow> bool" where
  "ends_with_star t = ends_with ''*'' t"

definition note_missing_tools :: "'w adapter \<Rightarrow> agent_def \<Rightarrow> 'w platform \<Rightarrow> 'w platform" where
  "note_missing_tools ad a s =
     (let missing = filter (\<lambda>t. t \<notin> set (ad_tools ad s) \<and> \<not> ends_with_star t) (a_tools a)
      in if missing = [] then s
         else on_registry (\<lambda>r. r\<lparr>r_agents := dmod (a_id a)
                (\<lambda>b. b\<lparr>a_metadata := dset ''_missing_tools_at_deploy'' (PList (map PStr missing)) (a_metadata b)\<rparr>) (r_agents r)\<rparr>) s)"

definition deploy :: "'w xenv \<Rightarrow> agent_def \<Rightarrow> ('w, string) awaited" where
  "deploy env a s =
     (if \<not> valid_name (a_name a) \<or> name_taken a s then (Inl (Exc ValueError), s)
      else case untrusted a of Inl e \<Rightarrow> (Inl (Exc e), s)
      | Inr low \<Rightarrow>
        (let a1 = routed_stack env low a
         in case map_of (xv_adapters env) (a_stack a1) of None \<Rightarrow> (Inl (Exc ValueError), s)
            | Some ad \<Rightarrow>
              (case resolve_agent_dir (xv_root env) a1 of Inl e \<Rightarrow> (Inl (Exc e), s)
               | Inr dir \<Rightarrow>
                 (let a2 = a1\<lparr>a_config_path := path_str dir\<rparr>
                  in case reg_register a2 (pf_registry s) of Inl _ \<Rightarrow> (Inl (Exc ValueError), s)
                     | Inr (i, r) \<Rightarrow>
                       (case bring_up env ad a2 (register_process env a2 (on_registry (\<lambda>_. r) s)) of
                          (Inl Cancelled, s1) \<Rightarrow> (Inl Cancelled, s1)
                        | (Inl (Exc e), s1) \<Rightarrow> (Inl (Exc e), roll_back env a2 dir e s1)
                        | (Inr _, s1) \<Rightarrow> (Inr i, note_missing_tools ad a2 s1))))))"

subsection \<open>Invocation\<close>

definition ctx_str :: "(string \<times> pyval) list option \<Rightarrow> string \<Rightarrow> string \<Rightarrow> string" where
  "ctx_str ctx k d = (case dget_default (or_nil ctx) k (PStr d) of PStr s \<Rightarrow> s | _ \<Rightarrow> [])"

text \<open>\<open>invoke_ctx.get("user_id") or owner_id or "default"\<close>\<close>

definition acting_user :: "(string \<times> pyval) list \<Rightarrow> agent_def \<Rightarrow> pyval" where
  "acting_user ctx a =
     (let u = dget_default ctx ''user_id'' PNone in if truthy u then u else PStr (text_or (a_owner a) ''default''))"

definition user_name :: "pyval \<Rightarrow> string" where
  "user_name v = (case v of PStr s \<Rightarrow> s | _ \<Rightarrow> py_str v)"

definition invoke_context :: "'w xenv \<Rightarrow> agent_def \<Rightarrow> string option \<Rightarrow> (string \<times> pyval) list option \<Rightarrow> 'w platform \<Rightarrow>
    (string \<times> pyval) list \<times> 'w platform" where
  "invoke_context env a run ctx s =
     (let c0 = or_nil ctx;
          c1 = (case run of None \<Rightarrow> c0
                | Some r \<Rightarrow> if r \<noteq> [] \<and> map_of c0 ''invocation_id'' = None then dset ''invocation_id'' (PStr r) c0 else c0);
          u = acting_user c1 a;
          c2 = dset ''user_id'' u c1
      in case xv_inject env of
           Some inject \<Rightarrow>
             if a_ownership a = Personal
             then inject (text_or (a_owner a) (user_name u)) (''executor.invoke:'' @ a_id a) (text_or run []) c2 s else (c2, s)
         | None \<Rightarrow> (c2, s))"

definition forgotten :: "agent_result \<Rightarrow> bool" where
  "forgotten r = (rz_status r = SFailed \<and> (case rz_error r of None \<Rightarrow> False | Some e \<Rightarrow> is_substring ''Agent not found'' e))"

text \<open>An adapter that does not know the agent is told again, once; an exception of that leaves the first result.\<close>

definition invoke_adapter :: "'w adapter \<Rightarrow> string \<Rightarrow> agent_def \<Rightarrow> string \<Rightarrow> (string \<times> pyval) list \<Rightarrow> pyval list option \<Rightarrow> ('w, agent_result) awaited" where
  "invoke_adapter ad k a prompt ctx hist s =
     (case ad_invoke ad k prompt ctx hist s of
        (Inl h, s1) \<Rightarrow> (Inl h, s1)
      | (Inr r, s1) \<Rightarrow>
        if \<not> forgotten r then (Inr r, s1)
        else (case ad_create ad a s1 of
                (Inl Cancelled, s2) \<Rightarrow> (Inl Cancelled, s2)
              | (Inl (Exc _), s2) \<Rightarrow> (Inr r, s2)
              | (Inr _, s2) \<Rightarrow>
                (case ad_invoke ad k prompt ctx hist s2 of
                   (Inl Cancelled, s3) \<Rightarrow> (Inl Cancelled, s3)
                 | (Inl (Exc _), s3) \<Rightarrow> (Inr r, s3)
                 | (Inr r', s3) \<Rightarrow> (Inr r', s3))))"

definition charge :: "'w xenv \<Rightarrow> string \<Rightarrow> agent_result \<Rightarrow> 'w platform \<Rightarrow> 'w platform" where
  "charge env k r s =
     (let i = rz_input_tokens r; out = (if rz_input_tokens r = 0 \<and> rz_output_tokens r = 0 then rz_tokens r else rz_output_tokens r);
          d = (case rz_model r of None \<Rightarrow> 0 | Some m \<Rightarrow> if m \<noteq> [] \<and> (i \<noteq> 0 \<or> out \<noteq> 0) then xv_price env m i out else 0)
      in x_heartbeat env k
           (s\<lparr>pf_table := record_usage k i out d (int (length (rz_tool_calls r))) (rz_elapsed_ms r) (pf_table s)\<rparr>))"

definition record_turn :: "agent_def \<Rightarrow> string \<Rightarrow> (string \<times> pyval) list option \<Rightarrow> string option \<Rightarrow> agent_session option \<Rightarrow> agent_result \<Rightarrow>
    'w platform \<Rightarrow> 'w platform" where
  "record_turn a prompt ctx sid sess r s =
     (case (sid, pf_sessions s) of
        (Some i, Some ss) \<Rightarrow>
          if i = [] then s
          else s\<lparr>pf_sessions := Some (append_session_turn (sess \<noteq> None) i (a_id a)
                 (user_turn prompt # (if rz_status r \<noteq> SPaused then [agent_turn (rz_output r)] else []))
                 (rz_tokens r) (ctx_str ctx ''tenant_id'' ''default'')
                 (if a_prompt a \<noteq> [] then a_prompt a else a_description a) ss)\<rparr>
      | _ \<Rightarrow> s)"

text \<open>The \<open>finally\<close> clause; \<open>None\<close> is a cancelled invocation, which has no result.\<close>

definition wind_up :: "'w xenv \<Rightarrow> string \<Rightarrow> string option \<Rightarrow> agent_result option \<Rightarrow> 'w platform \<Rightarrow> 'w platform" where
  "wind_up env k run r s =
     (let s1 = s\<lparr>pf_invoking := removeAll k (pf_invoking s)\<rparr>;
          s2 = (case xv_pending env of None \<Rightarrow> s1
                | Some pending \<Rightarrow> (case pending k s1 of
                     (True, t) \<Rightarrow> x_transition env k AwaitingHuman ''pending A2H request(s)'' True t
                   | (False, t) \<Rightarrow> t))
      in case r of None \<Rightarrow> s2
         | Some x \<Rightarrow>
           (let s3 = (if truthy (dget_default (rz_metadata x) ''queued'' PNone) then set_status k SIdle s2 else s2)
            in xv_run_finished env run k x s3))"

definition loaded_session :: "string option \<Rightarrow> 'w platform \<Rightarrow> agent_session option" where
  "loaded_session sid s = (case (sid, pf_sessions s) of (Some i, Some ss) \<Rightarrow> if i = [] then None else session_get ss i | _ \<Rightarrow> None)"

definition invoke :: "'w xenv \<Rightarrow> string \<Rightarrow> string \<Rightarrow> (string \<times> pyval) list option \<Rightarrow> string option \<Rightarrow> ('w, agent_result) awaited" where
  "invoke env k prompt ctx sid s =
     (case reg_get (pf_registry s) k of
        None \<Rightarrow> (Inr (failed_result (''Agent '' @ k @ '' not found in registry'')), s)
      | Some a \<Rightarrow>
        (case map_of (xv_adapters env) (a_stack a) of
           None \<Rightarrow> (Inr (failed_result (''No adapter for stack '' @ quoted (a_stack a))), s)
         | Some ad \<Rightarrow>
           (let sess = loaded_session sid s;
                s1 = x_heartbeat env k (set_status k SRunning s);
                s2 = s1\<lparr>pf_invoking := List.insert k (pf_invoking s1)\<rparr>
            in case xv_run_started env k (ctx_str ctx ''_trigger'' ''manual'') prompt (ctx_str ctx ''tenant_id'' ''default'') s2 of
                 (run, s3) \<Rightarrow>
                 (case invoke_context env a run ctx s3 of
                    (c, s4) \<Rightarrow>
                    (case invoke_adapter ad k a prompt c (map_option sn_messages sess) s4 of
                       (Inl Cancelled, s5) \<Rightarrow> (Inl Cancelled, wind_up env k run None s5)
                     | (Inl (Exc e), s5) \<Rightarrow>
                         (let r = failed_result (exn_text e) in (Inr r, wind_up env k run (Some r) (set_status k SFailed s5)))
                     | (Inr r, s5) \<Rightarrow>
                         (Inr r, wind_up env k run (Some r)
                            (record_turn a prompt ctx sid sess r (charge env k r (set_status k (rz_status r) s5)))))))))"

subsection \<open>Stopping\<close>

definition stop_agent :: "'w xenv \<Rightarrow> string \<Rightarrow> ('w, bool) awaited" where
  "stop_agent env k s =
     (case reg_get (pf_registry s) k of
        None \<Rightarrow> (Inr False, s)
      | Some a \<Rightarrow>
        (case (case map_of (xv_adapters env) (a_stack a) of None \<Rightarrow> (Inr (), s) | Some ad \<Rightarrow> ad_stop ad k s) of
           (Inl h, s1) \<Rightarrow> (Inl h, s1)
         | (Inr _, s1) \<Rightarrow>
           (let s2 = auto_drop k s1;
                s3 = s2\<lparr>pf_sched := snd (remove_job k (pf_sched s2)), pf_bus := snd (unsubscribe k None (pf_bus s2))\<rparr>;
                s4 = set_status k SStopped (x_transition env k Draining [] False s3)
            in (Inr True, drop_checkpoint k (x_transition env k Stopped [] False s4)))))"

definition undeploy :: "'w xenv \<Rightarrow> string \<Rightarrow> ('w, bool) awaited" where
  "undeploy env k s =
     (case stop_agent env k s of
        (Inl h, s1) \<Rightarrow> (Inl h, s1)
      | (Inr _, s1) \<Rightarrow>
        (let s2 = (case reg_get (pf_registry s1) k of None \<Rightarrow> s1
                   | Some a \<Rightarrow> if a_config_path a = [] then s1 else xv_rmtree env (a_config_path a) s1);
             s3 = drop_checkpoint k (s2\<lparr>pf_table := snd (pt_unregister k (pf_table s2))\<rparr>)
         in (Inr True, on_registry (\<lambda>r. snd (reg_unregister k r)) s3)))"

subsection \<open>The autonomous loop\<close>

text \<open>
  The settings in the metadata; a number of iterations or crashes that is no integer raises when the loop
  starts, and so does an interval that is no number when the loop first sleeps (here at the start as well).
\<close>

record loop_settings =
  lo_goal :: string
  lo_max :: int
  lo_interval :: rat
  lo_restart :: bool
  lo_max_crashes :: int

definition default_goal :: string where
  "default_goal = ''Complete the assigned objective.''"

definition loop_settings_of :: "agent_def \<Rightarrow> loop_settings res" where
  "loop_settings_of a =
     (case (meta a ''max_iterations'' (PInt 50), num_of (meta a ''loop_interval_seconds'' (PInt 30))) of
        (PInt m, Some d) \<Rightarrow>
          rbind (py_int (meta a ''max_crashes_before_give_up'' (PInt 3))) (\<lambda>c.
            Inr \<lparr>lo_goal = text_or (a_goal a) default_goal, lo_max = m, lo_interval = d,
                 lo_restart = truthy (meta a ''restart_on_failure'' (PBool False)), lo_max_crashes = c\<rparr>)
      | _ \<Rightarrow> Inl TypeError)"

definition iteration_prompt :: "loop_settings \<Rightarrow> int \<Rightarrow> string" where
  "iteration_prompt lo i = ''[Iteration '' @ str_int (i + 1) @ ''/'' @ str_int (lo_max lo) @ ''] Goal: '' @ lo_goal lo"

definition progress_at :: "loop_settings \<Rightarrow> int \<Rightarrow> int \<Rightarrow> string option \<Rightarrow> loop_progress" where
  "progress_at lo step crashes summary = \<lparr>lp_step = step, lp_max = Some (lo_max lo), lp_crashes = crashes,
     lp_goal = Some (lo_goal lo), lp_summary = summary, lp_extra = []\<rparr>"

definition summary_of :: "agent_result \<Rightarrow> string option" where
  "summary_of r = (if rz_output r = [] then None else Some (take 256 (rz_output r)))"

datatype loop_exit = Exited | GoalReached | Exhausted

definition quarantine :: "'w xenv \<Rightarrow> string \<Rightarrow> int \<Rightarrow> 'w platform \<Rightarrow> 'w platform" where
  "quarantine env k crashes s =
     set_status k SQuarantined (x_transition env k Quarantined (str_int crashes @ '' consecutive crashes'') True s)"

definition backoff :: "int \<Rightarrow> rat" where
  "backoff crashes = min 60 (2 ^ nat crashes)"

text \<open>The iterations; the first number is how many are left, then the next index and the crash count.\<close>

primrec iterations :: "'w xenv \<Rightarrow> string \<Rightarrow> loop_settings \<Rightarrow> nat \<Rightarrow> int \<Rightarrow> int \<Rightarrow> ('w, loop_exit) awaited" where
  "iterations env k lo 0 i crashes s = (Inr Exhausted, s)"
| "iterations env k lo (Suc n) i crashes s =
     (if reg_get_status (pf_registry s) k = SStopped then (Inr Exited, s)
      else case invoke env k (iteration_prompt lo i) None None s of
        (Inl Cancelled, s1) \<Rightarrow> (Inl Cancelled, s1)
      | (Inl (Exc e), s1) \<Rightarrow>
          (let c = crashes + 1; s2 = save_checkpoint env k (progress_at lo i c None) s1
           in if lo_max_crashes lo \<le> c then (Inr Exited, quarantine env k c s2)
              else (case xv_sleep env (backoff c) s2 of
                      (Inl h, s3) \<Rightarrow> (Inl h, s3) | (Inr _, s3) \<Rightarrow> iterations env k lo n (i + 1) c s3))
      | (Inr r, s1) \<Rightarrow>
          (let s2 = save_checkpoint env k (progress_at lo (i + 1) 0 (summary_of r)) s1
           in if rz_status r = SCompleted then (Inr GoalReached, s2)
              else if rz_status r = SFailed \<and> \<not> lo_restart lo then (Inr Exited, set_status k SFailed s2)
              else (case xv_sleep env (lo_interval lo) s2 of
                      (Inl h, s3) \<Rightarrow> (Inl h, s3) | (Inr _, s3) \<Rightarrow> iterations env k lo n (i + 1) 0 s3)))"

definition loop_ending :: "string \<Rightarrow> (halt + loop_exit) \<times> 'w platform \<Rightarrow> (halt + loop_exit) \<times> 'w platform" where
  "loop_ending k x =
     (case x of
        (Inr GoalReached, s) \<Rightarrow> (Inr GoalReached, drop_checkpoint k (set_status k SCompleted s))
      | (Inr Exhausted, s) \<Rightarrow> (Inr Exhausted, set_status k SIdle s)
      | _ \<Rightarrow> x)"

text \<open>The task of an autonomous agent; when it ends, however it ends, it is forgotten.\<close>

definition run_autonomous_loop :: "'w xenv \<Rightarrow> agent_def \<Rightarrow> ('w, loop_exit) awaited" where
  "run_autonomous_loop env a s =
     (case loop_settings_of a of Inl e \<Rightarrow> (Inl (Exc e), s)
      | Inr lo \<Rightarrow>
        (case resume_point (a_id a) s of
           ((start, crashes), s1) \<Rightarrow> loop_ending (a_id a) (iterations env (a_id a) lo (nat (lo_max lo - start)) start crashes s1)))"

definition autonomous_task :: "'w xenv \<Rightarrow> agent_def \<Rightarrow> ('w, loop_exit) awaited" where
  "autonomous_task env a s = apsnd (auto_drop (a_id a)) (run_autonomous_loop env a s)"

subsection \<open>Timers and events\<close>

text \<open>The timer of an agent fires, an event is fired: the callbacks invoke agents; what they return is dropped.\<close>

definition timer_fires :: "'w xenv \<Rightarrow> string \<Rightarrow> 'w platform \<Rightarrow> 'w platform" where
  "timer_fires env k s =
     (case job_fires (xv_now env s) k (pf_sched s) of
        (None, q) \<Rightarrow> s\<lparr>pf_sched := q\<rparr>
      | (Some (i, prompt), q) \<Rightarrow> snd (invoke env i prompt None None (s\<lparr>pf_sched := q\<rparr>)))"

definition fire_event :: "'w xenv \<Rightarrow> bus_event \<Rightarrow> 'w platform \<Rightarrow> string list \<times> 'w platform" where
  "fire_event env e s =
     (case fire e (pf_bus s) of
        (subs, b) \<Rightarrow>
          (map fst subs,
           fold (\<lambda>(_, i) t. snd (invoke env i (''Event triggered: '' @ be_name e) (Some (be_payload e)) None t)) subs (s\<lparr>pf_bus := b\<rparr>)))"

subsection \<open>Recovery\<close>

definition recoverable :: "agent_def \<Rightarrow> agent_status \<Rightarrow> bool" where
  "recoverable a st = (st \<noteq> SQuarantined \<and> (st \<in> {SFailed, SStopped} \<longrightarrow> truthy (meta a ''restart_on_failure'' (PBool False))))"

definition rewire :: "'w xenv \<Rightarrow> 'w adapter \<Rightarrow> agent_def \<Rightarrow> ('w, unit) awaited" where
  "rewire env ad a s =
     (case ad_create ad a (x_transition env (a_id a) Starting [] False (register_process env a s)) of
        (Inl h, s1) \<Rightarrow> (Inl h, s1)
      | (Inr _, s1) \<Rightarrow>
        (case wire_execution ad a s1 of
           (Inl h, s2) \<Rightarrow> (Inl h, s2)
         | (Inr _, s2) \<Rightarrow> (Inr (), x_transition env (a_id a) Running [] False s2)))"

text \<open>One agent: the number of agents recovered so far, and the platform. A cancellation ends the recovery.\<close>

definition recover_one :: "'w xenv \<Rightarrow> agent_def \<Rightarrow> nat \<Rightarrow> ('w, nat) awaited" where
  "recover_one env a n s =
     (case map_of (xv_adapters env) (a_stack a) of None \<Rightarrow> (Inr n, s)
      | Some ad \<Rightarrow>
        (let st = reg_get_status (pf_registry s) (a_id a)
         in if st = SQuarantined then (Inr n, s)
            else if \<not> recoverable a st
            then (case ad_create ad a s of (Inl Cancelled, s1) \<Rightarrow> (Inl Cancelled, s1) | (_, s1) \<Rightarrow> (Inr n, s1))
            else (case rewire env ad a s of
                    (Inl Cancelled, s1) \<Rightarrow> (Inl Cancelled, s1)
                  | (Inl (Exc e), s1) \<Rightarrow> (Inr n, x_transition env (a_id a) Failed (''recover failed: '' @ exn_text e) True s1)
                  | (Inr _, s1) \<Rightarrow> (Inr (n + 1), s1))))"

primrec recover_agents :: "'w xenv \<Rightarrow> agent_def list \<Rightarrow> nat \<Rightarrow> ('w, nat) awaited" where
  "recover_agents env [] n s = (Inr n, s)"
| "recover_agents env (a # as) n s =
     (case recover_one env a n s of (Inl h, s1) \<Rightarrow> (Inl h, s1) | (Inr m, s1) \<Rightarrow> recover_agents env as m s1)"

primrec recover_adapters :: "'w adapter list \<Rightarrow> nat \<Rightarrow> ('w, nat) awaited" where
  "recover_adapters [] n s = (Inr n, s)"
| "recover_adapters (ad # ads) n s =
     (case ad_recover ad s of (Inl Cancelled, s1) \<Rightarrow> (Inl Cancelled, s1) | (_, s1) \<Rightarrow> recover_adapters ads n s1)"

definition recover_platform :: "'w xenv \<Rightarrow> ('w, nat) awaited" where
  "recover_platform env s =
     (case recover_agents env (reg_list_all (pf_registry s)) 0 s of
        (Inl h, s1) \<Rightarrow> (Inl h, s1) | (Inr n, s1) \<Rightarrow> recover_adapters (dvals (xv_adapters env)) n s1)"

end
