(* ===== verification/Continuation.thy ===== *)
theory Continuation
  imports Pyrt
begin

text \<open>
  Continuations (\<open>src/src/runtime/continuation.py\<close>), the signals that park and resume them
  (\<open>signals.py\<close>), the continuation stores (\<open>continuation.py\<close>, \<open>continuation_store.py\<close>) and the message
  shaping of the three provider dialects (\<open>shaping.py\<close>).  A store holds values: what is loaded is a
  copy, as with the durable stores (the in-memory store hands out the live object, which a single
  thread cannot tell apart except after an exception).  Instants are arguments.
\<close>

subsection \<open>Records\<close>

datatype call_status = TPending | TExecuted | TRejected

record tool_call =
  tc_use_id :: string
  tc_name :: string
  tc_args :: "(string \<times> pyval) list"
  tc_status :: call_status
  tc_reason :: "string option"
  tc_ref :: "string option"
  tc_token :: "string option"
  tc_result :: pyval
  tc_is_error :: bool

definition new_call :: "string \<Rightarrow> string \<Rightarrow> (string \<times> pyval) list \<Rightarrow> tool_call" where
  "new_call i n args = \<lparr>tc_use_id = i, tc_name = n, tc_args = args, tc_status = TPending, tc_reason = None,
     tc_ref = None, tc_token = None, tc_result = PNone, tc_is_error = False\<rparr>"

datatype cont_status = CRunning | CSuspended | CResuming | CDone | CFailed

record continuation =
  c_id :: string
  c_pid :: string
  c_generation :: int
  c_run :: "string option"
  c_session :: "string option"
  c_tenant :: string
  c_user :: string
  c_namespace :: string
  c_messages :: "pyval list"
  c_provider :: string
  c_model :: string
  c_endpoint :: "string option"
  c_key_ref :: "string option"
  c_tools :: "pyval list option"
  c_step :: nat
  c_max_turns :: nat
  c_goal :: "string option"
  c_status :: cont_status
  c_suspend_reason :: "string option"
  c_pending :: "tool_call list"
  c_usage :: "(string, int) dict"
  c_tickets :: "string list"
  c_source :: string
  c_epoch :: nat
  c_parent :: "string option"
  c_error :: "string option"
  c_output :: string
  c_created :: time
  c_updated :: time

definition touch :: "time \<Rightarrow> continuation \<Rightarrow> continuation" where
  "touch now c = c\<lparr>c_updated := now\<rparr>"

definition pending_by_id :: "continuation \<Rightarrow> string \<Rightarrow> tool_call option" where
  "pending_by_id c i = find (\<lambda>r. tc_use_id r = i) (c_pending c)"

subsection \<open>Signals\<close>

text \<open>\<open>Suspend\<close>: the exception by which a tool parks the run.\<close>

record suspend =
  sg_reason :: string
  sg_use_id :: string
  sg_ref :: "string option"
  sg_detail :: pyval

definition human_reasons :: "string list" where
  "human_reasons = [''human_approval'', ''human_input'']"

datatype outcome = Accept | Reject | Result

record resolution =
  rs_cont :: string
  rs_use_id :: string
  rs_outcome :: outcome
  rs_token :: "string option"
  rs_payload :: pyval
  rs_by :: "string option"

subsection \<open>The stores\<close>

record cont_store =
  cs_by_id :: "(string, continuation) dict"
  cs_refs :: "(string, string) dict"

definition empty_conts :: cont_store where
  "empty_conts = \<lparr>cs_by_id = [], cs_refs = []\<rparr>"

definition cs_save :: "time \<Rightarrow> continuation \<Rightarrow> cont_store \<Rightarrow> cont_store" where
  "cs_save now c s = s\<lparr>cs_by_id := dset (c_id c) (touch now c) (cs_by_id s)\<rparr>"

definition cs_load :: "cont_store \<Rightarrow> string \<Rightarrow> continuation option" where
  "cs_load s i = map_of (cs_by_id s) i"

definition cs_delete :: "string \<Rightarrow> cont_store \<Rightarrow> bool \<times> cont_store" where
  "cs_delete i s = (map_of (cs_by_id s) i \<noteq> None,
     s\<lparr>cs_by_id := dpop i (cs_by_id s), cs_refs := filter (\<lambda>(r, j). j \<noteq> i) (cs_refs s)\<rparr>)"

definition cs_index_ref :: "string \<Rightarrow> string \<Rightarrow> cont_store \<Rightarrow> cont_store" where
  "cs_index_ref r i s = s\<lparr>cs_refs := dset r i (cs_refs s)\<rparr>"

text \<open>\<open>if cid\<close>: an empty id is as good as none.\<close>

definition cs_find_by_ref :: "cont_store \<Rightarrow> string \<Rightarrow> continuation option" where
  "cs_find_by_ref s r = (case map_of (cs_refs s) r of None \<Rightarrow> None
     | Some i \<Rightarrow> if i = [] then None else cs_load s i)"

definition cs_list_suspended :: "cont_store \<Rightarrow> continuation list" where
  "cs_list_suspended s = filter (\<lambda>c. c_status c = CSuspended) (dvals (cs_by_id s))"

definition cs_list_all :: "cont_store \<Rightarrow> continuation list" where
  "cs_list_all s = dvals (cs_by_id s)"

text \<open>\<open>max(matches, key=updated_at)\<close>: the first of the most recent.\<close>

fun most_recent :: "continuation list \<Rightarrow> continuation option" where
  "most_recent [] = None"
| "most_recent (c # cs) = (case most_recent cs of None \<Rightarrow> Some c
     | Some d \<Rightarrow> if c_updated c < c_updated d then Some d else Some c)"

definition cs_load_for_pid :: "cont_store \<Rightarrow> string \<Rightarrow> cont_status option \<Rightarrow> continuation option" where
  "cs_load_for_pid s p st = most_recent (filter (\<lambda>c. c_pid c = p \<and> (st = None \<or> st = Some (c_status c)))
     (dvals (cs_by_id s)))"

definition cs_load_latest_for_session :: "cont_store \<Rightarrow> string \<Rightarrow> cont_status option \<Rightarrow> continuation option" where
  "cs_load_latest_for_session s i st =
     most_recent (filter (\<lambda>c. c_session c = Some i \<and> (st = None \<or> st = Some (c_status c))) (dvals (cs_by_id s)))"

definition cs_ok :: "cont_store \<Rightarrow> bool" where
  "cs_ok s = keyed c_id (cs_by_id s)"

lemma touch_simps [simp]:
  "c_id (touch now c) = c_id c" "c_status (touch now c) = c_status c" "c_pending (touch now c) = c_pending c"
  "c_messages (touch now c) = c_messages c" "c_step (touch now c) = c_step c" "c_pid (touch now c) = c_pid c"
  "c_updated (touch now c) = now" "c_output (touch now c) = c_output c" "c_epoch (touch now c) = c_epoch c"
  "c_source (touch now c) = c_source c" "c_tenant (touch now c) = c_tenant c" "c_error (touch now c) = c_error c"
  "c_max_turns (touch now c) = c_max_turns c"
  by (simp_all add: touch_def)

interpretation conts: keyed_store c_id "touch now" empty_conts "cs_save now" cs_load cs_delete cs_list_all cs_ok
  for now
proof (unfold_locales, goal_cases)
  case (9 s k r)
  then show ?case unfolding cs_ok_def cs_load_def by (rule keyed_lookup)
next
  case (10 s r)
  then show ?case unfolding cs_ok_def cs_load_def cs_list_all_def by (rule keyed_vals)
next
  case (11 s)
  then show ?case unfolding cs_ok_def cs_list_all_def by (rule keyed_vals_distinct)
qed (auto simp: cs_ok_def empty_conts_def cs_save_def cs_load_def cs_delete_def intro!: keyed_dset keyed_dpop)

lemma cs_ref_of_save [simp]: "cs_refs (cs_save now c s) = cs_refs s"
  by (simp add: cs_save_def)

lemma cs_load_index [simp]: "cs_load (cs_index_ref r i s) j = cs_load s j"
  by (simp add: cs_load_def cs_index_ref_def)

lemma cs_load_save [simp]: "cs_load (cs_save now c s) j = (if j = c_id c then Some (touch now c) else cs_load s j)"
  by (simp add: cs_load_def cs_save_def)

lemma cs_refs_index [simp]: "map_of (cs_refs (cs_index_ref r i s)) q = (if q = r then Some i else map_of (cs_refs s) q)"
  by (simp add: cs_index_ref_def)

lemma cs_ok_save [inv_intros]: "cs_ok s \<Longrightarrow> cs_ok (cs_save now c s)"
  by (rule conts.invar_save)

lemma cs_ok_index [inv_intros]: "cs_ok s \<Longrightarrow> cs_ok (cs_index_ref r i s)"
  by (simp add: cs_ok_def cs_index_ref_def)

text \<open>Deleting a continuation leaves no alias that points to it.\<close>

lemma deleted_unreachable: "cs_find_by_ref (snd (cs_delete i s)) r \<noteq> Some c \<or> c_id c \<noteq> i \<or> \<not> cs_ok s"
proof (rule ccontr)
  assume "\<not> (cs_find_by_ref (snd (cs_delete i s)) r \<noteq> Some c \<or> c_id c \<noteq> i \<or> \<not> cs_ok s)"
  then have "cs_find_by_ref (snd (cs_delete i s)) r = Some c" "c_id c = i" "cs_ok s" by auto
  then obtain j where "cs_load (snd (cs_delete i s)) j = Some c"
    by (auto simp: cs_find_by_ref_def split: option.splits if_splits)
  with \<open>cs_ok s\<close> \<open>c_id c = i\<close> conts.load_key [OF conts.invar_delete] conts.load_delete show False
    by (metis option.distinct(1))
qed

lemma most_recent_upper: "most_recent cs = Some d \<Longrightarrow> c \<in> set cs \<Longrightarrow> c_updated c \<le> c_updated d"
proof (induction cs arbitrary: d)
  case (Cons a cs)
  show ?case
  proof (cases "most_recent cs")
    case None
    with Cons.prems show ?thesis by (cases cs) (auto split: option.splits if_splits)
  next
    case (Some e)
    with Cons.prems Cons.IH [of e] show ?thesis by (auto split: if_splits)
  qed
qed simp

lemma most_recent_mem: "most_recent cs = Some d \<Longrightarrow> d \<in> set cs"
  by (induction cs arbitrary: d) (auto split: option.splits if_splits)

lemma most_recent_None: "most_recent cs = None \<longleftrightarrow> cs = []"
  by (cases cs) (auto split: option.splits)

end
