(* ===== verification/Shaping.thy ===== *)
theory Shaping
  imports Continuation
begin

text \<open>
  Message shaping (\<open>src/src/runtime/shaping.py\<close>): the opening messages, the assistant turn and the
  tool results in the dialects of the three kinds of provider, and the reduction of a history to
  its text turns.  \<open>json_dumps\<close> is Python's with its default separators; a character beyond ASCII
  is written as its escape.
\<close>

subsection \<open>JSON text\<close>

definition hex_char :: "nat \<Rightarrow> char" where
  "hex_char n = (if n < 10 then char_of (48 + n) else char_of (87 + n))"

definition json_char :: "char \<Rightarrow> string" where
  "json_char c =
     (let n = of_char c :: nat; bs = CHR 0x5C
      in if n = 34 \<or> n = 92 then [bs, c]
         else if n = 10 then [bs, CHR ''n''] else if n = 13 then [bs, CHR ''r''] else if n = 9 then [bs, CHR ''t'']
         else if n = 8 then [bs, CHR ''b''] else if n = 12 then [bs, CHR ''f'']
         else if n < 32 \<or> 126 < n \<and> n \<noteq> 127 then [bs, CHR ''u'', CHR ''0'', CHR ''0'', hex_char (n div 16), hex_char (n mod 16)]
         else [c])"

definition json_str :: "string \<Rightarrow> string" where
  "json_str s = CHR 0x22 # concat (map json_char s) @ [CHR 0x22]"

primrec json_dumps :: "pyval \<Rightarrow> string"
  and json_list :: "pyval list \<Rightarrow> string list"
  and json_items :: "(string \<times> pyval) list \<Rightarrow> string list"
  and json_item :: "string \<times> pyval \<Rightarrow> string" where
  "json_dumps PNone = ''null''"
| "json_dumps (PBool b) = (if b then ''true'' else ''false'')"
| "json_dumps (PInt i) = str_int i"
| "json_dumps (PFloat x) = str_float x"
| "json_dumps (PStr s) = json_str s"
| "json_dumps (PList xs) = ''['' @ joined '', '' (json_list xs) @ '']''"
| "json_dumps (PDict d) = ''{'' @ joined '', '' (json_items d) @ ''}''"
| "json_list [] = []"
| "json_list (x # xs) = json_dumps x # json_list xs"
| "json_items [] = []"
| "json_items (p # d) = json_item p # json_items d"
| "json_item (k, v) = json_str k @ '': '' @ json_dumps v"

subsection \<open>Providers\<close>

datatype kind = Anthropic | OpenAI | Vertex

definition openai_model_prefixes :: "string list" where
  "openai_model_prefixes = [''gpt-'', ''o1-'', ''o3-'', ''deepseek-'', ''qwen-'', ''nemotron'', ''nvidia/'']"

definition openai_providers :: "string list" where
  "openai_providers = [''openai'', ''atlas'', ''vllm'']"

definition provider_kind :: "string \<Rightarrow> string \<Rightarrow> kind" where
  "provider_kind provider model =
     (if provider = ''vertex'' then Vertex
      else if provider \<in> set openai_providers \<or> list_ex (\<lambda>p. starts_with p model) openai_model_prefixes then OpenAI
      else Anthropic)"

subsection \<open>Text of a history\<close>

definition content_str :: "pyval \<Rightarrow> string" where
  "content_str v = (case v of PDict _ \<Rightarrow> json_dumps v | _ \<Rightarrow> py_str v)"

definition newline :: char where
  "newline = CHR 0x0A"

definition block_text :: "pyval \<Rightarrow> string list" where
  "block_text b = (case b of
     PDict d \<Rightarrow> (case map_of d ''text'' of Some (PStr s) \<Rightarrow> [s] | _ \<Rightarrow> [])
   | PStr s \<Rightarrow> [s] | _ \<Rightarrow> [])"

definition text_of :: "pyval \<Rightarrow> string" where
  "text_of v = (case v of
     PStr s \<Rightarrow> strip s
   | PList bs \<Rightarrow> strip (joined [newline] (filter (\<lambda>p. p \<noteq> []) (concat (map block_text bs))))
   | _ \<Rightarrow> [])"

definition msg_get :: "pyval \<Rightarrow> string \<Rightarrow> pyval" where
  "msg_get m k = (case m of PDict d \<Rightarrow> dget_default d k PNone | _ \<Rightarrow> PNone)"

definition message :: "string \<Rightarrow> pyval \<Rightarrow> pyval" where
  "message role body = PDict [(''role'', PStr role), (''content'', body)]"

definition extract_chat_history :: "pyval list \<Rightarrow> pyval list" where
  "extract_chat_history ms = concat (map (\<lambda>m.
     case msg_get m ''role'' of
       PStr role \<Rightarrow>
         if role \<in> {''user'', ''assistant''} \<and> text_of (msg_get m ''content'') \<noteq> []
         then [message role (PStr (text_of (msg_get m ''content'')))] else []
     | _ \<Rightarrow> []) ms)"

subsection \<open>The opening messages\<close>

text \<open>\<open>s.replace("#", "").replace("```", "")\<close> on the first 2000 characters.\<close>

fun drop_fences :: "string \<Rightarrow> string" where
  "drop_fences (a # b # c # r) = (if a = CHR 0x60 \<and> b = CHR 0x60 \<and> c = CHR 0x60 then drop_fences r
     else a # drop_fences (b # c # r))"
| "drop_fences s = s"

definition sanitize_goal :: "string \<Rightarrow> string" where
  "sanitize_goal g = drop_fences (filter (\<lambda>c. c \<noteq> CHR ''#'') (take 2000 g))"

definition goal_prompt :: "string \<Rightarrow> string \<Rightarrow> string" where
  "goal_prompt system g = system @ [newline, newline] @ ''<agent-goal>'' @ [newline] @ sanitize_goal g @ [newline] @
     ''</agent-goal>'' @ [newline, newline] @
     ''When you believe the goal inside <agent-goal> is fully achieved, '' @
     ''end your response with exactly [GOAL_COMPLETE] on its own line. '' @
     ''If you need more iterations to reach the goal, do NOT include this marker.''"

definition shape_initial :: "string \<Rightarrow> pyval list \<Rightarrow> string \<Rightarrow> (string \<times> pyval) list \<Rightarrow> string option \<Rightarrow> pyval list" where
  "shape_initial system history prompt ctx goal =
     (let sys = (case goal of None \<Rightarrow> system | Some g \<Rightarrow> if g = [] then system else goal_prompt system g);
          keep = filter (\<lambda>m. case m of PDict d \<Rightarrow> ''role'' \<in> set (dkeys d) \<and> ''content'' \<in> set (dkeys d) | _ \<Rightarrow> False) history
      in (if sys \<noteq> [] then [message ''system'' (PStr sys)] else []) @
         map (\<lambda>m. PDict [(''role'', msg_get m ''role''), (''content'', msg_get m ''content'')]) keep @
         [message ''user'' (PStr (prompt @ (if ctx = [] then [] else [newline, newline] @ ''Context: '' @ json_dumps (PDict ctx))))])"

subsection \<open>The assistant turn\<close>

record llm_call =
  lc_id :: string
  lc_name :: string
  lc_input :: "(string \<times> pyval) list"

record llm_response =
  lr_text :: string
  lr_reasoning :: string
  lr_error :: "string option"
  lr_tokens :: int
  lr_input_tokens :: int
  lr_output_tokens :: int
  lr_calls :: "llm_call list"

definition text_part :: "string \<Rightarrow> pyval list" where
  "text_part s = (if s = [] then [] else [PDict [(''text'', PStr s)]])"

definition assistant_turn :: "kind \<Rightarrow> llm_response \<Rightarrow> pyval" where
  "assistant_turn k r =
     (case k of
        Vertex \<Rightarrow>
          (let parts = text_part (lr_text r) @
             map (\<lambda>c. PDict [(''functionCall'', PDict [(''name'', PStr (lc_name c)), (''args'', PDict (lc_input c))])]) (lr_calls r)
           in PDict [(''role'', PStr ''model''), (''parts'', PList (if parts = [] then [PDict [(''text'', PStr [])]] else parts))])
      | OpenAI \<Rightarrow>
          (let parts = (if lr_reasoning r = [] then [] else [''<think>'' @ [newline] @ lr_reasoning r @ [newline] @ ''</think>'']) @
             (if lr_text r = [] then [] else [lr_text r])
           in PDict ([(''role'', PStr ''assistant''),
                (''content'', if parts = [] then PNone else PStr (joined [newline, newline] parts)),
                (''tool_calls'', PList (map (\<lambda>c. PDict [(''id'', PStr (lc_id c)), (''type'', PStr ''function''),
                   (''function'', PDict [(''name'', PStr (lc_name c)), (''arguments'', PStr (json_dumps (PDict (lc_input c))))])])
                   (lr_calls r)))] @
                (if lr_reasoning r = [] then [] else [(''reasoning_content'', PStr (lr_reasoning r))])))
      | Anthropic \<Rightarrow>
          message ''assistant'' (PList (
            (if lr_text r = [] then [] else [PDict [(''type'', PStr ''text''), (''text'', PStr (lr_text r))]]) @
            map (\<lambda>c. PDict [(''type'', PStr ''tool_use''), (''id'', PStr (lc_id c)), (''name'', PStr (lc_name c)),
                            (''input'', PDict (lc_input c))]) (lr_calls r))))"

definition shape_assistant_turn :: "kind \<Rightarrow> llm_response \<Rightarrow> pyval list \<Rightarrow> pyval list" where
  "shape_assistant_turn k r ms = ms @ [assistant_turn k r]"

subsection \<open>Tool results\<close>

definition tool_result_messages :: "kind \<Rightarrow> tool_call list \<Rightarrow> pyval list" where
  "tool_result_messages k recs =
     (case k of
        Vertex \<Rightarrow> [PDict [(''role'', PStr ''user''), (''parts'', PList (map (\<lambda>r.
           PDict [(''functionResponse'', PDict [(''name'', PStr (tc_name r)),
              (''response'', PDict [(''content'', PStr (content_str (tc_result r)))])])]) recs))]]
      | OpenAI \<Rightarrow> map (\<lambda>r. PDict [(''role'', PStr ''tool''), (''tool_call_id'', PStr (tc_use_id r)),
           (''content'', PStr (content_str (tc_result r)))]) recs
      | Anthropic \<Rightarrow> [message ''user'' (PList (map (\<lambda>r. PDict [(''type'', PStr ''tool_result''),
           (''tool_use_id'', PStr (tc_use_id r)), (''content'', PStr (content_str (tc_result r))),
           (''is_error'', PBool (tc_is_error r))]) recs))])"

definition shape_tool_results :: "kind \<Rightarrow> tool_call list \<Rightarrow> pyval list \<Rightarrow> pyval list" where
  "shape_tool_results k recs ms = ms @ tool_result_messages k recs"

subsection \<open>What the calls and the results of a turn are keyed by\<close>

text \<open>The ids (names, for Vertex) a provider reads off an assistant turn, and off the messages that
  answer it.\<close>

definition pget :: "pyval \<Rightarrow> string list \<Rightarrow> pyval" where
  "pget v ks = fold (\<lambda>k v. msg_get v k) ks v"

definition plist :: "pyval \<Rightarrow> pyval list" where
  "plist v = (case v of PList xs \<Rightarrow> xs | _ \<Rightarrow> [])"

definition call_keys :: "kind \<Rightarrow> pyval \<Rightarrow> pyval list" where
  "call_keys k m =
     (case k of
        Vertex \<Rightarrow> map (\<lambda>p. pget p [''functionCall'', ''name'']) (filter (\<lambda>p. msg_get p ''functionCall'' \<noteq> PNone) (plist (msg_get m ''parts'')))
      | OpenAI \<Rightarrow> map (\<lambda>c. msg_get c ''id'') (plist (msg_get m ''tool_calls''))
      | Anthropic \<Rightarrow> map (\<lambda>b. msg_get b ''id'') (filter (\<lambda>b. msg_get b ''type'' = PStr ''tool_use'') (plist (msg_get m ''content''))))"

definition result_keys :: "kind \<Rightarrow> pyval list \<Rightarrow> pyval list" where
  "result_keys k ms =
     (case k of
        Vertex \<Rightarrow> concat (map (\<lambda>m. map (\<lambda>p. pget p [''functionResponse'', ''name'']) (plist (msg_get m ''parts''))) ms)
      | OpenAI \<Rightarrow> map (\<lambda>m. msg_get m ''tool_call_id'') ms
      | Anthropic \<Rightarrow> concat (map (\<lambda>m. map (\<lambda>b. msg_get b ''tool_use_id'') (plist (msg_get m ''content''))) ms))"

lemma msg_get_dict [simp]: "msg_get (PDict d) k = dget_default d k PNone"
  by (simp add: msg_get_def)

lemma plist_simps [simp]: "plist (PList xs) = xs"
  by (simp add: plist_def)

lemma dget_Cons [simp]: "dget_default ((k, v) # d) j w = (if j = k then v else dget_default d j w)"
  by (simp add: dget_default_def)

lemma dget_Nil [simp]: "dget_default [] j w = w"
  by (simp add: dget_default_def)

definition record_of :: "llm_call \<Rightarrow> tool_call" where
  "record_of c = new_call (lc_id c) (lc_name c) (lc_input c)"

text \<open>The records of a turn, whatever became of their status, result and references.\<close>

definition answers :: "llm_call list \<Rightarrow> tool_call list \<Rightarrow> bool" where
  "answers calls recs = (map tc_use_id recs = map lc_id calls \<and> map tc_name recs = map lc_name calls)"

lemma call_keys_turn:
  "call_keys k (assistant_turn k r) = map (\<lambda>c. PStr (if k = Vertex then lc_name c else lc_id c)) (lr_calls r)"
proof (cases k)
  case Vertex
  have "filter (\<lambda>p. msg_get p ''functionCall'' \<noteq> PNone) (text_part t) = []" for t
    by (simp add: text_part_def)
  then show ?thesis
    by (simp add: Vertex call_keys_def assistant_turn_def Let_def comp_def pget_def filter_map)
qed (simp_all add: call_keys_def assistant_turn_def message_def comp_def filter_map Let_def)

lemma result_keys_messages:
  "result_keys k (tool_result_messages k recs) = map (\<lambda>r. PStr (if k = Vertex then tc_name r else tc_use_id r)) recs"
  by (cases k) (simp_all add: result_keys_def tool_result_messages_def message_def comp_def pget_def)

lemma keys_match:
  assumes "answers (lr_calls r) recs"
  shows "result_keys k (tool_result_messages k recs) = call_keys k (assistant_turn k r)"
proof (cases "k = Vertex")
  case True
  with assms have "map (\<lambda>r. PStr (tc_name r)) recs = map (\<lambda>c. PStr (lc_name c)) (lr_calls r)"
    by (metis (no_types, lifting) answers_def comp_def map_map map_eq_conv)
  with True show ?thesis by (simp add: call_keys_turn result_keys_messages)
next
  case False
  with assms have "map (\<lambda>r. PStr (tc_use_id r)) recs = map (\<lambda>c. PStr (lc_id c)) (lr_calls r)"
    by (metis (no_types, lifting) answers_def comp_def map_map map_eq_conv)
  with False show ?thesis by (simp add: call_keys_turn result_keys_messages)
qed

end
