(* ===== verification/Budget.thy ===== *)
theory Budget
  imports Registry Rules
begin

text \<open>
  The budget manager of the kernel (\<open>BudgetManager\<close> in \<open>src/src/platform/kernel/_facade.py\<close>): the
  budget check and the two-phase reservation.  The usage enforcer is outside the repository: \<open>today\<close>
  is the cost it reports for a tenant (\<open>None\<close> where the call raises), and the costs it is told are
  the log \<open>recorded\<close>.  The ticket a reservation mints is an argument.
\<close>

record reservation =
  rv_agent :: string
  reserved_usd :: rat
  reserved_tokens :: int

record cost_record =
  cr_tenant :: string
  cr_agent :: string
  cr_usd :: rat
  cr_tokens :: int

record budget_state =
  reservations :: "(string, reservation) dict"
  reserved_by_agent :: "(string, rat) dict"
  recorded :: "cost_record list"

text \<open>The enforcer: the cost it reports per tenant, and whether it takes \<open>record_cost\<close>.\<close>

record enforcer =
  today_cost_of :: "string \<Rightarrow> rat option"
  takes_costs :: bool

definition empty_budgets :: budget_state where
  "empty_budgets = \<lparr>reservations = [], reserved_by_agent = [], recorded = []\<rparr>"

definition tenant_of :: "agent_def \<Rightarrow> string" where
  "tenant_of a = (case a_tenant a of None \<Rightarrow> ''default'' | Some t \<Rightarrow> t)"

definition or_zero :: "rat option \<Rightarrow> rat" where
  "or_zero x = (case x of None \<Rightarrow> 0 | Some y \<Rightarrow> y)"

definition today_cost :: "enforcer option \<Rightarrow> agent_def \<Rightarrow> rat" where
  "today_cost enf a = (case enf of None \<Rightarrow> 0 | Some e \<Rightarrow> or_zero (today_cost_of e (tenant_of a)))"

definition reserved_for :: "budget_state \<Rightarrow> string \<Rightarrow> rat" where
  "reserved_for b aid = dget_default (reserved_by_agent b) aid 0"

text \<open>A number that is present and not zero.\<close>

definition some_nonzero :: "rat option \<Rightarrow> bool" where
  "some_nonzero x = (x \<noteq> None \<and> x \<noteq> Some 0)"

definition check_budget :: "registry option \<Rightarrow> enforcer option \<Rightarrow> string \<Rightarrow> rat option \<Rightarrow>
    budget_state \<Rightarrow> decision" where
  "check_budget reg enf aid est b =
     (case reg of
        None \<Rightarrow> d_allow ''no registry; permissive default'' []
      | Some r \<Rightarrow>
        (case reg_get r aid of
           None \<Rightarrow> d_deny (''Agent '' @ aid @ '' not found'') []
         | Some a \<Rightarrow>
           (let daily = daily_usd (budgets_of a); per_task = per_task_usd (budgets_of a)
            in if some_nonzero per_task \<and> some_nonzero est \<and> or_zero per_task < or_zero est
               then d_deny (''Estimated cost $'' @ fmt2 (or_zero est) @ '' exceeds per-task limit $'' @
                       fmt2 (or_zero per_task))
                     [(''estimated_cost_usd'', PFloat (or_zero est)), (''per_task_usd'', PFloat (or_zero per_task))]
               else if some_nonzero daily \<and>
                    or_zero daily < today_cost enf a + reserved_for b aid + or_zero est
               then \<lparr>d_action = RateLimit,
                     d_reason = ''Daily budget exceeded: spent $'' @ fmt2 (today_cost enf a) @ '' + reserved $'' @
                       fmt2 (reserved_for b aid) @ '' + estimated $'' @ fmt2 (or_zero est) @ '' > $'' @
                       fmt2 (or_zero daily),
                     d_details = [(''today_cost_usd'', PFloat (today_cost enf a)),
                       (''reserved_usd'', PFloat (reserved_for b aid)),
                       (''estimated_cost_usd'', PFloat (or_zero est)), (''daily_usd'', PFloat (or_zero daily))]\<rparr>
               else d_allow ''within budget'' [])))"

definition reserve :: "registry option \<Rightarrow> enforcer option \<Rightarrow> string \<Rightarrow> string \<Rightarrow> rat option \<Rightarrow> int option \<Rightarrow>
    budget_state \<Rightarrow> (string option \<times> decision) \<times> budget_state" where
  "reserve reg enf fresh aid est toks b =
     (let d = check_budget reg enf aid est b
      in if d_action d \<noteq> Allow then ((None, d), b)
         else ((Some fresh, d_allow ''reserved'' [(''ticket'', PStr fresh), (''reserved_usd'', PFloat (or_zero est))]),
               b\<lparr>reservations := dset fresh \<lparr>rv_agent = aid, reserved_usd = or_zero est,
                    reserved_tokens = (case toks of None \<Rightarrow> 0 | Some n \<Rightarrow> n)\<rparr> (reservations b),
                 reserved_by_agent := dset aid (reserved_for b aid + or_zero est) (reserved_by_agent b)\<rparr>))"

text \<open>Taking a ticket off the books.\<close>

definition settle :: "string \<Rightarrow> reservation \<Rightarrow> budget_state \<Rightarrow> budget_state" where
  "settle ticket rv b = b\<lparr>reservations := dpop ticket (reservations b),
     reserved_by_agent := dset (rv_agent rv) (max 0 (reserved_for b (rv_agent rv) - reserved_usd rv))
       (reserved_by_agent b)\<rparr>"

definition record_actual :: "registry option \<Rightarrow> enforcer option \<Rightarrow> string \<Rightarrow> rat option \<Rightarrow> int option \<Rightarrow>
    budget_state \<Rightarrow> budget_state" where
  "record_actual reg enf aid actual toks b =
     (case (enf, actual) of
        (Some e, Some c) \<Rightarrow>
          if takes_costs e
          then b\<lparr>recorded := recorded b @ [\<lparr>
                   cr_tenant = (case reg of None \<Rightarrow> ''default''
                     | Some r \<Rightarrow> (case reg_get r aid of None \<Rightarrow> ''default'' | Some a \<Rightarrow> tenant_of a)),
                   cr_agent = aid, cr_usd = c, cr_tokens = (case toks of None \<Rightarrow> 0 | Some n \<Rightarrow> n)\<rparr>]\<rparr>
          else b
      | _ \<Rightarrow> b)"

definition commit :: "registry option \<Rightarrow> enforcer option \<Rightarrow> string \<Rightarrow> rat option \<Rightarrow> int option \<Rightarrow>
    budget_state \<Rightarrow> decision \<times> budget_state" where
  "commit reg enf ticket actual toks b =
     (case map_of (reservations b) ticket of
        None \<Rightarrow> (d_allow ''ticket unknown or already settled'' [(''ticket'', PStr ticket)], b)
      | Some rv \<Rightarrow>
          (d_allow ''committed'' [(''ticket'', PStr ticket), (''reserved_usd'', PFloat (reserved_usd rv)),
             (''actual_cost_usd'', PFloat (or_zero actual))],
           record_actual reg enf (rv_agent rv) actual toks (settle ticket rv b)))"

definition release :: "string \<Rightarrow> budget_state \<Rightarrow> decision \<times> budget_state" where
  "release ticket b =
     (case map_of (reservations b) ticket of
        None \<Rightarrow> (d_allow ''ticket unknown or already settled'' [(''ticket'', PStr ticket)], b)
      | Some rv \<Rightarrow>
          (d_allow ''released'' [(''ticket'', PStr ticket), (''reserved_usd'', PFloat (reserved_usd rv))],
           settle ticket rv b))"

subsection \<open>The books\<close>

text \<open>What is reserved for an agent, as the sum over its outstanding tickets.\<close>

definition outstanding :: "(string, reservation) dict \<Rightarrow> string \<Rightarrow> rat" where
  "outstanding d aid = (\<Sum>rv\<leftarrow>dvals d. if rv_agent rv = aid then reserved_usd rv else 0)"

definition books_ok :: "budget_state \<Rightarrow> bool" where
  "books_ok b \<longleftrightarrow> dict_ok (reservations b) \<and> (\<forall>rv \<in> set (dvals (reservations b)). 0 \<le> reserved_usd rv) \<and>
     (\<forall>aid. reserved_for b aid = outstanding (reservations b) aid)"

lemma outstanding_dset_fresh:
  "map_of d t = None \<Longrightarrow>
   outstanding (dset t rv d) aid = outstanding d aid + (if rv_agent rv = aid then reserved_usd rv else 0)"
  by (simp add: outstanding_def dkeys_dset_absent)

lemma outstanding_dpop:
  "dict_ok d \<Longrightarrow> map_of d t = Some rv \<Longrightarrow>
   outstanding d aid = (if rv_agent rv = aid then reserved_usd rv else 0) + outstanding (dpop t d) aid"
proof (induction d)
  case (Cons p d)
  show ?case
  proof (cases "fst p = t")
    case True
    with Cons.prems have "snd p = rv" and "t \<notin> set (dkeys d)" by (auto simp: dict_ok_def)
    with True show ?thesis
      by (cases p) (auto simp: outstanding_def delete_idem simp del: delete_conv)
  next
    case False
    with Cons show ?thesis by (cases p) (auto simp: outstanding_def dict_ok_def)
  qed
qed simp

lemma outstanding_nonneg:
  "\<forall>rv \<in> set (dvals d). 0 \<le> reserved_usd rv \<Longrightarrow> 0 \<le> outstanding d aid"
  by (induction d) (auto simp: outstanding_def)

lemma books_ok_empty [simp, inv_intros]: "books_ok empty_budgets"
  by (simp add: books_ok_def empty_budgets_def reserved_for_def outstanding_def)

lemma dvals_dpop_subset: "set (dvals (dpop k d)) \<subseteq> set (dvals d)"
  by (induction d) auto

lemma books_settle:
  assumes "books_ok b" and "map_of (reservations b) t = Some rv"
  shows "books_ok (settle t rv b) \<and>
    reserved_for (settle t rv b) aid = reserved_for b aid - (if rv_agent rv = aid then reserved_usd rv else 0)"
proof -
  from assms have ok: "dict_ok (reservations b)"
    and pos: "\<forall>v \<in> set (dvals (reservations b)). 0 \<le> reserved_usd v"
    and eq: "\<And>i. reserved_for b i = outstanding (reservations b) i" by (auto simp: books_ok_def)
  have pos': "\<forall>v \<in> set (dvals (dpop t (reservations b))). 0 \<le> reserved_usd v"
    using pos dvals_dpop_subset [of t "reservations b"] by blast
  have out: "outstanding (dpop t (reservations b)) i =
      reserved_for b i - (if rv_agent rv = i then reserved_usd rv else 0)" for i
    using outstanding_dpop [OF ok assms(2), of i] eq [of i] by simp
  have "0 \<le> reserved_for b (rv_agent rv) - reserved_usd rv"
    using outstanding_nonneg [OF pos', of "rv_agent rv"] out [of "rv_agent rv"] by simp
  then have res: "reserved_for (settle t rv b) i =
      reserved_for b i - (if rv_agent rv = i then reserved_usd rv else 0)" for i
    unfolding reserved_for_def settle_def by simp
  have "books_ok (settle t rv b)"
    unfolding books_ok_def res using ok pos' out by (simp add: settle_def)
  with res show ?thesis by blast
qed

lemma record_actual_simps [simp]:
  "reservations (record_actual reg enf aid c k b) = reservations b"
  "reserved_for (record_actual reg enf aid c k b) i = reserved_for b i"
  by (simp_all add: record_actual_def reserved_for_def split: option.split)

lemma books_record [simp]: "books_ok (record_actual reg enf aid c k b) = books_ok b"
  by (simp add: books_ok_def)

lemma books_commit [inv_intros]: "books_ok b \<Longrightarrow> books_ok (snd (commit reg enf t c k b))"
  by (auto simp: commit_def books_settle split: option.splits)

lemma books_release [inv_intros]: "books_ok b \<Longrightarrow> books_ok (snd (release t b))"
  by (auto simp: release_def books_settle split: option.splits)

lemma reserve_state:
  "snd (reserve reg enf fresh aid est k b) =
     (if d_action (check_budget reg enf aid est b) = Allow
      then b\<lparr>reservations := dset fresh \<lparr>rv_agent = aid, reserved_usd = or_zero est,
                    reserved_tokens = (case k of None \<Rightarrow> 0 | Some n \<Rightarrow> n)\<rparr> (reservations b),
             reserved_by_agent := dset aid (reserved_for b aid + or_zero est) (reserved_by_agent b)\<rparr>
      else b)"
  by (simp add: reserve_def Let_def)

lemma reserved_for_reserve:
  "reserved_for (snd (reserve reg enf fresh aid est k b)) i =
     (if i = aid \<and> d_action (check_budget reg enf aid est b) = Allow
      then reserved_for b aid + or_zero est else reserved_for b i)"
  by (simp add: reserve_state reserved_for_def)

lemma books_reserve [inv_intros]:
  assumes "books_ok b" and "0 \<le> or_zero est" and "map_of (reservations b) fresh = None"
  shows "books_ok (snd (reserve reg enf fresh aid est k b))"
proof (cases "d_action (check_budget reg enf aid est b) = Allow")
  case True
  let ?rv = "\<lparr>rv_agent = aid, reserved_usd = or_zero est,
    reserved_tokens = (case k of None \<Rightarrow> 0 | Some n \<Rightarrow> n)\<rparr>"
  have rs: "reservations (snd (reserve reg enf fresh aid est k b)) = dset fresh ?rv (reservations b)"
    using True by (simp add: reserve_state)
  have "set (dvals (dset fresh ?rv (reservations b))) = insert ?rv (set (dvals (reservations b)))"
    by (simp add: dkeys_dset_absent [OF assms(3)])
  with assms True show ?thesis
    unfolding books_ok_def rs reserved_for_reserve outstanding_dset_fresh [OF assms(3)] by simp
next
  case False
  with assms show ?thesis by (simp add: reserve_state)
qed

text \<open>A reservation that is granted fits below the daily cap.\<close>

lemma check_budget_allow:
  assumes "d_action (check_budget (Some r) enf aid est b) = Allow"
    and "reg_get r aid = Some a" and "daily_usd (budgets_of a) = Some cap" and "cap \<noteq> 0"
  shows "today_cost enf a + reserved_for b aid + or_zero est \<le> cap"
  using assms
  by (auto simp: check_budget_def Let_def some_nonzero_def or_zero_def not_less split: if_splits)

subsection \<open>Histories\<close>

datatype budget_op =
    OpReserve string string "rat option" "int option"
  | OpCommit string "rat option" "int option"
  | OpRelease string

definition budget_step :: "registry option \<Rightarrow> enforcer option \<Rightarrow> budget_op \<Rightarrow> budget_state \<Rightarrow> budget_state" where
  "budget_step reg enf x b =
     (case x of
        OpReserve fresh aid est k \<Rightarrow> snd (reserve reg enf fresh aid est k b)
      | OpCommit t c k \<Rightarrow> snd (commit reg enf t c k b)
      | OpRelease t \<Rightarrow> snd (release t b))"

text \<open>Estimates are not negative and minted tickets are new.\<close>

definition sane_op :: "budget_op \<Rightarrow> budget_state \<Rightarrow> bool" where
  "sane_op x b = (case x of
     OpReserve fresh aid est k \<Rightarrow> 0 \<le> or_zero est \<and> map_of (reservations b) fresh = None | _ \<Rightarrow> True)"

fun sane_run :: "registry option \<Rightarrow> enforcer option \<Rightarrow> budget_op list \<Rightarrow> budget_state \<Rightarrow> bool" where
  "sane_run reg enf [] b = True"
| "sane_run reg enf (x # xs) b = (sane_op x b \<and> sane_run reg enf xs (budget_step reg enf x b))"

definition budget_run :: "registry option \<Rightarrow> enforcer option \<Rightarrow> budget_op list \<Rightarrow> budget_state \<Rightarrow> budget_state" where
  "budget_run reg enf xs b = fold (budget_step reg enf) xs b"

lemma books_step: "books_ok b \<Longrightarrow> sane_op x b \<Longrightarrow> books_ok (budget_step reg enf x b)"
  by (cases x) (auto simp: budget_step_def sane_op_def intro: inv_intros)

lemma books_run: "books_ok b \<Longrightarrow> sane_run reg enf xs b \<Longrightarrow> books_ok (budget_run reg enf xs b)"
  unfolding budget_run_def
  by (induction xs arbitrary: b) (auto simp: books_step)

lemma reserved_settle_le:
  assumes "books_ok b"
  shows "reserved_for (snd (commit reg enf t c k b)) i \<le> reserved_for b i"
    and "reserved_for (snd (release t b)) i \<le> reserved_for b i"
proof -
  have "reserved_for (settle t rv b) i \<le> reserved_for b i" if rv: "map_of (reservations b) t = Some rv" for rv
  proof -
    from assms rv have "0 \<le> reserved_usd rv"
      by (force simp: books_ok_def dest: map_of_SomeD)
    then show ?thesis using books_settle [OF assms rv, of i] by auto
  qed
  then show "reserved_for (snd (commit reg enf t c k b)) i \<le> reserved_for b i"
    and "reserved_for (snd (release t b)) i \<le> reserved_for b i"
    by (auto simp: commit_def release_def split: option.splits)
qed

lemma cap_step:
  assumes "books_ok b" and "reg_get r aid = Some a" and "daily_usd (budgets_of a) = Some cap" and "cap \<noteq> 0"
    and "reserved_for b aid = 0 \<or> today_cost enf a + reserved_for b aid \<le> cap"
    and nonneg: "\<And>b. books_ok b \<Longrightarrow> 0 \<le> reserved_for b aid"
    and "sane_op x b"
  shows "reserved_for (budget_step (Some r) enf x b) aid = 0 \<or>
    today_cost enf a + reserved_for (budget_step (Some r) enf x b) aid \<le> cap"
proof (cases x)
  case (OpReserve fresh i est k)
  with assms check_budget_allow [OF _ assms(2-4), of enf est b] show ?thesis
    by (auto simp: budget_step_def reserved_for_reserve)
next
  case (OpCommit t c k)
  with assms(5) reserved_settle_le(1) [OF assms(1), of "Some r" enf t c k aid]
    nonneg [OF books_commit [OF assms(1)], of "Some r" enf t c k] show ?thesis
    by (auto simp: budget_step_def)
next
  case (OpRelease t)
  with assms(5) reserved_settle_le(2) [OF assms(1), of t aid]
    nonneg [OF books_release [OF assms(1)], of t] show ?thesis
    by (auto simp: budget_step_def)
qed

lemma reserved_nonneg: "books_ok b \<Longrightarrow> 0 \<le> reserved_for b aid"
  by (simp add: books_ok_def outstanding_nonneg)

lemma cap_run:
  assumes "reg_get r aid = Some a" and "daily_usd (budgets_of a) = Some cap" and "cap \<noteq> 0"
  shows "books_ok b \<Longrightarrow> sane_run (Some r) enf xs b \<Longrightarrow>
    reserved_for b aid = 0 \<or> today_cost enf a + reserved_for b aid \<le> cap \<Longrightarrow>
    reserved_for (budget_run (Some r) enf xs b) aid = 0 \<or>
      today_cost enf a + reserved_for (budget_run (Some r) enf xs b) aid \<le> cap"
  unfolding budget_run_def
proof (induction xs arbitrary: b)
  case (Cons x xs)
  from Cons.prems have "sane_op x b" "sane_run (Some r) enf xs (budget_step (Some r) enf x b)" by simp_all
  with Cons.IH [OF books_step [OF Cons.prems(1)]]
    cap_step [OF Cons.prems(1) assms Cons.prems(3) reserved_nonneg] show ?case by simp
qed simp

lemma settled_once:
  "commit reg enf t c k (settle t rv b) = (d_allow ''ticket unknown or already settled'' [(''ticket'', PStr t)], settle t rv b)"
  "release t (settle t rv b) = (d_allow ''ticket unknown or already settled'' [(''ticket'', PStr t)], settle t rv b)"
  by (simp_all add: commit_def release_def settle_def)

lemma dpop_snoc_absent: "map_of d k = None \<Longrightarrow> dpop k (d @ [(k, v)]) = d"
  by (induction d) (auto split: if_splits)

subsection \<open>Properties\<close>

definition demo_budget_agent :: agent_def where
  "demo_budget_agent = \<lparr>a_id = ''a1'', a_name = ''ann'', a_namespace = ''ops'', a_stack = ''forgeos'',
     a_execution = AlwaysOn, a_ownership = Shared, a_owner = None, a_department = ''d'',
     a_tools = [], a_tenant = None, a_capabilities = None,
     a_boundaries = Some \<lparr>b_budgets = Some \<lparr>daily_usd = Some 10, per_task_usd = Some 7\<rparr>, b_data = None\<rparr>,
     a_governance = None, a_llm = default_llm, a_schedule = None, a_triggers = [], a_goal = None, a_prompt = [],
     a_description = [], a_config_path = [], a_metadata = []\<rparr>"

definition demo_budget_registry :: registry where
  "demo_budget_registry = \<lparr>r_agents = [(''a1'', demo_budget_agent)], r_statuses = []\<rparr>"

lemma demo_budget_check:
  "check_budget (Some demo_budget_registry) None ''a1'' est b =
    (if some_nonzero est \<and> 7 < or_zero est
     then d_deny (''Estimated cost $'' @ fmt2 (or_zero est) @ '' exceeds per-task limit $'' @ fmt2 7)
            [(''estimated_cost_usd'', PFloat (or_zero est)), (''per_task_usd'', PFloat 7)]
     else if 10 < reserved_for b ''a1'' + or_zero est
     then \<lparr>d_action = RateLimit,
           d_reason = ''Daily budget exceeded: spent $'' @ fmt2 0 @ '' + reserved $'' @
             fmt2 (reserved_for b ''a1'') @ '' + estimated $'' @ fmt2 (or_zero est) @ '' > $'' @ fmt2 10,
           d_details = [(''today_cost_usd'', PFloat 0), (''reserved_usd'', PFloat (reserved_for b ''a1'')),
             (''estimated_cost_usd'', PFloat (or_zero est)), (''daily_usd'', PFloat 10)]\<rparr>
     else d_allow ''within budget'' [])"
  by (simp add: check_budget_def reg_get_def demo_budget_registry_def demo_budget_agent_def budgets_of_def
      some_nonzero_def or_zero_def today_cost_def Let_def)



text \<open>Reservations close the race of concurrent calls: for a registered agent with a daily cap, under
  every history of reservations, commits and releases of all agents, the cost already spent today
  plus everything reserved for the agent stays within the cap, unless nothing is reserved.\<close>

theorem reservations_within_daily_cap:
  assumes "reg_get r aid = Some a" and "daily_usd (budgets_of a) = Some cap" and "cap \<noteq> 0"
    and "sane_run (Some r) enf xs empty_budgets"
  shows "let b = budget_run (Some r) enf xs empty_budgets
    in reserved_for b aid = 0 \<or> today_cost enf a + reserved_for b aid \<le> cap"
  unfolding Let_def
  by (rule cap_run [OF assms(1-3) books_ok_empty assms(4)])
    (simp add: reserved_for_def empty_budgets_def)

theorem reservations_within_daily_cap_witness:
  "reserved_for (budget_run (Some demo_budget_registry) None
      [OpReserve ''t1'' ''a1'' (Some 6) None, OpReserve ''t2'' ''a1'' (Some 5) None] empty_budgets) ''a1'' \<le> 10"
proof -
  have g: "reg_get demo_budget_registry ''a1'' = Some demo_budget_agent"
    by (simp add: demo_budget_registry_def reg_get_def)
  have d: "daily_usd (budgets_of demo_budget_agent) = Some 10"
    by (simp add: demo_budget_agent_def budgets_of_def)
  have "sane_run (Some demo_budget_registry) None
      [OpReserve ''t1'' ''a1'' (Some 6) None, OpReserve ''t2'' ''a1'' (Some 5) None] empty_budgets"
    by (simp add: sane_op_def or_zero_def empty_budgets_def budget_step_def reserve_state demo_budget_check
        reserved_for_def)
  from reservations_within_daily_cap [OF g d _ this] show ?thesis
    by (simp add: Let_def today_cost_def) linarith
qed

text \<open>Releasing a reservation undoes it, and a ticket is settled once: after a granted reservation
  with a new ticket, release restores the outstanding tickets and the amount reserved for every
  agent, and a second release or commit of the ticket changes nothing.\<close>

theorem reserve_release_roundtrip:
  assumes "books_ok b" and "map_of (reservations b) fresh = None" and "0 \<le> or_zero est"
    and "d_action (check_budget reg enf aid est b) = Allow"
  shows "let b' = snd (release fresh (snd (reserve reg enf fresh aid est k b)))
    in reservations b' = reservations b \<and> reserved_for b' i = reserved_for b i \<and>
      snd (release fresh b') = b' \<and> snd (commit reg enf fresh c k' b') = b'"
proof -
  let ?b1 = "snd (reserve reg enf fresh aid est k b)"
  let ?rv = "\<lparr>rv_agent = aid, reserved_usd = or_zero est,
    reserved_tokens = (case k of None \<Rightarrow> 0 | Some n \<Rightarrow> n)\<rparr>"
  have rs: "reservations ?b1 = reservations b @ [(fresh, ?rv)]"
    using assms(4) by (simp add: reserve_state dkeys_dset_absent [OF assms(2)])
  have rv: "map_of (reservations ?b1) fresh = Some ?rv"
    using assms(4) by (simp add: reserve_state)
  have b': "snd (release fresh ?b1) = settle fresh ?rv ?b1" by (simp add: release_def rv)
  have "dpop fresh (reservations b @ [(fresh, ?rv)]) = reservations b"
    using assms(2) by (rule dpop_snoc_absent)
  moreover have "reserved_for (settle fresh ?rv ?b1) i = reserved_for b i"
    using books_settle [OF books_reserve [OF assms(1,3,2), of reg enf aid k] rv, of i] assms(4)
    by (simp add: reserved_for_reserve)
  ultimately show ?thesis
    unfolding Let_def b' by (simp add: settled_once) (simp add: settle_def rs)
qed

theorem reserve_release_roundtrip_witness:
  "reserved_for (snd (release ''t'' (snd (reserve None None ''t'' ''a'' (Some 3) None empty_budgets)))) ''a'' = 0"
  using reserve_release_roundtrip [of empty_budgets "''t''" "Some 3" None None "''a''" None "''a''" None None]
  by (simp add: check_budget_def or_zero_def empty_budgets_def reserved_for_def Let_def
      books_ok_empty [unfolded empty_budgets_def])

end
