(* ===== verification/Capabilities.thy ===== *)
theory Capabilities
  imports Prelude
begin

text \<open>
  Capability tokens (\<open>src/src/platform/kernel/_capabilities.py\<close>, \<open>src/src/runtime/capability_store.py\<close>):
  the token and its checks, the token stores, and the manager that issues, revokes and
  authorizes.  The manager works over any store, so its operations take the store's operations as
  arguments; what they guarantee is proved once in the locale \<open>capability_store\<close> and holds for the
  in-memory and the SQLite store by interpretation.  The current time and the freshly
  minted handle are arguments.
\<close>

subsection \<open>Tokens\<close>

text \<open>\<open>expires_at\<close> as \<open>datetime.fromisoformat\<close> reads it: with a zone, without one (taken as UTC), or
  not a timestamp at all.\<close>

datatype stamp = Aware time | Naive time | Unparsable string

record cap_token =
  tok_id :: string
  subject :: string
  target :: string
  verb :: string
  issued_at :: time
  expires_at :: "stamp option"
  metadata :: "(string \<times> pyval) list"

definition is_expired :: "time \<Rightarrow> cap_token \<Rightarrow> bool" where
  "is_expired now t =
     (case expires_at t of
        None \<Rightarrow> False
      | Some (Unparsable s) \<Rightarrow> False
      | Some (Naive e) \<Rightarrow> e \<le> now
      | Some (Aware e) \<Rightarrow> e \<le> now)"

definition authorizes :: "time \<Rightarrow> string \<Rightarrow> string \<Rightarrow> string \<Rightarrow> cap_token \<Rightarrow> bool" where
  "authorizes now subj targ vb t =
     (if subject t \<noteq> subj then False
      else if target t \<noteq> targ \<and> target t \<noteq> ''*'' then False
      else if verb t \<noteq> ''*'' \<and> verb t \<noteq> vb then False
      else \<not> is_expired now t)"

subsection \<open>Stores\<close>

locale capability_store = keyed_store tok_id "\<lambda>t. t" empty_store save load delete list_recs invar
  for empty_store :: 's and save load delete list_recs invar +
  fixes list_for :: "'s \<Rightarrow> string \<Rightarrow> cap_token list"
  assumes list_for: "list_for s u = filter (\<lambda>t. subject t = u) (list_recs s)"

text \<open>The in-memory store.\<close>

type_synonym mem_caps = "(string, cap_token) dict"

definition mem_save :: "cap_token \<Rightarrow> mem_caps \<Rightarrow> mem_caps" where
  "mem_save t s = dset (tok_id t) t s"

definition mem_load :: "mem_caps \<Rightarrow> string \<Rightarrow> cap_token option" where
  "mem_load s k = map_of s k"

definition mem_delete :: "string \<Rightarrow> mem_caps \<Rightarrow> bool \<times> mem_caps" where
  "mem_delete k s = (map_of s k \<noteq> None, dpop k s)"

definition mem_list_for_subject :: "mem_caps \<Rightarrow> string \<Rightarrow> cap_token list" where
  "mem_list_for_subject s u = filter (\<lambda>t. subject t = u) (dvals s)"

definition mem_list_all :: "mem_caps \<Rightarrow> cap_token list" where
  "mem_list_all s = dvals s"

interpretation mem: capability_store "[]" mem_save mem_load mem_delete mem_list_all
  "keyed tok_id" mem_list_for_subject
proof -
  have "mem_save = (\<lambda>r d. dset (tok_id r) r d)" and "mem_load = map_of"
    and "mem_delete = (\<lambda>k d. (map_of d k \<noteq> None, dpop k d))" and "mem_list_all = dvals"
    by (simp_all add: fun_eq_iff mem_save_def mem_load_def mem_delete_def mem_list_all_def)
  note eqs = this
  have "keyed_store tok_id (\<lambda>t. t) [] mem_save mem_load mem_delete mem_list_all (keyed tok_id)"
    unfolding eqs by (rule keyed_dict_store) (rule refl)
  then show "capability_store [] mem_save mem_load mem_delete mem_list_all (keyed tok_id)
      mem_list_for_subject"
    by (simp add: capability_store_def capability_store_axioms_def
        mem_list_for_subject_def mem_list_all_def)
qed

text \<open>The SQLite store: a row holds the subject column and the serialized token.\<close>

record cap_row =
  row_subject :: string
  row_data :: "(string \<times> pyval) list"

fun stamp_json :: "stamp option \<Rightarrow> pyval" where
  "stamp_json None = PNone"
| "stamp_json (Some (Aware e)) = PDict [(''aware'', PInt e)]"
| "stamp_json (Some (Naive e)) = PDict [(''naive'', PInt e)]"
| "stamp_json (Some (Unparsable s)) = PStr s"

fun stamp_of_json :: "pyval \<Rightarrow> stamp option" where
  "stamp_of_json (PDict [(k, PInt e)]) = Some (if k = ''naive'' then Naive e else Aware e)"
| "stamp_of_json (PStr s) = Some (Unparsable s)"
| "stamp_of_json _ = None"

definition token_to_dict :: "cap_token \<Rightarrow> (string \<times> pyval) list" where
  "token_to_dict t = [(''id'', PStr (tok_id t)), (''subject'', PStr (subject t)),
     (''target'', PStr (target t)), (''verb'', PStr (verb t)), (''issued_at'', PInt (issued_at t)),
     (''expires_at'', stamp_json (expires_at t)), (''metadata'', PDict (metadata t))]"

definition str_field :: "(string \<times> pyval) list \<Rightarrow> string \<Rightarrow> string option" where
  "str_field d k = (case map_of d k of Some (PStr s) \<Rightarrow> Some s | _ \<Rightarrow> None)"

text \<open>\<open>CapabilityToken(**data)\<close>; \<open>None\<close> is the \<open>TypeError\<close> of a missing field.\<close>

definition token_of_dict :: "(string \<times> pyval) list \<Rightarrow> cap_token option" where
  "token_of_dict d =
     (case (str_field d ''id'', str_field d ''subject'', str_field d ''target'',
            str_field d ''verb'', map_of d ''issued_at'', map_of d ''metadata'') of
        (Some i, Some s, Some t, Some v, Some (PInt n), Some (PDict md)) \<Rightarrow>
          Some \<lparr>tok_id = i, subject = s, target = t, verb = v, issued_at = n,
                expires_at = (case map_of d ''expires_at'' of None \<Rightarrow> None | Some x \<Rightarrow> stamp_of_json x),
                metadata = md\<rparr>
      | _ \<Rightarrow> None)"

lemma token_roundtrip: "token_of_dict (token_to_dict t) = Some t"
proof -
  have "stamp_of_json (stamp_json e) = e" for e
    by (cases e rule: stamp_json.cases) simp_all
  then show ?thesis by (simp add: token_of_dict_def token_to_dict_def str_field_def)
qed

type_synonym sqlite_caps = "(string, cap_row) dict"

definition sql_save :: "cap_token \<Rightarrow> sqlite_caps \<Rightarrow> sqlite_caps" where
  "sql_save t s = dset (tok_id t) \<lparr>row_subject = subject t, row_data = token_to_dict t\<rparr> s"

definition sql_load :: "sqlite_caps \<Rightarrow> string \<Rightarrow> cap_token option" where
  "sql_load s k = (case map_of s k of None \<Rightarrow> None | Some r \<Rightarrow> token_of_dict (row_data r))"

definition sql_delete :: "string \<Rightarrow> sqlite_caps \<Rightarrow> bool \<times> sqlite_caps" where
  "sql_delete k s = (map_of s k \<noteq> None, dpop k s)"

definition sql_list_all :: "sqlite_caps \<Rightarrow> cap_token list option" where
  "sql_list_all s = those (map (\<lambda>r. token_of_dict (row_data r)) (dvals s))"

definition sql_list_for_subject :: "sqlite_caps \<Rightarrow> string \<Rightarrow> cap_token list option" where
  "sql_list_for_subject s u =
     those (map (\<lambda>r. token_of_dict (row_data r)) (filter (\<lambda>r. row_subject r = u) (dvals s)))"

text \<open>A well-formed file is the image of an in-memory store, row by row; the operations commute
  with that image.\<close>

definition row_of :: "cap_token \<Rightarrow> cap_row" where
  "row_of t = \<lparr>row_subject = subject t, row_data = token_to_dict t\<rparr>"

lemma row_of_simps [simp]:
  "row_subject (row_of t) = subject t" "token_of_dict (row_data (row_of t)) = Some t"
  by (simp_all add: row_of_def token_roundtrip)

definition sql_ok :: "sqlite_caps \<Rightarrow> bool" where
  "sql_ok s \<longleftrightarrow> (\<exists>d. keyed tok_id d \<and> s = dmap row_of d)"

lemma those_map_Some: "those (map (\<lambda>x. Some (f x)) xs) = Some (map f xs)"
  by (induction xs) auto

lemma sql_save_image: "sql_save t (dmap row_of d) = dmap row_of (mem_save t d)"
  by (simp add: sql_save_def mem_save_def row_of_def)

lemma sql_load_image: "sql_load (dmap row_of d) k = mem_load d k"
  by (simp add: sql_load_def mem_load_def split: option.splits)

lemma sql_delete_image:
  "sql_delete k (dmap row_of d) = (fst (mem_delete k d), dmap row_of (snd (mem_delete k d)))"
  by (simp add: sql_delete_def mem_delete_def)

lemma sql_list_image: "sql_list_all (dmap row_of d) = Some (mem_list_all d)"
  using those_map_Some [of "\<lambda>t. t" "dvals d"]
  by (simp add: sql_list_all_def mem_list_all_def comp_def)

lemma sql_list_for_image: "sql_list_for_subject (dmap row_of d) u = Some (mem_list_for_subject d u)"
proof -
  have "map (\<lambda>r. token_of_dict (row_data r)) (filter (\<lambda>r. row_subject r = u) (map row_of ts)) =
      map (\<lambda>t. Some t) (filter (\<lambda>t. subject t = u) ts)" for ts
    by (induction ts) auto
  from this [of "dvals d"] show ?thesis
    using those_map_Some [of "\<lambda>t. t" "filter (\<lambda>t. subject t = u) (dvals d)"]
    by (simp only: sql_list_for_subject_def mem_list_for_subject_def dvals_dmap map_ident)
qed

lemmas sql_images = sql_save_image sql_load_image sql_delete_image sql_list_image sql_list_for_image

interpretation sql: capability_store "[]" sql_save sql_load sql_delete
  "\<lambda>s. or_nil (sql_list_all s)" sql_ok "\<lambda>s u. filter (\<lambda>t. subject t = u) (or_nil (sql_list_all s))"
proof (unfold_locales, goal_cases)
  case 2
  show ?case unfolding sql_ok_def by (rule exI [of _ "[]"]) (simp add: dmap_def)
next
  case (4 s r)
  then obtain d where "keyed tok_id d" "s = dmap row_of d" unfolding sql_ok_def by blast
  then show ?case
    unfolding sql_ok_def by (intro exI [of _ "mem_save r d"] conjI mem.invar_save) (simp_all add: sql_save_image)
next
  case (5 s r k)
  then obtain d where "keyed tok_id d" "s = dmap row_of d" unfolding sql_ok_def by blast
  then show ?case by (simp add: sql_images mem.load_save)
next
  case (6 s k)
  then obtain d where "keyed tok_id d" "s = dmap row_of d" unfolding sql_ok_def by blast
  then show ?case
    unfolding sql_ok_def
    by (intro exI [of _ "snd (mem_delete k d)"] conjI mem.invar_delete) (simp_all add: sql_delete_image)
next
  case (7 s k k')
  then obtain d where "keyed tok_id d" "s = dmap row_of d" unfolding sql_ok_def by blast
  then show ?case by (simp add: sql_images mem.load_delete)
next
  case (8 s k)
  then obtain d where "keyed tok_id d" "s = dmap row_of d" unfolding sql_ok_def by blast
  then show ?case using mem.delete_found [of d k] by (simp add: sql_images)
next
  case (9 s k r)
  then obtain d where "keyed tok_id d" "s = dmap row_of d" unfolding sql_ok_def by blast
  with 9 show ?case using mem.load_key by (simp add: sql_images)
next
  case (10 s r)
  then obtain d where "keyed tok_id d" "s = dmap row_of d" unfolding sql_ok_def by blast
  then show ?case using mem.list_recs by (simp add: sql_images or_nil_def)
next
  case (11 s)
  then obtain d where "keyed tok_id d" "s = dmap row_of d" unfolding sql_ok_def by blast
  then show ?case using mem.list_distinct by (simp add: sql_images or_nil_def)
qed (simp_all add: sql_load_def)

subsection \<open>The manager\<close>

definition cap_issue :: "(cap_token \<Rightarrow> 's \<Rightarrow> 's) \<Rightarrow> time \<Rightarrow> string \<Rightarrow> string \<Rightarrow> string \<Rightarrow> string \<Rightarrow>
    int option \<Rightarrow> (string \<times> pyval) list \<Rightarrow> 's \<Rightarrow> cap_token \<times> 's" where
  "cap_issue save now fresh subj targ vb ttl md s =
     (let t = \<lparr>tok_id = fresh, subject = subj, target = targ, verb = vb, issued_at = now,
               expires_at = (case ttl of None \<Rightarrow> None
                             | Some d \<Rightarrow> if 0 < d then Some (Aware (now + d)) else None),
               metadata = md\<rparr>
      in (t, save t s))"

definition cap_revoke :: "(string \<Rightarrow> 's \<Rightarrow> bool \<times> 's) \<Rightarrow> string \<Rightarrow> 's \<Rightarrow> bool \<times> 's" where
  "cap_revoke delete k s = delete k s"

text \<open>The clock is read twice: for the expiry test, and again inside \<open>authorizes\<close>.\<close>

definition cap_authorize :: "('s \<Rightarrow> string \<Rightarrow> cap_token option) \<Rightarrow> (string \<Rightarrow> 's \<Rightarrow> bool \<times> 's) \<Rightarrow>
    time \<Rightarrow> time \<Rightarrow> string \<Rightarrow> string \<Rightarrow> string \<Rightarrow> string \<Rightarrow> 's \<Rightarrow> bool \<times> 's" where
  "cap_authorize load delete now now' k subj targ vb s =
     (case load s k of
        None \<Rightarrow> (False, s)
      | Some t \<Rightarrow> if is_expired now t then (False, snd (delete k s))
                  else (authorizes now' subj targ vb t, s))"

text \<open>\<open>list_for_subject\<close>: expired tokens are deleted on the way.\<close>

definition cap_list_for_subject :: "('s \<Rightarrow> string \<Rightarrow> cap_token list) \<Rightarrow> (string \<Rightarrow> 's \<Rightarrow> bool \<times> 's) \<Rightarrow>
    time \<Rightarrow> string \<Rightarrow> 's \<Rightarrow> cap_token list \<times> 's" where
  "cap_list_for_subject list_for delete now u s =
     fold (\<lambda>t (out, s). if is_expired now t then (out, snd (delete (tok_id t) s)) else (out @ [t], s))
       (list_for s u) ([], s)"

lemma is_expired_mono: "is_expired now t \<Longrightarrow> now \<le> now' \<Longrightarrow> is_expired now' t"
  by (auto simp: is_expired_def split: option.splits stamp.splits)

lemma authorizes_not_expired: "authorizes now subj targ vb t \<Longrightarrow> \<not> is_expired now t"
  by (simp add: authorizes_def split: if_splits)

context capability_store begin

lemma authorize_iff:
  "fst (cap_authorize load delete now now' k subj targ vb s) \<longleftrightarrow>
     (\<exists>t. load s k = Some t \<and> \<not> is_expired now t \<and> authorizes now' subj targ vb t)"
  by (auto simp: cap_authorize_def split: option.splits)

lemma authorize_keeps:
  "invar s \<Longrightarrow> load (snd (cap_authorize load delete now now' k subj targ vb s)) j =
     (if j = k \<and> (\<exists>t. load s k = Some t \<and> is_expired now t) then None else load s j)"
  by (auto simp: cap_authorize_def load_delete split: option.splits)

lemma invar_authorize:
  "invar s \<Longrightarrow> invar (snd (cap_authorize load delete now now' k subj targ vb s))"
  by (auto simp: cap_authorize_def invar_delete split: option.splits)

lemma revoked_denied:
  "invar s \<Longrightarrow> \<not> fst (cap_authorize load delete now now' k subj targ vb (snd (cap_revoke delete k s)))"
  by (simp add: authorize_iff cap_revoke_def load_delete)

lemma issue_load:
  assumes "invar s"
  shows "load (snd (cap_issue save now fresh subj targ vb ttl md s)) j =
    (if j = fresh then Some (fst (cap_issue save now fresh subj targ vb ttl md s)) else load s j)"
  using assms by (simp add: cap_issue_def Let_def load_save)

lemma issued_authorizes_iff:
  assumes "invar s" and "now1 \<le> now2"
  shows "fst (cap_authorize load delete now1 now2 fresh subj' targ' vb'
      (snd (cap_issue save now fresh subj targ vb ttl md s))) \<longleftrightarrow>
    subj' = subj \<and> (targ = targ' \<or> targ = ''*'') \<and> (vb = ''*'' \<or> vb = vb')
    \<and> (\<forall>d. ttl = Some d \<longrightarrow> 0 < d \<longrightarrow> now2 < now + d)"
proof -
  have "load (snd (cap_issue save now fresh subj targ vb ttl md s)) fresh =
      Some (fst (cap_issue save now fresh subj targ vb ttl md s))"
    by (simp add: issue_load [OF assms(1)])
  then have "fst (cap_authorize load delete now1 now2 fresh subj' targ' vb'
      (snd (cap_issue save now fresh subj targ vb ttl md s))) \<longleftrightarrow>
      \<not> is_expired now1 (fst (cap_issue save now fresh subj targ vb ttl md s))
      \<and> authorizes now2 subj' targ' vb' (fst (cap_issue save now fresh subj targ vb ttl md s))"
    by (simp only: authorize_iff option.inject ex_simps simp_thms)
  also have "\<dots> \<longleftrightarrow> subj' = subj \<and> (targ = targ' \<or> targ = ''*'') \<and> (vb = ''*'' \<or> vb = vb')
      \<and> (\<forall>d. ttl = Some d \<longrightarrow> 0 < d \<longrightarrow> now2 < now + d)"
    using assms(2) by (cases ttl) (auto simp: cap_issue_def authorizes_def is_expired_def Let_def)
  finally show ?thesis .
qed

lemma purge_fold:
  assumes "invar s"
  shows "fst (fold (\<lambda>t (out, s). if is_expired now t then (out, snd (delete (tok_id t) s))
        else (out @ [t], s)) ts (acc, s)) = acc @ filter (\<lambda>t. \<not> is_expired now t) ts
    \<and> invar (snd (fold (\<lambda>t (out, s). if is_expired now t then (out, snd (delete (tok_id t) s))
        else (out @ [t], s)) ts (acc, s)))
    \<and> load (snd (fold (\<lambda>t (out, s). if is_expired now t then (out, snd (delete (tok_id t) s))
        else (out @ [t], s)) ts (acc, s))) j =
      (if \<exists>t \<in> set ts. tok_id t = j \<and> is_expired now t then None else load s j)"
  using assms
  by (induction ts arbitrary: acc s) (auto simp: invar_delete load_delete)

lemma list_for_subject_result:
  assumes "invar s"
  shows "fst (cap_list_for_subject list_for delete now u s) =
      filter (\<lambda>t. \<not> is_expired now t) (list_for s u)"
    and "invar (snd (cap_list_for_subject list_for delete now u s))"
    and "load (snd (cap_list_for_subject list_for delete now u s)) j =
      (case load s j of None \<Rightarrow> None
       | Some t \<Rightarrow> if subject t = u \<and> is_expired now t then None else Some t)"
proof -
  note pf = purge_fold [OF assms, of now "list_for s u" "[]"]
  show "fst (cap_list_for_subject list_for delete now u s) =
      filter (\<lambda>t. \<not> is_expired now t) (list_for s u)"
    and "invar (snd (cap_list_for_subject list_for delete now u s))"
    using pf by (simp_all add: cap_list_for_subject_def)
  have "(\<exists>t \<in> set (list_for s u). tok_id t = j \<and> is_expired now t) \<longleftrightarrow>
      (\<exists>t. load s j = Some t \<and> subject t = u \<and> is_expired now t)"
  proof
    assume "\<exists>t \<in> set (list_for s u). tok_id t = j \<and> is_expired now t"
    then obtain t where "t \<in> set (list_recs s)" "subject t = u" "tok_id t = j" "is_expired now t"
      by (auto simp: list_for)
    then show "\<exists>t. load s j = Some t \<and> subject t = u \<and> is_expired now t"
      using list_recs [OF assms, of t] by blast
  next
    assume "\<exists>t. load s j = Some t \<and> subject t = u \<and> is_expired now t"
    then obtain t where t: "load s j = Some t" "subject t = u" "is_expired now t" by blast
    from load_key [OF assms t(1)] have "tok_id t = j" .
    with t show "\<exists>t \<in> set (list_for s u). tok_id t = j \<and> is_expired now t"
      using list_recs [OF assms, of t] by (auto simp: list_for)
  qed
  then show "load (snd (cap_list_for_subject list_for delete now u s)) j =
      (case load s j of None \<Rightarrow> None
       | Some t \<Rightarrow> if subject t = u \<and> is_expired now t then None else Some t)"
    using pf [of j] by (auto simp: cap_list_for_subject_def split: option.splits)
qed

end

subsection \<open>Histories\<close>

text \<open>The requests a manager serves, each with the clock readings and the handle it uses.\<close>

datatype cap_op =
    Issue time string string string string "int option" "(string \<times> pyval) list"
  | Revoke string
  | Authorize time time string string string string
  | ListFor time string

datatype cap_out = Issued cap_token | Revoked bool | Authorized bool | Listed "cap_token list"

definition cap_step :: "(cap_token \<Rightarrow> 's \<Rightarrow> 's) \<Rightarrow> ('s \<Rightarrow> string \<Rightarrow> cap_token option) \<Rightarrow>
    (string \<Rightarrow> 's \<Rightarrow> bool \<times> 's) \<Rightarrow> ('s \<Rightarrow> string \<Rightarrow> cap_token list) \<Rightarrow> cap_op \<Rightarrow> 's \<Rightarrow> cap_out \<times> 's" where
  "cap_step save load delete list_for a s =
     (case a of
        Issue now fresh subj targ vb ttl md \<Rightarrow>
          apfst Issued (cap_issue save now fresh subj targ vb ttl md s)
      | Revoke k \<Rightarrow> apfst Revoked (cap_revoke delete k s)
      | Authorize now now' k subj targ vb \<Rightarrow>
          apfst Authorized (cap_authorize load delete now now' k subj targ vb s)
      | ListFor now u \<Rightarrow> apfst Listed (cap_list_for_subject list_for delete now u s))"

fun cap_run :: "(cap_op \<Rightarrow> 's \<Rightarrow> cap_out \<times> 's) \<Rightarrow> cap_op list \<Rightarrow> 's \<Rightarrow> cap_out list \<times> 's" where
  "cap_run f [] s = ([], s)"
| "cap_run f (a # as) s =
     (case f a s of (out, s') \<Rightarrow> case cap_run f as s' of (outs, s'') \<Rightarrow> (out # outs, s''))"

definition mem_step :: "cap_op \<Rightarrow> mem_caps \<Rightarrow> cap_out \<times> mem_caps" where
  "mem_step = cap_step mem_save mem_load mem_delete mem_list_for_subject"

definition sql_step :: "cap_op \<Rightarrow> sqlite_caps \<Rightarrow> cap_out \<times> sqlite_caps" where
  "sql_step = cap_step sql_save sql_load sql_delete (\<lambda>s u. or_nil (sql_list_for_subject s u))"

definition issues :: "string \<Rightarrow> cap_op \<Rightarrow> bool" where
  "issues k a = (case a of Issue _ fresh _ _ _ _ _ \<Rightarrow> fresh = k | _ \<Rightarrow> False)"

context capability_store begin

lemma invar_step: "invar s \<Longrightarrow> invar (snd (cap_step save load delete list_for a s))"
  by (cases a) (auto simp: cap_step_def cap_issue_def cap_revoke_def Let_def invar_save
      invar_delete invar_authorize list_for_subject_result)

lemma absent_step:
  assumes "invar s" and "load s k = None" and "\<not> issues k a"
  shows "load (snd (cap_step save load delete list_for a s)) k = None"
  using assms by (cases a) (auto simp: cap_step_def issues_def issue_load cap_revoke_def load_delete
      authorize_keeps list_for_subject_result)

lemma invar_run: "invar s \<Longrightarrow> invar (snd (cap_run (cap_step save load delete list_for) as s))"
proof (induction as arbitrary: s)
  case (Cons a as)
  from Cons.IH [OF invar_step [OF Cons.prems, of a]] show ?case by (simp add: case_prod_beta)
qed simp

lemma absent_run:
  "invar s \<Longrightarrow> load s k = None \<Longrightarrow> list_all (\<lambda>a. \<not> issues k a) as \<Longrightarrow>
   load (snd (cap_run (cap_step save load delete list_for) as s)) k = None"
proof (induction as arbitrary: s)
  case (Cons a as)
  with Cons.IH [OF invar_step [of s a]] absent_step [of s k a] show ?case
    by (simp add: case_prod_beta)
qed simp

lemma absent_denied:
  "load s k = None \<Longrightarrow> \<not> fst (cap_authorize load delete now now' k subj targ vb s)"
  by (simp add: authorize_iff)

lemma revoked_forever:
  assumes "invar s" and "list_all (\<lambda>a. \<not> issues k a) as"
  shows "\<not> fst (cap_authorize load delete now now' k subj targ vb
      (snd (cap_run (cap_step save load delete list_for) (Revoke k # as) s)))"
proof (rule absent_denied)
  show "load (snd (cap_run (cap_step save load delete list_for) (Revoke k # as) s)) k = None"
    using assms absent_run [of "snd (delete k s)" k as]
    by (simp add: case_prod_beta cap_step_def cap_revoke_def load_delete invar_delete)
qed

end

lemma purge_image:
  "fold (\<lambda>t (out, s). if is_expired now t then (out, snd (sql_delete (tok_id t) s)) else (out @ [t], s))
     ts (acc, dmap row_of d) =
   apsnd (dmap row_of)
    (fold (\<lambda>t (out, s). if is_expired now t then (out, snd (mem_delete (tok_id t) s)) else (out @ [t], s))
     ts (acc, d))"
  by (induction ts arbitrary: acc d) (simp_all add: sql_images)

lemma sql_step_image: "sql_step a (dmap row_of d) = apsnd (dmap row_of) (mem_step a d)"
proof (cases a)
  case (Authorize now now' k subj targ vb)
  then show ?thesis
    by (simp add: sql_step_def mem_step_def cap_step_def cap_authorize_def sql_images
        split: option.splits)
next
  case (ListFor now u)
  then show ?thesis
    by (simp add: sql_step_def mem_step_def cap_step_def cap_list_for_subject_def sql_images
        or_nil_def purge_image apfst_def apsnd_def map_prod_def case_prod_beta)
qed (simp_all add: sql_step_def mem_step_def cap_step_def cap_issue_def cap_revoke_def Let_def sql_images)

lemma sql_run_image: "cap_run sql_step as (dmap row_of d) = apsnd (dmap row_of) (cap_run mem_step as d)"
  by (induction as arbitrary: d) (simp_all add: sql_step_image case_prod_beta)

subsection \<open>Properties\<close>

text \<open>A token that the manager has just issued authorizes a request exactly when the subject is
  the one it was issued to, the target and the verb are the ones granted or the grant is a
  wildcard, and its lifetime, if it was issued with a positive one, has not elapsed.  It holds
  whatever requests were served before, on the in-memory store.\<close>

theorem issued_token_authorizes_exactly:
  assumes "now1 \<le> now2"
  shows "fst (cap_authorize mem_load mem_delete now1 now2 fresh subj' targ' vb'
      (snd (cap_run mem_step (before @ [Issue now fresh subj targ vb ttl md]) []))) \<longleftrightarrow>
    subj' = subj \<and> (targ = targ' \<or> targ = ''*'') \<and> (vb = ''*'' \<or> vb = vb')
    \<and> (case ttl of None \<Rightarrow> True | Some d \<Rightarrow> d \<le> 0 \<or> now2 < now + d)"
proof -
  define s where "s = snd (cap_run mem_step before [])"
  have run: "snd (cap_run f (xs @ [a]) s) = snd (f a (snd (cap_run f xs s)))" for f xs a and s :: mem_caps
    by (induction xs arbitrary: s) (simp_all add: case_prod_beta)
  have "keyed tok_id s"
    unfolding s_def mem_step_def by (rule mem.invar_run) simp
  from mem.issued_authorizes_iff [OF this assms, of fresh subj' targ' vb' now subj targ vb ttl md]
  show ?thesis
    unfolding run s_def [symmetric]
    by (cases ttl) (auto simp: mem_step_def cap_step_def)
qed

theorem issued_token_authorizes_exactly_witness:
  "fst (cap_authorize mem_load mem_delete 5 6 ''t1'' ''pid1'' ''ops/a'' ''delegate''
      (snd (cap_run mem_step ([Revoke ''t0''] @ [Issue 0 ''t1'' ''pid1'' ''ops/a'' ''*'' (Some 10) []]) [])))"
  by (subst issued_token_authorizes_exactly) simp_all

text \<open>Revocation is final: once a token is revoked, no later sequence of issues of other handles,
  revocations, authorizations and listings makes it authorize anything again.\<close>

theorem revoked_token_never_authorizes:
  assumes "list_all (\<lambda>a. \<not> issues k a) later"
  shows "\<not> fst (cap_authorize mem_load mem_delete now now' k subj targ vb
      (snd (cap_run mem_step (before @ Revoke k # later) [])))"
proof -
  have app: "snd (cap_run f (xs @ ys) s) = snd (cap_run f ys (snd (cap_run f xs s)))"
    for f xs ys and s :: mem_caps
    by (induction xs arbitrary: s) (simp_all add: case_prod_beta)
  have "keyed tok_id (snd (cap_run mem_step before []))"
    unfolding mem_step_def by (rule mem.invar_run) simp
  from mem.revoked_forever [OF this assms] show ?thesis
    unfolding app unfolding mem_step_def .
qed

theorem revoked_token_never_authorizes_witness:
  "\<not> fst (cap_authorize mem_load mem_delete 1 1 ''t1'' ''p'' ''x'' ''v''
      (snd (cap_run mem_step ([Issue 0 ''t1'' ''p'' ''x'' ''v'' None []] @ Revoke ''t1''
        # [Issue 0 ''t2'' ''p'' ''x'' ''v'' None [], ListFor 1 ''p'']) [])))"
  by (rule revoked_token_never_authorizes) (simp add: issues_def)

text \<open>The durable SQLite store is interchangeable with the in-memory one: from empty stores every
  sequence of requests to the manager gives the same answers on both, and the file ends up holding
  exactly the rows of the tokens in memory.\<close>

theorem sqlite_manager_refines_memory:
  "cap_run sql_step as [] = apsnd (dmap row_of) (cap_run mem_step as [])"
  using sql_run_image [of as "[]"] by (simp add: dmap_def)

end
