(* ===== verification/AuditTrail.thy ===== *)
theory AuditTrail
  imports Pyrt
begin

text \<open>
  The audit log (\<open>src/src/platform/audit.py\<close>) without a database: a hash chain over a bounded
  buffer.  \<open>digest\<close> stands for the SHA-256 of the canonical JSON body; nothing is assumed of it
  unless a theorem says so.  Identifiers and creation times are arguments.
\<close>

type_synonym body = "(string \<times> pyval) list"

text \<open>\<open>_canonical_audit_body\<close>, before it is serialized.\<close>

definition canonical_audit_body :: "string \<Rightarrow> string \<Rightarrow> string \<Rightarrow> string \<Rightarrow> string \<Rightarrow> string \<Rightarrow> string \<Rightarrow>
    (string \<times> pyval) list \<Rightarrow> time \<Rightarrow> string \<Rightarrow> body" where
  "canonical_audit_body i ten actr actn rtype rid outc dets created prev =
     [(''id'', PStr i), (''tenant_id'', PStr ten), (''actor'', PStr actr), (''action'', PStr actn),
      (''resource_type'', PStr rtype), (''resource_id'', PStr rid), (''outcome'', PStr outc),
      (''details'', PDict dets), (''created_at'', PInt created), (''prev_hash'', PStr prev)]"

record audit_entry =
  ae_id :: string
  ae_tenant :: string
  ae_actor :: string
  ae_action :: string
  ae_rtype :: string
  ae_rid :: string
  ae_outcome :: string
  ae_details :: "(string \<times> pyval) list"
  ae_created :: time
  ae_prev :: string
  ae_hash :: string

definition genesis_hash :: string where
  "genesis_hash = replicate 64 (CHR ''0'')"

definition entry_body :: "audit_entry \<Rightarrow> body" where
  "entry_body e = canonical_audit_body (ae_id e) (ae_tenant e) (ae_actor e) (ae_action e) (ae_rtype e)
     (ae_rid e) (ae_outcome e) (ae_details e) (ae_created e) (ae_prev e)"

definition compute_entry_hash :: "(body \<Rightarrow> string) \<Rightarrow> audit_entry \<Rightarrow> string" where
  "compute_entry_hash digest e = digest (entry_body e)"

definition finalize_hash :: "(body \<Rightarrow> string) \<Rightarrow> audit_entry \<Rightarrow> audit_entry" where
  "finalize_hash digest e = e\<lparr>ae_hash := compute_entry_hash digest e\<rparr>"

record audit_log =
  al_tenant :: string
  al_memory :: "audit_entry list"
  al_last :: string

definition max_in_memory :: nat where
  "max_in_memory = 1000"

definition empty_audit :: "string \<Rightarrow> audit_log" where
  "empty_audit ten = \<lparr>al_tenant = ten, al_memory = [], al_last = genesis_hash\<rparr>"

text \<open>Appending to \<open>deque(maxlen=n)\<close>.\<close>

definition push_bounded :: "nat \<Rightarrow> 'a \<Rightarrow> 'a list \<Rightarrow> 'a list" where
  "push_bounded n x xs = drop (Suc (length xs) - n) (xs @ [x])"

definition audit_record :: "(body \<Rightarrow> string) \<Rightarrow> string \<Rightarrow> time \<Rightarrow> string \<Rightarrow> string \<Rightarrow> string \<Rightarrow> string \<Rightarrow> string \<Rightarrow>
    (string \<times> pyval) list \<Rightarrow> audit_log \<Rightarrow> audit_entry \<times> audit_log" where
  "audit_record digest fresh now actn actr rtype rid outc dets l =
     (let e = finalize_hash digest
            \<lparr>ae_id = fresh, ae_tenant = al_tenant l, ae_actor = (if actr = [] then ''system'' else actr),
             ae_action = actn, ae_rtype = rtype, ae_rid = rid, ae_outcome = outc, ae_details = dets,
             ae_created = now, ae_prev = al_last l, ae_hash = []\<rparr>
      in (e, l\<lparr>al_last := ae_hash e, al_memory := push_bounded max_in_memory e (al_memory l)\<rparr>))"

text \<open>The call with keyword arguments, as Python binds them: an unknown keyword is a \<open>TypeError\<close>.\<close>

definition audit_keywords :: "string list" where
  "audit_keywords = [''actor'', ''resource_type'', ''resource_id'', ''outcome'', ''details'']"

definition kw_str :: "(string \<times> pyval) list \<Rightarrow> string \<Rightarrow> string \<Rightarrow> string" where
  "kw_str kw k dflt = (case map_of kw k of Some (PStr s) \<Rightarrow> s | _ \<Rightarrow> dflt)"

definition kw_dict :: "(string \<times> pyval) list \<Rightarrow> string \<Rightarrow> (string \<times> pyval) list" where
  "kw_dict kw k = (case map_of kw k of Some (PDict d) \<Rightarrow> d | _ \<Rightarrow> [])"

definition audit_record_kw :: "(body \<Rightarrow> string) \<Rightarrow> string \<Rightarrow> time \<Rightarrow> string \<Rightarrow> (string \<times> pyval) list \<Rightarrow>
    audit_log \<Rightarrow> audit_log res" where
  "audit_record_kw digest fresh now actn kw l =
     (if \<not> list_all (\<lambda>k. k \<in> set audit_keywords) (dkeys kw) then Inl TypeError
      else Inr (snd (audit_record digest fresh now actn (kw_str kw ''actor'' ''system'')
        (kw_str kw ''resource_type'' []) (kw_str kw ''resource_id'' []) (kw_str kw ''outcome'' ''success'')
        (kw_dict kw ''details'') l)))"

text \<open>The in-memory branch of \<open>query\<close>: newest first, at most \<open>limit\<close>.\<close>

definition audit_query :: "nat \<Rightarrow> string option \<Rightarrow> string option \<Rightarrow> string option \<Rightarrow> time option \<Rightarrow>
    audit_log \<Rightarrow> audit_entry list" where
  "audit_query limit rtype rid actn since l =
     (let keep = \<lambda>f x. case f of None \<Rightarrow> True | Some s \<Rightarrow> s = [] \<or> x = (s::string);
          es = filter (\<lambda>e. keep rtype (ae_rtype e)) (al_memory l);
          es = filter (\<lambda>e. keep rid (ae_rid e)) es;
          es = filter (\<lambda>e. keep actn (ae_action e)) es;
          es = (case since of None \<Rightarrow> es | Some t \<Rightarrow> filter (\<lambda>e. t \<le> ae_created e) es)
      in take limit (rev es))"

definition audit_count :: "audit_log \<Rightarrow> nat" where
  "audit_count l = length (al_memory l)"

definition or_none :: "string \<Rightarrow> string option" where
  "or_none s = (if s = [] then None else Some s)"

fun verify_from :: "(body \<Rightarrow> string) \<Rightarrow> string \<Rightarrow> nat \<Rightarrow> audit_entry list \<Rightarrow> bool \<times> nat \<times> string option" where
  "verify_from digest prev checked [] = (True, checked, None)"
| "verify_from digest prev checked (e # es) =
     (if ae_prev e \<noteq> prev then (False, checked, or_none (ae_hash e))
      else if compute_entry_hash digest e \<noteq> ae_hash e then (False, checked, or_none (ae_hash e))
      else verify_from digest (ae_hash e) (Suc checked) es)"

definition verify_chain :: "(body \<Rightarrow> string) \<Rightarrow> audit_log \<Rightarrow> bool \<times> nat \<times> string option" where
  "verify_chain digest l = verify_from digest genesis_hash 0 (al_memory l)"

subsection \<open>Lemmas\<close>

fun chained :: "(body \<Rightarrow> string) \<Rightarrow> string \<Rightarrow> audit_entry list \<Rightarrow> bool" where
  "chained digest prev [] = True"
| "chained digest prev (e # es) =
     (ae_prev e = prev \<and> compute_entry_hash digest e = ae_hash e \<and> chained digest (ae_hash e) es)"

fun chain_tip :: "string \<Rightarrow> audit_entry list \<Rightarrow> string" where
  "chain_tip prev [] = prev"
| "chain_tip prev (e # es) = chain_tip (ae_hash e) es"

lemma verify_from_ok: "fst (verify_from digest prev n es) \<longleftrightarrow> chained digest prev es"
  by (induction es arbitrary: prev n) auto

lemma verify_from_count: "chained digest prev es \<Longrightarrow> verify_from digest prev n es = (True, n + length es, None)"
  by (induction es arbitrary: prev n) auto

lemma chained_snoc:
  "chained digest prev (es @ [e]) \<longleftrightarrow>
     chained digest prev es \<and> ae_prev e = chain_tip prev es \<and> compute_entry_hash digest e = ae_hash e"
  by (induction es arbitrary: prev) auto

lemma chain_tip_snoc: "chain_tip prev (es @ [e]) = ae_hash e"
  by (induction es arbitrary: prev) auto

lemma entry_body_hash [simp]: "entry_body (e\<lparr>ae_hash := h\<rparr>) = entry_body e"
  by (simp add: entry_body_def)

lemma finalized [simp]: "compute_entry_hash digest (finalize_hash digest e) = ae_hash (finalize_hash digest e)"
  by (simp add: finalize_hash_def compute_entry_hash_def)

lemma finalize_prev [simp]: "ae_prev (finalize_hash digest e) = ae_prev e"
  by (simp add: finalize_hash_def)

lemma entry_body_prev: "entry_body e = entry_body f \<Longrightarrow> ae_prev e = ae_prev f"
  by (simp add: entry_body_def canonical_audit_body_def)

lemma entry_body_inj: "entry_body e = entry_body f \<Longrightarrow> ae_hash e = ae_hash f \<Longrightarrow> e = f"
  by (cases e; cases f) (simp add: entry_body_def canonical_audit_body_def)

text \<open>One call of \<open>record\<close>, with its arguments; a history is a list of calls.\<close>

type_synonym audit_call = "string \<times> time \<times> string \<times> string \<times> string \<times> string \<times> string \<times> (string \<times> pyval) list"

definition audit_do :: "(body \<Rightarrow> string) \<Rightarrow> audit_call \<Rightarrow> audit_log \<Rightarrow> audit_log" where
  "audit_do digest c l = (case c of (fresh, now, actn, actr, rtype, rid, outc, dets) \<Rightarrow>
     snd (audit_record digest fresh now actn actr rtype rid outc dets l))"

definition audit_run :: "(body \<Rightarrow> string) \<Rightarrow> audit_call list \<Rightarrow> audit_log \<Rightarrow> audit_log" where
  "audit_run digest cs l = fold (audit_do digest) cs l"

text \<open>The whole history of entries, of which the buffer keeps the newest.\<close>

fun entries_from :: "(body \<Rightarrow> string) \<Rightarrow> string \<Rightarrow> string \<Rightarrow> audit_call list \<Rightarrow> audit_entry list" where
  "entries_from digest ten prev [] = []"
| "entries_from digest ten prev ((fresh, now, actn, actr, rtype, rid, outc, dets) # cs) =
     (let e = finalize_hash digest
            \<lparr>ae_id = fresh, ae_tenant = ten, ae_actor = (if actr = [] then ''system'' else actr),
             ae_action = actn, ae_rtype = rtype, ae_rid = rid, ae_outcome = outc, ae_details = dets,
             ae_created = now, ae_prev = prev, ae_hash = []\<rparr>
      in e # entries_from digest ten (ae_hash e) cs)"

lemma entries_from_length [simp]: "length (entries_from digest ten prev cs) = length cs"
  by (induction digest ten prev cs rule: entries_from.induct) (simp_all add: Let_def)

lemma entries_from_chained: "chained digest prev (entries_from digest ten prev cs)"
  by (induction digest ten prev cs rule: entries_from.induct) (simp_all add: Let_def)

definition newest :: "nat \<Rightarrow> 'a list \<Rightarrow> 'a list" where
  "newest n xs = drop (length xs - n) xs"

lemma newest_all: "length xs \<le> n \<Longrightarrow> newest n xs = xs"
  by (simp add: newest_def)

lemma push_newest: "push_bounded n x (newest n xs) = newest n (xs @ [x])"
proof (cases "length xs < n")
  case True
  then show ?thesis by (simp add: push_bounded_def newest_def)
next
  case False
  then have "length xs - (length xs - n) = n" by simp
  with False show ?thesis
    by (cases n) (auto simp: push_bounded_def newest_def Suc_diff_Suc not_less)
qed

lemma audit_run_state:
  "al_memory l = newest max_in_memory es \<Longrightarrow>
   al_memory (audit_run digest cs l) = newest max_in_memory (es @ entries_from digest (al_tenant l) (al_last l) cs)"
proof (induction cs arbitrary: l es)
  case (Cons c cs)
  obtain fresh now actn actr rtype rid outc dets
    where c: "c = (fresh, now, actn, actr, rtype, rid, outc, dets)" by (metis surj_pair)
  define e where "e = finalize_hash digest
    \<lparr>ae_id = fresh, ae_tenant = al_tenant l, ae_actor = (if actr = [] then ''system'' else actr),
     ae_action = actn, ae_rtype = rtype, ae_rid = rid, ae_outcome = outc, ae_details = dets,
     ae_created = now, ae_prev = al_last l, ae_hash = []\<rparr>"
  have l': "audit_do digest c l = l\<lparr>al_last := ae_hash e, al_memory := push_bounded max_in_memory e (al_memory l)\<rparr>"
    by (simp add: audit_do_def c audit_record_def Let_def e_def)
  have "al_memory (audit_do digest c l) = newest max_in_memory (es @ [e])"
    by (simp add: l' Cons.prems push_newest)
  note IH = Cons.IH [OF this]
  have t: "al_tenant (audit_do digest c l) = al_tenant l" "al_last (audit_do digest c l) = ae_hash e"
    by (simp_all add: l')
  have ef: "entries_from digest (al_tenant l) (al_last l) (c # cs) =
      e # entries_from digest (al_tenant l) (ae_hash e) cs"
    by (simp add: c e_def Let_def)
  from IH show ?case by (simp add: audit_run_def t ef del: entries_from.simps)
qed (simp add: audit_run_def)

lemma audit_run_empty:
  "al_memory (audit_run digest cs (empty_audit ten)) =
     newest max_in_memory (entries_from digest ten genesis_hash cs)"
  using audit_run_state [of "empty_audit ten" "[]" digest cs]
  by (simp add: empty_audit_def newest_def)

lemma entries_prev_digest:
  "0 < i \<Longrightarrow> i < length cs \<Longrightarrow> ae_prev (entries_from digest ten prev cs ! i) \<in> range digest"
proof (induction digest ten prev cs arbitrary: i rule: entries_from.induct)
  case (2 digest ten prev fresh now actn actr rtype rid outc dets cs)
  show ?case
  proof (cases "i = 1")
    case True
    with "2.prems" show ?thesis
      by (cases cs) (auto simp: Let_def finalize_hash_def compute_entry_hash_def)
  next
    case False
    with 2 show ?thesis by (cases i) (auto simp: Let_def)
  qed
qed simp

text \<open>Two chains with one tip are equal, up to a collision of the digest.\<close>

lemma chains_equal:
  assumes "chained digest genesis_hash xs" and "chained digest genesis_hash ys"
    and "chain_tip genesis_hash xs = chain_tip genesis_hash ys"
    and "\<And>b b'. digest b = digest b' \<Longrightarrow> b \<noteq> b' \<Longrightarrow> P" and "\<And>b. digest b = genesis_hash \<Longrightarrow> P"
  shows "xs = ys \<or> P"
  using assms(1-3)
proof (induction xs arbitrary: ys rule: rev_induct)
  case Nil
  then show ?case
    by (cases ys rule: rev_cases)
      (auto simp: chained_snoc chain_tip_snoc compute_entry_hash_def dest: assms(5) [OF sym] assms(5))
next
  case (snoc e es)
  show ?case
  proof (cases ys rule: rev_cases)
    case Nil
    with snoc.prems show ?thesis
      by (auto simp: chained_snoc chain_tip_snoc compute_entry_hash_def dest: assms(5))
  next
    case (snoc fs f)
    from snoc snoc.prems have h: "ae_hash e = ae_hash f" and de: "digest (entry_body e) = ae_hash e"
      and df: "digest (entry_body f) = ae_hash f"
      by (simp_all add: chained_snoc chain_tip_snoc compute_entry_hash_def)
    show ?thesis
    proof (cases "entry_body e = entry_body f")
      case True
      then have "e = f" and "ae_prev e = ae_prev f" using h by (auto dest: entry_body_inj entry_body_prev)
      with snoc snoc.prems snoc.IH [of fs] show ?thesis by (auto simp: chained_snoc)
    next
      case False
      with assms(4) h de df show ?thesis by metis
    qed
  qed
qed

subsection \<open>Properties\<close>

text \<open>A digest for the witnesses: the time stamp in decimal, after a letter.\<close>

definition demo_digest :: "body \<Rightarrow> string" where
  "demo_digest b = (case map_of b ''created_at'' of Some (PInt t) \<Rightarrow> ''h'' @ str_int t | _ \<Rightarrow> ''h'')"

text \<open>Whatever the hash function, a log of at most a thousand records verifies: \<open>verify_chain\<close>
  reports success and counts every record.\<close>

theorem audit_chain_verifies:
  assumes "length cs \<le> max_in_memory"
  shows "verify_chain digest (audit_run digest cs (empty_audit ten)) = (True, length cs, None)"
proof -
  have "al_memory (audit_run digest cs (empty_audit ten)) = entries_from digest ten genesis_hash cs"
    using assms by (simp add: audit_run_empty newest_def)
  with verify_from_count [OF entries_from_chained] show ?thesis by (simp add: verify_chain_def)
qed

theorem audit_chain_verifies_witness:
  "verify_chain demo_digest (audit_run demo_digest
      [(''i'', 1, ''tool.allowed'', [], ''agent'', ''a1'', ''info'', []), (''j'', 2, ''x'', ''u'', [], [], ''info'', [])]
      (empty_audit ''t'')) = (True, 2, None)"
  using audit_chain_verifies [of "[(''i'', 1, ''tool.allowed'', [], ''agent'', ''a1'', ''info'', []),
      (''j'', 2, ''x'', ''u'', [], [], ''info'', [])]" demo_digest "''t''"]
  by (simp add: max_in_memory_def)

text \<open>The buffer breaks the check it serves: once more than a thousand records were written, an
  untouched log fails verification at its first record, because the oldest entry in the buffer
  links to a record that has been dropped and not to the genesis hash (which is no hash of a
  record).\<close>

theorem audit_chain_fails_after_overflow:
  assumes "max_in_memory < length cs" and "\<And>b. digest b \<noteq> genesis_hash"
  shows "\<exists>err. verify_chain digest (audit_run digest cs (empty_audit ten)) = (False, 0, err)"
proof -
  let ?es = "entries_from digest ten genesis_hash cs"
  let ?k = "length cs - max_in_memory"
  have k: "0 < ?k" "?k < length cs" using assms(1) by (simp_all add: max_in_memory_def)
  have mem: "al_memory (audit_run digest cs (empty_audit ten)) = drop ?k ?es"
    by (simp add: audit_run_empty newest_def)
  have "drop ?k ?es = ?es ! ?k # drop (Suc ?k) ?es" using k by (simp add: Cons_nth_drop_Suc)
  moreover from entries_prev_digest [OF k, of digest ten genesis_hash] assms(2) have "ae_prev (?es ! ?k) \<noteq> genesis_hash"
    by (metis rangeE)
  ultimately show ?thesis by (simp add: verify_chain_def mem)
qed

theorem audit_chain_fails_after_overflow_witness:
  "\<exists>err. verify_chain (\<lambda>b. ''x'') (audit_run (\<lambda>b. ''x'')
      (replicate 1001 (''i'', 1, ''a'', [], [], [], [], [])) (empty_audit ''t'')) = (False, 0, err)"
  by (rule audit_chain_fails_after_overflow) (simp_all add: max_in_memory_def genesis_hash_def numeral_eq_Suc)

text \<open>Tampering needs a hash collision: if any buffer content whatsoever verifies and ends in the
  tip of a log of at most a thousand records, then it is that log, or two different record bodies
  have one digest, or the digest of some body is the genesis hash.\<close>

theorem audit_tampering_needs_collision:
  assumes "length cs \<le> max_in_memory"
    and "fst (verify_chain digest \<lparr>al_tenant = ten, al_memory = forged, al_last = l\<rparr>)"
    and "chain_tip genesis_hash forged =
      chain_tip genesis_hash (al_memory (audit_run digest cs (empty_audit ten)))"
  shows "forged = al_memory (audit_run digest cs (empty_audit ten)) \<or>
    (\<exists>b b'. digest b = digest b' \<and> b \<noteq> b') \<or> (\<exists>b. digest b = genesis_hash)"
proof -
  have "al_memory (audit_run digest cs (empty_audit ten)) = entries_from digest ten genesis_hash cs"
    using assms(1) by (simp add: audit_run_empty newest_def)
  moreover from assms(2) have "chained digest genesis_hash forged"
    by (simp add: verify_chain_def verify_from_ok)
  ultimately show ?thesis
    using chains_equal [of digest forged _ "(\<exists>b b'. digest b = digest b' \<and> b \<noteq> b') \<or> (\<exists>b. digest b = genesis_hash)"]
      entries_from_chained assms(3) by metis
qed

theorem audit_tampering_needs_collision_witness:
  "(\<exists>b b' :: body. (\<lambda>_. ''x'') b = (\<lambda>_. ''x'') b' \<and> b \<noteq> b') \<or> (\<exists>b :: body. (\<lambda>_. ''x'') b = genesis_hash)"
proof -
  let ?dg = "\<lambda>_ :: body. ''x''"
  let ?call = "\<lambda>act. (''i'', 1, act, ''u'', [], [], [], []) :: audit_call"
  let ?genuine = "al_memory (audit_run ?dg [?call ''x''] (empty_audit ''t''))"
  let ?forged = "entries_from ?dg ''t'' genesis_hash [?call ''y'']"
  have mem: "?genuine = entries_from ?dg ''t'' genesis_hash [?call ''x'']"
    unfolding audit_run_empty by (rule newest_all) (simp add: max_in_memory_def)
  have tip: "chain_tip genesis_hash ?forged = chain_tip genesis_hash ?genuine"
    unfolding mem by (simp add: finalize_hash_def compute_entry_hash_def Let_def)
  have ne: "?forged \<noteq> ?genuine"
    unfolding mem by (simp add: finalize_hash_def Let_def)
  have "fst (verify_chain ?dg \<lparr>al_tenant = ''t'', al_memory = ?forged, al_last = []\<rparr>)"
    by (simp only: verify_chain_def verify_from_ok entries_from_chained audit_log.simps)
  from audit_tampering_needs_collision [OF _ this tip] ne show ?thesis
    by (simp add: max_in_memory_def)
qed

end
