(* ===== verification/Syscall.thy ===== *)
theory Syscall
  imports Permissions Budget Capabilities AuditTrail
begin

text \<open>
  The syscall pipeline (\<open>src/src/platform/kernel/_syscall.py\<close>, \<open>_license_stage.py\<close>, and
  \<open>Kernel._build_pipeline\<close> / \<open>Kernel.syscall\<close>).  A stage works on the syscall and the kernel state and
  returns \<open>None\<close> to pass, a decision, or an exception; the state keeps what a stage did before it
  raised.  The collaborators that are not in the repository (the license manager, the A2A handler's
  access list, the environment bindings) and the sources of time and identifiers are in \<open>kenv\<close>.
\<close>

record syscall =
  sc_verb :: string
  sc_subject :: string
  sc_object :: string
  sc_args :: details
  sc_context :: details
  sc_ticket :: "string option"

record kernel =
  k_registry :: "registry option"
  k_enforcer :: "enforcer option"
  k_budgets :: budget_state
  k_caps :: mem_caps
  k_policies :: policy_engine
  k_audit :: "audit_log option"

record kenv =
  e_license :: "(string \<Rightarrow> decision res) option"
  e_acl :: "(agent_def \<Rightarrow> string \<Rightarrow> string \<Rightarrow> bool) option"
  e_bound_env :: "(string \<Rightarrow> string option) option"
  e_production :: bool
  e_digest :: "body \<Rightarrow> string"
  e_now :: time
  e_now2 :: time
  e_ticket :: string
  e_entry_id :: string

type_synonym stage = "syscall \<times> kernel \<Rightarrow> decision option res \<times> syscall \<times> kernel"
type_synonym pipeline = "(string, stage) dict"

definition stage_order :: "string list" where
  "stage_order = [''identity'', ''capability'', ''quota'', ''policy'', ''boundary'', ''dispatch'', ''audit'']"

text \<open>Building a pipeline; an unknown name is a \<open>ValueError\<close>, a stage that is \<open>None\<close> is skipped.\<close>

definition make_pipeline :: "(string, stage option) dict \<Rightarrow> pipeline res" where
  "make_pipeline stages =
     (if \<not> list_all (\<lambda>n. n \<in> set stage_order) (dkeys stages) then Inl ValueError
      else Inr (concat (map (\<lambda>n. case map_of stages n of Some (Some st) \<Rightarrow> [(n, st)] | _ \<Rightarrow> []) stage_order)))"

definition set_stage :: "string \<Rightarrow> stage option \<Rightarrow> pipeline \<Rightarrow> pipeline res" where
  "set_stage n st pl =
     (if n \<notin> set stage_order then Inl ValueError
      else Inr (case st of None \<Rightarrow> dpop n pl | Some f \<Rightarrow> dset n f pl))"

subsection \<open>The runner\<close>

definition decision_dict :: "decision \<Rightarrow> pyval" where
  "decision_dict d = PDict [(''action'', PStr (action_value (d_action d))), (''reason'', PStr (d_reason d)),
     (''details'', PDict (d_details d))]"

text \<open>The audit stage sees the denial in the context; what it raises is logged and dropped.\<close>

definition run_audit_on_deny :: "pipeline \<Rightarrow> decision \<Rightarrow> syscall \<times> kernel \<Rightarrow> syscall \<times> kernel" where
  "run_audit_on_deny pl d s =
     (case map_of pl ''audit'' of
        None \<Rightarrow> s
      | Some audit \<Rightarrow> snd (audit (fst s\<lparr>sc_context := dset ''last_decision'' (decision_dict d) (sc_context (fst s))\<rparr>,
                               snd s)))"

fun run_stages :: "pipeline \<Rightarrow> string list \<Rightarrow> syscall \<times> kernel \<Rightarrow> decision \<times> syscall \<times> kernel" where
  "run_stages pl [] s = (d_allow ''syscall allowed''
     ([(''verb'', PStr (sc_verb (fst s))), (''subject'', PStr (sc_subject (fst s)))] @
      (case sc_ticket (fst s) of None \<Rightarrow> [] | Some t \<Rightarrow> [(''ticket'', PStr t)])), s)"
| "run_stages pl (n # ns) s =
     (case map_of pl n of
        None \<Rightarrow> run_stages pl ns s
      | Some stage \<Rightarrow>
        (case stage s of
           (Inl e, s') \<Rightarrow> (d_deny (''stage '' @ repr_str n @ '' crashed: '' @ exn_text e)
              [(''stage'', PStr n), (''verb'', PStr (sc_verb (fst s')))], s')
         | (Inr None, s') \<Rightarrow> run_stages pl ns s'
         | (Inr (Some d), s') \<Rightarrow>
             if d_action d \<noteq> Allow
             then (d, if n \<noteq> ''audit'' then run_audit_on_deny pl d s' else s')
             else run_stages pl ns s'))"

definition run_pipeline :: "pipeline \<Rightarrow> syscall \<times> kernel \<Rightarrow> decision \<times> syscall \<times> kernel" where
  "run_pipeline pl s = run_stages pl stage_order s"

subsection \<open>The stages\<close>

definition arg :: "details \<Rightarrow> string \<Rightarrow> pyval" where
  "arg d k = dget_default d k PNone"

text \<open>\<open>authorize\<close> with whatever the caller passed as its token: only a string can be a handle, and an
  unhashable value raises.\<close>

definition token_authorizes :: "kenv \<Rightarrow> pyval \<Rightarrow> string \<Rightarrow> string \<Rightarrow> string \<Rightarrow> mem_caps \<Rightarrow> bool res \<times> mem_caps" where
  "token_authorizes env tok subj targ vb caps =
     (if \<not> truthy tok then (Inr False, caps)
      else case tok of
        PStr k \<Rightarrow> apfst Inr (cap_authorize mem_load mem_delete (e_now env) (e_now2 env) k subj targ vb caps)
      | PList _ \<Rightarrow> (Inl TypeError, caps)
      | PDict _ \<Rightarrow> (Inl TypeError, caps)
      | _ \<Rightarrow> (Inr False, caps))"

text \<open>A namespace argument of an A2A call (a string).\<close>

definition a2a_namespace :: "details \<Rightarrow> string" where
  "a2a_namespace args = py_str (dget_default args ''target_namespace''
     (dget_default args ''callee_namespace'' (PStr ''default'')))"

definition capability_stage :: "kenv \<Rightarrow> stage" where
  "capability_stage env = (\<lambda>(sc, k).
     (let reg = k_registry k; args = sc_args sc
      in if sc_verb sc = ''tool.call'' then
           (case token_authorizes env (arg args ''capability_token'') (sc_subject sc)
               (''tool:'' @ sc_object sc) ''tool.call'' (k_caps k) of
              (Inl e, caps) \<Rightarrow> (Inl e, sc, k\<lparr>k_caps := caps\<rparr>)
            | (Inr True, caps) \<Rightarrow> (Inr None, sc, k\<lparr>k_caps := caps\<rparr>)
            | (Inr False, caps) \<Rightarrow>
                (map_sum id Some (perm_tool_call reg (sc_subject sc) (sc_object sc) (arg args ''tool_input'')),
                 sc, k\<lparr>k_caps := caps\<rparr>))
         else if sc_verb sc = ''env.exec'' then
           (case token_authorizes env (arg args ''capability_token'') (sc_subject sc)
               (''env:'' @ sc_object sc) ''exec'' (k_caps k) of
              (Inl e, caps) \<Rightarrow> (Inl e, sc, k\<lparr>k_caps := caps\<rparr>)
            | (Inr True, caps) \<Rightarrow> (Inr None, sc, k\<lparr>k_caps := caps\<rparr>)
            | (Inr False, caps) \<Rightarrow>
                (Inr (Some (perm_env_exec reg (e_bound_env env) (sc_subject sc) (sc_object sc) args)),
                 sc, k\<lparr>k_caps := caps\<rparr>))
         else if sc_verb sc = ''a2a.invoke'' then
           (Inr (Some (perm_a2a reg (e_acl env) (sc_subject sc) (a2a_namespace args) (sc_object sc))), sc, k)
         else if sc_verb sc = ''data.read'' then
           (Inl (AttributeError ''check_data_access''), sc, k)
         else (Inr None, sc, k)))"

definition quota_stage :: "kenv \<Rightarrow> stage" where
  "quota_stage env = (\<lambda>(sc, k).
     (let est = dget_default (sc_args sc) ''estimated_cost_usd'' (PFloat 0);
          toks = arg (sc_args sc) ''estimated_tokens''
      in if est \<noteq> PNone \<and> num_of est = None then (Inl TypeError, sc, k)
         else (case reserve (k_registry k) (k_enforcer k) (e_ticket env) (sc_subject sc) (num_of est)
                 (case toks of PInt n \<Rightarrow> Some n | _ \<Rightarrow> None) (k_budgets k) of
                 ((ticket, d), b) \<Rightarrow>
                   (Inr (Some d), (case ticket of None \<Rightarrow> sc | Some t \<Rightarrow> sc\<lparr>sc_ticket := Some t\<rparr>),
                    k\<lparr>k_budgets := b\<rparr>))))"

text \<open>\<open>PolicyEngine.evaluate\<close> called with a list of positional arguments.\<close>

datatype pe_arg = ASyscall syscall | ARefs "policy_ref list" | AContext pyval

fun pe_call :: "policy_engine \<Rightarrow> pe_arg list \<Rightarrow> decision res" where
  "pe_call pe [ARefs refs, AContext c] = pe_evaluate pe refs c"
| "pe_call pe _ = Inl TypeError"

definition policy_stage :: stage where
  "policy_stage = (\<lambda>(sc, k).
     (case pe_call (k_policies k) [ASyscall sc] of
        Inl TypeError \<Rightarrow> (Inr None, sc, k)
      | Inl e \<Rightarrow> (Inl e, sc, k)
      | Inr d \<Rightarrow> (Inr (Some d), sc, k)))"

definition boundary_stage :: stage where
  "boundary_stage = (\<lambda>(sc, k).
     (case arg (sc_args sc) ''target_namespace'' of
        PNone \<Rightarrow> (Inr None, sc, k)
      | ns \<Rightarrow> (Inr (Some (data_access (k_registry k) (sc_subject sc) (py_str ns))), sc, k)))"

definition dispatch_stage :: "stage option \<Rightarrow> stage" where
  "dispatch_stage dispatcher = (case dispatcher of None \<Rightarrow> (\<lambda>(sc, k). (Inr None, sc, k)) | Some f \<Rightarrow> f)"

definition opt_str :: "string option \<Rightarrow> pyval" where
  "opt_str x = (case x of None \<Rightarrow> PNone | Some s \<Rightarrow> PStr s)"

definition audit_stage :: "kenv \<Rightarrow> stage" where
  "audit_stage env = (\<lambda>(sc, k).
     (case k_audit k of
        None \<Rightarrow> (Inr None, sc, k)
      | Some al \<Rightarrow>
        (case audit_record_kw (e_digest env) (e_entry_id env) (e_now env) (sc_verb sc)
            [(''agent_id'', PStr (sc_subject sc)),
             (''details'', PDict [(''object'', PStr (sc_object sc)), (''args'', PDict (sc_args sc)),
                (''context'', PDict (sc_context sc)), (''budget_ticket'', opt_str (sc_ticket sc))])] al of
           Inl e \<Rightarrow> (Inr None, sc, k)
         | Inr al' \<Rightarrow> (Inr None, sc, k\<lparr>k_audit := Some al'\<rparr>))))"

definition license_required :: string where
  "license_required = ''Production mode requires a valid Enterprise License Key. Visit https://makingscience.com to purchase a key.''"

definition license_stage :: "kenv \<Rightarrow> stage" where
  "license_stage env = (\<lambda>(sc, k).
     (case e_license env of
        None \<Rightarrow> if e_production env then (Inr (Some (d_deny license_required [])), sc, k) else (Inr None, sc, k)
      | Some check \<Rightarrow>
        (let tid = (if truthy (arg (sc_context sc) ''tenant_id'') then arg (sc_context sc) ''tenant_id''
                    else dget_default (sc_args sc) ''tenant_id'' (PStr ''default''))
         in case check (py_str tid) of
              Inl e \<Rightarrow> (Inl e, sc, k)
            | Inr d \<Rightarrow>
                (Inr (if denied d then Some d else None),
                 sc\<lparr>sc_context := dset ''license_state'' (PDict (d_details d))
                      (dset ''tenant_id'' tid (sc_context sc))\<rparr>, k))))"

definition build_pipeline :: "kenv \<Rightarrow> kernel \<Rightarrow> (string, stage option) dict" where
  "build_pipeline env k =
     [(''identity'', Some (license_stage env)), (''capability'', Some (capability_stage env)),
      (''quota'', Some (quota_stage env)), (''policy'', Some policy_stage), (''boundary'', Some boundary_stage),
      (''audit'', case k_audit k of None \<Rightarrow> None | Some _ \<Rightarrow> Some (audit_stage env))]"

definition new_syscall :: "string \<Rightarrow> string \<Rightarrow> string \<Rightarrow> details \<Rightarrow> syscall" where
  "new_syscall vb subj ob args = \<lparr>sc_verb = vb, sc_subject = subj, sc_object = ob, sc_args = args,
     sc_context = [], sc_ticket = None\<rparr>"

definition kernel_syscall :: "kenv \<Rightarrow> string \<Rightarrow> string \<Rightarrow> string \<Rightarrow> details \<Rightarrow> stage option \<Rightarrow> kernel \<Rightarrow>
    decision res \<times> kernel" where
  "kernel_syscall env vb subj ob args dispatcher k =
     (case rbind (make_pipeline (build_pipeline env k)) (set_stage ''dispatch'' (Some (dispatch_stage dispatcher))) of
        Inl e \<Rightarrow> (Inl e, k)
      | Inr pl \<Rightarrow> (case run_pipeline pl (new_syscall vb subj ob args, k) of (d, _, k') \<Rightarrow> (Inr d, k')))"

subsection \<open>The audit stage records nothing in the audit log\<close>

lemma audit_stage_inert: "audit_stage env s = (Inr None, s)"
  by (cases s) (simp add: audit_stage_def audit_record_kw_def audit_keywords_def split: option.split)

lemma policy_stage_inert: "policy_stage s = (Inr None, s)"
  by (cases s) (simp add: policy_stage_def)

text \<open>The built pipeline, as a function of its parts.\<close>

definition the_stages :: "kenv \<Rightarrow> bool \<Rightarrow> stage option \<Rightarrow> (string, stage) dict" where
  "the_stages env audited dispatcher =
     [(''identity'', license_stage env), (''capability'', capability_stage env), (''quota'', quota_stage env),
      (''policy'', policy_stage), (''boundary'', boundary_stage)] @
     (if audited then [(''audit'', audit_stage env)] else []) @ [(''dispatch'', dispatch_stage dispatcher)]"

lemma built_pipeline:
  "rbind (make_pipeline (build_pipeline env k)) (set_stage ''dispatch'' (Some (dispatch_stage dispatcher))) =
     Inr (the_stages env (k_audit k \<noteq> None) dispatcher)"
  by (simp add: make_pipeline_def build_pipeline_def stage_order_def set_stage_def the_stages_def
      split: option.split)

lemma audit_on_deny_context:
  "run_audit_on_deny (the_stages env audited dispatcher) d (sc, k) =
     (if audited then sc\<lparr>sc_context := dset ''last_decision'' (decision_dict d) (sc_context sc)\<rparr> else sc, k)"
  by (simp add: run_audit_on_deny_def the_stages_def audit_stage_inert)

subsection \<open>When a pipeline allows\<close>

definition passes :: "stage \<Rightarrow> syscall \<times> kernel \<Rightarrow> bool" where
  "passes st s = (case fst (st s) of Inl _ \<Rightarrow> False | Inr None \<Rightarrow> True | Inr (Some d) \<Rightarrow> allowed d)"

lemma run_stages_allowed_Cons:
  "allowed (fst (run_stages pl (n # ns) s)) \<longleftrightarrow>
     (case map_of pl n of None \<Rightarrow> allowed (fst (run_stages pl ns s))
      | Some st \<Rightarrow> passes st s \<and> allowed (fst (run_stages pl ns (snd (st s)))))"
proof (cases "map_of pl n")
  case (Some st)
  obtain r s' where r: "st s = (r, s')" by (cases "st s")
  consider e where "r = Inl e" | "r = Inr None" | d where "r = Inr (Some d)" by (metis sum.exhaust option.exhaust)
  then show ?thesis by cases (simp_all add: Some r passes_def allowed_def)
qed simp

lemma run_stages_allowed_Nil [simp]: "allowed (fst (run_stages pl [] s))"
  by (simp add: allowed_def)

text \<open>What the license stage leaves alone.\<close>

definition same_call :: "syscall \<Rightarrow> syscall \<Rightarrow> bool" where
  "same_call sc sc' = (sc_verb sc' = sc_verb sc \<and> sc_subject sc' = sc_subject sc \<and>
     sc_object sc' = sc_object sc \<and> sc_args sc' = sc_args sc \<and> sc_ticket sc' = sc_ticket sc)"

lemma license_stage_frame: "\<exists>sc'. snd (license_stage env (sc, k)) = (sc', k) \<and> same_call sc sc'"
  by (auto simp: license_stage_def same_call_def Let_def split: option.split sum.split)

definition tenant_arg :: "details \<Rightarrow> pyval" where
  "tenant_arg args = dget_default args ''tenant_id'' (PStr ''default'')"

definition license_ok :: "kenv \<Rightarrow> pyval \<Rightarrow> bool" where
  "license_ok env tid = (case e_license env of None \<Rightarrow> \<not> e_production env
     | Some check \<Rightarrow> (case check (py_str tid) of Inl _ \<Rightarrow> False | Inr d \<Rightarrow> \<not> denied d))"

lemma license_passes:
  "sc_context sc = [] \<Longrightarrow> passes (license_stage env) (sc, k) \<longleftrightarrow> license_ok env (tenant_arg (sc_args sc))"
  by (auto simp: passes_def license_stage_def license_ok_def tenant_arg_def Let_def arg_def allowed_def denied_def
      split: option.split sum.split)

text \<open>The outcome of the capability stage for a tool call.\<close>

definition token_ok :: "kenv \<Rightarrow> details \<Rightarrow> string \<Rightarrow> string \<Rightarrow> string \<Rightarrow> mem_caps \<Rightarrow> bool res" where
  "token_ok env args subj targ vb caps = fst (token_authorizes env (arg args ''capability_token'') subj targ vb caps)"

lemma capability_passes_tool_call:
  assumes "sc_verb sc = ''tool.call''"
  shows "passes (capability_stage env) (sc, k) \<longleftrightarrow>
    token_ok env (sc_args sc) (sc_subject sc) (''tool:'' @ sc_object sc) ''tool.call'' (k_caps k) = Inr True \<or>
    token_ok env (sc_args sc) (sc_subject sc) (''tool:'' @ sc_object sc) ''tool.call'' (k_caps k) = Inr False \<and>
    map_sum id d_action (perm_tool_call (k_registry k) (sc_subject sc) (sc_object sc)
      (arg (sc_args sc) ''tool_input'')) = Inr Allow"
proof -
  obtain r caps where t: "token_authorizes env (arg (sc_args sc) ''capability_token'') (sc_subject sc)
      (''tool:'' @ sc_object sc) ''tool.call'' (k_caps k) = (r, caps)" by fastforce
  show ?thesis
  proof (cases r)
    case (Inl e)
    with assms t show ?thesis by (simp add: passes_def capability_stage_def token_ok_def)
  next
    case (Inr b)
    with assms t show ?thesis
      by (cases b; cases "perm_tool_call (k_registry k) (sc_subject sc) (sc_object sc)
          (arg (sc_args sc) ''tool_input'')")
        (simp_all add: passes_def capability_stage_def token_ok_def allowed_def)
  qed
qed

lemma capability_stage_frame:
  "\<exists>caps. snd (capability_stage env (sc, k)) = (sc, k\<lparr>k_caps := caps\<rparr>)"
proof -
  have keep: "k = k\<lparr>k_caps := k_caps k\<rparr>" by simp
  have tok: "\<exists>caps. snd (case t of (Inl e, caps) \<Rightarrow> (Inl e, sc, k\<lparr>k_caps := caps\<rparr>)
      | (Inr True, caps) \<Rightarrow> (Inr None, sc, k\<lparr>k_caps := caps\<rparr>)
      | (Inr False, caps) \<Rightarrow> (f, sc, k\<lparr>k_caps := caps\<rparr>)) = (sc, k\<lparr>k_caps := caps\<rparr>)"
    for t :: "bool res \<times> mem_caps" and f :: "decision option res"
  proof -
    obtain r caps where t: "t = (r, caps)" by (cases t)
    show ?thesis
    proof (cases r)
      case (Inr b)
      with t show ?thesis by (cases b) auto
    qed (use t in auto)
  qed
  show ?thesis
    unfolding capability_stage_def Let_def prod.case
    by (simp only: tok snd_conv split: if_split) (metis keep)
qed

definition estimate_ok :: "details \<Rightarrow> bool" where
  "estimate_ok args = (let est = dget_default args ''estimated_cost_usd'' (PFloat 0)
     in est = PNone \<or> num_of est \<noteq> None)"

definition estimate :: "details \<Rightarrow> rat option" where
  "estimate args = num_of (dget_default args ''estimated_cost_usd'' (PFloat 0))"

lemma quota_passes:
  "passes (quota_stage env) (sc, k) \<longleftrightarrow> estimate_ok (sc_args sc) \<and>
     d_action (check_budget (k_registry k) (k_enforcer k) (sc_subject sc) (estimate (sc_args sc)) (k_budgets k)) = Allow"
  by (simp add: passes_def quota_stage_def estimate_ok_def estimate_def Let_def reserve_def allowed_def)

lemma quota_stage_frame:
  "\<exists>t b. snd (quota_stage env (sc, k)) = (sc\<lparr>sc_ticket := t\<rparr>, k\<lparr>k_budgets := b\<rparr>)"
proof -
  show ?thesis
  proof (cases "dget_default (sc_args sc) ''estimated_cost_usd'' (PFloat 0) \<noteq> PNone \<and>
      num_of (dget_default (sc_args sc) ''estimated_cost_usd'' (PFloat 0)) = None")
    case True
    then have "snd (quota_stage env (sc, k)) = (sc\<lparr>sc_ticket := sc_ticket sc\<rparr>, k\<lparr>k_budgets := k_budgets k\<rparr>)"
      by (simp add: quota_stage_def Let_def)
    then show ?thesis by blast
  next
    case False
    obtain t d b where r: "reserve (k_registry k) (k_enforcer k) (e_ticket env) (sc_subject sc)
        (num_of (dget_default (sc_args sc) ''estimated_cost_usd'' (PFloat 0)))
        (case arg (sc_args sc) ''estimated_tokens'' of PInt n \<Rightarrow> Some n | _ \<Rightarrow> None) (k_budgets k) = ((t, d), b)"
      by (metis surj_pair)
    have "snd (quota_stage env (sc, k)) = ((case t of None \<Rightarrow> sc | Some x \<Rightarrow> sc\<lparr>sc_ticket := Some x\<rparr>), k\<lparr>k_budgets := b\<rparr>)"
      using False r by (simp only: quota_stage_def Let_def prod.case if_False snd_conv)
    then have "snd (quota_stage env (sc, k)) =
        (sc\<lparr>sc_ticket := (case t of None \<Rightarrow> sc_ticket sc | Some x \<Rightarrow> Some x)\<rparr>, k\<lparr>k_budgets := b\<rparr>)"
      by (cases t) simp_all
    then show ?thesis by blast
  qed
qed

definition boundary_ok :: "details \<Rightarrow> registry option \<Rightarrow> string \<Rightarrow> bool" where
  "boundary_ok args reg subj = (arg args ''target_namespace'' = PNone \<or>
     allowed (data_access reg subj (py_str (arg args ''target_namespace''))))"

lemma boundary_passes:
  "passes boundary_stage (sc, k) \<longleftrightarrow> boundary_ok (sc_args sc) (k_registry k) (sc_subject sc)"
  by (simp add: passes_def boundary_stage_def boundary_ok_def split: pyval.split)

lemma boundary_stage_frame: "snd (boundary_stage s) = s"
  by (cases s) (simp add: boundary_stage_def split: pyval.split)

lemma inert_passes [simp]: "passes policy_stage s" "passes (audit_stage env) s"
    "passes (dispatch_stage None) s" "snd (policy_stage s) = s" "snd (audit_stage env s) = s"
    "snd (dispatch_stage None s) = s"
  by (cases s; simp add: passes_def policy_stage_inert audit_stage_inert dispatch_stage_def)+

lemma the_stages_lookup:
  "map_of (the_stages env audited dispatcher) ''identity'' = Some (license_stage env)"
  "map_of (the_stages env audited dispatcher) ''capability'' = Some (capability_stage env)"
  "map_of (the_stages env audited dispatcher) ''quota'' = Some (quota_stage env)"
  "map_of (the_stages env audited dispatcher) ''policy'' = Some policy_stage"
  "map_of (the_stages env audited dispatcher) ''boundary'' = Some boundary_stage"
  "map_of (the_stages env audited dispatcher) ''dispatch'' = Some (dispatch_stage dispatcher)"
  "map_of (the_stages env audited dispatcher) ''audit'' = (if audited then Some (audit_stage env) else None)"
  by (simp_all add: the_stages_def)

lemma kernel_syscall_run:
  "kernel_syscall env vb subj ob args dispatcher k =
     (case run_pipeline (the_stages env (k_audit k \<noteq> None) dispatcher) (new_syscall vb subj ob args, k) of
        (d, _, k') \<Rightarrow> (Inr d, k'))"
  unfolding kernel_syscall_def built_pipeline by simp

text \<open>The runner with the built pipeline, stage by stage.\<close>

lemma run_built_allowed:
  "allowed (fst (run_pipeline (the_stages env audited None) (sc, k))) \<longleftrightarrow>
    (let s1 = snd (license_stage env (sc, k)); s2 = snd (capability_stage env s1)
     in passes (license_stage env) (sc, k) \<and> passes (capability_stage env) s1 \<and>
        passes (quota_stage env) s2 \<and> passes boundary_stage (snd (quota_stage env s2)))"
  by (simp add: run_pipeline_def stage_order_def run_stages_allowed_Cons the_stages_lookup Let_def
      boundary_stage_frame del: run_stages.simps)

lemma new_syscall_simps [simp]:
  "sc_verb (new_syscall vb subj ob args) = vb" "sc_subject (new_syscall vb subj ob args) = subj"
  "sc_object (new_syscall vb subj ob args) = ob" "sc_args (new_syscall vb subj ob args) = args"
  "sc_context (new_syscall vb subj ob args) = []" "sc_ticket (new_syscall vb subj ob args) = None"
  by (simp_all add: new_syscall_def)

lemma run_pipeline_allowed_iff:
  "allowed (fst (run_pipeline (the_stages env audited None) (new_syscall ''tool.call'' subj tool args, k))) \<longleftrightarrow>
    license_ok env (tenant_arg args) \<and>
    (token_ok env args subj (''tool:'' @ tool) ''tool.call'' (k_caps k) = Inr True \<or>
     token_ok env args subj (''tool:'' @ tool) ''tool.call'' (k_caps k) = Inr False \<and>
       map_sum id d_action (perm_tool_call (k_registry k) subj tool (arg args ''tool_input'')) = Inr Allow) \<and>
    estimate_ok args \<and>
    d_action (check_budget (k_registry k) (k_enforcer k) subj (estimate args) (k_budgets k)) = Allow \<and>
    boundary_ok args (k_registry k) subj"
proof -
  let ?sc = "new_syscall ''tool.call'' subj tool args"
  from license_stage_frame obtain sc1
    where l: "snd (license_stage env (?sc, k)) = (sc1, k)" and same: "same_call ?sc sc1" by blast
  from capability_stage_frame obtain caps
    where c: "snd (capability_stage env (sc1, k)) = (sc1, k\<lparr>k_caps := caps\<rparr>)" by blast
  from quota_stage_frame obtain t b
    where q: "snd (quota_stage env (sc1, k\<lparr>k_caps := caps\<rparr>)) =
      (sc1\<lparr>sc_ticket := t\<rparr>, k\<lparr>k_caps := caps, k_budgets := b\<rparr>)" by fastforce
  from same have f: "sc_verb sc1 = ''tool.call''" "sc_subject sc1 = subj" "sc_object sc1 = tool" "sc_args sc1 = args"
    by (simp_all add: same_call_def)
  show ?thesis
    unfolding run_built_allowed Let_def l c q
    by (simp add: license_passes capability_passes_tool_call [OF f(1)] quota_passes boundary_passes f conj_assoc)
qed

text \<open>Registry, enforcer, policies and audit log are never touched.\<close>

definition kernel_frame :: "kernel \<Rightarrow> kernel \<Rightarrow> bool" where
  "kernel_frame k k' = (k_registry k' = k_registry k \<and> k_enforcer k' = k_enforcer k \<and>
     k_policies k' = k_policies k \<and> k_audit k' = k_audit k)"

lemma kernel_frame_refl [simp]: "kernel_frame k k"
  by (simp add: kernel_frame_def)

lemma kernel_frame_trans: "kernel_frame k k' \<Longrightarrow> kernel_frame k' k'' \<Longrightarrow> kernel_frame k k''"
  by (simp add: kernel_frame_def)

definition frames :: "stage \<Rightarrow> bool" where
  "frames st = (\<forall>sc k. kernel_frame k (snd (snd (st (sc, k)))))"

lemma framesD: "frames st \<Longrightarrow> st s = (r, s') \<Longrightarrow> kernel_frame (snd s) (snd s')"
  by (cases s) (metis frames_def snd_conv)

lemma framed_stages:
  "frames (license_stage env)" "frames (capability_stage env)" "frames (quota_stage env)"
  "frames policy_stage" "frames boundary_stage" "frames (audit_stage env)" "frames (dispatch_stage None)"
proof -
  have "kernel_frame k (snd (snd (license_stage env (sc, k))))" for sc k
    using license_stage_frame [of env sc k] by fastforce
  then show "frames (license_stage env)" by (simp add: frames_def)
  have "kernel_frame k (snd (snd (capability_stage env (sc, k))))" for sc k
    using capability_stage_frame [of env sc k] by (fastforce simp: kernel_frame_def)
  then show "frames (capability_stage env)" by (simp add: frames_def)
  have "kernel_frame k (snd (snd (quota_stage env (sc, k))))" for sc k
    using quota_stage_frame [of env sc k] by (fastforce simp: kernel_frame_def)
  then show "frames (quota_stage env)" by (simp add: frames_def)
qed (simp_all add: frames_def boundary_stage_frame)

lemma run_stages_frame:
  assumes "\<And>n st. map_of pl n = Some st \<Longrightarrow> frames st"
  shows "kernel_frame (snd s) (snd (snd (run_stages pl ns s)))"
proof (induction ns arbitrary: s)
  case (Cons n ns)
  show ?case
  proof (cases "map_of pl n")
    case (Some st)
    obtain r s' where r: "st s = (r, s')" by (cases "st s")
    from assms [OF Some] r have f: "kernel_frame (snd s) (snd s')" by (rule framesD)
    have deny: "kernel_frame (snd s) (snd (run_audit_on_deny pl d s'))" for d
      using f assms [of "''audit''"]
      by (auto simp: run_audit_on_deny_def frames_def intro: kernel_frame_trans split: option.split)
    consider e where "r = Inl e" | "r = Inr None" | d where "r = Inr (Some d)" by (metis sum.exhaust option.exhaust)
    then show ?thesis
    proof cases
      case 2
      with Cons.IH [of s'] kernel_frame_trans [OF f] show ?thesis by (simp add: Some r)
    next
      case 3
      with Cons.IH [of s'] kernel_frame_trans [OF f] deny f show ?thesis by (simp add: Some r)
    qed (use f in \<open>simp add: Some r\<close>)
  qed (simp add: Cons.IH)
qed simp

lemma kernel_syscall_frame: "kernel_frame k (snd (kernel_syscall env vb subj ob args None k))"
proof -
  have "frames st" if "map_of (the_stages env audited None) n = Some st" for audited n st
    using that framed_stages by (auto simp: the_stages_def split: if_splits)
  from run_stages_frame [of "the_stages env (k_audit k \<noteq> None) None" "(new_syscall vb subj ob args, k)" stage_order, OF this]
  show ?thesis
    unfolding kernel_syscall_run run_pipeline_def by (auto split: prod.split)
qed

lemma kernel_syscall_decision:
  "fst (kernel_syscall env vb subj ob args dispatcher k) =
     Inr (fst (run_pipeline (the_stages env (k_audit k \<noteq> None) dispatcher) (new_syscall vb subj ob args, k)))"
  unfolding kernel_syscall_run by (simp split: prod.split)

text \<open>The policies enter no decision.\<close>

lemma frozen_policies:
  "kernel_syscall env vb subj ob args None (k\<lparr>k_policies := pe\<rparr>) =
     apsnd (\<lambda>k'. k'\<lparr>k_policies := pe\<rparr>) (kernel_syscall env vb subj ob args None k)"
proof -
  define up where "up = (\<lambda>(sc :: syscall, k :: kernel). (sc, k\<lparr>k_policies := pe\<rparr>))"
  define commutes where "commutes st \<longleftrightarrow> (\<forall>s. st (up s) = apsnd up (st s))" for st :: stage
  have c: "commutes (license_stage env)" "commutes (capability_stage env)" "commutes (quota_stage env)"
    "commutes boundary_stage"
    by (auto simp: commutes_def up_def license_stage_def capability_stage_def quota_stage_def boundary_stage_def
        Let_def split: option.split sum.split bool.split prod.split pyval.split)
  have c': "commutes policy_stage" "commutes (audit_stage env)" "commutes (dispatch_stage None)"
    by (auto simp: commutes_def policy_stage_inert audit_stage_inert dispatch_stage_def up_def)
  have all: "commutes st" if "map_of (the_stages env audited None) n = Some st" for audited n st
    using that c c' by (auto simp: the_stages_def split: if_splits)
  have fst_up: "fst (up s) = fst s" for s by (cases s) (simp add: up_def)
  have deny: "run_audit_on_deny (the_stages env audited None) d (up s) =
      up (run_audit_on_deny (the_stages env audited None) d s)" for audited d s
    by (cases s) (simp add: audit_on_deny_context up_def)
  have "run_stages (the_stages env audited None) ns (up s) = apsnd up (run_stages (the_stages env audited None) ns s)"
    for audited ns s
  proof (induction ns arbitrary: s)
    case (Cons n ns)
    show ?case
    proof (cases "map_of (the_stages env audited None) n")
      case (Some st)
      obtain r s' where r: "st s = (r, s')" by (cases "st s")
      with all [OF Some] have r': "st (up s) = (r, up s')" by (metis commutes_def apsnd_conv)
      consider e where "r = Inl e" | "r = Inr None" | d where "r = Inr (Some d)"
        by (metis sum.exhaust option.exhaust)
      then show ?thesis by cases (simp_all add: Some r r' Cons.IH fst_up deny)
    qed (simp add: Cons.IH)
  qed (simp add: fst_up)
  from this [of "k_audit k \<noteq> None" stage_order "(new_syscall vb subj ob args, k)"] show ?thesis
    unfolding kernel_syscall_run run_pipeline_def by (auto simp: up_def split: prod.split)
qed

lemma run_license_pass:
  assumes "license_ok env (tenant_arg (sc_args sc))" and "sc_context sc = []"
  shows "run_pipeline (the_stages env audited dispatcher) (sc, k) =
    run_stages (the_stages env audited dispatcher) (tl stage_order) (snd (license_stage env (sc, k)))"
proof -
  obtain r s' where r: "license_stage env (sc, k) = (r, s')" by (cases "license_stage env (sc, k)")
  from license_passes [OF assms(2), of env k] assms(1) r have "r = Inr None"
    by (auto simp: license_stage_def license_ok_def passes_def tenant_arg_def arg_def assms(2) Let_def denied_def
        split: option.splits sum.splits if_splits)
  with r show ?thesis by (simp add: run_pipeline_def stage_order_def the_stages_lookup)
qed

lemma run_stages_pass:
  "map_of pl n = Some st \<Longrightarrow> passes st s \<Longrightarrow> run_stages pl (n # ns) s = run_stages pl ns (snd (st s))"
proof -
  assume st: "map_of pl n = Some st" and pass: "passes st s"
  obtain r s' where r: "st s = (r, s')" by (cases "st s")
  consider e where "r = Inl e" | "r = Inr None" | d where "r = Inr (Some d)" by (metis sum.exhaust option.exhaust)
  then show ?thesis using st pass r by cases (simp_all add: passes_def allowed_def)
qed

lemma quota_stage_granted:
  assumes "estimate_ok (sc_args sc)"
    and "d_action (check_budget (k_registry k) (k_enforcer k) (sc_subject sc) (estimate (sc_args sc)) (k_budgets k)) = Allow"
  shows "\<exists>n. snd (quota_stage env (sc, k)) = (sc\<lparr>sc_ticket := Some (e_ticket env)\<rparr>,
    k\<lparr>k_budgets := snd (reserve (k_registry k) (k_enforcer k) (e_ticket env) (sc_subject sc)
        (estimate (sc_args sc)) n (k_budgets k))\<rparr>)"
  using assms by (auto simp: quota_stage_def estimate_ok_def estimate_def Let_def reserve_def)

lemma run_boundary_deny:
  assumes "\<not> boundary_ok (sc_args sc) (k_registry k) (sc_subject sc)"
  shows "\<exists>d. fst (run_stages (the_stages env audited dispatcher) [''policy'', ''boundary'', ''dispatch'', ''audit''] (sc, k)) = d
      \<and> denied d \<and> d_details d = [] \<and>
    snd (snd (run_stages (the_stages env audited dispatcher) [''policy'', ''boundary'', ''dispatch'', ''audit''] (sc, k))) = k"
proof -
  let ?ns = "arg (sc_args sc) ''target_namespace''"
  let ?d = "data_access (k_registry k) (sc_subject sc) (py_str ?ns)"
  from assms have ns: "?ns \<noteq> PNone" and d: "\<not> allowed ?d" by (auto simp: boundary_ok_def)
  have "d_action ?d \<in> {Allow, Deny}" and det: "d_details ?d = []"
    by (auto simp: data_access_def Let_def split: option.split)
  with d have den: "d_action ?d = Deny" by (auto simp: allowed_def)
  have "boundary_stage (sc, k) = (Inr (Some ?d), sc, k)"
    using ns by (simp add: boundary_stage_def split: pyval.split)
  then show ?thesis
    by (simp add: the_stages_lookup policy_stage_inert den det denied_def audit_on_deny_context)
qed

subsection \<open>Properties\<close>


text \<open>The pipeline never records anything in the audit log: its audit stage calls \<open>record\<close> with the
  keyword \<open>agent_id\<close>, which \<open>AuditLog.record\<close> does not take, and swallows the \<open>TypeError\<close>.  No syscall,
  allowed or denied, changes the log, the registry, the policies or the enforcer.\<close>

theorem syscalls_are_never_audited:
  "k_audit (snd (kernel_syscall env vb subj ob args None k)) = k_audit k \<and>
   k_registry (snd (kernel_syscall env vb subj ob args None k)) = k_registry k \<and>
   k_policies (snd (kernel_syscall env vb subj ob args None k)) = k_policies k \<and>
   k_enforcer (snd (kernel_syscall env vb subj ob args None k)) = k_enforcer k"
  using kernel_syscall_frame [of k env vb subj ob args] by (simp add: kernel_frame_def)

text \<open>The loaded policies have no effect on any syscall: replacing the whole policy engine changes
  neither the decision nor the resulting state, because the policy stage calls the engine with one
  argument too few and takes the \<open>TypeError\<close> for a pass.\<close>

theorem policies_do_not_affect_syscalls:
  "fst (kernel_syscall env vb subj ob args None (k\<lparr>k_policies := pe\<rparr>)) =
     fst (kernel_syscall env vb subj ob args None k) \<and>
   snd (kernel_syscall env vb subj ob args None (k\<lparr>k_policies := pe\<rparr>)) =
     (snd (kernel_syscall env vb subj ob args None k))\<lparr>k_policies := pe\<rparr>"
  by (simp add: frozen_policies)

text \<open>A reservation leaks when a later stage denies: if license, permission and budget admit a tool
  call but the data boundary does not, the caller gets a denial that carries no ticket, while the
  estimate stays reserved for the agent under the new ticket, which nothing will settle.\<close>

theorem denied_syscall_leaks_reservation:
  assumes "license_ok env (tenant_arg args)"
    and "token_ok env args subj (''tool:'' @ tool) ''tool.call'' (k_caps k) = Inr True"
    and "estimate_ok args"
    and "d_action (check_budget (k_registry k) (k_enforcer k) subj (estimate args) (k_budgets k)) = Allow"
    and "\<not> boundary_ok args (k_registry k) subj"
  shows "\<exists>d. fst (kernel_syscall env ''tool.call'' subj tool args None k) = Inr d \<and> denied d \<and> d_details d = [] \<and>
    (let b = k_budgets (snd (kernel_syscall env ''tool.call'' subj tool args None k))
     in map_of (reservations b) (e_ticket env) \<noteq> None \<and>
        reserved_for b subj = reserved_for (k_budgets k) subj + or_zero (estimate args))"
proof -
  let ?sc = "new_syscall ''tool.call'' subj tool args"
  let ?pl = "the_stages env (k_audit k \<noteq> None) None"
  let ?rest = "[''policy'', ''boundary'', ''dispatch'', ''audit'']"
  from license_stage_frame obtain sc1
    where l: "snd (license_stage env (?sc, k)) = (sc1, k)" and "same_call ?sc sc1" by blast
  then have f: "sc_verb sc1 = ''tool.call''" "sc_subject sc1 = subj" "sc_object sc1 = tool" "sc_args sc1 = args"
    by (simp_all add: same_call_def)
  from capability_stage_frame obtain caps
    where c: "snd (capability_stage env (sc1, k)) = (sc1, k\<lparr>k_caps := caps\<rparr>)" by blast
  let ?k1 = "k\<lparr>k_caps := caps\<rparr>"
  from quota_stage_granted [of sc1 ?k1 env] assms(3,4) f obtain n
    where q: "snd (quota_stage env (sc1, ?k1)) = (sc1\<lparr>sc_ticket := Some (e_ticket env)\<rparr>,
      ?k1\<lparr>k_budgets := snd (reserve (k_registry k) (k_enforcer k) (e_ticket env) subj (estimate args) n (k_budgets k))\<rparr>)"
    by auto
  have "run_pipeline ?pl (?sc, k) = run_stages ?pl (tl stage_order) (sc1, k)"
    using run_license_pass [of env ?sc] assms(1) l by simp
  also have "\<dots> = run_stages ?pl (''quota'' # ?rest) (sc1, ?k1)"
    using run_stages_pass [of ?pl "''capability''" "capability_stage env" "(sc1, k)" "''quota'' # ?rest"]
      capability_passes_tool_call [OF f(1), of env k] assms(2) f c
    by (simp add: stage_order_def the_stages_lookup)
  also have "\<dots> = run_stages ?pl ?rest (snd (quota_stage env (sc1, ?k1)))"
    using run_stages_pass [of ?pl "''quota''" "quota_stage env" "(sc1, ?k1)" ?rest] assms(3,4) f
    by (simp add: the_stages_lookup quota_passes)
  finally have run: "run_pipeline ?pl (?sc, k) = run_stages ?pl ?rest (snd (quota_stage env (sc1, ?k1)))" .
  from run_boundary_deny [of "sc1\<lparr>sc_ticket := Some (e_ticket env)\<rparr>"] assms(5) f
  obtain d where "fst (run_pipeline ?pl (?sc, k)) = d" "denied d" "d_details d = []"
    "snd (snd (run_pipeline ?pl (?sc, k))) =
       ?k1\<lparr>k_budgets := snd (reserve (k_registry k) (k_enforcer k) (e_ticket env) subj (estimate args) n (k_budgets k))\<rparr>"
    unfolding run q by fastforce
  moreover have "map_of (reservations (snd (reserve (k_registry k) (k_enforcer k) (e_ticket env) subj (estimate args)
      n (k_budgets k)))) (e_ticket env) \<noteq> None"
    using assms(4) by (simp add: reserve_state)
  ultimately show ?thesis
    unfolding kernel_syscall_run
    using assms(4) by (auto simp: reserved_for_reserve Let_def split: prod.split)
qed

definition demo_env :: kenv where
  "demo_env = \<lparr>e_license = None, e_acl = None, e_bound_env = None, e_production = False, e_digest = \<lambda>b. [],
     e_now = 5, e_now2 = 5, e_ticket = ''tk'', e_entry_id = ''e''\<rparr>"

definition demo_kernel :: kernel where
  "demo_kernel = \<lparr>k_registry = Some demo_registry, k_enforcer = None, k_budgets = empty_budgets,
     k_caps = [(''cap'', \<lparr>tok_id = ''cap'', subject = ''a1'', target = ''tool:mail.send'', verb = ''tool.call'',
       issued_at = 0, expires_at = None, metadata = []\<rparr>)],
     k_policies = [], k_audit = None\<rparr>"

definition demo_args :: details where
  "demo_args = [(''capability_token'', PStr ''cap''), (''estimated_cost_usd'', PFloat 2),
     (''target_namespace'', PStr ''hr'')]"

theorem denied_syscall_leaks_reservation_witness:
  "reserved_for (k_budgets (snd (kernel_syscall demo_env ''tool.call'' ''a1'' ''mail.send'' demo_args None demo_kernel)))
     ''a1'' = 2"
proof -
  have g: "reg_get demo_registry ''a1'' = Some demo_agent" by (simp add: demo_registry_def reg_get_def)
  have "license_ok demo_env (tenant_arg demo_args)" by (simp add: license_ok_def demo_env_def)
  moreover have "token_ok demo_env demo_args ''a1'' (''tool:'' @ ''mail.send'') ''tool.call'' (k_caps demo_kernel) = Inr True"
    by (simp add: token_ok_def token_authorizes_def demo_args_def arg_def dget_default_def demo_kernel_def
        cap_authorize_def mem_load_def is_expired_def authorizes_def)
  moreover have "estimate_ok demo_args" and est: "estimate demo_args = Some 2"
    by (simp_all add: estimate_ok_def estimate_def demo_args_def dget_default_def)
  moreover have "d_action (check_budget (k_registry demo_kernel) (k_enforcer demo_kernel) ''a1''
      (estimate demo_args) (k_budgets demo_kernel)) = Allow"
    by (simp add: est demo_kernel_def check_budget_def g budgets_of_def demo_agent_def some_nonzero_def)
  moreover have "\<not> boundary_ok demo_args (k_registry demo_kernel) ''a1''"
    by (simp add: boundary_ok_def demo_args_def arg_def dget_default_def demo_kernel_def data_access_def g
        demo_agent_def data_of_def py_str_def allowed_def)
  ultimately have "reserved_for (k_budgets (snd (kernel_syscall demo_env ''tool.call'' ''a1'' ''mail.send'' demo_args
      None demo_kernel))) ''a1'' = reserved_for (k_budgets demo_kernel) ''a1'' + or_zero (estimate demo_args)"
    using denied_syscall_leaks_reservation [of demo_env demo_args "''a1''" "''mail.send''" demo_kernel]
    by (auto simp: Let_def)
  then show ?thesis by (simp add: est or_zero_def demo_kernel_def empty_budgets_def reserved_for_def)
qed

text \<open>Every \<open>data.read\<close> syscall is denied, whatever the agent may read, because the capability stage
  asks the permission manager for a method it does not have; nothing is reserved.\<close>

theorem data_read_always_denied:
  "\<exists>d. fst (kernel_syscall env ''data.read'' subj ob args dispatcher k) = Inr d \<and> denied d \<and>
    k_budgets (snd (kernel_syscall env ''data.read'' subj ob args dispatcher k)) = k_budgets k"
proof -
  let ?sc = "new_syscall ''data.read'' subj ob args"
  let ?pl = "the_stages env (k_audit k \<noteq> None) dispatcher"
  from license_stage_frame obtain sc1
    where l: "snd (license_stage env (?sc, k)) = (sc1, k)" and "same_call ?sc sc1" by blast
  then have v: "sc_verb sc1 = ''data.read''" by (simp add: same_call_def)
  obtain r where r: "license_stage env (?sc, k) = (r, sc1, k)" using l by (cases "license_stage env (?sc, k)") auto
  have cap: "capability_stage env (sc1, k) = (Inl (AttributeError ''check_data_access''), sc1, k)"
    using v by (simp add: capability_stage_def Let_def)
  have den: "r = Inr (Some d) \<Longrightarrow> d_action d = Deny" for d
    using r by (auto simp: license_stage_def Let_def denied_def split: option.splits sum.splits if_splits)
  have "denied (fst (run_pipeline ?pl (?sc, k))) \<and> k_budgets (snd (snd (run_pipeline ?pl (?sc, k)))) = k_budgets k"
  proof -
    consider e where "r = Inl e" | "r = Inr None" | d where "r = Inr (Some d)" by (metis sum.exhaust option.exhaust)
    then show ?thesis
      by cases (simp_all add: run_pipeline_def stage_order_def the_stages_lookup r cap den denied_def
          audit_on_deny_context)
  qed
  then show ?thesis unfolding kernel_syscall_run by (auto split: prod.split)
qed

end
