(* ===== verification/NamespacePolicy.thy ===== *)
theory NamespacePolicy
  imports Registry Pyrt
begin

text \<open>
  Namespace and global policies (\<open>src/src/platform/namespace_policy.py\<close>), with the shell patterns of
  \<open>fnmatch\<close> they match tool names against.  A contract is what these functions read of it, after
  the \<open>_governance\<close> and \<open>_boundaries\<close> bags of its metadata.  The Postgres stores are not modelled.
\<close>

subsection \<open>Shell patterns\<close>

text \<open>A bracket expression after its \<open>[\<close>: negated or not, its body, and the rest of the pattern; a
  bracket that is never closed is a literal.\<close>

definition close_bracket :: "bool \<Rightarrow> string \<Rightarrow> (bool \<times> string \<times> string) option" where
  "close_bracket neg t =
     (let k = (if t \<noteq> [] \<and> hd t = CHR '']'' then 1 else 0);
          rest = dropWhile (\<lambda>c. c \<noteq> CHR '']'') (drop k t)
      in if rest = [] then None
         else Some (neg, take k t @ takeWhile (\<lambda>c. c \<noteq> CHR '']'') (drop k t), tl rest))"

definition bracket :: "string \<Rightarrow> (bool \<times> string \<times> string) option" where
  "bracket s = (if s \<noteq> [] \<and> hd s = CHR ''!'' then close_bracket True (tl s) else close_bracket False s)"

definition char_le :: "char \<Rightarrow> char \<Rightarrow> bool" where
  "char_le c d = ((of_char c :: nat) \<le> of_char d)"

text \<open>The members of a bracket expression, ranges from left to right.\<close>

fun class_has :: "string \<Rightarrow> char \<Rightarrow> bool" where
  "class_has [] x = False"
| "class_has [a] x = (a = x)"
| "class_has [a, b] x = (a = x \<or> b = x)"
| "class_has (a # b # c # r) x =
     (if b = CHR ''-'' then (char_le a x \<and> char_le x c) \<or> class_has r x
      else a = x \<or> class_has (b # c # r) x)"

lemma close_bracket_shorter: "close_bracket neg t = Some (n, b, r) \<Longrightarrow> length r < length t"
proof -
  assume a: "close_bracket neg t = Some (n, b, r)"
  define k :: nat where "k = (if t \<noteq> [] \<and> hd t = CHR '']'' then 1 else 0)"
  define rest where "rest = dropWhile (\<lambda>c. c \<noteq> CHR '']'') (drop k t)"
  from a have "(if rest = [] then None
      else Some (neg, take k t @ takeWhile (\<lambda>c. c \<noteq> CHR '']'') (drop k t), tl rest)) = Some (n, b, r)"
    by (simp only: close_bracket_def Let_def k_def rest_def)
  then have "rest \<noteq> []" "r = tl rest" by (cases "rest = []"; simp)+
  then have "length r < length rest" by (cases rest) auto
  also have "\<dots> \<le> length (drop k t)" unfolding rest_def by (rule length_dropWhile_le)
  also have "\<dots> \<le> length t" by simp
  finally show ?thesis .
qed

lemma bracket_shorter: "bracket s = Some (n, b, r) \<Longrightarrow> length r < length s"
  using close_bracket_shorter [of True "tl s" n b r] close_bracket_shorter [of False s n b r]
  by (cases s) (simp_all add: bracket_def split: if_splits)

function fnmatch :: "string \<Rightarrow> string \<Rightarrow> bool" where
  "fnmatch s p =
     (case p of
        [] \<Rightarrow> s = []
      | c # q \<Rightarrow>
        if c = CHR ''*'' then fnmatch s q \<or> (case s of [] \<Rightarrow> False | _ # t \<Rightarrow> fnmatch t p)
        else (case s of [] \<Rightarrow> False
          | x # t \<Rightarrow>
            if c = CHR ''?'' then fnmatch t q
            else if c = CHR ''['' then
              (case bracket q of
                 None \<Rightarrow> x = c \<and> fnmatch t q
               | Some (neg, body, r) \<Rightarrow> class_has body x \<noteq> neg \<and> fnmatch t r)
            else x = c \<and> fnmatch t q))"
  by pat_completeness auto
termination
  by (relation "measure (\<lambda>(s, p). length s + length p)") (auto dest: bracket_shorter)

declare fnmatch.simps [simp del]

lemma fnmatch_Nil [simp]: "fnmatch s [] \<longleftrightarrow> s = []"
  by (simp add: fnmatch.simps [of s])

lemma fnmatch_star: "fnmatch s (CHR ''*'' # q) \<longleftrightarrow> (\<exists>u t. s = u @ t \<and> fnmatch t q)"
proof (induction s)
  case Nil
  show ?case by (simp add: fnmatch.simps [of "[]" "CHR ''*'' # q"])
next
  case (Cons x s)
  have "fnmatch (x # s) (CHR ''*'' # q) \<longleftrightarrow> fnmatch (x # s) q \<or> fnmatch s (CHR ''*'' # q)"
    by (simp add: fnmatch.simps [of "x # s" "CHR ''*'' # q"])
  also have "\<dots> \<longleftrightarrow> (\<exists>u t. x # s = u @ t \<and> fnmatch t q)"
    unfolding Cons.IH by (metis append_Cons append_Nil neq_Nil_conv list.inject)
  finally show ?case .
qed

definition plain :: "string \<Rightarrow> bool" where
  "plain p = list_all (\<lambda>c. c \<notin> {CHR ''*'', CHR ''?'', CHR ''[''}) p"

lemma fnmatch_plain_append: "plain p \<Longrightarrow> fnmatch s (p @ q) \<longleftrightarrow> (\<exists>t. s = p @ t \<and> fnmatch t q)"
proof (induction p arbitrary: s)
  case (Cons c p)
  then show ?case
    by (cases s) (auto simp: plain_def fnmatch.simps [of _ "c # p @ q"])
qed simp

lemma fnmatch_plain: "plain p \<Longrightarrow> fnmatch s p \<longleftrightarrow> s = p"
  using fnmatch_plain_append [of p s "[]"] by simp

lemma fnmatch_prefix: "plain p \<Longrightarrow> fnmatch s (p @ ''*'') \<longleftrightarrow> starts_with p s"
  by (auto simp: fnmatch_plain_append fnmatch_star starts_with_append)

lemma fnmatch_any [simp]: "fnmatch s ''*''"
  by (simp add: fnmatch_star)

subsection \<open>Policies\<close>

record ns_policy =
  np_namespace :: string
  np_max_agents :: "int option"
  np_daily_budget_usd :: "rat option"
  np_allowed_tools :: "string list"
  np_denied_tools :: "string list"
  np_required_audit_level :: string
  np_required_hitl_events :: "string list"
  np_allowed_stacks :: "string list"
  np_pii_policy :: string
  np_max_cost_per_agent_day :: "rat option"

record global_policy =
  gp_max_daily_budget_usd :: "rat option"
  gp_max_per_task_budget_usd :: "rat option"
  gp_denied_tools :: "string list"
  gp_required_audit_level :: string
  gp_required_hitl_events :: "string list"
  gp_pii_policy :: string

text \<open>What the policies read of a contract; \<open>None\<close> is an absent key.\<close>

record contract =
  ct_stack :: "string option"
  ct_tools :: "string list"
  ct_hitl_events :: "string list"
  ct_audit_level :: "string option"
  ct_daily_usd :: "rat option"
  ct_per_task_usd :: "rat option"

definition get_str :: "string option \<Rightarrow> string \<Rightarrow> string" where
  "get_str x d = (case x of None \<Rightarrow> d | Some s \<Rightarrow> s)"

definition is_tool_allowed :: "ns_policy \<Rightarrow> string \<Rightarrow> bool" where
  "is_tool_allowed p tool =
     (if list_ex (fnmatch tool) (np_denied_tools p) then False
      else if np_allowed_tools p \<noteq> [] then list_ex (fnmatch tool) (np_allowed_tools p)
      else True)"

definition is_tool_denied :: "global_policy \<Rightarrow> string \<Rightarrow> bool" where
  "is_tool_denied p tool = list_ex (fnmatch tool) (gp_denied_tools p)"

definition audit_order :: "string \<Rightarrow> nat option" where
  "audit_order l = map_of [(''none'', 0), (''basic'', 1), (''full'', 2)] l"

definition pii_order :: "string \<Rightarrow> nat option" where
  "pii_order l = map_of [(''allow'', 0), (''detect'', 1), (''mask'', 2), (''redact'', 3), (''block'', 4)] l"

definition rank_or :: "nat \<Rightarrow> nat option \<Rightarrow> nat" where
  "rank_or d x = (case x of None \<Rightarrow> d | Some n \<Rightarrow> n)"

definition validate_agent :: "ns_policy \<Rightarrow> contract \<Rightarrow> int \<Rightarrow> string list" where
  "validate_agent p c count =
     (case np_max_agents p of None \<Rightarrow> []
      | Some m \<Rightarrow> if m \<le> count
          then [''Namespace '' @ quoted (np_namespace p) @ '' at capacity: '' @ str_int count @ ''/'' @
                str_int m @ '' agents''] else [])
     @ (if np_allowed_stacks p \<noteq> [] \<and> get_str (ct_stack c) ''forgeos'' \<notin> set (np_allowed_stacks p)
        then [''Stack '' @ quoted (get_str (ct_stack c) ''forgeos'') @ '' not allowed in namespace '' @
              quoted (np_namespace p) @ ''. Allowed: '' @ repr_strs (np_allowed_stacks p)] else [])
     @ map (\<lambda>tool. ''Tool '' @ quoted tool @ '' denied by namespace policy for '' @ quoted (np_namespace p))
         (filter (\<lambda>tool. \<not> is_tool_allowed p tool) (ct_tools c))
     @ map (\<lambda>ev. ''Namespace '' @ quoted (np_namespace p) @ '' requires HITL for event '' @ quoted ev @
              '' but agent does not configure it'')
         (filter (\<lambda>ev. ev \<notin> set (ct_hitl_events c)) (np_required_hitl_events p))
     @ (if np_required_audit_level p \<noteq> ''none'' \<and>
           rank_or 2 (audit_order (get_str (ct_audit_level c) ''full'')) <
           rank_or 1 (audit_order (np_required_audit_level p))
        then [''Agent audit_level '' @ quoted (get_str (ct_audit_level c) ''full'') @ '' below namespace minimum '' @
              quoted (np_required_audit_level p)] else [])
     @ (case (np_max_cost_per_agent_day p, ct_daily_usd c) of
          (Some cap, Some daily) \<Rightarrow> if cap < daily
            then [''Agent daily budget $'' @ str_float daily @ '' exceeds namespace max $'' @ str_float cap] else []
        | _ \<Rightarrow> [])"

subsection \<open>The store\<close>

type_synonym policy_store = "(string, ns_policy) dict"

definition nps_apply :: "ns_policy \<Rightarrow> policy_store \<Rightarrow> policy_store" where
  "nps_apply p s = dset (np_namespace p) p s"

definition nps_get :: "policy_store \<Rightarrow> string \<Rightarrow> ns_policy option" where
  "nps_get s ns = map_of s ns"

definition nps_delete :: "string \<Rightarrow> policy_store \<Rightarrow> bool \<times> policy_store" where
  "nps_delete ns s = (map_of s ns \<noteq> None, dpop ns s)"

definition nps_list_all :: "policy_store \<Rightarrow> ns_policy list" where
  "nps_list_all s = dvals s"

definition count_agents_in_namespace :: "string \<Rightarrow> registry option \<Rightarrow> nat" where
  "count_agents_in_namespace ns reg =
     (case reg of None \<Rightarrow> 0 | Some r \<Rightarrow> length (filter (\<lambda>a. a_namespace a = ns) (reg_list_all r)))"

interpretation nps: keyed_store np_namespace "\<lambda>p. p" "[]" nps_apply nps_get nps_delete nps_list_all
  "keyed np_namespace"
proof -
  have "nps_apply = (\<lambda>r d. dset (np_namespace r) r d)" and "nps_get = map_of"
    and "nps_delete = (\<lambda>k d. (map_of d k \<noteq> None, dpop k d))" and "nps_list_all = dvals"
    by (simp_all add: fun_eq_iff nps_apply_def nps_get_def nps_delete_def nps_list_all_def)
  note eqs = this
  show "keyed_store np_namespace (\<lambda>p. p) [] nps_apply nps_get nps_delete nps_list_all (keyed np_namespace)"
    unfolding eqs by (rule keyed_dict_store) (rule refl)
qed

subsection \<open>The effective policy\<close>

record effective =
  ef_denied_tools :: "string list"
  ef_max_daily_budget_usd :: "rat option"
  ef_max_per_task_budget_usd :: "rat option"
  ef_required_audit_level :: string
  ef_required_hitl_events :: "string set"
  ef_pii_policy :: string

text \<open>\<open>max(xs, key=f)\<close> (the first maximal element) and \<open>min(xs)\<close>.\<close>

fun max_key :: "('a \<Rightarrow> nat) \<Rightarrow> 'a \<Rightarrow> 'a list \<Rightarrow> 'a" where
  "max_key f b [] = b"
| "max_key f b (x # xs) = max_key f (if f b < f x then x else b) xs"

definition min_opt :: "rat list \<Rightarrow> rat option" where
  "min_opt xs = (case xs of [] \<Rightarrow> None | x # ys \<Rightarrow> Some (fold min ys x))"

definition opt_list :: "'a option \<Rightarrow> 'a list" where
  "opt_list x = (case x of None \<Rightarrow> [] | Some y \<Rightarrow> [y])"

definition from_policy :: "'p option \<Rightarrow> ('p \<Rightarrow> 'a list) \<Rightarrow> 'a list" where
  "from_policy p f = (case p of None \<Rightarrow> [] | Some q \<Rightarrow> f q)"

definition resolve_effective_policy :: "global_policy option \<Rightarrow> ns_policy option \<Rightarrow> contract \<Rightarrow> effective" where
  "resolve_effective_policy gp np c =
     (let denied = from_policy gp gp_denied_tools @ from_policy np np_denied_tools;
          daily = from_policy gp (\<lambda>p. opt_list (gp_max_daily_budget_usd p)) @
                  from_policy np (\<lambda>p. opt_list (np_max_cost_per_agent_day p)) @ opt_list (ct_daily_usd c);
          per_task = from_policy gp (\<lambda>p. opt_list (gp_max_per_task_budget_usd p)) @ opt_list (ct_per_task_usd c);
          audits = from_policy gp (\<lambda>p. [gp_required_audit_level p]) @
                   from_policy np (\<lambda>p. [np_required_audit_level p]) @ [get_str (ct_audit_level c) ''full''];
          events = from_policy gp gp_required_hitl_events @ from_policy np np_required_hitl_events @
                   filter (\<lambda>ev. ev \<noteq> []) (ct_hitl_events c);
          piis = from_policy gp (\<lambda>p. [gp_pii_policy p]) @ from_policy np (\<lambda>p. [np_pii_policy p])
      in \<lparr>ef_denied_tools = denied, ef_max_daily_budget_usd = min_opt daily,
          ef_max_per_task_budget_usd = min_opt per_task,
          ef_required_audit_level = (case audits of [] \<Rightarrow> ''basic''
             | x # xs \<Rightarrow> max_key (\<lambda>l. rank_or 0 (audit_order l)) x xs),
          ef_required_hitl_events = set events,
          ef_pii_policy = (case piis of [] \<Rightarrow> ''detect''
             | x # xs \<Rightarrow> max_key (\<lambda>l. rank_or 0 (pii_order l)) x xs)\<rparr>)"

lemma max_key_upper: "x = b \<or> x \<in> set xs \<Longrightarrow> f x \<le> f (max_key f b xs)"
proof (induction xs arbitrary: b x)
  case (Cons y ys)
  show ?case
  proof (cases "x = b \<or> x = y")
    case True
    then have "f x \<le> f (if f b < f y then y else b)" by auto
    also have "\<dots> \<le> f (max_key f (if f b < f y then y else b) ys)" by (rule Cons.IH) simp
    finally show ?thesis by simp
  next
    case False
    with Cons show ?thesis by simp
  qed
qed simp

lemma max_key_mem: "max_key f b xs = b \<or> max_key f b xs \<in> set xs"
  by (induction xs arbitrary: b) (auto split: if_splits)

lemma fold_min_lower: "x = (b :: rat) \<or> x \<in> set xs \<Longrightarrow> fold min xs b \<le> x"
proof (induction xs arbitrary: b x)
  case (Cons y ys)
  have step: "fold min ys (min y b) \<le> min y b" by (rule Cons.IH) simp
  from Cons.prems consider "x = b" | "x = y" | "x \<in> set ys" by auto
  then show ?case
  proof cases
    case 3
    then have "fold min ys (min y b) \<le> x" by (intro Cons.IH disjI2)
    then show ?thesis by simp
  qed (use order_trans [OF step, of x] in simp_all)
qed simp

lemma fold_min_mem: "fold min xs (b :: rat) = b \<or> fold min xs b \<in> set xs"
proof (induction xs arbitrary: b)
  case (Cons y ys)
  from Cons.IH [of "min y b"] show ?case by (auto simp: min_def split: if_splits)
qed simp

lemma min_opt_lower: "x \<in> set xs \<Longrightarrow> \<exists>m. min_opt xs = Some m \<and> m \<le> x"
  using fold_min_lower by (cases xs) (auto simp: min_opt_def)

lemma min_opt_mem: "min_opt xs = Some m \<Longrightarrow> m \<in> set xs"
  using fold_min_mem by (cases xs) (fastforce simp: min_opt_def)+

subsection \<open>Properties\<close>

text \<open>A shell pattern without special characters matches only itself, one that ends in a star
  matches every tool with that prefix, and a star anywhere matches any stretch of the name; so a
  denied prefix denies every tool below it, whatever the allowed patterns are.\<close>

theorem denied_prefix_denies:
  assumes "plain p" and "p @ ''*'' \<in> set (np_denied_tools pol)"
  shows "\<not> is_tool_allowed pol (p @ rest)"
proof -
  have "fnmatch (p @ rest) (p @ ''*'')" by (simp add: fnmatch_prefix [OF assms(1)] starts_with_append)
  with assms(2) show ?thesis by (auto simp: is_tool_allowed_def list_ex_iff)
qed

definition demo_policy :: ns_policy where
  "demo_policy = \<lparr>np_namespace = ''ops'', np_max_agents = Some 2, np_daily_budget_usd = Some 1,
     np_allowed_tools = [''*''], np_denied_tools = [''shell.*''], np_required_audit_level = ''full'',
     np_required_hitl_events = [''deploy''], np_allowed_stacks = [''forgeos''], np_pii_policy = ''mask'',
     np_max_cost_per_agent_day = Some 5\<rparr>"

definition demo_contract :: contract where
  "demo_contract = \<lparr>ct_stack = None, ct_tools = [''mail.send''], ct_hitl_events = [''deploy''],
     ct_audit_level = Some ''basic'', ct_daily_usd = Some 9, ct_per_task_usd = None\<rparr>"

theorem denied_prefix_denies_witness:
  "\<not> is_tool_allowed demo_policy (''shell.'' @ ''exec'')"
  by (rule denied_prefix_denies) (simp_all add: plain_def demo_policy_def)

text \<open>The effective policy is never looser than any of its three sources: it denies every pattern
  that the global or the namespace policy denies, its daily budget exists and is at most each
  budget that was declared, its audit level and its treatment of personal data rank at least as
  high as each one required, and it requires every required event.\<close>

theorem effective_policy_tightens:
  "let e = resolve_effective_policy (Some gp) (Some np) c in
    set (gp_denied_tools gp) \<union> set (np_denied_tools np) \<subseteq> set (ef_denied_tools e) \<and>
    (\<forall>cap \<in> set_option (gp_max_daily_budget_usd gp) \<union> set_option (np_max_cost_per_agent_day np) \<union>
        set_option (ct_daily_usd c). \<exists>m. ef_max_daily_budget_usd e = Some m \<and> m \<le> cap) \<and>
    (\<forall>l \<in> {gp_required_audit_level gp, np_required_audit_level np, get_str (ct_audit_level c) ''full''}.
       rank_or 0 (audit_order l) \<le> rank_or 0 (audit_order (ef_required_audit_level e))) \<and>
    (\<forall>l \<in> {gp_pii_policy gp, np_pii_policy np}. rank_or 0 (pii_order l) \<le> rank_or 0 (pii_order (ef_pii_policy e))) \<and>
    set (gp_required_hitl_events gp) \<union> set (np_required_hitl_events np) \<union> (set (ct_hitl_events c) - {[]}) \<subseteq>
      ef_required_hitl_events e"
proof -
  let ?e = "resolve_effective_policy (Some gp) (Some np) c"
  have opt: "x \<in> set (opt_list y) \<longleftrightarrow> y = Some x" for x :: rat and y by (cases y) (auto simp: opt_list_def)
  have daily: "ef_max_daily_budget_usd ?e = min_opt (opt_list (gp_max_daily_budget_usd gp) @
      opt_list (np_max_cost_per_agent_day np) @ opt_list (ct_daily_usd c))"
    by (simp add: resolve_effective_policy_def from_policy_def Let_def)
  have audit: "ef_required_audit_level ?e = max_key (\<lambda>l. rank_or 0 (audit_order l)) (gp_required_audit_level gp)
      [np_required_audit_level np, get_str (ct_audit_level c) ''full'']"
    by (simp add: resolve_effective_policy_def from_policy_def Let_def del: max_key.simps)
  have pii: "ef_pii_policy ?e = max_key (\<lambda>l. rank_or 0 (pii_order l)) (gp_pii_policy gp) [np_pii_policy np]"
    by (simp add: resolve_effective_policy_def from_policy_def Let_def del: max_key.simps)
  have "\<exists>m. ef_max_daily_budget_usd ?e = Some m \<and> m \<le> cap"
    if "cap \<in> set_option (gp_max_daily_budget_usd gp) \<union> set_option (np_max_cost_per_agent_day np) \<union>
        set_option (ct_daily_usd c)" for cap
    unfolding daily using that by (intro min_opt_lower) (auto simp: opt)
  moreover have "rank_or 0 (audit_order l) \<le> rank_or 0 (audit_order (ef_required_audit_level ?e))"
    if "l \<in> {gp_required_audit_level gp, np_required_audit_level np, get_str (ct_audit_level c) ''full''}" for l
    unfolding audit using that max_key_upper [of l _ _ "\<lambda>l. rank_or 0 (audit_order l)"] by auto
  moreover have "rank_or 0 (pii_order l) \<le> rank_or 0 (pii_order (ef_pii_policy ?e))"
    if "l \<in> {gp_pii_policy gp, np_pii_policy np}" for l
    unfolding pii using that max_key_upper [of l _ _ "\<lambda>l. rank_or 0 (pii_order l)"] by auto
  moreover have "set (gp_denied_tools gp) \<union> set (np_denied_tools np) \<subseteq> set (ef_denied_tools ?e)"
    "set (gp_required_hitl_events gp) \<union> set (np_required_hitl_events np) \<union> (set (ct_hitl_events c) - {[]}) \<subseteq>
      ef_required_hitl_events ?e"
    by (auto simp: resolve_effective_policy_def from_policy_def Let_def)
  ultimately show ?thesis unfolding Let_def by blast
qed

definition demo_global :: global_policy where
  "demo_global = \<lparr>gp_max_daily_budget_usd = Some 7, gp_max_per_task_budget_usd = None, gp_denied_tools = [''db.*''],
     gp_required_audit_level = ''none'', gp_required_hitl_events = [], gp_pii_policy = ''block''\<rparr>"

theorem effective_policy_tightens_witness:
  "\<exists>m. ef_max_daily_budget_usd (resolve_effective_policy (Some demo_global) (Some demo_policy) demo_contract) = Some m
    \<and> m \<le> 5"
  using effective_policy_tightens [of demo_global demo_policy demo_contract]
  by (simp add: Let_def demo_policy_def)

text \<open>A contract passes the validation of a namespace policy exactly when the namespace has room, the
  stack is allowed (an agent that names none counts as \<open>forgeos\<close>), every tool it lists is allowed,
  every required event is configured, its audit level is not below the required one (an unknown
  level counts as the highest), and its declared daily budget does not exceed the cap.\<close>

theorem validate_agent_accepts_iff:
  "validate_agent p c count = [] \<longleftrightarrow>
    pred_option (\<lambda>m. count < m) (np_max_agents p) \<and>
    (if np_allowed_stacks p = [] then True else get_str (ct_stack c) ''forgeos'' \<in> set (np_allowed_stacks p)) \<and>
    list_all (is_tool_allowed p) (ct_tools c) \<and>
    set (np_required_hitl_events p) \<subseteq> set (ct_hitl_events c) \<and>
    (if np_required_audit_level p = ''none'' then True
     else rank_or 1 (audit_order (np_required_audit_level p)) \<le>
       rank_or 2 (audit_order (get_str (ct_audit_level c) ''full''))) \<and>
    (case (np_max_cost_per_agent_day p, ct_daily_usd c) of (Some cap, Some daily) \<Rightarrow> daily \<le> cap | _ \<Rightarrow> True)"
proof -
  have room: "(case np_max_agents p of None \<Rightarrow> [] | Some m \<Rightarrow> if m \<le> count then [f m] else []) = [] \<longleftrightarrow>
      pred_option (\<lambda>m. count < m) (np_max_agents p)" for f :: "int \<Rightarrow> string"
    by (auto split: option.split)
  have cap: "(case (x, y) of (Some cap, Some daily) \<Rightarrow> if cap < daily then [g cap daily] else [] | _ \<Rightarrow> []) = [] \<longleftrightarrow>
      (case (x, y) of (Some cap, Some daily) \<Rightarrow> daily \<le> cap | _ \<Rightarrow> True)"
    for g :: "rat \<Rightarrow> rat \<Rightarrow> string" and x y
    by (auto split: option.split)
  show ?thesis
    unfolding validate_agent_def append_is_Nil_conv room cap map_is_Nil_conv filter_empty_conv
    by (auto simp: list_all_iff not_less)
qed

end
