(* ===== verification/Facade.thy ===== *)
theory Facade
  imports Syscall NamespacePolicy Process
begin

text \<open>
  The kernel facade (\<open>Kernel\<close> in \<open>src/src/platform/kernel/_facade.py\<close>): the composite tool check with
  its audit records, the audited A2A check, the effective policy, and cooperative signals.  It adds
  the global policy and the namespace policy store to the kernel state of the syscall pipeline.
\<close>

record facade = kernel +
  f_global :: "global_policy option"
  f_policies :: "policy_store option"

text \<open>\<open>_audit\<close>: one record with these keywords; a failure to record is dropped.\<close>

definition kernel_audit :: "kenv \<Rightarrow> string \<Rightarrow> string \<Rightarrow> details \<Rightarrow> facade \<Rightarrow> facade" where
  "kernel_audit env actn rid dets k =
     (case k_audit k of
        None \<Rightarrow> k
      | Some al \<Rightarrow>
        (case audit_record_kw (e_digest env) (e_entry_id env) (e_now env) actn
            [(''resource_type'', PStr ''agent''), (''resource_id'', PStr rid), (''outcome'', PStr ''info''),
             (''details'', PDict dets)] al of
           Inl _ \<Rightarrow> k
         | Inr al' \<Rightarrow> k\<lparr>k_audit := Some al'\<rparr>))"

text \<open>How the composite check ends: a decision, with the action and details it audits, if any.\<close>

type_synonym exit = "decision \<times> (string \<times> details) option"

definition tool_exit :: "string \<Rightarrow> string \<Rightarrow> decision \<Rightarrow> exit" where
  "tool_exit actn tool d = (d, Some (actn, [(''tool'', PStr tool), (''reason'', PStr (d_reason d))]))"

text \<open>The gates in the order of the code; \<open>None\<close> passes on to the next.\<close>

definition agent_of :: "registry option \<Rightarrow> string \<Rightarrow> agent_def option" where
  "agent_of reg aid = (case reg of None \<Rightarrow> None | Some r \<Rightarrow> reg_get r aid)"

definition gate_license :: "kenv \<Rightarrow> registry option \<Rightarrow> string \<Rightarrow> string \<Rightarrow> exit option res" where
  "gate_license env reg aid tool =
     (case (e_license env, reg) of
        (Some check, Some r) \<Rightarrow>
          (case reg_get r aid of
             None \<Rightarrow> Inr None
           | Some a \<Rightarrow> rbind (check (tenant_of a)) (\<lambda>d.
               Inr (if denied d then Some (tool_exit ''license.denied'' tool d) else None)))
      | _ \<Rightarrow> Inr (if e_production env then Some (d_deny license_required [], None) else None))"

definition gate_global :: "global_policy option \<Rightarrow> string \<Rightarrow> exit option" where
  "gate_global gp tool =
     (case gp of None \<Rightarrow> None
      | Some p \<Rightarrow>
        if is_tool_denied p tool
        then Some (d_deny (''Tool '' @ quoted tool @ '' denied by global policy'')
                     [(''tool'', PStr tool), (''stage'', PStr ''global_policy'')],
                   Some (''tool.denied'', [(''tool'', PStr tool), (''reason'', PStr ''global policy'')]))
        else None)"

definition gate_namespace :: "policy_store option \<Rightarrow> registry option \<Rightarrow> string \<Rightarrow> string \<Rightarrow> exit option" where
  "gate_namespace store reg aid tool =
     (case (store, agent_of reg aid) of
        (Some st, Some a) \<Rightarrow>
          (case nps_get st (a_namespace a) of
             None \<Rightarrow> None
           | Some p \<Rightarrow>
             if \<not> is_tool_allowed p tool
             then Some (d_deny (''Tool '' @ quoted tool @ '' denied by namespace policy for '' @ quoted (a_namespace a))
                          [(''tool'', PStr tool), (''stage'', PStr ''namespace_policy'')],
                        Some (''tool.denied'', [(''tool'', PStr tool), (''reason'', PStr ''namespace policy'')]))
             else None)
      | _ \<Rightarrow> None)"

definition gate_permission :: "registry option \<Rightarrow> string \<Rightarrow> string \<Rightarrow> pyval \<Rightarrow> exit option res" where
  "gate_permission reg aid tool inp =
     rbind (perm_tool_call reg aid tool inp) (\<lambda>d.
       Inr (if denied d then Some (tool_exit ''tool.denied'' tool d)
            else if needs_human d then Some (tool_exit ''tool.ask_human'' tool d) else None))"

definition gate_budget :: "registry option \<Rightarrow> enforcer option \<Rightarrow> budget_state \<Rightarrow> string \<Rightarrow> string \<Rightarrow>
    rat option \<Rightarrow> exit option" where
  "gate_budget reg enf b aid tool est =
     (case est of None \<Rightarrow> None
      | Some c \<Rightarrow> (let d = check_budget reg enf aid (Some c) b
          in if denied d then Some (tool_exit ''tool.budget_denied'' tool d) else None))"

definition policy_context :: "agent_def \<Rightarrow> string \<Rightarrow> pyval \<Rightarrow> pyval" where
  "policy_context a tool inp = PDict [(''tool_name'', PStr tool), (''tool_input'', or_dict inp),
     (''agent_namespace'', PStr (a_namespace a)), (''agent_name'', PStr (a_name a))]"

definition gate_policy :: "registry option \<Rightarrow> policy_engine \<Rightarrow> string \<Rightarrow> string \<Rightarrow> pyval \<Rightarrow> exit option res" where
  "gate_policy reg pe aid tool inp =
     (case agent_of reg aid of
        None \<Rightarrow> Inr None
      | Some a \<Rightarrow>
        if policies_of a = [] then Inr None
        else rbind (pe_evaluate pe (policies_of a) (policy_context a tool inp)) (\<lambda>d.
          Inr (if denied d then Some (tool_exit ''tool.policy_denied'' tool d)
               else if needs_human d then Some (tool_exit ''tool.policy_ask_human'' tool d) else None)))"

text \<open>The first gate that ends the check.\<close>

fun first_exit :: "exit option res list \<Rightarrow> exit \<Rightarrow> exit res" where
  "first_exit [] dflt = Inr dflt"
| "first_exit (g # gs) dflt = (case g of Inl e \<Rightarrow> Inl e | Inr (Some x) \<Rightarrow> Inr x | Inr None \<Rightarrow> first_exit gs dflt)"

definition composite_gates :: "kenv \<Rightarrow> string \<Rightarrow> string \<Rightarrow> pyval \<Rightarrow> rat option \<Rightarrow> facade \<Rightarrow> exit option res list" where
  "composite_gates env aid tool inp est k =
     [gate_license env (k_registry k) aid tool, Inr (gate_global (f_global k) tool),
      Inr (gate_namespace (f_policies k) (k_registry k) aid tool), gate_permission (k_registry k) aid tool inp,
      Inr (gate_budget (k_registry k) (k_enforcer k) (k_budgets k) aid tool est),
      gate_policy (k_registry k) (k_policies k) aid tool inp]"

definition facade_check_tool_call :: "kenv \<Rightarrow> string \<Rightarrow> string \<Rightarrow> pyval \<Rightarrow> rat option \<Rightarrow> facade \<Rightarrow>
    decision res \<times> facade" where
  "facade_check_tool_call env aid tool inp est k =
     (case first_exit (composite_gates env aid tool inp est k)
        (d_allow ''tool call permitted'' [(''tool'', PStr tool)], Some (''tool.allowed'', [(''tool'', PStr tool)])) of
        Inl e \<Rightarrow> (Inl e, k)
      | Inr (d, None) \<Rightarrow> (Inr d, k)
      | Inr (d, Some (actn, dets)) \<Rightarrow> (Inr d, kernel_audit env actn aid dets k))"

definition facade_check_a2a_call :: "kenv \<Rightarrow> string \<Rightarrow> string \<Rightarrow> string \<Rightarrow> facade \<Rightarrow> decision \<times> facade" where
  "facade_check_a2a_call env aid tns tname k =
     (let d = perm_a2a (k_registry k) (e_acl env) aid tns tname
      in (d, kernel_audit env (if allowed d then ''a2a.allowed'' else ''a2a.denied'') aid
               [(''target'', PStr (qual tns tname)), (''reason'', PStr (d_reason d))] k))"

definition facade_check_license :: "kenv \<Rightarrow> string \<Rightarrow> decision res" where
  "facade_check_license env tenant = (case e_license env of None \<Rightarrow> Inr (d_allow ''no license manager wired'' [])
     | Some check \<Rightarrow> check tenant)"

text \<open>What \<open>effective_policy\<close> passes on of an agent; an unknown agent has an empty contract and the
  default namespace.\<close>

definition contract_of :: "agent_def option \<Rightarrow> contract" where
  "contract_of a =
     (case a of
        None \<Rightarrow> \<lparr>ct_stack = None, ct_tools = [], ct_hitl_events = [], ct_audit_level = None, ct_daily_usd = None,
                 ct_per_task_usd = None\<rparr>
      | Some x \<Rightarrow> \<lparr>ct_stack = Some (a_stack x), ct_tools = a_tools x,
          ct_hitl_events = (case a_governance x of None \<Rightarrow> [] | Some g \<Rightarrow> map h_event (g_human_in_loop g)),
          ct_audit_level = map_option g_audit_level (a_governance x),
          ct_daily_usd = daily_usd (budgets_of x), ct_per_task_usd = per_task_usd (budgets_of x)\<rparr>)"

definition effective_policy :: "string \<Rightarrow> facade \<Rightarrow> effective" where
  "effective_policy aid k =
     (let a = agent_of (k_registry k) aid; ns = (case a of None \<Rightarrow> ''default'' | Some x \<Rightarrow> a_namespace x)
      in resolve_effective_policy (f_global k)
           (case f_policies k of None \<Rightarrow> None | Some st \<Rightarrow> nps_get st ns) (contract_of a))"

subsection \<open>Signals\<close>

text \<open>The process table is attached at boot; without one a signal is ignored.\<close>

definition kernel_signal :: "kenv \<Rightarrow> string \<Rightarrow> string \<Rightarrow> string \<Rightarrow> ptable option \<Rightarrow> facade \<Rightarrow>
    bool \<times> ptable option \<times> facade" where
  "kernel_signal env k sig why table f =
     (case table of
        None \<Rightarrow> (False, None, f)
      | Some t \<Rightarrow>
        (case pt_get t k of
           None \<Rightarrow> (False, Some t, f)
         | Some _ \<Rightarrow>
           (True, Some (record_signal k sig t),
            case k_audit f of None \<Rightarrow> f
            | Some al \<Rightarrow>
              (case audit_record_kw (e_digest env) (e_entry_id env) (e_now env) (''process.signal.'' @ lower sig)
                  [(''resource_type'', PStr ''process''), (''resource_id'', PStr k),
                   (''details'', PDict [(''signal'', PStr sig), (''reason'', PStr why)])] al of
                 Inl _ \<Rightarrow> f | Inr al' \<Rightarrow> f\<lparr>k_audit := Some al'\<rparr>))))"

definition check_signals :: "string \<Rightarrow> ptable option \<Rightarrow> string list \<times> ptable option" where
  "check_signals k table =
     (case table of
        None \<Rightarrow> ([], None)
      | Some t \<Rightarrow>
        (case pt_get t k of
           None \<Rightarrow> ([], Some t)
         | Some p \<Rightarrow> (pending_signals p, Some (fold (clear_signal k) (pending_signals p) t))))"

subsection \<open>Lemmas\<close>

lemma first_exit_default:
  assumes "\<And>x. Inr (Some x) \<in> set gs \<Longrightarrow> d_action (fst x) \<noteq> Allow" and "d_action (fst dflt) = Allow"
  shows "(\<exists>x. first_exit gs dflt = Inr x \<and> d_action (fst x) = Allow) \<longleftrightarrow> list_all (\<lambda>g. g = Inr None) gs"
  using assms
proof (induction gs)
  case (Cons g gs)
  consider e where "g = Inl e" | "g = Inr None" | x where "g = Inr (Some x)" by (metis sum.exhaust option.exhaust)
  then show ?case
    by cases (use Cons in auto)
qed simp

lemma exit_actions:
  "gate_license env reg aid tool = Inr (Some x) \<Longrightarrow> d_action (fst x) \<noteq> Allow"
  "gate_global gp tool = Some x \<Longrightarrow> d_action (fst x) \<noteq> Allow"
  "gate_namespace st reg aid tool = Some x \<Longrightarrow> d_action (fst x) \<noteq> Allow"
  "gate_permission reg aid tool inp = Inr (Some x) \<Longrightarrow> d_action (fst x) \<noteq> Allow"
  "gate_budget reg enf b aid tool est = Some x \<Longrightarrow> d_action (fst x) \<noteq> Allow"
  "gate_policy reg pe aid tool inp = Inr (Some x) \<Longrightarrow> d_action (fst x) \<noteq> Allow"
  by (auto simp: gate_license_def gate_global_def gate_namespace_def gate_permission_def gate_budget_def
      gate_policy_def tool_exit_def denied_def needs_human_def rbind_eq_Inr Let_def
      split: option.splits if_splits)

lemma facade_decision:
  "fst (facade_check_tool_call env aid tool inp est k) =
     map_sum id fst (first_exit (composite_gates env aid tool inp est k)
        (d_allow ''tool call permitted'' [(''tool'', PStr tool)], Some (''tool.allowed'', [(''tool'', PStr tool)])))"
  by (simp add: facade_check_tool_call_def split: sum.split prod.split option.split)

lemma facade_allowed_iff:
  "(\<exists>d. fst (facade_check_tool_call env aid tool inp est k) = Inr d \<and> allowed d) \<longleftrightarrow>
    list_all (\<lambda>g. g = Inr None) (composite_gates env aid tool inp est k)"
proof -
  let ?dflt = "(d_allow ''tool call permitted'' [(''tool'', PStr tool)], Some (''tool.allowed'', [(''tool'', PStr tool)]))"
  have "d_action (fst x) \<noteq> Allow" if "Inr (Some x) \<in> set (composite_gates env aid tool inp est k)" for x
    using that unfolding composite_gates_def by (auto dest: exit_actions [OF sym])
  from first_exit_default [of "composite_gates env aid tool inp est k" ?dflt, OF this] show ?thesis
    unfolding facade_decision by (auto simp: map_sum_eq_Inr allowed_def)
qed

lemma check_budget_denied:
  "denied (check_budget reg enf aid est b) \<longleftrightarrow>
    (case reg of None \<Rightarrow> False | Some r \<Rightarrow>
      (case reg_get r aid of None \<Rightarrow> True
       | Some a \<Rightarrow> some_nonzero (per_task_usd (budgets_of a)) \<and> some_nonzero est \<and>
           or_zero (per_task_usd (budgets_of a)) < or_zero est))"
  by (simp add: check_budget_def denied_def Let_def split: option.split)

lemma gate_budget_eq:
  "gate_budget reg enf b aid tool est = gate_budget reg enf' b' aid tool est"
proof -
  have "denied (check_budget reg enf aid est b) = denied (check_budget reg enf' aid est b')" for est
    unfolding check_budget_denied ..
  moreover have "denied (check_budget reg enf aid est b) \<Longrightarrow>
      check_budget reg enf aid est b = check_budget reg enf' aid est b'" for est
    unfolding check_budget_denied
    by (auto simp: check_budget_def Let_def split: option.splits)
  ultimately show ?thesis by (simp add: gate_budget_def Let_def split: option.split)
qed

lemma fold_remove1_self: "fold remove1 xs (xs @ ys) = ys"
  by (induction xs) simp_all

lemma fold_clear_signals:
  "map_of (processes t) k = Some p \<Longrightarrow>
   map_of (processes (fold (clear_signal k) sigs t)) j =
     (if j = k then Some (p\<lparr>pending_signals := fold remove1 sigs (pending_signals p)\<rparr>) else map_of (processes t) j)"
proof (induction sigs arbitrary: t p)
  case (Cons sig sigs)
  have one: "map_of (processes (clear_signal k sig t)) j =
      (if j = k then Some (p\<lparr>pending_signals := remove1 sig (pending_signals p)\<rparr>) else map_of (processes t) j)" for j
    using Cons.prems by (auto simp: clear_signal_def remove1_idem)
  from Cons.IH [of "clear_signal k sig t" "p\<lparr>pending_signals := remove1 sig (pending_signals p)\<rparr>"] show ?case
    by (simp add: one)
qed simp

subsection \<open>Properties\<close>

text \<open>The composite check allows a tool call exactly when every gate passes: the license gate, the
  global and the namespace policy, the permission check, the policies of the agent's manifest, and
  of the budget only the two tests that deny: the agent is known, and the estimate, if one is
  given, does not exceed the limit per task.\<close>

theorem composite_tool_check_allowed_iff:
  "(\<exists>d. fst (facade_check_tool_call env aid tool inp est k) = Inr d \<and> allowed d) \<longleftrightarrow>
    gate_license env (k_registry k) aid tool = Inr None \<and>
    (case f_global k of None \<Rightarrow> True | Some p \<Rightarrow> \<not> is_tool_denied p tool) \<and>
    (case (f_policies k, agent_of (k_registry k) aid) of
       (Some st, Some a) \<Rightarrow> (case nps_get st (a_namespace a) of None \<Rightarrow> True | Some p \<Rightarrow> is_tool_allowed p tool)
     | _ \<Rightarrow> True) \<and>
    gate_permission (k_registry k) aid tool inp = Inr None \<and>
    (case est of None \<Rightarrow> True
     | Some c \<Rightarrow> \<not> denied (check_budget (k_registry k) (k_enforcer k) aid (Some c) (k_budgets k))) \<and>
    gate_policy (k_registry k) (k_policies k) aid tool inp = Inr None"
proof -
  have glob: "gate_global (f_global k) tool = None \<longleftrightarrow> (case f_global k of None \<Rightarrow> True | Some p \<Rightarrow> \<not> is_tool_denied p tool)"
    by (simp add: gate_global_def split: option.split)
  have ns: "gate_namespace (f_policies k) (k_registry k) aid tool = None \<longleftrightarrow>
      (case (f_policies k, agent_of (k_registry k) aid) of
         (Some st, Some a) \<Rightarrow> (case nps_get st (a_namespace a) of None \<Rightarrow> True | Some p \<Rightarrow> is_tool_allowed p tool)
       | _ \<Rightarrow> True)"
    by (simp add: gate_namespace_def split: option.split)
  have bud: "gate_budget (k_registry k) (k_enforcer k) (k_budgets k) aid tool est = None \<longleftrightarrow>
      (case est of None \<Rightarrow> True
       | Some c \<Rightarrow> \<not> denied (check_budget (k_registry k) (k_enforcer k) aid (Some c) (k_budgets k)))"
    by (simp add: gate_budget_def Let_def split: option.split)
  show ?thesis
    unfolding facade_allowed_iff composite_gates_def by (simp add: glob ns bud)
qed

text \<open>The daily budget never stops a composite check: its decision is the same for every amount spent
  today and every amount reserved, because the check only looks for a denial and an exhausted daily
  budget is reported as a rate limit.\<close>

theorem composite_check_ignores_daily_budget:
  "fst (facade_check_tool_call env aid tool inp est (k\<lparr>k_enforcer := enf, k_budgets := b\<rparr>)) =
   fst (facade_check_tool_call env aid tool inp est k)"
proof -
  have "composite_gates env aid tool inp est (k\<lparr>k_enforcer := enf, k_budgets := b\<rparr>) =
      composite_gates env aid tool inp est k"
    using gate_budget_eq [of "k_registry k" enf b aid tool est "k_enforcer k" "k_budgets k"]
    by (simp add: composite_gates_def)
  then show ?thesis by (simp add: facade_decision)
qed

text \<open>Unlike a syscall, the composite check is audited: with an audit log and outside the refusal to
  run without a license key, every decision appends exactly one record about the agent, and the
  log's hash chain is extended from its tip.\<close>

theorem composite_check_is_audited:
  assumes "k_audit k = Some al" and "\<not> e_production env"
    and "fst (facade_check_tool_call env aid tool inp est k) = Inr d"
  shows "\<exists>actn dets. k_audit (snd (facade_check_tool_call env aid tool inp est k)) =
    Some (snd (audit_record (e_digest env) (e_entry_id env) (e_now env) actn ''system'' ''agent'' aid ''info'' dets al))"
proof -
  let ?dflt = "(d_allow ''tool call permitted'' [(''tool'', PStr tool)], Some (''tool.allowed'', [(''tool'', PStr tool)])) :: exit"
  have some: "snd x \<noteq> None" if "Inr (Some x) \<in> set (composite_gates env aid tool inp est k)" for x
  proof -
    from that consider "gate_license env (k_registry k) aid tool = Inr (Some x)" | "gate_global (f_global k) tool = Some x"
      | "gate_namespace (f_policies k) (k_registry k) aid tool = Some x" | "gate_permission (k_registry k) aid tool inp = Inr (Some x)"
      | "gate_budget (k_registry k) (k_enforcer k) (k_budgets k) aid tool est = Some x"
      | "gate_policy (k_registry k) (k_policies k) aid tool inp = Inr (Some x)"
      unfolding composite_gates_def by (auto dest: sym)
    then show ?thesis
      using assms(2) by cases (auto simp: gate_license_def gate_global_def gate_namespace_def gate_permission_def
          gate_budget_def gate_policy_def tool_exit_def rbind_eq_Inr Let_def split: option.splits if_splits)
  qed
  have "first_exit gs y = Inr x \<Longrightarrow> x = y \<or> Inr (Some x) \<in> set gs" for gs and x y :: exit
    by (induction gs) (auto split: sum.splits option.splits)
  moreover from assms(3) obtain x where x: "first_exit (composite_gates env aid tool inp est k) ?dflt = Inr x"
    unfolding facade_decision map_sum_eq_Inr by blast
  ultimately have "snd x \<noteq> None" using some by (metis option.distinct(1) snd_conv)
  then obtain d' actn dets where "x = (d', Some (actn, dets))" by (cases x) auto
  with x assms(1) show ?thesis
    by (auto simp: facade_check_tool_call_def kernel_audit_def audit_record_kw_def audit_keywords_def kw_str_def
        kw_dict_def intro!: exI [of _ actn] exI [of _ dets])
qed

definition demo_facade :: facade where
  "demo_facade = \<lparr>k_registry = Some demo_registry, k_enforcer = None, k_budgets = empty_budgets, k_caps = [],
     k_policies = [], k_audit = Some (empty_audit ''t''), f_global = Some demo_global, f_policies = None\<rparr>"

theorem composite_check_is_audited_witness:
  "\<exists>actn dets. k_audit (snd (facade_check_tool_call demo_env ''a1'' ''db.read'' PNone None demo_facade)) =
    Some (snd (audit_record (e_digest demo_env) (e_entry_id demo_env) (e_now demo_env) actn ''system'' ''agent'' ''a1''
      ''info'' dets (empty_audit ''t'')))"
proof -
  have "gate_global (f_global demo_facade) ''db.read'' \<noteq> None"
  proof -
    have "fnmatch (''db.'' @ ''read'') (''db.'' @ ''*'')" by (subst fnmatch_prefix) (simp_all add: plain_def starts_with_append)
    then show ?thesis by (simp add: demo_facade_def demo_global_def gate_global_def is_tool_denied_def)
  qed
  then obtain x where "gate_global (f_global demo_facade) ''db.read'' = Some x" by blast
  then have "fst (facade_check_tool_call demo_env ''a1'' ''db.read'' PNone None demo_facade) = Inr (fst x)"
    by (simp add: facade_decision composite_gates_def gate_license_def demo_env_def)
  from composite_check_is_audited [OF _ _ this, of "empty_audit ''t''"] show ?thesis
    by (simp add: demo_facade_def demo_env_def)
qed

text \<open>Signals are delivered once: a poll returns the pending signals of the process in the order they
  were raised, clears exactly those and touches no other process, so that the next poll returns
  nothing; a signal to an unknown process is refused and changes nothing.\<close>

theorem signals_delivered_once:
  "let poll = check_signals k (Some t)
   in (case pt_get t k of
         None \<Rightarrow> poll = ([], Some t) \<and> kernel_signal env k sig why (Some t) f = (False, Some t, f)
       | Some p \<Rightarrow> fst poll = pending_signals p \<and> fst (check_signals k (snd poll)) = [] \<and>
           sig \<in> set (fst (check_signals k (fst (snd (kernel_signal env k sig why (Some t) f))))) \<and>
           (case snd poll of None \<Rightarrow> False | Some t' \<Rightarrow> registry_of t' = registry_of t \<and>
             pt_get t' k = Some (p\<lparr>pending_signals := []\<rparr>) \<and> pt_get t' = (pt_get t)(k := pt_get t' k)))"
proof (cases "pt_get t k")
  case None
  then show ?thesis by (simp add: check_signals_def kernel_signal_def Let_def)
next
  case (Some p)
  let ?t' = "fold (clear_signal k) (pending_signals p) t"
  have look: "map_of (processes ?t') j =
      (if j = k then Some (p\<lparr>pending_signals := []\<rparr>) else map_of (processes t) j)" for j
    using fold_clear_signals [of t k p "pending_signals p" j] fold_remove1_self [of "pending_signals p" "[]"] Some
    by (simp add: pt_get_def)
  have reg: "registry_of (fold (clear_signal k) sigs t) = registry_of t" for sigs
    by (induction sigs arbitrary: t) (simp_all add: clear_signal_def)
  have poll: "check_signals k (Some t) = (pending_signals p, Some ?t')"
    using Some by (simp add: check_signals_def)
  have "pt_get ?t' k = Some (p\<lparr>pending_signals := []\<rparr>)" "pt_get ?t' = (pt_get t)(k := pt_get ?t' k)"
    by (simp_all add: pt_get_def look fun_eq_iff)
  moreover have "sig \<in> set (fst (check_signals k (fst (snd (kernel_signal env k sig why (Some t) f)))))"
    using Some by (auto simp: kernel_signal_def check_signals_def pt_get_def record_signal_def)
  ultimately show ?thesis
    using Some by (simp add: poll reg) (simp add: check_signals_def)
qed

end
