(* ===== verification/Engine.thy ===== *)
theory Engine
  imports Shaping Facade
begin

text \<open>
  The step engine (\<open>src/src/runtime/engine.py\<close>, with the retrying \<open>_execute_tool\<close> of
  \<open>src/src/platform/agentic_loop.py\<close>).  The run-time state is the continuation store, the kernel, the
  process table and the world \<open>'w\<close>; the language model, the tools, the gateway to the human, the
  bound SDK runtime, the clock and the sources of fresh names act on the world and are fields of
  \<open>eenv\<close>.  A continuation is a value that the engine threads through a turn and saves where the
  code saves it.  The calls of a turn are dispatched one after the other, the order in which
  \<open>asyncio.gather\<close> starts them; a schedule that interleaves the bodies of tools is not modelled.
\<close>

subsection \<open>The world of the engine\<close>

text \<open>What one call of the tool executor does.\<close>

datatype attempt = Returned pyval | TimedOut | RaisedError string | RaisedSuspend suspend

record open_request =
  or_cont :: string
  or_pid :: string
  or_tenant :: string
  or_action :: pyval
  or_approvers :: pyval
  or_sla :: pyval
  or_reason :: string

text \<open>The gateway's answer is \<open>None\<close> when it raises or returns no id; the SDK runtime's is \<open>None\<close> when
  it is not bound or raises.\<close>

record 'w eenv =
  ev_chat :: "llm_config \<Rightarrow> pyval list \<Rightarrow> pyval list option \<Rightarrow> 'w \<Rightarrow> llm_response res \<times> 'w"
  ev_executor :: "(string \<Rightarrow> details \<Rightarrow> details \<Rightarrow> 'w \<Rightarrow> attempt \<times> 'w) option"
  ev_sdk :: "string \<Rightarrow> details \<Rightarrow> 'w \<Rightarrow> decision option \<times> 'w"
  ev_gateway :: "(open_request \<Rightarrow> 'w \<Rightarrow> string option \<times> 'w) option"
  ev_ref :: "'w \<Rightarrow> string \<times> 'w"
  ev_cont_id :: "'w \<Rightarrow> string \<times> 'w"
  ev_kenv :: "'w \<Rightarrow> kenv \<times> 'w"
  ev_now :: "'w \<Rightarrow> time"
  ev_max_turns :: nat
  ev_single_step :: bool

record 'w rt =
  rt_conts :: cont_store
  rt_kernel :: kernel
  rt_table :: "ptable option"
  rt_world :: 'w

subsection \<open>Outcomes\<close>

datatype run_status = Done | Suspended | RunFailed | MaxTurns | Continue

record tool_event =
  te_use_id :: "string option"
  te_name :: string
  te_input :: details
  te_result :: pyval
  te_is_error :: bool

record pending_info =
  pi_use_id :: string
  pi_name :: string
  pi_args :: details
  pi_reason :: "string option"
  pi_ref :: "string option"

record run_outcome =
  ro_status :: run_status
  ro_cont :: string
  ro_output :: string
  ro_error :: "string option"
  ro_suspend_reason :: "string option"
  ro_pending :: "pending_info list"
  ro_tokens :: int
  ro_input_tokens :: int
  ro_output_tokens :: int
  ro_tool_calls :: int
  ro_model :: "string option"
  ro_events :: "tool_event list"
  ro_awaiting_remaining :: bool

definition outcome_of :: "run_status \<Rightarrow> string \<Rightarrow> run_outcome" where
  "outcome_of s i = \<lparr>ro_status = s, ro_cont = i, ro_output = [], ro_error = None, ro_suspend_reason = None,
     ro_pending = [], ro_tokens = 0, ro_input_tokens = 0, ro_output_tokens = 0, ro_tool_calls = 0,
     ro_model = None, ro_events = [], ro_awaiting_remaining = False\<rparr>"

text \<open>What escapes the engine: an exception, or the \<open>Suspend\<close> of a tool that nothing catches.\<close>

datatype escape = EscError string | EscSuspend suspend

type_synonym 'w result = "(escape + run_outcome) \<times> 'w rt"

subsection \<open>Side effects\<close>

definition save_cont :: "'w eenv \<Rightarrow> continuation \<Rightarrow> 'w rt \<Rightarrow> 'w rt" where
  "save_cont env c st = st\<lparr>rt_conts := cs_save (ev_now env (rt_world st)) c (rt_conts st)\<rparr>"

fun cont_status_value :: "cont_status \<Rightarrow> string" where
  "cont_status_value CRunning = ''running''"
| "cont_status_value CSuspended = ''suspended''"
| "cont_status_value CResuming = ''resuming''"
| "cont_status_value CDone = ''done''"
| "cont_status_value CFailed = ''failed''"

definition phase_for :: "continuation \<Rightarrow> string \<Rightarrow> phase option" where
  "phase_for c kind =
     (if kind = ''awaiting''
      then Some (if (case c_suspend_reason c of None \<Rightarrow> [] | Some r \<Rightarrow> r) \<in> set human_reasons
                 then AwaitingHuman else AwaitingExternal)
      else map_of [(''running'', Running), (''failed'', Failed)] kind)"

definition e_transition :: "'w eenv \<Rightarrow> continuation \<Rightarrow> string \<Rightarrow> 'w rt \<Rightarrow> 'w rt" where
  "e_transition env c kind st =
     (case (rt_table st, phase_for c kind) of
        (Some t, Some ph) \<Rightarrow> st\<lparr>rt_table := Some (snd (pt_transition (ev_now env (rt_world st)) (c_pid c) ph
           (''runtime:'' @ cont_status_value (c_status c)) True True t))\<rparr>
      | _ \<Rightarrow> st)"

definition usage_get :: "continuation \<Rightarrow> string \<Rightarrow> int" where
  "usage_get c k = dget_default (c_usage c) k 0"

definition usage_add :: "string \<Rightarrow> int \<Rightarrow> continuation \<Rightarrow> continuation" where
  "usage_add k n c = c\<lparr>c_usage := dset k (usage_get c k + n) (c_usage c)\<rparr>"

text \<open>\<open>response.input_tokens or response.tokens_used or 0\<close>\<close>

definition tokens_in :: "llm_response \<Rightarrow> int" where
  "tokens_in r = (if lr_input_tokens r \<noteq> 0 then lr_input_tokens r else lr_tokens r)"

definition account :: "llm_response \<Rightarrow> continuation \<Rightarrow> 'w rt \<Rightarrow> continuation \<times> 'w rt" where
  "account r c st =
     (usage_add ''tokens_out'' (lr_output_tokens r) (usage_add ''tokens_in'' (tokens_in r) c),
      st\<lparr>rt_table := map_option (record_usage (c_pid c) (tokens_in r) (lr_output_tokens r) 0 0 0) (rt_table st)\<rparr>)"

definition commit_ticket :: "string option \<Rightarrow> 'w rt \<Rightarrow> 'w rt" where
  "commit_ticket t st = (case t of None \<Rightarrow> st
     | Some i \<Rightarrow> if i = [] then st else
         (let k = rt_kernel st
          in st\<lparr>rt_kernel := k\<lparr>k_budgets := snd (commit (k_registry k) (k_enforcer k) i None None (k_budgets k))\<rparr>\<rparr>))"

definition release_ticket :: "string option \<Rightarrow> 'w rt \<Rightarrow> 'w rt" where
  "release_ticket t st = (case t of None \<Rightarrow> st
     | Some i \<Rightarrow> if i = [] then st else
         (let k = rt_kernel st in st\<lparr>rt_kernel := k\<lparr>k_budgets := snd (release i (k_budgets k))\<rparr>\<rparr>))"

definition error_result :: "string \<Rightarrow> pyval" where
  "error_result msg = PDict [(''error'', PStr msg)]"

subsection \<open>Terminal helpers\<close>

definition goal_marker :: string where
  "goal_marker = ''[GOAL_COMPLETE]''"

text \<open>\<open>re.sub(r"\n?\[GOAL_COMPLETE\]\n?", "", text)\<close>\<close>

definition drop_newline :: "string \<Rightarrow> string" where
  "drop_newline s = (case s of [] \<Rightarrow> [] | c # r \<Rightarrow> if c = newline then r else s)"

lemma length_drop_newline: "length (drop_newline s) \<le> length s"
  by (simp add: drop_newline_def split: list.split)

function drop_markers :: "string \<Rightarrow> string" where
  "drop_markers s =
     (case s of [] \<Rightarrow> []
      | c # r \<Rightarrow>
        if starts_with (newline # goal_marker) s then drop_markers (drop_newline (drop 16 s))
        else if starts_with goal_marker s then drop_markers (drop_newline (drop 15 s))
        else c # drop_markers r)"
  by pat_completeness auto
termination
proof (relation "measure length", goal_cases)
  case 1
  then show ?case by simp
next
  case (2 s c r)
  have "length (drop_newline (drop 16 s)) \<le> length (drop 16 s)" by (rule length_drop_newline)
  with 2 show ?case by simp
next
  case (3 s c r)
  have "length (drop_newline (drop 15 s)) \<le> length (drop 15 s)" by (rule length_drop_newline)
  with 3 show ?case by simp
next
  case (4 s c r)
  then show ?case by simp
qed

declare drop_markers.simps [simp del]

text \<open>The marker on a line of its own (\<open>re.MULTILINE\<close>).\<close>

definition goal_complete :: "string \<Rightarrow> bool" where
  "goal_complete s = (goal_marker \<in> set (split_on newline s))"

definition final_text :: "continuation \<Rightarrow> string \<Rightarrow> string" where
  "final_text c s =
     (if (case c_goal c of None \<Rightarrow> False | Some g \<Rightarrow> g \<noteq> []) \<and> goal_complete s then strip (drop_markers s) else s)"

definition with_rollup :: "continuation \<Rightarrow> run_outcome \<Rightarrow> run_outcome" where
  "with_rollup c out = out\<lparr>ro_input_tokens := usage_get c ''tokens_in'', ro_output_tokens := usage_get c ''tokens_out'',
     ro_tool_calls := usage_get c ''tool_calls'', ro_model := (if c_model c = [] then None else Some (c_model c))\<rparr>"

definition complete_run :: "'w eenv \<Rightarrow> continuation \<Rightarrow> string \<Rightarrow> int \<Rightarrow> 'w rt \<Rightarrow> run_outcome \<times> 'w rt" where
  "complete_run env c text tokens st =
     (let c' = c\<lparr>c_status := CDone, c_output := final_text c text\<rparr>
      in (with_rollup c' ((outcome_of Done (c_id c))\<lparr>ro_output := c_output c', ro_tokens := tokens\<rparr>), save_cont env c' st))"

definition fail_run :: "'w eenv \<Rightarrow> continuation \<Rightarrow> string \<Rightarrow> 'w rt \<Rightarrow> run_outcome \<times> 'w rt" where
  "fail_run env c err st =
     (let c' = c\<lparr>c_status := CFailed, c_error := Some err\<rparr>
      in ((outcome_of RunFailed (c_id c))\<lparr>ro_error := Some err\<rparr>, e_transition env c' ''failed'' (save_cont env c' st)))"

definition max_turns_reached :: "'w eenv \<Rightarrow> continuation \<Rightarrow> int \<Rightarrow> 'w rt \<Rightarrow> run_outcome \<times> 'w rt" where
  "max_turns_reached env c tokens st =
     (let c' = c\<lparr>c_status := CDone, c_output := ''[max tool turns reached]''\<rparr>
      in (with_rollup c' ((outcome_of MaxTurns (c_id c))\<lparr>ro_output := c_output c', ro_tokens := tokens\<rparr>), save_cont env c' st))"

definition suspended_outcome :: "continuation \<Rightarrow> run_outcome" where
  "suspended_outcome c = (outcome_of Suspended (c_id c))\<lparr>ro_suspend_reason := c_suspend_reason c,
     ro_pending := map (\<lambda>r. \<lparr>pi_use_id = tc_use_id r, pi_name = tc_name r, pi_args = tc_args r,
        pi_reason = tc_reason r, pi_ref = tc_ref r\<rparr>) (filter (\<lambda>r. tc_status r = TPending) (c_pending c))\<rparr>"


subsection \<open>Executing a tool\<close>

definition tool_max_retries :: nat where
  "tool_max_retries = 2"

definition timeout_text :: "string \<Rightarrow> string" where
  "timeout_text name = ''Tool '' @ quoted name @ '' timed out after 60.0s''"

text \<open>The retry loop with the attempts that are left and the last error; only a \<open>Suspend\<close> leaves it.\<close>

primrec try_tool :: "('w \<Rightarrow> attempt \<times> 'w) \<Rightarrow> string \<Rightarrow> nat \<Rightarrow> string \<Rightarrow> 'w \<Rightarrow> (suspend + pyval) \<times> 'w" where
  "try_tool call name 0 err w = (Inr (error_result err), w)"
| "try_tool call name (Suc n) err w =
     (case call w of
        (Returned v, w') \<Rightarrow> (Inr v, w')
      | (TimedOut, w') \<Rightarrow> try_tool call name n (timeout_text name) w'
      | (RaisedError e, w') \<Rightarrow> try_tool call name n e w'
      | (RaisedSuspend sg, w') \<Rightarrow> (Inl sg, w'))"

definition sdk_refusal :: "decision option \<Rightarrow> pyval option" where
  "sdk_refusal d = (case d of None \<Rightarrow> None
     | Some d \<Rightarrow> if denied d then Some (error_result (''Kernel denied: '' @ d_reason d))
                 else if d_action d = RateLimit then Some (error_result (''Rate limited: '' @ d_reason d))
                 else None)"

definition execute_tool :: "'w eenv \<Rightarrow> string \<Rightarrow> details \<Rightarrow> details \<Rightarrow> string option \<Rightarrow> 'w \<Rightarrow> (suspend + pyval) \<times> 'w" where
  "execute_tool env name inp ctx token w =
     (let ctx1 = dset ''_kernel_admitted'' (PBool True) ctx;
          ctx2 = (case token of None \<Rightarrow> ctx1 | Some t \<Rightarrow> if t = [] then ctx1 else dset ''capability_token'' (PStr t) ctx1)
      in case ev_executor env of
           None \<Rightarrow> (Inr (error_result (''No tool executor available for tool '' @ quoted name)), w)
         | Some ex \<Rightarrow>
           (case ev_sdk env name inp w of
              (d, w') \<Rightarrow> (case sdk_refusal d of
                 Some v \<Rightarrow> (Inr v, w')
               | None \<Rightarrow> try_tool (ex name inp ctx2) name (tool_max_retries + 1) ''unknown'' w')))"

subsection \<open>Admission and dispatch\<close>

definition admit_args :: "continuation \<Rightarrow> details \<Rightarrow> string option \<Rightarrow> details" where
  "admit_args c inp token =
     [(''tool_input'', PDict inp), (''estimated_cost_usd'', PFloat 0), (''tenant_id'', PStr (c_tenant c))] @
     (case token of None \<Rightarrow> [] | Some t \<Rightarrow> if t = [] then [] else [(''capability_token'', PStr t)])"

definition admit_call :: "'w eenv \<Rightarrow> continuation \<Rightarrow> string \<Rightarrow> details \<Rightarrow> string option \<Rightarrow> 'w rt \<Rightarrow> decision res \<times> 'w rt" where
  "admit_call env c name inp token st =
     (case ev_kenv env (rt_world st) of
        (ke, w) \<Rightarrow> (case kernel_syscall ke ''tool.call'' (c_pid c) name (admit_args c inp token) None (rt_kernel st) of
           (d, k) \<Rightarrow> (d, st\<lparr>rt_kernel := k, rt_world := w\<rparr>)))"

text \<open>A field of a decision's details that the engine uses as a string.\<close>

definition detail_str :: "decision \<Rightarrow> string \<Rightarrow> string option" where
  "detail_str d k = (case arg (d_details d) k of PNone \<Rightarrow> None | v \<Rightarrow> Some (py_str v))"

definition or_else :: "pyval \<Rightarrow> pyval \<Rightarrow> pyval" where
  "or_else v w = (if truthy v then v else w)"

definition open_suspension :: "'w eenv \<Rightarrow> continuation \<Rightarrow> tool_call \<Rightarrow> decision \<Rightarrow> 'w rt \<Rightarrow> suspend \<times> 'w rt" where
  "open_suspension env c rec d st =
     (let why = py_str (dget_default (d_details d) ''suspend_reason'' (PStr ''human_approval''));
          captured = or_else (arg (d_details d) ''captured_action'')
            (PDict [(''verb'', PStr ''tool.call''), (''tool_name'', PStr (tc_name rec)), (''tool_input'', PDict (tc_args rec))]);
          request = \<lparr>or_cont = c_id c, or_pid = c_pid c, or_tenant = c_tenant c, or_action = captured,
            or_approvers = or_else (arg (d_details d) ''approvers'') (PList []),
            or_sla = arg (d_details d) ''sla_hours'', or_reason = d_reason d\<rparr>;
          asked = (case (detail_str d ''request_id'', ev_gateway env) of
             (Some i, _) \<Rightarrow> (Some i, rt_world st)
           | (None, Some open_req) \<Rightarrow> open_req request (rt_world st)
           | (None, None) \<Rightarrow> (None, rt_world st));
          named = (case asked of (Some i, w) \<Rightarrow> (i, w) | (None, w) \<Rightarrow> ev_ref env w)
      in (\<lparr>sg_reason = why, sg_use_id = tc_use_id rec, sg_ref = Some (fst named),
           sg_detail = PDict [(''captured_action'', captured)]\<rparr>, st\<lparr>rt_world := snd named\<rparr>))"

definition ticket_of :: "decision \<Rightarrow> string option" where
  "ticket_of d = detail_str d ''ticket''"

text \<open>What a dispatch hands to \<open>gather\<close>: a value, the sentinel of a suspension, or an exception.\<close>

datatype dispatched = Value pyval | Parked suspend | Crashed string

definition refusal_result :: "decision \<Rightarrow> pyval" where
  "refusal_result d = error_result (action_value (d_action d) @ '': '' @ d_reason d)"

definition dispatch :: "'w eenv \<Rightarrow> details \<Rightarrow> continuation \<Rightarrow> tool_call \<Rightarrow> 'w rt \<Rightarrow> dispatched \<times> 'w rt" where
  "dispatch env ctx c rec st =
     (case admit_call env c (tc_name rec) (tc_args rec) (tc_token rec) st of
        (Inl e, st1) \<Rightarrow> (Crashed (exn_text e), st1)
      | (Inr d, st1) \<Rightarrow>
        (case d_action d of
           AskHuman \<Rightarrow> apfst Parked (open_suspension env c rec d st1)
         | Deny \<Rightarrow> (Value (refusal_result d), st1)
         | RateLimit \<Rightarrow> (Value (refusal_result d), st1)
         | Mask \<Rightarrow> (Value (dget_default (d_details d) ''masked_payload'' (PDict [(''masked'', PBool True)])), st1)
         | Allow \<Rightarrow>
           (case execute_tool env (tc_name rec) (tc_args rec) ctx None (rt_world st1) of
              (Inl sg, w) \<Rightarrow> (Parked sg, commit_ticket (ticket_of d) (release_ticket (ticket_of d) (st1\<lparr>rt_world := w\<rparr>)))
            | (Inr v, w) \<Rightarrow> (Value v, commit_ticket (ticket_of d) (st1\<lparr>rt_world := w\<rparr>)))))"

definition token_refused :: string where
  "token_refused = ''approval token did not authorize the gated tool (expired or mismatched)''"

definition dispatch_authorized :: "'w eenv \<Rightarrow> details \<Rightarrow> continuation \<Rightarrow> tool_call \<Rightarrow> 'w rt \<Rightarrow> (escape + pyval) \<times> 'w rt" where
  "dispatch_authorized env ctx c rec st =
     (case admit_call env c (tc_name rec) (tc_args rec) (tc_token rec) st of
        (Inl e, st1) \<Rightarrow> (Inl (EscError (exn_text e)), st1)
      | (Inr d, st1) \<Rightarrow>
        (if d_action d = AskHuman then (Inr (error_result token_refused), st1)
         else if d_action d \<in> {Deny, RateLimit} then (Inr (refusal_result d), st1)
         else
           (case execute_tool env (tc_name rec) (tc_args rec) ctx (tc_token rec) (rt_world st1) of
              (r, w) \<Rightarrow> (map_sum EscSuspend id r, commit_ticket (ticket_of d) (st1\<lparr>rt_world := w\<rparr>)))))"

primrec dispatch_all :: "'w eenv \<Rightarrow> details \<Rightarrow> continuation \<Rightarrow> tool_call list \<Rightarrow> 'w rt \<Rightarrow> dispatched list \<times> 'w rt" where
  "dispatch_all env ctx c [] st = ([], st)"
| "dispatch_all env ctx c (r # rs) st =
     (case dispatch env ctx c r st of (x, st1) \<Rightarrow> apfst ((#) x) (dispatch_all env ctx c rs st1))"

subsection \<open>One turn\<close>

definition settle_call :: "tool_call \<Rightarrow> dispatched \<Rightarrow> tool_call" where
  "settle_call r x =
     (case x of
        Value v \<Rightarrow> r\<lparr>tc_status := TExecuted, tc_result := v\<rparr>
      | Parked sg \<Rightarrow> r\<lparr>tc_status := TPending, tc_reason := Some (sg_reason sg), tc_ref := sg_ref sg\<rparr>
      | Crashed e \<Rightarrow> r\<lparr>tc_status := TExecuted, tc_result := error_result e, tc_is_error := True\<rparr>)"

definition event_of :: "tool_call \<Rightarrow> tool_event" where
  "event_of r = \<lparr>te_use_id = Some (tc_use_id r), te_name = tc_name r, te_input = tc_args r, te_result = tc_result r,
     te_is_error = tc_is_error r\<rparr>"

definition index_refs :: "string \<Rightarrow> tool_call list \<Rightarrow> cont_store \<Rightarrow> cont_store" where
  "index_refs i rs s = fold (\<lambda>r s. case tc_ref r of None \<Rightarrow> s | Some x \<Rightarrow> if x = [] then s else cs_index_ref x i s) rs s"

definition suspend_run :: "'w eenv \<Rightarrow> continuation \<Rightarrow> tool_call list \<Rightarrow> int \<Rightarrow> 'w rt \<Rightarrow> run_outcome \<times> 'w rt" where
  "suspend_run env c recs tokens st =
     (let why = (case find (\<lambda>r. tc_status r = TPending) recs of None \<Rightarrow> Some ''human_approval'' | Some r \<Rightarrow> tc_reason r);
          c' = c\<lparr>c_pending := recs, c_status := CSuspended, c_suspend_reason := why\<rparr>;
          st1 = save_cont env c' st;
          st2 = st1\<lparr>rt_conts := index_refs (c_id c) recs (rt_conts st1)\<rparr>
      in ((suspended_outcome c')\<lparr>ro_tokens := tokens\<rparr>, e_transition env c' ''awaiting'' st2))"

text \<open>The turn of the loop: its outcome if it ends the slice, the tokens used so far, the events, and the
  continuation the caller goes on with.\<close>

record turn_result =
  tr_outcome :: "run_outcome option"
  tr_tokens :: int
  tr_events :: "tool_event list"
  tr_cont :: continuation

definition turn_end :: "int \<Rightarrow> tool_event list \<Rightarrow> continuation \<Rightarrow> run_outcome \<times> 'w rt \<Rightarrow> (escape + turn_result) \<times> 'w rt" where
  "turn_end tokens evs c x = (Inr \<lparr>tr_outcome = Some (fst x), tr_tokens = tokens, tr_events = evs, tr_cont = c\<rparr>, snd x)"

definition run_tools :: "'w eenv \<Rightarrow> details \<Rightarrow> kind \<Rightarrow> llm_response \<Rightarrow> int \<Rightarrow> tool_event list \<Rightarrow> continuation \<Rightarrow> 'w rt \<Rightarrow>
    (escape + turn_result) \<times> 'w rt" where
  "run_tools env ctx k r tokens evs c st =
     (let c1 = c\<lparr>c_messages := shape_assistant_turn k r (c_messages c)\<rparr>;
          recs = map record_of (lr_calls r);
          c2 = usage_add ''tool_calls'' (int (length recs)) c1
      in case dispatch_all env ctx c2 recs st of
           (xs, st1) \<Rightarrow>
             (let recs' = map2 settle_call recs xs;
                  evs' = evs @ map event_of (filter (\<lambda>r. tc_status r = TExecuted) recs')
              in if list_ex (\<lambda>r. tc_status r = TPending) recs'
                 then turn_end tokens evs' c2 (suspend_run env c2 recs' tokens st1)
                 else
                   (let c3 = c2\<lparr>c_messages := shape_tool_results k recs' (c_messages c2)\<rparr>;
                        st2 = save_cont env c3 st1;
                        (sigs, table) = check_signals (c_pid c3) (rt_table st2);
                        st3 = st2\<lparr>rt_table := table\<rparr>
                    in if ''SIGTERM'' \<in> set sigs
                       then turn_end tokens evs' c3 (complete_run env c3 (lr_text r) tokens st3)
                       else (Inr \<lparr>tr_outcome = None, tr_tokens = tokens, tr_events = evs', tr_cont = c3\<rparr>, st3))))"

definition config_of :: "continuation \<Rightarrow> llm_config" where
  "config_of c = \<lparr>cf_model = c_model c, cf_provider = c_provider c, cf_endpoint = c_endpoint c, cf_key_ref = c_key_ref c\<rparr>"

definition tools_of :: "continuation \<Rightarrow> pyval list option" where
  "tools_of c = (case c_tools c of None \<Rightarrow> None | Some ts \<Rightarrow> if ts = [] then None else Some ts)"

text \<open>A response without an error: account for it, then finish or run its tools.\<close>

definition run_response :: "'w eenv \<Rightarrow> details \<Rightarrow> int \<Rightarrow> tool_event list \<Rightarrow> llm_response \<Rightarrow> continuation \<Rightarrow> 'w rt \<Rightarrow>
    (escape + turn_result) \<times> 'w rt" where
  "run_response env ctx tokens evs r c st =
     (case account r c st of
        (c1, st1) \<Rightarrow>
          if lr_calls r = [] then turn_end tokens evs c1 (complete_run env c1 (lr_text r) tokens st1)
          else run_tools env ctx (provider_kind (c_provider c1) (c_model c1)) r tokens evs c1 st1)"

definition run_one_turn :: "'w eenv \<Rightarrow> details \<Rightarrow> nat \<Rightarrow> int \<Rightarrow> tool_event list \<Rightarrow> continuation \<Rightarrow> 'w rt \<Rightarrow>
    (escape + turn_result) \<times> 'w rt" where
  "run_one_turn env ctx turn tokens evs c st =
     (let c0 = c\<lparr>c_step := turn\<rparr>
      in case ev_chat env (config_of c0) (c_messages c0) (tools_of c0) (rt_world st) of
           (Inl e, w) \<Rightarrow> (Inl (EscError (exn_text e)), st\<lparr>rt_world := w\<rparr>)
         | (Inr r, w) \<Rightarrow>
           (let st1 = st\<lparr>rt_world := w\<rparr>
            in case lr_error r of
                 Some err \<Rightarrow>
                   if err \<noteq> [] then turn_end tokens evs c0 (fail_run env c0 err st1)
                   else run_response env ctx (tokens + lr_tokens r) evs r c0 st1
               | None \<Rightarrow> run_response env ctx (tokens + lr_tokens r) evs r c0 st1))"


subsection \<open>The loop and the single step\<close>

definition with_events :: "tool_event list \<Rightarrow> run_outcome \<Rightarrow> run_outcome" where
  "with_events evs out = out\<lparr>ro_events := evs\<rparr>"

text \<open>\<open>while turn < cont.max_turns\<close>: the first argument is the number of turns left, so it starts at
  \<open>max_turns - step_index\<close>; no turn changes \<open>max_turns\<close>.\<close>

primrec drive_loop :: "'w eenv \<Rightarrow> details \<Rightarrow> nat \<Rightarrow> nat \<Rightarrow> int \<Rightarrow> tool_event list \<Rightarrow> continuation \<Rightarrow> 'w rt \<Rightarrow> 'w result" where
  "drive_loop env ctx 0 turn tokens evs c st = apfst Inr (max_turns_reached env c tokens st)"
| "drive_loop env ctx (Suc n) turn tokens evs c st =
     (case run_one_turn env ctx turn tokens evs c st of
        (Inl e, st1) \<Rightarrow> (Inl e, st1)
      | (Inr t, st1) \<Rightarrow>
        (case tr_outcome t of
           Some out \<Rightarrow> (Inr (with_events (tr_events t) out), st1)
         | None \<Rightarrow> drive_loop env ctx n (turn + 1) (tr_tokens t) (tr_events t) (tr_cont t) st1))"

definition drive_inline :: "'w eenv \<Rightarrow> details \<Rightarrow> continuation \<Rightarrow> 'w rt \<Rightarrow> 'w result" where
  "drive_inline env ctx c st = drive_loop env ctx (c_max_turns c - c_step c) (c_step c) 0 [] c st"

definition single_turn :: "'w eenv \<Rightarrow> details \<Rightarrow> continuation \<Rightarrow> 'w rt \<Rightarrow> 'w result" where
  "single_turn env ctx c st =
     (let turn = c_step c
      in if c_max_turns c \<le> turn then apfst Inr (max_turns_reached env c 0 st)
         else case run_one_turn env ctx turn 0 [] c st of
                (Inl e, st1) \<Rightarrow> (Inl e, st1)
              | (Inr t, st1) \<Rightarrow>
                (case tr_outcome t of
                   Some out \<Rightarrow> (Inr (with_events (tr_events t) out), st1)
                 | None \<Rightarrow>
                   (let c1 = (tr_cont t)\<lparr>c_step := turn + 1, c_status := CRunning\<rparr>;
                        st2 = save_cont env c1 st1
                    in if c_max_turns c1 \<le> turn + 1 then apfst Inr (max_turns_reached env c1 (tr_tokens t) st2)
                       else (Inr ((outcome_of Continue (c_id c1))\<lparr>ro_tokens := tr_tokens t\<rparr>), st2))))"

definition drive_or_step :: "'w eenv \<Rightarrow> details \<Rightarrow> continuation \<Rightarrow> 'w rt \<Rightarrow> 'w result" where
  "drive_or_step env ctx c st = (if ev_single_step env then single_turn env ctx c st else drive_inline env ctx c st)"

subsection \<open>The public operations\<close>

record run_request =
  rq_pid :: string
  rq_system :: string
  rq_prompt :: string
  rq_provider :: string
  rq_model :: string
  rq_endpoint :: "string option"
  rq_key_ref :: "string option"
  rq_tools :: "pyval list option"
  rq_session :: "string option"
  rq_history :: "pyval list"
  rq_context :: details
  rq_goal :: "string option"
  rq_tenant :: string
  rq_namespace :: string
  rq_run :: "string option"
  rq_source :: string
  rq_generation :: int
  rq_max_turns :: "nat option"
  rq_status :: cont_status

definition create_continuation :: "'w eenv \<Rightarrow> run_request \<Rightarrow> 'w rt \<Rightarrow> continuation \<times> 'w rt" where
  "create_continuation env q st =
     (case ev_cont_id env (rt_world st) of
        (i, w) \<Rightarrow>
          (let now = ev_now env w;
               c = \<lparr>c_id = i, c_pid = rq_pid q, c_generation = rq_generation q, c_run = rq_run q,
                 c_session = rq_session q, c_tenant = rq_tenant q,
                 c_user = py_str (or_else (arg (rq_context q) ''user_id'') (PStr ''default'')),
                 c_namespace = rq_namespace q,
                 c_messages = shape_initial (rq_system q) (rq_history q) (rq_prompt q) (rq_context q) (rq_goal q),
                 c_provider = rq_provider q, c_model = rq_model q, c_endpoint = rq_endpoint q,
                 c_key_ref = rq_key_ref q, c_tools = rq_tools q, c_step = 0,
                 c_max_turns = (case rq_max_turns q of None \<Rightarrow> ev_max_turns env
                    | Some n \<Rightarrow> if n = 0 then ev_max_turns env else n),
                 c_goal = rq_goal q, c_status = rq_status q, c_suspend_reason = None, c_pending = [],
                 c_usage = [], c_tickets = [], c_source = rq_source q, c_epoch = 0, c_parent = None,
                 c_error = None, c_output = [], c_created = now, c_updated = now\<rparr>
           in (c, save_cont env c (st\<lparr>rt_world := w\<rparr>))))"

definition run :: "'w eenv \<Rightarrow> details \<Rightarrow> run_request \<Rightarrow> 'w rt \<Rightarrow> 'w result" where
  "run env ctx q st = (case create_continuation env q st of (c, st1) \<Rightarrow> drive_inline env ctx c st1)"

definition drive :: "'w eenv \<Rightarrow> details \<Rightarrow> string \<Rightarrow> 'w rt \<Rightarrow> 'w result" where
  "drive env ctx i st =
     (case cs_load (rt_conts st) i of
        None \<Rightarrow> (Inr ((outcome_of RunFailed i)\<lparr>ro_error := Some ''continuation not found''\<rparr>), st)
      | Some c \<Rightarrow>
        if c_status c \<in> {CDone, CFailed}
        then (Inr ((outcome_of (if c_status c = CDone then Done else RunFailed) i)
                \<lparr>ro_output := c_output c, ro_error := c_error c\<rparr>), st)
        else if c_status c = CSuspended then (Inr (suspended_outcome c), st)
        else (let c1 = c\<lparr>c_status := CRunning\<rparr>
              in drive_or_step env ctx c1 (e_transition env c1 ''running'' (save_cont env c1 st))))"

text \<open>The record with this id (the first of them) replaced.\<close>

primrec put_call :: "tool_call \<Rightarrow> tool_call list \<Rightarrow> tool_call list" where
  "put_call r [] = []"
| "put_call r (x # xs) = (if tc_use_id x = tc_use_id r then r # xs else x # put_call r xs)"

definition is_error_value :: "pyval \<Rightarrow> bool" where
  "is_error_value v = (case v of PDict d \<Rightarrow> truthy (arg d ''error'') | _ \<Rightarrow> False)"

definition rejection :: pyval where
  "rejection = PDict [(''error'', PStr ''Human rejected this action.''), (''rejected'', PBool True)]"

definition apply_resolution :: "'w eenv \<Rightarrow> details \<Rightarrow> continuation \<Rightarrow> tool_call \<Rightarrow> resolution \<Rightarrow> 'w rt \<Rightarrow>
    (escape + continuation \<times> tool_call) \<times> 'w rt" where
  "apply_resolution env ctx c rec rs st =
     (let finish = (\<lambda>r st. (let c' = c\<lparr>c_pending := put_call r (c_pending c)\<rparr> in (Inr (c', r), save_cont env c' st)))
      in case rs_outcome rs of
           Reject \<Rightarrow> finish (rec\<lparr>tc_status := TRejected, tc_result := rejection, tc_is_error := True\<rparr>) st
         | Result \<Rightarrow> finish (rec\<lparr>tc_status := TExecuted, tc_result := rs_payload rs\<rparr>) st
         | Accept \<Rightarrow>
           (case dispatch_authorized env ctx c (rec\<lparr>tc_token := rs_token rs\<rparr>) st of
              (Inl e, st1) \<Rightarrow> (Inl e, st1)
            | (Inr v, st1) \<Rightarrow> finish (rec\<lparr>tc_token := rs_token rs, tc_status := TExecuted, tc_result := v,
                tc_is_error := (tc_is_error rec \<or> is_error_value v)\<rparr>) st1))"

definition resolved_event :: "tool_call \<Rightarrow> tool_event list" where
  "resolved_event r = (if tc_status r \<in> {TExecuted, TRejected}
     then [\<lparr>te_use_id = None, te_name = tc_name r, te_input = tc_args r, te_result = tc_result r, te_is_error = tc_is_error r\<rparr>]
     else [])"

text \<open>What \<open>resume\<close> does once the resolution is applied.\<close>

definition settle_resume :: "'w eenv \<Rightarrow> details \<Rightarrow> continuation \<Rightarrow> tool_call \<Rightarrow> 'w rt \<Rightarrow> 'w result" where
  "settle_resume env ctx c rec st =
     (if list_ex (\<lambda>r. tc_status r = TPending) (c_pending c)
      then (let c1 = c\<lparr>c_status := CSuspended\<rparr>
            in (Inr ((suspended_outcome c1)\<lparr>ro_awaiting_remaining := True, ro_events := resolved_event rec\<rparr>), save_cont env c1 st))
      else (let c1 = c\<lparr>c_messages := shape_tool_results (provider_kind (c_provider c) (c_model c)) (c_pending c) (c_messages c),
                  c_pending := [], c_suspend_reason := None, c_status := CRunning, c_step := c_step c + 1\<rparr>;
                st1 = e_transition env c1 ''running'' (save_cont env c1 st)
            in apfst (map_sum id (\<lambda>out. with_events (resolved_event rec @ ro_events out) out)) (drive_or_step env ctx c1 st1)))"

definition resume :: "'w eenv \<Rightarrow> details \<Rightarrow> resolution \<Rightarrow> 'w rt \<Rightarrow> 'w result" where
  "resume env ctx rs st =
     (case cs_load (rt_conts st) (rs_cont rs) of
        None \<Rightarrow> (Inr ((outcome_of RunFailed (rs_cont rs))\<lparr>ro_error := Some ''continuation not found''\<rparr>), st)
      | Some c \<Rightarrow>
        if c_status c \<noteq> CSuspended
        then (Inr ((outcome_of RunFailed (c_id c))\<lparr>ro_error :=
                Some (''continuation not suspended (status='' @ cont_status_value (c_status c) @ '')'')\<rparr>), st)
        else
          (let c1 = c\<lparr>c_status := CResuming\<rparr>; st1 = save_cont env c1 st
           in case pending_by_id c1 (rs_use_id rs) of
                None \<Rightarrow> (Inr ((outcome_of RunFailed (c_id c1))\<lparr>ro_error :=
                   Some (''no pending tool_use '' @ rs_use_id rs)\<rparr>), st1)
              | Some rec \<Rightarrow>
                if tc_status rec \<noteq> TExecuted
                then (case apply_resolution env ctx c1 rec rs st1 of
                        (Inl e, st2) \<Rightarrow> (Inl e, st2)
                      | (Inr (c2, rec2), st2) \<Rightarrow> settle_resume env ctx c2 rec2 st2)
                else settle_resume env ctx c1 rec st1))"

end
