(* ===== verification/AgentContext.thy ===== *)
theory AgentContext
  imports Executor Engine
begin

text \<open>
  What an invocation hands to an agent: the tools it may see (\<open>build_tool_definitions\<close> and
  \<open>append_client_mcp_tools\<close> in \<open>src/src/platform/agentic_loop.py\<close>) and the context its tools run in
  (\<open>build_agent_context\<close> in \<open>src/stacks/base.py\<close>).  Tools are the dictionaries the code passes around.
\<close>

subsection \<open>Tools\<close>

text \<open>\<open>t.get("name", "")\<close> of a definition; names are strings.\<close>

definition tool_name :: "details \<Rightarrow> string" where
  "tool_name t = (case dget_default t ''name'' (PStr []) of PStr s \<Rightarrow> s | v \<Rightarrow> py_str v)"

definition rstrip_stars :: "string \<Rightarrow> string" where
  "rstrip_stars p = rstrip (\<lambda>c. c = CHR ''*'') p"

definition tool_name_matches :: "string \<Rightarrow> string list \<Rightarrow> bool" where
  "tool_name_matches n whitelist =
     (n \<in> set whitelist \<or> list_ex (\<lambda>p. ends_with_star p \<and> starts_with (rstrip_stars p) n) whitelist)"

text \<open>The custom, MCP and platform tools the tool executor offers.\<close>

record tool_source =
  ts_custom :: "details list"
  ts_mcp :: "details list"
  ts_platform :: "details list"

definition all_tools :: "tool_source \<Rightarrow> details list" where
  "all_tools s = ts_custom s @ ts_mcp s @ ts_platform s"

definition build_tool_definitions :: "tool_source option \<Rightarrow> string list \<Rightarrow> details list" where
  "build_tool_definitions src whitelist =
     (case src of
        None \<Rightarrow> []
      | Some s \<Rightarrow>
        if whitelist \<noteq> []
        then filter (\<lambda>t. tool_name t \<in> set whitelist \<or>
               list_ex (\<lambda>p. starts_with (rstrip_stars p) (tool_name t)) (filter ends_with_star whitelist)) (all_tools s)
        else all_tools s)"

text \<open>The schemas of a client's servers; \<open>None\<close> when asking for them raises.\<close>

type_synonym client_tools = "(string \<times> details list) list option"

definition client_tool_name :: "string \<Rightarrow> details \<Rightarrow> string" where
  "client_tool_name server schema = ''mcp__'' @ server @ ''__'' @ tool_name schema"

definition client_tool :: "string \<Rightarrow> details \<Rightarrow> details" where
  "client_tool server schema =
     [(''name'', PStr (client_tool_name server schema)),
      (''description'', dget_default schema ''description'' (PStr [])),
      (''input_schema'', dget_default schema ''inputSchema'' (dget_default schema ''input_schema''
         (PDict [(''type'', PStr ''object''), (''properties'', PDict [])])))]"

definition add_client_tool :: "string list \<Rightarrow> string \<Rightarrow> details \<Rightarrow> details list \<times> pyval list \<Rightarrow> details list \<times> pyval list" where
  "add_client_tool whitelist server schema acc =
     (let n = client_tool_name server schema
      in if PStr n \<in> set (snd acc) \<or> whitelist \<noteq> [] \<and> \<not> tool_name_matches n whitelist then acc
         else (fst acc @ [client_tool server schema], PStr n # snd acc))"

definition append_client_mcp_tools :: "details list \<Rightarrow> (string \<Rightarrow> client_tools) option \<Rightarrow> pyval \<Rightarrow> string list \<Rightarrow> details list" where
  "append_client_mcp_tools defs mgr client whitelist =
     (case mgr of
        None \<Rightarrow> defs
      | Some connect \<Rightarrow>
        if \<not> truthy client then defs
        else (case connect (py_str client) of
                None \<Rightarrow> defs
              | Some servers \<Rightarrow>
                fst (fold (\<lambda>(server, schemas) acc. fold (add_client_tool whitelist server) schemas acc) servers
                       (defs, map (\<lambda>t. dget_default t ''name'' PNone) defs))))"

subsection \<open>The context of an invocation\<close>

definition wants_user_tools :: "agent_def \<Rightarrow> bool" where
  "wants_user_tools a = (truthy (meta a ''per_user_mcp'' PNone) \<or> list_ex (starts_with ''mcp__atlassian__'') (a_tools a))"

definition context_user :: "details \<Rightarrow> pyval" where
  "context_user ctx = or_else (arg ctx ''user_id'') (PStr ''default'')"

text \<open>Which MCP connection serves the agent's calls, in the order of precedence.\<close>

definition client_route :: "agent_def \<Rightarrow> details \<Rightarrow> pyval" where
  "client_route a ctx =
     (let c0 = arg ctx ''client_id'';
          c1 = (if \<not> truthy c0 \<and> a_ownership a = Client then opt_str_val (a_owner a) else c0);
          c2 = (if \<not> truthy c1 \<and> truthy (meta a ''namespace_mcp'' PNone) \<and> a_namespace a \<noteq> [] then PStr (''ns:'' @ a_namespace a) else c1);
          u = context_user ctx
      in if \<not> truthy c2 \<and> a_ownership a = Personal \<and> wants_user_tools a \<and> truthy u \<and> u \<noteq> PStr ''default''
         then PStr (''user:'' @ py_str u) else c2)"

definition drive_fields :: "agent_def \<Rightarrow> details" where
  "drive_fields a =
     (case meta a ''_drive'' PNone of
        PDict d \<Rightarrow>
          (let acct = arg d ''service_account''; folder = arg d ''folder_id''
           in (if truthy acct then [(''_drive_service_account'', acct)] else []) @
              (if truthy folder \<and> folder \<noteq> PStr ''REPLACE_WITH_FOLDER_ID'' then [(''_drive_folder_id'', folder)] else []))
      | _ \<Rightarrow> [])"

definition build_agent_context :: "agent_def \<Rightarrow> string \<Rightarrow> string option \<Rightarrow> details \<Rightarrow> details" where
  "build_agent_context a k invocation ctx =
     [(''agent_id'', PStr k), (''agent_name'', PStr (a_name a)), (''namespace'', PStr (a_namespace a)),
      (''department'', PStr (a_department a)), (''client_id'', client_route a ctx), (''user_id'', context_user ctx),
      (''allowed_tools'', if a_tools a = [] then PNone else PList (map PStr (a_tools a))),
      (''tenant_id'', or_else (arg ctx ''tenant_id'') (meta a ''tenant_id'' (PStr ''default''))),
      (''plan'', meta a ''plan'' (PStr ''starter'')), (''monthly_limit_usd'', meta a ''monthly_limit_usd'' PNone)] @
     (case arg ctx ''_credentials'' of PDict d \<Rightarrow> [(''_credentials'', PDict d)] | _ \<Rightarrow> []) @
     drive_fields a @
     (case invocation of None \<Rightarrow> [] | Some i \<Rightarrow> if i = [] then [] else [(''invocation_id'', PStr i)])"

subsection \<open>What an agent sees\<close>

lemma client_tool_named [simp]: "tool_name (client_tool server schema) = client_tool_name server schema"
  by (simp add: tool_name_def client_tool_def)

lemma added_client_tools:
  "t \<in> set (fst (add_client_tool whitelist server schema acc)) \<Longrightarrow>
   t \<in> set (fst acc) \<or> t = client_tool server schema \<and> (whitelist \<noteq> [] \<longrightarrow> tool_name_matches (tool_name t) whitelist)"
  by (auto simp: add_client_tool_def Let_def split: if_splits)

lemma added_server_tools:
  "t \<in> set (fst (fold (add_client_tool whitelist server) schemas acc)) \<Longrightarrow>
   t \<in> set (fst acc) \<or> (\<exists>schema \<in> set schemas. t = client_tool server schema) \<and> (whitelist \<noteq> [] \<longrightarrow> tool_name_matches (tool_name t) whitelist)"
proof (induction schemas arbitrary: acc)
  case (Cons schema schemas)
  from Cons.IH [of "add_client_tool whitelist server schema acc"] Cons.prems show ?case
    using added_client_tools [of t whitelist server schema acc] by auto
qed simp

lemma added_tools:
  "t \<in> set (fst (fold (\<lambda>(server, schemas) acc. fold (add_client_tool whitelist server) schemas acc) servers acc)) \<Longrightarrow>
   t \<in> set (fst acc) \<or> (\<exists>(server, schemas) \<in> set servers. \<exists>schema \<in> set schemas. t = client_tool server schema) \<and>
     (whitelist \<noteq> [] \<longrightarrow> tool_name_matches (tool_name t) whitelist)"
proof (induction servers arbitrary: acc)
  case (Cons x servers)
  obtain server schemas where x: "x = (server, schemas)" by fastforce
  from Cons.IH [of "fold (add_client_tool whitelist server) schemas acc"] Cons.prems show ?case
    using added_server_tools [of t whitelist server schemas acc] by (auto simp: x)
qed simp

lemma kept_tools: "set defs \<subseteq> set (append_client_mcp_tools defs mgr client whitelist)"
proof -
  have one: "set (fst acc) \<subseteq> set (fst (fold (add_client_tool whitelist server) schemas acc))" for server schemas acc
  proof (induction schemas arbitrary: acc)
    case (Cons schema schemas)
    have "set (fst acc) \<subseteq> set (fst (add_client_tool whitelist server schema acc))" by (auto simp: add_client_tool_def Let_def)
    with Cons.IH [of "add_client_tool whitelist server schema acc"] show ?case by simp
  qed simp
  have "set (fst acc) \<subseteq> set (fst (fold (\<lambda>(server, schemas) acc. fold (add_client_tool whitelist server) schemas acc) servers acc))" for servers acc
  proof (induction servers arbitrary: acc)
    case (Cons x servers)
    obtain server schemas where x: "x = (server, schemas)" by fastforce
    from one [of acc server schemas] Cons.IH [of "fold (add_client_tool whitelist server) schemas acc"] show ?case by (simp add: x)
  qed simp
  from this [of "(defs, map (\<lambda>t. dget_default t ''name'' PNone) defs)"] show ?thesis
    by (simp add: append_client_mcp_tools_def split: option.split)
qed

lemma built_tools:
  "t \<in> set (build_tool_definitions (Some s) whitelist) \<longleftrightarrow>
     t \<in> set (all_tools s) \<and> (whitelist \<noteq> [] \<longrightarrow> tool_name_matches (tool_name t) whitelist)"
  by (auto simp: build_tool_definitions_def tool_name_matches_def list_ex_iff)


definition two_tools :: tool_source where
  "two_tools = \<lparr>ts_custom = [[(''name'', PStr ''mail__send'')], [(''name'', PStr ''crm__read'')]], ts_mcp = [], ts_platform = []\<rparr>"

definition jira_of :: "string \<Rightarrow> client_tools" where
  "jira_of client = Some [(''jira'', [[(''name'', PStr ''search'')]])]"


text \<open>
  A shared agent is never served by the connection of a user unless the context of the invocation
  names one: the connection is what the context says, else that of its namespace, else the
  platform's. A context with a \<open>client_id\<close> decides for every agent, whoever wrote it.
\<close>

theorem shared_agents_use_no_user_connection:
  "(truthy (arg ctx ''client_id'') \<longrightarrow> client_route a ctx = arg ctx ''client_id'') \<and>
   (\<not> truthy (arg ctx ''client_id'') \<and> a_ownership a = Shared \<longrightarrow>
      client_route a ctx = (if truthy (meta a ''namespace_mcp'' PNone) \<and> a_namespace a \<noteq> [] then PStr (''ns:'' @ a_namespace a) else arg ctx ''client_id'')) \<and>
   (\<not> truthy (arg ctx ''client_id'') \<and> a_ownership a = Personal \<and> truthy (client_route a ctx) \<longrightarrow>
      client_route a ctx \<in> {PStr (''ns:'' @ a_namespace a), PStr (''user:'' @ py_str (context_user ctx))})"
  by (auto simp: client_route_def Let_def)

end
