(* ===== verification/Secrets.thy ===== *)
theory Secrets
  imports Pyrt
begin

text \<open>
  Secrets (\<open>src/src/core/secrets.py\<close>, \<open>secret_backends.py\<close>) and the three-tier credential store on them
  (\<open>src/src/platform/credentials.py\<close>), with its two run-time callers: the environment of a client's
  MCP server (\<open>client_mcp_manager.py\<close>) and the API key of an agent's model (\<open>llm_router.py\<close>).

  Fernet and the Secret Manager client are not in the repository and are parameters of \<open>secret_env\<close>:
  \<open>se_encrypt\<close> / \<open>se_decrypt\<close>, and \<open>se_gcp_*\<close> on an opaque state \<open>'g\<close> (a raised exception is \<open>None\<close> or
  \<open>False\<close>).  \<open>ss_rows\<close> is the table \<open>user_credentials\<close> of one tenant, by \<open>secret_name\<close>.  An audit recorder
  is wired.  The clock is an argument, in microseconds, as is the cache's time to live.  Listings keep the order of
  the rows (the database sorts by its collation).
\<close>

subsection \<open>State\<close>

record secret_row =
  sr_user :: string
  sr_kind :: string
  sr_cipher :: string
  sr_scope :: string
  sr_namespace :: "string option"

record 'g secrets =
  ss_cache :: "(string, string \<times> time) dict"
  ss_rows :: "(string, secret_row) dict"
  ss_gcp :: 'g
  ss_audit :: "(string \<times> (string \<times> pyval) list) list"

record 'g secret_env =
  se_wired :: bool
  se_available :: bool
  se_encrypt :: "string \<Rightarrow> string"
  se_decrypt :: "string \<Rightarrow> string option"
  se_client :: bool
  se_gcp_get :: "string \<Rightarrow> 'g \<Rightarrow> string option"
  se_gcp_put :: "string \<Rightarrow> string \<Rightarrow> 'g \<Rightarrow> bool \<times> 'g"
  se_gcp_delete :: "string \<Rightarrow> 'g \<Rightarrow> bool \<times> 'g"
  se_gcp_list :: "'g \<Rightarrow> string list"
  se_environ :: "(string, string) dict"
  se_ttl :: int

definition emit_secret_audit :: "string \<Rightarrow> (string \<times> pyval) list \<Rightarrow> 'g secrets \<Rightarrow> 'g secrets" where
  "emit_secret_audit action details s = s\<lparr>ss_audit := ss_audit s @ [(action, details)]\<rparr>"

subsection \<open>The cache\<close>

definition invalidate :: "string \<Rightarrow> 'g secrets \<Rightarrow> bool \<times> 'g secrets" where
  "invalidate n s = (case map_of (ss_cache s) n of
       None \<Rightarrow> (False, s)
     | Some _ \<Rightarrow> (True, emit_secret_audit ''secret.invalidate'' [(''name'', PStr n)] (s\<lparr>ss_cache := dpop n (ss_cache s)\<rparr>)))"

definition invalidate_all :: "'g secrets \<Rightarrow> nat \<times> 'g secrets" where
  "invalidate_all s = (let k = length (ss_cache s); s1 = s\<lparr>ss_cache := []\<rparr>
     in (k, if k \<noteq> 0 then emit_secret_audit ''secret.invalidate_all'' [(''count'', PInt (int k))] s1 else s1))"

definition lease_remaining :: "time \<Rightarrow> string \<Rightarrow> 'g secrets \<Rightarrow> int option" where
  "lease_remaining now n s = (case map_of (ss_cache s) n of None \<Rightarrow> None | Some (v, t) \<Rightarrow> Some (max 0 (t - now)))"

subsection \<open>The encrypted table\<close>

definition backend_get :: "'g secret_env \<Rightarrow> string \<Rightarrow> 'g secrets \<Rightarrow> string option" where
  "backend_get env n s = (if \<not> se_available env then None
     else case map_of (ss_rows s) n of None \<Rightarrow> None | Some r \<Rightarrow> se_decrypt env (sr_cipher r))"

definition backend_put :: "'g secret_env \<Rightarrow> string \<Rightarrow> string \<Rightarrow> string \<Rightarrow> string \<Rightarrow> string \<Rightarrow> string option \<Rightarrow> 'g secrets \<Rightarrow> bool \<times> 'g secrets" where
  "backend_put env n v user kind scope ns s =
     (if \<not> se_available env then (False, s)
      else (True, s\<lparr>ss_rows := dset n \<lparr>sr_user = user, sr_kind = kind, sr_cipher = se_encrypt env v, sr_scope = scope,
        sr_namespace = ns\<rparr> (ss_rows s)\<rparr>))"

definition backend_delete :: "'g secret_env \<Rightarrow> string \<Rightarrow> 'g secrets \<Rightarrow> bool \<times> 'g secrets" where
  "backend_delete env n s = (if \<not> se_available env then (False, s) else (True, s\<lparr>ss_rows := dpop n (ss_rows s)\<rparr>))"

text \<open>\<open>clauses\<close>: an absent namespace or user does not filter.\<close>

definition backend_list :: "'g secret_env \<Rightarrow> string \<Rightarrow> string option \<Rightarrow> string option \<Rightarrow> 'g secrets \<Rightarrow> (string \<times> secret_row) list" where
  "backend_list env scope ns user s = (if \<not> se_available env then []
     else filter (\<lambda>(n, r). sr_scope r = scope \<and> (ns = None \<or> sr_namespace r = ns) \<and> (user = None \<or> Some (sr_user r) = user)) (ss_rows s))"

subsection \<open>The secrets manager\<close>

definition upper_char :: "char \<Rightarrow> char" where
  "upper_char c = (let n = of_char c :: nat in if 97 \<le> n \<and> n \<le> 122 then char_of (n - 32) else c)"

definition env_name :: "string \<Rightarrow> string" where
  "env_name n = map (\<lambda>c. if c = CHR ''-'' then CHR ''_'' else c) (map upper_char n)"

definition read_details :: "string \<Rightarrow> string \<Rightarrow> string \<Rightarrow> string \<Rightarrow> (string \<times> pyval) list" where
  "read_details n source caller reason =
     [(''name'', PStr n), (''source'', PStr source), (''caller'', PStr caller), (''reason'', PStr reason)]"

definition remember :: "'g secret_env \<Rightarrow> time \<Rightarrow> string \<Rightarrow> string \<Rightarrow> 'g secrets \<Rightarrow> 'g secrets" where
  "remember env now n v s = s\<lparr>ss_cache := dset n (v, now + se_ttl env) (ss_cache s)\<rparr>"

definition secrets_fetch :: "'g secret_env \<Rightarrow> time \<Rightarrow> string \<Rightarrow> string \<Rightarrow> string \<Rightarrow> string \<Rightarrow> bool \<Rightarrow> 'g secrets \<Rightarrow> string \<times> 'g secrets" where
  "secrets_fetch env now n dflt caller reason allow_env s =
     (case (if se_wired env then backend_get env n s else None) of
        Some v \<Rightarrow> (v, emit_secret_audit ''secret.read'' (read_details n ''postgres'' caller reason) (remember env now n v s))
      | None \<Rightarrow>
        (case (if se_client env then se_gcp_get env n (ss_gcp s) else None) of
           Some v \<Rightarrow> (v, emit_secret_audit ''secret.read'' (read_details n ''secret_manager'' caller reason) (remember env now n v s))
         | None \<Rightarrow>
           if \<not> allow_env then (dflt, emit_secret_audit ''secret.read'' (read_details n ''absent'' caller reason) s)
           else (case map_of (se_environ env) (env_name n) of
                   Some v \<Rightarrow> (v, emit_secret_audit ''secret.read'' (read_details n ''env'' caller reason) s)
                 | None \<Rightarrow> (dflt, emit_secret_audit ''secret.read'' (read_details n ''default'' caller reason) s))))"

definition secrets_get :: "'g secret_env \<Rightarrow> time \<Rightarrow> string \<Rightarrow> string \<Rightarrow> string \<Rightarrow> string \<Rightarrow> bool \<Rightarrow> 'g secrets \<Rightarrow> string \<times> 'g secrets" where
  "secrets_get env now n dflt caller reason allow_env s =
     (case map_of (ss_cache s) n of
        None \<Rightarrow> secrets_fetch env now n dflt caller reason allow_env s
      | Some (v, t) \<Rightarrow>
        if now < t then (v, emit_secret_audit ''secret.read'' (read_details n ''cache'' caller reason) s)
        else secrets_fetch env now n dflt caller reason allow_env
          (emit_secret_audit ''secret.lease_expired'' [(''name'', PStr n), (''caller'', PStr caller)] (s\<lparr>ss_cache := dpop n (ss_cache s)\<rparr>)))"

definition written :: "string \<Rightarrow> (string \<times> pyval) list \<Rightarrow> string \<Rightarrow> string \<Rightarrow> 'g secrets \<Rightarrow> 'g secrets" where
  "written n source caller reason s = emit_secret_audit ''secret.write''
     ((''name'', PStr n) # source @ [(''caller'', PStr caller), (''reason'', PStr reason)]) (s\<lparr>ss_cache := dpop n (ss_cache s)\<rparr>)"

definition secrets_put :: "'g secret_env \<Rightarrow> string \<Rightarrow> string \<Rightarrow> string \<Rightarrow> string \<Rightarrow> string \<Rightarrow> string \<Rightarrow> string \<Rightarrow> string option \<Rightarrow> 'g secrets \<Rightarrow> bool \<times> 'g secrets" where
  "secrets_put env n v caller reason user kind scope ns s =
     (case (if se_wired env then backend_put env n v user kind scope ns s else (False, s)) of
        (True, s1) \<Rightarrow> (True, written n [(''source'', PStr ''postgres'')] caller reason s1)
      | (False, s1) \<Rightarrow>
        if \<not> se_client env then (False, s1)
        else (case se_gcp_put env n v (ss_gcp s1) of (ok, g) \<Rightarrow>
                if ok then (True, written n [] caller reason (s1\<lparr>ss_gcp := g\<rparr>)) else (False, s1\<lparr>ss_gcp := g\<rparr>)))"

definition secrets_delete :: "'g secret_env \<Rightarrow> string \<Rightarrow> string \<Rightarrow> string \<Rightarrow> 'g secrets \<Rightarrow> bool \<times> 'g secrets" where
  "secrets_delete env n caller reason s =
     (case (if se_wired env then backend_delete env n (s\<lparr>ss_cache := dpop n (ss_cache s)\<rparr>) else (False, s\<lparr>ss_cache := dpop n (ss_cache s)\<rparr>)) of
        (ok, s1) \<Rightarrow>
        (case (if se_client env then se_gcp_delete env n (ss_gcp s1) else (False, ss_gcp s1)) of (gone, g) \<Rightarrow>
           (ok \<or> gone, emit_secret_audit ''secret.delete'' [(''name'', PStr n), (''caller'', PStr caller), (''reason'', PStr reason)]
              (s1\<lparr>ss_gcp := g\<rparr>))))"

record secret_meta =
  sm_name :: string
  sm_kind :: string
  sm_scope :: string
  sm_namespace :: "string option"
  sm_user :: "string option"

definition meta_of_row :: "string \<times> secret_row \<Rightarrow> secret_meta" where
  "meta_of_row p = (case p of (n, r) \<Rightarrow> \<lparr>sm_name = n, sm_kind = sr_kind r, sm_scope = sr_scope r, sm_namespace = sr_namespace r,
     sm_user = Some (sr_user r)\<rparr>)"

text \<open>The table first, then the names of the Secret Manager with the prefix that are not in it.\<close>

definition secrets_list :: "'g secret_env \<Rightarrow> string \<Rightarrow> string option \<Rightarrow> string option \<Rightarrow> string \<Rightarrow> 'g secrets \<Rightarrow> secret_meta list" where
  "secrets_list env scope ns user prefix s =
     (let rows = (if se_wired env then filter (\<lambda>m. sm_name m \<noteq> []) (map meta_of_row (backend_list env scope ns user s)) else []);
          found = map (\<lambda>m. (sm_name m, m)) rows
      in dvals (if se_client env \<and> prefix \<noteq> []
           then foldl (\<lambda>d n. if starts_with prefix n \<and> map_of d n = None
                  then dset n \<lparr>sm_name = n, sm_kind = ''generic'', sm_scope = scope, sm_namespace = ns, sm_user = user\<rparr> d else d)
                found (se_gcp_list env (ss_gcp s))
           else found))"

definition get_tenant_secret :: "'g secret_env \<Rightarrow> time \<Rightarrow> string \<Rightarrow> string \<Rightarrow> string \<Rightarrow> 'g secrets \<Rightarrow> string \<times> 'g secrets" where
  "get_tenant_secret env now ten k dflt s = secrets_get env now (''tenant-'' @ ten @ ''-'' @ k) dflt [] [] True s"

definition provider_key :: "'g secret_env \<Rightarrow> time \<Rightarrow> string \<Rightarrow> string \<Rightarrow> string \<Rightarrow> string option \<Rightarrow> 'g secrets \<Rightarrow> string \<times> 'g secrets" where
  "provider_key env now tenant_key name var ten s =
     (let platform = (\<lambda>s. secrets_get env now name (dget_default (se_environ env) var []) [] [] True s)
      in case ten of
           Some t \<Rightarrow> if t = [] then platform s
             else (case get_tenant_secret env now t tenant_key [] s of (k, s1) \<Rightarrow> if k \<noteq> [] then (k, s1) else platform s1)
         | None \<Rightarrow> platform s)"

definition get_anthropic_key :: "'g secret_env \<Rightarrow> time \<Rightarrow> string option \<Rightarrow> 'g secrets \<Rightarrow> string \<times> 'g secrets" where
  "get_anthropic_key env now ten s = provider_key env now ''anthropic-key'' ''anthropic-api-key'' ''ANTHROPIC_API_KEY'' ten s"

definition get_openai_key :: "'g secret_env \<Rightarrow> time \<Rightarrow> string option \<Rightarrow> 'g secrets \<Rightarrow> string \<times> 'g secrets" where
  "get_openai_key env now ten s = provider_key env now ''openai-key'' ''openai-api-key'' ''OPENAI_API_KEY'' ten s"

subsection \<open>Names of the three tiers\<close>

definition default_user_id :: string where
  "default_user_id = ''default''"

definition secret_scopes :: "string list" where
  "secret_scopes = [''tenant'', ''namespace'', ''user'']"

definition canonical_scope :: "string \<Rightarrow> string" where
  "canonical_scope sc = (if sc = ''platform'' then ''tenant'' else sc)"

text \<open>\<open>x or DEFAULT_USER_ID\<close>\<close>

definition or_default :: "string option \<Rightarrow> string" where
  "or_default x = (case x of None \<Rightarrow> default_user_id | Some s \<Rightarrow> if s = [] then default_user_id else s)"

definition name_char :: "char \<Rightarrow> bool" where
  "name_char c = (let n = of_char c :: nat
     in 48 \<le> n \<and> n \<le> 57 \<or> 65 \<le> n \<and> n \<le> 90 \<or> 97 \<le> n \<and> n \<le> 122 \<or> n = 95 \<or> n = 45)"

text \<open>\<open>^[A-Za-z0-9][A-Za-z0-9_-]{0,200}$\<close>\<close>

definition secret_name_re :: "string \<Rightarrow> bool" where
  "secret_name_re s = (case s of [] \<Rightarrow> False
     | c # cs \<Rightarrow> name_char c \<and> c \<noteq> CHR ''_'' \<and> c \<noteq> CHR ''-'' \<and> list_all name_char cs \<and> length cs \<le> 200)"

definition validate_secret_name :: "string \<Rightarrow> string res" where
  "validate_secret_name n = (if secret_name_re (strip n) then Inr (strip n) else Inl ValueError)"

definition scoped_secret_name :: "string \<Rightarrow> string \<Rightarrow> string option \<Rightarrow> string option \<Rightarrow> string res" where
  "scoped_secret_name n scope ns user =
     (let n = strip n; scope = canonical_scope scope
      in if scope = ''tenant'' then Inr (''forgeos-tenant-'' @ n)
         else if scope = ''namespace'' then Inr (''forgeos-ns-'' @ or_default ns @ ''-'' @ n)
         else if scope = ''user'' then Inr (''forgeos-user-'' @ or_default user @ ''-'' @ n)
         else Inl ValueError)"

definition scope_prefix :: "string \<Rightarrow> string option \<Rightarrow> string option \<Rightarrow> string res" where
  "scope_prefix scope ns user = scoped_secret_name [] scope ns user"

definition logical_secret_name :: "string \<Rightarrow> string \<Rightarrow> string option \<Rightarrow> string option \<Rightarrow> string res" where
  "logical_secret_name st scope ns user =
     rbind (scope_prefix scope ns user) (\<lambda>p. Inr (if starts_with p st then drop (length p) st else st))"

definition legacy_secret_name :: "string \<Rightarrow> string \<Rightarrow> string" where
  "legacy_secret_name kind user = ''forgeos-'' @ kind @ ''-pat-'' @ or_default (Some user)"

definition field_secret_name :: "string \<Rightarrow> string \<Rightarrow> string \<Rightarrow> string" where
  "field_secret_name kind field user = ''forgeos-'' @ kind @ ''-'' @ field @ ''-'' @ or_default (Some user)"

definition jira_secret_names :: "string \<Rightarrow> (string, string) dict" where
  "jira_secret_names user = map (\<lambda>f. (f, field_secret_name ''jira'' f user)) [''url'', ''email'', ''token'']"

definition allowed_scopes_for_agent :: "string \<Rightarrow> string option \<Rightarrow> string list \<times> string option" where
  "allowed_scopes_for_agent ownership owner =
     (if ownership = ''personal'' then ([''user'', ''namespace'', ''tenant''], if owner = Some [] then None else owner)
      else ([''namespace'', ''tenant''], None))"

subsection \<open>The credential store\<close>

definition put_github_pat :: "'g secret_env \<Rightarrow> string \<Rightarrow> string \<Rightarrow> string \<Rightarrow> 'g secrets \<Rightarrow> bool res \<times> 'g secrets" where
  "put_github_pat env pat user caller s = (if strip pat = [] then (Inl ValueError, s)
     else apfst Inr (secrets_put env (legacy_secret_name ''github'' user) (strip pat) caller ''credentials.put.github'' user ''github'' ''user'' None s))"

definition put_secret :: "'g secret_env \<Rightarrow> string \<Rightarrow> string \<Rightarrow> string \<Rightarrow> string \<Rightarrow> string \<Rightarrow> 'g secrets \<Rightarrow> bool res \<times> 'g secrets" where
  "put_secret env n v user kind caller s = (if strip v = [] then (Inl ValueError, s)
     else apfst Inr (secrets_put env n (strip v) caller (''credentials.put.'' @ kind) user kind ''user'' None s))"

definition put_jira :: "'g secret_env \<Rightarrow> string \<Rightarrow> string \<Rightarrow> string \<Rightarrow> string \<Rightarrow> string \<Rightarrow> 'g secrets \<Rightarrow> bool res \<times> 'g secrets" where
  "put_jira env url email token user caller s =
     (let fields = [(''url'', url), (''email'', email), (''token'', token)]
      in if list_ex (\<lambda>(f, v). strip v = []) fields then (Inl ValueError, s)
         else apfst Inr (foldl (\<lambda>(ok, s) (f, v).
           case secrets_put env (field_secret_name ''jira'' f user) (strip v) caller (''credentials.put.jira.'' @ f) user ''jira'' ''user'' None s of
             (done, s') \<Rightarrow> (done \<and> ok, s')) (True, s) fields))"

definition get_github_pat :: "'g secret_env \<Rightarrow> time \<Rightarrow> string \<Rightarrow> string \<Rightarrow> string \<Rightarrow> 'g secrets \<Rightarrow> string \<times> 'g secrets" where
  "get_github_pat env now user caller invo s =
     secrets_get env now (legacy_secret_name ''github'' user) [] caller (''credentials.access.github:invocation='' @ invo) True s"

definition inject_for_invocation :: "'g secret_env \<Rightarrow> time \<Rightarrow> string \<Rightarrow> string \<Rightarrow> string \<Rightarrow> (string, (string, string) dict) dict \<Rightarrow> 'g secrets \<Rightarrow>
    (string, (string, string) dict) dict \<times> 'g secrets" where
  "inject_for_invocation env now user caller invo ctx s =
     (case get_github_pat env now user caller invo s of (pat, s') \<Rightarrow>
        (if pat \<noteq> [] then dset ''_credentials'' (dset ''gh_token'' pat (dget_default ctx ''_credentials'' [])) ctx else ctx, s'))"

definition put_scoped_secret :: "'g secret_env \<Rightarrow> string \<Rightarrow> string \<Rightarrow> string \<Rightarrow> string option \<Rightarrow> string \<Rightarrow> string \<Rightarrow> string \<Rightarrow> 'g secrets \<Rightarrow>
    bool res \<times> 'g secrets" where
  "put_scoped_secret env n v scope ns user kind caller s =
     (let scope = canonical_scope scope
      in if scope \<notin> set secret_scopes then (Inl ValueError, s)
         else if scope = ''namespace'' \<and> (ns = None \<or> ns = Some []) then (Inl ValueError, s)
         else if strip v = [] then (Inl ValueError, s)
         else (case rbind (validate_secret_name n) (\<lambda>n. scoped_secret_name n scope ns (Some user)) of
                 Inl e \<Rightarrow> (Inl e, s)
               | Inr st \<Rightarrow> apfst Inr (secrets_put env st (strip v) caller (''credentials.put.'' @ scope @ ''.'' @ kind) user kind scope
                   (if scope = ''namespace'' then ns else None) s)))"

definition delete_scoped_secret :: "'g secret_env \<Rightarrow> string \<Rightarrow> string \<Rightarrow> string option \<Rightarrow> string \<Rightarrow> string \<Rightarrow> 'g secrets \<Rightarrow> bool res \<times> 'g secrets" where
  "delete_scoped_secret env n scope ns user caller s =
     (let scope = canonical_scope scope
      in if scope \<notin> set secret_scopes then (Inl ValueError, s)
         else (case rbind (validate_secret_name n) (\<lambda>n. scoped_secret_name n scope ns (Some user)) of
                 Inl e \<Rightarrow> (Inl e, s)
               | Inr st \<Rightarrow> apfst Inr (secrets_delete env st caller (''credentials.delete.'' @ scope) s)))"

text \<open>\<open>r.get("namespace") or namespace\<close>\<close>

definition opt_or :: "string option \<Rightarrow> string option \<Rightarrow> string option" where
  "opt_or x y = (case x of None \<Rightarrow> y | Some s \<Rightarrow> if s = [] then y else x)"

definition list_secrets :: "'g secret_env \<Rightarrow> string \<Rightarrow> string option \<Rightarrow> string option \<Rightarrow> 'g secrets \<Rightarrow> (string \<times> pyval) list list res" where
  "list_secrets env scope ns user s =
     (let scope = canonical_scope scope
      in if scope \<notin> set secret_scopes then Inl ValueError
         else rbind (scope_prefix scope ns user) (\<lambda>p.
           Inr (map (\<lambda>m. [(''name'', PStr (case logical_secret_name (sm_name m) scope (opt_or (sm_namespace m) ns) (opt_or (sm_user m) user)
                               of Inr l \<Rightarrow> l | Inl _ \<Rightarrow> sm_name m)),
                           (''kind'', PStr (sm_kind m)), (''scope'', PStr (sm_scope m)),
                           (''namespace'', case sm_namespace m of None \<Rightarrow> PNone | Some x \<Rightarrow> PStr x)])
             (secrets_list env scope ns user p s))))"

subsection \<open>Resolution\<close>

definition secret_pins :: "(string, string) dict" where
  "secret_pins = [(''tenant/'', ''tenant''), (''platform/'', ''tenant''), (''ns/'', ''namespace''), (''user/'', ''user'')]"

definition or_absent :: "string \<times> 'g secrets \<Rightarrow> string option res \<times> 'g secrets" where
  "or_absent p = (case p of (v, s) \<Rightarrow> (Inr (if v = [] then None else Some v), s))"

definition scope_allowed :: "string list option \<Rightarrow> string \<Rightarrow> bool" where
  "scope_allowed allowed scope = (case allowed of None \<Rightarrow> True | Some scs \<Rightarrow> scope \<in> set scs)"

fun walk_scopes :: "'g secret_env \<Rightarrow> time \<Rightarrow> string \<Rightarrow> string option \<Rightarrow> string \<Rightarrow> string list option \<Rightarrow> string \<Rightarrow> string list \<Rightarrow> 'g secrets \<Rightarrow>
    string option res \<times> 'g secrets" where
  "walk_scopes env now ref ns user allowed caller [] s =
     or_absent (secrets_get env now ref [] caller ''credentials.resolve.literal'' True s)"
| "walk_scopes env now ref ns user allowed caller (sc # order) s =
     (if \<not> scope_allowed allowed sc then walk_scopes env now ref ns user allowed caller order s
      else if sc = ''namespace'' \<and> (ns = None \<or> ns = Some []) then walk_scopes env now ref ns user allowed caller order s
      else if sc = ''user'' \<and> user = [] then walk_scopes env now ref ns user allowed caller order s
      else (case scoped_secret_name ref sc ns (Some user) of
              Inl e \<Rightarrow> (Inl e, s)
            | Inr st \<Rightarrow>
              (case secrets_get env now st [] caller (''credentials.resolve.'' @ sc) False s of (v, s1) \<Rightarrow>
                 if v \<noteq> [] then (Inr (Some v), s1) else walk_scopes env now ref ns user allowed caller order s1)))"

definition cred_resolve :: "'g secret_env \<Rightarrow> time \<Rightarrow> string \<Rightarrow> string option \<Rightarrow> string \<Rightarrow> string list \<Rightarrow> string list option \<Rightarrow> string \<Rightarrow>
    'g secrets \<Rightarrow> string option res \<times> 'g secrets" where
  "cred_resolve env now r ns user order allowed caller s =
     (let ref = strip r
      in if ref = [] then (Inr None, s)
         else (case find (\<lambda>(p, sc). starts_with p ref) secret_pins of
                 Some (p, sc) \<Rightarrow>
                   if \<not> scope_allowed allowed sc then (Inr None, s)
                   else (case scoped_secret_name (drop (length p) ref) sc ns (Some user) of
                           Inl e \<Rightarrow> (Inl e, s)
                         | Inr st \<Rightarrow> or_absent (secrets_get env now st [] caller (''credentials.resolve.'' @ sc) False s))
               | None \<Rightarrow> walk_scopes env now ref ns user allowed caller order s))"

definition default_order :: "string list" where
  "default_order = [''user'', ''namespace'', ''tenant'']"

subsection \<open>Its run-time callers\<close>

definition pin_secret :: string where
  "pin_secret = ''secret:''"

text \<open>
  \<open>_resolve_env\<close> of the client MCP manager.  The connection id decides what may be read; a value that
  raises ends the whole call.
\<close>

definition connection_scopes :: "string \<Rightarrow> string \<times> string list \<times> string list" where
  "connection_scopes client =
     (if starts_with ''user:'' client
      then (or_default (Some (drop 5 client)), [''namespace'', ''user'', ''tenant''], [''user'', ''namespace'', ''tenant''])
      else (default_user_id, [''namespace'', ''tenant''], [''namespace'', ''tenant'']))"

fun resolve_env_vars :: "'g secret_env \<Rightarrow> time \<Rightarrow> bool \<Rightarrow> string \<Rightarrow> string \<Rightarrow> string \<Rightarrow> (string, pyval) dict \<Rightarrow> (string, pyval) dict \<Rightarrow> 'g secrets \<Rightarrow>
    (string, pyval) dict res \<times> 'g secrets" where
  "resolve_env_vars env now managed ns client server [] acc s = (Inr acc, s)"
| "resolve_env_vars env now managed ns client server ((k, v) # vars) acc s =
     (case (case v of PStr r \<Rightarrow> if starts_with pin_secret r then Some (drop 7 r) else None | _ \<Rightarrow> None) of
        None \<Rightarrow> resolve_env_vars env now managed ns client server vars (dset k v acc) s
      | Some n \<Rightarrow>
        if managed then
          (case connection_scopes client of (cu, order, allowed) \<Rightarrow>
           case cred_resolve env now n (Some ns) cu order (Some allowed) (''client_mcp_'' @ client @ ''_'' @ server) s of
             (Inl e, s1) \<Rightarrow> (Inl e, s1)
           | (Inr None, s1) \<Rightarrow> resolve_env_vars env now managed ns client server vars acc s1
           | (Inr (Some x), s1) \<Rightarrow> resolve_env_vars env now managed ns client server vars (dset k (PStr x) acc) s1)
        else resolve_env_vars env now managed ns client server vars
          (dset k (PStr (dget_default (se_environ env) (env_name n) [])) acc) s)"

definition resolve_env :: "'g secret_env \<Rightarrow> time \<Rightarrow> bool \<Rightarrow> string \<Rightarrow> string \<Rightarrow> string \<Rightarrow> (string, pyval) dict \<Rightarrow> 'g secrets \<Rightarrow>
    (string, pyval) dict res \<times> 'g secrets" where
  "resolve_env env now managed ns client server vars s =
     resolve_env_vars env now managed ns client server vars (dmap PStr (se_environ env)) s"

text \<open>\<open>_resolve_api_key\<close> of the model router.\<close>

definition non_empty :: "string option \<Rightarrow> string option" where
  "non_empty x = (if x = Some [] then None else x)"

definition resolve_api_key :: "'g secret_env \<Rightarrow> time \<Rightarrow> bool \<Rightarrow> string option \<Rightarrow> string \<Rightarrow> string \<Rightarrow> 'g secrets \<Rightarrow> string option \<times> 'g secrets" where
  "resolve_api_key env now managed key ns user s =
     (case non_empty key of
        None \<Rightarrow> (None, s)
      | Some k \<Rightarrow>
        (let ref = strip k
         in if starts_with pin_secret ref then
              (if managed then
                 (case cred_resolve env now (drop 7 ref) (Some ns) user default_order None ''llm_router'' s of
                    (Inl _, s1) \<Rightarrow> (None, s1) | (Inr v, s1) \<Rightarrow> (v, s1))
               else (non_empty (map_of (se_environ env) (env_name (drop 7 ref))), s))
            else if starts_with ''env:'' ref then (non_empty (map_of (se_environ env) (drop 4 ref)), s)
            else (Some ref, s)))"

subsection \<open>What one name reads\<close>

text \<open>The value a read of a name returns, as a function of the state.\<close>

definition secret_value :: "'g secret_env \<Rightarrow> time \<Rightarrow> bool \<Rightarrow> string \<Rightarrow> 'g secrets \<Rightarrow> string" where
  "secret_value env now allow_env n s = fst (secrets_get env now n [] [] [] allow_env s)"

lemma emit_secret_simps [simp]:
  "ss_cache (emit_secret_audit a d s) = ss_cache s" "ss_rows (emit_secret_audit a d s) = ss_rows s"
  "ss_gcp (emit_secret_audit a d s) = ss_gcp s" "ss_audit (emit_secret_audit a d s) = ss_audit s @ [(a, d)]"
  by (simp_all add: emit_secret_audit_def)

lemma remember_simps [simp]:
  "ss_rows (remember env now n v s) = ss_rows s" "ss_gcp (remember env now n v s) = ss_gcp s"
  "ss_cache (remember env now n v s) = dset n (v, now + se_ttl env) (ss_cache s)" "ss_audit (remember env now n v s) = ss_audit s"
  by (simp_all add: remember_def)

text \<open>What a fresh read of the stores returns, the cache aside.\<close>

definition stored_secret :: "'g secret_env \<Rightarrow> string \<Rightarrow> 'g secrets \<Rightarrow> string option" where
  "stored_secret env n s = (case (if se_wired env then backend_get env n s else None) of
     Some v \<Rightarrow> Some v | None \<Rightarrow> if se_client env then se_gcp_get env n (ss_gcp s) else None)"

definition missing_secret :: "'g secret_env \<Rightarrow> bool \<Rightarrow> string \<Rightarrow> string \<Rightarrow> string" where
  "missing_secret env allow_env n dflt = (if allow_env then dget_default (se_environ env) (env_name n) dflt else dflt)"

lemma secrets_fetch_value:
  "fst (secrets_fetch env now n dflt caller reason allow_env s) =
     (case stored_secret env n s of Some v \<Rightarrow> v | None \<Rightarrow> missing_secret env allow_env n dflt)"
  by (auto simp: secrets_fetch_def stored_secret_def missing_secret_def split: option.split)

lemma stored_secret_simps [simp]:
  "stored_secret env n (emit_secret_audit a d s) = stored_secret env n s"
  "stored_secret env n (s\<lparr>ss_cache := c\<rparr>) = stored_secret env n s"
  "stored_secret env n (remember env now q v s) = stored_secret env n s"
  by (auto simp: stored_secret_def backend_get_def emit_secret_audit_def remember_def split: option.split)

definition live_lease :: "time \<Rightarrow> string \<Rightarrow> 'g secrets \<Rightarrow> string option" where
  "live_lease now n s = (case map_of (ss_cache s) n of None \<Rightarrow> None | Some (v, t) \<Rightarrow> if now < t then Some v else None)"

lemma secrets_get_hit: "live_lease now n s = Some v \<Longrightarrow> secrets_get env now n dflt caller reason allow_env s =
    (v, emit_secret_audit ''secret.read'' (read_details n ''cache'' caller reason) s)"
  by (auto simp: live_lease_def secrets_get_def split: option.splits if_splits)

lemma secrets_get_miss:
  assumes "live_lease now n s = None"
  obtains s1 where "secrets_get env now n dflt caller reason allow_env s = secrets_fetch env now n dflt caller reason allow_env s1"
    and "ss_rows s1 = ss_rows s" and "ss_gcp s1 = ss_gcp s" and "stored_secret env n s1 = stored_secret env n s"
    and "\<And>q. map_of (ss_cache s1) q = (if q = n then None else map_of (ss_cache s) q)"
proof (cases "map_of (ss_cache s) n")
  case None
  then show ?thesis by (intro that [of s]) (simp_all add: secrets_get_def)
next
  case (Some p)
  obtain v t where "p = (v, t)" by fastforce
  with Some assms show ?thesis
    by (intro that [of "emit_secret_audit ''secret.lease_expired'' [(''name'', PStr n), (''caller'', PStr caller)]
        (s\<lparr>ss_cache := dpop n (ss_cache s)\<rparr>)"])
      (simp_all add: secrets_get_def live_lease_def split: if_splits)
qed

lemma secrets_get_value:
  "fst (secrets_get env now n dflt caller reason allow_env s) =
     (case live_lease now n s of Some v \<Rightarrow> v
      | None \<Rightarrow> (case stored_secret env n s of Some v \<Rightarrow> v | None \<Rightarrow> missing_secret env allow_env n dflt))"
proof (cases "live_lease now n s")
  case None
  then obtain s1 where "secrets_get env now n dflt caller reason allow_env s = secrets_fetch env now n dflt caller reason allow_env s1"
    "stored_secret env n s1 = stored_secret env n s" by (rule secrets_get_miss)
  with None show ?thesis by (simp add: secrets_fetch_value)
qed (simp add: secrets_get_hit)

lemma secrets_fetch_state:
  "ss_rows (snd (secrets_fetch env now n dflt caller reason allow_env s)) = ss_rows s"
  "ss_gcp (snd (secrets_fetch env now n dflt caller reason allow_env s)) = ss_gcp s"
  "ss_cache (snd (secrets_fetch env now n dflt caller reason allow_env s)) =
     (case stored_secret env n s of Some v \<Rightarrow> dset n (v, now + se_ttl env) (ss_cache s) | None \<Rightarrow> ss_cache s)"
  unfolding secrets_fetch_def stored_secret_def by (auto split: option.split)

lemma secrets_get_state:
  "ss_rows (snd (secrets_get env now n dflt caller reason allow_env s)) = ss_rows s"
  "ss_gcp (snd (secrets_get env now n dflt caller reason allow_env s)) = ss_gcp s"
  "map_of (ss_cache (snd (secrets_get env now n dflt caller reason allow_env s))) q =
     (if q = n \<and> live_lease now n s = None
      then (case stored_secret env n s of Some v \<Rightarrow> Some (v, now + se_ttl env) | None \<Rightarrow> None) else map_of (ss_cache s) q)"
proof -
  have "ss_rows (snd (secrets_get env now n dflt caller reason allow_env s)) = ss_rows s \<and>
    ss_gcp (snd (secrets_get env now n dflt caller reason allow_env s)) = ss_gcp s \<and>
    map_of (ss_cache (snd (secrets_get env now n dflt caller reason allow_env s))) q =
     (if q = n \<and> live_lease now n s = None
      then (case stored_secret env n s of Some v \<Rightarrow> Some (v, now + se_ttl env) | None \<Rightarrow> None) else map_of (ss_cache s) q)"
  proof (cases "live_lease now n s")
    case None
    then obtain s1 where "secrets_get env now n dflt caller reason allow_env s = secrets_fetch env now n dflt caller reason allow_env s1"
      "ss_rows s1 = ss_rows s" "ss_gcp s1 = ss_gcp s" "stored_secret env n s1 = stored_secret env n s"
      "\<And>q. map_of (ss_cache s1) q = (if q = n then None else map_of (ss_cache s) q)"
      by (rule secrets_get_miss [where env = env and dflt = dflt and caller = caller and reason = reason and allow_env = allow_env]) blast
    with None show ?thesis by (auto simp: secrets_fetch_state split: option.split)
  qed (simp add: secrets_get_hit)
  then show "ss_rows (snd (secrets_get env now n dflt caller reason allow_env s)) = ss_rows s"
    and "ss_gcp (snd (secrets_get env now n dflt caller reason allow_env s)) = ss_gcp s"
    and "map_of (ss_cache (snd (secrets_get env now n dflt caller reason allow_env s))) q =
     (if q = n \<and> live_lease now n s = None
      then (case stored_secret env n s of Some v \<Rightarrow> Some (v, now + se_ttl env) | None \<Rightarrow> None) else map_of (ss_cache s) q)"
    by blast+
qed

text \<open>Reading a name does not change what any name reads, whatever the time to live.\<close>

lemma secret_value_eq:
  "secret_value env now allow_env n s = (case live_lease now n s of Some v \<Rightarrow> v
     | None \<Rightarrow> (case stored_secret env n s of Some v \<Rightarrow> v | None \<Rightarrow> missing_secret env allow_env n []))"
  unfolding secret_value_def by (rule secrets_get_value)

lemma secrets_get_secret_value: "fst (secrets_get env now n [] caller reason allow_env s) = secret_value env now allow_env n s"
  by (simp only: secret_value_eq secrets_get_value)

lemma stored_secret_same: "ss_rows s' = ss_rows s \<Longrightarrow> ss_gcp s' = ss_gcp s \<Longrightarrow> stored_secret env n s' = stored_secret env n s"
  by (auto simp: stored_secret_def backend_get_def split: option.split)

lemma reading_stored: "stored_secret env q (snd (secrets_get env now n dflt caller reason allow_env s)) = stored_secret env q s"
  by (intro stored_secret_same secrets_get_state)

lemma reading_changes_no_value:
  "secret_value env now allow_env q (snd (secrets_get env now n dflt caller reason a s)) = secret_value env now allow_env q s"
proof (cases "q = n \<and> live_lease now n s = None")
  case True
  then have "live_lease now q (snd (secrets_get env now n dflt caller reason a s)) =
      (case stored_secret env n s of Some v \<Rightarrow> if 0 < se_ttl env then Some v else None | None \<Rightarrow> None)"
    by (simp add: live_lease_def [of _ _ "snd _"] secrets_get_state(3) split: option.split)
  with True show ?thesis by (simp add: secret_value_eq reading_stored split: option.split)
next
  case False
  then have "map_of (ss_cache (snd (secrets_get env now n dflt caller reason a s))) q = map_of (ss_cache s) q"
    unfolding secrets_get_state(3) by (rule if_not_P)
  then have "live_lease now q (snd (secrets_get env now n dflt caller reason a s)) = live_lease now q s"
    by (simp add: live_lease_def)
  then show ?thesis by (simp only: secret_value_eq reading_stored)
qed

subsection \<open>Resolution against its specification\<close>

definition scope_applies :: "string option \<Rightarrow> string \<Rightarrow> string list option \<Rightarrow> string \<Rightarrow> bool" where
  "scope_applies ns user allowed sc \<longleftrightarrow> scope_allowed allowed sc \<and> (sc = ''namespace'' \<longrightarrow> ns \<noteq> None \<and> ns \<noteq> Some []) \<and>
     (sc = ''user'' \<longrightarrow> user \<noteq> [])"

definition known_scope :: "string \<Rightarrow> bool" where
  "known_scope sc \<longleftrightarrow> canonical_scope sc \<in> set secret_scopes"

definition tier_name :: "string option \<Rightarrow> string \<Rightarrow> string \<Rightarrow> string \<Rightarrow> string" where
  "tier_name ns user sc k =
     (if canonical_scope sc = ''tenant'' then ''forgeos-tenant-'' @ strip k
      else if canonical_scope sc = ''namespace'' then ''forgeos-ns-'' @ or_default ns @ ''-'' @ strip k
      else ''forgeos-user-'' @ or_default (Some user) @ ''-'' @ strip k)"

lemma scoped_known: "known_scope sc \<Longrightarrow> scoped_secret_name k sc ns (Some user) = Inr (tier_name ns user sc k)"
  by (auto simp: known_scope_def scoped_secret_name_def tier_name_def secret_scopes_def Let_def)

text \<open>
  What a reference means: a pinned one is the secret of that tier if the tier is allowed; a bare one is
  the first non-empty secret of the allowed tiers, in order, and then the one stored under the
  reference itself or in the environment.
\<close>

definition first_hit :: "string list \<Rightarrow> string option" where
  "first_hit vs = find (\<lambda>v. v \<noteq> []) vs"

definition resolve_spec :: "(bool \<Rightarrow> string \<Rightarrow> string) \<Rightarrow> string \<Rightarrow> string option \<Rightarrow> string \<Rightarrow> string list \<Rightarrow> string list option \<Rightarrow> string option" where
  "resolve_spec value r ns user order allowed =
     (if strip r = [] then None
      else case find (\<lambda>(p, sc). starts_with p (strip r)) secret_pins of
        Some (p, sc) \<Rightarrow> if scope_allowed allowed sc then first_hit [value False (tier_name ns user sc (drop (length p) (strip r)))] else None
      | None \<Rightarrow> first_hit (map (\<lambda>sc. value False (tier_name ns user sc (strip r))) (filter (scope_applies ns user allowed) order) @
          [value True (strip r)]))"

lemma or_absent_value: "fst (or_absent (secrets_get env now n [] caller reason a s)) = Inr (first_hit [secret_value env now a n s])"
  by (cases "secrets_get env now n [] caller reason a s")
    (use secrets_get_secret_value [of env now n caller reason a s] in \<open>auto simp: or_absent_def first_hit_def\<close>)

lemma or_absent_state: "snd (or_absent p) = snd p"
  by (simp add: or_absent_def split_beta)

lemma walk_scopes_spec:
  assumes "list_all known_scope order"
  shows "fst (walk_scopes env now ref ns user allowed caller order s) =
      Inr (first_hit (map (\<lambda>sc. secret_value env now False (tier_name ns user sc ref) s) (filter (scope_applies ns user allowed) order) @
        [secret_value env now True ref s]))"
  using assms
proof (induction order arbitrary: s)
  case Nil
  then show ?case by (simp add: or_absent_value)
next
  case (Cons sc order)
  show ?case
  proof (cases "scope_applies ns user allowed sc")
    case False
    with Cons show ?thesis by (auto simp: scope_applies_def)
  next
    case True
    from Cons.prems have known: "known_scope sc" by simp
    obtain v s1 where g: "secrets_get env now (tier_name ns user sc ref) [] caller (''credentials.resolve.'' @ sc) False s = (v, s1)"
      by fastforce
    with secrets_get_secret_value have v: "v = secret_value env now False (tier_name ns user sc ref) s" by (metis fst_conv)
    have same: "secret_value env now a q s1 = secret_value env now a q s" for a q
      using reading_changes_no_value [of env now a q "tier_name ns user sc ref" "[]" caller "''credentials.resolve.'' @ sc" False s] g by simp
    have "walk_scopes env now ref ns user allowed caller (sc # order) s =
        (if v \<noteq> [] then (Inr (Some v), s1) else walk_scopes env now ref ns user allowed caller order s1)"
      unfolding walk_scopes.simps scoped_known [OF known] sum.case g prod.case using True by (auto simp: scope_applies_def)
    with True Cons.IH [of s1] Cons.prems show ?thesis by (simp add: v [symmetric] same first_hit_def)
  qed
qed

lemma pins_known: "(p, sc) \<in> set secret_pins \<Longrightarrow> known_scope sc"
  by (auto simp: secret_pins_def known_scope_def canonical_scope_def secret_scopes_def)

text \<open>
  Resolving a reference returns what the specification says, on every state of the cache and the
  stores: reads along the way disturb nothing.
\<close>

theorem resolution_is_first_hit:
  assumes "list_all known_scope order"
  shows "fst (cred_resolve env now r ns user order allowed caller s) =
    Inr (resolve_spec (\<lambda>allow_env n. secret_value env now allow_env n s) r ns user order allowed)"
proof (cases "find (\<lambda>(p, sc). starts_with p (strip r)) secret_pins")
  case None
  then show ?thesis
    using walk_scopes_spec [OF assms, of env now "strip r" ns user allowed caller s]
    by (simp add: cred_resolve_def resolve_spec_def Let_def)
next
  case (Some q)
  obtain p sc where q: "q = (p, sc)" by fastforce
  with Some have "known_scope sc" using pins_known find_Some_iff [of _ secret_pins] by (metis nth_mem)
  with Some q show ?thesis
    by (auto simp: cred_resolve_def resolve_spec_def Let_def scoped_known or_absent_value)
qed

subsection \<open>What an agent may learn\<close>

lemma strip_idem [simp]: "strip (strip s) = strip s"
proof -
  define x where "x = dropWhile is_space s"
  have "rstrip is_space x = take (length x - length (takeWhile is_space (rev x))) x"
    by (simp add: rstrip_def dropWhile_eq_drop rev_drop)
  moreover have "x = [] \<or> \<not> is_space (hd x)" unfolding x_def using hd_dropWhile [of is_space s] by blast
  ultimately have "dropWhile is_space (rstrip is_space x) = rstrip is_space x"
    by (cases x) (auto simp: take_Cons split: nat.splits)
  then show ?thesis by (simp add: strip_def x_def [symmetric]) (simp add: rstrip_def)
qed

definition same_secret :: "'g secret_env \<Rightarrow> time \<Rightarrow> string \<Rightarrow> 'g secrets \<Rightarrow> 'g secrets \<Rightarrow> bool" where
  "same_secret env now n s s' \<longleftrightarrow> live_lease now n s = live_lease now n s' \<and> stored_secret env n s = stored_secret env n s'"

lemma same_secret_value: "same_secret env now n s s' \<Longrightarrow> secret_value env now a n s = secret_value env now a n s'"
  by (simp only: same_secret_def secret_value_eq)

text \<open>
  The tiers are the authorization boundary, up to the literal reference: what an agent of namespace
  \<open>N\<close> that may read the tiers namespace and tenant obtains from a reference depends only on the secrets
  stored for the tenant, those stored for \<open>N\<close>, and the one stored under the very reference.  Two states
  that agree on those give the same value, whatever else differs.
\<close>

theorem shared_agents_read_their_tiers:
  assumes "list_all known_scope order" and "N \<noteq> []"
    and "\<And>k. same_secret env now (''forgeos-tenant-'' @ k) s s'"
    and "\<And>k. same_secret env now (''forgeos-ns-'' @ N @ ''-'' @ k) s s'"
    and "same_secret env now (strip r) s s'"
  shows "fst (cred_resolve env now r (Some N) user order (Some [''namespace'', ''tenant'']) caller s) =
    fst (cred_resolve env now r (Some N) user order (Some [''namespace'', ''tenant'']) caller s')"
proof -
  have tier: "same_secret env now (tier_name (Some N) user sc k) s s'"
    if "scope_allowed (Some [''namespace'', ''tenant'']) sc" for sc k
    using that assms(2-4) by (auto simp: scope_allowed_def tier_name_def canonical_scope_def or_default_def)
  have eq: "secret_value env now False (tier_name (Some N) user sc k) s = secret_value env now False (tier_name (Some N) user sc k) s'"
    if "scope_allowed (Some [''namespace'', ''tenant'']) sc" for sc k
    using same_secret_value [OF tier [OF that]] .
  have "resolve_spec (\<lambda>a n. secret_value env now a n s) r (Some N) user order (Some [''namespace'', ''tenant'']) =
      resolve_spec (\<lambda>a n. secret_value env now a n s') r (Some N) user order (Some [''namespace'', ''tenant''])"
  proof (cases "find (\<lambda>(p, sc). starts_with p (strip r)) secret_pins")
    case None
    have "map (\<lambda>sc. secret_value env now False (tier_name (Some N) user sc (strip r)) s)
          (filter (scope_applies (Some N) user (Some [''namespace'', ''tenant''])) order) =
        map (\<lambda>sc. secret_value env now False (tier_name (Some N) user sc (strip r)) s')
          (filter (scope_applies (Some N) user (Some [''namespace'', ''tenant''])) order)"
      by (auto simp: scope_applies_def intro!: eq)
    then show ?thesis unfolding resolve_spec_def None option.case same_secret_value [OF assms(5), of True] by (simp only:)
  next
    case (Some q)
    then show ?thesis by (cases q) (auto simp: resolve_spec_def eq)
  qed
  then show ?thesis by (simp add: resolution_is_first_hit [OF assms(1)])
qed

lemma secrets_put_effect:
  assumes "secrets_put env n v caller reason user kind scope ns s = (True, s1)"
    and "se_wired env" and "se_available env" and "se_decrypt env (se_encrypt env v) = Some v"
  shows "stored_secret env n s1 = Some v" and "live_lease now n s1 = None"
    and "q \<noteq> n \<Longrightarrow> stored_secret env q s1 = stored_secret env q s"
    and "q \<noteq> n \<Longrightarrow> live_lease now q s1 = live_lease now q s"
  using assms by (auto simp: secrets_put_def backend_put_def written_def stored_secret_def backend_get_def live_lease_def
      emit_secret_audit_def split: option.split)

lemma put_scoped_secret_effect:
  assumes "put_scoped_secret env n v scope ns user kind caller s = (Inr True, s1)"
    and "se_wired env" and "se_available env" and "se_decrypt env (se_encrypt env (strip v)) = Some (strip v)"
  shows "secret_value env now a (tier_name ns user scope n) s1 = strip v" and "secret_name_re (strip n)" and "strip v \<noteq> []"
    and "known_scope scope" and "q \<noteq> tier_name ns user scope n \<Longrightarrow> secret_value env now a q s1 = secret_value env now a q s"
proof -
  let ?sc = "canonical_scope scope"
  from assms(1) show known: "known_scope scope" and re: "secret_name_re (strip n)" and v: "strip v \<noteq> []"
    by (auto simp: put_scoped_secret_def Let_def known_scope_def validate_secret_name_def rbind_def split: if_splits)
  have canon: "canonical_scope ?sc = ?sc" by (simp add: canonical_scope_def)
  have "scoped_secret_name (strip n) ?sc ns (Some user) = Inr (tier_name ns user scope n)"
    using known scoped_known [of ?sc "strip n" ns user] canon by (simp add: known_scope_def tier_name_def)
  with assms(1) known re v obtain r where
    "secrets_put env (tier_name ns user scope n) (strip v) caller r user kind ?sc (if ?sc = ''namespace'' then ns else None) s = (True, s1)"
    by (auto simp: put_scoped_secret_def Let_def known_scope_def validate_secret_name_def apfst_def map_prod_def
        split: if_splits prod.splits)
  note put = secrets_put_effect [OF this assms(2-4)]
  show "secret_value env now a (tier_name ns user scope n) s1 = strip v" by (simp add: secret_value_eq put)
  show "secret_value env now a q s1 = secret_value env now a q s"
    if "q \<noteq> tier_name ns user scope n"
    unfolding secret_value_eq put(3) [OF that] put(4) [OF that] ..
qed

subsection \<open>What goes in comes out, and where else\<close>

definition pin_of :: "string \<Rightarrow> string" where
  "pin_of scope = (if canonical_scope scope = ''tenant'' then ''tenant/'' else if canonical_scope scope = ''namespace'' then ''ns/'' else ''user/'')"

lemma name_char_not_space: "name_char c \<Longrightarrow> \<not> is_space c"
  by (auto simp: name_char_def is_space_def Let_def)

lemma secret_name_no_space: "secret_name_re n \<Longrightarrow> list_all (\<lambda>c. \<not> is_space c) n"
  by (cases n) (auto simp: secret_name_re_def list_all_iff dest: name_char_not_space)

lemma strip_no_space: "list_all (\<lambda>c. \<not> is_space c) s \<Longrightarrow> strip s = s"
proof -
  assume a: "list_all (\<lambda>c. \<not> is_space c) s"
  have "dropWhile is_space t = t" if "list_all (\<lambda>c. \<not> is_space c) t" for t
    using that by (cases t) auto
  from this [OF a] this [of "rev s"] a show ?thesis by (simp add: strip_def rstrip_def list_all_rev)
qed

lemma strip_snoc_no_space: "s \<noteq> [] \<Longrightarrow> \<not> is_space (hd s) \<Longrightarrow> \<not> is_space (last s) \<Longrightarrow> strip s = s"
  unfolding strip_def rstrip_def
  by (subst dropWhile_eq_self_iff [THEN iffD2], simp)+ (simp_all add: hd_rev)

lemma strip_prefixed:
  assumes "p \<noteq> []" "\<not> is_space (hd p)" "secret_name_re n"
  shows "strip (p @ n) = p @ n"
proof -
  from assms(3) have "n \<noteq> []" by (cases n) (simp_all add: secret_name_re_def)
  with secret_name_no_space [OF assms(3)] have "\<not> is_space (last n)" by (simp add: list_all_iff)
  with assms \<open>n \<noteq> []\<close> show ?thesis by (intro strip_snoc_no_space) simp_all
qed

lemma first_hit_one [simp]: "v \<noteq> [] \<Longrightarrow> first_hit (v # vs) = Some v" "first_hit ([] # vs) = first_hit vs"
  by (simp_all add: first_hit_def)

lemma pinned_spec:
  assumes "secret_name_re (strip n)" and "list_all known_scope order" and "known_scope scope"
  shows "fst (cred_resolve env now (pin_of scope @ strip n) ns user order None caller s) =
    Inr (first_hit [secret_value env now False (tier_name ns user scope n) s])"
proof -
  have "strip (pin_of scope @ strip n) = pin_of scope @ strip n"
    using assms(1) by (intro strip_prefixed) (auto simp: pin_of_def is_space_def)
  moreover have "tier_name ns user (canonical_scope scope) (strip n) = tier_name ns user scope n"
    by (simp add: tier_name_def canonical_scope_def)
  ultimately show ?thesis
    using assms(3) unfolding resolution_is_first_hit [OF assms(2)]
    by (auto simp: resolve_spec_def pin_of_def known_scope_def secret_scopes_def secret_pins_def starts_with_def
        scope_allowed_def tier_name_def canonical_scope_def)
qed

text \<open>
  A secret stored at a tier is what a pinned reference to that tier resolves to, trimmed, right away,
  whatever the cache held for it: in the namespace and for the user it was stored for, on a store
  whose encryption round-trips that value.  No other secret changes.
\<close>

theorem stored_secrets_resolve:
  assumes "put_scoped_secret env n v scope ns user kind caller s = (Inr True, s1)"
    and "se_wired env" and "se_available env" and "se_decrypt env (se_encrypt env (strip v)) = Some (strip v)"
    and "list_all known_scope order"
  shows "fst (cred_resolve env now (pin_of scope @ strip n) ns user order None reader s1) = Inr (Some (strip v)) \<and>
    (\<forall>a q. q = tier_name ns user scope n \<or> secret_value env now a q s1 = secret_value env now a q s)"
proof -
  note put = put_scoped_secret_effect [OF assms(1-4)]
  from pinned_spec [OF put(2) assms(5) put(4), of env now ns user reader s1] put(1) [of now False] put(3)
  have "fst (cred_resolve env now (pin_of scope @ strip n) ns user order None reader s1) = Inr (Some (strip v))" by simp
  with put(5) show ?thesis by blast
qed

text \<open>The key under which a user's secret is stored.\<close>

definition stored_key :: "string \<Rightarrow> string \<Rightarrow> string" where
  "stored_key u n = ''forgeos-user-'' @ u @ ''-'' @ strip n"

lemma stored_key_shape:
  assumes "secret_name_re (strip n)"
  shows "strip (stored_key u n) = stored_key u n" "stored_key u n \<noteq> []"
    "find (\<lambda>(p, sc). starts_with p (stored_key u n)) secret_pins = None"
proof -
  have "stored_key u n = (''forgeos-user-'' @ u @ ''-'') @ strip n" by (simp add: stored_key_def)
  with assms show "strip (stored_key u n) = stored_key u n"
    using strip_prefixed [of "''forgeos-user-'' @ u @ ''-''" "strip n"] by (simp add: is_space_def)
qed (simp_all add: stored_key_def secret_pins_def starts_with_def)

text \<open>
  The literal fallback passes the boundary: a secret stored for user \<open>u\<close> alone is handed to the MCP server
  of any connection that is not a user's, in any namespace, if its environment names the stored key
  \<open>forgeos-user-u-n\<close> as a bare reference (and neither tier has a secret of that very name).
\<close>

theorem user_secrets_leak_to_shared_agents:
  assumes "put_scoped_secret env n v ''user'' None u kind caller s = (Inr True, s1)" and "u \<noteq> []"
    and "se_wired env" and "se_available env" and "se_decrypt env (se_encrypt env (strip v)) = Some (strip v)"
    and "\<not> starts_with ''user:'' client" and "N \<noteq> []"
    and "secret_value env now False (''forgeos-ns-'' @ N @ ''-'' @ stored_key u n) s = []"
    and "secret_value env now False (''forgeos-tenant-'' @ stored_key u n) s = []"
  shows "\<exists>vars. fst (resolve_env env now True N client server [(''TOKEN'', PStr (''secret:'' @ stored_key u n))] s1) = Inr vars \<and>
    map_of vars ''TOKEN'' = Some (PStr (strip v))"
proof -
  note put = put_scoped_secret_effect [OF assms(1,3-5)]
  note shape = stored_key_shape [OF put(2), of u]
  have key: "tier_name None u ''user'' n = stored_key u n"
    using assms(2) by (simp add: tier_name_def canonical_scope_def stored_key_def or_default_def)
  have others: "secret_value env now False q s1 = secret_value env now False q s" if "q \<noteq> stored_key u n" for q
    using put(5) that by (simp add: key)
  have "''forgeos-ns-'' @ N @ ''-'' @ stored_key u n \<noteq> stored_key u n" "''forgeos-tenant-'' @ stored_key u n \<noteq> stored_key u n"
    by (simp_all add: stored_key_def)
  then have tiers: "secret_value env now False (''forgeos-ns-'' @ N @ ''-'' @ stored_key u n) s1 = []"
    "secret_value env now False (''forgeos-tenant-'' @ stored_key u n) s1 = []"
    using others assms(8,9) by simp_all
  let ?o = "[''namespace'', ''tenant'']"
  have "list_all known_scope ?o" by (simp add: known_scope_def canonical_scope_def secret_scopes_def)
  note spec = resolution_is_first_hit [OF this]
  have names: "tier_name (Some N) default_user_id ''namespace'' (stored_key u n) = ''forgeos-ns-'' @ N @ ''-'' @ stored_key u n"
    "tier_name (Some N) default_user_id ''tenant'' (stored_key u n) = ''forgeos-tenant-'' @ stored_key u n"
    using assms(7) shape(1) by (simp_all add: tier_name_def canonical_scope_def or_default_def)
  note tiers = tiers [folded names]
  have r: "fst (cred_resolve env now (stored_key u n) (Some N) default_user_id ?o (Some ?o) c s1) = Inr (Some (strip v))" for c
    unfolding spec resolve_spec_def shape option.case
    using shape(2) assms(7) put(1) [of now True] put(3)
    by (simp add: scope_applies_def scope_allowed_def tiers key)
  obtain s2 where "cred_resolve env now (stored_key u n) (Some N) default_user_id ?o (Some ?o) (''client_mcp_'' @ client @ ''_'' @ server) s1 =
      (Inr (Some (strip v)), s2)" using r by (metis prod.collapse)
  then show ?thesis
    using assms(6) by (simp add: resolve_env_def pin_secret_def starts_with_def [of "''secret:''"] connection_scopes_def)
qed

text \<open>
  Hyphens in namespaces are ambiguous: a secret \<open>b-n\<close> stored in namespace \<open>a\<close> is what namespace \<open>a-b\<close> reads
  as its own secret \<open>n\<close>.
\<close>

theorem hyphenated_namespaces_share_secrets:
  assumes "put_scoped_secret env (b @ ''-'' @ n) v ''namespace'' (Some a) u kind caller s = (Inr True, s1)"
    and "se_wired env" and "se_available env" and "se_decrypt env (se_encrypt env (strip v)) = Some (strip v)"
    and "secret_name_re b" and "secret_name_re n"
  shows "fst (cred_resolve env now (''ns/'' @ n) (Some (a @ ''-'' @ b)) user default_order None reader s1) = Inr (Some (strip v))"
proof -
  note put = put_scoped_secret_effect [OF assms(1-4)]
  have a: "a \<noteq> []" using assms(1) by (auto simp: put_scoped_secret_def Let_def canonical_scope_def split: if_splits)
  have n: "strip n = n" using strip_no_space secret_name_no_space assms(6) by blast
  have bn: "strip (b @ ''-'' @ n) = b @ ''-'' @ n"
  proof (rule strip_no_space)
    have "\<not> is_space CHR ''-''" by (simp add: is_space_def)
    then show "list_all (\<lambda>c. \<not> is_space c) (b @ ''-'' @ n)"
      using secret_name_no_space [OF assms(5)] secret_name_no_space [OF assms(6)] by simp
  qed
  have names: "tier_name (Some (a @ ''-'' @ b)) user ''namespace'' n = tier_name (Some a) u ''namespace'' (b @ ''-'' @ n)"
    unfolding tier_name_def bn n using a by (simp add: canonical_scope_def or_default_def)
  have order: "list_all known_scope default_order"
    by (simp add: default_order_def known_scope_def canonical_scope_def secret_scopes_def)
  have "fst (cred_resolve env now (pin_of ''namespace'' @ strip n) (Some (a @ ''-'' @ b)) user default_order None reader s1) =
      Inr (first_hit [secret_value env now False (tier_name (Some (a @ ''-'' @ b)) user ''namespace'' n) s1])"
    using assms(6) n by (intro pinned_spec order) (simp_all add: known_scope_def canonical_scope_def secret_scopes_def)
  moreover have "secret_value env now False (tier_name (Some (a @ ''-'' @ b)) user ''namespace'' n) s1 = strip v"
    unfolding names by (rule put(1))
  ultimately show ?thesis using put(3) by (simp add: n pin_of_def canonical_scope_def)
qed

subsection \<open>Revocation\<close>

text \<open>
  What happens to the manager of one process: its own reads, writes, deletions and invalidations at
  given times, and changes of the stores by other processes.
\<close>

datatype 'g secret_op = SGet time string bool | SPut time string string string string "string option" | SDelete time string
  | SInvalidate time string | SOther time "(string, secret_row) dict" 'g

fun op_time :: "'g secret_op \<Rightarrow> time" where
  "op_time (SGet t n a) = t" | "op_time (SPut t n v u sc ns) = t" | "op_time (SDelete t n) = t"
| "op_time (SInvalidate t n) = t" | "op_time (SOther t rs g) = t"

fun secret_step :: "'g secret_env \<Rightarrow> 'g secret_op \<Rightarrow> 'g secrets \<Rightarrow> 'g secrets" where
  "secret_step env (SGet t n a) s = snd (secrets_get env t n [] [] [] a s)"
| "secret_step env (SPut t n v u sc ns) s = snd (secrets_put env n v [] [] u ''generic'' sc ns s)"
| "secret_step env (SDelete t n) s = snd (secrets_delete env n [] [] s)"
| "secret_step env (SInvalidate t n) s = snd (invalidate n s)"
| "secret_step env (SOther t rs g) s = s\<lparr>ss_rows := rs, ss_gcp := g\<rparr>"

definition new_manager :: "(string, secret_row) dict \<Rightarrow> 'g \<Rightarrow> 'g secrets" where
  "new_manager rs g = \<lparr>ss_cache = [], ss_rows = rs, ss_gcp = g, ss_audit = []\<rparr>"

text \<open>Every lease ends within one time to live of the present.\<close>

definition leases_end :: "int \<Rightarrow> 'g secrets \<Rightarrow> bool" where
  "leases_end deadline s \<longleftrightarrow> (\<forall>n v t. map_of (ss_cache s) n = Some (v, t) \<longrightarrow> t \<le> deadline)"

lemma leases_end_get: "leases_end d s \<Longrightarrow> now + se_ttl env \<le> d \<Longrightarrow> leases_end d (snd (secrets_get env now n dflt caller reason a s))"
  by (auto simp: leases_end_def secrets_get_state split: if_splits option.splits)

lemma leases_end_step: "leases_end d s \<Longrightarrow> op_time x + se_ttl env \<le> d \<Longrightarrow> leases_end d (secret_step env x s)"
proof (cases x)
  case (SGet t n a)
  then show "leases_end d s \<Longrightarrow> op_time x + se_ttl env \<le> d \<Longrightarrow> leases_end d (secret_step env x s)" by (simp add: leases_end_get)
next
  case (SPut t n v u sc ns)
  then show "leases_end d s \<Longrightarrow> op_time x + se_ttl env \<le> d \<Longrightarrow> leases_end d (secret_step env x s)"
    by (auto simp: leases_end_def secrets_put_def backend_put_def written_def split: prod.splits if_splits)
next
  case (SDelete t n)
  then show "leases_end d s \<Longrightarrow> op_time x + se_ttl env \<le> d \<Longrightarrow> leases_end d (secret_step env x s)"
    by (auto simp: leases_end_def secrets_delete_def backend_delete_def split: prod.splits if_splits)
next
  case (SInvalidate t n)
  then show "leases_end d s \<Longrightarrow> op_time x + se_ttl env \<le> d \<Longrightarrow> leases_end d (secret_step env x s)"
    by (auto simp: leases_end_def invalidate_def split: option.splits if_splits)
next
  case (SOther t rs g)
  then show "leases_end d s \<Longrightarrow> op_time x + se_ttl env \<le> d \<Longrightarrow> leases_end d (secret_step env x s)"
    by (simp add: leases_end_def)
qed

lemma leases_end_run:
  "leases_end d s \<Longrightarrow> list_all (\<lambda>x. op_time x + se_ttl env \<le> d) ops \<Longrightarrow> leases_end d (fold (secret_step env) ops s)"
  by (induction ops arbitrary: s) (simp_all add: leases_end_step)

text \<open>After the change: a lease is either an old one or holds what the stores hold.\<close>

definition old_or_current :: "'g secret_env \<Rightarrow> int \<Rightarrow> 'g secrets \<Rightarrow> bool" where
  "old_or_current env deadline s \<longleftrightarrow>
     (\<forall>n v t. map_of (ss_cache s) n = Some (v, t) \<longrightarrow> t \<le> deadline \<or> stored_secret env n s = Some v)"

definition is_read :: "'g secret_op \<Rightarrow> bool" where
  "is_read x = (case x of SGet _ _ _ \<Rightarrow> True | SInvalidate _ _ \<Rightarrow> True | _ \<Rightarrow> False)"

lemma read_step_stores: "is_read x \<Longrightarrow> stored_secret env q (secret_step env x s) = stored_secret env q s"
  by (cases x) (auto simp: is_read_def reading_stored invalidate_def split: option.split)

lemma read_step_current: "old_or_current env d s \<Longrightarrow> is_read x \<Longrightarrow> old_or_current env d (secret_step env x s)"
proof (cases x)
  case (SGet t n a)
  then show "old_or_current env d s \<Longrightarrow> is_read x \<Longrightarrow> old_or_current env d (secret_step env x s)"
    by (auto simp: old_or_current_def reading_stored secrets_get_state split: if_splits option.splits)
next
  case (SInvalidate t n)
  then show "old_or_current env d s \<Longrightarrow> is_read x \<Longrightarrow> old_or_current env d (secret_step env x s)"
    by (auto simp: old_or_current_def invalidate_def split: option.splits if_splits)
qed (simp_all add: is_read_def)

lemma read_run_current:
  "old_or_current env d s \<Longrightarrow> list_all is_read ops \<Longrightarrow>
    old_or_current env d (fold (secret_step env) ops s) \<and>
    (\<forall>q. stored_secret env q (fold (secret_step env) ops s) = stored_secret env q s)"
  by (induction ops arbitrary: s) (simp_all add: read_step_current read_step_stores)

text \<open>
  Revocation reaches a process that cached the secret within one time to live: whatever the process did
  before \<open>t0\<close>, when another process changes the stores at \<open>t0\<close> and nobody writes after that, every read
  at \<open>t0\<close> plus the time to live or later returns what the stores then hold, and the fallback if they hold
  nothing.
\<close>

theorem revocation_reaches_cached_readers:
  assumes "list_all (\<lambda>x. op_time x \<le> t0) before" and "list_all is_read after" and "t0 + se_ttl env \<le> now"
    and "fold (secret_step env) (before @ SOther t0 rs' g' # after) (new_manager rs g) = s"
  shows "fst (secrets_get env now n dflt caller reason allow_env s) =
    (case stored_secret env n (new_manager rs' g') of Some v \<Rightarrow> v | None \<Rightarrow> missing_secret env allow_env n dflt)"
proof -
  let ?b = "fold (secret_step env) before (new_manager rs g)" and ?d = "t0 + se_ttl env"
  let ?c = "secret_step env (SOther t0 rs' g') ?b"
  from assms(1) have "list_all (\<lambda>x. op_time x + se_ttl env \<le> ?d) before" by (simp add: list_all_iff)
  then have "leases_end ?d ?b" by (intro leases_end_run) (simp add: leases_end_def new_manager_def)
  then have "old_or_current env ?d ?c" by (simp add: leases_end_def old_or_current_def)
  from read_run_current [OF this assms(2)] assms(4)
  have cur: "old_or_current env ?d s" and st: "stored_secret env q s = stored_secret env q ?c" for q by auto
  have new: "stored_secret env n ?c = stored_secret env n (new_manager rs' g')"
    by (rule stored_secret_same) (simp_all add: new_manager_def)
  have hit: "stored_secret env n s = Some v" if "live_lease now n s = Some v" for v
  proof -
    from that obtain t where t: "map_of (ss_cache s) n = Some (v, t)" "now < t"
      by (auto simp: live_lease_def split: option.splits if_splits)
    with cur have "t \<le> ?d \<or> stored_secret env n s = Some v" by (simp add: old_or_current_def)
    with t(2) assms(3) show ?thesis by linarith
  qed
  have "fst (secrets_get env now n dflt caller reason allow_env s) =
      (case stored_secret env n s of Some v \<Rightarrow> v | None \<Rightarrow> missing_secret env allow_env n dflt)"
  proof (cases "live_lease now n s")
    case None
    show ?thesis unfolding secrets_get_value None option.case ..
  next
    case (Some v)
    show ?thesis unfolding secrets_get_value Some hit [OF Some] option.case ..
  qed
  then show ?thesis unfolding st [of n] new .
qed

subsection \<open>Instances\<close>

definition demo_secret_env :: "unit secret_env" where
  "demo_secret_env = \<lparr>se_wired = True, se_available = True, se_encrypt = rev, se_decrypt = (\<lambda>c. Some (rev c)), se_client = False,
     se_gcp_get = (\<lambda>_ _. None), se_gcp_put = (\<lambda>_ _ g. (False, g)), se_gcp_delete = (\<lambda>_ g. (False, g)), se_gcp_list = (\<lambda>_. []),
     se_environ = [], se_ttl = 300\<rparr>"

definition demo_vault :: "unit secrets" where
  "demo_vault = new_manager [] ()"

definition alice_vault :: "unit secrets" where
  "alice_vault = snd (put_scoped_secret demo_secret_env ''gh'' ''tok '' ''user'' None ''alice'' ''github'' [] demo_vault)"

lemma demo_secret_env_simps [simp]:
  "se_wired demo_secret_env" "se_available demo_secret_env" "\<not> se_client demo_secret_env" "se_environ demo_secret_env = []"
  "se_decrypt demo_secret_env (se_encrypt demo_secret_env v) = Some v"
  by (simp_all add: demo_secret_env_def)

lemma alice_put:
  "put_scoped_secret demo_secret_env ''gh'' ''tok '' ''user'' None ''alice'' ''github'' [] demo_vault = (Inr True, alice_vault)"
proof -
  have "fst (put_scoped_secret demo_secret_env ''gh'' ''tok '' ''user'' None ''alice'' ''github'' [] demo_vault) = Inr True"
    by code_simp
  then show ?thesis by (simp add: alice_vault_def prod_eq_iff)
qed

lemma demo_vault_empty [simp]: "secret_value demo_secret_env now False n demo_vault = []"
  by (simp add: secret_value_eq demo_vault_def new_manager_def live_lease_def stored_secret_def backend_get_def missing_secret_def)

lemma demo_order: "list_all known_scope default_order"
  by (simp add: default_order_def known_scope_def canonical_scope_def secret_scopes_def)

lemma resolution_is_first_hit_witness:
  "fst (cred_resolve demo_secret_env 5 '' gh'' (Some ''sales'') ''alice'' default_order None [] alice_vault) =
     Inr (resolve_spec (\<lambda>a n. secret_value demo_secret_env 5 a n alice_vault) '' gh'' (Some ''sales'') ''alice'' default_order None) \<and>
   fst (cred_resolve demo_secret_env 5 '' gh'' (Some ''sales'') ''alice'' default_order None [] alice_vault) = Inr (Some ''tok'')"
proof -
  have "fst (cred_resolve demo_secret_env 5 '' gh'' (Some ''sales'') ''alice'' default_order None [] alice_vault) = Inr (Some ''tok'')"
    by code_simp
  then show ?thesis
    using resolution_is_first_hit [OF demo_order, of demo_secret_env 5 "'' gh''" "Some ''sales''" "''alice''" None "[]" alice_vault] by blast
qed

lemma shared_agents_read_their_tiers_witness:
  "fst (cred_resolve demo_secret_env 5 ''gh'' (Some ''sales'') ''alice'' default_order (Some [''namespace'', ''tenant'']) [] demo_vault) =
     fst (cred_resolve demo_secret_env 5 ''gh'' (Some ''sales'') ''alice'' default_order (Some [''namespace'', ''tenant'']) [] alice_vault) \<and>
   secret_value demo_secret_env 5 False ''forgeos-user-alice-gh'' alice_vault = ''tok''"
proof -
  obtain r where put: "secrets_put demo_secret_env ''forgeos-user-alice-gh'' ''tok'' [] r ''alice'' ''github'' ''user'' None demo_vault =
      (True, alice_vault)"
  proof
    have "fst (secrets_put demo_secret_env ''forgeos-user-alice-gh'' ''tok'' [] ''credentials.put.user.github'' ''alice'' ''github'' ''user'' None demo_vault)"
      and "snd (secrets_put demo_secret_env ''forgeos-user-alice-gh'' ''tok'' [] ''credentials.put.user.github'' ''alice'' ''github'' ''user'' None demo_vault) =
        alice_vault"
      by code_simp+
    then show "secrets_put demo_secret_env ''forgeos-user-alice-gh'' ''tok'' [] ''credentials.put.user.github'' ''alice'' ''github'' ''user'' None demo_vault =
        (True, alice_vault)" by (simp add: prod_eq_iff)
  qed
  have same: "same_secret demo_secret_env 5 q demo_vault alice_vault" if "q \<noteq> ''forgeos-user-alice-gh''" for q
    using secrets_put_effect(3,4) [OF put, of q] that by (simp add: same_secret_def)
  have "fst (cred_resolve demo_secret_env 5 ''gh'' (Some ''sales'') ''alice'' default_order (Some [''namespace'', ''tenant'']) [] demo_vault) =
     fst (cred_resolve demo_secret_env 5 ''gh'' (Some ''sales'') ''alice'' default_order (Some [''namespace'', ''tenant'']) [] alice_vault)"
  proof (rule shared_agents_read_their_tiers [OF demo_order])
    show "same_secret demo_secret_env 5 (strip ''gh'') demo_vault alice_vault"
      by (rule same) (simp add: strip_def rstrip_def is_space_def)
  qed (simp_all add: same)
  moreover have "secret_value demo_secret_env 5 False ''forgeos-user-alice-gh'' alice_vault = ''tok''" by code_simp
  ultimately show ?thesis ..
qed

lemma demo_trim: "strip ''tok '' = ''tok''" "strip ''gh'' = ''gh''"
  by (simp_all add: strip_def rstrip_def is_space_def)

lemma stored_secrets_resolve_witness:
  "fst (cred_resolve demo_secret_env 9 ''user/gh'' None ''alice'' default_order None [] alice_vault) = Inr (Some ''tok'')"
  using stored_secrets_resolve [OF alice_put _ _ _ demo_order, of 9 "[]"] by (simp add: demo_trim pin_of_def canonical_scope_def)

lemma user_secrets_leak_to_shared_agents_witness:
  "\<exists>vars. fst (resolve_env demo_secret_env 9 True ''sales'' ''ns:sales'' ''jira''
       [(''TOKEN'', PStr ''secret:forgeos-user-alice-gh'')] alice_vault) = Inr vars \<and> map_of vars ''TOKEN'' = Some (PStr ''tok'')"
  using user_secrets_leak_to_shared_agents [OF alice_put, of "''ns:sales''" "''sales''" 9 "''jira''"]
  by (simp add: demo_trim stored_key_def starts_with_def)

definition hyphen_vault :: "unit secrets" where
  "hyphen_vault = snd (put_scoped_secret demo_secret_env ''eu-gh'' ''tok'' ''namespace'' (Some ''sales'') ''u'' ''generic'' [] demo_vault)"

lemma hyphenated_namespaces_share_secrets_witness:
  "fst (cred_resolve demo_secret_env 9 ''ns/gh'' (Some ''sales-eu'') ''bob'' default_order None [] hyphen_vault) = Inr (Some ''tok'')"
proof -
  have "fst (put_scoped_secret demo_secret_env (''eu'' @ ''-'' @ ''gh'') ''tok'' ''namespace'' (Some ''sales'') ''u'' ''generic'' [] demo_vault) = Inr True"
    by code_simp
  then have put: "put_scoped_secret demo_secret_env (''eu'' @ ''-'' @ ''gh'') ''tok'' ''namespace'' (Some ''sales'') ''u'' ''generic'' [] demo_vault =
      (Inr True, hyphen_vault)" by (simp add: hyphen_vault_def prod_eq_iff)
  have "strip ''tok'' = ''tok''" by (simp add: strip_def rstrip_def is_space_def)
  with hyphenated_namespaces_share_secrets [OF put, of 9 "''bob''" "[]"] show ?thesis
    by (simp add: secret_name_re_def name_char_def)
qed

definition demo_rows :: "(string, secret_row) dict" where
  "demo_rows = [(''k'', \<lparr>sr_user = ''u'', sr_kind = ''generic'', sr_cipher = ''dlo'', sr_scope = ''user'', sr_namespace = None\<rparr>)]"

lemma revocation_reaches_cached_readers_witness:
  "let s = fold (secret_step demo_secret_env) ([SGet 100 ''k'' False] @ SOther 200 [] () # [SGet 250 ''k'' False]) (new_manager demo_rows ())
   in fst (secrets_get demo_secret_env 250 ''k'' [] [] [] False s) = ''old'' \<and> fst (secrets_get demo_secret_env 500 ''k'' [] [] [] False s) = []"
proof -
  let ?s = "fold (secret_step demo_secret_env) ([SGet 100 ''k'' False] @ SOther 200 [] () # [SGet 250 ''k'' False]) (new_manager demo_rows ())"
  have "fst (secrets_get demo_secret_env 250 ''k'' [] [] [] False ?s) = ''old''" by code_simp
  moreover have "fst (secrets_get demo_secret_env 500 ''k'' [] [] [] False ?s) = []"
    using revocation_reaches_cached_readers [where ?t0.0 = 200 and before = "[SGet 100 ''k'' False]" and after = "[SGet 250 ''k'' False]"
        and env = demo_secret_env and now = 500 and rs = demo_rows and g = "()" and rs' = "[]" and g' = "()" and n = "''k''" and dflt = "[]"
        and caller = "[]" and reason = "[]" and allow_env = False, OF _ _ _ refl]
    by (simp add: is_read_def demo_secret_env_def stored_secret_def backend_get_def new_manager_def missing_secret_def del: fold.simps)
  ultimately show ?thesis unfolding Let_def by blast
qed

end
