(* ===== verification/McpPool.thy ===== *)
theory McpPool
  imports Secrets Rules "HOL-Library.While_Combinator"
begin

text \<open>
  The pool of per-client MCP connections (\<open>ClientMCPManager\<close> in \<open>src/src/mcp/client_mcp_manager.py\<close>):
  connections are opened on demand for a client, a server and a namespace, kept in order of use, closed
  when they were idle too long and evicted when the pool is full.

  The MCP client library, the operating system and the database are the fields of \<open>mcp_env\<close>; they act on a world
  \<open>'w\<close>, which also holds the clock.  \<open>me_open\<close> starts a server and shakes hands (what times out or
  raises there has cleaned up after itself as far as the code lets it).  A configuration is
  the dictionary the code stores.  The lock makes the operations run one after the other; \<open>None\<close> is
  an operation that never returns (the eviction loop has no other way out than a smaller pool).
\<close>

subsection \<open>State\<close>

record 's mcp_conn =
  mc_client :: string
  mc_server :: string
  mc_session :: 's
  mc_schemas :: "details list"
  mc_connected :: time
  mc_used :: time

type_synonym mcp_key = "string \<times> string \<times> string"

record ('s, 'g) mcp_pool =
  mp_conns :: "(mcp_key, 's mcp_conn) dict"
  mp_configs :: "(string, details list) dict"
  mp_cooldowns :: "(mcp_key, time) dict"
  mp_secrets :: "'g secrets"

definition empty_pool :: "'g secrets \<Rightarrow> ('s, 'g) mcp_pool" where
  "empty_pool s = \<lparr>mp_conns = [], mp_configs = [], mp_cooldowns = [], mp_secrets = s\<rparr>"

text \<open>A server process: its command, arguments and environment; and what starting it gives.\<close>

record launch =
  la_command :: string
  la_args :: "pyval list"
  la_env :: "(string, pyval) dict"

record mcp_tool =
  mt_name :: pyval
  mt_description :: pyval
  mt_schema :: pyval

datatype 's handshake = HandshakeRaised | HandshakeTimedOut | Opened 's "mcp_tool list"

record ('w, 's, 'g) mcp_env =
  me_sdk :: bool
  me_max :: int
  me_ttl :: time
  me_managed :: bool
  me_vault :: "'g secret_env"
  me_db :: "(string \<Rightarrow> 'w \<Rightarrow> details list option \<times> 'w) option"
  me_clock :: "'w \<Rightarrow> time"
  me_open :: "launch \<Rightarrow> 'w \<Rightarrow> 's handshake \<times> 'w"
  me_close :: "'s \<Rightarrow> 'w \<Rightarrow> 'w"

definition cooldown_time :: time where
  "cooldown_time = 60000000"

definition register_client_config :: "string \<Rightarrow> details list \<Rightarrow> ('s, 'g) mcp_pool \<Rightarrow> ('s, 'g) mcp_pool" where
  "register_client_config client cfgs p = p\<lparr>mp_configs := dset client cfgs (mp_configs p)\<rparr>"

subsection \<open>Configurations\<close>

text \<open>A row of the table; a missing column raises, and the query then counts as empty.\<close>

definition row_config :: "details \<Rightarrow> details option" where
  "row_config r =
     (case (map_of r ''server_name'', map_of r ''package'') of
        (Some s, Some k) \<Rightarrow> Some [(''server_name'', s), (''package'', k), (''env_vars'', dget_default r ''env_vars'' (PDict [])),
           (''args'', dget_default r ''args'' (PList [])), (''enabled'', dget_default r ''enabled'' (PBool True))]
      | _ \<Rightarrow> None)"

fun row_configs :: "details list \<Rightarrow> details list option" where
  "row_configs [] = Some []"
| "row_configs (r # rs) =
     (case row_config r of None \<Rightarrow> None | Some c \<Rightarrow> map_option ((#) c) (row_configs rs))"

definition load_all_configs :: "('w, 's, 'g) mcp_env \<Rightarrow> string \<Rightarrow> ('s, 'g) mcp_pool \<Rightarrow> 'w \<Rightarrow> details list \<times> 'w" where
  "load_all_configs env client p w =
     (case map_of (mp_configs p) client of
        Some cfgs \<Rightarrow> (cfgs, w)
      | None \<Rightarrow>
        (case me_db env of
           None \<Rightarrow> ([], w)
         | Some query \<Rightarrow> (case query client w of (rows, w1) \<Rightarrow> (or_nil (Option.bind rows row_configs), w1))))"

definition enabled :: "details \<Rightarrow> bool" where
  "enabled cfg = truthy (dget_default cfg ''enabled'' (PBool True))"

definition server_config :: "string \<Rightarrow> details list \<Rightarrow> details option" where
  "server_config server cfgs = find (\<lambda>c. dget_default c ''server_name'' PNone = PStr server \<and> enabled c) cfgs"

definition load_server_config :: "('w, 's, 'g) mcp_env \<Rightarrow> string \<Rightarrow> string \<Rightarrow> ('s, 'g) mcp_pool \<Rightarrow> 'w \<Rightarrow> details option \<times> 'w" where
  "load_server_config env client server p w = apfst (server_config server) (load_all_configs env client p w)"

subsection \<open>Connecting\<close>

definition server_name_of :: "details \<Rightarrow> string" where
  "server_name_of cfg = py_str (dget_default cfg ''server_name'' (PStr []))"

definition npx_package :: "string \<Rightarrow> bool" where
  "npx_package k = (starts_with ''@'' k \<or> starts_with ''mcp-server-'' k)"

definition launch_command :: "string \<Rightarrow> string \<times> pyval list" where
  "launch_command k = (if npx_package k then (''npx'', [PStr ''-y'', PStr k]) else (''uvx'', [PStr k]))"

text \<open>The process to start: nothing without a package, an exception when the fields have the wrong types.\<close>

definition launch_of :: "('w, 's, 'g) mcp_env \<Rightarrow> time \<Rightarrow> string \<Rightarrow> string \<Rightarrow> details \<Rightarrow> 'g secrets \<Rightarrow> launch option res \<times> 'g secrets" where
  "launch_of env now client ns cfg s =
     (case dget_default cfg ''package'' (PStr []) of
        PStr k \<Rightarrow>
          if k = [] then (Inr None, s)
          else (case dget_default cfg ''args'' (PList []) of
             PList extra \<Rightarrow>
               (let vars = dget_default cfg ''env_vars'' (PDict [])
                in case (if truthy vars then (case vars of PDict d \<Rightarrow> Inr d | _ \<Rightarrow> Inl (AttributeError ''items'')) else Inr []) of
                     Inl e \<Rightarrow> (Inl e, s)
                   | Inr d \<Rightarrow>
                     (case resolve_env (me_vault env) now (me_managed env) ns client (server_name_of cfg) d s of
                        (Inl e, s1) \<Rightarrow> (Inl e, s1)
                      | (Inr vs, s1) \<Rightarrow> (Inr (Some \<lparr>la_command = fst (launch_command k), la_args = snd (launch_command k) @ extra, la_env = vs\<rparr>), s1)))
           | _ \<Rightarrow> (Inl TypeError, s))
      | v \<Rightarrow> if truthy v then (Inl (AttributeError ''startswith''), s) else (Inr None, s))"

definition tool_schema :: "mcp_tool \<Rightarrow> details" where
  "tool_schema t = [(''name'', mt_name t), (''description'', mt_description t), (''inputSchema'', mt_schema t)]"

text \<open>A connection, or none (no package, or the handshake timed out), or an exception.\<close>

definition connect :: "('w, 's, 'g) mcp_env \<Rightarrow> string \<Rightarrow> string \<Rightarrow> details \<Rightarrow> 'g secrets \<Rightarrow> 'w \<Rightarrow> 's mcp_conn option res \<times> 'g secrets \<times> 'w" where
  "connect env client ns cfg s w =
     (case launch_of env (me_clock env w) client ns cfg s of
        (Inl e, s1) \<Rightarrow> (Inl e, s1, w)
      | (Inr None, s1) \<Rightarrow> (Inr None, s1, w)
      | (Inr (Some l), s1) \<Rightarrow>
        (case me_open env l w of
           (HandshakeRaised, w1) \<Rightarrow> (Inl (Raised ''handshake''), s1, w1)
         | (HandshakeTimedOut, w1) \<Rightarrow> (Inr None, s1, w1)
         | (Opened session tools, w1) \<Rightarrow>
             (Inr (Some \<lparr>mc_client = client, mc_server = server_name_of cfg, mc_session = session, mc_schemas = map tool_schema tools,
                mc_connected = me_clock env w1, mc_used = me_clock env w1\<rparr>), s1, w1)))"

subsection \<open>Disconnecting\<close>

definition disconnect_one :: "('w, 's, 'g) mcp_env \<Rightarrow> mcp_key \<Rightarrow> ('s, 'g) mcp_pool \<times> 'w \<Rightarrow> ('s, 'g) mcp_pool \<times> 'w" where
  "disconnect_one env key pw =
     (case pw of (p, w) \<Rightarrow>
        (case map_of (mp_conns p) key of
           None \<Rightarrow> (p, w)
         | Some c \<Rightarrow> (p\<lparr>mp_conns := dpop key (mp_conns p)\<rparr>, me_close env (mc_session c) w)))"

text \<open>The first entry is taken out, and then disconnected by its key.\<close>

definition evict_oldest :: "('w, 's, 'g) mcp_env \<Rightarrow> ('s, 'g) mcp_pool \<times> 'w \<Rightarrow> ('s, 'g) mcp_pool \<times> 'w" where
  "evict_oldest env pw =
     (case mp_conns (fst pw) of
        [] \<Rightarrow> pw
      | (key, c) # rest \<Rightarrow> disconnect_one env key ((fst pw)\<lparr>mp_conns := rest\<rparr>, snd pw))"

definition make_room :: "('w, 's, 'g) mcp_env \<Rightarrow> ('s, 'g) mcp_pool \<times> 'w \<Rightarrow> (('s, 'g) mcp_pool \<times> 'w) option" where
  "make_room env = while_option (\<lambda>pw. me_max env \<le> int (length (mp_conns (fst pw)))) (evict_oldest env)"

definition disconnect_client :: "('w, 's, 'g) mcp_env \<Rightarrow> string \<Rightarrow> ('s, 'g) mcp_pool \<times> 'w \<Rightarrow> ('s, 'g) mcp_pool \<times> 'w" where
  "disconnect_client env client pw = fold (disconnect_one env) (filter (\<lambda>k. fst k = client) (dkeys (mp_conns (fst pw)))) pw"

definition disconnect_all :: "('w, 's, 'g) mcp_env \<Rightarrow> ('s, 'g) mcp_pool \<times> 'w \<Rightarrow> ('s, 'g) mcp_pool \<times> 'w" where
  "disconnect_all env pw = fold (disconnect_one env) (dkeys (mp_conns (fst pw))) pw"

subsection \<open>Getting a client\<close>

definition cooling :: "('w, 's, 'g) mcp_env \<Rightarrow> mcp_key \<Rightarrow> ('s, 'g) mcp_pool \<times> 'w \<Rightarrow> bool" where
  "cooling env key pw = (me_clock env (snd pw) < dget_default (mp_cooldowns (fst pw)) key 0)"

text \<open>A key that is not in the pool.\<close>

definition open_client :: "('w, 's, 'g) mcp_env \<Rightarrow> mcp_key \<Rightarrow> ('s, 'g) mcp_pool \<times> 'w \<Rightarrow> ('s option \<times> ('s, 'g) mcp_pool \<times> 'w) option" where
  "open_client env key pw =
     (case key of (client, server, ns) \<Rightarrow>
        if cooling env key pw then Some (None, pw)
        else (case load_server_config env client server (fst pw) (snd pw) of
           (None, w1) \<Rightarrow> Some (None, fst pw, w1)
         | (Some cfg, w1) \<Rightarrow>
           (case make_room env (fst pw, w1) of
              None \<Rightarrow> None
            | Some (p2, w2) \<Rightarrow>
              Some (case connect env client ns cfg (mp_secrets p2) w2 of
                 (Inl e, s, w3) \<Rightarrow> (None, p2\<lparr>mp_secrets := s, mp_cooldowns := dset key (me_clock env w3 + cooldown_time) (mp_cooldowns p2)\<rparr>, w3)
               | (Inr None, s, w3) \<Rightarrow> (None, p2\<lparr>mp_secrets := s\<rparr>, w3)
               | (Inr (Some c), s, w3) \<Rightarrow>
                   (Some (mc_session c), p2\<lparr>mp_secrets := s, mp_conns := dset key c (mp_conns p2)\<rparr>, w3)))))"

definition touch_conn :: "mcp_key \<Rightarrow> 's mcp_conn \<Rightarrow> time \<Rightarrow> ('s, 'g) mcp_pool \<Rightarrow> ('s, 'g) mcp_pool" where
  "touch_conn key c now p = p\<lparr>mp_conns := dpop key (mp_conns p) @ [(key, c\<lparr>mc_used := now\<rparr>)]\<rparr>"

definition get_client :: "('w, 's, 'g) mcp_env \<Rightarrow> mcp_key \<Rightarrow> ('s, 'g) mcp_pool \<times> 'w \<Rightarrow> ('s option \<times> ('s, 'g) mcp_pool \<times> 'w) option" where
  "get_client env key pw =
     (if \<not> me_sdk env then Some (None, pw)
      else (case map_of (mp_conns (fst pw)) key of
        Some c \<Rightarrow>
          if me_clock env (snd pw) - mc_used c < me_ttl env
          then Some (Some (mc_session c), touch_conn key c (me_clock env (snd pw)) (fst pw), snd pw)
          else open_client env key (disconnect_one env key pw)
      | None \<Rightarrow> open_client env key pw))"

definition pooled_schemas :: "mcp_key \<Rightarrow> ('s, 'g) mcp_pool \<Rightarrow> details list" where
  "pooled_schemas key p = (case map_of (mp_conns p) key of None \<Rightarrow> [] | Some c \<Rightarrow> mc_schemas c)"

definition get_tool_schemas :: "('w, 's, 'g) mcp_env \<Rightarrow> mcp_key \<Rightarrow> ('s, 'g) mcp_pool \<times> 'w \<Rightarrow> (details list \<times> ('s, 'g) mcp_pool \<times> 'w) option" where
  "get_tool_schemas env key pw =
     (case map_of (mp_conns (fst pw)) key of
        Some c \<Rightarrow> Some (mc_schemas c, pw)
      | None \<Rightarrow> map_option (\<lambda>(_, pw1). (pooled_schemas key (fst pw1), pw1)) (get_client env key pw))"

text \<open>The tools of all of a client's servers: every enabled one with a name, always in the namespace \<open>default\<close>.\<close>

fun client_schemas :: "('w, 's, 'g) mcp_env \<Rightarrow> string \<Rightarrow> details list \<Rightarrow> (string, details list) dict \<Rightarrow> ('s, 'g) mcp_pool \<times> 'w \<Rightarrow>
    ((string, details list) dict \<times> ('s, 'g) mcp_pool \<times> 'w) option" where
  "client_schemas env client [] acc pw = Some (acc, pw)"
| "client_schemas env client (cfg # cfgs) acc pw =
     (if truthy (dget_default cfg ''server_name'' (PStr [])) \<and> enabled cfg
      then (case get_tool_schemas env (client, server_name_of cfg, ''default'') pw of
              None \<Rightarrow> None
            | Some (ts, pw1) \<Rightarrow> client_schemas env client cfgs (if ts = [] then acc else dset (server_name_of cfg) ts acc) pw1)
      else client_schemas env client cfgs acc pw)"

definition get_all_client_tools :: "('w, 's, 'g) mcp_env \<Rightarrow> string \<Rightarrow> ('s, 'g) mcp_pool \<times> 'w \<Rightarrow>
    ((string, details list) dict \<times> ('s, 'g) mcp_pool \<times> 'w) option" where
  "get_all_client_tools env client pw =
     (case load_all_configs env client (fst pw) (snd pw) of (cfgs, w1) \<Rightarrow> client_schemas env client cfgs [] (fst pw, w1))"

definition refresh_schemas :: "('w, 's, 'g) mcp_env \<Rightarrow> mcp_key \<Rightarrow> ('s, 'g) mcp_pool \<times> 'w \<Rightarrow> (details list \<times> ('s, 'g) mcp_pool \<times> 'w) option" where
  "refresh_schemas env key pw =
     map_option (\<lambda>(_, pw1). (pooled_schemas key (fst pw1), pw1)) (get_client env key (disconnect_one env key pw))"

definition pool_stats :: "('w, 's, 'g) mcp_env \<Rightarrow> ('s, 'g) mcp_pool \<Rightarrow> nat \<times> int \<times> time \<times> string list" where
  "pool_stats env p = (length (mp_conns p), me_max env, me_ttl env, remdups (map fst (dkeys (mp_conns p))))"

subsection \<open>Eviction\<close>

lemma evicted: "dict_ok (mp_conns (fst pw)) \<Longrightarrow> evict_oldest env pw = ((fst pw)\<lparr>mp_conns := tl (mp_conns (fst pw))\<rparr>, snd pw)"
proof (cases "mp_conns (fst pw)")
  case Nil
  then show ?thesis by (cases pw) (simp add: evict_oldest_def)
next
  case (Cons kc rest)
  moreover assume "dict_ok (mp_conns (fst pw))"
  ultimately have "map_of rest (fst kc) = None" by (simp add: dict_ok_def map_of_eq_None_iff)
  with Cons show ?thesis by (cases kc) (simp add: evict_oldest_def disconnect_one_def)
qed

lemma dict_ok_drop: "dict_ok d \<Longrightarrow> dict_ok (drop n d)"
  by (simp add: dict_ok_def drop_map [symmetric])

lemma dict_ok_tl: "dict_ok d \<Longrightarrow> dict_ok (tl d)"
  using dict_ok_drop [of d 1] by (simp add: drop_Suc)

lemma room:
  assumes "0 < me_max env" and "dict_ok (mp_conns p)"
  shows "make_room env (p, w) = Some (p\<lparr>mp_conns := drop (length (mp_conns p) + 1 - nat (me_max env)) (mp_conns p)\<rparr>, w)"
  using assms(2)
proof (induction "length (mp_conns p)" arbitrary: p rule: less_induct)
  case less
  show ?case
  proof (cases "me_max env \<le> int (length (mp_conns p))")
    case True
    then have ne: "mp_conns p \<noteq> []" using assms(1) by auto
    let ?q = "p\<lparr>mp_conns := tl (mp_conns p)\<rparr>"
    have "make_room env (p, w) = make_room env (?q, w)"
      using True evicted [of "(p, w)" env] less.prems by (simp add: make_room_def while_option_unfold [of _ _ "(p, w)"])
    also have "\<dots> = Some (?q\<lparr>mp_conns := drop (length (mp_conns ?q) + 1 - nat (me_max env)) (mp_conns ?q)\<rparr>, w)"
      by (rule less.hyps) (use ne less.prems in \<open>simp_all add: dict_ok_tl\<close>)
    also have "drop (length (mp_conns ?q) + 1 - nat (me_max env)) (mp_conns ?q) = drop (length (mp_conns p) + 1 - nat (me_max env)) (mp_conns p)"
    proof -
      have "length (mp_conns p) + 1 - nat (me_max env) = Suc (length (mp_conns p) - nat (me_max env))"
        using True by (simp add: nat_le_iff Suc_diff_le)
      then show ?thesis using ne by (simp add: drop_Suc Suc_diff_le)
    qed
    finally show ?thesis by simp
  next
    case False
    then have "length (mp_conns p) + 1 - nat (me_max env) = 0" by auto
    with False show ?thesis by (simp add: make_room_def while_option_unfold [of _ _ "(p, w)"])
  qed
qed

lemma no_room: "me_max env \<le> 0 \<Longrightarrow> make_room env pw = None"
  using while_option_stop [of "\<lambda>pw. me_max env \<le> int (length (mp_conns (fst pw)))" "evict_oldest env" pw]
  by (cases "make_room env pw") (auto simp: make_room_def)

subsection \<open>What the pool holds\<close>

text \<open>
  A connection stands for its key: it was opened for that client and server, by a process whose environment
  was resolved for that client in that namespace.
\<close>

definition opened_for :: "('w, 's, 'g) mcp_env \<Rightarrow> mcp_key \<Rightarrow> 's \<Rightarrow> bool" where
  "opened_for env key session =
     (case key of (client, server, ns) \<Rightarrow>
        \<exists>cfg now s l s' w w' tools. server_name_of cfg = server \<and> enabled cfg \<and> launch_of env now client ns cfg s = (Inr (Some l), s') \<and>
          me_open env l w = (Opened session tools, w'))"

definition pool_ok :: "('w, 's, 'g) mcp_env \<Rightarrow> ('s, 'g) mcp_pool \<Rightarrow> bool" where
  "pool_ok env p =
     (dict_ok (mp_conns p) \<and> int (length (mp_conns p)) \<le> me_max env \<and>
      (\<forall>(key, c) \<in> set (mp_conns p). opened_for env key (mc_session c) \<and> mc_client c = fst key \<and> mc_server c = fst (snd key)))"

lemma pool_okD:
  assumes "pool_ok env p" and "map_of (mp_conns p) key = Some c"
  shows "opened_for env key (mc_session c)" and "mc_client c = fst key" and "mc_server c = fst (snd key)"
  using assms by (auto simp: pool_ok_def dest!: map_of_SomeD)

lemma pool_ok_subset:
  "pool_ok env p \<Longrightarrow> dict_ok (mp_conns q) \<Longrightarrow> set (mp_conns q) \<subseteq> set (mp_conns p) \<Longrightarrow> length (mp_conns q) \<le> length (mp_conns p) \<Longrightarrow> pool_ok env q"
  by (auto simp: pool_ok_def)

lemma pool_ok_conns: "mp_conns q = mp_conns p \<Longrightarrow> pool_ok env q = pool_ok env p"
  by (simp add: pool_ok_def)

lemma set_dpop: "set (dpop k d) \<subseteq> set d"
  by (induction d) auto

lemma length_dpop: "length (dpop k d) \<le> length d"
  by (induction d) auto

lemma disconnect_one_ok: "pool_ok env (fst pw) \<Longrightarrow> pool_ok env (fst (disconnect_one env' key pw))"
proof (cases "map_of (mp_conns (fst pw)) key")
  case None
  moreover assume "pool_ok env (fst pw)"
  ultimately show ?thesis by (cases pw) (simp add: disconnect_one_def)
next
  case (Some c)
  assume ok: "pool_ok env (fst pw)"
  have "pool_ok env ((fst pw)\<lparr>mp_conns := dpop key (mp_conns (fst pw))\<rparr>)"
    by (rule pool_ok_subset [OF ok]) (use ok in \<open>simp_all add: set_dpop length_dpop pool_ok_def\<close>)
  with Some show ?thesis by (cases pw) (simp add: disconnect_one_def)
qed

lemma disconnect_fold_ok: "pool_ok env (fst pw) \<Longrightarrow> pool_ok env (fst (fold (disconnect_one env') ks pw))"
  by (induction ks arbitrary: pw) (simp_all add: disconnect_one_ok)

lemma connected_for:
  assumes "connect env client ns cfg s w = (Inr (Some c), s', w')" and "server_config server cfgs = Some cfg"
  shows "opened_for env (client, server, ns) (mc_session c)" and "mc_client c = client" and "mc_server c = server"
proof -
  from assms(2) have cfg: "dget_default cfg ''server_name'' PNone = PStr server" "enabled cfg"
    by (auto simp: server_config_def find_Some_iff)
  then have name: "server_name_of cfg = server"
    by (cases "map_of cfg ''server_name''") (auto simp: server_name_of_def dget_default_def py_str_def)
  from assms(1) obtain l s1 session tools w1 where
    "launch_of env (me_clock env w) client ns cfg s = (Inr (Some l), s1)" "me_open env l w = (Opened session tools, w1)"
    "mc_session c = session" "mc_client c = client" "mc_server c = server_name_of cfg"
    by (auto simp: connect_def split: prod.splits sum.splits option.splits handshake.splits)
  note l = this
  from l name show "mc_client c = client" "mc_server c = server" by simp_all
  show "opened_for env (client, server, ns) (mc_session c)"
    unfolding opened_for_def prod.case using name cfg(2) l(1,2) unfolding l(3) by blast
qed

lemma room_ok:
  assumes "0 < me_max env" and "pool_ok env p" and "make_room env (p, w) = Some (p', w')"
  shows "pool_ok env p'" and "int (length (mp_conns p')) < me_max env" and "w' = w"
    and "set (mp_conns p') \<subseteq> set (mp_conns p)"
proof -
  let ?k = "length (mp_conns p) + 1 - nat (me_max env)"
  have p': "p' = p\<lparr>mp_conns := drop ?k (mp_conns p)\<rparr>" "w' = w"
    using room [OF assms(1), of p w] assms(2,3) by (simp_all add: pool_ok_def)
  show "w' = w" by fact
  show "set (mp_conns p') \<subseteq> set (mp_conns p)" by (simp add: p' set_drop_subset)
  show "pool_ok env p'" by (rule pool_ok_subset [OF assms(2)]) (use assms(2) in \<open>simp_all add: p' set_drop_subset dict_ok_drop pool_ok_def\<close>)
  show "int (length (mp_conns p')) < me_max env" using assms(1) by (simp add: p')
qed

lemma pool_ok_added:
  assumes "pool_ok env p" and "int (length (mp_conns p)) < me_max env" and "map_of (mp_conns p) key = None"
    and "opened_for env key (mc_session c)" and "mc_client c = fst key" and "mc_server c = fst (snd key)"
    and "mp_conns q = dset key c (mp_conns p)"
  shows "pool_ok env q"
  using assms by (auto simp: pool_ok_def dkeys_dset_absent dict_ok_def map_of_eq_None_iff)

lemma absent_subset: "map_of d k = None \<Longrightarrow> set d' \<subseteq> set d \<Longrightarrow> map_of d' k = None"
  by (auto simp: map_of_eq_None_iff)

lemma open_client_ok:
  assumes "0 < me_max env" and "pool_ok env (fst pw)" and "map_of (mp_conns (fst pw)) key = None"
  shows "\<exists>r p' w'. open_client env key pw = Some (r, p', w') \<and> pool_ok env p' \<and> (\<forall>s. r = Some s \<longrightarrow> opened_for env key s)"
proof -
  obtain client server ns where key: "key = (client, server, ns)" by (cases key)
  obtain p w where pw: "pw = (p, w)" by (cases pw)
  obtain cfgs w1 where cfgs: "load_all_configs env client p w = (cfgs, w1)" by fastforce
  show ?thesis
  proof (cases "cooling env key pw \<or> server_config server cfgs = None")
    case True
    with assms show ?thesis by (auto simp: open_client_def key pw load_server_config_def cfgs)
  next
    case False
    then obtain cfg where cfg: "server_config server cfgs = Some cfg" by auto
    obtain p2 where room: "make_room env (p, w1) = Some (p2, w1)" using room [OF assms(1), of p w1] assms(2) by (auto simp: pool_ok_def pw)
    note p2 = room_ok [OF assms(1) _ room] assms(2) [unfolded pw fst_conv]
    obtain r s' w3 where c: "connect env client ns cfg (mp_secrets p2) w1 = (r, s', w3)" by (metis prod_cases3)
    have o: "open_client env key pw = Some (case (r, s', w3) of
                 (Inl e, s, w3) \<Rightarrow> (None, p2\<lparr>mp_secrets := s, mp_cooldowns := dset (client, server, ns) (me_clock env w3 + cooldown_time) (mp_cooldowns p2)\<rparr>, w3)
               | (Inr None, s, w3) \<Rightarrow> (None, p2\<lparr>mp_secrets := s\<rparr>, w3)
               | (Inr (Some c), s, w3) \<Rightarrow> (Some (mc_session c), p2\<lparr>mp_secrets := s, mp_conns := dset (client, server, ns) c (mp_conns p2)\<rparr>, w3))"
      using False by (simp add: open_client_def key pw load_server_config_def cfgs cfg room c)
    show ?thesis
    proof (cases "\<exists>c. r = Inr (Some c)")
      case True
      then obtain c' where r: "r = Inr (Some c')" by blast
      note new = connected_for [OF c [unfolded r] cfg]
      have "pool_ok env (p2\<lparr>mp_secrets := s', mp_conns := dset key c' (mp_conns p2)\<rparr>)"
        by (rule pool_ok_added [of env p2 key c']) (use p2 new assms(3) absent_subset in \<open>auto simp: key pw\<close>)
      then show ?thesis using new(1) [folded key] unfolding o r key [symmetric] by simp
    next
      case False
      with p2 show ?thesis unfolding o by (auto simp: pool_ok_def split: sum.split option.split)
    qed
  qed
qed

lemma touch_conn_ok: "pool_ok env p \<Longrightarrow> map_of (mp_conns p) key = Some c \<Longrightarrow> pool_ok env (touch_conn key c now p)"
proof -
  assume ok: "pool_ok env p" and c: "map_of (mp_conns p) key = Some c"
  note new = pool_okD [OF ok c]
  let ?q = "p\<lparr>mp_conns := dpop key (mp_conns p)\<rparr>"
  have "length (mp_conns p) = Suc (length (mp_conns ?q))" using length_dpop_present [of "mp_conns p" key c] ok c by (simp add: pool_ok_def)
  moreover have "pool_ok env ?q" by (rule pool_ok_subset [OF ok]) (use ok in \<open>simp_all add: set_dpop length_dpop pool_ok_def\<close>)
  moreover have "int (length (mp_conns p)) \<le> me_max env" using ok by (simp add: pool_ok_def)
  ultimately have room: "pool_ok env ?q" "int (length (mp_conns ?q)) < me_max env" by simp_all
  have "mp_conns (touch_conn key c now p) = dset key (c\<lparr>mc_used := now\<rparr>) (dpop key (mp_conns p))"
    by (simp add: touch_conn_def dkeys_dset_absent)
  with new show ?thesis by (intro pool_ok_added [OF room, of key "c\<lparr>mc_used := now\<rparr>"]) simp_all
qed

lemma get_client_ok:
  assumes "0 < me_max env" and "pool_ok env (fst pw)"
  shows "\<exists>r p' w'. get_client env key pw = Some (r, p', w') \<and> pool_ok env p' \<and> (\<forall>s. r = Some s \<longrightarrow> opened_for env key s)"
proof (cases "map_of (mp_conns (fst pw)) key")
  case None
  then show ?thesis using open_client_ok [OF assms None] assms(2) by (cases pw) (auto simp: get_client_def)
next
  case (Some c)
  have gone: "map_of (mp_conns (fst (disconnect_one env key pw))) key = None"
    using Some by (cases pw) (simp add: disconnect_one_def)
  show ?thesis
    using open_client_ok [OF assms(1) disconnect_one_ok [OF assms(2)] gone] assms(2) Some touch_conn_ok [OF assms(2) Some] pool_okD(1) [OF assms(2) Some]
    by (cases pw) (auto simp: get_client_def)
qed

lemma get_tool_schemas_ok:
  assumes "0 < me_max env" and "pool_ok env (fst pw)"
  shows "\<exists>ts p' w'. get_tool_schemas env key pw = Some (ts, p', w') \<and> pool_ok env p'"
  using get_client_ok [OF assms, of key] assms(2) by (cases pw) (auto simp: get_tool_schemas_def split: option.split)

lemma client_schemas_ok:
  assumes "0 < me_max env"
  shows "pool_ok env (fst pw) \<Longrightarrow> \<exists>ts p' w'. client_schemas env client cfgs acc pw = Some (ts, p', w') \<and> pool_ok env p'"
proof (induction cfgs arbitrary: acc pw)
  case Nil
  then show ?case by (cases pw) simp
next
  case (Cons cfg cfgs)
  obtain ts p1 w1 where "get_tool_schemas env (client, server_name_of cfg, ''default'') pw = Some (ts, p1, w1)" "pool_ok env p1"
    using get_tool_schemas_ok [OF assms Cons.prems] by blast
  with Cons.IH [of pw] Cons.IH [of "(p1, w1)"] Cons.prems show ?case by auto
qed

subsection \<open>Histories\<close>

datatype mcp_op = Get mcp_key | Schemas mcp_key | AllTools string | Refresh mcp_key | DropClient string | DropAll
  | Configure string "details list"

primrec mcp_step :: "('w, 's, 'g) mcp_env \<Rightarrow> mcp_op \<Rightarrow> ('s, 'g) mcp_pool \<times> 'w \<Rightarrow> (('s, 'g) mcp_pool \<times> 'w) option" where
  "mcp_step env (Get key) pw = map_option snd (get_client env key pw)"
| "mcp_step env (Schemas key) pw = map_option snd (get_tool_schemas env key pw)"
| "mcp_step env (AllTools client) pw = map_option snd (get_all_client_tools env client pw)"
| "mcp_step env (Refresh key) pw = map_option snd (refresh_schemas env key pw)"
| "mcp_step env (DropClient client) pw = Some (disconnect_client env client pw)"
| "mcp_step env DropAll pw = Some (disconnect_all env pw)"
| "mcp_step env (Configure client cfgs) pw = Some (apfst (register_client_config client cfgs) pw)"

primrec mcp_run :: "('w, 's, 'g) mcp_env \<Rightarrow> mcp_op list \<Rightarrow> ('s, 'g) mcp_pool \<times> 'w \<Rightarrow> (('s, 'g) mcp_pool \<times> 'w) option" where
  "mcp_run env [] pw = Some pw"
| "mcp_run env (oper # ops) pw = Option.bind (mcp_step env oper pw) (mcp_run env ops)"

lemma mcp_step_ok:
  assumes "0 < me_max env" and "pool_ok env (fst pw)"
  shows "\<exists>p' w'. mcp_step env oper pw = Some (p', w') \<and> pool_ok env p'"
proof (cases oper)
  case (Get key)
  then show ?thesis using get_client_ok [OF assms, of key] by auto
next
  case (Schemas key)
  then show ?thesis using get_tool_schemas_ok [OF assms, of key] by auto
next
  case (AllTools client)
  obtain p w where pw: "pw = (p, w)" by (cases pw)
  obtain cfgs w1 where "load_all_configs env client p w = (cfgs, w1)" by fastforce
  then show ?thesis
    using client_schemas_ok [OF assms(1), of "(p, w1)" client cfgs "[]"] assms(2) by (auto simp: AllTools pw get_all_client_tools_def)
next
  case (Refresh key)
  then show ?thesis using get_client_ok [OF assms(1) disconnect_one_ok [OF assms(2), of env key], of key] by (auto simp: refresh_schemas_def)
next
  case (DropClient client)
  then show ?thesis
    using disconnect_fold_ok [OF assms(2)] by (metis disconnect_client_def mcp_step.simps(5) prod.collapse)
next
  case DropAll
  then show ?thesis
    using disconnect_fold_ok [OF assms(2)] by (metis disconnect_all_def mcp_step.simps(6) prod.collapse)
next
  case (Configure client cfgs)
  then show ?thesis using assms(2) by (cases pw) (simp add: register_client_config_def pool_ok_def)
qed

lemma mcp_run_ok:
  assumes "0 < me_max env"
  shows "pool_ok env (fst pw) \<Longrightarrow> \<exists>p' w'. mcp_run env ops pw = Some (p', w') \<and> pool_ok env p'"
proof (induction ops arbitrary: pw)
  case Nil
  then show ?case by (cases pw) simp
next
  case (Cons oper ops)
  obtain p1 w1 where "mcp_step env oper pw = Some (p1, w1)" "pool_ok env p1" using mcp_step_ok [OF assms Cons.prems] by blast
  with Cons.IH [of "(p1, w1)"] show ?case by simp
qed

lemma empty_pool_ok: "0 < me_max env \<Longrightarrow> pool_ok env (empty_pool s)"
  by (simp add: empty_pool_def pool_ok_def)


subsection \<open>Opening a connection\<close>

text \<open>A key that is neither pooled nor cooling down, with a configuration for its server.\<close>

definition may_open :: "('w, 's, 'g) mcp_env \<Rightarrow> mcp_key \<Rightarrow> ('s, 'g) mcp_pool \<Rightarrow> 'w \<Rightarrow> details \<Rightarrow> 'w \<Rightarrow> bool" where
  "may_open env key p w cfg w1 =
     (me_sdk env \<and> map_of (mp_conns p) key = None \<and> \<not> cooling env key (p, w) \<and>
      load_server_config env (fst key) (fst (snd key)) p w = (Some cfg, w1))"

lemma get_client_opens:
  "may_open env (client, server, ns) p w cfg w1 \<Longrightarrow> get_client env (client, server, ns) (p, w) =
     (case make_room env (p, w1) of
        None \<Rightarrow> None
      | Some (p2, w2) \<Rightarrow>
        Some (case connect env client ns cfg (mp_secrets p2) w2 of
           (Inl e, s, w3) \<Rightarrow> (None, p2\<lparr>mp_secrets := s,
              mp_cooldowns := dset (client, server, ns) (me_clock env w3 + cooldown_time) (mp_cooldowns p2)\<rparr>, w3)
         | (Inr None, s, w3) \<Rightarrow> (None, p2\<lparr>mp_secrets := s\<rparr>, w3)
         | (Inr (Some c), s, w3) \<Rightarrow>
             (Some (mc_session c), p2\<lparr>mp_secrets := s, mp_conns := dset (client, server, ns) c (mp_conns p2)\<rparr>, w3)))"
  by (simp add: may_open_def get_client_def open_client_def)

lemma cooling_client: "me_sdk env \<Longrightarrow> map_of (mp_conns p) key = None \<Longrightarrow> cooling env key (p, w) \<Longrightarrow> get_client env key (p, w) = Some (None, p, w)"
  by (cases key) (simp add: get_client_def open_client_def)

lemma other_close:
  "me_sdk (env\<lparr>me_close := f\<rparr>) = me_sdk env" "me_db (env\<lparr>me_close := f\<rparr>) = me_db env" "me_clock (env\<lparr>me_close := f\<rparr>) = me_clock env"
  "me_open (env\<lparr>me_close := f\<rparr>) = me_open env" "me_vault (env\<lparr>me_close := f\<rparr>) = me_vault env"
  "me_managed (env\<lparr>me_close := f\<rparr>) = me_managed env"
  by simp_all

lemma connect_other_close: "connect (env\<lparr>me_close := f\<rparr>) client ns cfg s w = connect env client ns cfg s w"
  unfolding connect_def launch_of_def other_close ..

lemma may_open_other_close: "may_open (env\<lparr>me_close := f\<rparr>) key p w cfg w1 = may_open env key p w cfg w1"
  unfolding may_open_def cooling_def load_server_config_def load_all_configs_def other_close ..

text \<open>C10. 
  When the pool is full, a new connection takes the place of the one used longest ago.  The victim's session
  is never closed: the outcome is the same whatever closing a session does, so closing is not called.
  (The victim has left the dictionary before it is disconnected by its key.)
\<close>

theorem evicted_sessions_are_never_closed:
  assumes "may_open env (client, server, ns) p w cfg w1" and "dict_ok (mp_conns p)" and "0 < me_max env"
    and "int (length (mp_conns p)) = me_max env"
    and "connect env client ns cfg (mp_secrets p) w1 = (Inr (Some c), s, w2)"
  shows "\<forall>close. get_client (env\<lparr>me_close := close\<rparr>) (client, server, ns) (p, w) =
    Some (Some (mc_session c), p\<lparr>mp_secrets := s, mp_conns := tl (mp_conns p) @ [((client, server, ns), c)]\<rparr>, w2)"
proof
  fix f
  let ?env = "env\<lparr>me_close := f\<rparr>"
  have full: "length (mp_conns p) + 1 - nat (me_max env) = 1" using assms(4) by simp
  have room: "make_room ?env (p, w1) = Some (p\<lparr>mp_conns := tl (mp_conns p)\<rparr>, w1)"
    using room [of ?env p w1] assms(2,3) full by (simp add: drop_Suc)
  have "map_of (tl (mp_conns p)) (client, server, ns) = None"
    using assms(1) by (cases "mp_conns p") (auto simp: may_open_def split: if_splits)
  then show "get_client ?env (client, server, ns) (p, w) =
    Some (Some (mc_session c), p\<lparr>mp_secrets := s, mp_conns := tl (mp_conns p) @ [((client, server, ns), c)]\<rparr>, w2)"
    using get_client_opens [of ?env client server ns p w cfg w1] assms(1,5)
    by (simp add: may_open_other_close room connect_other_close dkeys_dset_absent)
qed

text \<open>A pool allowed no connection at all makes the first one that has to be opened hang, with the lock held.\<close>

theorem pool_without_room_hangs:
  assumes "me_max env \<le> 0" and "may_open env (client, server, ns) p w cfg w1"
  shows "get_client env (client, server, ns) (p, w) = None"
  using get_client_opens [OF assms(2)] no_room [OF assms(1)] by simp

text \<open>
  A server that fails to start is left alone for a minute; a server whose handshake times out is not:
  nothing is remembered, and the next call starts it again.
\<close>

theorem only_exceptions_cool_down:
  assumes "may_open env (client, server, ns) p w cfg w1" and "0 < me_max env" and "dict_ok (mp_conns p)"
    and "launch_of env (me_clock env w1) client ns cfg (mp_secrets p) = (Inr (Some l), s)"
  shows "(\<forall>w2. me_open env l w1 = (HandshakeTimedOut, w2) \<longrightarrow>
      (\<exists>p'. get_client env (client, server, ns) (p, w) = Some (None, p', w2) \<and> mp_cooldowns p' = mp_cooldowns p)) \<and>
    (\<forall>w2. me_open env l w1 = (HandshakeRaised, w2) \<longrightarrow>
      (\<exists>p'. get_client env (client, server, ns) (p, w) = Some (None, p', w2) \<and>
         (\<forall>w3. me_clock env w3 < me_clock env w2 + cooldown_time \<longrightarrow> get_client env (client, server, ns) (p', w3) = Some (None, p', w3))))"
proof -
  let ?k = "length (mp_conns p) + 1 - nat (me_max env)" and ?key = "(client, server, ns)"
  have absent: "map_of (drop ?k (mp_conns p)) ?key = None" and sdk: "me_sdk env"
    using assms(1) absent_subset [of "mp_conns p" _ "drop ?k (mp_conns p)"] by (auto simp: may_open_def set_drop_subset)
  note go = get_client_opens [OF assms(1)] room [OF assms(2,3), of w1]
  have "\<exists>p'. get_client env ?key (p, w) = Some (None, p', w2) \<and> mp_cooldowns p' = mp_cooldowns p"
    if "me_open env l w1 = (HandshakeTimedOut, w2)" for w2
  proof -
    from that have "connect env client ns cfg (mp_secrets p) w1 = (Inr None, s, w2)" by (simp add: connect_def assms(4))
    then show ?thesis by (simp add: go)
  qed
  moreover have "\<exists>p'. get_client env ?key (p, w) = Some (None, p', w2) \<and>
         (\<forall>w3. me_clock env w3 < me_clock env w2 + cooldown_time \<longrightarrow> get_client env ?key (p', w3) = Some (None, p', w3))"
    if "me_open env l w1 = (HandshakeRaised, w2)" for w2
  proof -
    from that have "connect env client ns cfg (mp_secrets p) w1 = (Inl (Raised ''handshake''), s, w2)" by (simp add: connect_def assms(4))
    then have "get_client env ?key (p, w) = Some (None, p\<lparr>mp_conns := drop ?k (mp_conns p), mp_secrets := s,
        mp_cooldowns := dset ?key (me_clock env w2 + cooldown_time) (mp_cooldowns p)\<rparr>, w2)"
      by (simp add: go)
    with absent sdk show ?thesis by (simp add: cooling_client cooling_def)
  qed
  ultimately show ?thesis by blast
qed

subsection \<open>The order of use\<close>

text \<open>Time does not run backwards in the outside world.\<close>

definition clock_forward :: "('w, 's, 'g) mcp_env \<Rightarrow> bool" where
  "clock_forward env =
     ((\<forall>l w. me_clock env w \<le> me_clock env (snd (me_open env l w))) \<and> (\<forall>s w. me_clock env w \<le> me_clock env (me_close env s w)) \<and>
      (\<forall>q client w. me_db env = Some q \<longrightarrow> me_clock env w \<le> me_clock env (snd (q client w))))"

definition uses :: "('s, 'g) mcp_pool \<Rightarrow> time list" where
  "uses p = map (\<lambda>kc. mc_used (snd kc)) (mp_conns p)"

definition in_order :: "time list \<Rightarrow> time \<Rightarrow> bool" where
  "in_order ts now = (sorted ts \<and> (\<forall>t \<in> set ts. t \<le> now))"

lemma in_order_later: "in_order ts now \<Longrightarrow> now \<le> now' \<Longrightarrow> in_order ts now'"
  by (auto simp: in_order_def)

lemma in_order_drop: "in_order ts now \<Longrightarrow> in_order (drop n ts) now"
  by (auto simp: in_order_def sorted_wrt_drop dest: in_set_dropD)

lemma in_order_added: "in_order ts now \<Longrightarrow> now \<le> now' \<Longrightarrow> in_order (ts @ [now']) now'"
  by (auto simp: in_order_def sorted_append)

lemma dpop_filter: "dpop k d = filter (\<lambda>p. fst p \<noteq> k) d"
  by (induction d) auto

lemma in_order_dpop:
  assumes "in_order (map (\<lambda>kc. mc_used (snd kc)) d) now"
  shows "in_order (map (\<lambda>kc. mc_used (snd kc)) (dpop k d)) now"
  using assms sorted_filter [of "\<lambda>kc. mc_used (snd kc)" d "\<lambda>p. fst p \<noteq> k"] by (auto simp: in_order_def dpop_filter)

text \<open>What an operation makes of the order and of the clock.\<close>

definition orderly :: "('w, 's, 'g) mcp_env \<Rightarrow> ('s, 'g) mcp_pool \<times> 'w \<Rightarrow> bool" where
  "orderly env pw = (pool_ok env (fst pw) \<and> in_order (uses (fst pw)) (me_clock env (snd pw)))"

lemma orderlyI: "pool_ok env p \<Longrightarrow> in_order (uses p) (me_clock env w) \<Longrightarrow> orderly env (p, w)"
  by (simp add: orderly_def)

lemma disconnect_orderly: "clock_forward env \<Longrightarrow> orderly env pw \<Longrightarrow> orderly env (disconnect_one env key pw)"
proof (cases "map_of (mp_conns (fst pw)) key")
  case None
  then show "orderly env pw \<Longrightarrow> ?thesis" by (cases pw) (simp add: disconnect_one_def)
next
  case (Some c)
  assume a: "clock_forward env" "orderly env pw"
  have "pool_ok env (fst (disconnect_one env key pw))" using a(2) by (simp add: orderly_def disconnect_one_ok)
  moreover have "in_order (uses (fst (disconnect_one env key pw))) (me_clock env (snd pw))"
    using a(2) in_order_dpop Some by (cases pw) (auto simp: disconnect_one_def uses_def orderly_def)
  moreover have "me_clock env (snd pw) \<le> me_clock env (snd (disconnect_one env key pw))"
    using a(1) Some by (cases pw) (simp add: disconnect_one_def clock_forward_def)
  ultimately show ?thesis by (simp add: orderly_def in_order_later)
qed

lemma connect_used:
  assumes "clock_forward env" and "connect env client ns cfg s w = (r, s', w')"
  shows "me_clock env w \<le> me_clock env w' \<and> (\<forall>c. r = Inr (Some c) \<longrightarrow> mc_used c = me_clock env w')"
proof -
  have "me_clock env w \<le> me_clock env w1" if "me_open env l w = (h, w1)" for l h w1
    using assms(1) that by (metis clock_forward_def snd_conv)
  then show ?thesis using assms(2) by (auto simp: connect_def split: prod.splits sum.splits option.splits handshake.splits)
qed

lemma configs_later:
  assumes "clock_forward env" and "load_all_configs env client p w = (cfgs, w1)"
  shows "me_clock env w \<le> me_clock env w1"
proof -
  have "me_clock env w \<le> me_clock env w2" if "me_db env = Some q" "q client w = (rows, w2)" for q rows w2
    using assms(1) that by (metis clock_forward_def snd_conv)
  then show ?thesis using assms(2) by (auto simp: load_all_configs_def split: option.splits prod.splits)
qed

lemma opened_order:
  assumes "orderly env (p, w)" and "clock_forward env" and "0 < me_max env" and "make_room env (p, w) = Some (p2, w2)"
    and "connect env client ns cfg s w2 = (r, s', w3)"
  shows "in_order (uses p2) (me_clock env w3) \<and> (\<forall>c. r = Inr (Some c) \<longrightarrow> in_order (uses p2 @ [mc_used c]) (me_clock env w3))"
proof -
  have p2: "p2 = p\<lparr>mp_conns := drop (length (mp_conns p) + 1 - nat (me_max env)) (mp_conns p)\<rparr>" "w2 = w"
    using room [OF assms(3), of p w] assms(1,4) by (simp_all add: orderly_def pool_ok_def)
  have "in_order (uses p2) (me_clock env w)"
    using assms(1) in_order_drop by (auto simp: p2 uses_def orderly_def drop_map [symmetric])
  moreover have "me_clock env w \<le> me_clock env w3" "\<forall>c. r = Inr (Some c) \<longrightarrow> mc_used c = me_clock env w3"
    using connect_used [OF assms(2,5)] by (simp_all add: p2)
  ultimately show ?thesis using in_order_later in_order_added by auto
qed

lemma open_client_orderly:
  assumes "0 < me_max env" and "clock_forward env" and "orderly env pw" and "map_of (mp_conns (fst pw)) key = None"
    and "open_client env key pw = Some (r, pw')"
  shows "orderly env pw'"
proof -
  obtain client server ns where key: "key = (client, server, ns)" by (cases key)
  obtain p w where pw: "pw = (p, w)" by (cases pw)
  obtain cfgs w1 where cfgs: "load_all_configs env client p w = (cfgs, w1)" by fastforce
  have o1: "orderly env (p, w1)"
    using assms(3) configs_later [OF assms(2) cfgs] in_order_later by (auto simp: orderly_def pw)
  have ok: "pool_ok env (fst pw')"
    using open_client_ok [OF assms(1) _ assms(4)] assms(3,5) by (force simp: orderly_def)
  show ?thesis
  proof (cases "cooling env key pw \<or> server_config server cfgs = None")
    case True
    then have "pw' = pw \<or> pw' = (p, w1)" using assms(5) by (auto simp: open_client_def key pw load_server_config_def cfgs split: if_splits)
    with assms(3) o1 show ?thesis by auto
  next
    case False
    then obtain cfg where cfg: "server_config server cfgs = Some cfg" by auto
    obtain p2 w2 where room: "make_room env (p, w1) = Some (p2, w2)" using room [OF assms(1), of p w1] o1 by (auto simp: orderly_def pool_ok_def)
    obtain x s' w3 where c: "connect env client ns cfg (mp_secrets p2) w2 = (x, s', w3)" by (metis prod_cases3)
    note ord = opened_order [OF o1 assms(2,1) room c]
    have "map_of (mp_conns p2) key = None"
      using absent_subset [OF _ room_ok(4) [OF assms(1) _ room]] assms(4) o1 by (simp add: orderly_def pw)
    with ord have "in_order (uses (fst pw')) (me_clock env (snd pw'))"
      using assms(5) False
      by (auto simp: open_client_def key pw load_server_config_def cfgs cfg room c uses_def dkeys_dset_absent split: sum.splits option.splits)
    with ok show ?thesis by (simp add: orderly_def)
  qed
qed

lemma get_client_orderly:
  assumes "0 < me_max env" and "clock_forward env" and "orderly env pw" and "get_client env key pw = Some (r, pw')"
  shows "orderly env pw'"
proof -
  obtain p w where pw: "pw = (p, w)" by (cases pw)
  show ?thesis
  proof (cases "map_of (mp_conns p) key")
    case None
    with open_client_orderly [OF assms(1-3), of key r pw'] assms(3,4) show ?thesis by (auto simp: get_client_def pw split: if_splits)
  next
    case (Some c)
    let ?gone = "disconnect_one env key pw" and ?t = "touch_conn key c (me_clock env w) p"
    have gone: "orderly env ?gone" "map_of (mp_conns (fst ?gone)) key = None"
      using disconnect_orderly [OF assms(2,3), of key] Some by (simp_all add: disconnect_one_def pw)
    have "in_order (uses ?t) (me_clock env w)"
      using in_order_added [OF in_order_dpop [of "mp_conns p" "me_clock env w" key] order_refl] assms(3)
      by (simp add: orderly_def pw touch_conn_def uses_def)
    moreover have "pool_ok env ?t" using assms(3) Some by (intro touch_conn_ok) (simp_all add: orderly_def pw)
    ultimately have "orderly env (?t, w)" by (simp add: orderly_def)
    with open_client_orderly [OF assms(1,2) gone, of r pw'] assms(3,4) show ?thesis
      by (auto simp: get_client_def pw Some split: if_splits)
  qed
qed

lemma get_tool_schemas_orderly:
  "0 < me_max env \<Longrightarrow> clock_forward env \<Longrightarrow> orderly env pw \<Longrightarrow> get_tool_schemas env key pw = Some (ts, pw') \<Longrightarrow> orderly env pw'"
  by (auto simp: get_tool_schemas_def split: option.splits dest: get_client_orderly)

lemma client_schemas_orderly:
  assumes "0 < me_max env" and "clock_forward env"
  shows "orderly env pw \<Longrightarrow> client_schemas env client cfgs acc pw = Some (ts, pw') \<Longrightarrow> orderly env pw'"
proof (induction cfgs arbitrary: acc pw)
  case (Cons cfg cfgs)
  show ?case
  proof (cases "truthy (dget_default cfg ''server_name'' (PStr [])) \<and> enabled cfg")
    case True
    with Cons.prems(2) obtain ts1 pw1 acc1 where
      "get_tool_schemas env (client, server_name_of cfg, ''default'') pw = Some (ts1, pw1)" "client_schemas env client cfgs acc1 pw1 = Some (ts, pw')"
      by (auto split: option.splits prod.splits)
    with Cons.IH [of pw1 acc1] get_tool_schemas_orderly [OF assms Cons.prems(1)] show ?thesis by blast
  next
    case False
    with Cons show ?thesis by auto
  qed
qed simp

lemma disconnect_fold_orderly: "clock_forward env \<Longrightarrow> orderly env pw \<Longrightarrow> orderly env (fold (disconnect_one env) ks pw)"
  by (induction ks arbitrary: pw) (simp_all add: disconnect_orderly)

lemma mcp_step_orderly:
  assumes "0 < me_max env" and "clock_forward env" and "orderly env pw" and "mcp_step env oper pw = Some pw'"
  shows "orderly env pw'"
proof (cases oper)
  case (AllTools client)
  obtain p w where pw: "pw = (p, w)" by (cases pw)
  obtain cfgs w1 where cfgs: "load_all_configs env client p w = (cfgs, w1)" by fastforce
  have "orderly env (p, w1)"
    using assms(3) configs_later [OF assms(2) cfgs] in_order_later by (auto simp: orderly_def pw)
  with client_schemas_orderly [OF assms(1,2)] assms(4) show ?thesis by (auto simp: AllTools pw get_all_client_tools_def cfgs)
next
  case (Refresh key)
  with get_client_orderly [OF assms(1,2) disconnect_orderly [OF assms(2,3), of key], of key] assms(4) show ?thesis by (auto simp: refresh_schemas_def)
next
  case (Configure client cfgs)
  obtain p w where pw: "pw = (p, w)" by (cases pw)
  have "pool_ok env (register_client_config client cfgs p) = pool_ok env p" by (rule pool_ok_conns) (simp add: register_client_config_def)
  moreover have "uses (register_client_config client cfgs p) = uses p" by (simp add: uses_def register_client_config_def)
  ultimately show ?thesis using assms(3,4) by (auto simp: Configure orderly_def pw)
qed (use assms in \<open>auto simp: disconnect_client_def disconnect_all_def disconnect_fold_orderly
    dest: get_client_orderly get_tool_schemas_orderly\<close>)

lemma mcp_run_orderly:
  assumes "0 < me_max env" and "clock_forward env"
  shows "orderly env pw \<Longrightarrow> mcp_run env ops pw = Some pw' \<Longrightarrow> orderly env pw'"
  by (induction ops arbitrary: pw) (auto simp: bind_eq_Some_conv dest: mcp_step_orderly [OF assms])

text \<open>
  While time goes forward, the entries stay in the order of their last use after every history of operations:
  the one that is evicted first is the one used longest ago.
\<close>

theorem eviction_takes_the_least_recently_used:
  assumes "0 < me_max env" and "clock_forward env" and "mcp_run env ops (empty_pool s, w) = Some (p, w')"
    and "mp_conns p = (key, c) # rest"
  shows "fst (evict_oldest env (p, w')) = p\<lparr>mp_conns := rest\<rparr> \<and> (\<forall>(key', c') \<in> set rest. mc_used c \<le> mc_used c') \<and>
    mc_used c \<le> me_clock env w'"
proof -
  have "orderly env (empty_pool s, w)"
    using empty_pool_ok [OF assms(1)] by (simp add: orderly_def empty_pool_def uses_def in_order_def)
  from mcp_run_orderly [OF assms(1,2) this assms(3)] show ?thesis
    using evicted [of "(p, w')" env] by (auto simp: orderly_def uses_def in_order_def pool_ok_def assms(4))
qed

subsection \<open>The tools of a client\<close>

definition default_keys :: "string \<Rightarrow> mcp_key set" where
  "default_keys client = {k. fst k = client \<and> snd (snd k) = ''default''}"

definition pooled :: "('s, 'g) mcp_pool \<times> 'w \<Rightarrow> mcp_key set" where
  "pooled pw = dom (map_of (mp_conns (fst pw)))"

lemma evict_loop_shrinks: "make_room (env :: ('w, 's, 'g) mcp_env) pw = Some pw' \<Longrightarrow> pooled pw' \<subseteq> pooled pw"
  unfolding make_room_def
proof (rule while_option_rule [of "\<lambda>q. pooled q \<subseteq> pooled pw" _ "evict_oldest env" pw pw'])
  fix q :: "('s, 'g) mcp_pool \<times> 'w" assume "pooled q \<subseteq> pooled pw"
  moreover have "pooled (evict_oldest env q) \<subseteq> pooled q"
    by (cases q; cases "mp_conns (fst q)") (auto simp: pooled_def evict_oldest_def disconnect_one_def split: option.splits if_splits)
  ultimately show "pooled (evict_oldest env q) \<subseteq> pooled pw" by blast
qed auto

lemma open_client_keys: "open_client env key pw = Some (r, pw') \<Longrightarrow> pooled pw' \<subseteq> insert key (pooled pw)"
proof -
  assume a: "open_client env key pw = Some (r, pw')"
  obtain client server ns where key: "key = (client, server, ns)" by (cases key)
  obtain p w where pw: "pw = (p, w)" by (cases pw)
  obtain cfg w1 where l: "load_server_config env client server p w = (cfg, w1)" by fastforce
  show ?thesis
  proof (cases "cooling env key pw \<or> cfg = None")
    case True
    with a have "fst pw' = p" by (auto simp: open_client_def key pw l split: if_splits)
    then show ?thesis by (auto simp: pooled_def pw)
  next
    case False
    with a obtain p2 w2 where r: "make_room env (p, w1) = Some (p2, w2)" by (auto simp: open_client_def key pw l split: option.splits)
    have "pooled pw' \<subseteq> insert key (pooled (p2, w2))"
      using a False by (auto simp: open_client_def key pw l r pooled_def split: option.splits prod.splits sum.splits if_splits)
    moreover have "pooled (p, w1) = pooled pw" by (simp add: pooled_def pw)
    ultimately show ?thesis using evict_loop_shrinks [OF r] by blast
  qed
qed

lemma get_client_keys: "get_client env key pw = Some (r, pw') \<Longrightarrow> pooled pw' \<subseteq> insert key (pooled pw)"
proof -
  assume a: "get_client env key pw = Some (r, pw')"
  have "pooled (disconnect_one env key pw) \<subseteq> pooled pw"
    by (cases pw) (auto simp: pooled_def disconnect_one_def split: option.split if_splits)
  then have gone: "pooled pw' \<subseteq> insert key (pooled pw)" if "open_client env key (disconnect_one env key pw) = Some (r, pw')"
    using open_client_keys [OF that] by blast
  have touched: "pooled (touch_conn key c t (fst pw), w) \<subseteq> insert key (pooled pw)" for c t w
    by (rule subsetI) (simp add: pooled_def touch_conn_def domIff split: if_splits)
  consider "pw' = pw" | c t where "pw' = (touch_conn key c t (fst pw), snd pw)"
    | "open_client env key pw = Some (r, pw')" | "open_client env key (disconnect_one env key pw) = Some (r, pw')"
    using a by (auto simp: get_client_def split: if_splits option.splits)
  then show ?thesis
  proof cases
    case 1
    then show ?thesis by blast
  next
    case 2
    then show ?thesis by (simp only: touched)
  next
    case 3
    then show ?thesis by (rule open_client_keys)
  next
    case 4
    then show ?thesis by (rule gone)
  qed
qed

lemma client_schemas_keys: "client_schemas env client cfgs acc pw = Some (ts, pw') \<Longrightarrow> pooled pw' \<subseteq> pooled pw \<union> default_keys client"
proof (induction cfgs arbitrary: acc pw)
  case (Cons cfg cfgs)
  show ?case
  proof (cases "truthy (dget_default cfg ''server_name'' (PStr [])) \<and> enabled cfg")
    case True
    with Cons.prems obtain ts1 pw1 acc1 where one:
      "get_tool_schemas env (client, server_name_of cfg, ''default'') pw = Some (ts1, pw1)" "client_schemas env client cfgs acc1 pw1 = Some (ts, pw')"
      by (auto split: option.splits prod.splits)
    then have "pw1 = pw \<or> (\<exists>r. get_client env (client, server_name_of cfg, ''default'') pw = Some (r, pw1))"
      by (auto simp: get_tool_schemas_def split: option.splits)
    then have "pooled pw1 \<subseteq> insert (client, server_name_of cfg, ''default'') (pooled pw)" using get_client_keys by blast
    moreover have "(client, server_name_of cfg, ''default'') \<in> default_keys client" by (simp add: default_keys_def)
    ultimately have "pooled pw1 \<subseteq> pooled pw \<union> default_keys client" by blast
    with Cons.IH [OF one(2)] show ?thesis by blast
  next
    case False
    with Cons show ?thesis by auto
  qed
qed simp

text \<open>
  The tools a client is offered always come from its connections in the namespace \<open>default\<close>: asking for
  them opens no other connection, so an agent of another namespace is offered the tools the default
  namespace's credentials give, and its calls then open a second connection with its own.
\<close>

theorem offered_tools_are_those_of_the_default_namespace:
  assumes "get_all_client_tools env client (p, w) = Some (ts, p', w')" and "ns \<noteq> ''default''"
  shows "map_of (mp_conns p) (client, server, ns) = None \<longrightarrow> map_of (mp_conns p') (client, server, ns) = None"
proof -
  obtain cfgs w1 where "client_schemas env client cfgs [] (p, w1) = Some (ts, p', w')"
    using assms(1) by (auto simp: get_all_client_tools_def split: prod.splits)
  from client_schemas_keys [OF this] assms(2) show ?thesis by (auto simp: pooled_def default_keys_def)
qed

subsection \<open>Examples\<close>

text \<open>A world of a clock and the sessions that are open; a server takes one unit of time to start.\<close>

definition demo_mcp :: "int \<Rightarrow> (launch \<Rightarrow> time \<times> nat list \<Rightarrow> nat handshake \<times> time \<times> nat list) \<Rightarrow> (time \<times> nat list, nat, unit) mcp_env" where
  "demo_mcp n start = \<lparr>me_sdk = True, me_max = n, me_ttl = 1800000000, me_managed = False, me_vault = demo_secret_env, me_db = None,
     me_clock = fst, me_open = start, me_close = (\<lambda>s w. (fst w, removeAll s (snd w)))\<rparr>"

definition starts :: "launch \<Rightarrow> time \<times> nat list \<Rightarrow> nat handshake \<times> time \<times> nat list" where
  "starts l w = (Opened (length (snd w)) [\<lparr>mt_name = PStr ''search'', mt_description = PNone, mt_schema = PDict []\<rparr>],
     fst w + 1, length (snd w) # snd w)"

definition jira_config :: details where
  "jira_config = [(''server_name'', PStr ''jira''), (''package'', PStr ''mcp-jira'')]"

definition two_clients :: "(nat, unit) mcp_pool" where
  "two_clients = (empty_pool demo_vault)\<lparr>mp_configs := [(''user:alice'', [jira_config]), (''user:bob'', [jira_config])]\<rparr>"

definition jira_conn :: "string \<Rightarrow> nat \<Rightarrow> time \<Rightarrow> nat mcp_conn" where
  "jira_conn client session t = \<lparr>mc_client = client, mc_server = ''jira'', mc_session = session,
     mc_schemas = [[(''name'', PStr ''search''), (''description'', PNone), (''inputSchema'', PDict [])]], mc_connected = t, mc_used = t\<rparr>"

definition alice_connected :: "(nat, unit) mcp_pool" where
  "alice_connected = two_clients\<lparr>mp_conns := [((''user:alice'', ''jira'', ''default''), jira_conn ''user:alice'' 0 1)]\<rparr>"

lemma demo_may_open:
  "client = ''user:alice'' \<or> client = ''user:bob'' \<Longrightarrow> map_of (mp_conns p) (client, ''jira'', ''default'') = None \<Longrightarrow>
   mp_configs p = mp_configs two_clients \<Longrightarrow> mp_cooldowns p = [] \<Longrightarrow> 0 \<le> fst w \<Longrightarrow>
   may_open (demo_mcp n start) (client, ''jira'', ''default'') p w jira_config w"
  by (auto simp: may_open_def demo_mcp_def cooling_def load_server_config_def load_all_configs_def two_clients_def server_config_def
      jira_config_def enabled_def dget_default_def)

lemma demo_launch:
  "launch_of (demo_mcp n start) t client ns jira_config s =
     (Inr (Some \<lparr>la_command = ''uvx'', la_args = [PStr ''mcp-jira''], la_env = []\<rparr>), s)"
  by (simp add: launch_of_def jira_config_def dget_default_def demo_mcp_def resolve_env_def dmap_def launch_command_def npx_package_def
      starts_with_def)


theorem evicted_sessions_are_never_closed_witness:
  "get_client (demo_mcp 1 starts) (''user:bob'', ''jira'', ''default'') (alice_connected, (5, [0])) =
     Some (Some 1, two_clients\<lparr>mp_conns := [((''user:bob'', ''jira'', ''default''), jira_conn ''user:bob'' 1 6)]\<rparr>, (6, [1, 0]))"
proof -
  let ?env = "demo_mcp 1 starts"
  have "may_open ?env (''user:bob'', ''jira'', ''default'') alice_connected (5, [0]) jira_config (5, [0])"
    by (rule demo_may_open) (simp_all add: alice_connected_def two_clients_def empty_pool_def)
  moreover have "connect ?env ''user:bob'' ''default'' jira_config (mp_secrets alice_connected) (5, [0]) =
      (Inr (Some (jira_conn ''user:bob'' 1 6)), mp_secrets alice_connected, (6, [1, 0]))"
    unfolding connect_def demo_launch
    by (simp add: demo_mcp_def starts_def jira_conn_def tool_schema_def server_name_of_def jira_config_def dget_default_def py_str_def)
  ultimately show ?thesis
    using evicted_sessions_are_never_closed [where env = ?env and client = "''user:bob''" and server = "''jira''" and ns = "''default''"
        and p = alice_connected and w = "(5, [0])" and cfg = jira_config and ?w1.0 = "(5, [0])" and c = "jira_conn ''user:bob'' 1 6"
        and s = "mp_secrets alice_connected" and ?w2.0 = "(6, [1, 0])", THEN spec, of "me_close ?env"]
    by (simp add: demo_mcp_def alice_connected_def two_clients_def empty_pool_def dict_ok_def jira_conn_def)
qed

theorem pool_without_room_hangs_witness:
  "get_client (demo_mcp 0 starts) (''user:alice'', ''jira'', ''default'') (two_clients, (0, [])) = None"
  using pool_without_room_hangs [where env = "demo_mcp 0 starts" and client = "''user:alice''" and server = "''jira''" and ns = "''default''"
      and p = two_clients and w = "(0, [])" and cfg = jira_config and ?w1.0 = "(0, [])"]
    demo_may_open [of "''user:alice''" two_clients "(0, [])" 0 starts]
  by (simp add: demo_mcp_def two_clients_def empty_pool_def)

text \<open>A server that never finishes its handshake in time, and one that fails.\<close>

definition times_out :: "launch \<Rightarrow> time \<times> nat list \<Rightarrow> nat handshake \<times> time \<times> nat list" where
  "times_out l w = (HandshakeTimedOut, fst w + 45000000, snd w)"

theorem only_exceptions_cool_down_witness:
  "\<exists>p'. get_client (demo_mcp 1 times_out) (''user:alice'', ''jira'', ''default'') (two_clients, (0, [])) = Some (None, p', (45000000, [])) \<and>
     mp_cooldowns p' = []"
  using only_exceptions_cool_down [where env = "demo_mcp 1 times_out" and client = "''user:alice''" and server = "''jira''" and ns = "''default''"
      and p = two_clients and w = "(0, [])" and cfg = jira_config and ?w1.0 = "(0, [])", OF demo_may_open _ _ demo_launch]
  by (simp add: demo_mcp_def two_clients_def empty_pool_def times_out_def)

theorem eviction_takes_the_least_recently_used_witness:
  "fst (evict_oldest (demo_mcp 1 starts) (alice_connected, (1, [0]))) = alice_connected\<lparr>mp_conns := []\<rparr>"
proof -
  let ?env = "demo_mcp 1 starts" and ?key = "(''user:alice'', ''jira'', ''default'')"
  have "connect ?env ''user:alice'' ''default'' jira_config (mp_secrets two_clients) (0, []) =
      (Inr (Some (jira_conn ''user:alice'' 0 1)), mp_secrets two_clients, (1, [0]))"
    unfolding connect_def demo_launch
    by (simp add: demo_mcp_def starts_def jira_conn_def tool_schema_def server_name_of_def jira_config_def dget_default_def py_str_def)
  moreover have "make_room ?env (two_clients, (0, [])) = Some (two_clients, (0, []))"
    using room [of ?env two_clients "(0, [])"] by (simp add: demo_mcp_def two_clients_def empty_pool_def)
  ultimately have "get_client ?env ?key (two_clients, (0, [])) = Some (Some 0, alice_connected, (1, [0]))"
    using get_client_opens [OF demo_may_open, of "''user:alice''" two_clients "(0, [])" 1 starts]
    by (simp add: alice_connected_def two_clients_def empty_pool_def jira_conn_def)
  then have history: "mcp_run ?env [Configure ''user:alice'' [jira_config], Configure ''user:bob'' [jira_config], Get ?key] (empty_pool demo_vault, (0, [])) =
      Some (alice_connected, (1, [0]))"
    by (simp add: two_clients_def register_client_config_def empty_pool_def)
  have forward: "clock_forward ?env" by (simp add: clock_forward_def demo_mcp_def starts_def)
  have "0 < me_max ?env" by (simp add: demo_mcp_def)
  from eviction_takes_the_least_recently_used [OF this forward history, of ?key "jira_conn ''user:alice'' 0 1" "[]"]
  show ?thesis by (simp add: alice_connected_def)
qed

theorem offered_tools_are_those_of_the_default_namespace_witness:
  "\<exists>ts p' w'. get_all_client_tools (demo_mcp 1 starts) ''user:alice'' (two_clients, (0, [])) = Some (ts, p', w') \<and>
     map_of (mp_conns p') (''user:alice'', ''jira'', ''sales'') = None"
proof -
  let ?env = "demo_mcp 1 starts"
  have "pool_ok ?env two_clients" by (simp add: pool_ok_def two_clients_def empty_pool_def demo_mcp_def)
  moreover have "get_all_client_tools ?env ''user:alice'' (two_clients, (0, [])) = client_schemas ?env ''user:alice'' [jira_config] [] (two_clients, (0, []))"
    by (simp add: get_all_client_tools_def load_all_configs_def two_clients_def)
  ultimately obtain ts p' w' where "get_all_client_tools ?env ''user:alice'' (two_clients, (0, [])) = Some (ts, p', w')"
    using client_schemas_ok [of ?env "(two_clients, (0, []))" "''user:alice''" "[jira_config]" "[]"] by (auto simp: demo_mcp_def)
  with offered_tools_are_those_of_the_default_namespace [OF this, of "''sales''" "''jira''"] show ?thesis
    by (auto simp: two_clients_def empty_pool_def)
qed

end
