(* ===== verification/ToolExecutor.thy ===== *)
theory ToolExecutor
  imports AgentContext McpPool Facade
begin

text \<open>
  The tool executor (\<open>src/src/mcp/tool_executor.py\<close>): the catalogue of the MCP tools, the gates a call passes, its
  dispatch to an in-process handler, a client's or the company's MCP server, and the row it leaves in the audit log.

  The handlers, the sessions of MCP servers, pods and \<open>jsonschema\<close> are the fields of \<open>tenv\<close>; they act on the world
  \<open>'w\<close> of the connection pool.  The time limit on MCP tools is modelled at the call of the
  session.  A result is a value or the text of an exception; \<open>None\<close> is a call that never returns (\<open>McpPool\<close>).
\<close>

subsection \<open>Strings\<close>

text \<open>\<open>s.split("__", n)\<close>.\<close>

fun cut_at_dunder :: "string \<Rightarrow> (string \<times> string) option" where
  "cut_at_dunder [] = None"
| "cut_at_dunder (c # s) = (if starts_with ''__'' (c # s) then Some ([], drop 1 s) else map_option (apfst ((#) c)) (cut_at_dunder s))"

primrec split_dunder :: "nat \<Rightarrow> string \<Rightarrow> string list" where
  "split_dunder 0 s = [s]"
| "split_dunder (Suc n) s = (case cut_at_dunder s of None \<Rightarrow> [s] | Some (a, b) \<Rightarrow> a # split_dunder n b)"

definition tool_family :: "string \<Rightarrow> string" where
  "tool_family name = hd (split_dunder 1 name)"

text \<open>JSON text without escapes beyond ASCII (\<open>ensure_ascii=False\<close>).\<close>

definition raw_char :: "char \<Rightarrow> string" where
  "raw_char c = (if 126 < (of_char c :: nat) then [c] else json_char c)"

primrec json_raw :: "pyval \<Rightarrow> string"
  and json_raw_list :: "pyval list \<Rightarrow> string list"
  and json_raw_items :: "(string \<times> pyval) list \<Rightarrow> string list"
  and json_raw_item :: "string \<times> pyval \<Rightarrow> string" where
  "json_raw PNone = ''null''"
| "json_raw (PBool b) = (if b then ''true'' else ''false'')"
| "json_raw (PInt i) = str_int i"
| "json_raw (PFloat x) = str_float x"
| "json_raw (PStr s) = CHR 0x22 # concat (map raw_char s) @ [CHR 0x22]"
| "json_raw (PList xs) = ''['' @ joined '', '' (json_raw_list xs) @ '']''"
| "json_raw (PDict d) = ''{'' @ joined '', '' (json_raw_items d) @ ''}''"
| "json_raw_list [] = []"
| "json_raw_list (x # xs) = json_raw x # json_raw_list xs"
| "json_raw_items [] = []"
| "json_raw_items (p # d) = json_raw_item p # json_raw_items d"
| "json_raw_item (k, v) = CHR 0x22 # concat (map raw_char k) @ [CHR 0x22] @ '': '' @ json_raw v"

subsection \<open>The arguments in the audit trail\<close>

definition redact_keys :: "string list" where
  "redact_keys = [''token'', ''gh_token'', ''password'', ''secret'', ''api_key'', ''apikey'', ''refresh_token'', ''access_token'',
     ''authorization'', ''credentials'', ''private_key'', ''client_secret'']"

definition sensitive :: "string \<Rightarrow> bool" where
  "sensitive k = list_ex (\<lambda>s. is_substring s (lower k)) redact_keys"

text \<open>The ellipsis, one character.\<close>

definition ellipsis :: string where
  "ellipsis = [CHR 0x85]"

definition max_arg_str :: nat where
  "max_arg_str = 600"

definition max_args_total :: nat where
  "max_args_total = 2000"

definition shortened :: "string \<Rightarrow> string" where
  "shortened s = (if max_arg_str < length s
     then take max_arg_str s @ ellipsis @ ''(+'' @ str_int (int (length s - max_arg_str)) @ '' chars)'' else s)"

text \<open>Only the first twenty entries of a list are kept.\<close>

primrec scrub :: "pyval \<Rightarrow> pyval"
  and scrub_list :: "pyval list \<Rightarrow> pyval list"
  and scrub_items :: "(string \<times> pyval) list \<Rightarrow> (string \<times> pyval) list"
  and scrub_item :: "string \<times> pyval \<Rightarrow> string \<times> pyval" where
  "scrub PNone = PNone"
| "scrub (PBool b) = PBool b"
| "scrub (PInt i) = PInt i"
| "scrub (PFloat x) = PFloat x"
| "scrub (PStr s) = PStr (shortened s)"
| "scrub (PList xs) = PList (take 20 (scrub_list xs))"
| "scrub (PDict d) = PDict (scrub_items d)"
| "scrub_list [] = []"
| "scrub_list (x # xs) = scrub x # scrub_list xs"
| "scrub_items [] = []"
| "scrub_items (p # d) = scrub_item p # scrub_items d"
| "scrub_item (k, v) = (k, if sensitive k then PStr ''***redacted***'' else scrub v)"

definition summarize_tool_args :: "pyval \<Rightarrow> pyval" where
  "summarize_tool_args inp =
     (let v = scrub (case inp of PDict d \<Rightarrow> PDict d | _ \<Rightarrow> PDict [(''value'', inp)]); blob = json_raw v
      in if max_args_total < length blob then PDict [(''_truncated'', PStr (take max_args_total blob @ ellipsis))] else v)"

subsection \<open>State\<close>

text \<open>What a server answers: its content, in chunks of text, of a model that is dumped, or of anything else; or no content.\<close>

datatype chunk = TextChunk string | ModelChunk pyval | OtherChunk string

record mcp_answer =
  ma_content :: "chunk list option"
  ma_error :: bool
  ma_self :: pyval

datatype mcp_call = CallRaised string | CallTimedOut | Called mcp_answer

type_synonym 'w handler = "details \<Rightarrow> details option \<Rightarrow> 'w \<Rightarrow> (string + pyval) \<times> 'w"

record ('w, 's, 'g) tenv =
  xe_kenv :: "'w \<Rightarrow> kenv \<times> 'w"
  xe_pipeline :: bool
  xe_valid :: "pyval \<Rightarrow> details \<Rightarrow> string option"
  xe_handlers :: "(string, 'w handler) dict"
  xe_pod_tools :: "string list"
  xe_pod_running :: "(string \<Rightarrow> bool) option"
  xe_in_pod :: "string \<Rightarrow> string \<Rightarrow> 'w handler"
  xe_clients :: "(string, 's) dict"
  xe_call :: "'s \<Rightarrow> string \<Rightarrow> details \<Rightarrow> 'w \<Rightarrow> mcp_call \<times> 'w"
  xe_mcp :: "('w, 's, 'g) mcp_env"

record ('w, 's, 'g) xstate =
  xs_mcp :: "(string, details list) dict"
  xs_platform :: "details list"
  xs_kernel :: "facade option"
  xs_audit :: "audit_log option"
  xs_pool :: "('s, 'g) mcp_pool option"
  xs_world :: 'w

subsection \<open>The catalogue\<close>

definition mcp_tool_name :: "string \<Rightarrow> string \<Rightarrow> string" where
  "mcp_tool_name server n = ''mcp__'' @ server @ ''__'' @ n"

definition catalogue_entry :: "string \<Rightarrow> pyval \<Rightarrow> details \<Rightarrow> details" where
  "catalogue_entry server n t =
     [(''name'', PStr (mcp_tool_name server (py_str n))), (''description'', dget_default t ''description'' (PStr [])),
      (''input_schema'', dget_default t ''inputSchema'' (dget_default t ''input_schema''
         (PDict [(''type'', PStr ''object''), (''properties'', PDict [])])))]"

text \<open>Schemas are added one by one to a fresh entry; the first without a name raises, and the entry stays as far as it got.\<close>

fun register_schemas :: "string \<Rightarrow> details list \<Rightarrow> (string, details list) dict \<Rightarrow> bool \<times> (string, details list) dict" where
  "register_schemas server [] defs = (True, defs)"
| "register_schemas server (t # ts) defs =
     (case map_of t ''name'' of
        None \<Rightarrow> (False, defs)
      | Some n \<Rightarrow> register_schemas server ts (dmod server (\<lambda>ds. ds @ [catalogue_entry server n t]) defs))"

definition register_mcp_tools :: "string \<Rightarrow> details list \<Rightarrow> (string, details list) dict \<Rightarrow> bool \<times> (string, details list) dict" where
  "register_mcp_tools server ts defs = register_schemas server ts (dset server [] defs)"

definition unregister_mcp_tools :: "string \<Rightarrow> (string, details list) dict \<Rightarrow> (string, details list) dict" where
  "unregister_mcp_tools server defs = dpop server defs"

definition get_mcp_tool_definitions :: "(string, details list) dict \<Rightarrow> details list" where
  "get_mcp_tool_definitions defs = concat (dvals defs)"

definition named_schema :: "string list \<Rightarrow> details list \<Rightarrow> details option" where
  "named_schema ns ts = find (\<lambda>t. dget_default t ''name'' PNone \<in> PStr ` set ns) ts"

definition get_tool_schema :: "string \<Rightarrow> ('w, 's, 'g) xstate \<Rightarrow> details option" where
  "get_tool_schema name st =
     (case named_schema [name] (xs_platform st) of
        Some t \<Rightarrow> Some t
      | None \<Rightarrow>
        if starts_with ''mcp__'' name
        then (case split_dunder 2 name of
                [_, server, meth] \<Rightarrow> named_schema [name, meth] (dget_default (xs_mcp st) server [])
              | _ \<Rightarrow> None)
        else None)"

definition tool_failure :: "string \<Rightarrow> pyval" where
  "tool_failure msg = PDict [(''success'', PBool False), (''error'', PStr msg)]"

text \<open>The input is validated only against a schema with the key \<open>inputSchema\<close>.\<close>

definition validation_error :: "('w, 's, 'g) tenv \<Rightarrow> string \<Rightarrow> details \<Rightarrow> ('w, 's, 'g) xstate \<Rightarrow> string option" where
  "validation_error env name inp st =
     (case get_tool_schema name st of
        None \<Rightarrow> None
      | Some t \<Rightarrow> if t = [] then None
                else (case map_of t ''inputSchema'' of None \<Rightarrow> None | Some sch \<Rightarrow> xe_valid env sch inp))"

subsection \<open>Admission\<close>

definition ctx_get :: "details option \<Rightarrow> string \<Rightarrow> pyval" where
  "ctx_get ctx k = (case ctx of None \<Rightarrow> PNone | Some c \<Rightarrow> dget_default c k PNone)"

definition already_admitted :: "details option \<Rightarrow> bool" where
  "already_admitted ctx = truthy (ctx_get ctx ''_kernel_admitted'')"

definition caller_of :: "details option \<Rightarrow> string" where
  "caller_of ctx = (if truthy (ctx_get ctx ''agent_id'') then py_str (ctx_get ctx ''agent_id'') else [])"

definition use_pipeline :: "('w, 's, 'g) tenv \<Rightarrow> details option \<Rightarrow> ('w, 's, 'g) xstate \<Rightarrow> bool" where
  "use_pipeline env ctx st = (\<not> already_admitted ctx \<and> xe_pipeline env \<and> xs_kernel st \<noteq> None \<and> caller_of ctx \<noteq> [])"

definition syscall_args :: "details \<Rightarrow> details option \<Rightarrow> details" where
  "syscall_args inp ctx =
     [(''tool_input'', PDict inp),
      (''estimated_cost_usd'', (case ctx of None \<Rightarrow> PFloat 0 | Some c \<Rightarrow> dget_default c ''estimated_cost_usd'' (PFloat 0))),
      (''estimated_tokens'', ctx_get ctx ''estimated_tokens''), (''capability_token'', ctx_get ctx ''capability_token'')]"

definition facade_syscall :: "kenv \<Rightarrow> string \<Rightarrow> string \<Rightarrow> string \<Rightarrow> details \<Rightarrow> stage option \<Rightarrow> facade \<Rightarrow> decision res \<times> facade" where
  "facade_syscall ke vb subj ob args disp f =
     (case kernel_syscall ke vb subj ob args disp (kernel.truncate f) of (d, k) \<Rightarrow> (d, kernel.extend k (kernel.more f)))"

definition refusal :: "decision \<Rightarrow> pyval" where
  "refusal d = PDict [(''success'', PBool False), (''error'', PStr (''Kernel '' @ action_value (d_action d) @ '': '' @ d_reason d)),
     (''decision_action'', PStr (action_value (d_action d)))]"

text \<open>The context with the ticket of the reservation, which nothing in the repository reads again.\<close>

definition park_ticket :: "decision \<Rightarrow> details option \<Rightarrow> details option" where
  "park_ticket d ctx =
     (case ctx of
        None \<Rightarrow> None
      | Some c \<Rightarrow> let t = dget_default (d_details d) ''ticket'' PNone in Some (if truthy t then dset ''budget_ticket'' t c else c))"

definition whitelisted :: "string \<Rightarrow> details option \<Rightarrow> bool" where
  "whitelisted name ctx =
     (case ctx_get ctx ''allowed_tools'' of
        PList ts \<Rightarrow> ts = [] \<or> tool_name_matches name (map py_str ts)
      | _ \<Rightarrow> True)"

text \<open>An exception, a refusal, or passage with the context as it then is.\<close>

type_synonym passage = "(string + (pyval + details option))"

definition pass_whitelist :: "string \<Rightarrow> details option \<Rightarrow> passage" where
  "pass_whitelist name ctx =
     Inr (if whitelisted name ctx then Inr ctx else Inl (tool_failure (''Tool '' @ quoted name @ '' not in agent allowed tools'')))"

definition admission :: "('w, 's, 'g) tenv \<Rightarrow> string \<Rightarrow> details \<Rightarrow> details option \<Rightarrow> ('w, 's, 'g) xstate \<Rightarrow> passage \<times> ('w, 's, 'g) xstate" where
  "admission env name inp ctx st =
     (if already_admitted ctx then (Inr (Inr ctx), st)
      else (case xs_kernel st of
        None \<Rightarrow> (pass_whitelist name ctx, st)
      | Some f \<Rightarrow>
        if caller_of ctx = [] then (pass_whitelist name ctx, st)
        else (case xe_kenv env (xs_world st) of
          (ke, w) \<Rightarrow>
            if xe_pipeline env
            then (case facade_syscall ke ''tool.call'' (caller_of ctx) name (syscall_args inp ctx) None f of
                    (Inl e, f1) \<Rightarrow> (Inl (exn_text e), st\<lparr>xs_kernel := Some f1, xs_world := w\<rparr>)
                  | (Inr d, f1) \<Rightarrow> (Inr (if d_action d = Allow then Inr (park_ticket d ctx) else Inl (refusal d)),
                       st\<lparr>xs_kernel := Some f1, xs_world := w\<rparr>))
            else (case facade_check_tool_call ke (caller_of ctx) name (PDict inp) None f of
                    (Inl e, f1) \<Rightarrow> (Inl (exn_text e), st\<lparr>xs_kernel := Some f1, xs_world := w\<rparr>)
                  | (Inr d, f1) \<Rightarrow> (if denied d then Inr (Inl (tool_failure (''Kernel denied: '' @ d_reason d))) else pass_whitelist name ctx,
                       st\<lparr>xs_kernel := Some f1, xs_world := w\<rparr>)))))"

subsection \<open>Dispatch\<close>

definition tool_timeout_text :: "string \<Rightarrow> string" where
  "tool_timeout_text name = ''Tool '' @ name @ '' timed out after 120s''"

definition chunk_text :: "chunk \<Rightarrow> string" where
  "chunk_text c = (case c of TextChunk s \<Rightarrow> s | ModelChunk v \<Rightarrow> json_dumps v | OtherChunk s \<Rightarrow> s)"

definition flatten :: "mcp_answer \<Rightarrow> bool \<times> pyval" where
  "flatten r = (\<not> ma_error r, case ma_content r of None \<Rightarrow> ma_self r | Some cs \<Rightarrow> PStr (joined [CHR 0x0A] (map chunk_text cs)))"

definition answer_value :: "mcp_answer \<Rightarrow> pyval" where
  "answer_value r = PDict [(''success'', PBool (fst (flatten r))), (''result'', snd (flatten r))]"

text \<open>A call of a session: a value, or nothing when the time limit struck.\<close>

definition call_session :: "('w, 's, 'g) tenv \<Rightarrow> 's \<Rightarrow> string \<Rightarrow> details \<Rightarrow> 'w \<Rightarrow> pyval option \<times> 'w" where
  "call_session env session meth inp w =
     (case xe_call env session meth inp w of
        (CallRaised e, w1) \<Rightarrow> (Some (tool_failure e), w1)
      | (CallTimedOut, w1) \<Rightarrow> (None, w1)
      | (Called r, w1) \<Rightarrow> (Some (answer_value r), w1))"

definition not_connected :: "('w, 's, 'g) tenv \<Rightarrow> string \<Rightarrow> string" where
  "not_connected env server = ''MCP server '' @ quoted server @ '' not connected. Available: '' @
     (if xe_clients env = [] then ''none'' else repr_strs (dkeys (xe_clients env)))"

definition company_call :: "('w, 's, 'g) tenv \<Rightarrow> string \<Rightarrow> string \<Rightarrow> details \<Rightarrow> ('w, 's, 'g) xstate \<Rightarrow> pyval option \<times> ('w, 's, 'g) xstate" where
  "company_call env server meth inp st =
     (case map_of (xe_clients env) server of
        None \<Rightarrow> (Some (tool_failure (not_connected env server)), st)
      | Some session \<Rightarrow> (case call_session env session meth inp (xs_world st) of (v, w) \<Rightarrow> (v, st\<lparr>xs_world := w\<rparr>)))"

text \<open>The catalogue learns the tools of a client's server the first time it is called.\<close>

definition learn_schemas :: "('w, 's, 'g) tenv \<Rightarrow> mcp_key \<Rightarrow> ('w, 's, 'g) xstate \<Rightarrow> ('s, 'g) mcp_pool \<times> 'w \<Rightarrow> ('w, 's, 'g) xstate option" where
  "learn_schemas env key st pw =
     (case map_of (xs_mcp st) (fst (snd key)) of
        Some _ \<Rightarrow> Some (st\<lparr>xs_pool := Some (fst pw), xs_world := snd pw\<rparr>)
      | None \<Rightarrow>
        map_option (\<lambda>(ts, p, w). st\<lparr>xs_mcp := (if ts = [] then xs_mcp st else snd (register_mcp_tools (fst (snd key)) ts (xs_mcp st))),
            xs_pool := Some p, xs_world := w\<rparr>)
          (get_tool_schemas (xe_mcp env) key pw))"

definition ctx_namespace :: "details option \<Rightarrow> string" where
  "ctx_namespace ctx = (if truthy (ctx_get ctx ''namespace'') then py_str (ctx_get ctx ''namespace'') else ''default'')"

definition execute_mcp_tool :: "('w, 's, 'g) tenv \<Rightarrow> string \<Rightarrow> details \<Rightarrow> details option \<Rightarrow> ('w, 's, 'g) xstate \<Rightarrow>
    (pyval option \<times> ('w, 's, 'g) xstate) option" where
  "execute_mcp_tool env name inp ctx st =
     (case split_dunder 2 name of
        [_, server, meth] \<Rightarrow>
          (case xs_pool st of
             None \<Rightarrow> Some (company_call env server meth inp st)
           | Some p \<Rightarrow>
             if \<not> truthy (ctx_get ctx ''client_id'') then Some (company_call env server meth inp st)
             else (let key = (py_str (ctx_get ctx ''client_id''), server, ctx_namespace ctx) in
               case get_client (xe_mcp env) key (p, xs_world st) of
                 None \<Rightarrow> None
               | Some (None, p1, w1) \<Rightarrow> Some (company_call env server meth inp (st\<lparr>xs_pool := Some p1, xs_world := w1\<rparr>))
               | Some (Some session, pw1) \<Rightarrow>
                   map_option (\<lambda>st1. case call_session env session meth inp (xs_world st1) of (v, w) \<Rightarrow> (v, st1\<lparr>xs_world := w\<rparr>))
                     (learn_schemas env key st pw1)))
      | _ \<Rightarrow> Some (Some (tool_failure (''Invalid MCP tool name: '' @ name)), st))"

definition has_key :: "string \<Rightarrow> pyval \<Rightarrow> bool" where
  "has_key k v = (case v of PDict d \<Rightarrow> map_of d k \<noteq> None | _ \<Rightarrow> False)"

definition handler_value :: "string + pyval \<Rightarrow> pyval" where
  "handler_value r =
     (case r of Inl e \<Rightarrow> tool_failure e
      | Inr v \<Rightarrow> if has_key ''success'' v then v else PDict [(''success'', PBool True), (''result'', v)])"

definition in_pod :: "('w, 's, 'g) tenv \<Rightarrow> string \<Rightarrow> details option \<Rightarrow> bool" where
  "in_pod env name ctx = (caller_of ctx \<noteq> [] \<and> name \<in> set (xe_pod_tools env) \<and>
     (case xe_pod_running env of None \<Rightarrow> False | Some running \<Rightarrow> running (caller_of ctx)))"

definition dispatch_tool :: "('w, 's, 'g) tenv \<Rightarrow> string \<Rightarrow> details \<Rightarrow> details option \<Rightarrow> ('w, 's, 'g) xstate \<Rightarrow>
    ((string + pyval) \<times> ('w, 's, 'g) xstate) option" where
  "dispatch_tool env name inp ctx st =
     (if in_pod env name ctx
      then (case xe_in_pod env (caller_of ctx) name inp ctx (xs_world st) of (r, w) \<Rightarrow> Some (r, st\<lparr>xs_world := w\<rparr>))
      else case map_of (xe_handlers env) name of
        Some h \<Rightarrow> (case h inp ctx (xs_world st) of (r, w) \<Rightarrow> Some (Inr (handler_value r), st\<lparr>xs_world := w\<rparr>))
      | None \<Rightarrow>
        if starts_with ''mcp__'' name
        then map_option (\<lambda>(v, st1). (Inr (case v of None \<Rightarrow> tool_failure (tool_timeout_text name) | Some v \<Rightarrow> v), st1))
               (execute_mcp_tool env name inp ctx st)
        else Some (Inr (tool_failure (''Unknown tool: '' @ name)), st))"

subsection \<open>The audit row of a call\<close>

definition dev_tool :: "string \<Rightarrow> bool" where
  "dev_tool name = (tool_family name \<in> {''code'', ''shell'', ''git'', ''gh''})"

definition field_of :: "pyval \<Rightarrow> string \<Rightarrow> pyval" where
  "field_of v k = (case v of PDict d \<Rightarrow> dget_default d k PNone | _ \<Rightarrow> PNone)"

definition is_dict_value :: "pyval \<Rightarrow> bool" where
  "is_dict_value v = (case v of PDict _ \<Rightarrow> True | _ \<Rightarrow> False)"

definition audit_outcome :: "string \<Rightarrow> pyval \<Rightarrow> string" where
  "audit_outcome name result =
     (if dev_tool name \<and> field_of (field_of result ''result'') ''ok'' = PBool False then ''failed''
      else if is_dict_value result \<and> truthy (case result of PDict d \<Rightarrow> dget_default d ''success'' (PBool True) | _ \<Rightarrow> PNone)
      then ''success'' else ''denied'')"

definition tail_of :: "pyval \<Rightarrow> pyval" where
  "tail_of v = (case v of PStr s \<Rightarrow> if s = [] then PNone else PStr (drop (length s - 2000) s) | _ \<Rightarrow> PNone)"

definition row :: "string \<Rightarrow> pyval \<Rightarrow> details" where
  "row k v = (if truthy v then [(k, v)] else [])"

definition dev_details :: "string \<Rightarrow> details \<Rightarrow> pyval \<Rightarrow> details" where
  "dev_details name inp result =
     (let inner = field_of result ''result''; rc = field_of inner ''returncode''
      in row ''stdout_tail'' (tail_of (field_of inner ''stdout'')) @ row ''stderr_tail'' (tail_of (field_of inner ''stderr'')) @
         (case field_of inner ''files_changed'' of PList fs \<Rightarrow> row ''files_changed'' (PList (take 25 fs)) | _ \<Rightarrow> []) @
         row ''pr_url'' (field_of inner ''pr_url'') @ (if rc = PNone then [] else [(''returncode'', rc)]) @
         row ''cwd'' (let c = dget_default inp ''cwd'' PNone in if truthy c then c else dget_default inp ''repo_dir'' PNone) @
         (if name = ''shell__exec'' then row ''cmd'' (dget_default inp ''cmd'' PNone) else []))"

definition audit_details :: "string \<Rightarrow> string \<Rightarrow> int \<Rightarrow> details \<Rightarrow> pyval \<Rightarrow> details" where
  "audit_details caller name ms inp result =
     [(''agent_id'', PStr caller), (''duration_ms'', PInt ms), (''args'', summarize_tool_args (PDict inp)), (''error'', field_of result ''error'')] @
     (if dev_tool name then dev_details name inp result else [])"

definition audit_tool_call :: "('w, 's, 'g) tenv \<Rightarrow> string \<Rightarrow> details \<Rightarrow> details option \<Rightarrow> time \<Rightarrow> pyval \<Rightarrow> ('w, 's, 'g) xstate \<Rightarrow> ('w, 's, 'g) xstate" where
  "audit_tool_call env name inp ctx t0 result st =
     (case (xs_audit st, caller_of ctx) of
        (Some al, c # cs) \<Rightarrow>
          (case xe_kenv env (xs_world st) of (ke, w) \<Rightarrow>
             (case audit_record_kw (e_digest ke) (e_entry_id ke) (e_now ke) ''tool.call''
                 [(''actor'', PStr (c # cs)), (''resource_type'', PStr ''tool''), (''resource_id'', PStr name), (''outcome'', PStr (audit_outcome name result)),
                  (''details'', PDict (audit_details (c # cs) name ((e_now ke - t0) div 1000) inp result))] al of
                Inl _ \<Rightarrow> st\<lparr>xs_world := w\<rparr>
              | Inr al1 \<Rightarrow> st\<lparr>xs_audit := Some al1, xs_world := w\<rparr>))
      | _ \<Rightarrow> st)"

subsection \<open>Executing a tool\<close>

text \<open>The result, the context as the call leaves it, and the state.\<close>

type_synonym ('w, 's, 'g) executed = "((string + pyval) \<times> details option \<times> ('w, 's, 'g) xstate) option"

definition run_admitted :: "('w, 's, 'g) tenv \<Rightarrow> string \<Rightarrow> details \<Rightarrow> details option \<Rightarrow> ('w, 's, 'g) xstate \<Rightarrow> ('w, 's, 'g) executed" where
  "run_admitted env name inp ctx st =
     (case xe_kenv env (xs_world st) of (ke, w) \<Rightarrow>
        (case dispatch_tool env name inp ctx (st\<lparr>xs_world := w\<rparr>) of
           None \<Rightarrow> None
         | Some (Inl e, st1) \<Rightarrow> Some (Inl e, ctx, st1)
         | Some (Inr v, st1) \<Rightarrow> Some (Inr v, ctx, audit_tool_call env name inp ctx (e_now ke) v st1)))"

definition execute :: "('w, 's, 'g) tenv \<Rightarrow> string \<Rightarrow> details \<Rightarrow> details option \<Rightarrow> ('w, 's, 'g) xstate \<Rightarrow> ('w, 's, 'g) executed" where
  "execute env name inp ctx st =
     (case validation_error env name inp st of
        Some e \<Rightarrow> Some (Inr (tool_failure (''Input validation failed: '' @ e)), ctx, st)
      | None \<Rightarrow>
        (case admission env name inp ctx st of
           (Inl e, st1) \<Rightarrow> Some (Inl e, ctx, st1)
         | (Inr (Inl refused), st1) \<Rightarrow> Some (Inr refused, ctx, st1)
         | (Inr (Inr ctx1), st1) \<Rightarrow> run_admitted env name inp ctx1 st1))"

subsection \<open>What the audit row tells of the arguments\<close>

text \<open>The arguments without the values of sensitive keys.\<close>

primrec masked :: "pyval \<Rightarrow> pyval"
  and masked_list :: "pyval list \<Rightarrow> pyval list"
  and masked_items :: "(string \<times> pyval) list \<Rightarrow> (string \<times> pyval) list"
  and masked_item :: "string \<times> pyval \<Rightarrow> string \<times> pyval" where
  "masked PNone = PNone"
| "masked (PBool b) = PBool b"
| "masked (PInt i) = PInt i"
| "masked (PFloat x) = PFloat x"
| "masked (PStr s) = PStr s"
| "masked (PList xs) = PList (masked_list xs)"
| "masked (PDict d) = PDict (masked_items d)"
| "masked_list [] = []"
| "masked_list (x # xs) = masked x # masked_list xs"
| "masked_items [] = []"
| "masked_items (p # d) = masked_item p # masked_items d"
| "masked_item (k, v) = (k, if sensitive k then PNone else masked v)"

lemma scrub_list_map: "scrub_list xs = map scrub xs" "masked_list xs = map masked xs"
  by (induction xs) simp_all

lemma scrub_items_map: "scrub_items d = map scrub_item d" "masked_items d = map masked_item d"
  by (induction d) simp_all

lemmas scrub_maps = scrub_list_map scrub_items_map

lemma scrub_masked: "scrub (masked v) = scrub v"
proof (induction v)
  case (PDict d)
  have "scrub_item (masked_item (k, v)) = scrub_item (k, v)" if "(k, v) \<in> set d" for k v
    using PDict.IH [OF that] by simp
  then show ?case by (auto simp: scrub_maps)
next
  case (PList xs)
  then have "map scrub (map masked xs) = map scrub xs" by simp
  then show ?case by (simp only: masked.simps scrub.simps scrub_list_map)
qed simp_all

lemma summary_of_masked: "summarize_tool_args (masked (PDict d)) = summarize_tool_args (PDict d)"
  using scrub_masked [of "PDict d"] by (simp add: summarize_tool_args_def)

text \<open>C34. 
  The arguments reach the audit trail only without the values of sensitive keys, at any depth: calls that
  differ only there leave the same summary.
\<close>

theorem secrets_stay_out_of_the_summary:
  assumes "masked (PDict d) = masked (PDict d')"
  shows "summarize_tool_args (PDict d) = summarize_tool_args (PDict d')"
  using assms summary_of_masked by metis

theorem secrets_stay_out_of_the_summary_witness:
  "summarize_tool_args (PDict [(''auth'', PDict [(''Access_Token'', PStr ''abc'')]), (''q'', PStr ''x'')]) =
   summarize_tool_args (PDict [(''auth'', PDict [(''Access_Token'', PStr ''xyz'')]), (''q'', PStr ''x'')])"
proof -
  have "sensitive ''Access_Token''" by code_simp
  then show ?thesis
    by (intro secrets_stay_out_of_the_summary) simp
qed

text \<open>The row of a shell command repeats the whole command, whatever it contains and however long it is.\<close>

lemma shell_rows_repeat_the_command:
  "dget_default inp ''cmd'' PNone = PStr (c # cs) \<Longrightarrow> (''cmd'', PStr (c # cs)) \<in> set (audit_details caller ''shell__exec'' ms inp result)"
  by (simp add: audit_details_def dev_details_def dev_tool_def tool_family_def starts_with_def row_def Let_def)

subsection \<open>The name of an MCP tool\<close>

lemma cut_at_dunder_append:
  "\<not> is_substring ''__'' (a @ ''_'') \<Longrightarrow> cut_at_dunder (a @ ''__'' @ b) = Some (a, b)"
proof (induction a)
  case Nil
  then show ?case by (simp add: starts_with_def)
next
  case (Cons c a)
  from Cons.prems have no: "\<not> is_substring ''__'' (a @ ''_'')" "\<not> starts_with ''__'' (c # a @ ''_'')" by auto
  have "\<not> starts_with ''__'' (c # a @ ''__'' @ b)" using no(2) by (cases a) (auto simp: starts_with_def)
  with Cons.IH [OF no(1)] show ?case by simp
qed

lemma cut_at_dunder_first:
  "is_substring ''__'' (a @ ''_'') \<Longrightarrow> \<exists>x y. cut_at_dunder (a @ ''__'' @ b) = Some (x, y) \<and> length x < length a"
proof (induction a)
  case Nil
  then show ?case by (simp add: starts_with_def)
next
  case (Cons c a)
  show ?case
  proof (cases "starts_with ''__'' (c # a @ ''__'' @ b)")
    case True
    then show ?thesis by simp
  next
    case False
    then have "\<not> starts_with ''__'' (c # a @ ''_'')" by (cases a) (auto simp: starts_with_def)
    with Cons.prems have "is_substring ''__'' (a @ ''_'')" by simp
    with Cons.IH False show ?thesis by auto
  qed
qed

lemma split_mcp_name:
  "split_dunder 2 (mcp_tool_name server n) =
     (case cut_at_dunder (server @ ''__'' @ n) of None \<Rightarrow> [''mcp'', server @ ''__'' @ n] | Some (a, b) \<Rightarrow> [''mcp'', a, b])"
  by (simp add: mcp_tool_name_def numeral_2_eq_2 starts_with_def split: option.split prod.split)

text \<open>C36. 
  A call of an advertised tool reaches the server and the tool it was advertised for exactly when the name of
  the server has no two underscores in a row and does not end in one; the name of the tool does not matter.
\<close>

theorem mcp_names_reach_their_server:
  "split_dunder 2 (mcp_tool_name server n) = [''mcp'', server, n] \<longleftrightarrow> \<not> is_substring ''__'' (server @ ''_'')"
proof (cases "is_substring ''__'' (server @ ''_'')")
  case True
  then obtain x y where "cut_at_dunder (server @ ''__'' @ n) = Some (x, y)" "length x < length server"
    using cut_at_dunder_first [of server n] by blast
  with True show ?thesis by (auto simp: split_mcp_name)
next
  case False
  then show ?thesis by (simp add: split_mcp_name cut_at_dunder_append [of server n, simplified])
qed

subsection \<open>Admission\<close>

text \<open>When the kernel's pipeline lets a tool call through.\<close>

definition kernel_lets :: "kenv \<Rightarrow> string \<Rightarrow> string \<Rightarrow> details \<Rightarrow> kernel \<Rightarrow> bool" where
  "kernel_lets ke caller name args k =
     (license_ok ke (tenant_arg args) \<and>
      (token_ok ke args caller (''tool:'' @ name) ''tool.call'' (k_caps k) = Inr True \<or>
       token_ok ke args caller (''tool:'' @ name) ''tool.call'' (k_caps k) = Inr False \<and>
         map_sum id d_action (perm_tool_call (k_registry k) caller name (arg args ''tool_input'')) = Inr Allow) \<and>
      estimate_ok args \<and> d_action (check_budget (k_registry k) (k_enforcer k) caller (estimate args) (k_budgets k)) = Allow \<and>
      boundary_ok args (k_registry k) caller)"

lemma facade_syscall_decides:
  "\<exists>d f1. facade_syscall ke ''tool.call'' caller name args None f = (Inr d, f1) \<and> (d_action d = Allow \<longleftrightarrow> kernel_lets ke caller name args (kernel.truncate f))"
proof -
  let ?run = "run_pipeline (the_stages ke (k_audit (kernel.truncate f) \<noteq> None) None) (new_syscall ''tool.call'' caller name args, kernel.truncate f)"
  have "fst (kernel_syscall ke ''tool.call'' caller name args None (kernel.truncate f)) = Inr (fst ?run)" by (rule kernel_syscall_decision)
  moreover have "d_action (fst ?run) = Allow \<longleftrightarrow> kernel_lets ke caller name args (kernel.truncate f)"
    using run_pipeline_allowed_iff [where k = "kernel.truncate f" and env = ke and subj = caller and tool = name and args = args]
    by (simp only: kernel_lets_def allowed_def)
  ultimately show ?thesis by (cases "kernel_syscall ke ''tool.call'' caller name args None (kernel.truncate f)") (auto simp: facade_syscall_def)
qed


text \<open>
  With the pipeline switched off, a tool that needs a human's approval runs without it: the
  executor only looks at whether the composite check denies.
\<close>

theorem without_the_pipeline_gated_tools_run:
  assumes "\<not> xe_pipeline env" and "\<not> already_admitted ctx" and "caller_of ctx \<noteq> []" and "xs_kernel st = Some f"
    and "validation_error env name inp st = None" and "xe_kenv env (xs_world st) = (ke, w)" and "whitelisted name ctx"
    and "facade_check_tool_call ke (caller_of ctx) name (PDict inp) None f = (Inr d, f1)" and "needs_human d"
  shows "execute env name inp ctx st = run_admitted env name inp ctx (st\<lparr>xs_kernel := Some f1, xs_world := w\<rparr>)"
  using assms by (simp add: execute_def admission_def pass_whitelist_def denied_def needs_human_def)

text \<open>A call without an agent passes no gate of the kernel; only a whitelist in its context can stop it.\<close>

lemma anonymous_calls_are_ungated:
  "caller_of ctx = [] \<Longrightarrow> validation_error env name inp st = None \<Longrightarrow> whitelisted name ctx \<Longrightarrow>
   execute env name inp ctx st = run_admitted env name inp ctx st"
  by (simp add: execute_def admission_def pass_whitelist_def split: option.split)

lemma engine_calls_are_not_gated_again:
  "validation_error env name inp st = None \<Longrightarrow>
   execute env name inp (Some (dset ''_kernel_admitted'' (PBool True) ctx)) st =
     run_admitted env name inp (Some (dset ''_kernel_admitted'' (PBool True) ctx)) st"
  by (simp add: execute_def admission_def already_admitted_def ctx_get_def)

subsection \<open>The catalogue through the life of the executor\<close>

lemma company_call_frame: "company_call env server meth inp st = (v, st') \<Longrightarrow> xs_mcp st' = xs_mcp st \<and> xs_platform st' = xs_platform st"
  by (auto simp: company_call_def split: option.splits prod.splits)

text \<open>The catalogue stays as it was, or has learned the tools of one server.\<close>

definition learned :: "('w, 's, 'g) xstate \<Rightarrow> ('w, 's, 'g) xstate \<Rightarrow> bool" where
  "learned st st' = (xs_platform st' = xs_platform st \<and>
     (xs_mcp st' = xs_mcp st \<or> (\<exists>server ts. xs_mcp st' = snd (register_mcp_tools server ts (xs_mcp st)))))"

lemma learned_same: "xs_platform st' = xs_platform st \<Longrightarrow> xs_mcp st' = xs_mcp st \<Longrightarrow> learned st st'"
  by (simp add: learned_def)

lemma learned_server:
  "xs_platform st' = xs_platform st \<Longrightarrow> xs_mcp st' = snd (register_mcp_tools server ts (xs_mcp st)) \<Longrightarrow> learned st st'"
  unfolding learned_def by blast

lemma learned_cong: "xs_platform st2 = xs_platform st1 \<Longrightarrow> xs_mcp st2 = xs_mcp st1 \<Longrightarrow> learned st1 st' = learned st2 st'"
  by (simp add: learned_def)

lemma learned_cong2: "xs_platform st2 = xs_platform st1 \<Longrightarrow> xs_mcp st2 = xs_mcp st1 \<Longrightarrow> learned st st1 = learned st st2"
  by (simp add: learned_def)

lemma learn_schemas_learns: "learn_schemas env key st pw = Some st' \<Longrightarrow> learned st st'"
proof -
  assume a: "learn_schemas env key st pw = Some st'"
  then consider "xs_platform st' = xs_platform st" "xs_mcp st' = xs_mcp st"
    | ts where "xs_platform st' = xs_platform st" "xs_mcp st' = snd (register_mcp_tools (fst (snd key)) ts (xs_mcp st))"
    by (auto simp: learn_schemas_def split: option.splits if_splits)
  then show ?thesis by cases (simp_all add: learned_same learned_server)
qed

lemma execute_mcp_tool_learns: "execute_mcp_tool env name inp ctx st = Some (v, st') \<Longrightarrow> learned st st'"
proof -
  assume a: "execute_mcp_tool env name inp ctx st = Some (v, st')"
  consider "st' = st" | server meth st2 where "company_call env server meth inp st2 = (v, st')" "xs_mcp st2 = xs_mcp st" "xs_platform st2 = xs_platform st"
    | key pw st1 where "learn_schemas env key st pw = Some st1" "xs_mcp st' = xs_mcp st1" "xs_platform st' = xs_platform st1"
    using a by (auto simp: execute_mcp_tool_def Let_def case_prod_beta split: list.splits option.splits if_splits)
  then show ?thesis
  proof cases
    case 1
    then show ?thesis by (simp add: learned_same)
  next
    case 2
    then show ?thesis using company_call_frame [OF 2(1)] by (simp add: learned_same)
  next
    case 3
    then show ?thesis using learn_schemas_learns [OF 3(1)] learned_cong2 by metis
  qed
qed

lemma audit_tool_call_frame [simp]:
  "xs_mcp (audit_tool_call env name inp ctx t r st) = xs_mcp st" "xs_platform (audit_tool_call env name inp ctx t r st) = xs_platform st"
  by (simp_all add: audit_tool_call_def split: option.split list.split prod.split sum.split)

lemma dispatch_tool_learns: "dispatch_tool env name inp ctx st = Some (r, st') \<Longrightarrow> learned st st'"
  by (auto simp: dispatch_tool_def split: if_splits option.splits prod.splits dest: execute_mcp_tool_learns) (simp_all add: learned_def)

lemma run_admitted_learns: "run_admitted env name inp ctx st = Some (r, c, st') \<Longrightarrow> learned st st'"
proof -
  assume a: "run_admitted env name inp ctx st = Some (r, c, st')"
  obtain ke w where k: "xe_kenv env (xs_world st) = (ke, w)" by (cases "xe_kenv env (xs_world st)")
  from a obtain r1 st1 where "dispatch_tool env name inp ctx (st\<lparr>xs_world := w\<rparr>) = Some (r1, st1)"
    "xs_mcp st' = xs_mcp st1" "xs_platform st' = xs_platform st1"
    by (auto simp: run_admitted_def k split: option.splits sum.splits)
  with dispatch_tool_learns [of env name inp ctx "st\<lparr>xs_world := w\<rparr>" r1 st1] show ?thesis by (simp add: learned_def)
qed

lemma admission_frame: "admission env name inp ctx st = (p, st1) \<Longrightarrow> xs_mcp st1 = xs_mcp st \<and> xs_platform st1 = xs_platform st"
  by (auto simp: admission_def split: if_splits option.splits prod.splits sum.splits)

lemma execute_learns: "execute env name inp ctx st = Some (r, c, st') \<Longrightarrow> learned st st'"
proof -
  assume a: "execute env name inp ctx st = Some (r, c, st')"
  obtain p st1 where adm: "admission env name inp ctx st = (p, st1)" by fastforce
  note frame = admission_frame [OF adm]
  consider "st' = st" | "st' = st1" | ctx1 where "run_admitted env name inp ctx1 st1 = Some (r, c, st')"
    using a by (auto simp: execute_def adm split: option.splits sum.splits)
  then show ?thesis
  proof cases
    case 3
    then show ?thesis using run_admitted_learns [OF 3] frame learned_cong [of st st1 st'] by simp
  qed (use frame in \<open>simp_all add: learned_same\<close>)
qed

subsection \<open>Validation\<close>

datatype x_op = Run string details "details option" | RegisterServer string "details list" | UnregisterServer string

primrec x_step :: "('w, 's, 'g) tenv \<Rightarrow> x_op \<Rightarrow> ('w, 's, 'g) xstate \<Rightarrow> ('w, 's, 'g) xstate option" where
  "x_step env (Run name inp ctx) st = map_option (\<lambda>(r, c, st'). st') (execute env name inp ctx st)"
| "x_step env (RegisterServer server ts) st = Some (st\<lparr>xs_mcp := snd (register_mcp_tools server ts (xs_mcp st))\<rparr>)"
| "x_step env (UnregisterServer server) st = Some (st\<lparr>xs_mcp := unregister_mcp_tools server (xs_mcp st)\<rparr>)"

primrec x_run :: "('w, 's, 'g) tenv \<Rightarrow> x_op list \<Rightarrow> ('w, 's, 'g) xstate \<Rightarrow> ('w, 's, 'g) xstate option" where
  "x_run env [] st = Some st"
| "x_run env (oper # ops) st = Option.bind (x_step env oper st) (x_run env ops)"

definition no_input_schema :: "(string, details list) dict \<Rightarrow> bool" where
  "no_input_schema defs = (\<forall>k ts. map_of defs k = Some ts \<longrightarrow> (\<forall>t \<in> set ts. map_of t ''inputSchema'' = None))"

lemma register_no_input_schema: "no_input_schema defs \<Longrightarrow> no_input_schema (snd (register_schemas server ts defs))"
proof (induction ts arbitrary: defs)
  case (Cons t ts)
  show ?case
  proof (cases "map_of t ''name''")
    case None
    with Cons.prems show ?thesis by simp
  next
    case (Some n)
    have "no_input_schema (dmod server (\<lambda>ds. ds @ [catalogue_entry server n t]) defs)"
      using Cons.prems by (auto simp: no_input_schema_def catalogue_entry_def)
    with Cons.IH Some show ?thesis by simp
  qed
qed simp

lemma learned_no_input_schema: "learned st st' \<Longrightarrow> no_input_schema (xs_mcp st) \<Longrightarrow> no_input_schema (xs_mcp st')"
proof -
  assume a: "learned st st'" "no_input_schema (xs_mcp st)"
  have "no_input_schema (dset server [] (xs_mcp st))" for server using a(2) by (simp add: no_input_schema_def)
  with a show ?thesis by (auto simp: learned_def register_mcp_tools_def register_no_input_schema)
qed

lemma x_step_frame:
  "x_step env oper st = Some st' \<Longrightarrow> no_input_schema (xs_mcp st) \<Longrightarrow> no_input_schema (xs_mcp st') \<and> xs_platform st' = xs_platform st"
proof (cases oper)
  case (Run name inp ctx)
  assume "x_step env oper st = Some st'" "no_input_schema (xs_mcp st)"
  then show ?thesis by (auto simp: Run learned_def dest: execute_learns intro: learned_no_input_schema)
next
  case (RegisterServer server ts)
  assume a: "x_step env oper st = Some st'" "no_input_schema (xs_mcp st)"
  then have "learned st st'" by (auto simp: RegisterServer intro: learned_server)
  with a show ?thesis by (auto simp: learned_no_input_schema) (simp add: learned_def)
next
  case (UnregisterServer server)
  assume "x_step env oper st = Some st'" "no_input_schema (xs_mcp st)"
  then show ?thesis by (auto simp: UnregisterServer unregister_mcp_tools_def no_input_schema_def split: if_splits)
qed

lemma x_run_frame:
  "x_run env ops st = Some st' \<Longrightarrow> no_input_schema (xs_mcp st) \<Longrightarrow> no_input_schema (xs_mcp st') \<and> xs_platform st' = xs_platform st"
proof (induction ops arbitrary: st)
  case (Cons oper ops)
  then obtain st1 where "x_step env oper st = Some st1" "x_run env ops st1 = Some st'" by (auto simp: bind_eq_Some_conv)
  with x_step_frame [of env oper st st1] Cons.IH [of st1] Cons.prems(2) show ?case by simp
qed simp

lemma catalogue_is_not_validated:
  assumes "no_input_schema (xs_mcp st)" and "xs_platform st = []"
  shows "validation_error env name inp st = None"
proof -
  have "map_of t ''inputSchema'' = None" if "get_tool_schema name st = Some t" for t
    using that assms
    by (auto simp: get_tool_schema_def named_schema_def find_Some_iff no_input_schema_def dget_default_def
        split: if_splits list.splits option.splits)
  then show ?thesis by (auto simp: validation_error_def split: option.splits)
qed

text \<open>C35. 
  No input is ever validated. From the state the platform starts in, after every history of calls and
  registrations, the validation before a call finds nothing to validate against: the catalogue stores a
  schema under \<open>input_schema\<close> and the executor looks for \<open>inputSchema\<close>.
\<close>

theorem inputs_are_never_validated:
  assumes "xs_mcp st0 = []" and "xs_platform st0 = []" and "x_run env ops st0 = Some st"
  shows "validation_error env name inp st = None"
  using x_run_frame [OF assms(3)] catalogue_is_not_validated [of st] assms(1,2) by (simp add: no_input_schema_def)

subsection \<open>A client's tools\<close>

lemma registered:
  "\<forall>t \<in> set ts. map_of t ''name'' \<noteq> None \<Longrightarrow> map_of defs server = Some ds \<Longrightarrow>
   map_of (snd (register_schemas server ts defs)) server = Some (ds @ map (\<lambda>t. catalogue_entry server (the (map_of t ''name'')) t) ts)"
  by (induction ts arbitrary: defs ds) auto

lemma registered_entry:
  assumes "\<forall>t \<in> set ts. map_of t ''name'' \<noteq> None" and "t \<in> set ts" and "map_of t ''name'' = Some n"
  shows "catalogue_entry server n t \<in> set (get_mcp_tool_definitions (snd (register_mcp_tools server ts defs)))"
proof -
  have "map_of (snd (register_mcp_tools server ts defs)) server = Some (map (\<lambda>t. catalogue_entry server (the (map_of t ''name'')) t) ts)"
    using registered [OF assms(1), of "dset server [] defs" server "[]"] by (simp add: register_mcp_tools_def)
  from map_of_SomeD [OF this] show ?thesis
    using assms(2,3) by (force simp: get_mcp_tool_definitions_def)
qed

text \<open>
  The first call a client makes to a server of its own puts that server's tools into the catalogue of the
  whole platform: every agent without a list of tools is shown them from then on, and of another client's own server of that name
  no tool of the same name is shown any more.
\<close>

theorem clients_tools_are_shown_to_everyone:
  assumes "\<not> is_substring ''__'' (server @ ''_'')" and "xs_pool st = Some p" and "truthy (ctx_get ctx ''client_id'')"
    and "map_of (xs_mcp st) server = None"
    and "get_client (xe_mcp env) (py_str (ctx_get ctx ''client_id''), server, ctx_namespace ctx) (p, xs_world st) = Some (Some session, p1, w1)"
    and "map_of (mp_conns p1) (py_str (ctx_get ctx ''client_id''), server, ctx_namespace ctx) = Some c"
    and "\<forall>t \<in> set (mc_schemas c). map_of t ''name'' \<noteq> None" and "schema \<in> set (mc_schemas c)" and "map_of schema ''name'' = Some (PStr n)"
  shows "\<exists>v st'. execute_mcp_tool env (mcp_tool_name server meth) inp ctx st = Some (v, st') \<and>
    (\<exists>t \<in> set (get_mcp_tool_definitions (xs_mcp st')). tool_name t = mcp_tool_name server n \<and>
      t \<in> set (build_tool_definitions (Some \<lparr>ts_custom = custom, ts_mcp = get_mcp_tool_definitions (xs_mcp st'), ts_platform = xs_platform st'\<rparr>) []) \<and>
      append_client_mcp_tools [t] (Some (\<lambda>_. Some [(server, [schema])])) (PStr other) [] = [t])"
proof -
  let ?key = "(py_str (ctx_get ctx ''client_id''), server, ctx_namespace ctx)"
  have name: "split_dunder 2 (mcp_tool_name server meth) = [''mcp'', server, meth]"
    using cut_at_dunder_append [OF assms(1), of meth] by (simp add: split_mcp_name)
  have ne: "mc_schemas c \<noteq> []" using assms(8) by auto
  have learn: "learn_schemas env ?key st (p1, w1) = Some (st\<lparr>xs_mcp := snd (register_mcp_tools server (mc_schemas c) (xs_mcp st)), xs_pool := Some p1, xs_world := w1\<rparr>)"
    using assms(4,6) ne by (simp add: learn_schemas_def get_tool_schemas_def)
  obtain v w2 where v: "call_session env session meth inp w1 = (v, w2)" by fastforce
  let ?st = "st\<lparr>xs_mcp := snd (register_mcp_tools server (mc_schemas c) (xs_mcp st)), xs_pool := Some p1, xs_world := w2\<rparr>"
  have run: "execute_mcp_tool env (mcp_tool_name server meth) inp ctx st = Some (v, ?st)"
    unfolding execute_mcp_tool_def name using assms(2,3,5) by (simp add: Let_def learn v)
  let ?t = "catalogue_entry server (PStr n) schema"
  have t: "?t \<in> set (get_mcp_tool_definitions (xs_mcp ?st))" using registered_entry [OF assms(7-9)] by simp
  moreover have "tool_name ?t = mcp_tool_name server n" by (simp add: tool_name_def catalogue_entry_def py_str_def)
  moreover have "?t \<in> set (build_tool_definitions (Some \<lparr>ts_custom = custom, ts_mcp = get_mcp_tool_definitions (xs_mcp ?st), ts_platform = xs_platform ?st\<rparr>) [])"
    using t by (simp add: build_tool_definitions_def all_tools_def)
  moreover have "append_client_mcp_tools [?t] (Some (\<lambda>_. Some [(server, [schema])])) (PStr other) [] = [?t]"
    using assms(9) by (simp add: append_client_mcp_tools_def add_client_tool_def Let_def client_tool_name_def tool_name_def dget_default_def
        catalogue_entry_def mcp_tool_name_def py_str_def)
  ultimately show ?thesis using run by blast
qed

text \<open>
  When a client's own connection cannot be had (while it cools down, say), its call is answered by the company's server of
  the same name, with the company's credentials.
\<close>

theorem company_server_answers_for_the_client:
  assumes "\<not> is_substring ''__'' (server @ ''_'')" and "xs_pool st = Some p" and "truthy (ctx_get ctx ''client_id'')"
    and "get_client (xe_mcp env) (py_str (ctx_get ctx ''client_id''), server, ctx_namespace ctx) (p, xs_world st) = Some (None, p1, w1)"
    and "map_of (xe_clients env) server = Some session"
  shows "execute_mcp_tool env (mcp_tool_name server meth) inp ctx st =
    (case call_session env session meth inp w1 of (v, w2) \<Rightarrow> Some (v, st\<lparr>xs_pool := Some p1, xs_world := w2\<rparr>))"
proof -
  have name: "split_dunder 2 (mcp_tool_name server meth) = [''mcp'', server, meth]"
    using cut_at_dunder_append [OF assms(1), of meth] by (simp add: split_mcp_name)
  show ?thesis
    unfolding execute_mcp_tool_def name using assms(2-5) by (simp add: Let_def company_call_def split: prod.split)
qed

subsection \<open>Examples\<close>

definition mail_sent :: "(time \<times> nat list) handler" where
  "mail_sent inp ctx w = (Inr (PStr ''sent''), (fst w + 1, snd w))"

definition demo_xenv :: "bool \<Rightarrow> (time \<times> nat list, nat, unit) tenv" where
  "demo_xenv on = \<lparr>xe_kenv = (\<lambda>w. (demo_env, w)), xe_pipeline = on, xe_valid = (\<lambda>sch inp. Some ''invalid''),
     xe_handlers = [(''mail.send'', mail_sent)], xe_pod_tools = [], xe_pod_running = None, xe_in_pod = (\<lambda>a n i c w. (Inr PNone, w)),
     xe_clients = [(''jira'', 99)],
     xe_call = (\<lambda>session n inp w. (Called \<lparr>ma_content = Some [TextChunk (str_int (int session))], ma_error = False, ma_self = PNone\<rparr>, w)),
     xe_mcp = demo_mcp 1 (if on then starts else times_out)\<rparr>"

definition demo_xstate :: "(time \<times> nat list, nat, unit) xstate" where
  "demo_xstate = \<lparr>xs_mcp = [], xs_platform = [], xs_kernel = Some demo_facade, xs_audit = None, xs_pool = Some two_clients, xs_world = (0, [])\<rparr>"

definition ann_ctx :: "details option" where
  "ann_ctx = Some [(''agent_id'', PStr ''a1''), (''client_id'', PStr ''user:alice'')]"

lemma demo_xstate_valid: "validation_error env name inp demo_xstate = None"
  by (rule catalogue_is_not_validated) (simp_all add: demo_xstate_def no_input_schema_def)

lemma ann_ctx_facts:
  "caller_of ann_ctx = ''a1''" "\<not> already_admitted ann_ctx" "whitelisted name ann_ctx" "truthy (ctx_get ann_ctx ''client_id'')"
  "py_str (ctx_get ann_ctx ''client_id'') = ''user:alice''" "ctx_namespace ann_ctx = ''default''"
  by (simp_all add: ann_ctx_def caller_of_def ctx_get_def dget_default_def py_str_def already_admitted_def whitelisted_def ctx_namespace_def)

text \<open>Sending a mail needs approval: with the pipeline it is refused and nothing is sent.\<close>

lemma mail_needs_approval: "map_sum id d_action (perm_tool_call (Some demo_registry) ''a1'' ''mail.send'' inp) = Inr AskHuman"
proof -
  have "reg_get demo_registry ''a1'' = Some demo_agent" by (simp add: demo_registry_def reg_get_def)
  then show ?thesis unfolding perm_tool_call_def option.case by code_simp
qed

lemma demo_check: "\<exists>d f1. facade_check_tool_call demo_env ''a1'' ''mail.send'' inp None demo_facade = (Inr d, f1) \<and> needs_human d"
proof -
  have "gate_global (f_global demo_facade) ''mail.send'' = None" by (simp add: demo_facade_def gate_global_def) code_simp
  moreover obtain d where "perm_tool_call (k_registry demo_facade) ''a1'' ''mail.send'' inp = Inr d" "d_action d = AskHuman"
    using mail_needs_approval [of inp] by (cases "perm_tool_call (Some demo_registry) ''a1'' ''mail.send'' inp") (auto simp: demo_facade_def)
  ultimately have "fst (facade_check_tool_call demo_env ''a1'' ''mail.send'' inp None demo_facade) = Inr d"
    by (simp add: facade_decision composite_gates_def gate_license_def gate_namespace_def gate_permission_def demo_env_def demo_facade_def
        needs_human_def denied_def tool_exit_def)
  with \<open>d_action d = AskHuman\<close> show ?thesis
    by (metis needs_human_def prod.collapse)
qed


theorem without_the_pipeline_gated_tools_run_witness:
  "\<exists>st'. execute (demo_xenv False) ''mail.send'' [] ann_ctx demo_xstate = Some (Inr (PDict [(''success'', PBool True), (''result'', PStr ''sent'')]), ann_ctx, st') \<and>
     xs_world st' = (1, [])"
proof -
  obtain d f1 where "facade_check_tool_call demo_env ''a1'' ''mail.send'' (PDict []) None demo_facade = (Inr d, f1)" "needs_human d"
    using demo_check by blast
  then have "execute (demo_xenv False) ''mail.send'' [] ann_ctx demo_xstate =
      run_admitted (demo_xenv False) ''mail.send'' [] ann_ctx (demo_xstate\<lparr>xs_kernel := Some f1, xs_world := (0, [])\<rparr>)"
    by (intro without_the_pipeline_gated_tools_run [where f = demo_facade and ke = demo_env and d = d])
      (simp_all add: demo_xstate_valid ann_ctx_facts, simp_all add: demo_xenv_def demo_xstate_def)
  then show ?thesis
    by (simp add: run_admitted_def demo_xenv_def dispatch_tool_def in_pod_def mail_sent_def handler_value_def has_key_def
        audit_tool_call_def demo_xstate_def)
qed

theorem inputs_are_never_validated_witness:
  "\<exists>st. x_run (demo_xenv False) [RegisterServer ''jira'' [[(''name'', PStr ''search''), (''inputSchema'', PDict [])]]] demo_xstate = Some st \<and>
     validation_error (demo_xenv False) ''mcp__jira__search'' [] st = None"
proof -
  let ?ops = "[RegisterServer ''jira'' [[(''name'', PStr ''search''), (''inputSchema'', PDict [])]]]"
  obtain st where st: "x_run (demo_xenv False) ?ops demo_xstate = Some st" by simp
  have "xs_mcp demo_xstate = []" "xs_platform demo_xstate = []" by (simp_all add: demo_xstate_def)
  from inputs_are_never_validated [OF this st] st show ?thesis by blast
qed

theorem company_server_answers_for_the_client_witness:
  "\<exists>st'. execute_mcp_tool (demo_xenv False) (mcp_tool_name ''jira'' ''search'') [] ann_ctx demo_xstate =
     Some (Some (PDict [(''success'', PBool True), (''result'', PStr ''99'')]), st')"
proof -
  let ?env = "demo_mcp 1 times_out"
  have "may_open ?env (''user:alice'', ''jira'', ''default'') two_clients (0, []) jira_config (0, [])"
    by (rule demo_may_open) (simp_all add: two_clients_def empty_pool_def)
  note go = get_client_opens [OF this]
  have "make_room ?env (two_clients, (0, [])) = Some (two_clients, (0, []))"
    using room [of ?env two_clients "(0, [])"] by (simp add: demo_mcp_def two_clients_def empty_pool_def)
  moreover have "connect ?env ''user:alice'' ''default'' jira_config (mp_secrets two_clients) (0, []) = (Inr None, mp_secrets two_clients, (45000000, []))"
    unfolding connect_def demo_launch by (simp add: demo_mcp_def times_out_def)
  ultimately have "get_client ?env (''user:alice'', ''jira'', ''default'') (two_clients, (0, [])) = Some (None, two_clients, (45000000, []))"
    by (simp add: go)
  moreover have "\<not> is_substring ''__'' (''jira'' @ ''_'')" by code_simp
  moreover have "str_int 99 = ''99''" by code_simp
  ultimately show ?thesis
    using company_server_answers_for_the_client [where env = "demo_xenv False" and server = "''jira''" and meth = "''search''" and inp = "[]"
        and ctx = ann_ctx and st = demo_xstate and p = two_clients and ?p1.0 = two_clients and ?w1.0 = "(45000000, [])" and session = 99]
    by (simp add: ann_ctx_facts demo_xenv_def demo_xstate_def call_session_def answer_value_def flatten_def chunk_text_def joined_def)
qed

theorem clients_tools_are_shown_to_everyone_witness:
  "\<exists>v st'. execute_mcp_tool (demo_xenv True) (mcp_tool_name ''jira'' ''search'') [] ann_ctx demo_xstate = Some (v, st') \<and>
    (\<exists>t \<in> set (get_mcp_tool_definitions (xs_mcp st')). tool_name t = ''mcp__jira__search'')"
proof -
  let ?env = "demo_mcp 1 starts" and ?key = "(''user:alice'', ''jira'', ''default'')"
  have "may_open ?env ?key two_clients (0, []) jira_config (0, [])"
    by (rule demo_may_open) (simp_all add: two_clients_def empty_pool_def)
  note go = get_client_opens [OF this]
  have "make_room ?env (two_clients, (0, [])) = Some (two_clients, (0, []))"
    using room [of ?env two_clients "(0, [])"] by (simp add: demo_mcp_def two_clients_def empty_pool_def)
  moreover have "connect ?env ''user:alice'' ''default'' jira_config (mp_secrets two_clients) (0, []) =
      (Inr (Some (jira_conn ''user:alice'' 0 1)), mp_secrets two_clients, (1, [0]))"
    unfolding connect_def demo_launch
    by (simp add: demo_mcp_def starts_def jira_conn_def tool_schema_def server_name_of_def jira_config_def dget_default_def py_str_def)
  ultimately have "get_client ?env ?key (two_clients, (0, [])) = Some (Some 0, alice_connected, (1, [0]))"
    by (simp add: go) (simp add: alice_connected_def two_clients_def empty_pool_def jira_conn_def)
  moreover have "\<not> is_substring ''__'' (''jira'' @ ''_'')" by code_simp
  ultimately show ?thesis
    using clients_tools_are_shown_to_everyone [where env = "demo_xenv True" and server = "''jira''" and meth = "''search''" and inp = "[]"
        and ctx = ann_ctx and st = demo_xstate and p = two_clients and ?p1.0 = alice_connected and ?w1.0 = "(1, [0])" and session = 0
        and c = "jira_conn ''user:alice'' 0 1" and n = "''search''"
        and schema = "[(''name'', PStr ''search''), (''description'', PNone), (''inputSchema'', PDict [])]"]
    by (simp add: ann_ctx_facts demo_xenv_def demo_xstate_def alice_connected_def jira_conn_def mcp_tool_name_def) blast
qed

end
