(* ===== verification/Approvals.thy ===== *)
theory Approvals
  imports Facade Decode
begin

text \<open>
  Agent-to-human requests (\<open>src/src/platform/a2h.py\<close>): the humans with their states and delegation
  rules, the requests with their status, the in-memory request store, and the gateway that routes,
  delivers, answers and cancels.  The clock of an operation is \<open>e_now\<close>, read once; identifiers
  are arguments.  The delivery channels of the source write log lines only: what they were handed
  is kept in an outbox.  A deadline is a timestamp as \<open>datetime.fromisoformat\<close> reads it.
\<close>

subsection \<open>Requests\<close>

datatype request_status = RCreated | RPending | RAnswered | RExpired | RCancelled | REscalated | RAutoDelegated

fun request_status_value :: "request_status \<Rightarrow> string" where
  "request_status_value RCreated = ''created''"
| "request_status_value RPending = ''pending''"
| "request_status_value RAnswered = ''answered''"
| "request_status_value RExpired = ''expired''"
| "request_status_value RCancelled = ''cancelled''"
| "request_status_value REscalated = ''escalated''"
| "request_status_value RAutoDelegated = ''auto_delegated''"

definition response_types :: "string list" where
  "response_types = [''choice'', ''approval'', ''text'', ''number'', ''confirm'', ''form'', ''none'']"

definition priority_levels :: "string list" where
  "priority_levels = [''critical'', ''high'', ''medium'', ''low'']"

record human_response =
  hp_value :: pyval
  hp_text :: pyval
  hp_approved :: pyval
  hp_confirmed :: pyval
  hp_fields :: pyval
  hp_metadata :: pyval
  hp_at :: time
  hp_channel :: pyval

definition response_from_dict :: "time \<Rightarrow> details \<Rightarrow> human_response" where
  "response_from_dict now d =
     \<lparr>hp_value = dget_default d ''value'' PNone, hp_text = dget_default d ''text'' (PStr []),
      hp_approved = dget_default d ''approved'' PNone, hp_confirmed = dget_default d ''confirmed'' PNone,
      hp_fields = dget_default d ''fields'' PNone, hp_metadata = dget_default d ''metadata'' (PDict []),
      hp_at = now, hp_channel = dget_default d ''channel'' (PStr ''dashboard'')\<rparr>"

definition response_to_dict :: "human_response \<Rightarrow> details" where
  "response_to_dict r =
     [(''responded_at'', PInt (hp_at r)), (''channel'', hp_channel r)]
     @ (if hp_value r = PNone then [] else [(''value'', hp_value r)])
     @ (if truthy (hp_text r) then [(''text'', hp_text r)] else [])
     @ (if hp_approved r = PNone then [] else [(''approved'', hp_approved r)])
     @ (if hp_confirmed r = PNone then [] else [(''confirmed'', hp_confirmed r)])
     @ (if truthy (hp_fields r) then [(''fields'', hp_fields r)] else [])
     @ (if truthy (hp_metadata r) then [(''metadata'', hp_metadata r)] else [])"

record escalation_level =
  el_target :: string
  el_timeout :: int
  el_priority :: "string option"

record escalation_chain =
  ec_levels :: "escalation_level list"
  ec_current :: nat

definition next_target :: "escalation_chain \<Rightarrow> escalation_level option" where
  "next_target e = (if length (ec_levels e) \<le> ec_current e then None else Some (ec_levels e ! ec_current e))"

definition promote_chain :: "escalation_chain \<Rightarrow> escalation_level option \<times> escalation_chain" where
  "promote_chain e = (let e' = e\<lparr>ec_current := ec_current e + 1\<rparr> in (next_target e', e'))"

record human_request =
  hr_id :: string
  hr_type :: string
  hr_from :: string
  hr_from_name :: string
  hr_from_ns :: string
  hr_to :: string
  hr_to_name :: string
  hr_ns :: string
  hr_question :: string
  hr_response_type :: string
  hr_options :: pyval
  hr_priority :: string
  hr_deadline :: "stamp option"
  hr_sla_hours :: rat
  hr_context :: details
  hr_escalation :: "escalation_chain option"
  hr_status :: request_status
  hr_response :: "human_response option"
  hr_created :: time
  hr_updated :: time

definition escalation_to_dict :: "escalation_chain \<Rightarrow> details" where
  "escalation_to_dict e =
     [(''chain'', PList (map (\<lambda>l. PDict [(''target'', PStr (el_target l)), (''timeout_minutes'', PInt (el_timeout l)),
         (''priority_override'', opt_str (el_priority l))]) (ec_levels e))),
      (''current_level'', PInt (int (ec_current e)))]"

definition request_to_dict :: "human_request \<Rightarrow> details" where
  "request_to_dict r =
     [(''protocol'', PStr ''a2h/v1''), (''id'', PStr (hr_id r)), (''type'', PStr (hr_type r)),
      (''from'', PDict [(''name'', PStr (hr_from_name r)), (''namespace'', PStr (hr_from_ns r)), (''participant_type'', PStr ''agent'')]),
      (''to'', PDict [(''name'', PStr (hr_to_name r)), (''namespace'', PStr (hr_ns r)), (''participant_type'', PStr ''human'')]),
      (''content'', PDict [(''question'', PStr (hr_question r)), (''response_type'', PStr (hr_response_type r)),
         (''options'', hr_options r), (''context'', PDict (hr_context r))]),
      (''priority'', PStr (hr_priority r)), (''deadline'', stamp_json (hr_deadline r)),
      (''status'', PStr (request_status_value (hr_status r))), (''created_at'', PInt (hr_created r)),
      (''updated_at'', PInt (hr_updated r))]
     @ (case hr_response r of None \<Rightarrow> [] | Some x \<Rightarrow> [(''response'', PDict (response_to_dict x))])
     @ (case hr_escalation r of None \<Rightarrow> [] | Some e \<Rightarrow> [(''escalation'', PDict (escalation_to_dict e))])"

text \<open>\<open>timedelta(hours=h)\<close> in microseconds.\<close>

definition micros_of_hours :: "rat \<Rightarrow> int" where
  "micros_of_hours h = half_even (3600000000 * h)"

text \<open>\<open>is_expired\<close>: the comparison of an aware time with a naive one is a \<open>TypeError\<close>, which counts as
  not expired, like a deadline that does not parse.\<close>

definition request_expired :: "time \<Rightarrow> human_request \<Rightarrow> bool" where
  "request_expired now r =
     (case hr_deadline r of
        None \<Rightarrow> False
      | Some (Unparsable s) \<Rightarrow> False
      | Some (Naive e) \<Rightarrow> False
      | Some (Aware e) \<Rightarrow> e < now)"

subsection \<open>Humans\<close>

record human_state =
  hs_accepts :: bool
  hs_queue :: bool
  hs_reroute :: "string option"

definition default_states :: "(string, human_state) dict" where
  "default_states =
     [(''available'', \<lparr>hs_accepts = True, hs_queue = False, hs_reroute = None\<rparr>),
      (''busy'', \<lparr>hs_accepts = False, hs_queue = True, hs_reroute = None\<rparr>),
      (''away'', \<lparr>hs_accepts = False, hs_queue = False, hs_reroute = Some ''delegate''\<rparr>),
      (''offline'', \<lparr>hs_accepts = False, hs_queue = False, hs_reroute = Some ''on_call''\<rparr>)]"

record delegation_rule =
  dr_name :: string
  dr_from_ns :: "string option"
  dr_from_pattern :: "string option"
  dr_response_type :: "string option"
  dr_conditions :: "(string, details) dict"
  dr_auto :: details

record human =
  hu_pid :: string
  hu_name :: string
  hu_ns :: string
  hu_rules :: "delegation_rule list"
  hu_states :: "(string, human_state) dict"
  hu_state :: string
  hu_state_at :: "time option"
  hu_delegate :: "string option"

definition human_qualified :: "human \<Rightarrow> string" where
  "human_qualified h = hu_ns h @ ''/'' @ hu_name h"

definition accepts_requests :: "human \<Rightarrow> bool" where
  "accepts_requests h = (case map_of (hu_states h) (hu_state h) of None \<Rightarrow> True | Some c \<Rightarrow> hs_accepts c)"

definition should_queue :: "human \<Rightarrow> bool" where
  "should_queue h = (case map_of (hu_states h) (hu_state h) of None \<Rightarrow> False | Some c \<Rightarrow> hs_queue c)"

definition reroute_target :: "human \<Rightarrow> string option" where
  "reroute_target h =
     (let t = (case map_of (hu_states h) (hu_state h) of None \<Rightarrow> None | Some c \<Rightarrow> hs_reroute c)
      in if t = Some ''delegate'' then hu_delegate h else t)"

definition set_human_state :: "time \<Rightarrow> string \<Rightarrow> human \<Rightarrow> human" where
  "set_human_state now s h = h\<lparr>hu_state := s, hu_state_at := Some now\<rparr>"

subsection \<open>Delegation rules\<close>

text \<open>A filter of a rule that is absent or empty accepts everything.\<close>

definition set_filter :: "string option \<Rightarrow> string option" where
  "set_filter x = (case x of None \<Rightarrow> None | Some s \<Rightarrow> if s = [] then None else Some s)"

definition bound_ok :: "string \<Rightarrow> (pyfloat \<Rightarrow> pyfloat \<Rightarrow> bool) \<Rightarrow> pyval \<Rightarrow> details \<Rightarrow> bool res" where
  "bound_ok k below v c =
     (case map_of c k of
        None \<Rightarrow> Inr True
      | Some b \<Rightarrow> (case (py_float v, py_float b) of (Some x, Some y) \<Rightarrow> Inr (below x y) | _ \<Rightarrow> Inl ValueError))"

definition condition_ok :: "details \<Rightarrow> string \<times> details \<Rightarrow> bool res" where
  "condition_ok ctx p =
     (case dget_default ctx (fst p) PNone of
        PNone \<Rightarrow> Inr False
      | v \<Rightarrow>
        rbind (bound_ok ''lt'' fl_less v (snd p)) (\<lambda>lt. if \<not> lt then Inr False else
        rbind (bound_ok ''gt'' (\<lambda>x y. fl_less y x) v (snd p)) (\<lambda>gt. if \<not> gt then Inr False else
        Inr (case map_of (snd p) ''eq'' of None \<Rightarrow> True | Some w \<Rightarrow> py_eq v w))))"

primrec conditions_ok :: "details \<Rightarrow> (string \<times> details) list \<Rightarrow> bool res" where
  "conditions_ok ctx [] = Inr True"
| "conditions_ok ctx (p # ps) = rbind (condition_ok ctx p) (\<lambda>ok. if ok then conditions_ok ctx ps else Inr False)"

definition rule_matches :: "delegation_rule \<Rightarrow> human_request \<Rightarrow> bool res" where
  "rule_matches r q =
     (if (case set_filter (dr_from_ns r) of None \<Rightarrow> False | Some ns \<Rightarrow> hr_from_ns q \<noteq> ns) then Inr False
      else if (case set_filter (dr_from_pattern r) of None \<Rightarrow> False
        | Some p \<Rightarrow> \<not> starts_with (rstrip (\<lambda>c. c = CHR ''*'') p) (hr_from_name q)) then Inr False
      else if (case set_filter (dr_response_type r) of None \<Rightarrow> False
        | Some t \<Rightarrow> hr_response_type q \<noteq> t \<and> hr_type q \<noteq> t) then Inr False
      else conditions_ok (hr_context q) (dr_conditions r))"

text \<open>The first rule that matches answers the request.\<close>

primrec auto_delegate :: "time \<Rightarrow> delegation_rule list \<Rightarrow> human_request \<Rightarrow> human_request res" where
  "auto_delegate now [] q = Inr q"
| "auto_delegate now (r # rs) q = rbind (rule_matches r q) (\<lambda>m.
     if m then Inr (q\<lparr>hr_response := Some ((response_from_dict now (dr_auto r))\<lparr>hp_channel := PStr ''auto_delegation''\<rparr>),
                      hr_status := RAutoDelegated, hr_updated := now\<rparr>)
     else auto_delegate now rs q)"

subsection \<open>The request store\<close>

text \<open>\<open>hq_events\<close> says of each request whether its event is set.\<close>

record request_store =
  hq_requests :: "(string, human_request) dict"
  hq_events :: "(string, bool) dict"

definition empty_requests :: request_store where
  "empty_requests = \<lparr>hq_requests = [], hq_events = []\<rparr>"

definition hq_save :: "human_request \<Rightarrow> request_store \<Rightarrow> request_store" where
  "hq_save r s = s\<lparr>hq_requests := dset (hr_id r) r (hq_requests s), hq_events := dset (hr_id r) False (hq_events s)\<rparr>"

text \<open>A pending request past its deadline is marked expired on sight.\<close>

definition expire :: "time \<Rightarrow> human_request \<Rightarrow> human_request" where
  "expire now r = (if hr_status r = RPending \<and> request_expired now r then r\<lparr>hr_status := RExpired\<rparr> else r)"

definition hq_get :: "time \<Rightarrow> string \<Rightarrow> request_store \<Rightarrow> human_request option \<times> request_store" where
  "hq_get now i s =
     (let s' = s\<lparr>hq_requests := dmod i (expire now) (hq_requests s)\<rparr> in (map_of (hq_requests s') i, s'))"

definition hq_list_pending :: "time \<Rightarrow> string option \<Rightarrow> request_store \<Rightarrow> human_request list \<times> request_store" where
  "hq_list_pending now who s =
     (let rs = dmap (expire now) (hq_requests s)
      in (filter (\<lambda>r. hr_status r = RPending \<and> (case set_filter who of None \<Rightarrow> True | Some p \<Rightarrow> hr_to r = p)) (dvals rs),
          s\<lparr>hq_requests := rs\<rparr>))"

definition set_event :: "string \<Rightarrow> request_store \<Rightarrow> request_store" where
  "set_event i s = s\<lparr>hq_events := dmod i (\<lambda>b. True) (hq_events s)\<rparr>"

definition hq_respond :: "time \<Rightarrow> string \<Rightarrow> human_response \<Rightarrow> request_store \<Rightarrow> bool \<times> request_store" where
  "hq_respond now i resp s =
     (case map_of (hq_requests s) i of
        None \<Rightarrow> (False, s)
      | Some r \<Rightarrow>
        if hr_status r \<noteq> RPending then (False, s)
        else if request_expired now r
        then (False, s\<lparr>hq_requests := dset i (r\<lparr>hr_status := RExpired\<rparr>) (hq_requests s)\<rparr>)
        else (True, set_event i (s\<lparr>hq_requests := dset i
               (r\<lparr>hr_response := Some resp, hr_status := RAnswered, hr_updated := now\<rparr>) (hq_requests s)\<rparr>)))"

definition hq_cancel :: "time \<Rightarrow> string \<Rightarrow> string \<Rightarrow> request_store \<Rightarrow> bool \<times> request_store" where
  "hq_cancel now i reason s =
     (case map_of (hq_requests s) i of
        None \<Rightarrow> (False, s)
      | Some r \<Rightarrow>
        if hr_status r \<noteq> RPending then (False, s)
        else (True, set_event i (s\<lparr>hq_requests := dset i
               (r\<lparr>hr_status := RCancelled, hr_context := dset ''cancel_reason'' (PStr reason) (hr_context r),
                  hr_updated := now\<rparr>) (hq_requests s)\<rparr>)))"

text \<open>What \<open>wait_for_response\<close> returns when it wakes: at once if the event is set, else at the timeout.\<close>

definition hq_wait :: "time \<Rightarrow> string \<Rightarrow> request_store \<Rightarrow> human_request option \<times> request_store" where
  "hq_wait now i s = (case map_of (hq_events s) i of None \<Rightarrow> (None, s) | Some _ \<Rightarrow> hq_get now i s)"

subsection \<open>The gateway\<close>

record notification =
  nt_id :: string
  nt_from :: string
  nt_from_name :: string
  nt_from_ns :: string
  nt_to :: string
  nt_to_name :: string
  nt_ns :: string
  nt_message :: string
  nt_severity :: string
  nt_priority :: string
  nt_context :: details
  nt_created :: time

record a2h_gateway =
  g_humans :: "(string, human) dict"
  g_store :: request_store
  g_channels :: "string list"
  g_outbox :: "(string \<times> human_request) list"
  g_notices :: "(string \<times> notification) list"
  g_kernel :: "facade option"

definition register_human :: "human \<Rightarrow> a2h_gateway \<Rightarrow> string \<times> a2h_gateway" where
  "register_human h g = (hu_pid h, g\<lparr>g_humans := dset (hu_pid h) h (g_humans g)\<rparr>)"

definition unregister_human :: "string \<Rightarrow> a2h_gateway \<Rightarrow> bool \<times> a2h_gateway" where
  "unregister_human p g = (map_of (g_humans g) p \<noteq> None, g\<lparr>g_humans := dpop p (g_humans g)\<rparr>)"

definition get_human :: "a2h_gateway \<Rightarrow> string \<Rightarrow> human option" where
  "get_human g p = map_of (g_humans g) p"

definition list_humans :: "a2h_gateway \<Rightarrow> string option \<Rightarrow> human list" where
  "list_humans g ns = (case set_filter ns of None \<Rightarrow> dvals (g_humans g)
     | Some n \<Rightarrow> filter (\<lambda>h. hu_ns h = n) (dvals (g_humans g)))"

text \<open>An exact match, a match up to case and blanks, anyone in the namespace, anyone at all.\<close>

definition resolve_human :: "a2h_gateway \<Rightarrow> string \<Rightarrow> string \<Rightarrow> human option" where
  "resolve_human g ns nm =
     (let hs = dvals (g_humans g)
      in case find (\<lambda>h. hu_name h = nm \<and> hu_ns h = ns) hs of Some h \<Rightarrow> Some h
      | None \<Rightarrow>
        (case find (\<lambda>h. hu_ns h = ns \<and> lower (strip (hu_name h)) = lower (strip nm)) hs of Some h \<Rightarrow> Some h
         | None \<Rightarrow>
           (case filter (\<lambda>h. hu_ns h = ns) hs of h # _ \<Rightarrow> Some h
            | [] \<Rightarrow> (case hs of h # _ \<Rightarrow> Some h | [] \<Rightarrow> None))))"

text \<open>State-aware routing: who gets the request that was addressed to \<open>h\<close>.\<close>

definition route :: "a2h_gateway \<Rightarrow> string \<Rightarrow> human \<Rightarrow> human" where
  "route g ns h =
     (if \<not> accepts_requests h \<and> \<not> should_queue h
      then (case set_filter (reroute_target h) of None \<Rightarrow> h
        | Some t \<Rightarrow> (case resolve_human g ns t of None \<Rightarrow> h
          | Some h' \<Rightarrow> if accepts_requests h' then h' else h))
      else h)"

definition gateway_audit :: "kenv \<Rightarrow> string \<Rightarrow> string \<Rightarrow> details \<Rightarrow> a2h_gateway \<Rightarrow> a2h_gateway" where
  "gateway_audit env actn who dets g =
     (case g_kernel g of None \<Rightarrow> g | Some k \<Rightarrow> g\<lparr>g_kernel := Some (kernel_audit env actn who dets k)\<rparr>)"

text \<open>The arguments of \<open>ask\<close>; a missing or empty deadline is \<open>None\<close>.\<close>

record ask_args =
  aa_from :: string
  aa_from_name :: string
  aa_ns :: string
  aa_name :: string
  aa_question :: string
  aa_response_type :: string
  aa_options :: pyval
  aa_deadline :: "stamp option"
  aa_sla_hours :: rat
  aa_priority :: string
  aa_context :: details
  aa_escalation :: "escalation_chain option"

definition undeliverable_request :: "time \<Rightarrow> string \<Rightarrow> ask_args \<Rightarrow> human_request" where
  "undeliverable_request now fresh a =
     \<lparr>hr_id = fresh, hr_type = ''question'', hr_from = aa_from a, hr_from_name = aa_from_name a, hr_from_ns = aa_ns a,
      hr_to = [], hr_to_name = aa_name a, hr_ns = aa_ns a, hr_question = aa_question a, hr_response_type = ''text'',
      hr_options = PNone, hr_priority = ''medium'', hr_deadline = Some (Aware (now + micros_of_hours 24)),
      hr_sla_hours = 24,
      hr_context = [(''error'', PStr (''Human '' @ aa_ns a @ ''/'' @ aa_name a @ '' not found''))],
      hr_escalation = None, hr_status = RCancelled, hr_response = None, hr_created = now, hr_updated = now\<rparr>"

definition new_request :: "time \<Rightarrow> string \<Rightarrow> ask_args \<Rightarrow> human \<Rightarrow> human_request" where
  "new_request now fresh a h =
     \<lparr>hr_id = fresh, hr_type = (if aa_response_type a = ''approval'' then ''approval'' else ''question''),
      hr_from = aa_from a, hr_from_name = aa_from_name a, hr_from_ns = aa_ns a,
      hr_to = hu_pid h, hr_to_name = hu_name h, hr_ns = aa_ns a, hr_question = aa_question a,
      hr_response_type = aa_response_type a, hr_options = aa_options a, hr_priority = aa_priority a,
      hr_deadline = (case aa_deadline a of None \<Rightarrow> Some (Aware (now + micros_of_hours (aa_sla_hours a))) | Some d \<Rightarrow> Some d),
      hr_sla_hours = aa_sla_hours a, hr_context = aa_context a, hr_escalation = aa_escalation a,
      hr_status = RPending, hr_response = None, hr_created = now, hr_updated = now\<rparr>"

definition deliver_request :: "human_request \<Rightarrow> a2h_gateway \<Rightarrow> a2h_gateway" where
  "deliver_request r g = g\<lparr>g_outbox := g_outbox g @ map (\<lambda>c. (c, r)) (g_channels g)\<rparr>"

definition ask :: "kenv \<Rightarrow> string \<Rightarrow> ask_args \<Rightarrow> a2h_gateway \<Rightarrow> human_request res \<times> a2h_gateway" where
  "ask env fresh a g =
     (case resolve_human g (aa_ns a) (aa_name a) of
        None \<Rightarrow> (Inr (undeliverable_request (e_now env) fresh a), g)
      | Some h0 \<Rightarrow>
        (let h = route g (aa_ns a) h0
         in if aa_response_type a \<notin> set response_types \<or> aa_priority a \<notin> set priority_levels then (Inl ValueError, g)
         else (case auto_delegate (e_now env) (hu_rules h) (new_request (e_now env) fresh a h) of
             Inl e \<Rightarrow> (Inl e, g)
           | Inr r \<Rightarrow>
             (let g1 = g\<lparr>g_store := hq_save r (g_store g)\<rparr>;
                  g2 = (if hr_status r = RPending then deliver_request r g1 else g1)
              in (Inr r, gateway_audit env ''a2h.ask'' (aa_from a)
                    [(''request_id'', PStr (hr_id r)), (''to_human'', PStr (human_qualified h)),
                     (''question'', PStr (take 100 (aa_question a))), (''priority'', PStr (aa_priority a)),
                     (''auto_delegated'', PBool (hr_status r = RAutoDelegated))] g2)))))"

definition notify :: "kenv \<Rightarrow> string \<Rightarrow> string \<Rightarrow> string \<Rightarrow> string \<Rightarrow> string \<Rightarrow> string \<Rightarrow> string \<Rightarrow> details \<Rightarrow>
    a2h_gateway \<Rightarrow> notification res \<times> a2h_gateway" where
  "notify env fresh from from_name ns nm msg prio ctx g =
     (case resolve_human g ns nm of
        None \<Rightarrow> (Inr \<lparr>nt_id = fresh, nt_from = [], nt_from_name = from_name, nt_from_ns = ''default'', nt_to = [],
            nt_to_name = nm, nt_ns = ns, nt_message = ''[UNDELIVERABLE] '' @ msg, nt_severity = ''info'',
            nt_priority = ''low'', nt_context = [], nt_created = e_now env\<rparr>, g)
      | Some h \<Rightarrow>
        if prio \<notin> set priority_levels then (Inl ValueError, g)
        else (let n = \<lparr>nt_id = fresh, nt_from = from, nt_from_name = from_name, nt_from_ns = ns, nt_to = hu_pid h,
                  nt_to_name = hu_name h, nt_ns = ns, nt_message = msg, nt_severity = ''info'',
                  nt_priority = prio, nt_context = ctx, nt_created = e_now env\<rparr>
              in (Inr n, gateway_audit env ''a2h.notify'' from
                    [(''notification_id'', PStr fresh), (''to_human'', PStr (human_qualified h))]
                    (g\<lparr>g_notices := g_notices g @ map (\<lambda>c. (c, n)) (g_channels g)\<rparr>))))"

definition failure :: "string \<Rightarrow> details" where
  "failure msg = [(''success'', PBool False), (''error'', PStr msg)]"

text \<open>The clock is read for the lookup, and again inside \<open>store.respond\<close>.\<close>

definition respond :: "kenv \<Rightarrow> string \<Rightarrow> details \<Rightarrow> string \<Rightarrow> string \<Rightarrow> a2h_gateway \<Rightarrow> details \<times> a2h_gateway" where
  "respond env i data by_whom via g =
     (case hq_get (e_now env) i (g_store g) of
        (None, s) \<Rightarrow> (failure ''Request not found'', g\<lparr>g_store := s\<rparr>)
      | (Some r, s) \<Rightarrow>
        if hr_status r \<noteq> RPending
        then (failure (''Request is '' @ request_status_value (hr_status r) @ '', not pending''), g\<lparr>g_store := s\<rparr>)
        else (case hq_respond (e_now2 env) i
                 (response_from_dict (e_now env) (dset ''channel'' (PStr via) data)) s of
             (False, s2) \<Rightarrow> (failure ''Failed to record response'', g\<lparr>g_store := s2\<rparr>)
           | (True, s2) \<Rightarrow>
               ([(''success'', PBool True), (''request_id'', PStr i), (''status'', PStr ''answered'')],
                gateway_audit env ''a2h.respond'' (if by_whom = [] then hr_to r else by_whom)
                  [(''request_id'', PStr i), (''from_agent'', PStr (hr_from r))] (g\<lparr>g_store := s2\<rparr>))))"

definition cancel_request :: "kenv \<Rightarrow> string \<Rightarrow> string \<Rightarrow> a2h_gateway \<Rightarrow> details \<times> a2h_gateway" where
  "cancel_request env i reason g =
     (case hq_cancel (e_now env) i reason (g_store g) of
        (False, s) \<Rightarrow> (failure ''Cannot cancel'', g\<lparr>g_store := s\<rparr>)
      | (True, s) \<Rightarrow> ([(''success'', PBool True), (''request_id'', PStr i), (''status'', PStr ''cancelled'')],
                      g\<lparr>g_store := s\<rparr>))"

definition gateway_wait :: "kenv \<Rightarrow> string \<Rightarrow> a2h_gateway \<Rightarrow> details \<times> a2h_gateway" where
  "gateway_wait env i g =
     (case hq_wait (e_now env) i (g_store g) of
        (None, s) \<Rightarrow> (failure ''Request not found'', g\<lparr>g_store := s\<rparr>)
      | (Some r, s) \<Rightarrow>
        ([(''success'', PBool (hr_status r = RAnswered)), (''request_id'', PStr i),
          (''status'', PStr (request_status_value (hr_status r))),
          (''response'', case hr_response r of None \<Rightarrow> PNone | Some x \<Rightarrow> PDict (response_to_dict x))],
         g\<lparr>g_store := s\<rparr>))"

definition get_request_obj :: "kenv \<Rightarrow> string \<Rightarrow> a2h_gateway \<Rightarrow> human_request option \<times> a2h_gateway" where
  "get_request_obj env i g = apsnd (\<lambda>s. g\<lparr>g_store := s\<rparr>) (hq_get (e_now env) i (g_store g))"

definition list_pending :: "kenv \<Rightarrow> string option \<Rightarrow> a2h_gateway \<Rightarrow> human_request list \<times> a2h_gateway" where
  "list_pending env who g = apsnd (\<lambda>s. g\<lparr>g_store := s\<rparr>) (hq_list_pending (e_now env) who (g_store g))"

definition get_request :: "kenv \<Rightarrow> string \<Rightarrow> a2h_gateway \<Rightarrow> details option \<times> a2h_gateway" where
  "get_request env i g = apfst (map_option request_to_dict) (get_request_obj env i g)"

definition list_pending_dicts :: "kenv \<Rightarrow> string option \<Rightarrow> a2h_gateway \<Rightarrow> details list \<times> a2h_gateway" where
  "list_pending_dicts env who g = apfst (map request_to_dict) (list_pending env who g)"

definition list_pending_from :: "kenv \<Rightarrow> string \<Rightarrow> a2h_gateway \<Rightarrow> human_request list \<times> a2h_gateway" where
  "list_pending_from env who g = apfst (filter (\<lambda>r. hr_from r = who)) (list_pending env None g)"

definition list_resolved_from :: "string \<Rightarrow> nat \<Rightarrow> a2h_gateway \<Rightarrow> human_request list" where
  "list_resolved_from who limit g = take limit (sort_key (\<lambda>r. - hr_updated r)
     (filter (\<lambda>r. hr_from r = who \<and> hr_status r \<in> {RAnswered, RCancelled, RExpired}) (dvals (hq_requests (g_store g)))))"

subsection \<open>Profiles and budget multipliers\<close>

definition no_colons :: "string \<Rightarrow> string" where
  "no_colons s = filter (\<lambda>c. c \<noteq> CHR '':'') s"

definition check_time_range :: "pyval \<Rightarrow> string \<Rightarrow> bool res" where
  "check_time_range now rng =
     (case split_on (CHR ''-'') rng of
        [s, e] \<Rightarrow>
          (case (int_of_str (no_colons s), int_of_str (no_colons e)) of
             (Some a, Some b) \<Rightarrow>
               (case now of
                  PStr t \<Rightarrow> (case int_of_str (no_colons t) of None \<Rightarrow> Inr False
                    | Some n \<Rightarrow> Inr (if a \<le> b then a \<le> n \<and> n < b else a \<le> n \<or> n < b))
                | _ \<Rightarrow> Inl (AttributeError ''replace''))
           | _ \<Rightarrow> Inr False)
      | _ \<Rightarrow> Inr False)"

record behavior_profile =
  bp_name :: string
  bp_condition :: details
  bp_overrides :: details
  bp_active :: bool

primrec profile_conditions :: "details \<Rightarrow> (string \<times> pyval) list \<Rightarrow> bool res" where
  "profile_conditions ctx [] = Inr True"
| "profile_conditions ctx (p # ps) =
     (let actual = dget_default ctx (fst p) PNone; expected = snd p
      in if actual = PNone then Inr False
         else (case expected of
             PStr e \<Rightarrow> if CHR ''-'' \<in> set e \<and> CHR '':'' \<in> set e
               then rbind (check_time_range actual e) (\<lambda>ok. if ok then profile_conditions ctx ps else Inr False)
               else if py_eq actual expected then profile_conditions ctx ps else Inr False
           | _ \<Rightarrow> if py_eq actual expected then profile_conditions ctx ps else Inr False))"

definition evaluate_profile :: "details \<Rightarrow> behavior_profile \<Rightarrow> bool res \<times> behavior_profile" where
  "evaluate_profile ctx b =
     (case profile_conditions ctx (bp_condition b) of
        Inl e \<Rightarrow> (Inl e, b)
      | Inr False \<Rightarrow> (Inr False, b)
      | Inr True \<Rightarrow> (Inr True, b\<lparr>bp_active := True\<rparr>))"

record multiplier_rule =
  mr_condition :: details
  mr_multiplier :: rat

text \<open>A bound returns at once: the conditions after it are not looked at.\<close>

primrec multiplier_matches :: "details \<Rightarrow> (string \<times> pyval) list \<Rightarrow> bool" where
  "multiplier_matches ctx [] = True"
| "multiplier_matches ctx (p # ps) =
     (let actual = dget_default ctx (fst p) PNone; expected = snd p
      in if actual = PNone then False
         else (case expected of
             PStr e \<Rightarrow>
               if starts_with ''<'' e
               then (case (py_float actual, float_of_str (drop 1 e)) of (Some x, Some y) \<Rightarrow> fl_less x y | _ \<Rightarrow> False)
               else if starts_with ''>='' e
               then (case (py_float actual, float_of_str (drop 2 e)) of (Some x, Some y) \<Rightarrow> fl_less y x \<or> x = y \<and> x \<noteq> NaN | _ \<Rightarrow> False)
               else py_eq actual expected \<and> multiplier_matches ctx ps
           | _ \<Rightarrow> py_eq actual expected \<and> multiplier_matches ctx ps))"

record budget_policy =
  bu_base :: rat
  bu_rules :: "multiplier_rule list"

definition effective_budget :: "details \<Rightarrow> budget_policy \<Rightarrow> rat" where
  "effective_budget ctx b = bu_base b *
     (case find (\<lambda>r. multiplier_matches ctx (mr_condition r)) (bu_rules b) of None \<Rightarrow> 1 | Some r \<Rightarrow> mr_multiplier r)"

subsection \<open>The life of a request\<close>

text \<open>What may happen to a request: a pending one is answered before its deadline, expires after it,
  or is cancelled.  Nothing happens to any other.\<close>

inductive request_step :: "human_request \<Rightarrow> human_request \<Rightarrow> bool" where
  answer: "hr_status r = RPending \<Longrightarrow> \<not> request_expired now r \<Longrightarrow>
     request_step r (r\<lparr>hr_response := Some x, hr_status := RAnswered, hr_updated := now\<rparr>)"
| expiry: "hr_status r = RPending \<Longrightarrow> request_expired now r \<Longrightarrow> request_step r (r\<lparr>hr_status := RExpired\<rparr>)"
| cancellation: "hr_status r = RPending \<Longrightarrow>
     request_step r (r\<lparr>hr_status := RCancelled, hr_context := dset ''cancel_reason'' (PStr why) (hr_context r),
       hr_updated := now\<rparr>)"

inductive_cases request_stepE: "request_step r r'"

lemma request_step_final: "request_step r r' \<Longrightarrow> hr_status r = RPending \<and> hr_status r' \<noteq> RPending"
  by (auto elim: request_stepE)

definition evolves :: "human_request \<Rightarrow> human_request \<Rightarrow> bool" where
  "evolves r r' \<longleftrightarrow> r' = r \<or> request_step r r'"

lemma evolves_refl [simp, intro]: "evolves r r"
  by (simp add: evolves_def)

lemma evolves_trans: "evolves r r' \<Longrightarrow> evolves r' r'' \<Longrightarrow> evolves r r''"
  using request_step_final by (metis evolves_def)

lemma evolves_expire [simp, intro]: "evolves r (expire now r)"
  by (auto simp: expire_def evolves_def intro: request_step.expiry)

text \<open>The requests of a store evolve, each under its id.\<close>

definition requests_evolve :: "request_store \<Rightarrow> request_store \<Rightarrow> bool" where
  "requests_evolve s s' \<longleftrightarrow> (\<forall>i. case map_of (hq_requests s) i of
      None \<Rightarrow> map_of (hq_requests s') i = None
    | Some r \<Rightarrow> (\<exists>r'. map_of (hq_requests s') i = Some r' \<and> evolves r r'))"

lemma requests_evolve_refl [simp]: "requests_evolve s s"
  by (auto simp: requests_evolve_def split: option.split)

lemma requests_evolve_trans:
  assumes "requests_evolve s s'" and "requests_evolve s' s''"
  shows "requests_evolve s s''"
  unfolding requests_evolve_def
proof
  fix i
  from assms have a: "case map_of (hq_requests s) i of None \<Rightarrow> map_of (hq_requests s') i = None
      | Some r \<Rightarrow> (\<exists>r'. map_of (hq_requests s') i = Some r' \<and> evolves r r')"
    and b: "case map_of (hq_requests s') i of None \<Rightarrow> map_of (hq_requests s'') i = None
      | Some r \<Rightarrow> (\<exists>r'. map_of (hq_requests s'') i = Some r' \<and> evolves r r')"
    by (auto simp: requests_evolve_def)
  then show "case map_of (hq_requests s) i of None \<Rightarrow> map_of (hq_requests s'') i = None
      | Some r \<Rightarrow> (\<exists>r'. map_of (hq_requests s'') i = Some r' \<and> evolves r r')"
    by (auto intro: evolves_trans split: option.splits)
qed

lemma get_evolves: "requests_evolve s (snd (hq_get now i s))"
  by (auto simp: hq_get_def requests_evolve_def split: option.split)

lemma list_pending_evolves: "requests_evolve s (snd (hq_list_pending now who s))"
  by (auto simp: hq_list_pending_def requests_evolve_def split: option.split)

lemma wait_evolves: "requests_evolve s (snd (hq_wait now i s))"
  by (simp add: hq_wait_def get_evolves split: option.split)

lemma update_evolves:
  "map_of (hq_requests s) i = Some r \<Longrightarrow> evolves r r' \<Longrightarrow>
   requests_evolve s (s\<lparr>hq_requests := dset i r' (hq_requests s)\<rparr>)"
  by (simp add: requests_evolve_def split: option.split)

lemma set_event_requests [simp]: "hq_requests (set_event i s) = hq_requests s"
  by (simp add: set_event_def)

lemma set_event_evolves: "requests_evolve s s' \<Longrightarrow> requests_evolve s (set_event i s')"
  unfolding requests_evolve_def set_event_requests .

lemma respond_evolves: "requests_evolve s (snd (hq_respond now i x s))"
proof (cases "map_of (hq_requests s) i")
  case (Some r)
  show ?thesis
    unfolding hq_respond_def Some option.case
    using update_evolves [OF Some] request_step.answer [of r now x] request_step.expiry [of r now]
    by (simp add: set_event_evolves evolves_def)
qed (simp add: hq_respond_def)

lemma cancel_evolves: "requests_evolve s (snd (hq_cancel now i why s))"
proof (cases "map_of (hq_requests s) i")
  case (Some r)
  show ?thesis
    unfolding hq_cancel_def Some option.case
    using update_evolves [OF Some] request_step.cancellation [of r now why]
    by (simp add: set_event_evolves evolves_def)
qed (simp add: hq_cancel_def)

subsection \<open>Histories of the gateway\<close>

datatype a2h_op = AAsk kenv string ask_args | ANotify kenv string string string string string string string details
  | ARespond kenv string details string string | ACancel kenv string string | AWait kenv string | ALook kenv string
  | AList kenv "string option" | ARegister human | AUnregister string

fun a2h_step :: "a2h_op \<Rightarrow> a2h_gateway \<Rightarrow> a2h_gateway" where
  "a2h_step (AAsk env i a) g = snd (ask env i a g)"
| "a2h_step (ANotify env i f fn ns nm msg p c) g = snd (notify env i f fn ns nm msg p c g)"
| "a2h_step (ARespond env i d w via) g = snd (respond env i d w via g)"
| "a2h_step (ACancel env i why) g = snd (cancel_request env i why g)"
| "a2h_step (AWait env i) g = snd (gateway_wait env i g)"
| "a2h_step (ALook env i) g = snd (get_request_obj env i g)"
| "a2h_step (AList env w) g = snd (list_pending env w g)"
| "a2h_step (ARegister h) g = snd (register_human h g)"
| "a2h_step (AUnregister p) g = snd (unregister_human p g)"

definition a2h_run :: "a2h_op list \<Rightarrow> a2h_gateway \<Rightarrow> a2h_gateway" where
  "a2h_run = fold a2h_step"

fun asks_as :: "string \<Rightarrow> a2h_op \<Rightarrow> bool" where
  "asks_as i (AAsk env j a) = (j = i)"
| "asks_as i _ = False"

lemma gateway_audit_store [simp]: "g_store (gateway_audit env actn who dets g) = g_store g"
  by (simp add: gateway_audit_def split: option.split)

lemma gateway_audit_humans [simp]: "g_humans (gateway_audit env actn who dets g) = g_humans g"
  by (simp add: gateway_audit_def split: option.split)

lemma deliver_request_store [simp]: "g_store (deliver_request r g) = g_store g"
  by (simp add: deliver_request_def)

lemma auto_delegate_id: "auto_delegate now rs q = Inr r \<Longrightarrow> hr_id r = hr_id q"
  by (induction rs) (auto simp: rbind_eq_Inr split: if_splits)

lemma new_request_id [simp]: "hr_id (new_request now i a h) = i"
  by (simp add: new_request_def)

lemma ask_store: "g_store (snd (ask env i a g)) = g_store g \<or>
    (\<exists>r. hr_id r = i \<and> g_store (snd (ask env i a g)) = hq_save r (g_store g))"
proof (cases "resolve_human g (aa_ns a) (aa_name a)")
  case (Some h)
  show ?thesis
  proof (cases "auto_delegate (e_now env) (hu_rules (route g (aa_ns a) h)) (new_request (e_now env) i a (route g (aa_ns a) h))")
    case (Inr r)
    from auto_delegate_id [OF this] have "hr_id r = i" by simp
    with Some Inr show ?thesis by (auto simp: ask_def Let_def)
  qed (simp add: ask_def Some Let_def)
qed (simp add: ask_def)

lemma respond_store_evolves: "requests_evolve (g_store g) (g_store (snd (respond env i d w via g)))"
proof -
  obtain x s where get: "hq_get (e_now env) i (g_store g) = (x, s)" by fastforce
  have s: "requests_evolve (g_store g) s" using get_evolves [of "g_store g" "e_now env" i] get by simp
  obtain b s2 where r: "hq_respond (e_now2 env) i (response_from_dict (e_now env) (dset ''channel'' (PStr via) d)) s = (b, s2)"
    by fastforce
  have "requests_evolve s s2" using respond_evolves [of s "e_now2 env" i] r by (metis snd_conv)
  with s have "requests_evolve (g_store g) s2" by (rule requests_evolve_trans)
  with s show ?thesis by (simp add: respond_def get r split: option.split bool.split)
qed

text \<open>Every operation but a question under the same id lets a request evolve.\<close>

lemma a2h_step_evolves:
  assumes "\<not> asks_as i o'" and "map_of (hq_requests (g_store g)) i = Some r"
  shows "\<exists>r'. map_of (hq_requests (g_store (a2h_step o' g))) i = Some r' \<and> evolves r r'"
proof -
  have use: "\<exists>r'. map_of (hq_requests s') i = Some r' \<and> evolves r r'" if "requests_evolve (g_store g) s'" for s'
    using that assms(2) by (force simp: requests_evolve_def split: option.splits)
  show ?thesis
  proof (cases o')
    case (AAsk env j a)
    with ask_store [of env j a g] assms show ?thesis by (auto simp: hq_save_def)
  next
    case (ANotify env j f fn ns nm msg p c)
    with assms show ?thesis by (simp add: notify_def Let_def split: option.split)
  next
    case (ARespond env j d w via)
    with use [OF respond_store_evolves] show ?thesis by simp
  next
    case (ACancel env j why)
    with use [OF cancel_evolves] show ?thesis
      by (auto simp: cancel_request_def split: prod.split bool.split) (metis snd_conv)+
  next
    case (AWait env j)
    with use [OF wait_evolves] show ?thesis
      by (auto simp: gateway_wait_def split: prod.split option.split) (metis snd_conv)+
  next
    case (ALook env j)
    with use [OF get_evolves] show ?thesis by (simp add: get_request_obj_def)
  next
    case (AList env w)
    with use [OF list_pending_evolves] show ?thesis by (simp add: list_pending_def)
  next
    case (ARegister h)
    with assms show ?thesis by (simp add: register_human_def)
  next
    case (AUnregister p)
    with assms show ?thesis by (simp add: unregister_human_def)
  qed
qed

text \<open>C23. Whatever happens at the gateway afterwards, at whatever times, a request follows its lifecycle:
  it is answered before its deadline, or expires after it, or is cancelled, at most one of these and
  once, and a request that has settled never changes again, its response included (unless
  a new question is asked under the very id of the old one).\<close>

theorem requests_follow_their_lifecycle:
  assumes "map_of (hq_requests (g_store g)) i = Some r" and "list_all (\<lambda>x. \<not> asks_as i x) ops"
  shows "\<exists>r'. map_of (hq_requests (g_store (a2h_run ops g))) i = Some r' \<and> (r' = r \<or> request_step r r')"
  using assms
proof (induction ops arbitrary: g r)
  case Nil
  then show ?case by (simp add: a2h_run_def)
next
  case (Cons x ops)
  with a2h_step_evolves [of i x g r] obtain r1 where
    1: "map_of (hq_requests (g_store (a2h_step x g))) i = Some r1" "evolves r r1" by auto
  with Cons.IH [of "a2h_step x g" r1] Cons.prems obtain r' where
    "map_of (hq_requests (g_store (a2h_run ops (a2h_step x g)))) i = Some r'" "evolves r1 r'"
    by (auto simp: evolves_def)
  with 1 evolves_trans [of r r1 r'] show ?case by (auto simp: a2h_run_def evolves_def)
qed

subsection \<open>Questions\<close>

lemma auto_delegate_result:
  assumes "auto_delegate now rs q = Inr r" and "hr_status q = RPending"
  shows "hr_to r = hr_to q \<and> hr_status r \<in> {RPending, RAutoDelegated} \<and>
    (hr_status r = RAutoDelegated \<longleftrightarrow> (\<exists>x \<in> set rs. rule_matches x q = Inr True)) \<and> (hr_status r = RPending \<longrightarrow> r = q)"
  using assms
proof (induction rs)
  case (Cons x rs)
  then obtain m where m: "rule_matches x q = Inr m" by (auto simp: rbind_eq_Inr)
  show ?case
  proof (cases m)
    case True
    with Cons.prems m have r: "r = q\<lparr>hr_response := Some ((response_from_dict now (dr_auto x))\<lparr>hp_channel := PStr ''auto_delegation''\<rparr>),
        hr_status := RAutoDelegated, hr_updated := now\<rparr>" by simp
    from True m show ?thesis by (simp add: r)
  next
    case False
    with Cons m show ?thesis by auto
  qed
qed simp

lemma find_dval: "find P (dvals d) = Some x \<Longrightarrow> x \<in> set (dvals d)"
  by (auto simp: find_Some_iff)

lemma filter_hd_in: "filter P xs = x # ys \<Longrightarrow> x \<in> set xs"
  by (metis filter_is_subset list.set_intros(1) subsetD)

lemma resolve_human_registered: "resolve_human g ns nm = Some h \<Longrightarrow> h \<in> set (dvals (g_humans g))"
  by (simp add: resolve_human_def Let_def split: option.splits list.splits)
    (use find_dval filter_hd_in list.set_map in fastforce)+

lemma resolve_human_None: "resolve_human g ns nm = None \<longleftrightarrow> g_humans g = []"
  by (auto simp: resolve_human_def Let_def split: option.splits list.splits)

lemma route_registered: "h \<in> set (dvals (g_humans g)) \<Longrightarrow> route g ns h \<in> set (dvals (g_humans g))"
  by (auto simp: route_def dest: resolve_human_registered split: option.split)

lemma gateway_audit_outbox [simp]: "g_outbox (gateway_audit env actn who dets g) = g_outbox g"
  by (simp add: gateway_audit_def split: option.split)

text \<open>A question that does not raise reaches a human whenever any is registered, in whatever namespace
  and state: it is stored under its id for a registered human, answered by delegation exactly when
  one of this human's rules matches it, and handed to every channel otherwise.  Only with
  no human at all it comes back cancelled, and nothing is stored.\<close>

theorem questions_reach_someone:
  assumes "ask env i a g = (Inr r, g')"
  shows "if g_humans g = [] then hr_status r = RCancelled \<and> g' = g
    else (\<exists>h \<in> set (dvals (g_humans g)). hr_to r = hu_pid h \<and>
        (hr_status r = RAutoDelegated \<longleftrightarrow> (\<exists>x \<in> set (hu_rules h). rule_matches x (new_request (e_now env) i a h) = Inr True)))
      \<and> hr_status r \<in> {RPending, RAutoDelegated}
      \<and> map_of (hq_requests (g_store g')) i = Some r
      \<and> g_outbox g' = g_outbox g @ (if hr_status r = RPending then map (\<lambda>c. (c, r)) (g_channels g) else [])"
proof (cases "resolve_human g (aa_ns a) (aa_name a)")
  case None
  with assms resolve_human_None [of g "aa_ns a" "aa_name a"] show ?thesis
    by (auto simp: ask_def undeliverable_request_def)
next
  case (Some h0)
  define h where "h = route g (aa_ns a) h0"
  have h: "h \<in> set (dvals (g_humans g))"
    unfolding h_def by (rule route_registered [OF resolve_human_registered [OF Some]])
  obtain r1 where d: "auto_delegate (e_now env) (hu_rules h) (new_request (e_now env) i a h) = Inr r1"
    and g': "r = r1" "g_store g' = hq_save r1 (g_store g)"
      "g_outbox g' = g_outbox g @ (if hr_status r1 = RPending then map (\<lambda>c. (c, r1)) (g_channels g) else [])"
    using assms Some by (auto simp: ask_def Let_def h_def [symmetric] deliver_request_def split: if_splits sum.splits)
  from auto_delegate_result [OF d] have res: "hr_to r = hu_pid h" "hr_status r \<in> {RPending, RAutoDelegated}"
    "hr_status r = RAutoDelegated \<longleftrightarrow> (\<exists>x \<in> set (hu_rules h). rule_matches x (new_request (e_now env) i a h) = Inr True)"
    by (auto simp: g'(1) new_request_def)
  have "map_of (hq_requests (g_store g')) i = Some r"
    using auto_delegate_id [OF d] by (simp add: g' hq_save_def)
  moreover have "g_humans g \<noteq> []" using resolve_human_None [of g "aa_ns a" "aa_name a"] Some by simp
  ultimately show ?thesis using h res by (auto simp: g')
qed

subsection \<open>Who asks does not matter\<close>

text \<open>A question is routed and auto-answered the same way whichever agent asks: the identity of the
  sender reaches the stored request but no decision.  In particular the \<open>from_namespace\<close> filter of a
  delegation rule sees the namespace the question is addressed to.\<close>

lemma rule_matches_sender: "rule_matches x (q\<lparr>hr_from := w\<rparr>) = rule_matches x q"
  by (simp add: rule_matches_def split: option.split)

lemma auto_delegate_sender:
  "auto_delegate now rs (q\<lparr>hr_from := w\<rparr>) = map_sum id (\<lambda>r. r\<lparr>hr_from := w\<rparr>) (auto_delegate now rs q)"
proof (induction rs)
  case (Cons x rs)
  then show ?case by (cases "rule_matches x q") (simp_all add: rule_matches_sender)
qed simp

theorem delegation_ignores_the_sender:
  "fst (ask env i (a\<lparr>aa_from := w\<rparr>) g) = map_sum id (\<lambda>r. r\<lparr>hr_from := w\<rparr>) (fst (ask env i a g))"
proof -
  have n: "new_request now i (a\<lparr>aa_from := w\<rparr>) h = (new_request now i a h)\<lparr>hr_from := w\<rparr>" for now h
    by (simp add: new_request_def split: option.split)
  have u: "undeliverable_request now i (a\<lparr>aa_from := w\<rparr>) = (undeliverable_request now i a)\<lparr>hr_from := w\<rparr>" for now
    by (simp add: undeliverable_request_def)
  show ?thesis
    by (auto simp: ask_def Let_def n u auto_delegate_sender split: option.split sum.split)
qed

subsection \<open>Waiting for a delegated answer\<close>

lemma ask_delegated:
  assumes "ask env i a g = (Inr r, g')" and "hr_status r = RAutoDelegated"
  shows "hr_id r = i \<and> g_store g' = hq_save r (g_store g)"
proof (cases "resolve_human g (aa_ns a) (aa_name a)")
  case None
  with assms show ?thesis by (auto simp: ask_def undeliverable_request_def)
next
  case (Some h0)
  define h where "h = route g (aa_ns a) h0"
  obtain r1 where d: "auto_delegate (e_now env) (hu_rules h) (new_request (e_now env) i a h) = Inr r1"
    and "r = r1" "g_store g' = hq_save r1 (g_store g)"
    using assms Some by (auto simp: ask_def Let_def h_def [symmetric] split: if_splits sum.splits)
  with auto_delegate_id [OF d] show ?thesis by simp
qed

text \<open>The event of a settled request that nobody set stays unset.\<close>

definition unanswered_event :: "string \<Rightarrow> human_request \<Rightarrow> request_store \<Rightarrow> bool" where
  "unanswered_event i r s \<longleftrightarrow> map_of (hq_requests s) i = Some r \<and> hr_status r \<noteq> RPending \<and> map_of (hq_events s) i = Some False"

lemma expire_settled [simp]: "hr_status r \<noteq> RPending \<Longrightarrow> expire now r = r"
  by (simp add: expire_def)

lemma unanswered_store_ops:
  assumes "unanswered_event i r s"
  shows "unanswered_event i r (snd (hq_get now j s))"
    and "unanswered_event i r (snd (hq_list_pending now who s))"
    and "unanswered_event i r (snd (hq_wait now j s))"
    and "unanswered_event i r (snd (hq_respond now j x s))"
    and "unanswered_event i r (snd (hq_cancel now j why s))"
    and "hr_id q \<noteq> i \<Longrightarrow> unanswered_event i r (hq_save q s)"
proof -
  show get: "unanswered_event i r (snd (hq_get now j s))"
    using assms by (auto simp: unanswered_event_def hq_get_def)
  show "unanswered_event i r (snd (hq_list_pending now who s))"
    using assms by (auto simp: unanswered_event_def hq_list_pending_def)
  show "unanswered_event i r (snd (hq_wait now j s))"
    using assms get by (auto simp: hq_wait_def split: option.split)
  show "unanswered_event i r (snd (hq_respond now j x s))"
    using assms by (cases "map_of (hq_requests s) j"; cases "j = i")
      (simp_all add: hq_respond_def unanswered_event_def set_event_def)
  show "unanswered_event i r (snd (hq_cancel now j why s))"
    using assms by (cases "map_of (hq_requests s) j"; cases "j = i")
      (simp_all add: hq_cancel_def unanswered_event_def set_event_def)
  show "unanswered_event i r (hq_save q s)" if "hr_id q \<noteq> i"
    using assms that by (simp add: unanswered_event_def hq_save_def)
qed

lemma a2h_step_unanswered:
  assumes "unanswered_event i r (g_store g)" and "\<not> asks_as i o'"
  shows "unanswered_event i r (g_store (a2h_step o' g))"
proof (cases o')
  case (AAsk env j a)
  with ask_store [of env j a g] assms unanswered_store_ops(6) [OF assms(1)] show ?thesis by auto
next
  case (ANotify env j f fn ns nm msg p c)
  with assms show ?thesis by (simp add: notify_def Let_def split: option.split)
next
  case (ARespond env j d w via)
  obtain x s where get: "hq_get (e_now env) j (g_store g) = (x, s)" by fastforce
  with unanswered_store_ops(1) [OF assms(1), of "e_now env" j] have s: "unanswered_event i r s" by simp
  obtain b s2 where "hq_respond (e_now2 env) j (response_from_dict (e_now env) (dset ''channel'' (PStr via) d)) s = (b, s2)"
    by fastforce
  with ARespond get s unanswered_store_ops(4) [OF s, of "e_now2 env" j] show ?thesis
    by (simp add: respond_def split: option.split bool.split) (metis snd_conv)
next
  case (ACancel env j why)
  obtain b s where c: "hq_cancel (e_now env) j why (g_store g) = (b, s)" by fastforce
  with unanswered_store_ops(5) [OF assms(1), of "e_now env" j why] ACancel show ?thesis
    by (simp add: cancel_request_def split: bool.split)
next
  case (AWait env j)
  obtain x s where c: "hq_wait (e_now env) j (g_store g) = (x, s)" by fastforce
  with unanswered_store_ops(3) [OF assms(1), of "e_now env" j] AWait show ?thesis
    by (simp add: gateway_wait_def split: option.split)
next
  case (ALook env j)
  with unanswered_store_ops(1) [OF assms(1)] show ?thesis by (simp add: get_request_obj_def)
next
  case (AList env w)
  with unanswered_store_ops(2) [OF assms(1)] show ?thesis by (simp add: list_pending_def)
qed (use assms in \<open>simp_all add: register_human_def unregister_human_def\<close>)

lemma a2h_run_unanswered:
  "unanswered_event i r (g_store g) \<Longrightarrow> list_all (\<lambda>x. \<not> asks_as i x) ops \<Longrightarrow>
   unanswered_event i r (g_store (a2h_run ops g))"
  by (induction ops arbitrary: g) (simp_all add: a2h_run_def a2h_step_unanswered)

text \<open>An answer by delegation never reaches the agent that waits for it: the event of the request is never
  set, whatever happens afterwards, so the wait lasts until its timeout, and then it reports failure
  although the response is there.\<close>

theorem waiting_for_a_delegated_answer_fails:
  assumes "ask env i a g = (Inr r, g')" and "hr_status r = RAutoDelegated"
    and "list_all (\<lambda>x. \<not> asks_as i x) ops"
  shows "map_of (hq_events (g_store (a2h_run ops g'))) i = Some False \<and>
    map_of (fst (gateway_wait env' i (a2h_run ops g'))) ''success'' = Some (PBool False)"
proof -
  from ask_delegated [OF assms(1,2)] assms(2) have "unanswered_event i r (g_store g')"
    by (simp add: unanswered_event_def hq_save_def)
  from a2h_run_unanswered [OF this assms(3)] have u: "unanswered_event i r (g_store (a2h_run ops g'))" .
  with assms(2) show ?thesis by (simp add: gateway_wait_def hq_wait_def hq_get_def unanswered_event_def)
qed

subsection \<open>Concrete gateways\<close>

definition demo_human :: human where
  "demo_human = \<lparr>hu_pid = ''h1'', hu_name = ''sarah'', hu_ns = ''sales'',
     hu_rules = [\<lparr>dr_name = ''small'', dr_from_ns = Some ''sales'', dr_from_pattern = None, dr_response_type = Some ''approval'',
        dr_conditions = [(''amount'', [(''lt'', PInt 100)])], dr_auto = [(''approved'', PBool True)]\<rparr>],
     hu_states = default_states, hu_state = ''available'', hu_state_at = None, hu_delegate = None\<rparr>"

definition demo_gateway :: a2h_gateway where
  "demo_gateway = snd (register_human demo_human
     \<lparr>g_humans = [], g_store = empty_requests, g_channels = [''dashboard'', ''log''], g_outbox = [], g_notices = [],
      g_kernel = None\<rparr>)"

definition demo_ask :: "int \<Rightarrow> ask_args" where
  "demo_ask n = \<lparr>aa_from = ''agent_of_marketing'', aa_from_name = ''bot'', aa_ns = ''sales'', aa_name = ''Sarah '',
     aa_question = ''Approve?'', aa_response_type = ''approval'', aa_options = PNone, aa_deadline = None, aa_sla_hours = 2,
     aa_priority = ''high'', aa_context = [(''amount'', PInt n)], aa_escalation = None\<rparr>"

definition demo_answers :: "a2h_op list" where
  "demo_answers = [ALook demo_env ''r1'', ARespond demo_env ''r1'' [(''approved'', PBool True)] ''sarah'' ''slack'',
     ACancel demo_env ''r1'' ''late'', ARespond demo_env ''r1'' [(''approved'', PBool False)] ''eve'' ''api'']"

lemma requests_follow_their_lifecycle_witness:
  "\<exists>r r'. map_of (hq_requests (g_store (snd (ask demo_env ''r1'' (demo_ask 500) demo_gateway)))) ''r1'' = Some r \<and>
     map_of (hq_requests (g_store (a2h_run demo_answers (snd (ask demo_env ''r1'' (demo_ask 500) demo_gateway))))) ''r1'' = Some r' \<and>
     request_step r r' \<and> hr_status r' = RAnswered \<and> map_option hp_approved (hr_response r') = Some (PBool True)"
proof -
  let ?g = "snd (ask demo_env ''r1'' (demo_ask 500) demo_gateway)"
  have "map_option hr_status (map_of (hq_requests (g_store ?g)) ''r1'') = Some RPending" by code_simp
  then obtain r where r: "map_of (hq_requests (g_store ?g)) ''r1'' = Some r" "hr_status r = RPending" by auto
  have ops: "list_all (\<lambda>x. \<not> asks_as ''r1'' x) demo_answers" by code_simp
  from requests_follow_their_lifecycle [OF r(1) ops] obtain r' where
    r': "map_of (hq_requests (g_store (a2h_run demo_answers ?g))) ''r1'' = Some r'" "r' = r \<or> request_step r r'" by auto
  have "map_option (\<lambda>r. (hr_status r, map_option hp_approved (hr_response r)))
      (map_of (hq_requests (g_store (a2h_run demo_answers ?g))) ''r1'') = Some (RAnswered, Some (PBool True))" by code_simp
  with r r' show ?thesis by auto
qed

lemma questions_reach_someone_witness:
  "\<exists>r g'. ask demo_env ''r1'' (demo_ask 500) demo_gateway = (Inr r, g') \<and> hr_status r = RPending \<and> hr_to r = ''h1'' \<and>
     g_outbox g' = [(''dashboard'', r), (''log'', r)]"
proof -
  have "case ask demo_env ''r1'' (demo_ask 500) demo_gateway of (Inr r, g') \<Rightarrow> hr_status r = RPending | _ \<Rightarrow> False" by code_simp
  then obtain r g' where a: "ask demo_env ''r1'' (demo_ask 500) demo_gateway = (Inr r, g')" "hr_status r = RPending"
    by (auto split: prod.splits sum.splits)
  have "g_outbox demo_gateway = []" "g_channels demo_gateway = [''dashboard'', ''log'']" "map hu_pid (dvals (g_humans demo_gateway)) = [''h1'']"
    by code_simp+
  with questions_reach_someone [OF a(1)] a show ?thesis by (auto split: if_splits)
qed

lemma waiting_for_a_delegated_answer_fails_witness:
  "\<exists>r g'. ask demo_env ''r1'' (demo_ask 50) demo_gateway = (Inr r, g') \<and> map_option hp_approved (hr_response r) = Some (PBool True) \<and>
     map_of (fst (gateway_wait demo_env ''r1'' (a2h_run demo_answers g'))) ''success'' = Some (PBool False)"
proof -
  have "case ask demo_env ''r1'' (demo_ask 50) demo_gateway of (Inr r, g') \<Rightarrow> hr_status r = RAutoDelegated \<and>
      map_option hp_approved (hr_response r) = Some (PBool True) | _ \<Rightarrow> False" by code_simp
  then obtain r g' where a: "ask demo_env ''r1'' (demo_ask 50) demo_gateway = (Inr r, g')" "hr_status r = RAutoDelegated"
      "map_option hp_approved (hr_response r) = Some (PBool True)"
    by (auto split: prod.splits sum.splits)
  have ops: "list_all (\<lambda>x. \<not> asks_as ''r1'' x) demo_answers" by code_simp
  from waiting_for_a_delegated_answer_fails [OF a(1,2) ops] a show ?thesis by blast
qed

end
