(* ===== verification/Chat.thy ===== *)
theory Chat
  imports Approvals
begin

text \<open>
  Chat sessions between agents and humans (\<open>src/src/platform/a2h_chat.py\<close>): the in-memory chat store
  with its cursor reads and its long poll, and the chat gateway that lives beside the request gateway and
  shares its humans and its kernel.
\<close>

datatype chat_status = ChatOpen | ChatClosed

fun chat_status_value :: "chat_status \<Rightarrow> string" where
  "chat_status_value ChatOpen = ''open''"
| "chat_status_value ChatClosed = ''closed''"

record chat_message =
  cm_id :: string
  cm_chat :: string
  cm_role :: string
  cm_sender :: string
  cm_content :: string
  cm_ts :: time

definition message_dict :: "chat_message \<Rightarrow> details" where
  "message_dict m = [(''id'', PStr (cm_id m)), (''chat_id'', PStr (cm_chat m)), (''role'', PStr (cm_role m)),
     (''sender'', PStr (cm_sender m)), (''content'', PStr (cm_content m)), (''ts'', PInt (cm_ts m))]"

record chat_session =
  ch_id :: string
  ch_topic :: string
  ch_ns :: string
  ch_agent :: string
  ch_agent_name :: string
  ch_human :: string
  ch_human_name :: string
  ch_status :: chat_status
  ch_created :: time
  ch_closed :: "time option"
  ch_reason :: string
  ch_messages :: "chat_message list"
  ch_context :: details

definition session_dict :: "bool \<Rightarrow> chat_session \<Rightarrow> details" where
  "session_dict include c =
     [(''id'', PStr (ch_id c)), (''topic'', PStr (ch_topic c)), (''namespace'', PStr (ch_ns c)),
      (''agent_pid'', PStr (ch_agent c)), (''agent_name'', PStr (ch_agent_name c)),
      (''human_pid'', PStr (ch_human c)), (''human_name'', PStr (ch_human_name c)),
      (''status'', PStr (chat_status_value (ch_status c))), (''created_at'', PInt (ch_created c)),
      (''closed_at'', case ch_closed c of None \<Rightarrow> PNone | Some t \<Rightarrow> PInt t), (''closed_reason'', PStr (ch_reason c)),
      (''message_count'', PInt (int (length (ch_messages c)))), (''context'', PDict (ch_context c))]
     @ (if include then [(''messages'', PList (map (\<lambda>m. PDict (message_dict m)) (ch_messages c)))] else [])"

subsection \<open>The store\<close>

type_synonym chat_store = "(string, chat_session) dict"

definition chat_append :: "string \<Rightarrow> chat_message \<Rightarrow> chat_store \<Rightarrow> bool \<times> chat_store" where
  "chat_append i m s =
     (case map_of s i of
        None \<Rightarrow> (False, s)
      | Some c \<Rightarrow> if ch_status c \<noteq> ChatOpen then (False, s)
                  else (True, dset i (c\<lparr>ch_messages := ch_messages c @ [m\<lparr>cm_chat := i\<rparr>]\<rparr>) s))"

definition chat_close :: "time \<Rightarrow> string \<Rightarrow> string \<Rightarrow> chat_store \<Rightarrow> bool \<times> chat_store" where
  "chat_close now i reason s =
     (case map_of s i of
        None \<Rightarrow> (False, s)
      | Some c \<Rightarrow> (True, dset i (c\<lparr>ch_status := ChatClosed, ch_closed := Some now, ch_reason := reason\<rparr>) s))"

definition chat_list :: "chat_store \<Rightarrow> string option \<Rightarrow> string option \<Rightarrow> chat_status option \<Rightarrow> chat_session list" where
  "chat_list s who agent st =
     sort_key (\<lambda>c. - ch_created c) (filter (\<lambda>c. (case set_filter who of None \<Rightarrow> True | Some p \<Rightarrow> ch_human c = p) \<and>
       (case set_filter agent of None \<Rightarrow> True | Some p \<Rightarrow> ch_agent c = p) \<and>
       (case st of None \<Rightarrow> True | Some x \<Rightarrow> ch_status c = x)) (dvals s))"

text \<open>The messages after the first one with that id; all of them for an unknown or empty id.\<close>

fun after_first :: "('a \<Rightarrow> bool) \<Rightarrow> 'a list \<Rightarrow> 'a list option" where
  "after_first P [] = None"
| "after_first P (x # xs) = (if P x then Some xs else after_first P xs)"

definition messages_after :: "chat_store \<Rightarrow> string \<Rightarrow> string option \<Rightarrow> chat_message list" where
  "messages_after s i since =
     (case map_of s i of
        None \<Rightarrow> []
      | Some c \<Rightarrow>
        (case set_filter since of
           None \<Rightarrow> ch_messages c
         | Some x \<Rightarrow> (case after_first (\<lambda>m. cm_id m = x) (ch_messages c) of None \<Rightarrow> ch_messages c | Some ms \<Rightarrow> ms)))"

text \<open>\<open>wait_for_new\<close> on the store at the call; \<open>later\<close> is the store at the wake-up, \<open>None\<close> when the wait
  timed out.\<close>

definition wait_blocks :: "chat_store \<Rightarrow> string \<Rightarrow> string option \<Rightarrow> bool" where
  "wait_blocks s i since \<longleftrightarrow> messages_after s i since = [] \<and>
     (case map_of s i of None \<Rightarrow> False | Some c \<Rightarrow> ch_status c = ChatOpen)"

definition wait_for_new :: "chat_store \<Rightarrow> chat_store option \<Rightarrow> string \<Rightarrow> string option \<Rightarrow> chat_message list" where
  "wait_for_new s later i since =
     (if wait_blocks s i since then (case later of None \<Rightarrow> [] | Some s' \<Rightarrow> messages_after s' i since)
      else messages_after s i since)"

subsection \<open>The gateway\<close>

record chat_gateway =
  cg_parent :: a2h_gateway
  cg_chats :: chat_store

definition chat_audit :: "kenv \<Rightarrow> string \<Rightarrow> string \<Rightarrow> details \<Rightarrow> chat_gateway \<Rightarrow> chat_gateway" where
  "chat_audit env who actn dets g = g\<lparr>cg_parent := gateway_audit env actn who dets (cg_parent g)\<rparr>"

definition new_chat :: "time \<Rightarrow> string \<Rightarrow> string \<Rightarrow> string \<Rightarrow> string \<Rightarrow> string \<Rightarrow> string \<Rightarrow> string \<Rightarrow> details \<Rightarrow> chat_session" where
  "new_chat now fresh topic ns agent agent_name hpid hname ctx =
     \<lparr>ch_id = fresh, ch_topic = topic, ch_ns = ns, ch_agent = agent, ch_agent_name = agent_name, ch_human = hpid,
      ch_human_name = hname, ch_status = ChatOpen, ch_created = now, ch_closed = None, ch_reason = [],
      ch_messages = [], ch_context = ctx\<rparr>"

definition chat_create :: "chat_session \<Rightarrow> chat_gateway \<Rightarrow> chat_gateway" where
  "chat_create c g = g\<lparr>cg_chats := dset (ch_id c) c (cg_chats g)\<rparr>"

definition open_chat :: "kenv \<Rightarrow> string \<Rightarrow> string \<Rightarrow> string \<Rightarrow> string \<Rightarrow> string \<Rightarrow> string \<Rightarrow> details \<Rightarrow>
    chat_gateway \<Rightarrow> chat_session \<times> chat_gateway" where
  "open_chat env fresh from from_name ns nm topic ctx g =
     (case resolve_human (cg_parent g) ns nm of
        None \<Rightarrow>
          (let c = (new_chat (e_now env) fresh topic ns from from_name [] nm ctx)
                 \<lparr>ch_status := ChatClosed, ch_closed := Some (e_now env),
                  ch_reason := ''human '' @ ns @ ''/'' @ nm @ '' not found''\<rparr>
           in (c, chat_create c g))
      | Some h \<Rightarrow>
          (let c = new_chat (e_now env) fresh topic ns from from_name (hu_pid h) (hu_name h) ctx
           in (c, chat_audit env from ''a2h.chat.open''
                 [(''chat_id'', PStr fresh), (''to_human'', PStr (human_qualified h))] (chat_create c g))))"

definition open_for_human :: "kenv \<Rightarrow> string \<Rightarrow> string \<Rightarrow> string \<Rightarrow> string \<Rightarrow> string \<Rightarrow> string \<Rightarrow> string \<Rightarrow> details \<Rightarrow>
    chat_gateway \<Rightarrow> chat_session \<times> chat_gateway" where
  "open_for_human env fresh agent agent_name ns hpid hname topic ctx g =
     (let c = new_chat (e_now env) fresh topic ns agent agent_name hpid hname ctx
      in (c, chat_audit env (if hpid = [] then ''human'' else hpid) ''a2h.chat.open''
            [(''chat_id'', PStr fresh), (''to_agent'', PStr (ns @ ''/'' @ agent_name))] (chat_create c g)))"

definition not_ok :: "string \<Rightarrow> details" where
  "not_ok msg = [(''ok'', PBool False), (''error'', PStr msg)]"

definition close_chat :: "kenv \<Rightarrow> string \<Rightarrow> string \<Rightarrow> chat_gateway \<Rightarrow> details \<times> chat_gateway" where
  "close_chat env i reason g =
     (case map_of (cg_chats g) i of
        None \<Rightarrow> (not_ok ''chat not found'', g)
      | Some c \<Rightarrow>
        (case chat_close (e_now env) i reason (cg_chats g) of
           (ok, s) \<Rightarrow>
             (let g1 = g\<lparr>cg_chats := s\<rparr>;
                  g2 = (if ok then chat_audit env (ch_agent c) ''a2h.chat.close''
                          [(''chat_id'', PStr i), (''reason'', PStr reason)] g1 else g1)
              in ([(''ok'', PBool ok), (''chat_id'', PStr i), (''status'', PStr ''closed'')], g2))))"

definition post :: "kenv \<Rightarrow> string \<Rightarrow> string \<Rightarrow> string \<Rightarrow> string \<Rightarrow> string \<Rightarrow> chat_gateway \<Rightarrow> details \<times> chat_gateway" where
  "post env fresh i role sender content g =
     (if role \<notin> {''human'', ''agent'', ''system''} then (not_ok (''invalid role: '' @ role), g)
      else (case map_of (cg_chats g) i of
          None \<Rightarrow> (not_ok ''chat not found'', g)
        | Some c \<Rightarrow>
          if ch_status c \<noteq> ChatOpen then (not_ok (''chat is '' @ chat_status_value (ch_status c)), g)
          else (let m = \<lparr>cm_id = fresh, cm_chat = i, cm_role = role, cm_sender = sender, cm_content = content, cm_ts = e_now env\<rparr>
                in (case chat_append i m (cg_chats g) of
                    (False, s) \<Rightarrow> (not_ok ''append failed'', g\<lparr>cg_chats := s\<rparr>)
                  | (True, s) \<Rightarrow>
                      ([(''ok'', PBool True), (''message'', PDict (message_dict m)),
                        (''chat_status'', PStr (chat_status_value (ch_status c)))],
                       chat_audit env (if sender = [] then role else sender) ''a2h.chat.message''
                         [(''chat_id'', PStr i), (''role'', PStr role), (''len'', PInt (int (length content)))]
                         (g\<lparr>cg_chats := s\<rparr>))))))"

definition messages_reply :: "string \<Rightarrow> chat_session \<Rightarrow> chat_message list \<Rightarrow> details" where
  "messages_reply i c ms = [(''ok'', PBool True), (''chat_id'', PStr i), (''status'', PStr (chat_status_value (ch_status c))),
     (''messages'', PList (map (\<lambda>m. PDict (message_dict m)) ms))]"

definition fetch :: "string \<Rightarrow> string option \<Rightarrow> chat_gateway \<Rightarrow> details" where
  "fetch i since g = (case map_of (cg_chats g) i of None \<Rightarrow> not_ok ''chat not found''
     | Some c \<Rightarrow> messages_reply i c (messages_after (cg_chats g) i since))"

text \<open>The session object is live: its status is read after the wait.\<close>

definition wait_chat :: "string \<Rightarrow> string option \<Rightarrow> chat_store option \<Rightarrow> chat_gateway \<Rightarrow> details" where
  "wait_chat i since later g =
     (case map_of (cg_chats g) i of
        None \<Rightarrow> not_ok ''chat not found''
      | Some c \<Rightarrow>
        (let c' = (if wait_blocks (cg_chats g) i since
                   then (case later of None \<Rightarrow> c | Some s \<Rightarrow> (case map_of s i of None \<Rightarrow> c | Some c' \<Rightarrow> c')) else c)
         in messages_reply i c' (wait_for_new (cg_chats g) later i since)))"

definition get_session :: "string \<Rightarrow> bool \<Rightarrow> chat_gateway \<Rightarrow> details option" where
  "get_session i include g = map_option (session_dict include) (map_of (cg_chats g) i)"

definition list_chats :: "string option \<Rightarrow> string option \<Rightarrow> string option \<Rightarrow> chat_gateway \<Rightarrow> details list res" where
  "list_chats who agent st g =
     (case set_filter st of
        None \<Rightarrow> Inr (map (session_dict False) (chat_list (cg_chats g) who agent None))
      | Some x \<Rightarrow>
        if x = ''open'' then Inr (map (session_dict False) (chat_list (cg_chats g) who agent (Some ChatOpen)))
        else if x = ''closed'' then Inr (map (session_dict False) (chat_list (cg_chats g) who agent (Some ChatClosed)))
        else Inl ValueError)"

subsection \<open>Histories\<close>

text \<open>What happens to a gateway, and to a reader that polls the chat \<open>i\<close> with the id of the last message
  it got.\<close>

datatype chat_op = COpen kenv string string string string string string details
  | CHuman kenv string string string string string string string details
  | CPost kenv string string string string string | CClose kenv string string | CPoll

type_synonym reader = "pyval list \<times> string option"

definition id_of_dict :: "pyval \<Rightarrow> string option" where
  "id_of_dict v = (case v of PDict d \<Rightarrow> (case map_of d ''id'' of Some (PStr s) \<Rightarrow> Some s | _ \<Rightarrow> None) | _ \<Rightarrow> None)"

definition poll :: "string \<Rightarrow> chat_gateway \<Rightarrow> reader \<Rightarrow> reader" where
  "poll i g r =
     (case map_of (fetch i (snd r) g) ''messages'' of
        Some (PList ms) \<Rightarrow> (fst r @ ms, if ms = [] then snd r else id_of_dict (last ms))
      | _ \<Rightarrow> r)"

fun chat_step :: "chat_op \<Rightarrow> chat_gateway \<Rightarrow> chat_gateway" where
  "chat_step (COpen env j f fn ns nm t c) g = snd (open_chat env j f fn ns nm t c g)"
| "chat_step (CHuman env j a an ns hp hn t c) g = snd (open_for_human env j a an ns hp hn t c g)"
| "chat_step (CPost env m j role who text) g = snd (post env m j role who text g)"
| "chat_step (CClose env j why) g = snd (close_chat env j why g)"
| "chat_step CPoll g = g"

fun polls :: "chat_op \<Rightarrow> bool" where
  "polls CPoll = True"
| "polls _ = False"

primrec chat_run :: "string \<Rightarrow> chat_op list \<Rightarrow> reader \<times> chat_gateway \<Rightarrow> reader \<times> chat_gateway" where
  "chat_run i [] s = s"
| "chat_run i (x # xs) s = chat_run i xs (if polls x then poll i (snd s) (fst s) else fst s, chat_step x (snd s))"

fun creates :: "string \<Rightarrow> chat_op \<Rightarrow> bool" where
  "creates i (COpen env j f fn ns nm t c) = (j = i)"
| "creates i (CHuman env j a an ns hp hn t c) = (j = i)"
| "creates i _ = False"

fun post_ids :: "chat_op list \<Rightarrow> string list" where
  "post_ids [] = []"
| "post_ids (CPost env m j role who text # xs) = m # post_ids xs"
| "post_ids (_ # xs) = post_ids xs"

lemma chat_audit_chats [simp]: "cg_chats (chat_audit env who actn dets g) = cg_chats g"
  by (simp add: chat_audit_def)

text \<open>How one operation changes a chat: nothing, a close, or one more message of an open chat.\<close>

definition chat_change :: "chat_op \<Rightarrow> chat_session \<Rightarrow> chat_session \<Rightarrow> bool" where
  "chat_change x c c' \<longleftrightarrow> c' = c \<or>
     (ch_messages c' = ch_messages c \<and> ch_status c' = ChatClosed) \<or>
     (ch_status c = ChatOpen \<and> ch_status c' = ChatOpen \<and>
      (\<exists>m. ch_messages c' = ch_messages c @ [m] \<and> (\<forall>xs. post_ids (x # xs) = cm_id m # post_ids xs)))"

lemma chat_step_change:
  assumes "map_of (cg_chats g) i = Some c" and "\<not> creates i x"
  shows "\<exists>c'. map_of (cg_chats (chat_step x g)) i = Some c' \<and> chat_change x c c'"
proof (cases x)
  case (COpen env j f fn ns nm t d)
  with assms show ?thesis
    by (auto simp: open_chat_def chat_create_def new_chat_def chat_change_def Let_def split: option.split)
next
  case (CHuman env j a an ns hp hn t d)
  with assms show ?thesis by (auto simp: open_for_human_def chat_create_def new_chat_def chat_change_def Let_def)
next
  case (CPost env m j role who body)
  show ?thesis
  proof (cases "role \<in> {''human'', ''agent'', ''system''} \<and> j = i \<and> ch_status c = ChatOpen")
    case True
    with assms CPost show ?thesis
      by (auto simp: post_def chat_append_def chat_change_def Let_def)
  next
    case False
    with assms CPost show ?thesis
      by (auto simp: post_def chat_append_def chat_change_def Let_def split: option.split)
  qed
next
  case (CClose env j why)
  let ?c = "c\<lparr>ch_status := ChatClosed, ch_closed := Some (e_now env), ch_reason := why\<rparr>"
  show ?thesis
  proof (cases "j = i")
    case True
    with assms CClose have "map_of (cg_chats (chat_step x g)) i = Some ?c"
      by (simp add: close_chat_def chat_close_def Let_def)
    then show ?thesis by (auto simp: chat_change_def)
  next
    case False
    with assms CClose show ?thesis
      by (simp add: close_chat_def chat_close_def chat_change_def Let_def split: option.split)
  qed
next
  case CPoll
  with assms show ?thesis by (simp add: chat_change_def)
qed

text \<open>A closed chat is final: in every history, whoever posts, its messages never change and it is never
  open again, unless a chat is created under its very id.\<close>

theorem closed_chats_stay_silent:
  assumes "map_of (cg_chats g) i = Some c" and "ch_status c = ChatClosed" and "list_all (\<lambda>x. \<not> creates i x) ops"
  shows "\<exists>c'. map_of (cg_chats (snd (chat_run i ops (r, g)))) i = Some c' \<and> ch_status c' = ChatClosed \<and>
    ch_messages c' = ch_messages c"
  using assms
proof (induction ops arbitrary: r g c)
  case (Cons x ops)
  with chat_step_change [of g i c x] obtain c1 where
    "map_of (cg_chats (chat_step x g)) i = Some c1" "chat_change x c c1" by auto
  with Cons.prems have c1: "map_of (cg_chats (chat_step x g)) i = Some c1" "ch_status c1 = ChatClosed"
    "ch_messages c1 = ch_messages c" by (auto simp: chat_change_def)
  from Cons.IH [OF c1(1,2)] Cons.prems c1(3) show ?case by simp
qed simp

subsection \<open>Polling\<close>

definition transcript :: "chat_session \<Rightarrow> pyval list" where
  "transcript c = map (\<lambda>m. PDict (message_dict m)) (ch_messages c)"

definition distinct_ids :: "chat_session \<Rightarrow> string list \<Rightarrow> bool" where
  "distinct_ids c new \<longleftrightarrow> distinct (map cm_id (ch_messages c) @ new) \<and> [] \<notin> set (map cm_id (ch_messages c) @ new)"

text \<open>A reader that has got the first \<open>n\<close> messages.\<close>

definition caught_up :: "nat \<Rightarrow> chat_session \<Rightarrow> reader \<Rightarrow> bool" where
  "caught_up n c r \<longleftrightarrow> n \<le> length (ch_messages c) \<and> fst r = take n (transcript c) \<and>
     snd r = (if n = 0 then None else Some (cm_id (ch_messages c ! (n - 1))))"

lemma after_first_nth:
  "distinct (map f xs) \<Longrightarrow> k < length xs \<Longrightarrow> after_first (\<lambda>x. f x = f (xs ! k)) xs = Some (drop (Suc k) xs)"
proof (induction xs arbitrary: k)
  case (Cons x xs)
  then show ?case by (cases k) (auto dest: nth_mem [THEN imageI, of _ _ f])
qed simp

lemma messages_after_caught_up:
  assumes "map_of s i = Some c" and "distinct_ids c new" and "caught_up n c r"
  shows "messages_after s i (snd r) = drop n (ch_messages c)"
proof (cases n)
  case 0
  with assms show ?thesis by (simp add: messages_after_def caught_up_def set_filter_def)
next
  case (Suc k)
  with assms(3) have k: "k < length (ch_messages c)" "snd r = Some (cm_id (ch_messages c ! k))"
    by (simp_all add: caught_up_def)
  then have "cm_id (ch_messages c ! k) \<in> set (map cm_id (ch_messages c))" by simp
  with assms(2) have "cm_id (ch_messages c ! k) \<noteq> []" by (auto simp: distinct_ids_def)
  moreover have "after_first (\<lambda>m. cm_id m = cm_id (ch_messages c ! k)) (ch_messages c) = Some (drop (Suc k) (ch_messages c))"
    using after_first_nth [of cm_id "ch_messages c" k] assms(2) k by (simp add: distinct_ids_def)
  ultimately show ?thesis
    using assms(1) k Suc by (simp add: messages_after_def set_filter_def)
qed

lemma id_of_message [simp]: "id_of_dict (PDict (message_dict m)) = Some (cm_id m)"
  by (simp add: id_of_dict_def message_dict_def)

lemma poll_catches_up:
  assumes "map_of (cg_chats g) i = Some c" and "distinct_ids c new" and "caught_up n c r"
  shows "caught_up (length (ch_messages c)) c (poll i g r)"
proof -
  let ?ms = "map (\<lambda>m. PDict (message_dict m)) (drop n (ch_messages c))"
  have f: "map_of (fetch i (snd r) g) ''messages'' = Some (PList ?ms)"
    using messages_after_caught_up [OF assms] assms(1) by (simp add: fetch_def messages_reply_def)
  from assms(3) have n: "n \<le> length (ch_messages c)" "fst r = take n (transcript c)"
    "snd r = (if n = 0 then None else Some (cm_id (ch_messages c ! (n - 1))))" by (simp_all add: caught_up_def)
  show ?thesis
  proof (cases "n = length (ch_messages c)")
    case True
    with f n show ?thesis by (simp add: poll_def caught_up_def transcript_def)
  next
    case False
    with n have "ch_messages c \<noteq> []" "n < length (ch_messages c)" by auto
    moreover from this have "last ?ms = PDict (message_dict (last (ch_messages c)))" by (simp add: last_map last_drop)
    moreover have "take n (transcript c) @ ?ms = transcript c" by (simp add: transcript_def take_map [symmetric] drop_map [symmetric])
    ultimately show ?thesis
      using f n by (simp add: poll_def caught_up_def transcript_def last_conv_nth)
  qed
qed

lemma post_ids_tail: "distinct_ids c (post_ids (x # ops)) \<Longrightarrow> distinct_ids c (post_ids ops)"
  by (cases x) (auto simp: distinct_ids_def)

lemma chat_run_caught_up:
  assumes "map_of (cg_chats g) i = Some c" and "distinct_ids c (post_ids ops)" and "caught_up n c r"
    and "list_all (\<lambda>x. \<not> creates i x) ops"
  shows "\<exists>c' k. map_of (cg_chats (snd (chat_run i ops (r, g)))) i = Some c' \<and> distinct_ids c' [] \<and>
    caught_up k c' (fst (chat_run i ops (r, g)))"
  using assms
proof (induction ops arbitrary: r g c n)
  case Nil
  then show ?case by auto
next
  case (Cons x ops)
  with chat_step_change [of g i c x] obtain c1 where
    c1: "map_of (cg_chats (chat_step x g)) i = Some c1" "chat_change x c c1" by auto
  let ?r = "if polls x then poll i g r else r"
  obtain k where k: "caught_up k c ?r"
    using poll_catches_up [OF Cons.prems(1,2,3)] Cons.prems(3) by (cases "polls x") auto
  from c1(2) have "ch_messages c1 = ch_messages c \<or>
      (\<exists>m. ch_messages c1 = ch_messages c @ [m] \<and> post_ids (x # ops) = cm_id m # post_ids ops)"
    by (auto simp: chat_change_def)
  then have "distinct_ids c1 (post_ids ops) \<and> caught_up k c1 ?r"
  proof (elim disjE exE conjE)
    assume eq: "ch_messages c1 = ch_messages c"
    from post_ids_tail [OF Cons.prems(2)] eq have "distinct_ids c1 (post_ids ops)" by (simp add: distinct_ids_def)
    moreover from k eq have "caught_up k c1 ?r" by (simp add: caught_up_def transcript_def)
    ultimately show ?thesis by simp
  next
    fix m assume eq: "ch_messages c1 = ch_messages c @ [m]" "post_ids (x # ops) = cm_id m # post_ids ops"
    from Cons.prems(2) eq have "distinct_ids c1 (post_ids ops)" by (simp add: distinct_ids_def)
    moreover from k eq(1) have "caught_up k c1 ?r"
      unfolding caught_up_def transcript_def by (auto simp: nth_append)
    ultimately show ?thesis by simp
  qed
  with Cons.IH [OF c1(1), of k ?r] Cons.prems(4) show ?case by (cases "polls x") auto
qed

text \<open>A reader that polls with the id of the last message it got misses nothing and sees nothing twice:
  after any interleaving of posts by anyone, closes and polls, what it has is a prefix of the
  transcript, and one more poll gives it the whole transcript, once and in order.\<close>

theorem polling_sees_every_message_once:
  assumes "map_of (cg_chats g) i = Some c" and "distinct_ids c (post_ids ops)" and "list_all (\<lambda>x. \<not> creates i x) ops"
    and "chat_run i ops (([], None), g) = (r, g')"
  shows "\<exists>c' k. map_of (cg_chats g') i = Some c' \<and> fst r = take k (transcript c') \<and> fst (poll i g' r) = transcript c'"
proof -
  have "caught_up 0 c ([], None)" by (simp add: caught_up_def)
  from chat_run_caught_up [OF assms(1,2) this assms(3)] assms(4) obtain c' k where
    c': "map_of (cg_chats g') i = Some c'" "distinct_ids c' []" "caught_up k c' r" by auto
  from poll_catches_up [OF this] have "fst (poll i g' r) = transcript c'"
    by (simp add: caught_up_def transcript_def)
  with c' show ?thesis by (auto simp: caught_up_def)
qed

text \<open>A chat with one message, and a history with posts from both sides, polls and a close.\<close>

definition demo_chats :: chat_gateway where
  "demo_chats = snd (post demo_env ''m1'' ''c1'' ''human'' ''sarah'' ''hello''
     (snd (open_chat demo_env ''c1'' ''a1'' ''bot'' ''sales'' ''sarah'' ''topic'' [] \<lparr>cg_parent = demo_gateway, cg_chats = []\<rparr>)))"

definition demo_talk :: "chat_op list" where
  "demo_talk = [CPoll, CPost demo_env ''m2'' ''c1'' ''agent'' ''a1'' ''hi'', CPost demo_env ''m3'' ''c2'' ''agent'' ''a1'' ''lost'', CPoll,
     CPost demo_env ''m4'' ''c1'' ''human'' ''sarah'' ''bye'', CClose demo_env ''c1'' ''done'',
     CPost demo_env ''m5'' ''c1'' ''agent'' ''a1'' ''late'']"

lemma polling_sees_every_message_once_witness:
  "\<exists>r g'. chat_run ''c1'' demo_talk (([], None), demo_chats) = (r, g') \<and> length (fst r) = 2 \<and>
     (\<exists>c'. map_of (cg_chats g') ''c1'' = Some c' \<and> map cm_id (ch_messages c') = [''m1'', ''m2'', ''m4''] \<and>
       fst (poll ''c1'' g' r) = transcript c')"
proof -
  have "map_option (\<lambda>c. map cm_id (ch_messages c)) (map_of (cg_chats demo_chats) ''c1'') = Some [''m1'']" by code_simp
  then obtain c where c: "map_of (cg_chats demo_chats) ''c1'' = Some c" "map cm_id (ch_messages c) = [''m1'']" by auto
  have "post_ids demo_talk = [''m2'', ''m3'', ''m4'', ''m5'']" by code_simp
  with c(2) have d: "distinct_ids c (post_ids demo_talk)" by (simp add: distinct_ids_def)
  have ops: "list_all (\<lambda>x. \<not> creates ''c1'' x) demo_talk" by code_simp
  obtain r g' where run: "chat_run ''c1'' demo_talk (([], None), demo_chats) = (r, g')" by fastforce
  have "length (fst (fst (chat_run ''c1'' demo_talk (([], None), demo_chats)))) = 2"
    and "map_option (\<lambda>c. map cm_id (ch_messages c)) (map_of (cg_chats (snd (chat_run ''c1'' demo_talk (([], None), demo_chats)))) ''c1'') =
      Some [''m1'', ''m2'', ''m4'']" by code_simp+
  with run polling_sees_every_message_once [OF c(1) d ops run] show ?thesis by auto
qed

lemma closed_chats_stay_silent_witness:
  "\<exists>c c'. map_of (cg_chats (snd (close_chat demo_env ''c1'' ''done'' demo_chats))) ''c1'' = Some c \<and>
     map_of (cg_chats (snd (chat_run ''c1'' demo_talk (([], None), snd (close_chat demo_env ''c1'' ''done'' demo_chats))))) ''c1'' = Some c' \<and>
     ch_status c' = ChatClosed \<and> ch_messages c' = ch_messages c \<and> length (ch_messages c) = 1"
proof -
  let ?g = "snd (close_chat demo_env ''c1'' ''done'' demo_chats)"
  have "map_option (\<lambda>c. (ch_status c, length (ch_messages c))) (map_of (cg_chats ?g) ''c1'') = Some (ChatClosed, 1)" by code_simp
  then obtain c where c: "map_of (cg_chats ?g) ''c1'' = Some c" "ch_status c = ChatClosed" "length (ch_messages c) = 1" by auto
  have ops: "list_all (\<lambda>x. \<not> creates ''c1'' x) demo_talk" by code_simp
  from closed_chats_stay_silent [OF c(1,2) ops, of "([], None)"] c show ?thesis by auto
qed

end
