(* ===== verification/Handlers.thy ===== *)
theory Handlers
  imports ToolExecutor Chat
begin

text \<open>
  The tools with which agents reach humans: the handlers \<open>human__*\<close> of \<open>src/src/mcp/tool_executor.py\<close> on the gateway of
  \<open>Approvals\<close> and \<open>Chat\<close>. The schemas declare texts and objects for the arguments; a value of
  another type is read as its text, and as no context.
\<close>

record human_desk =
  hd_gateway :: "chat_gateway option"
  hd_has_chat :: bool

definition with_gateway :: "chat_gateway \<Rightarrow> human_desk \<Rightarrow> human_desk" where
  "with_gateway g s = s\<lparr>hd_gateway := Some g\<rparr>"

definition with_parent :: "chat_gateway \<Rightarrow> a2h_gateway \<Rightarrow> human_desk \<Rightarrow> human_desk" where
  "with_parent g p s = with_gateway (g\<lparr>cg_parent := p\<rparr>) s"

definition calling_agent :: "details option \<Rightarrow> string" where
  "calling_agent ctx = (case ctx of None \<Rightarrow> [] | Some c \<Rightarrow> py_str (dget_default c ''agent_id'' (PStr [])))"

text \<open>\<open>input[k]\<close>, \<open>input.get(k, default)\<close>, \<open>input.get(k)\<close> of an optional text and of a context.\<close>

definition text_arg :: "details \<Rightarrow> string \<Rightarrow> string res" where
  "text_arg inp k = (case map_of inp k of None \<Rightarrow> Inl (KeyError k) | Some v \<Rightarrow> Inr (py_str v))"

definition text_default :: "details \<Rightarrow> string \<Rightarrow> string \<Rightarrow> string" where
  "text_default inp k dflt = py_str (dget_default inp k (PStr dflt))"

definition optional_text :: "details \<Rightarrow> string \<Rightarrow> string option" where
  "optional_text inp k = (let v = dget_default inp k PNone in if truthy v then Some (py_str v) else None)"

definition context_arg :: "details \<Rightarrow> details" where
  "context_arg inp = (case dget_default inp ''context'' PNone of PDict d \<Rightarrow> d | _ \<Rightarrow> [])"

definition error_reply :: "string \<Rightarrow> pyval" where
  "error_reply msg = PDict [(''error'', PStr msg)]"

subsection \<open>Questions and notices\<close>

definition ask_of_input :: "string \<Rightarrow> details \<Rightarrow> ask_args res" where
  "ask_of_input agent inp =
     rbind (text_arg inp ''name'') (\<lambda>nm. rbind (text_arg inp ''question'') (\<lambda>q. Inr
       \<lparr>aa_from = agent, aa_from_name = agent, aa_ns = text_default inp ''namespace'' ''default'', aa_name = nm,
        aa_question = q, aa_response_type = text_default inp ''response_type'' ''text'',
        aa_options = dget_default inp ''options'' PNone,
        aa_deadline = (let v = dget_default inp ''deadline'' PNone in if truthy v then stamp_of_json v else None),
        aa_sla_hours = 24, aa_priority = text_default inp ''priority'' ''medium'', aa_context = context_arg inp,
        aa_escalation = None\<rparr>))"

definition handle_human_ask :: "kenv \<Rightarrow> string \<Rightarrow> details \<Rightarrow> details option \<Rightarrow> human_desk \<Rightarrow> pyval res \<times> human_desk" where
  "handle_human_ask env fresh inp ctx s =
     (case hd_gateway s of
        None \<Rightarrow> (Inr (error_reply ''A2H gateway not available''), s)
      | Some g \<Rightarrow>
        (case ask_of_input (calling_agent ctx) inp of
           Inl e \<Rightarrow> (Inl e, s)
         | Inr a \<Rightarrow> (case ask env fresh a (cg_parent g) of
             (r, p) \<Rightarrow> (map_sum id (\<lambda>q. PDict (request_to_dict q)) r, with_parent g p s))))"

definition notification_to_dict :: "notification \<Rightarrow> details" where
  "notification_to_dict n =
     [(''protocol'', PStr ''a2h/v1''), (''id'', PStr (nt_id n)), (''type'', PStr ''notification''),
      (''from'', PDict [(''name'', PStr (nt_from_name n)), (''namespace'', PStr (nt_from_ns n))]),
      (''to'', PDict [(''name'', PStr (nt_to_name n)), (''namespace'', PStr (nt_ns n))]),
      (''content'', PDict [(''message'', PStr (nt_message n)), (''severity'', PStr (nt_severity n)),
         (''context'', PDict (nt_context n))]),
      (''priority'', PStr (nt_priority n)), (''created_at'', PInt (nt_created n))]"

definition handle_human_notify :: "kenv \<Rightarrow> string \<Rightarrow> details \<Rightarrow> details option \<Rightarrow> human_desk \<Rightarrow> pyval res \<times> human_desk" where
  "handle_human_notify env fresh inp ctx s =
     (case hd_gateway s of
        None \<Rightarrow> (Inr (error_reply ''A2H gateway not available''), s)
      | Some g \<Rightarrow>
        (case (text_arg inp ''name'', text_arg inp ''message'') of
           (Inr nm, Inr msg) \<Rightarrow>
             (case notify env fresh (calling_agent ctx) (calling_agent ctx) (text_default inp ''namespace'' ''default'') nm msg
                  (text_default inp ''priority'' ''low'') (context_arg inp) (cg_parent g) of
                (r, p) \<Rightarrow> (map_sum id (\<lambda>n. PDict (notification_to_dict n)) r, with_parent g p s))
         | (Inl e, _) \<Rightarrow> (Inl e, s)
         | (_, Inl e) \<Rightarrow> (Inl e, s)))"

definition handle_human_check :: "kenv \<Rightarrow> details \<Rightarrow> human_desk \<Rightarrow> pyval res \<times> human_desk" where
  "handle_human_check env inp s =
     (case hd_gateway s of
        None \<Rightarrow> (Inr (error_reply ''A2H gateway not available''), s)
      | Some g \<Rightarrow>
        (case text_arg inp ''request_id'' of
           Inl e \<Rightarrow> (Inl e, s)
         | Inr i \<Rightarrow> (case get_request env i (cg_parent g) of
             (None, p) \<Rightarrow> (Inr (error_reply ''Request not found''), with_parent g p s)
           | (Some d, p) \<Rightarrow> (Inr (PDict d), with_parent g p s))))"

subsection \<open>Chats\<close>

definition chats_of :: "human_desk \<Rightarrow> chat_gateway option" where
  "chats_of s = (if hd_has_chat s then hd_gateway s else None)"

definition no_chat :: "pyval res" where
  "no_chat = Inr (error_reply ''A2H chat not available'')"

text \<open>\<open>float(input.get("wait_seconds", 120) or 0)\<close>, and whether the handler waits at all: \<open>nan\<close> is not at most zero.\<close>

definition wait_seconds :: "details \<Rightarrow> pyfloat res" where
  "wait_seconds inp =
     (let v = dget_default inp ''wait_seconds'' (PInt 120)
      in if truthy v then (case py_float v of Some x \<Rightarrow> Inr x
            | None \<Rightarrow> Inl (case v of PStr _ \<Rightarrow> ValueError | _ \<Rightarrow> TypeError))
         else Inr (Fin 0))"

definition waits :: "pyfloat \<Rightarrow> bool" where
  "waits x \<longleftrightarrow> \<not> (fl_less x (Fin 0) \<or> x = Fin 0)"

text \<open>The session to post to: the one that is named, or a new one.\<close>

definition chat_for :: "kenv \<Rightarrow> string \<Rightarrow> details \<Rightarrow> details option \<Rightarrow> chat_gateway \<Rightarrow> (pyval + string) res \<times> chat_gateway" where
  "chat_for env fresh inp ctx g =
     (case optional_text inp ''chat_id'' of
        Some i \<Rightarrow> (Inr (Inr i), g)
      | None \<Rightarrow>
        (case text_arg inp ''name'' of
           Inl e \<Rightarrow> (Inl e, g)
         | Inr nm \<Rightarrow>
           (case open_chat env fresh (calling_agent ctx) (calling_agent ctx) (text_default inp ''namespace'' ''default'') nm
                (text_default inp ''topic'' []) (context_arg inp) g of
              (c, g1) \<Rightarrow>
                if ch_status c = ChatClosed
                then (Inr (Inl (error_reply (if ch_reason c = [] then ''could not open chat'' else ch_reason c))), g1)
                else (Inr (Inr (ch_id c)), g1))))"

text \<open>The long poll. \<open>others\<close> is what everyone else made of the gateway when the wait ended with news, \<open>None\<close> when it timed
  out.\<close>

definition await_reply :: "string \<Rightarrow> string \<Rightarrow> (chat_gateway \<Rightarrow> chat_gateway option) \<Rightarrow> chat_gateway \<Rightarrow> pyval \<times> chat_gateway" where
  "await_reply i since others g =
     (let later = (if wait_blocks (cg_chats g) i (Some since) then others g else None);
          r = wait_chat i (Some since) (map_option cg_chats later) g
      in (PDict [(''chat_id'', PStr i), (''status'', dget_default r ''status'' PNone),
            (''messages'', dget_default r ''messages'' (PList []))],
          case later of None \<Rightarrow> g | Some g' \<Rightarrow> g'))"

definition post_and_wait :: "kenv \<Rightarrow> string \<Rightarrow> (chat_gateway \<Rightarrow> chat_gateway option) \<Rightarrow> string \<Rightarrow> details \<Rightarrow> details option \<Rightarrow>
    chat_gateway \<Rightarrow> pyval res \<times> chat_gateway" where
  "post_and_wait env mid others i inp ctx g =
     (case text_arg inp ''message'' of
        Inl e \<Rightarrow> (Inl e, g)
      | Inr text \<Rightarrow>
        (case post env mid i ''agent'' (calling_agent ctx) text g of
           (d, g1) \<Rightarrow>
             if \<not> truthy (dget_default d ''ok'' PNone)
             then (Inr (PDict [(''error'', dget_default d ''error'' (PStr ''post failed'')), (''chat_id'', PStr i)]), g1)
             else (case wait_seconds inp of
                 Inl e \<Rightarrow> (Inl e, g1)
               | Inr x \<Rightarrow>
                 if \<not> waits x
                 then (Inr (PDict [(''chat_id'', PStr i), (''status'', PStr ''open''), (''messages'', PList [])]), g1)
                 else apfst Inr (await_reply i mid others g1))))"

definition handle_human_chat :: "kenv \<Rightarrow> string \<Rightarrow> string \<Rightarrow> (chat_gateway \<Rightarrow> chat_gateway option) \<Rightarrow> details \<Rightarrow> details option \<Rightarrow>
    human_desk \<Rightarrow> pyval res \<times> human_desk" where
  "handle_human_chat env fresh mid others inp ctx s =
     (case chats_of s of
        None \<Rightarrow> (no_chat, s)
      | Some g \<Rightarrow>
        (case chat_for env fresh inp ctx g of
           (Inl e, g1) \<Rightarrow> (Inl e, with_gateway g1 s)
         | (Inr (Inl v), g1) \<Rightarrow> (Inr v, with_gateway g1 s)
         | (Inr (Inr i), g1) \<Rightarrow> apsnd (\<lambda>g2. with_gateway g2 s) (post_and_wait env mid others i inp ctx g1)))"

definition handle_human_chat_check :: "details \<Rightarrow> details option \<Rightarrow> human_desk \<Rightarrow> pyval res" where
  "handle_human_chat_check inp ctx s =
     (case chats_of s of
        None \<Rightarrow> no_chat
      | Some g \<Rightarrow> rbind (text_arg inp ''chat_id'') (\<lambda>i. Inr (PDict (fetch i (optional_text inp ''since'') g))))"

definition handle_human_chat_close :: "kenv \<Rightarrow> details \<Rightarrow> details option \<Rightarrow> human_desk \<Rightarrow> pyval res \<times> human_desk" where
  "handle_human_chat_close env inp ctx s =
     (case chats_of s of
        None \<Rightarrow> (no_chat, s)
      | Some g \<Rightarrow>
        (case text_arg inp ''chat_id'' of
           Inl e \<Rightarrow> (Inl e, s)
         | Inr i \<Rightarrow> (case close_chat env i (text_default inp ''reason'' []) g of (d, g1) \<Rightarrow> (Inr (PDict d), with_gateway g1 s))))"

subsection \<open>Questions can be looked up\<close>

lemma resolve_human_none: "resolve_human g ns nm = None \<Longrightarrow> g_humans g = []"
  by (auto simp: resolve_human_def Let_def split: option.splits list.splits)

lemma py_str_text [simp]: "py_str (PStr x) = x"
  by (simp add: py_str_def)

lemma with_parent_simps [simp]:
  "hd_gateway (with_parent g p s) = Some (g\<lparr>cg_parent := p\<rparr>)" "hd_has_chat (with_parent g p s) = hd_has_chat s"
  by (simp_all add: with_parent_def with_gateway_def)

lemma ask_stored:
  assumes "ask env fresh a g = (Inr r, g')" and "g_humans g \<noteq> []"
  shows "hr_id r = fresh \<and> map_of (hq_requests (g_store g')) fresh = Some r"
proof -
  from assms(2) obtain h0 where h0: "resolve_human g (aa_ns a) (aa_name a) = Some h0"
    using resolve_human_none by (metis not_None_eq)
  with assms(1) obtain h where d: "auto_delegate (e_now env) (hu_rules h) (new_request (e_now env) fresh a h) = Inr r"
    by (auto simp: ask_def Let_def split: if_splits sum.splits)
  from auto_delegate_id [OF d] have i: "hr_id r = fresh" by (simp add: new_request_def)
  from assms(1) h0 have "g_store g' = hq_save r (g_store g)"
    by (auto simp: ask_def Let_def gateway_audit_def deliver_request_def split: if_splits sum.splits option.splits)
  with i show ?thesis by (simp add: hq_save_def)
qed

text \<open>C1: A question that a tool call asked can be looked up under its id by a later call, expired once its deadline has
  passed; but if no human is registered at all, the answer of the call carries an id that cannot be found.\<close>

theorem asked_questions_can_be_checked:
  assumes "hd_gateway s = Some g" and "handle_human_ask env fresh inp ctx s = (Inr v, s')"
    and "map_of (hq_requests (g_store (cg_parent g))) fresh = None"
  shows "\<exists>r. v = PDict (request_to_dict r) \<and> hr_id r = fresh \<and>
    fst (handle_human_check env' [(''request_id'', PStr fresh)] s') =
      Inr (if g_humans (cg_parent g) = [] then error_reply ''Request not found''
           else PDict (request_to_dict (expire (e_now env') r)))"
proof -
  from assms(1,2) obtain a r p where a: "ask env fresh a (cg_parent g) = (Inr r, p)" and v: "v = PDict (request_to_dict r)"
    and s': "s' = with_parent g p s"
    by (auto simp: handle_human_ask_def map_sum_eq_Inr split: sum.splits prod.splits)
  show ?thesis
  proof (cases "g_humans (cg_parent g) = []")
    case True
    with a have "r = undeliverable_request (e_now env) fresh a" "p = cg_parent g"
      by (auto simp: ask_def resolve_human_def)
    with True v s' assms(3) show ?thesis
      by (auto simp: undeliverable_request_def handle_human_check_def text_arg_def get_request_def get_request_obj_def
          hq_get_def Let_def)
  next
    case False
    from ask_stored [OF a this] v s' False show ?thesis
      by (auto simp: handle_human_check_def text_arg_def get_request_def get_request_obj_def hq_get_def Let_def)
  qed
qed

subsection \<open>Whose chat it is\<close>

lemma chats_of_with_gateway [simp]: "chats_of (with_gateway g s) = (if hd_has_chat s then Some g else None)"
  by (simp add: chats_of_def with_gateway_def)

lemma optional_text_of: "map_of inp k = Some (PStr x) \<Longrightarrow> x \<noteq> [] \<Longrightarrow> optional_text inp k = Some x"
  by (simp add: optional_text_def dget_default_def)

text \<open>C27. C2: A chat belongs to nobody: any caller who knows its id reads every message, and can end it, after which the
  agent that opened it cannot speak in it any more.\<close>

theorem any_agent_reads_and_ends_any_chat:
  assumes "chats_of s = Some g" and "map_of (cg_chats g) i = Some c" and "i \<noteq> []"
    and "map_of inp ''chat_id'' = Some (PStr i)" and "map_of inp ''message'' = Some (PStr said)"
  shows "handle_human_chat_check [(''chat_id'', PStr i)] intruder s = Inr (PDict (messages_reply i c (ch_messages c))) \<and>
    fst (handle_human_chat env' fresh mid others inp owner (snd (handle_human_chat_close env [(''chat_id'', PStr i)] intruder s)))
      = Inr (PDict [(''error'', PStr ''chat is closed''), (''chat_id'', PStr i)])"
proof -
  from assms(1) have has: "hd_has_chat s" by (auto simp: chats_of_def split: if_splits)
  let ?g = "snd (close_chat env i [] g)"
  have closed: "map_of (cg_chats ?g) i = Some (c\<lparr>ch_status := ChatClosed, ch_closed := Some (e_now env), ch_reason := []\<rparr>)"
    using assms(2) by (simp add: close_chat_def chat_close_def Let_def)
  have after: "chats_of (snd (handle_human_chat_close env [(''chat_id'', PStr i)] intruder s)) = Some ?g"
    using assms(1) has by (simp add: handle_human_chat_close_def text_arg_def text_default_def dget_default_def split: prod.split)
  have "fst (handle_human_chat env' fresh mid others inp owner (snd (handle_human_chat_close env [(''chat_id'', PStr i)] intruder s)))
      = Inr (PDict [(''error'', PStr ''chat is closed''), (''chat_id'', PStr i)])"
    using after assms(3,4,5) closed
    by (simp add: handle_human_chat_def chat_for_def optional_text_of post_and_wait_def text_arg_def post_def not_ok_def
        dget_default_def)
  moreover have "handle_human_chat_check [(''chat_id'', PStr i)] intruder s = Inr (PDict (messages_reply i c (ch_messages c)))"
    using assms(1,2)
    by (simp add: handle_human_chat_check_def text_arg_def fetch_def optional_text_def dget_default_def messages_after_def
        set_filter_def)
  ultimately show ?thesis by simp
qed

text \<open>C3: A call that opens a chat but forgets the message fails with an exception, and leaves behind an open, empty chat
  whose id nobody was told.\<close>

theorem forgotten_message_leaves_an_open_chat:
  assumes "chats_of s = Some g" and "optional_text inp ''chat_id'' = None" and "map_of inp ''name'' = Some nm"
    and "map_of inp ''message'' = None" and "g_humans (cg_parent g) \<noteq> []"
  shows "\<exists>s' g' c. handle_human_chat env fresh mid others inp ctx s = (Inl (KeyError ''message''), s') \<and>
    chats_of s' = Some g' \<and> map_of (cg_chats g') fresh = Some c \<and> ch_status c = ChatOpen \<and> ch_messages c = []"
proof -
  from assms(1) have has: "hd_has_chat s" by (auto simp: chats_of_def split: if_splits)
  from assms(5) obtain h where "resolve_human (cg_parent g) (text_default inp ''namespace'' ''default'') (py_str nm) = Some h"
    using resolve_human_none by (metis not_None_eq)
  with assms has show ?thesis
    by (simp add: handle_human_chat_def chat_for_def text_arg_def open_chat_def Let_def new_chat_def post_and_wait_def
        chat_create_def)
qed

subsection \<open>Replies\<close>

lemma fold_chat_steps_grow:
  assumes "map_of (cg_chats g) i = Some c" and "list_all (\<lambda>x. \<not> creates i x) ops"
  shows "\<exists>c' new. map_of (cg_chats (fold chat_step ops g)) i = Some c' \<and> ch_messages c' = ch_messages c @ new"
  using assms
proof (induction ops arbitrary: g c)
  case (Cons x ops)
  from chat_step_change [OF Cons.prems(1)] Cons.prems(2) obtain c1 where
    c1: "map_of (cg_chats (chat_step x g)) i = Some c1" "chat_change x c c1" by auto
  then obtain l where "ch_messages c1 = ch_messages c @ l" by (auto simp: chat_change_def)
  with Cons.IH [OF c1(1)] Cons.prems(2) show ?case by auto
qed simp

lemma after_first_fresh: "\<forall>m\<in>set xs. \<not> P m \<Longrightarrow> P x \<Longrightarrow> after_first P (xs @ x # ys) = Some ys"
  by (induction xs) simp_all

lemma posted:
  assumes "map_of (cg_chats g) i = Some c" and "ch_status c = ChatOpen"
  shows "\<exists>m d g1. post env mid i ''agent'' who text g = (d, g1) \<and> map_of d ''ok'' = Some (PBool True) \<and>
    cm_id m = mid \<and> map_of (cg_chats g1) i = Some (c\<lparr>ch_messages := ch_messages c @ [m]\<rparr>)"
  using assms by (simp add: post_def chat_append_def Let_def) (rule exI, rule conjI [OF _ refl], simp)

text \<open>C4: An agent that speaks in an open chat and waits gets, whatever everyone else does with the gateway meanwhile, exactly the
  messages that came after its own, and the state the chat is then in.\<close>

theorem chat_returns_the_replies:
  assumes "chats_of s = Some g" and "map_of (cg_chats g) i = Some c" and "ch_status c = ChatOpen" and "i \<noteq> []"
    and "map_of inp ''chat_id'' = Some (PStr i)" and "map_of inp ''message'' = Some (PStr said)"
    and "wait_seconds inp = Inr x" and "waits x" and "mid \<noteq> []" and "mid \<notin> cm_id ` set (ch_messages c)"
    and "list_all (\<lambda>x. \<not> creates i x) ops"
  shows "\<exists>s' g' c' m new. handle_human_chat env fresh mid (\<lambda>g. Some (fold chat_step ops g)) inp ctx s =
      (Inr (PDict [(''chat_id'', PStr i), (''status'', PStr (chat_status_value (ch_status c'))),
         (''messages'', PList (map (\<lambda>m. PDict (message_dict m)) new))]), s') \<and>
    chats_of s' = Some g' \<and> map_of (cg_chats g') i = Some c' \<and> cm_id m = mid \<and> ch_messages c' = ch_messages c @ m # new"
proof -
  from assms(1) have has: "hd_has_chat s" by (auto simp: chats_of_def split: if_splits)
  from posted [OF assms(2,3)] obtain m d g1 where d: "post env mid i ''agent'' (calling_agent ctx) said g = (d, g1)"
    "map_of d ''ok'' = Some (PBool True)" and m: "cm_id m = mid"
    and g1: "map_of (cg_chats g1) i = Some (c\<lparr>ch_messages := ch_messages c @ [m]\<rparr>)" (is "_ = Some ?c1") by blast
  from fold_chat_steps_grow [OF g1 assms(11)] obtain c' new where
    c': "map_of (cg_chats (fold chat_step ops g1)) i = Some c'" "ch_messages c' = ch_messages c @ m # new" by auto
  have nin: "\<forall>m\<in>set (ch_messages c). cm_id m \<noteq> mid" using assms(10) by blast
  have old: "after_first (\<lambda>m. cm_id m = mid) (ch_messages c @ m # ys) = Some ys" for ys
    by (rule after_first_fresh [OF nin m])
  have blocks: "wait_blocks (cg_chats g1) i (Some mid)"
    using g1 old [of "[]"] assms(3,9) by (simp add: wait_blocks_def messages_after_def set_filter_def)
  have "messages_after (cg_chats (fold chat_step ops g1)) i (Some mid) = new"
    using c' old [of new] assms(9) by (simp add: messages_after_def set_filter_def)
  then have reply: "await_reply i mid (\<lambda>g. Some (fold chat_step ops g)) g1 =
      (PDict [(''chat_id'', PStr i), (''status'', PStr (chat_status_value (ch_status c'))),
         (''messages'', PList (map (\<lambda>m. PDict (message_dict m)) new))], fold chat_step ops g1)"
    using blocks g1 c'(1)
    by (simp add: await_reply_def wait_chat_def wait_for_new_def messages_reply_def dget_default_def)
  have "handle_human_chat env fresh mid (\<lambda>g. Some (fold chat_step ops g)) inp ctx s =
      (Inr (PDict [(''chat_id'', PStr i), (''status'', PStr (chat_status_value (ch_status c'))),
         (''messages'', PList (map (\<lambda>m. PDict (message_dict m)) new))]), with_gateway (fold chat_step ops g1) s)"
    using assms(1,4-8) d reply
    by (simp add: handle_human_chat_def chat_for_def optional_text_of post_and_wait_def text_arg_def dget_default_def)
  moreover have "chats_of (with_gateway (fold chat_step ops g1) s) = Some (fold chat_step ops g1)" using has by simp
  ultimately show ?thesis using c' m by blast
qed

subsection \<open>A desk with one human\<close>

definition demo_desk :: human_desk where
  "demo_desk = \<lparr>hd_gateway = Some demo_chats, hd_has_chat = True\<rparr>"

definition demo_say :: details where
  "demo_say = [(''chat_id'', PStr ''c1''), (''message'', PStr ''hi'')]"

definition demo_replies :: "chat_op list" where
  "demo_replies = [CPost demo_env ''m3'' ''c1'' ''human'' ''sarah'' ''well'', CClose demo_env ''c1'' ''done'']"

definition demo_question :: details where
  "demo_question = [(''name'', PStr ''sarah''), (''namespace'', PStr ''sales''), (''question'', PStr ''Approve?'')]"

definition demo_caller :: "details option" where
  "demo_caller = Some [(''agent_id'', PStr ''a1'')]"

lemma demo_desk_chats: "chats_of demo_desk = Some demo_chats"
  by (simp add: chats_of_def demo_desk_def)

lemma demo_chat: "\<exists>c. map_of (cg_chats demo_chats) ''c1'' = Some c \<and> ch_status c = ChatOpen \<and> map cm_id (ch_messages c) = [''m1'']"
proof -
  have "map_option (\<lambda>c. (ch_status c, map cm_id (ch_messages c))) (map_of (cg_chats demo_chats) ''c1'') = Some (ChatOpen, [''m1''])"
    by code_simp
  then show ?thesis by auto
qed

theorem chat_returns_the_replies_witness:
  "\<exists>s' g' c' (m::chat_message) new. handle_human_chat demo_env ''c9'' ''m2'' (\<lambda>g. Some (fold chat_step demo_replies g)) demo_say demo_caller demo_desk =
      (Inr (PDict [(''chat_id'', PStr ''c1''), (''status'', PStr (chat_status_value (ch_status c'))),
         (''messages'', PList (map (\<lambda>m. PDict (message_dict m)) new))]), s') \<and>
    chats_of s' = Some g' \<and> map_of (cg_chats g') ''c1'' = Some c' \<and> cm_id m = ''m2'' \<and> map cm_id (ch_messages c') = ''m1'' # ''m2'' # map cm_id new"
proof -
  obtain c where c: "map_of (cg_chats demo_chats) ''c1'' = Some c" "ch_status c = ChatOpen"
    "map cm_id (ch_messages c) = [''m1'']" using demo_chat by (elim exE conjE)
  have w: "wait_seconds demo_say = Inr (Fin 120)"
    by (simp add: wait_seconds_def demo_say_def dget_default_def py_float_def)
  have l: "list_all (\<lambda>x. \<not> creates ''c1'' x) demo_replies" by (simp add: demo_replies_def)
  have fresh: "''m2'' \<notin> cm_id ` set (ch_messages c)" using c(3) by auto
  have inp: "map_of demo_say ''chat_id'' = Some (PStr ''c1'')" "map_of demo_say ''message'' = Some (PStr ''hi'')"
    by (simp_all add: demo_say_def)
  have ne: "''c1'' \<noteq> []" "''m2'' \<noteq> []" by simp_all
  have "waits (Fin 120)" by (simp add: waits_def)
  from chat_returns_the_replies [where env = demo_env and fresh = "''c9''" and ctx = demo_caller, OF demo_desk_chats c(1,2) ne(1) inp w this ne(2) fresh l]
  obtain s' g' c' m new where r: "handle_human_chat demo_env ''c9'' ''m2'' (\<lambda>g. Some (fold chat_step demo_replies g)) demo_say demo_caller demo_desk =
      (Inr (PDict [(''chat_id'', PStr ''c1''), (''status'', PStr (chat_status_value (ch_status c'))),
         (''messages'', PList (map (\<lambda>m. PDict (message_dict m)) new))]), s')"
    "chats_of s' = Some g'" "map_of (cg_chats g') ''c1'' = Some c'" "cm_id m = ''m2''" "ch_messages c' = ch_messages c @ m # new"
    by (elim exE conjE)
  from r(4,5) c(3) have "map cm_id (ch_messages c') = ''m1'' # ''m2'' # map cm_id new" by simp
  with r(1-4) show ?thesis by (intro exI conjI)
qed

theorem any_agent_reads_and_ends_any_chat_witness:
  "\<exists>c. map_of (cg_chats demo_chats) ''c1'' = Some c \<and> ch_agent c = ''a1'' \<and>
    handle_human_chat_check [(''chat_id'', PStr ''c1'')] (Some [(''agent_id'', PStr ''eve'')]) demo_desk = Inr (PDict (messages_reply ''c1'' c (ch_messages c))) \<and>
    fst (handle_human_chat demo_env ''c9'' ''m2'' (\<lambda>g. None) demo_say demo_caller
        (snd (handle_human_chat_close demo_env [(''chat_id'', PStr ''c1'')] (Some [(''agent_id'', PStr ''eve'')]) demo_desk)))
      = Inr (PDict [(''error'', PStr ''chat is closed''), (''chat_id'', PStr ''c1'')])"
proof -
  have "map_option ch_agent (map_of (cg_chats demo_chats) ''c1'') = Some ''a1''" by code_simp
  then obtain c where c: "map_of (cg_chats demo_chats) ''c1'' = Some c" "ch_agent c = ''a1''" by auto
  have inp: "map_of demo_say ''chat_id'' = Some (PStr ''c1'')" "map_of demo_say ''message'' = Some (PStr ''hi'')"
    by (simp_all add: demo_say_def)
  have "''c1'' \<noteq> []" by simp
  from any_agent_reads_and_ends_any_chat [OF demo_desk_chats c(1) this inp, where intruder = "Some [(''agent_id'', PStr ''eve'')]" and env' = demo_env
      and fresh = "''c9''" and mid = "''m2''" and others = "\<lambda>g. None" and owner = demo_caller and env = demo_env] c
  show ?thesis by (intro exI [where x = c]) simp
qed

theorem forgotten_message_leaves_an_open_chat_witness:
  "\<exists>s' g' c. handle_human_chat demo_env ''c9'' ''m2'' (\<lambda>g. None) demo_question demo_caller demo_desk = (Inl (KeyError ''message''), s') \<and>
    chats_of s' = Some g' \<and> map_of (cg_chats g') ''c9'' = Some c \<and> ch_status c = ChatOpen \<and> ch_messages c = []"
proof (rule forgotten_message_leaves_an_open_chat [OF demo_desk_chats])
  show "optional_text demo_question ''chat_id'' = None" by code_simp
  show "map_of demo_question ''name'' = Some (PStr ''sarah'')" by (simp add: demo_question_def)
  show "map_of demo_question ''message'' = None" by (simp add: demo_question_def)
  show "g_humans (cg_parent demo_chats) \<noteq> []" by code_simp
qed

theorem asked_questions_can_be_checked_witness:
  "\<exists>v s' r. handle_human_ask demo_env ''r1'' demo_question demo_caller demo_desk = (Inr v, s') \<and> v = PDict (request_to_dict r) \<and>
    hr_id r = ''r1'' \<and> fst (handle_human_check demo_env [(''request_id'', PStr ''r1'')] s') = Inr (PDict (request_to_dict (expire (e_now demo_env) r)))"
proof -
  have "case fst (handle_human_ask demo_env ''r1'' demo_question demo_caller demo_desk) of Inr v \<Rightarrow> True | Inl e \<Rightarrow> False" by code_simp
  then obtain v s' where a: "handle_human_ask demo_env ''r1'' demo_question demo_caller demo_desk = (Inr v, s')"
    by (metis prod.exhaust_sel sum.case_eq_if sum.collapse(2))
  have g: "hd_gateway demo_desk = Some demo_chats" by (simp add: demo_desk_def)
  have n: "map_of (hq_requests (g_store (cg_parent demo_chats))) ''r1'' = None" by code_simp
  have "g_humans (cg_parent demo_chats) \<noteq> []" by code_simp
  with asked_questions_can_be_checked [OF g a n, where env' = demo_env] a show ?thesis by auto
qed

end
