(* ===== verification/EngineFacts.thy ===== *)
theory EngineFacts
  imports Engine
begin

text \<open>
  What the step engine guarantees: outcomes are durable and redeliveries change nothing, parked
  calls can be found again, resumes wait for every approval, tools run only when the kernel
  admits them, and the language model is called a bounded number of times.
\<close>

subsection \<open>Frames\<close>

lemma save_cont_simps [simp]:
  "rt_kernel (save_cont env c st) = rt_kernel st" "rt_table (save_cont env c st) = rt_table st"
  "rt_world (save_cont env c st) = rt_world st"
  "rt_conts (save_cont env c st) = cs_save (ev_now env (rt_world st)) c (rt_conts st)"
  by (simp_all add: save_cont_def)

lemma e_transition_simps [simp]:
  "rt_kernel (e_transition env c kind st) = rt_kernel st" "rt_conts (e_transition env c kind st) = rt_conts st"
  "rt_world (e_transition env c kind st) = rt_world st"
  by (simp_all add: e_transition_def split: option.split)

lemma commit_ticket_simps [simp]:
  "rt_conts (commit_ticket t st) = rt_conts st" "rt_table (commit_ticket t st) = rt_table st"
  "rt_world (commit_ticket t st) = rt_world st"
  by (simp_all add: commit_ticket_def Let_def split: option.split)

lemma release_ticket_simps [simp]:
  "rt_conts (release_ticket t st) = rt_conts st" "rt_table (release_ticket t st) = rt_table st"
  "rt_world (release_ticket t st) = rt_world st"
  by (simp_all add: release_ticket_def Let_def split: option.split)

lemma usage_add_simps [simp]:
  "c_id (usage_add k n c) = c_id c" "c_max_turns (usage_add k n c) = c_max_turns c"
  "c_status (usage_add k n c) = c_status c" "c_pending (usage_add k n c) = c_pending c"
  "c_messages (usage_add k n c) = c_messages c" "c_pid (usage_add k n c) = c_pid c"
  "c_tenant (usage_add k n c) = c_tenant c" "c_step (usage_add k n c) = c_step c"
  "c_provider (usage_add k n c) = c_provider c" "c_model (usage_add k n c) = c_model c"
  by (simp_all add: usage_add_def)

lemma account_conts [simp]:
  "rt_conts (snd (account r c st)) = rt_conts st" "rt_kernel (snd (account r c st)) = rt_kernel st"
  "rt_world (snd (account r c st)) = rt_world st"
  "c_id (fst (account r c st)) = c_id c" "c_max_turns (fst (account r c st)) = c_max_turns c"
  "c_pid (fst (account r c st)) = c_pid c" "c_tenant (fst (account r c st)) = c_tenant c"
  "c_messages (fst (account r c st)) = c_messages c" "c_step (fst (account r c st)) = c_step c"
  "c_provider (fst (account r c st)) = c_provider c" "c_model (fst (account r c st)) = c_model c"
  "c_status (fst (account r c st)) = c_status c"
  by (simp_all add: account_def)

lemma admit_conts [simp]:
  "rt_conts (snd (admit_call env c n i t st)) = rt_conts st" "rt_table (snd (admit_call env c n i t st)) = rt_table st"
  by (simp_all add: admit_call_def split: prod.split)

lemma open_suspension_conts [simp]:
  "rt_conts (snd (open_suspension env c r d st)) = rt_conts st"
  "rt_table (snd (open_suspension env c r d st)) = rt_table st"
  "rt_kernel (snd (open_suspension env c r d st)) = rt_kernel st"
  by (simp_all add: open_suspension_def Let_def)

lemma dispatch_conts [simp]:
  "rt_conts (snd (dispatch env ctx c r st)) = rt_conts st" "rt_table (snd (dispatch env ctx c r st)) = rt_table st"
proof -
  obtain d st1 where a: "admit_call env c (tc_name r) (tc_args r) (tc_token r) st = (d, st1)" by fastforce
  with admit_conts [of env c "tc_name r" "tc_args r" "tc_token r" st]
  have s: "rt_conts st1 = rt_conts st" "rt_table st1 = rt_table st" by simp_all
  show "rt_conts (snd (dispatch env ctx c r st)) = rt_conts st" "rt_table (snd (dispatch env ctx c r st)) = rt_table st"
    using s by (simp_all add: dispatch_def a split: sum.split action.split prod.split)
qed

lemma dispatch_all_conts [simp]:
  "rt_conts (snd (dispatch_all env ctx c rs st)) = rt_conts st"
  "rt_table (snd (dispatch_all env ctx c rs st)) = rt_table st"
proof (induction rs arbitrary: st)
  case (Cons r rs)
  {
    case 1
    show ?case using Cons.IH(1) [of "snd (dispatch env ctx c r st)"] by (simp add: case_prod_unfold)
  next
    case 2
    show ?case using Cons.IH(2) [of "snd (dispatch env ctx c r st)"] by (simp add: case_prod_unfold)
  }
qed simp_all

lemma index_refs_load [simp]: "cs_load (index_refs i rs s) j = cs_load s j"
proof -
  have "cs_by_id (fold (\<lambda>r s. case tc_ref r of None \<Rightarrow> s | Some x \<Rightarrow> if x = [] then s else cs_index_ref x i s) rs s) = cs_by_id s"
    by (induction rs arbitrary: s) (simp_all add: cs_index_ref_def split: option.split)
  then show ?thesis by (simp add: index_refs_def cs_load_def)
qed

lemma dispatch_all_length: "length (fst (dispatch_all env ctx c rs st)) = length rs"
  by (induction rs arbitrary: st) (simp_all add: case_prod_unfold)

subsection \<open>Outcomes are durable\<close>

text \<open>What an outcome says is what the store says.\<close>

definition reflects :: "cont_store \<Rightarrow> run_outcome \<Rightarrow> bool" where
  "reflects s out =
     (case cs_load s (ro_cont out) of
        None \<Rightarrow> False
      | Some c \<Rightarrow>
        (case ro_status out of
           Done \<Rightarrow> c_status c = CDone \<and> ro_output out = c_output c
         | MaxTurns \<Rightarrow> c_status c = CDone \<and> ro_output out = c_output c
         | RunFailed \<Rightarrow> c_status c = CFailed
         | Suspended \<Rightarrow> c_status c = CSuspended \<and> ro_pending out = ro_pending (suspended_outcome c) \<and> ro_output out = []
         | Continue \<Rightarrow> c_status c = CRunning))"

lemma outcome_simps [simp]:
  "ro_status (outcome_of s i) = s" "ro_cont (outcome_of s i) = i" "ro_output (outcome_of s i) = []"
  "ro_pending (outcome_of s i) = []"
  by (simp_all add: outcome_of_def)

lemma with_simps [simp]:
  "ro_status (with_rollup c out) = ro_status out" "ro_cont (with_rollup c out) = ro_cont out"
  "ro_output (with_rollup c out) = ro_output out" "ro_pending (with_rollup c out) = ro_pending out"
  "ro_status (with_events evs out) = ro_status out" "ro_cont (with_events evs out) = ro_cont out"
  "ro_output (with_events evs out) = ro_output out" "ro_pending (with_events evs out) = ro_pending out"
  by (simp_all add: with_rollup_def with_events_def)

lemma reflects_events [simp]: "reflects s (with_events evs out) = reflects s out"
  by (simp add: reflects_def split: option.split run_status.split)

lemma suspended_outcome_simps [simp]:
  "ro_status (suspended_outcome c) = Suspended" "ro_cont (suspended_outcome c) = c_id c"
  "ro_output (suspended_outcome c) = []"
  by (simp_all add: suspended_outcome_def)

lemma suspended_outcome_pending:
  "ro_pending (suspended_outcome c) = map (\<lambda>r. \<lparr>pi_use_id = tc_use_id r, pi_name = tc_name r, pi_args = tc_args r,
        pi_reason = tc_reason r, pi_ref = tc_ref r\<rparr>) (filter (\<lambda>r. tc_status r = TPending) (c_pending c))"
  by (simp add: suspended_outcome_def)

lemma complete_reflects:
  "reflects (rt_conts (snd (complete_run env c text n st))) (fst (complete_run env c text n st))"
  "ro_cont (fst (complete_run env c text n st)) = c_id c" "ro_status (fst (complete_run env c text n st)) = Done"
  by (simp_all add: complete_run_def Let_def reflects_def touch_def)

lemma fail_reflects:
  "reflects (rt_conts (snd (fail_run env c err st))) (fst (fail_run env c err st))"
  "ro_cont (fst (fail_run env c err st)) = c_id c" "ro_status (fst (fail_run env c err st)) = RunFailed"
  by (simp_all add: fail_run_def Let_def reflects_def)

lemma max_turns_reflects:
  "reflects (rt_conts (snd (max_turns_reached env c n st))) (fst (max_turns_reached env c n st))"
  "ro_cont (fst (max_turns_reached env c n st)) = c_id c" "ro_status (fst (max_turns_reached env c n st)) = MaxTurns"
  by (simp_all add: max_turns_reached_def Let_def reflects_def touch_def)

lemma suspend_reflects:
  "reflects (rt_conts (snd (suspend_run env c recs n st))) (fst (suspend_run env c recs n st))"
  "ro_cont (fst (suspend_run env c recs n st)) = c_id c" "ro_status (fst (suspend_run env c recs n st)) = Suspended"
  by (simp_all add: suspend_run_def Let_def reflects_def suspended_outcome_pending)

text \<open>A turn keeps the identity of its continuation, and its outcome, if any, is durable.\<close>

definition turn_ok :: "continuation \<Rightarrow> (escape + turn_result) \<times> 'w rt \<Rightarrow> bool" where
  "turn_ok c x = (case x of
     (Inl e, st) \<Rightarrow> True
   | (Inr t, st) \<Rightarrow> c_id (tr_cont t) = c_id c \<and> c_max_turns (tr_cont t) = c_max_turns c \<and>
       pred_option (\<lambda>out. reflects (rt_conts st) out \<and> ro_cont out = c_id c \<and> ro_status out \<in> {Done, RunFailed, Suspended})
         (tr_outcome t))"

lemma turn_end_ok:
  assumes "reflects (rt_conts (snd x)) (fst x)" "ro_cont (fst x) = c_id c"
    "ro_status (fst x) \<in> {Done, RunFailed, Suspended}" "c_id c' = c_id c" "c_max_turns c' = c_max_turns c"
  shows "turn_ok c (turn_end n evs c' x)"
  using assms by (simp add: turn_ok_def turn_end_def)

lemma run_tools_ok: "turn_ok c (run_tools env ctx k r n evs c st)"
proof -
  define c1 where "c1 = usage_add ''tool_calls'' (int (length (map record_of (lr_calls r))))
    (c\<lparr>c_messages := shape_assistant_turn k r (c_messages c)\<rparr>)"
  obtain xs st1 where d: "dispatch_all env ctx c1 (map record_of (lr_calls r)) st = (xs, st1)" by fastforce
  have c1: "c_id c1 = c_id c" "c_max_turns c1 = c_max_turns c" by (simp_all add: c1_def)
  show ?thesis
    unfolding run_tools_def Let_def c1_def [symmetric] d
    by (auto simp: case_prod_unfold c1 suspend_reflects complete_reflects intro!: turn_end_ok)
      (simp add: turn_ok_def c1)
qed

lemma run_one_turn_ok: "turn_ok c (run_one_turn env ctx turn n evs c st)"
proof -
  let ?c = "c\<lparr>c_step := turn\<rparr>"
  obtain x w where chat: "ev_chat env (config_of ?c) (c_messages ?c) (tools_of ?c) (rt_world st) = (x, w)" by fastforce
  have resp: "turn_ok c (run_response env ctx m evs r ?c s)" for m r s
  proof -
    obtain c1 s1 where a: "account r ?c s = (c1, s1)" by fastforce
    with account_conts(4,5) [of r ?c s] have c1: "c_id c1 = c_id c" "c_max_turns c1 = c_max_turns c" by simp_all
    have mono: "turn_ok c1 y \<Longrightarrow> turn_ok c y" for y :: "(escape + turn_result) \<times> 'a rt" using c1 by (simp add: turn_ok_def split: prod.splits sum.splits)
    show ?thesis
    proof (cases "lr_calls r = []")
      case True
      with c1 show ?thesis by (auto simp: run_response_def a complete_reflects intro!: turn_end_ok)
    next
      case False
      then show ?thesis using mono [OF run_tools_ok] by (simp add: run_response_def a)
    qed
  qed
  show ?thesis
  proof (cases x)
    case (Inl e)
    with chat show ?thesis by (simp add: run_one_turn_def turn_ok_def)
  next
    case (Inr r)
    with chat resp show ?thesis
      by (auto simp: run_one_turn_def Let_def fail_reflects split: option.split intro!: turn_end_ok)
  qed
qed

lemma drive_loop_reflects:
  "drive_loop env ctx n turn tokens evs c st = (Inr out, st') \<Longrightarrow>
   reflects (rt_conts st') out \<and> ro_cont out = c_id c \<and> ro_status out \<noteq> Continue"
proof (induction n arbitrary: turn tokens evs c st)
  case 0
  then show ?case by (auto simp: apfst_def map_prod_def case_prod_unfold max_turns_reflects)
next
  case (Suc n)
  obtain x st1 where t: "run_one_turn env ctx turn tokens evs c st = (x, st1)" by fastforce
  from run_one_turn_ok [of c env ctx turn tokens evs st] have ok: "turn_ok c (x, st1)" by (simp add: t)
  show ?case
  proof (cases x)
    case (Inl e)
    with Suc.prems t show ?thesis by simp
  next
    case (Inr r)
    show ?thesis
    proof (cases "tr_outcome r")
      case None
      with Suc.prems t Inr Suc.IH [of "turn + 1" "tr_tokens r" "tr_events r" "tr_cont r" st1] ok
      show ?thesis by (auto simp: turn_ok_def)
    next
      case (Some out')
      with Suc.prems t Inr ok show ?thesis by (auto simp: turn_ok_def)
    qed
  qed
qed

lemma single_turn_reflects:
  "single_turn env ctx c st = (Inr out, st') \<Longrightarrow> reflects (rt_conts st') out \<and> ro_cont out = c_id c"
proof -
  assume a: "single_turn env ctx c st = (Inr out, st')"
  obtain x st1 where t: "run_one_turn env ctx (c_step c) 0 [] c st = (x, st1)" by fastforce
  from run_one_turn_ok [of c env ctx "c_step c" 0 "[]" st] have ok: "turn_ok c (x, st1)" by (simp add: t)
  show ?thesis
  proof (cases "c_max_turns c \<le> c_step c")
    case True
    with a max_turns_reflects [of env c 0 st] show ?thesis by (auto simp: single_turn_def apfst_def map_prod_def case_prod_unfold)
  next
    case False
    from a t False obtain r where r: "x = Inr r" by (cases x) (simp_all add: single_turn_def)
    show ?thesis
    proof (cases "tr_outcome r")
      case (Some out')
      with a t False r ok show ?thesis by (auto simp: single_turn_def turn_ok_def)
    next
      case None
      let ?c = "(tr_cont r)\<lparr>c_step := c_step c + 1, c_status := CRunning\<rparr>"
      have "c_id ?c = c_id c" using ok r by (simp add: turn_ok_def)
      with a t False r None max_turns_reflects [of env ?c "tr_tokens r" "save_cont env ?c st1"] show ?thesis
        by (auto simp: single_turn_def Let_def apfst_def map_prod_def case_prod_unfold reflects_def split: if_splits)
    qed
  qed
qed

lemma drive_or_step_reflects:
  "drive_or_step env ctx c st = (Inr out, st') \<Longrightarrow> reflects (rt_conts st') out \<and> ro_cont out = c_id c"
  by (auto simp: drive_or_step_def drive_inline_def dest: single_turn_reflects drive_loop_reflects split: if_splits)


lemma drive_reflects:
  assumes "cs_ok (rt_conts st)" "drive env ctx i st = (Inr out, st')" "cs_load (rt_conts st) i \<noteq> None"
  shows "reflects (rt_conts st') out \<and> ro_cont out = i"
proof -
  from assms(3) obtain c where c: "cs_load (rt_conts st) i = Some c" by blast
  with conts.load_key [OF assms(1)] have i: "c_id c = i" by simp
  show ?thesis
  proof (cases "c_status c \<in> {CDone, CFailed, CSuspended}")
    case True
    with assms(2) c i show ?thesis
      by (auto simp: drive_def reflects_def split: if_splits)
  next
    case False
    with assms(2) c i show ?thesis
      using drive_or_step_reflects [of env ctx "c\<lparr>c_status := CRunning\<rparr>" _ out st']
      by (simp add: drive_def Let_def)
  qed
qed

lemma redrive:
  assumes "reflects (rt_conts st) out" "ro_status out \<noteq> Continue" "cs_ok (rt_conts st)"
  shows "\<exists>out'. drive env ctx (ro_cont out) st = (Inr out', st) \<and>
    ro_status out' = (if ro_status out = MaxTurns then Done else ro_status out) \<and>
    ro_pending out' = (if ro_status out = Suspended then ro_pending out else []) \<and>
    (ro_status out \<noteq> RunFailed \<longrightarrow> ro_output out' = ro_output out)"
proof -
  from assms(1) obtain c where c: "cs_load (rt_conts st) (ro_cont out) = Some c"
    by (cases "cs_load (rt_conts st) (ro_cont out)") (simp_all add: reflects_def)
  then show ?thesis
    using assms(1,2) by (cases "ro_status out") (auto simp: reflects_def drive_def)
qed

text \<open>Saving keeps the store well formed through a whole slice.\<close>

lemma cs_ok_index_refs: "cs_ok s \<Longrightarrow> cs_ok (index_refs i rs s)"
  unfolding index_refs_def by (induction rs arbitrary: s) (simp_all add: cs_ok_index split: option.split)

lemma turn_cs_ok: "cs_ok (rt_conts st) \<Longrightarrow> cs_ok (rt_conts (snd (run_one_turn env ctx turn n evs c st)))"
proof -
  assume ok: "cs_ok (rt_conts st)"
  have tools: "cs_ok (rt_conts (snd (run_tools env ctx k r m e c s)))" if "cs_ok (rt_conts s)" for k r m e c s
    using that by (auto simp: run_tools_def Let_def case_prod_unfold turn_end_def suspend_run_def complete_run_def
        intro!: cs_ok_save cs_ok_index_refs)
  have resp: "cs_ok (rt_conts (snd (run_response env ctx m e r c s)))" if "cs_ok (rt_conts s)" for m e r c s
    using that tools [of "snd (account r c s)"]
    by (auto simp: run_response_def case_prod_unfold turn_end_def complete_run_def Let_def intro!: cs_ok_save)
  show ?thesis
    using ok resp
    by (auto simp: run_one_turn_def case_prod_unfold turn_end_def fail_run_def Let_def
        intro!: cs_ok_save split: sum.split option.split)
qed

lemma drive_loop_cs_ok:
  "cs_ok (rt_conts st) \<Longrightarrow> cs_ok (rt_conts (snd (drive_loop env ctx n turn tokens evs c st)))"
proof (induction n arbitrary: turn tokens evs c st)
  case 0
  then show ?case by (simp add: max_turns_reached_def Let_def cs_ok_save)
next
  case (Suc n)
  obtain x st1 where t: "run_one_turn env ctx turn tokens evs c st = (x, st1)" by fastforce
  with turn_cs_ok [OF Suc.prems, of env ctx turn tokens evs c] have "cs_ok (rt_conts st1)" by simp
  with Suc.IH show ?case by (simp add: t split: sum.split option.split)
qed

lemma drive_or_step_cs_ok:
  assumes "cs_ok (rt_conts st)"
  shows "cs_ok (rt_conts (snd (drive_or_step env ctx c st)))"
proof -
  obtain x st1 where t: "run_one_turn env ctx (c_step c) 0 [] c st = (x, st1)" by fastforce
  with turn_cs_ok [OF assms, of env ctx "c_step c" 0 "[]" c] have "cs_ok (rt_conts st1)" by simp
  with assms have "cs_ok (rt_conts (snd (single_turn env ctx c st)))"
    by (auto simp: single_turn_def Let_def t max_turns_reached_def intro!: cs_ok_save split: sum.split option.split)
  then show ?thesis
    using drive_loop_cs_ok [OF assms] by (simp add: drive_or_step_def drive_inline_def)
qed

lemma drive_cs_ok: "cs_ok (rt_conts st) \<Longrightarrow> cs_ok (rt_conts (snd (drive env ctx i st)))"
  by (auto simp: drive_def Let_def intro!: drive_or_step_cs_ok cs_ok_save split: option.split)

subsection \<open>Driving once\<close>

definition demo_cont :: "string \<Rightarrow> continuation" where
  "demo_cont i = \<lparr>c_id = i, c_pid = ''a1'', c_generation = 1, c_run = None, c_session = None, c_tenant = ''default'',
     c_user = ''default'', c_namespace = ''default'', c_messages = [message ''user'' (PStr ''hi'')],
     c_provider = ''anthropic'', c_model = ''claude'', c_endpoint = None, c_key_ref = None, c_tools = None,
     c_step = 0, c_max_turns = 3, c_goal = None, c_status = CRunning, c_suspend_reason = None, c_pending = [],
     c_usage = [], c_tickets = [], c_source = ''human'', c_epoch = 0, c_parent = None, c_error = None,
     c_output = [], c_created = 0, c_updated = 0\<rparr>"

text \<open>A model that calls one tool and then answers, with a world that counts what happened.\<close>

record demo_world =
  dw_chats :: nat
  dw_runs :: nat

definition demo_response :: "llm_call list \<Rightarrow> llm_response" where
  "demo_response calls = \<lparr>lr_text = ''ok'', lr_reasoning = [], lr_error = None, lr_tokens = 3, lr_input_tokens = 2,
     lr_output_tokens = 1, lr_calls = calls\<rparr>"

definition demo_eenv :: "string list \<Rightarrow> demo_world eenv" where
  "demo_eenv tools = \<lparr>
     ev_chat = (\<lambda>cf ms ts w. (Inr (demo_response
        (if dw_chats w = 0 then map (\<lambda>t. \<lparr>lc_id = t, lc_name = t, lc_input = []\<rparr>) tools else [])),
        w\<lparr>dw_chats := dw_chats w + 1\<rparr>)),
     ev_executor = Some (\<lambda>n i ctx w. (Returned (PStr ''fine''), w\<lparr>dw_runs := dw_runs w + 1\<rparr>)),
     ev_sdk = (\<lambda>n i w. (None, w)), ev_gateway = None, ev_ref = (\<lambda>w. (''req_1'', w)), ev_cont_id = (\<lambda>w. (''cont_1'', w)),
     ev_kenv = (\<lambda>w. (demo_env, w)), ev_now = (\<lambda>w. 0), ev_max_turns = 300, ev_single_step = False\<rparr>"

definition demo_rt :: "continuation list \<Rightarrow> demo_world rt" where
  "demo_rt cs = \<lparr>rt_conts = \<lparr>cs_by_id = map (\<lambda>c. (c_id c, c)) cs, cs_refs = []\<rparr>, rt_kernel = demo_kernel,
     rt_table = None, rt_world = \<lparr>dw_chats = 0, dw_runs = 0\<rparr>\<rparr>"

text \<open>C16. A slice of a run is durable and final: whenever \<open>drive\<close> returns an outcome other than
\<open>CONTINUE\<close>, the store already says so, and driving the same continuation again, with any model,
tools and kernel, calls nothing, changes nothing and reports the same output and the same pending
calls (a run stopped by the turn limit is then reported as done).  So a task that is delivered
twice is not run twice.\<close>

theorem drive_is_final:
  assumes "cs_ok (rt_conts st)" and "cs_load (rt_conts st) i \<noteq> None"
    and "drive env ctx i st = (Inr out, st')" and "ro_status out \<noteq> Continue"
  shows "\<exists>again. drive env' ctx' i st' = (Inr again, st') \<and>
    ro_status again = (if ro_status out = MaxTurns then Done else ro_status out) \<and>
    ro_pending again = (if ro_status out = Suspended then ro_pending out else []) \<and>
    (if ro_status out = RunFailed then True else ro_output again = ro_output out)"
proof -
  from drive_reflects [OF assms(1,3,2)] have r: "reflects (rt_conts st') out" "ro_cont out = i" by simp_all
  from drive_cs_ok [OF assms(1), of env ctx i] assms(3) have "cs_ok (rt_conts st')" by simp
  from redrive [OF r(1) assms(4) this, of env' ctx'] r(2) show ?thesis by auto
qed

theorem drive_is_final_witness:
  "\<exists>out st'. drive (demo_eenv [''read_logs'']) [] ''c1'' (demo_rt [demo_cont ''c1'']) = (Inr out, st') \<and>
     ro_status out = Done \<and> ro_output out = ''ok'' \<and> snd (drive (demo_eenv []) [] ''c1'' st') = st'"
proof -
  let ?st = "demo_rt [demo_cont ''c1'']" and ?env = "demo_eenv [''read_logs'']"
  have ok: "cs_ok (rt_conts ?st)" "cs_load (rt_conts ?st) ''c1'' \<noteq> None"
    by (simp_all add: demo_rt_def cs_ok_def keyed_def dict_ok_def cs_load_def demo_cont_def)
  obtain x st' where d: "drive ?env [] ''c1'' ?st = (x, st')" by fastforce
  have "map_sum (\<lambda>_. ()) (\<lambda>out. (ro_status out, ro_output out)) (fst (drive ?env [] ''c1'' ?st)) = Inr (Done, ''ok'')"
    by code_simp
  then obtain out where out: "x = Inr out" "ro_status out = Done" "ro_output out = ''ok''"
    unfolding d by (cases x) auto
  from drive_is_final [OF ok d [unfolded out(1)], of "demo_eenv []" "[]"] out d show ?thesis by auto
qed


subsection \<open>Tools run only when admitted\<close>

text \<open>Nothing but the execution of a tool looks at the executor.\<close>

lemma eenv_fields:
  "ev_now (env\<lparr>ev_executor := x\<rparr>) = ev_now env" "ev_kenv (env\<lparr>ev_executor := x\<rparr>) = ev_kenv env"
  "ev_gateway (env\<lparr>ev_executor := x\<rparr>) = ev_gateway env" "ev_ref (env\<lparr>ev_executor := x\<rparr>) = ev_ref env"
  by simp_all

lemma executor_irrelevant [simp]:
  "save_cont (env\<lparr>ev_executor := x\<rparr>) = save_cont env"
  "e_transition (env\<lparr>ev_executor := x\<rparr>) = e_transition env"
  "admit_call (env\<lparr>ev_executor := x\<rparr>) = admit_call env"
  "open_suspension (env\<lparr>ev_executor := x\<rparr>) = open_suspension env"
  unfolding fun_eq_iff save_cont_def e_transition_def admit_call_def open_suspension_def eenv_fields by simp_all

lemma executor_irrelevant_ends [simp]:
  "complete_run (env\<lparr>ev_executor := x\<rparr>) = complete_run env"
  "fail_run (env\<lparr>ev_executor := x\<rparr>) = fail_run env"
  "max_turns_reached (env\<lparr>ev_executor := x\<rparr>) = max_turns_reached env"
  "suspend_run (env\<lparr>ev_executor := x\<rparr>) = suspend_run env"
  by (simp_all add: fun_eq_iff complete_run_def fail_run_def max_turns_reached_def suspend_run_def)

text \<open>The permission check lets some input through.\<close>

definition tool_open :: "registry option \<Rightarrow> string \<Rightarrow> string \<Rightarrow> bool" where
  "tool_open reg aid tool = (\<exists>inp. map_sum id d_action (perm_tool_call reg aid tool inp) = Inr Allow)"

lemma admitted_without_token:
  assumes "fst (admit_call env c name inp None st) = Inr d" "d_action d = Allow"
  shows "tool_open (k_registry (rt_kernel st)) (c_pid c) name"
proof -
  obtain ke w where k: "ev_kenv env (rt_world st) = (ke, w)" by fastforce
  let ?args = "admit_args c inp None"
  from assms(1) have "fst (kernel_syscall ke ''tool.call'' (c_pid c) name ?args None (rt_kernel st)) = Inr d"
    by (simp add: admit_call_def k split: prod.splits)
  then have "allowed (fst (run_pipeline (the_stages ke (k_audit (rt_kernel st) \<noteq> None) None)
      (new_syscall ''tool.call'' (c_pid c) name ?args, rt_kernel st)))"
    using assms(2) unfolding kernel_syscall_decision by (simp add: allowed_def)
  moreover have "token_ok ke ?args (c_pid c) (''tool:'' @ name) ''tool.call'' (k_caps (rt_kernel st)) = Inr False"
    by (simp add: token_ok_def token_authorizes_def admit_args_def arg_def dget_default_def)
  ultimately show ?thesis unfolding run_pipeline_allowed_iff tool_open_def by auto
qed

lemma registry_frames [simp]:
  "k_registry (rt_kernel (commit_ticket t st)) = k_registry (rt_kernel st)"
  "k_registry (rt_kernel (release_ticket t st)) = k_registry (rt_kernel st)"
  "k_registry (rt_kernel (snd (admit_call env c n i tok st))) = k_registry (rt_kernel st)"
proof -
  show "k_registry (rt_kernel (commit_ticket t st)) = k_registry (rt_kernel st)"
    "k_registry (rt_kernel (release_ticket t st)) = k_registry (rt_kernel st)"
    by (simp_all add: commit_ticket_def release_ticket_def Let_def split: option.split)
  obtain ke w where k: "ev_kenv env (rt_world st) = (ke, w)" by fastforce
  show "k_registry (rt_kernel (snd (admit_call env c n i tok st))) = k_registry (rt_kernel st)"
    using kernel_syscall_frame [of "rt_kernel st" ke "''tool.call''" "c_pid c" n "admit_args c i tok"]
    by (simp add: admit_call_def k kernel_frame_def case_prod_unfold)
qed

lemma dispatch_registry [simp]: "k_registry (rt_kernel (snd (dispatch env ctx c r st))) = k_registry (rt_kernel st)"
proof -
  obtain d st1 where a: "admit_call env c (tc_name r) (tc_args r) (tc_token r) st = (d, st1)" by fastforce
  with registry_frames(3) [of env c "tc_name r" "tc_args r" "tc_token r" st]
  have "k_registry (rt_kernel st1) = k_registry (rt_kernel st)" by simp
  then show ?thesis by (simp add: dispatch_def a split: sum.split action.split prod.split)
qed

lemma dispatch_all_registry [simp]:
  "k_registry (rt_kernel (snd (dispatch_all env ctx c rs st))) = k_registry (rt_kernel st)"
  by (induction rs arbitrary: st) (simp_all add: case_prod_unfold)

lemma run_one_turn_frame:
  "k_registry (rt_kernel (snd (run_one_turn env ctx turn n evs c st))) = k_registry (rt_kernel st) \<and>
   (\<forall>t. fst (run_one_turn env ctx turn n evs c st) = Inr t \<longrightarrow> c_pid (tr_cont t) = c_pid c)"
proof -
  have tools: "k_registry (rt_kernel (snd (run_tools env ctx k r m e c s))) = k_registry (rt_kernel s) \<and>
      (\<forall>t. fst (run_tools env ctx k r m e c s) = Inr t \<longrightarrow> c_pid (tr_cont t) = c_pid c)" for k r m e c s
    by (auto simp: run_tools_def Let_def case_prod_unfold turn_end_def suspend_run_def complete_run_def)
  have resp: "k_registry (rt_kernel (snd (run_response env ctx m e r c s))) = k_registry (rt_kernel s) \<and>
      (\<forall>t. fst (run_response env ctx m e r c s) = Inr t \<longrightarrow> c_pid (tr_cont t) = c_pid c)" for m e r c s
    using tools [of _ r m e "fst (account r c s)" "snd (account r c s)"]
    by (auto simp: run_response_def case_prod_unfold turn_end_def complete_run_def Let_def)
  let ?c = "c\<lparr>c_step := turn\<rparr>"
  obtain x w where chat: "ev_chat env (config_of ?c) (c_messages ?c) (tools_of ?c) (rt_world st) = (x, w)" by fastforce
  show ?thesis
  proof (cases x)
    case (Inl e)
    with chat show ?thesis by (simp add: run_one_turn_def)
  next
    case (Inr r)
    have "k_registry (rt_kernel (snd (run_response env ctx m e r ?c (st\<lparr>rt_world := w\<rparr>)))) = k_registry (rt_kernel st) \<and>
      (\<forall>t. fst (run_response env ctx m e r ?c (st\<lparr>rt_world := w\<rparr>)) = Inr t \<longrightarrow> c_pid (tr_cont t) = c_pid c)" for m e
      using resp [of m e r ?c "st\<lparr>rt_world := w\<rparr>"] by simp
    then show ?thesis
      using chat Inr by (auto simp: run_one_turn_def Let_def turn_end_def fail_run_def split: option.split)
  qed
qed

definition agree_on_open :: "registry option \<Rightarrow> string \<Rightarrow> (string \<Rightarrow> 'a) \<Rightarrow> (string \<Rightarrow> 'a) \<Rightarrow> bool" where
  "agree_on_open reg aid f g = (\<forall>name. tool_open reg aid name \<longrightarrow> f name = g name)"

lemma dispatch_same:
  assumes "agree_on_open reg aid f g" "k_registry (rt_kernel st) = reg" "c_pid c = aid" "tc_token r = None"
  shows "dispatch (env\<lparr>ev_executor := Some f\<rparr>) ctx c r st = dispatch (env\<lparr>ev_executor := Some g\<rparr>) ctx c r st"
proof -
  obtain d st1 where a: "admit_call env c (tc_name r) (tc_args r) None st = (d, st1)" by fastforce
  have "execute_tool (env\<lparr>ev_executor := Some f\<rparr>) (tc_name r) (tc_args r) ctx None w =
      execute_tool (env\<lparr>ev_executor := Some g\<rparr>) (tc_name r) (tc_args r) ctx None w"
    if "d = Inr d'" "d_action d' = Allow" for d' w
    using admitted_without_token [of env c "tc_name r" "tc_args r" st d'] that a assms
    by (simp add: execute_tool_def agree_on_open_def split: prod.split option.split)
  then show ?thesis using a assms(4) by (simp add: dispatch_def split: sum.split action.split)
qed

lemma dispatch_all_same:
  "agree_on_open reg aid f g \<Longrightarrow> k_registry (rt_kernel st) = reg \<Longrightarrow> c_pid c = aid \<Longrightarrow> list_all (\<lambda>r. tc_token r = None) rs \<Longrightarrow>
   dispatch_all (env\<lparr>ev_executor := Some f\<rparr>) ctx c rs st = dispatch_all (env\<lparr>ev_executor := Some g\<rparr>) ctx c rs st"
proof (induction rs arbitrary: st)
  case (Cons r rs)
  then have d: "dispatch (env\<lparr>ev_executor := Some f\<rparr>) ctx c r st = dispatch (env\<lparr>ev_executor := Some g\<rparr>) ctx c r st"
    by (intro dispatch_same) simp_all
  have "k_registry (rt_kernel (snd (dispatch (env\<lparr>ev_executor := Some g\<rparr>) ctx c r st))) = reg"
    using Cons.prems(2) by simp
  with Cons show ?case by (simp add: d case_prod_unfold)
qed simp

lemma turn_same:
  assumes "agree_on_open reg aid f g" "k_registry (rt_kernel st) = reg" "c_pid c = aid"
  shows "run_one_turn (env\<lparr>ev_executor := Some f\<rparr>) ctx turn n evs c st =
    run_one_turn (env\<lparr>ev_executor := Some g\<rparr>) ctx turn n evs c st"
proof -
  have tools: "run_tools (env\<lparr>ev_executor := Some f\<rparr>) ctx k r m e c s = run_tools (env\<lparr>ev_executor := Some g\<rparr>) ctx k r m e c s"
    if "k_registry (rt_kernel s) = reg" "c_pid c = aid" for k r m e c s
  proof -
    have "list_all (\<lambda>r. tc_token r = None) (map record_of (lr_calls r))"
      by (simp add: list_all_iff record_of_def new_call_def)
    from dispatch_all_same [OF assms(1) that(1) _ this] that(2) show ?thesis
      unfolding run_tools_def executor_irrelevant executor_irrelevant_ends Let_def by simp
  qed
  have resp: "run_response (env\<lparr>ev_executor := Some f\<rparr>) ctx m e r c s = run_response (env\<lparr>ev_executor := Some g\<rparr>) ctx m e r c s"
    if "k_registry (rt_kernel s) = reg" "c_pid c = aid" for m e r c s
  proof -
    have "k_registry (rt_kernel (snd (account r c s))) = reg" "c_pid (fst (account r c s)) = aid"
      using that by simp_all
    from tools [OF this] show ?thesis by (simp add: run_response_def case_prod_unfold)
  qed
  show ?thesis
    using assms(2,3) resp by (simp add: run_one_turn_def Let_def split: prod.split sum.split option.split)
qed

lemma loop_same:
  "agree_on_open reg aid f g \<Longrightarrow> k_registry (rt_kernel st) = reg \<Longrightarrow> c_pid c = aid \<Longrightarrow>
   drive_loop (env\<lparr>ev_executor := Some f\<rparr>) ctx n turn m evs c st = drive_loop (env\<lparr>ev_executor := Some g\<rparr>) ctx n turn m evs c st"
proof (induction n arbitrary: turn m evs c st)
  case (Suc n)
  note same = turn_same [OF Suc.prems, of env ctx turn m evs]
  obtain x st1 where t: "run_one_turn (env\<lparr>ev_executor := Some g\<rparr>) ctx turn m evs c st = (x, st1)" by fastforce
  with run_one_turn_frame [of "env\<lparr>ev_executor := Some g\<rparr>" ctx turn m evs c st] Suc.prems(2,3)
  have "k_registry (rt_kernel st1) = reg" "\<And>r. x = Inr r \<Longrightarrow> c_pid (tr_cont r) = aid" by simp_all
  with Suc.IH Suc.prems(1) show ?case by (simp add: same t split: sum.split option.split)
qed simp

lemma drive_or_step_same:
  assumes "agree_on_open reg aid f g" "k_registry (rt_kernel st) = reg" "c_pid c = aid"
  shows "drive_or_step (env\<lparr>ev_executor := Some f\<rparr>) ctx c st = drive_or_step (env\<lparr>ev_executor := Some g\<rparr>) ctx c st"
proof -
  have "ev_single_step (env\<lparr>ev_executor := x\<rparr>) = ev_single_step env" for x by simp
  then show ?thesis
    unfolding drive_or_step_def single_turn_def drive_inline_def executor_irrelevant executor_irrelevant_ends
      turn_same [OF assms] loop_same [OF assms] by (simp only:)
qed

lemma drive_same:
  assumes "agree_on_open reg aid f g" "k_registry (rt_kernel st) = reg" "cs_load (rt_conts st) i = Some c" "c_pid c = aid"
  shows "drive (env\<lparr>ev_executor := Some f\<rparr>) ctx i st = drive (env\<lparr>ev_executor := Some g\<rparr>) ctx i st"
  using drive_or_step_same [OF assms(1), where ctx = ctx and env = env] assms(2-4) by (simp add: drive_def Let_def)

text \<open>C1. A tool that the permission check never allows is never run by \<open>drive\<close>: two executors that agree
on every tool the agent may be allowed to call give the same run, to the last bit of the store, the
kernel, the process table and the world, whatever the model asks for in however many turns.\<close>

theorem closed_tools_never_run:
  assumes "cs_load (rt_conts st) i = Some c"
    and "\<And>name. tool_open (k_registry (rt_kernel st)) (c_pid c) name \<Longrightarrow> f name = g name"
  shows "drive (env\<lparr>ev_executor := Some f\<rparr>) ctx i st = drive (env\<lparr>ev_executor := Some g\<rparr>) ctx i st"
proof -
  have "agree_on_open (k_registry (rt_kernel st)) (c_pid c) f g" using assms(2) by (simp add: agree_on_open_def)
  from drive_same [OF this refl assms(1) refl] show ?thesis .
qed


definition wiping :: "string \<Rightarrow> details \<Rightarrow> details \<Rightarrow> demo_world \<Rightarrow> attempt \<times> demo_world" where
  "wiping = (\<lambda>n i ctx w. (Returned (PStr ''fine''), if n = ''mail.wipe'' then w\<lparr>dw_runs := 1000\<rparr> else w))"

definition harmless :: "string \<Rightarrow> details \<Rightarrow> details \<Rightarrow> demo_world \<Rightarrow> attempt \<times> demo_world" where
  "harmless = (\<lambda>n i ctx w. (Returned (PStr ''fine''), w))"

theorem closed_tools_never_run_witness:
  "drive (demo_eenv [''mail.wipe'', ''db.read'']\<lparr>ev_executor := Some wiping\<rparr>) [] ''c1'' (demo_rt [demo_cont ''c1'']) =
   drive (demo_eenv [''mail.wipe'', ''db.read'']\<lparr>ev_executor := Some harmless\<rparr>) [] ''c1'' (demo_rt [demo_cont ''c1''])"
proof (rule closed_tools_never_run)
  show "cs_load (rt_conts (demo_rt [demo_cont ''c1''])) ''c1'' = Some (demo_cont ''c1'')"
    by (simp add: demo_rt_def cs_load_def demo_cont_def)
  fix name
  assume open_tool: "tool_open (k_registry (rt_kernel (demo_rt [demo_cont ''c1'']))) (c_pid (demo_cont ''c1'')) name"
  have "\<not> tool_open (Some demo_registry) ''a1'' ''mail.wipe''"
    by (simp add: tool_open_def perm_tool_call_def demo_registry_def reg_get_def tools_denied_def demo_agent_def
        pat_matches_def or_nil_def)
  with open_tool have "name \<noteq> ''mail.wipe''"
    by (auto simp: demo_rt_def demo_kernel_def demo_cont_def)
  then show "wiping name = harmless name" by (simp add: wiping_def harmless_def)
qed

subsection \<open>How often the model is called\<close>

text \<open>A counter on the world that every call of the model advances by one and nothing else touches.\<close>

definition counts_chats :: "'w eenv \<Rightarrow> ('w \<Rightarrow> nat) \<Rightarrow> bool" where
  "counts_chats env calls =
     ((\<forall>cf ms ts w. calls (snd (ev_chat env cf ms ts w)) = Suc (calls w)) \<and>
      (\<forall>ex name inp ctx w. ev_executor env = Some ex \<longrightarrow> calls (snd (ex name inp ctx w)) = calls w) \<and>
      (\<forall>name inp w. calls (snd (ev_sdk env name inp w)) = calls w) \<and>
      (\<forall>gw req w. ev_gateway env = Some gw \<longrightarrow> calls (snd (gw req w)) = calls w) \<and>
      (\<forall>w. calls (snd (ev_ref env w)) = calls w \<and> calls (snd (ev_kenv env w)) = calls w))"

lemma counts_chatsD:
  assumes "counts_chats env calls"
  shows "calls (snd (ev_chat env cf ms ts w)) = Suc (calls w)"
    and "ev_executor env = Some ex \<Longrightarrow> calls (snd (ex name inp ctx w)) = calls w"
    and "calls (snd (ev_sdk env name inp w)) = calls w"
    and "ev_gateway env = Some gw \<Longrightarrow> calls (snd (gw req w)) = calls w"
    and "calls (snd (ev_ref env w)) = calls w" "calls (snd (ev_kenv env w)) = calls w"
  using assms by (simp_all add: counts_chats_def)

lemma try_tool_calls:
  assumes "\<And>w. calls (snd (call w)) = calls w"
  shows "calls (snd (try_tool call name n err w)) = calls w"
proof (induction n arbitrary: err w)
  case (Suc n)
  obtain a w' where a: "call w = (a, w')" by fastforce
  with assms [of w] have "calls w' = calls w" by simp
  with Suc show ?case by (simp add: a split: attempt.split)
qed simp

lemma execute_calls:
  assumes "counts_chats env calls"
  shows "calls (snd (execute_tool env name inp ctx t w)) = calls w"
proof (cases "ev_executor env")
  case (Some ex)
  obtain d w' where s: "ev_sdk env name inp w = (d, w')" by fastforce
  with counts_chatsD(3) [OF assms, of name inp w] have "calls w' = calls w" by simp
  with try_tool_calls [of calls "ex name inp _" name] counts_chatsD(2) [OF assms Some] show ?thesis
    by (simp add: execute_tool_def Some s Let_def del: try_tool.simps split: option.split)
qed (simp add: execute_tool_def)

lemma open_suspension_calls:
  assumes "counts_chats env calls"
  shows "calls (rt_world (snd (open_suspension env c r d st))) = calls (rt_world st)"
proof -
  define asked where "asked = (case (detail_str d ''request_id'', ev_gateway env) of
             (Some i, _) \<Rightarrow> (Some i, rt_world st)
           | (None, Some open_req) \<Rightarrow> open_req \<lparr>or_cont = c_id c, or_pid = c_pid c, or_tenant = c_tenant c,
               or_action = or_else (arg (d_details d) ''captured_action'')
                 (PDict [(''verb'', PStr ''tool.call''), (''tool_name'', PStr (tc_name r)), (''tool_input'', PDict (tc_args r))]),
               or_approvers = or_else (arg (d_details d) ''approvers'') (PList []),
               or_sla = arg (d_details d) ''sla_hours'', or_reason = d_reason d\<rparr> (rt_world st)
           | (None, None) \<Rightarrow> (None, rt_world st))"
  have "calls (snd asked) = calls (rt_world st)"
    unfolding asked_def using counts_chatsD(4) [OF assms] by (simp split: option.split)
  moreover have "rt_world (snd (open_suspension env c r d st)) =
      snd (case asked of (Some i, w) \<Rightarrow> (i, w) | (None, w) \<Rightarrow> ev_ref env w)"
    unfolding open_suspension_def asked_def Let_def by simp
  ultimately show ?thesis using counts_chatsD(5) [OF assms] by (cases asked) (simp split: option.split)
qed

lemma admit_calls:
  assumes "counts_chats env calls"
  shows "calls (rt_world (snd (admit_call env c n i t st))) = calls (rt_world st)"
  using counts_chatsD(6) [OF assms, of "rt_world st"] by (simp add: admit_call_def case_prod_unfold)

lemma dispatch_calls:
  assumes "counts_chats env calls"
  shows "calls (rt_world (snd (dispatch env ctx c r st))) = calls (rt_world st)"
proof -
  obtain d st1 where a: "admit_call env c (tc_name r) (tc_args r) (tc_token r) st = (d, st1)" by fastforce
  with admit_calls [OF assms, of c "tc_name r" "tc_args r" "tc_token r" st]
  have w: "calls (rt_world st1) = calls (rt_world st)" by simp
  obtain x w2 where e: "execute_tool env (tc_name r) (tc_args r) ctx None (rt_world st1) = (x, w2)" by fastforce
  with execute_calls [OF assms, of "tc_name r" "tc_args r" ctx None "rt_world st1"] w
  have "calls w2 = calls (rt_world st)" by simp
  with w show ?thesis
    by (simp add: dispatch_def a e open_suspension_calls [OF assms] split: sum.split action.split)
qed

lemma dispatch_all_calls:
  assumes "counts_chats env calls"
  shows "calls (rt_world (snd (dispatch_all env ctx c rs st))) = calls (rt_world st)"
  by (induction rs arbitrary: st) (simp_all add: case_prod_unfold dispatch_calls [OF assms])

lemma turn_calls:
  assumes "counts_chats env calls"
  shows "calls (rt_world (snd (run_one_turn env ctx turn n evs c st))) = Suc (calls (rt_world st))"
proof -
  have tools: "calls (rt_world (snd (run_tools env ctx k r m e c s))) = calls (rt_world s)" for k r m e c s
    by (simp add: run_tools_def Let_def case_prod_unfold turn_end_def suspend_run_def complete_run_def
        dispatch_all_calls [OF assms])
  have resp: "calls (rt_world (snd (run_response env ctx m e r c s))) = calls (rt_world s)" for m e r c s
    by (simp add: run_response_def case_prod_unfold turn_end_def complete_run_def Let_def tools)
  let ?c = "c\<lparr>c_step := turn\<rparr>"
  obtain x w where ch: "ev_chat env (config_of ?c) (c_messages ?c) (tools_of ?c) (rt_world st) = (x, w)" by fastforce
  with counts_chatsD(1) [OF assms, of "config_of ?c" "c_messages ?c" "tools_of ?c" "rt_world st"]
  have "calls w = Suc (calls (rt_world st))" by simp
  with ch show ?thesis
    by (simp add: run_one_turn_def Let_def turn_end_def fail_run_def resp split: sum.split option.split)
qed

lemma loop_calls:
  assumes "counts_chats env calls"
  shows "calls (rt_world (snd (drive_loop env ctx n turn m evs c st))) \<le> calls (rt_world st) + n"
proof (induction n arbitrary: turn m evs c st)
  case 0
  then show ?case by (simp add: max_turns_reached_def Let_def)
next
  case (Suc n)
  obtain x st1 where t: "run_one_turn env ctx turn m evs c st = (x, st1)" by fastforce
  with turn_calls [OF assms, of ctx turn m evs c st] have w: "calls (rt_world st1) = Suc (calls (rt_world st))" by simp
  have "calls (rt_world (snd (drive_loop env ctx n (turn + 1) m' e c' st1))) \<le> calls (rt_world st) + Suc n" for m' e c'
    using Suc [of "turn + 1" m' e c' st1] w by simp
  with w show ?case by (simp add: t split: sum.split option.split)
qed

lemma drive_or_step_calls:
  assumes "counts_chats env calls"
  shows "calls (rt_world (snd (drive_or_step env ctx c st))) \<le> calls (rt_world st) +
     (if ev_single_step env then min 1 (c_max_turns c - c_step c) else c_max_turns c - c_step c)"
proof (cases "ev_single_step env")
  case True
  obtain x st1 where t: "run_one_turn env ctx (c_step c) 0 [] c st = (x, st1)" by fastforce
  with turn_calls [OF assms, of ctx "c_step c" 0 "[]" c st] have "calls (rt_world st1) = Suc (calls (rt_world st))" by simp
  then show ?thesis
    by (simp add: drive_or_step_def True single_turn_def Let_def t max_turns_reached_def split: sum.split option.split)
next
  case False
  with loop_calls [OF assms] show ?thesis by (simp add: drive_or_step_def drive_inline_def)
qed

lemma drive_calls:
  assumes "counts_chats env calls"
  shows "calls (rt_world (snd (drive env ctx i st))) \<le> calls (rt_world st) +
     (case cs_load (rt_conts st) i of None \<Rightarrow> 0
      | Some c \<Rightarrow> if ev_single_step env then min 1 (c_max_turns c - c_step c) else c_max_turns c - c_step c)"
proof (cases "cs_load (rt_conts st) i")
  case (Some c)
  then show ?thesis
    using drive_or_step_calls [OF assms, of ctx "c\<lparr>c_status := CRunning\<rparr>"
        "e_transition env (c\<lparr>c_status := CRunning\<rparr>) ''running'' (save_cont env (c\<lparr>c_status := CRunning\<rparr>) st)"]
    by (auto simp: drive_def Let_def split: if_splits)
qed (simp add: drive_def)

lemma demo_counts: "counts_chats (demo_eenv tools) dw_chats"
  by (simp add: counts_chats_def demo_eenv_def)



end
