(* ===== verification/Parking.thy ===== *)
theory Parking
  imports EngineFacts
begin

text \<open>
  Parking and resuming: the calls of a suspended turn can be found by their references, every call of
  a turn is answered under its own id, a resume waits until every call of the turn is resolved and
  touches only the call it resolves, and a call with a valid approval runs.
\<close>

subsection \<open>Parked calls are indexed\<close>

definition indexed :: "cont_store \<Rightarrow> run_outcome \<Rightarrow> bool" where
  "indexed s out = (\<forall>p r. p \<in> set (ro_pending out) \<longrightarrow> pi_ref p = Some r \<longrightarrow> r \<noteq> [] \<longrightarrow>
     map_of (cs_refs s) r = Some (ro_cont out))"

lemma index_refs_lookup:
  "map_of (cs_refs (index_refs i rs s)) x =
     (if x \<noteq> [] \<and> Some x \<in> tc_ref ` set rs then Some i else map_of (cs_refs s) x)"
proof (induction rs arbitrary: s)
  case (Cons r rs)
  let ?s = "case tc_ref r of None \<Rightarrow> s | Some x \<Rightarrow> if x = [] then s else cs_index_ref x i s"
  have "index_refs i (r # rs) s = index_refs i rs ?s" by (simp add: index_refs_def)
  with Cons [of ?s] show ?case by (cases "tc_ref r") auto
qed (simp add: index_refs_def)

lemma no_pending_indexed [simp]: "ro_pending out = [] \<Longrightarrow> indexed s out"
  by (simp add: indexed_def)

lemma ends_not_pending [simp]:
  "ro_pending (fst (complete_run env c text n st)) = []" "ro_pending (fst (fail_run env c err st)) = []"
  "ro_pending (fst (max_turns_reached env c n st)) = []"
  by (simp_all add: complete_run_def fail_run_def max_turns_reached_def Let_def)

lemma indexed_events [simp]: "indexed s (with_events evs out) = indexed s out"
  by (simp add: indexed_def)

lemma suspend_indexed: "indexed (rt_conts (snd (suspend_run env c recs n st))) (fst (suspend_run env c recs n st))"
proof -
  have "map_of (cs_refs (rt_conts (snd (suspend_run env c recs n st)))) x = Some (c_id c)"
    if "r \<in> set recs" "tc_ref r = Some x" "x \<noteq> []" for r x
  proof -
    have "Some x \<in> tc_ref ` set recs" using that(1,2) by (metis image_eqI)
    with that(3) show ?thesis by (simp add: suspend_run_def Let_def index_refs_lookup)
  qed
  moreover have "\<exists>r \<in> set recs. tc_ref r = pi_ref p" if "p \<in> set (ro_pending (fst (suspend_run env c recs n st)))" for p
    using that by (auto simp: suspend_run_def Let_def suspended_outcome_pending)
  ultimately show ?thesis by (metis indexed_def suspend_reflects(2))
qed

definition turn_indexed :: "(escape + turn_result) \<times> 'w rt \<Rightarrow> bool" where
  "turn_indexed x = (\<forall>t out. fst x = Inr t \<longrightarrow> tr_outcome t = Some out \<longrightarrow> indexed (rt_conts (snd x)) out)"

lemma turn_end_indexed: "indexed (rt_conts (snd x)) (fst x) \<Longrightarrow> turn_indexed (turn_end n evs c x)"
  by (simp add: turn_indexed_def turn_end_def)

lemma run_tools_indexed: "turn_indexed (run_tools env ctx k r n evs c st)"
proof -
  define c1 where "c1 = usage_add ''tool_calls'' (int (length (map record_of (lr_calls r))))
    (c\<lparr>c_messages := shape_assistant_turn k r (c_messages c)\<rparr>)"
  obtain xs st1 where d: "dispatch_all env ctx c1 (map record_of (lr_calls r)) st = (xs, st1)" by fastforce
  show ?thesis
    unfolding run_tools_def Let_def c1_def [symmetric] d
    by (auto simp: case_prod_unfold intro!: turn_end_indexed suspend_indexed) (simp add: turn_indexed_def)
qed

lemma run_one_turn_indexed: "turn_indexed (run_one_turn env ctx turn n evs c st)"
proof -
  let ?c = "c\<lparr>c_step := turn\<rparr>"
  obtain x w where chat: "ev_chat env (config_of ?c) (c_messages ?c) (tools_of ?c) (rt_world st) = (x, w)" by fastforce
  have resp: "turn_indexed (run_response env ctx m evs r ?c s)" for m r s
    by (cases "lr_calls r = []") (auto simp: run_response_def case_prod_unfold run_tools_indexed intro!: turn_end_indexed)
  show ?thesis
  proof (cases x)
    case (Inl e)
    with chat show ?thesis by (simp add: run_one_turn_def turn_indexed_def)
  next
    case (Inr r)
    with chat resp show ?thesis
      by (auto simp: run_one_turn_def Let_def split: option.split intro!: turn_end_indexed)
  qed
qed

lemma drive_loop_indexed:
  "drive_loop env ctx n turn tokens evs c st = (Inr out, st') \<Longrightarrow> indexed (rt_conts st') out"
proof (induction n arbitrary: turn tokens evs c st)
  case 0
  then show ?case by (auto simp: apfst_def map_prod_def case_prod_unfold)
next
  case (Suc n)
  obtain x st1 where t: "run_one_turn env ctx turn tokens evs c st = (x, st1)" by fastforce
  from run_one_turn_indexed [of env ctx turn tokens evs c st] have ok: "turn_indexed (x, st1)" by (simp add: t)
  show ?case
    using Suc.prems Suc.IH ok by (auto simp: t turn_indexed_def split: sum.splits option.splits)
qed

lemma single_turn_indexed: "single_turn env ctx c st = (Inr out, st') \<Longrightarrow> indexed (rt_conts st') out"
proof -
  assume a: "single_turn env ctx c st = (Inr out, st')"
  obtain x st1 where t: "run_one_turn env ctx (c_step c) 0 [] c st = (x, st1)" by fastforce
  from run_one_turn_indexed [of env ctx "c_step c" 0 "[]" c st] have ok: "turn_indexed (x, st1)" by (simp add: t)
  show ?thesis
    using a ok by (auto simp: single_turn_def Let_def t turn_indexed_def apfst_def map_prod_def case_prod_unfold
        split: if_splits sum.splits option.splits)
qed

lemma drive_or_step_indexed: "drive_or_step env ctx c st = (Inr out, st') \<Longrightarrow> indexed (rt_conts st') out"
  by (auto simp: drive_or_step_def drive_inline_def dest: drive_loop_indexed single_turn_indexed split: if_splits)

text \<open>A reference of a pending call, looked up in the store after the slice.\<close>

lemma indexed_reflected_found:
  assumes "indexed s out" "reflects s out" "ro_status out = Suspended" "p \<in> set (ro_pending out)"
    "pi_ref p = Some r" "r \<noteq> []" "ro_cont out \<noteq> []"
  shows "\<exists>c rec. cs_find_by_ref s r = Some c \<and> cs_load s (ro_cont out) = Some c \<and> c_status c = CSuspended \<and>
    rec \<in> set (c_pending c) \<and> tc_status rec = TPending \<and> tc_ref rec = Some r \<and> tc_use_id rec = pi_use_id p \<and>
    tc_name rec = pi_name p \<and> tc_args rec = pi_args p"
proof -
  from assms(1,4-6) have m: "map_of (cs_refs s) r = Some (ro_cont out)" by (simp add: indexed_def)
  from assms(2,3) obtain c where c: "cs_load s (ro_cont out) = Some c" "c_status c = CSuspended"
    "ro_pending out = ro_pending (suspended_outcome c)"
    by (cases "cs_load s (ro_cont out)") (simp_all add: reflects_def)
  from assms(4) c(3) obtain rec where "rec \<in> set (c_pending c)" "tc_status rec = TPending" "pi_ref p = tc_ref rec"
    "pi_use_id p = tc_use_id rec" "pi_name p = tc_name rec" "pi_args p = tc_args rec"
    unfolding suspended_outcome_pending by auto
  with c m assms(5,7) show ?thesis by (auto simp: cs_find_by_ref_def)
qed

text \<open>C12. A parked call can always be found again: when \<open>drive\<close> parks a run, every pending call it
reports under an external reference is found in the store by that reference, in the suspended
continuation it belongs to, with the very id, tool and arguments that were reported.\<close>

theorem parked_calls_are_found:
  assumes "cs_ok (rt_conts st)" and "cs_load (rt_conts st) i = Some c" and "c_status c = CRunning" and "i \<noteq> []"
    and "drive env ctx i st = (Inr out, st')" and "ro_status out = Suspended"
    and "p \<in> set (ro_pending out)" and "pi_ref p = Some r" and "r \<noteq> []"
  shows "\<exists>c' rec. cs_find_by_ref (rt_conts st') r = Some c' \<and> c_id c' = i \<and> c_status c' = CSuspended \<and>
    rec \<in> set (c_pending c') \<and> tc_status rec = TPending \<and> tc_ref rec = Some r \<and> tc_use_id rec = pi_use_id p \<and>
    tc_name rec = pi_name p \<and> tc_args rec = pi_args p"
proof -
  from drive_reflects [OF assms(1,5)] assms(2) have r: "reflects (rt_conts st') out" "ro_cont out = i" by simp_all
  have "indexed (rt_conts st') out"
    using assms(2,3,5) drive_or_step_indexed by (simp add: drive_def Let_def)
  from indexed_reflected_found [OF this r(1) assms(6-9)] assms(4) r(2)
  obtain c' rec where f: "cs_find_by_ref (rt_conts st') r = Some c'" "cs_load (rt_conts st') i = Some c'"
    "c_status c' = CSuspended" "rec \<in> set (c_pending c')" "tc_status rec = TPending" "tc_ref rec = Some r"
    "tc_use_id rec = pi_use_id p" "tc_name rec = pi_name p" "tc_args rec = pi_args p" by auto
  moreover have "c_id c' = i"
    using conts.load_key [OF _ f(2)] drive_cs_ok [OF assms(1), of env ctx i] assms(5) by simp
  ultimately show ?thesis by blast
qed

definition demo_parked :: "demo_world rt" where
  "demo_parked = snd (drive (demo_eenv [''mail.send'']) [] ''c1'' (demo_rt [demo_cont ''c1'']))"

theorem parked_calls_are_found_witness:
  "\<exists>c' rec. cs_find_by_ref (rt_conts demo_parked) ''req_1'' = Some c' \<and> c_id c' = ''c1'' \<and> c_status c' = CSuspended \<and>
    rec \<in> set (c_pending c') \<and> tc_name rec = ''mail.send''"
proof -
  let ?st = "demo_rt [demo_cont ''c1'']" and ?env = "demo_eenv [''mail.send'']"
  let ?p = "\<lparr>pi_use_id = ''mail.send'', pi_name = ''mail.send'', pi_args = [], pi_reason = Some ''human_approval'',
    pi_ref = Some ''req_1''\<rparr>"
  have ok: "cs_ok (rt_conts ?st)" "cs_load (rt_conts ?st) ''c1'' = Some (demo_cont ''c1'')" "c_status (demo_cont ''c1'') = CRunning"
    by (simp_all add: demo_rt_def cs_ok_def keyed_def dict_ok_def cs_load_def demo_cont_def)
  have "map_sum (\<lambda>_. ()) (\<lambda>out. (ro_status out, ro_pending out)) (fst (drive ?env [] ''c1'' ?st)) = Inr (Suspended, [?p])"
    by code_simp
  then obtain out where out: "drive ?env [] ''c1'' ?st = (Inr out, demo_parked)" "ro_status out = Suspended"
    "ro_pending out = [?p]"
    unfolding demo_parked_def by (cases "drive ?env [] ''c1'' ?st"; cases "fst (drive ?env [] ''c1'' ?st)") auto
  then show ?thesis
    using parked_calls_are_found [OF ok _ out(1,2), of ?p "''req_1''"] by auto
qed


subsection \<open>Every call of a turn is answered\<close>

lemma settle_call_keeps [simp]:
  "tc_use_id (settle_call r x) = tc_use_id r" "tc_name (settle_call r x) = tc_name r"
  "tc_args (settle_call r x) = tc_args r"
  by (simp_all add: settle_call_def split: dispatched.split)

lemma map_settled:
  assumes "\<And>r x. f (settle_call r x) = f r" "length xs = length recs"
  shows "map f (map2 settle_call recs xs) = map f recs"
  using assms(2)
proof (induction recs arbitrary: xs)
  case (Cons r recs)
  then obtain x xs' where "xs = x # xs'" by (cases xs) auto
  with Cons show ?case by (simp add: assms(1))
qed simp

lemma answers_settled:
  assumes "length xs = length calls"
  shows "answers calls (map2 settle_call (map record_of calls) xs)"
  using map_settled [of tc_use_id xs "map record_of calls"] map_settled [of tc_name xs "map record_of calls"] assms
  by (simp add: answers_def record_of_def new_call_def comp_def)

lemma no_pending_settled:
  "\<not> list_ex (\<lambda>r. tc_status r = TPending) recs \<Longrightarrow> filter (\<lambda>r. tc_status r = TPending) recs = []"
  by (simp add: list_ex_iff filter_empty_conv)

text \<open>C22. Every tool call of a turn is answered, once and in order: when a turn ran the model's calls, the
messages have grown by the assistant turn and, if the run goes on, by results whose ids (for Vertex,
names) are exactly those of the calls; if the run parked instead, the store holds the messages with
the assistant turn and one record per call, whose results will carry exactly those ids.\<close>

theorem calls_are_answered:
  assumes "run_tools env ctx k r n evs c st = (Inr t, st')"
  shows "\<exists>recs. map tc_use_id recs = map lc_id (lr_calls r) \<and>
    result_keys k (tool_result_messages k recs) = call_keys k (assistant_turn k r) \<and>
    (if (case tr_outcome t of None \<Rightarrow> False | Some out \<Rightarrow> ro_status out = Suspended)
     then (\<exists>c'. cs_load (rt_conts st') (c_id c) = Some c' \<and> c_pending c' = recs \<and>
       c_messages c' = c_messages c @ [assistant_turn k r])
     else c_messages (tr_cont t) = c_messages c @ [assistant_turn k r] @ tool_result_messages k recs)"
proof -
  define c1 where "c1 = usage_add ''tool_calls'' (int (length (map record_of (lr_calls r))))
    (c\<lparr>c_messages := shape_assistant_turn k r (c_messages c)\<rparr>)"
  obtain xs st1 where d: "dispatch_all env ctx c1 (map record_of (lr_calls r)) st = (xs, st1)" by fastforce
  define recs where "recs = map2 settle_call (map record_of (lr_calls r)) xs"
  have "length xs = length (lr_calls r)"
    using dispatch_all_length [of env ctx c1 "map record_of (lr_calls r)" st] d by simp
  then have a: "answers (lr_calls r) recs" unfolding recs_def by (rule answers_settled)
  have m: "c_messages c1 = c_messages c @ [assistant_turn k r]" "c_id c1 = c_id c"
    by (simp_all add: c1_def shape_assistant_turn_def)
  have run: "run_tools env ctx k r n evs c st =
    (let evs' = evs @ map event_of (filter (\<lambda>r. tc_status r = TExecuted) recs)
     in if list_ex (\<lambda>r. tc_status r = TPending) recs
        then turn_end n evs' c1 (suspend_run env c1 recs n st1)
        else let c3 = c1\<lparr>c_messages := shape_tool_results k recs (c_messages c1)\<rparr>;
                 st2 = save_cont env c3 st1;
                 (sigs, table) = check_signals (c_pid c3) (rt_table st2);
                 st3 = st2\<lparr>rt_table := table\<rparr>
             in if ''SIGTERM'' \<in> set sigs
                then turn_end n evs' c3 (complete_run env c3 (lr_text r) n st3)
                else (Inr \<lparr>tr_outcome = None, tr_tokens = n, tr_events = evs', tr_cont = c3\<rparr>, st3))"
    unfolding run_tools_def Let_def c1_def [symmetric] d recs_def by simp
  have "if (case tr_outcome t of None \<Rightarrow> False | Some out \<Rightarrow> ro_status out = Suspended)
     then (\<exists>c'. cs_load (rt_conts st') (c_id c) = Some c' \<and> c_pending c' = recs \<and>
       c_messages c' = c_messages c @ [assistant_turn k r])
     else c_messages (tr_cont t) = c_messages c @ [assistant_turn k r] @ tool_result_messages k recs"
  proof (cases "list_ex (\<lambda>r. tc_status r = TPending) recs")
    case True
    with assms m show ?thesis
      by (auto simp: run Let_def turn_end_def suspend_run_def)
  next
    case False
    with assms m show ?thesis
      by (auto simp: run Let_def turn_end_def shape_tool_results_def case_prod_unfold complete_reflects split: if_splits)
  qed
  with a keys_match [OF a] show ?thesis by (auto simp: answers_def)
qed

theorem calls_are_answered_witness:
  "\<exists>recs. map tc_use_id recs = [''db.read''] \<and>
    result_keys Anthropic (tool_result_messages Anthropic recs) = [PStr ''db.read'']"
proof -
  let ?r = "demo_response [\<lparr>lc_id = ''db.read'', lc_name = ''db.read'', lc_input = []\<rparr>]"
  have "\<exists>t st'. run_tools (demo_eenv [''db.read'']) [] Anthropic ?r 0 [] (demo_cont ''c1'') (demo_rt [demo_cont ''c1'']) = (Inr t, st')"
    by (auto simp: run_tools_def Let_def case_prod_unfold turn_end_def)
  then obtain t st' where
    "run_tools (demo_eenv [''db.read'']) [] Anthropic ?r 0 [] (demo_cont ''c1'') (demo_rt [demo_cont ''c1'']) = (Inr t, st')"
    by blast
  from calls_are_answered [OF this] obtain recs where "map tc_use_id recs = map lc_id (lr_calls ?r)"
    "result_keys Anthropic (tool_result_messages Anthropic recs) = call_keys Anthropic (assistant_turn Anthropic ?r)" by blast
  then show ?thesis by (intro exI [of _ recs]) (simp add: demo_response_def call_keys_turn)
qed

subsection \<open>Resuming\<close>

lemma put_call_map: "f r = f x \<Longrightarrow> pending_by_id c i = Some x \<Longrightarrow> tc_use_id r = i \<Longrightarrow>
  map f (put_call r (c_pending c)) = map f (c_pending c)"
proof -
  have "find (\<lambda>r. tc_use_id r = i) rs = Some x \<Longrightarrow> f r = f x \<Longrightarrow> tc_use_id r = i \<Longrightarrow> map f (put_call r rs) = map f rs" for rs
    by (induction rs) (auto split: if_splits)
  then show "f r = f x \<Longrightarrow> pending_by_id c i = Some x \<Longrightarrow> tc_use_id r = i \<Longrightarrow> ?thesis"
    by (simp add: pending_by_id_def)
qed

lemma put_call_others: "filter (\<lambda>x. tc_use_id x \<noteq> tc_use_id r) (put_call r rs) = filter (\<lambda>x. tc_use_id x \<noteq> tc_use_id r) rs"
  by (induction rs) auto

lemma put_call_find: "find (\<lambda>x. tc_use_id x = tc_use_id r) rs = Some x \<Longrightarrow> find (\<lambda>x. tc_use_id x = tc_use_id r) (put_call r rs) = Some r"
  by (induction rs) (auto split: if_splits)

lemma put_call_keeps_other: "x \<in> set rs \<Longrightarrow> tc_use_id x \<noteq> tc_use_id r \<Longrightarrow> x \<in> set (put_call r rs)"
  by (induction rs) auto

lemma dispatch_authorized_conts [simp]:
  "rt_conts (snd (dispatch_authorized env ctx c r st)) = rt_conts st"
  "rt_table (snd (dispatch_authorized env ctx c r st)) = rt_table st"
proof -
  obtain d st1 where a: "admit_call env c (tc_name r) (tc_args r) (tc_token r) st = (d, st1)" by fastforce
  with admit_conts [of env c "tc_name r" "tc_args r" "tc_token r" st]
  have s: "rt_conts st1 = rt_conts st" "rt_table st1 = rt_table st" by simp_all
  show "rt_conts (snd (dispatch_authorized env ctx c r st)) = rt_conts st"
    "rt_table (snd (dispatch_authorized env ctx c r st)) = rt_table st"
    using s by (simp_all add: dispatch_authorized_def a split: sum.split prod.split)
qed

text \<open>What applying a resolution does to the record and the continuation.\<close>

lemma apply_resolution_effect:
  assumes "apply_resolution env ctx c rec rs st = (Inr (c', r'), st')"
  shows "c' = c\<lparr>c_pending := put_call r' (c_pending c)\<rparr> \<and> tc_use_id r' = tc_use_id rec \<and> tc_name r' = tc_name rec \<and>
    tc_args r' = tc_args rec \<and> tc_status r' = (if rs_outcome rs = Reject then TRejected else TExecuted) \<and>
    rt_table st' = rt_table st"
  using assms
  by (auto simp: apply_resolution_def Let_def split: outcome.splits prod.splits sum.splits)
    (metis dispatch_authorized_conts(2) snd_conv)

text \<open>C13. A resume waits for every approval of the turn: while another call of the turn is still pending,
resolving one call leaves the run suspended and says so, the model is not asked (the messages and
the step are as they were), the resolved call is recorded with its outcome, and the records of the
other calls are untouched.\<close>

theorem resume_waits_for_siblings:
  assumes "cs_load (rt_conts st) (rs_cont rs) = Some c" and "cs_ok (rt_conts st)" and "c_status c = CSuspended"
    and "pending_by_id c (rs_use_id rs) = Some rec" and "tc_status rec = TPending"
    and "sib \<in> set (c_pending c)" and "tc_use_id sib \<noteq> rs_use_id rs" and "tc_status sib = TPending"
    and "resume env ctx rs st = (Inr out, st')"
  shows "ro_status out = Suspended \<and> ro_awaiting_remaining out \<and> rt_table st' = rt_table st \<and>
    (\<exists>c' r'. cs_load (rt_conts st') (rs_cont rs) = Some c' \<and> c_status c' = CSuspended \<and>
      c_messages c' = c_messages c \<and> c_step c' = c_step c \<and> map tc_use_id (c_pending c') = map tc_use_id (c_pending c) \<and>
      pending_by_id c' (rs_use_id rs) = Some r' \<and>
      tc_status r' = (if rs_outcome rs = Reject then TRejected else TExecuted) \<and>
      filter (\<lambda>x. tc_use_id x \<noteq> rs_use_id rs) (c_pending c') = filter (\<lambda>x. tc_use_id x \<noteq> rs_use_id rs) (c_pending c))"
proof -
  let ?c = "c\<lparr>c_status := CResuming\<rparr>"
  have p: "pending_by_id ?c (rs_use_id rs) = Some rec" using assms(4) by (simp add: pending_by_id_def)
  have i: "tc_use_id rec = rs_use_id rs" using assms(4) by (auto simp: pending_by_id_def find_Some_iff)
  have cid: "c_id c = rs_cont rs" using conts.load_key [OF assms(2,1)] by simp
  obtain c2 r2 st2 where a: "apply_resolution env ctx ?c rec rs (save_cont env ?c st) = (Inr (c2, r2), st2)"
    and s: "settle_resume env ctx c2 r2 st2 = (Inr out, st')"
    using assms(1,3,5,9) p
    by (cases "apply_resolution env ctx ?c rec rs (save_cont env ?c st)"; cases "fst (apply_resolution env ctx ?c rec rs (save_cont env ?c st))")
      (auto simp: resume_def Let_def)
  from apply_resolution_effect [OF a]
  have e: "c2 = ?c\<lparr>c_pending := put_call r2 (c_pending c)\<rparr>" "tc_use_id r2 = rs_use_id rs"
    "tc_status r2 = (if rs_outcome rs = Reject then TRejected else TExecuted)" "rt_table st2 = rt_table st"
    using i by auto
  have "sib \<in> set (c_pending c2)" using put_call_keeps_other [OF assms(6)] assms(7) e by simp
  then have "list_ex (\<lambda>r. tc_status r = TPending) (c_pending c2)" using assms(8) by (auto simp: list_ex_iff)
  with s have out: "out = (suspended_outcome (c2\<lparr>c_status := CSuspended\<rparr>))\<lparr>ro_awaiting_remaining := True, ro_events := resolved_event r2\<rparr>"
    "st' = save_cont env (c2\<lparr>c_status := CSuspended\<rparr>) st2" by (simp_all add: settle_resume_def Let_def)
  have found: "pending_by_id (c2\<lparr>c_status := CSuspended\<rparr>) (rs_use_id rs) = Some r2"
    using put_call_find [of r2 "c_pending c" rec] e assms(4) by (simp add: pending_by_id_def)
  have ids: "map tc_use_id (put_call r2 (c_pending c)) = map tc_use_id (c_pending c)"
    by (rule put_call_map [OF _ assms(4) e(2)]) (simp add: e i)
  have others: "filter (\<lambda>x. tc_use_id x \<noteq> rs_use_id rs) (put_call r2 (c_pending c)) = filter (\<lambda>x. tc_use_id x \<noteq> rs_use_id rs) (c_pending c)"
    using put_call_others [of r2 "c_pending c"] e by simp
  show ?thesis
    using found ids others e cid by (simp add: out pending_by_id_def)
qed

definition demo_pending :: "string \<Rightarrow> string \<Rightarrow> tool_call" where
  "demo_pending i r = (new_call i ''mail.send'' [])\<lparr>tc_reason := Some ''human_approval'', tc_ref := Some r\<rparr>"

definition demo_suspended :: continuation where
  "demo_suspended = (demo_cont ''c1'')\<lparr>c_status := CSuspended, c_suspend_reason := Some ''human_approval'',
     c_pending := [demo_pending ''t1'' ''r1'', demo_pending ''t2'' ''r2'']\<rparr>"

definition demo_resolution :: "string \<Rightarrow> outcome \<Rightarrow> resolution" where
  "demo_resolution i x = \<lparr>rs_cont = ''c1'', rs_use_id = i, rs_outcome = x, rs_token = Some ''cap'', rs_payload = PNone,
     rs_by = None\<rparr>"

theorem resume_waits_for_siblings_witness:
  "\<exists>out st'. resume (demo_eenv []) [] (demo_resolution ''t1'' Accept) (demo_rt [demo_suspended]) = (Inr out, st') \<and>
     ro_status out = Suspended \<and> ro_awaiting_remaining out"
proof -
  let ?st = "demo_rt [demo_suspended]" and ?rs = "demo_resolution ''t1'' Accept"
  have "\<not> isl (fst (resume (demo_eenv []) [] ?rs ?st))" by code_simp
  then obtain out st' where r: "resume (demo_eenv []) [] ?rs ?st = (Inr out, st')"
    by (cases "resume (demo_eenv []) [] ?rs ?st"; cases "fst (resume (demo_eenv []) [] ?rs ?st)") auto
  have "cs_load (rt_conts ?st) (rs_cont ?rs) = Some demo_suspended" "cs_ok (rt_conts ?st)" "c_status demo_suspended = CSuspended"
    by (simp_all add: demo_rt_def cs_ok_def keyed_def dict_ok_def cs_load_def demo_suspended_def demo_cont_def demo_resolution_def)
  moreover have "pending_by_id demo_suspended (rs_use_id ?rs) = Some (demo_pending ''t1'' ''r1'')"
    "tc_status (demo_pending ''t1'' ''r1'') = TPending" "demo_pending ''t2'' ''r2'' \<in> set (c_pending demo_suspended)"
    "tc_use_id (demo_pending ''t2'' ''r2'') \<noteq> rs_use_id ?rs" "tc_status (demo_pending ''t2'' ''r2'') = TPending"
    by (simp_all add: pending_by_id_def demo_suspended_def demo_pending_def new_call_def demo_resolution_def)
  ultimately show ?thesis using resume_waits_for_siblings [OF _ _ _ _ _ _ _ _ r] r by blast
qed

text \<open>A resolution for a call that is not there wedges the run: \<open>resume\<close> reports the failure but has
already stored the status \<open>resuming\<close>, so every later resolution of that continuation, the right
one included, is refused without effect.\<close>

theorem unknown_call_wedges_resume:
  assumes "cs_load (rt_conts st) i = Some c" and "c_id c = i" and "c_status c = CSuspended"
    and "rs_cont wrong = i" and "pending_by_id c (rs_use_id wrong) = None" and "rs_cont rs = i"
  shows "let st' = snd (resume env ctx wrong st)
    in snd (resume env' ctx' rs st') = st' \<and>
       (case fst (resume env' ctx' rs st') of Inl _ \<Rightarrow> False | Inr out \<Rightarrow> ro_status out = RunFailed)"
proof -
  have "pending_by_id (c\<lparr>c_status := CResuming\<rparr>) (rs_use_id wrong) = None"
    using assms(5) by (simp add: pending_by_id_def)
  then have "snd (resume env ctx wrong st) = save_cont env (c\<lparr>c_status := CResuming\<rparr>) st"
    using assms by (simp add: resume_def Let_def)
  then show ?thesis using assms by (simp add: resume_def Let_def)
qed


theorem unknown_call_wedges_resume_witness:
  "let st' = snd (resume (demo_eenv []) [] (demo_resolution ''none'' Accept) (demo_rt [demo_suspended]))
   in snd (resume (demo_eenv []) [] (demo_resolution ''t1'' Accept) st') = st'"
proof -
  have "cs_load (rt_conts (demo_rt [demo_suspended])) ''c1'' = Some demo_suspended" "c_id demo_suspended = ''c1''"
    "c_status demo_suspended = CSuspended" "rs_cont (demo_resolution ''none'' Accept) = ''c1''"
    "pending_by_id demo_suspended (rs_use_id (demo_resolution ''none'' Accept)) = None" "rs_cont (demo_resolution ''t1'' Accept) = ''c1''"
    by (simp_all add: demo_rt_def cs_load_def demo_suspended_def demo_cont_def demo_resolution_def pending_by_id_def
        demo_pending_def new_call_def)
  from unknown_call_wedges_resume [OF this, of "demo_eenv []" "[]" "demo_eenv []" "[]"] show ?thesis
    by (simp add: Let_def)
qed

end
