(* ===== verification/Ledger.thy ===== *)
theory Ledger
  imports Prelude
begin

text \<open>
  The runnable ledger (\<open>src/src/runtime/ledger.py\<close>, \<open>InMemoryLedger\<close>): one row per continuation and
  the compare-and-swap claim on its status and fencing epoch.  The lock makes every operation
  atomic, so an operation is one step; the monotonic clock is an argument.
\<close>

datatype row_status = Queued | RunningRow | Retryable | DoneRow | FailedRow | Dead

record ledger_row =
  lw_cont :: string
  lw_tenant :: string
  lw_priority :: string
  lw_status :: row_status
  lw_epoch :: nat
  lw_owner :: "string option"
  lw_lease_until :: "rat option"
  lw_crashes :: nat
  lw_not_before :: "rat option"
  lw_error :: "string option"

type_synonym ledger = "(string, ledger_row) dict"

definition upsert_queued :: "string \<Rightarrow> string \<Rightarrow> string \<Rightarrow> nat \<Rightarrow> ledger \<Rightarrow> ledger" where
  "upsert_queued i ten prio ep l = dset i \<lparr>lw_cont = i, lw_tenant = ten, lw_priority = prio,
     lw_status = Queued, lw_epoch = ep, lw_owner = None, lw_lease_until = None, lw_crashes = 0,
     lw_not_before = None, lw_error = None\<rparr> l"

definition claimable :: "row_status \<Rightarrow> bool" where
  "claimable s = (s = Queued \<or> s = Retryable)"

definition try_mark_running :: "rat \<Rightarrow> string \<Rightarrow> string \<Rightarrow> nat \<Rightarrow> rat \<Rightarrow> ledger \<Rightarrow> bool \<times> ledger" where
  "try_mark_running now i worker ep lease l =
     (case map_of l i of
        None \<Rightarrow> (False, l)
      | Some r \<Rightarrow>
        if lw_epoch r \<noteq> ep then (False, l)
        else if \<not> claimable (lw_status r) then (False, l)
        else (True, dset i (r\<lparr>lw_status := RunningRow, lw_owner := Some worker,
                              lw_lease_until := Some (now + lease)\<rparr>) l))"

definition finalize :: "string \<Rightarrow> row_status \<Rightarrow> string option \<Rightarrow> ledger \<Rightarrow> ledger" where
  "finalize i st err l = dmod i (\<lambda>r. r\<lparr>lw_status := st, lw_error := err, lw_owner := None,
     lw_lease_until := None\<rparr>) l"

definition mark_retryable :: "string \<Rightarrow> string \<Rightarrow> nat \<Rightarrow> ledger \<Rightarrow> bool \<times> ledger" where
  "mark_retryable i err max_crashes l =
     (case map_of l i of
        None \<Rightarrow> (False, l)
      | Some r \<Rightarrow>
        (let r' = r\<lparr>lw_crashes := lw_crashes r + 1, lw_error := Some err, lw_owner := None, lw_lease_until := None\<rparr>
         in if max_crashes \<le> lw_crashes r'
            then (False, dset i (r'\<lparr>lw_status := Dead\<rparr>) l)
            else (True, dset i (r'\<lparr>lw_status := Retryable\<rparr>) l)))"

definition recover_rows :: "ledger \<Rightarrow> ledger_row list" where
  "recover_rows l = filter (\<lambda>r. claimable (lw_status r)) (dvals l)"

definition ledger_get :: "ledger \<Rightarrow> string \<Rightarrow> ledger_row option" where
  "ledger_get l i = map_of l i"

subsection \<open>One row, seen from outside\<close>

lemma get_upsert [simp]:
  "map_of (upsert_queued i ten prio ep l) j = (if j = i then Some \<lparr>lw_cont = i, lw_tenant = ten,
     lw_priority = prio, lw_status = Queued, lw_epoch = ep, lw_owner = None, lw_lease_until = None,
     lw_crashes = 0, lw_not_before = None, lw_error = None\<rparr> else map_of l j)"
  by (simp add: upsert_queued_def)

lemma claim_wins_iff:
  "fst (try_mark_running now i w ep lease l) \<longleftrightarrow>
     (\<exists>r. map_of l i = Some r \<and> lw_epoch r = ep \<and> claimable (lw_status r))"
  by (simp add: try_mark_running_def split: option.split)

lemma claim_row:
  "map_of (snd (try_mark_running now i w ep lease l)) j =
     (if j = i \<and> fst (try_mark_running now i w ep lease l)
      then map_option (\<lambda>r. r\<lparr>lw_status := RunningRow, lw_owner := Some w, lw_lease_until := Some (now + lease)\<rparr>) (map_of l i)
      else map_of l j)"
  by (cases "map_of l i") (simp_all add: try_mark_running_def)

lemma claim_lost: "\<not> fst (try_mark_running now i w ep lease l) \<Longrightarrow> snd (try_mark_running now i w ep lease l) = l"
  by (auto simp: try_mark_running_def split: option.splits if_splits)

lemma finalize_row [simp]:
  "map_of (finalize i st err l) j =
     (if j = i then map_option (\<lambda>r. r\<lparr>lw_status := st, lw_error := err, lw_owner := None, lw_lease_until := None\<rparr>) (map_of l i)
      else map_of l j)"
  by (simp add: finalize_def)

lemma retry_row:
  "map_of (snd (mark_retryable i err n l)) j =
     (if j = i then map_option (\<lambda>r. r\<lparr>lw_crashes := lw_crashes r + 1, lw_error := Some err, lw_owner := None,
         lw_lease_until := None, lw_status := (if n \<le> lw_crashes r + 1 then Dead else Retryable)\<rparr>) (map_of l i)
      else map_of l j)"
  by (cases "map_of l i") (simp_all add: mark_retryable_def Let_def)

definition ledger_ok :: "ledger \<Rightarrow> bool" where
  "ledger_ok l = keyed lw_cont l"

lemma ledger_ok_ops [inv_intros]:
  assumes "ledger_ok l"
  shows "ledger_ok (upsert_queued i ten prio ep l)" "ledger_ok (snd (try_mark_running now i w ep lease l))"
    "ledger_ok (finalize i st err l)" "ledger_ok (snd (mark_retryable i msg n l))"
  using assms unfolding ledger_ok_def
  by (auto simp: upsert_queued_def try_mark_running_def finalize_def mark_retryable_def Let_def
      dest: keyed_lookup intro!: keyed_dset keyed_dmod split: option.split)

lemma recover_rows_iff:
  "ledger_ok l \<Longrightarrow> r \<in> set (recover_rows l) \<longleftrightarrow> map_of l (lw_cont r) = Some r \<and> claimable (lw_status r)"
  unfolding ledger_ok_def recover_rows_def by (simp only: set_filter mem_Collect_eq keyed_vals)

subsection \<open>Histories of concurrent workers\<close>

text \<open>The operations of any number of enqueuers and workers, in the order in which they take the lock.\<close>

datatype ledger_op =
    Upsert string string string nat
  | Claim rat string string nat rat
  | Finalize string row_status "string option"
  | Retry string string nat

definition ledger_step :: "ledger_op \<Rightarrow> ledger \<Rightarrow> ledger" where
  "ledger_step a l =
     (case a of
        Upsert i ten prio ep \<Rightarrow> upsert_queued i ten prio ep l
      | Claim now i w ep lease \<Rightarrow> snd (try_mark_running now i w ep lease l)
      | Finalize i st err \<Rightarrow> finalize i st err l
      | Retry i err n \<Rightarrow> snd (mark_retryable i err n l))"

text \<open>Does this operation win the row \<open>i\<close> at epoch \<open>ep\<close>?  Does it make the row claimable again at
  that epoch?\<close>

definition wins :: "string \<Rightarrow> nat \<Rightarrow> ledger_op \<Rightarrow> ledger \<Rightarrow> bool" where
  "wins i ep a l = (case a of Claim now j w e lease \<Rightarrow> j = i \<and> e = ep \<and> fst (try_mark_running now j w e lease l) | _ \<Rightarrow> False)"

definition reopens :: "string \<Rightarrow> nat \<Rightarrow> ledger_op \<Rightarrow> bool" where
  "reopens i ep a = (case a of
     Upsert j _ _ e \<Rightarrow> j = i \<and> e = ep | Claim _ _ _ _ _ \<Rightarrow> False
   | Finalize j st _ \<Rightarrow> j = i \<and> claimable st | Retry j _ _ \<Rightarrow> j = i)"

fun win_count :: "string \<Rightarrow> nat \<Rightarrow> ledger_op list \<Rightarrow> ledger \<Rightarrow> nat" where
  "win_count i ep [] l = 0"
| "win_count i ep (a # as) l = (if wins i ep a l then 1 else 0) + win_count i ep as (ledger_step a l)"

definition reopen_count :: "string \<Rightarrow> nat \<Rightarrow> ledger_op list \<Rightarrow> nat" where
  "reopen_count i ep as = length (filter (reopens i ep) as)"

definition open_at :: "string \<Rightarrow> nat \<Rightarrow> ledger \<Rightarrow> bool" where
  "open_at i ep l = (\<exists>r. map_of l i = Some r \<and> lw_epoch r = ep \<and> claimable (lw_status r))"

lemma wins_open: "wins i ep a l \<Longrightarrow> open_at i ep l \<and> \<not> open_at i ep (ledger_step a l)"
  by (cases a) (auto simp: wins_def open_at_def ledger_step_def claim_wins_iff claim_row claimable_def)

lemma opens_only_by_reopening:
  "open_at i ep (ledger_step a l) \<Longrightarrow> \<not> open_at i ep l \<Longrightarrow> reopens i ep a"
  by (cases a) (auto simp: open_at_def ledger_step_def claim_row retry_row reopens_def claimable_def split: if_splits)

lemma win_count_bound:
  "win_count i ep as l \<le> (if open_at i ep l then 1 else 0) + reopen_count i ep as"
proof (induction as arbitrary: l)
  case (Cons a as)
  from Cons.IH [of "ledger_step a l"] wins_open [of i ep a l] opens_only_by_reopening [of i ep a l]
  show ?case by (auto simp: reopen_count_def split: if_splits)
qed (simp add: reopen_count_def)

lemma running_row_stuck:
  assumes "map_of l i = Some r" and "\<not> claimable (lw_status r)"
  shows "\<not> fst (try_mark_running now i w ep lease l) \<and> i \<notin> lw_cont ` set (recover_rows l) \<or> \<not> ledger_ok l"
  using assms by (auto simp: claim_wins_iff recover_rows_iff)

subsection \<open>Properties\<close>

text \<open>C5. At most one execution per enqueue: in every history of upserts, claims by any workers,
  finalizations and retries, the number of claims that win a continuation at a given epoch is at
  most the number of operations that opened it at that epoch (an upsert with that epoch, or a retry
  or re-queueing of the row), however often the entry is delivered.\<close>

theorem claims_at_most_once:
  "win_count i ep as [] \<le> reopen_count i ep as"
  using win_count_bound [of i ep as "[]"] by (simp add: open_at_def)

text \<open>Stale deliveries are fenced: once a continuation is enqueued again under another epoch, no claim
  with the old epoch ever wins, until the old epoch itself is enqueued again.\<close>

theorem stale_epochs_are_fenced:
  assumes "old \<noteq> ep" and "list_all (\<lambda>a. case a of Upsert j _ _ e \<Rightarrow> j \<noteq> i \<or> e \<noteq> old | _ \<Rightarrow> True) later"
  shows "win_count i old later (upsert_queued i ten prio ep l) = 0"
proof -
  have "win_count i old as l = 0"
    if "\<exists>r. map_of l i = Some r \<and> lw_epoch r \<noteq> old"
      and "list_all (\<lambda>a. case a of Upsert j _ _ e \<Rightarrow> j \<noteq> i \<or> e \<noteq> old | _ \<Rightarrow> True) as" for as l
    using that
  proof (induction as arbitrary: l)
    case (Cons a as)
    from Cons.prems have "\<not> wins i old a l" by (cases a) (auto simp: wins_def claim_wins_iff)
    moreover have "\<exists>r. map_of (ledger_step a l) i = Some r \<and> lw_epoch r \<noteq> old"
    proof (cases a)
      case (Upsert j ten prio e)
      with Cons.prems show ?thesis by (auto simp: ledger_step_def)
    next
      case (Retry j msg n)
      from Cons.prems(1) obtain r where "map_of l i = Some r" "lw_epoch r \<noteq> old" by blast
      with Retry show ?thesis by (cases "i = j") (simp_all add: ledger_step_def retry_row)
    qed (use Cons.prems(1) in \<open>auto simp: ledger_step_def claim_row\<close>)
    ultimately show ?case using Cons by simp
  qed simp
  with assms show ?thesis by simp
qed

theorem stale_epochs_are_fenced_witness:
  "win_count ''c'' 1 [Claim 0 ''c'' ''w1'' 1 5, Claim 0 ''c'' ''w2'' 2 5, Retry ''c'' ''x'' 3, Claim 9 ''c'' ''w1'' 1 5]
     (upsert_queued ''c'' ''t'' ''p1'' 2 []) = 0"
  by (rule stale_epochs_are_fenced) simp_all

text \<open>A worker that dies while it holds a row strands the run: the row stays running, so every
  redelivery of the entry loses the claim whatever time has passed since the lease ran out, and the
  recovery after a restart does not return it.\<close>

theorem dead_worker_strands_run:
  assumes "ledger_ok l" and "fst (try_mark_running now i w ep lease l)"
  shows "let l' = snd (try_mark_running now i w ep lease l)
    in \<not> fst (try_mark_running later i w' ep lease' l') \<and> i \<notin> lw_cont ` set (recover_rows l')"
proof -
  let ?l' = "snd (try_mark_running now i w ep lease l)"
  from assms(2) obtain r where "map_of ?l' i = Some r" "lw_status r = RunningRow"
    by (auto simp: claim_wins_iff claim_row)
  then have "\<not> fst (try_mark_running later i w' ep lease' ?l') \<and> i \<notin> lw_cont ` set (recover_rows ?l') \<or> \<not> ledger_ok ?l'"
    by (intro running_row_stuck) (auto simp: claimable_def)
  then show ?thesis using assms(1) by (simp add: Let_def ledger_ok_ops)
qed

theorem dead_worker_strands_run_witness:
  "\<not> fst (try_mark_running 1000 ''c'' ''w2'' 1 5
      (snd (try_mark_running 0 ''c'' ''w1'' 1 5 (upsert_queued ''c'' ''t'' ''p1'' 1 []))))"
  using dead_worker_strands_run [of "upsert_queued ''c'' ''t'' ''p1'' 1 []" 0 "''c''" "''w1''" 1 5 1000 "''w2''" 5]
  by (simp add: Let_def ledger_ok_ops ledger_ok_def claim_wins_iff claimable_def
      ledger_ok_ops(1) [of "[]", unfolded ledger_ok_def])

end
