(* ===== verification/RunQueue.thy ===== *)
theory RunQueue
  imports Continuation "HOL-Library.Multiset"
begin

text \<open>
  The runnable queue (\<open>src/src/runtime/queue.py\<close>, \<open>InMemoryRunnableQueue\<close>): priority lanes, a heap of
  delayed items and the items in flight.  The heap is kept as the sorted list of its entries, whose
  sequence numbers are distinct, so popping the least is taking the head.  The monotonic clock is
  an argument.  The Redis queue is not modelled.
\<close>

record runnable =
  ri_cont :: string
  ri_tenant :: string
  ri_priority :: string
  ri_epoch :: nat
  ri_resolution :: "resolution option"
  ri_attempt :: nat
  ri_handle :: "nat option"

definition priorities :: "string list" where
  "priorities = [''p0'', ''p1'', ''p2'']"

record run_queue =
  q_lanes :: "(string, runnable list) dict"
  q_delayed :: "(rat \<times> nat \<times> runnable) list"
  q_inflight :: "(nat, runnable) dict"
  q_seq :: nat
  q_starve :: nat

definition empty_queue :: run_queue where
  "empty_queue = \<lparr>q_lanes = map (\<lambda>p. (p, [])) priorities, q_delayed = [], q_inflight = [], q_seq = 0, q_starve = 0\<rparr>"

definition lane :: "run_queue \<Rightarrow> string \<Rightarrow> runnable list" where
  "lane q p = dget_default (q_lanes q) p []"

definition push_lane :: "runnable \<Rightarrow> run_queue \<Rightarrow> run_queue" where
  "push_lane x q = q\<lparr>q_lanes := dset (ri_priority x) (lane q (ri_priority x) @ [x]) (q_lanes q)\<rparr>"

text \<open>\<open>heapq.heappush\<close> on the sorted entries.\<close>

fun heap_push :: "rat \<times> nat \<times> runnable \<Rightarrow> (rat \<times> nat \<times> runnable) list \<Rightarrow> (rat \<times> nat \<times> runnable) list" where
  "heap_push e [] = [e]"
| "heap_push (d, n, x) ((d', n', y) # h) =
     (if d < d' \<or> (d = d' \<and> n < n') then (d, n, x) # (d', n', y) # h else (d', n', y) # heap_push (d, n, x) h)"

definition q_enqueue :: "rat \<Rightarrow> rat option \<Rightarrow> runnable \<Rightarrow> run_queue \<Rightarrow> run_queue" where
  "q_enqueue now not_before x q =
     (let x = (if ri_priority x \<notin> set (dkeys (q_lanes q)) then x\<lparr>ri_priority := ''p1''\<rparr> else x)
      in case not_before of
           None \<Rightarrow> push_lane x q
         | Some t \<Rightarrow>
           if t \<noteq> 0 \<and> now < t
           then q\<lparr>q_delayed := heap_push (t, q_seq q, x) (q_delayed q), q_seq := q_seq q + 1\<rparr>
           else push_lane x q)"

fun promote :: "rat \<Rightarrow> (rat \<times> nat \<times> runnable) list \<Rightarrow> run_queue \<Rightarrow> run_queue" where
  "promote now [] q = q\<lparr>q_delayed := []\<rparr>"
| "promote now ((d, n, x) # h) q = (if d \<le> now then promote now h (push_lane x q) else q\<lparr>q_delayed := (d, n, x) # h\<rparr>)"

definition promote_due :: "rat \<Rightarrow> run_queue \<Rightarrow> run_queue" where
  "promote_due now q = promote now (q_delayed q) q"

text \<open>Taking up to \<open>n\<close> items off one lane: each gets the next number as its handle.\<close>

fun take_lane :: "nat \<Rightarrow> string \<Rightarrow> run_queue \<Rightarrow> runnable list \<times> run_queue" where
  "take_lane 0 p q = ([], q)"
| "take_lane (Suc n) p q =
     (case lane q p of
        [] \<Rightarrow> ([], q)
      | x # xs \<Rightarrow>
        (let h = q_seq q; x' = x\<lparr>ri_handle := Some h\<rparr>
         in apfst (\<lambda>out. x' # out) (take_lane n p
              (q\<lparr>q_lanes := dset p xs (q_lanes q), q_seq := h + 1, q_inflight := dset h x' (q_inflight q)\<rparr>))))"

fun take_lanes :: "nat \<Rightarrow> string list \<Rightarrow> run_queue \<Rightarrow> runnable list \<times> run_queue" where
  "take_lanes n [] q = ([], q)"
| "take_lanes n (p # ps) q =
     (case take_lane n p q of (out, q') \<Rightarrow> apfst ((@) out) (take_lanes (n - length out) ps q'))"

definition q_claim :: "rat \<Rightarrow> nat \<Rightarrow> run_queue \<Rightarrow> runnable list \<times> run_queue" where
  "q_claim now n q =
     (let q1 = promote_due now q; s = (q_starve q1 + 1) mod 5
      in take_lanes n (if s = 0 then [''p2'', ''p1'', ''p0''] else priorities) (q1\<lparr>q_starve := s\<rparr>))"

definition pop_inflight :: "nat option \<Rightarrow> run_queue \<Rightarrow> run_queue" where
  "pop_inflight h q = (case h of None \<Rightarrow> q | Some k \<Rightarrow> q\<lparr>q_inflight := dpop k (q_inflight q)\<rparr>)"

definition q_ack :: "runnable \<Rightarrow> run_queue \<Rightarrow> run_queue" where
  "q_ack x q = pop_inflight (ri_handle x) q"

definition q_nack :: "rat \<Rightarrow> rat \<Rightarrow> runnable \<Rightarrow> run_queue \<Rightarrow> run_queue" where
  "q_nack now backoff x q =
     q_enqueue now (if backoff = 0 then None else Some (now + backoff))
       (x\<lparr>ri_attempt := ri_attempt x + 1, ri_handle := None\<rparr>) (pop_inflight (ri_handle x) q)"

definition q_depth :: "run_queue \<Rightarrow> nat" where
  "q_depth q = sum_list (map length (dvals (q_lanes q))) + length (q_delayed q)"

definition q_inflight_count :: "run_queue \<Rightarrow> nat" where
  "q_inflight_count q = length (q_inflight q)"

subsection \<open>The work in a queue\<close>

text \<open>A piece of work: what an item asks for, whatever its attempt and handle.\<close>

type_synonym work = "string \<times> nat \<times> resolution option"

definition work_of :: "runnable \<Rightarrow> work" where
  "work_of x = (ri_cont x, ri_epoch x, ri_resolution x)"

definition waiting :: "run_queue \<Rightarrow> work multiset" where
  "waiting q = image_mset work_of (mset (lane q ''p0'' @ lane q ''p1'' @ lane q ''p2'' @ map (snd \<circ> snd) (q_delayed q)))"

definition flying :: "run_queue \<Rightarrow> work multiset" where
  "flying q = image_mset work_of (mset (dvals (q_inflight q)))"

definition queue_ok :: "run_queue \<Rightarrow> bool" where
  "queue_ok q \<longleftrightarrow> dkeys (q_lanes q) = priorities \<and>
     (\<forall>(d, n, x) \<in> set (q_delayed q). ri_priority x \<in> set priorities) \<and>
     dict_ok (q_inflight q) \<and>
     (\<forall>h x. map_of (q_inflight q) h = Some x \<longrightarrow> h < q_seq q \<and> ri_handle x = Some h)"

lemma queue_ok_empty [simp]: "queue_ok empty_queue"
  by (simp add: queue_ok_def empty_queue_def comp_def)

lemma waiting_empty [simp]: "waiting empty_queue = {#}" and flying_empty [simp]: "flying empty_queue = {#}"
  by (simp_all add: waiting_def flying_def empty_queue_def lane_def dget_default_def priorities_def)

lemma lane_dset [simp]: "lane (q\<lparr>q_lanes := dset p xs (q_lanes q)\<rparr>) p' = (if p' = p then xs else lane q p')"
  by (simp add: lane_def)

lemma keys_of_lane: "dkeys l = priorities \<Longrightarrow> p \<in> set priorities \<Longrightarrow> dkeys (dset p xs l) = priorities"
proof -
  assume k: "dkeys l = priorities" and p: "p \<in> set priorities"
  have "p \<in> fst ` set l" using k p by (metis list.set_map)
  then obtain ys where "map_of l p = Some ys" using map_of_eq_None_iff [of l p] by blast
  from dkeys_dset_present [OF this] show ?thesis using k by (simp only:)
qed

lemma push_lane_simps [simp]:
  "q_delayed (push_lane x q) = q_delayed q" "q_inflight (push_lane x q) = q_inflight q"
  "q_seq (push_lane x q) = q_seq q" "q_starve (push_lane x q) = q_starve q"
  "lane (push_lane x q) p = (if p = ri_priority x then lane q p @ [x] else lane q p)"
  by (simp_all add: push_lane_def)

lemma push_lane_ok:
  "queue_ok q \<Longrightarrow> ri_priority x \<in> set priorities \<Longrightarrow> queue_ok (push_lane x q)"
  by (auto simp: queue_ok_def push_lane_def keys_of_lane)

lemma priority_cases:
  assumes "p \<in> set priorities"
  obtains "p = ''p0''" | "p = ''p1''" | "p = ''p2''"
  using assms unfolding priorities_def by auto

lemma push_lane_work:
  "ri_priority x \<in> set priorities \<Longrightarrow> waiting (push_lane x q) = add_mset (work_of x) (waiting q)"
  "flying (push_lane x q) = flying q"
proof -
  show "waiting (push_lane x q) = add_mset (work_of x) (waiting q)" if p: "ri_priority x \<in> set priorities"
    using p by (rule priority_cases) (simp_all add: waiting_def)
  show "flying (push_lane x q) = flying q" by (simp add: flying_def)
qed

lemma heap_push_set: "set (heap_push e h) = insert e (set h)"
  by (induction e h rule: heap_push.induct) auto

lemma heap_push_mset: "mset (map (snd \<circ> snd) (heap_push (d, n, x) h)) = add_mset x (mset (map (snd \<circ> snd) h))"
  by (induction "(d, n, x)" h rule: heap_push.induct) auto

lemma lane_upd [simp]:
  "lane (q\<lparr>q_delayed := h\<rparr>) p = lane q p" "lane (q\<lparr>q_seq := n\<rparr>) p = lane q p"
  "lane (q\<lparr>q_starve := n\<rparr>) p = lane q p" "lane (q\<lparr>q_inflight := f\<rparr>) p = lane q p"
  by (simp_all add: lane_def)

lemma enqueue_ok_work:
  assumes "queue_ok q"
  shows "queue_ok (q_enqueue now nb x q) \<and> waiting (q_enqueue now nb x q) = add_mset (work_of x) (waiting q)
    \<and> flying (q_enqueue now nb x q) = flying q"
proof -
  let ?y = "if ri_priority x \<notin> set (dkeys (q_lanes q)) then x\<lparr>ri_priority := ''p1''\<rparr> else x"
  have keys: "set (dkeys (q_lanes q)) = set priorities"
    using assms by (simp add: queue_ok_def)
  have y: "ri_priority ?y \<in> set priorities" "work_of ?y = work_of x"
    unfolding keys by (auto simp: work_of_def priorities_def)
  have push: "queue_ok (push_lane ?y q)" "waiting (push_lane ?y q) = add_mset (work_of x) (waiting q)"
    using push_lane_ok [OF assms y(1)] push_lane_work(1) [OF y(1), of q] y(2) by (simp_all only:)
  define q' where "q' t = q\<lparr>q_delayed := heap_push (t, q_seq q, ?y) (q_delayed q), q_seq := q_seq q + 1\<rparr>" for t
  have "queue_ok (q' t)" for t
    using assms y(1) unfolding q'_def queue_ok_def
    by (auto simp: heap_push_set less_Suc_eq)
  moreover have "waiting (q' t) = add_mset (work_of x) (waiting q)" for t
    unfolding waiting_def q'_def using heap_push_mset [of t "q_seq q" ?y "q_delayed q"] y(2) by simp
  moreover have "flying (q' t) = flying q" for t by (simp add: flying_def q'_def)
  moreover have "q_enqueue now nb x q = push_lane ?y q \<or> (\<exists>t. q_enqueue now nb x q = q' t)"
    unfolding q_enqueue_def Let_def q'_def by (simp only: split: option.split if_split) blast
  ultimately show ?thesis
    using push push_lane_work(2) [of ?y q] by metis
qed

lemma promote_ok_work:
  "queue_ok q \<Longrightarrow> (\<forall>(d, n, x) \<in> set h. ri_priority x \<in> set priorities) \<Longrightarrow>
   queue_ok (promote now h q) \<and> flying (promote now h q) = flying q \<and> q_seq (promote now h q) = q_seq q \<and>
   q_starve (promote now h q) = q_starve q \<and>
   waiting (promote now h q) = waiting (q\<lparr>q_delayed := h\<rparr>)"
proof (induction now h q rule: promote.induct)
  case (1 now q)
  then show ?case by (simp add: queue_ok_def flying_def)
next
  case (2 now d n x h q)
  show ?case
  proof (cases "d \<le> now")
    case True
    have p: "ri_priority x \<in> set priorities" using 2(3) by simp
    from 2(2) p have ok: "queue_ok (push_lane x q)" by (rule push_lane_ok)
    have "waiting (push_lane x q\<lparr>q_delayed := h\<rparr>) = waiting (q\<lparr>q_delayed := (d, n, x) # h\<rparr>)"
      using p by (rule priority_cases) (simp_all add: waiting_def)
    moreover have "\<forall>(d, n, x) \<in> set h. ri_priority x \<in> set priorities" using 2(3) by simp
    ultimately show ?thesis using 2(1) [OF True ok] True push_lane_work(2) [of x q] by simp
  next
    case False
    with 2 show ?thesis by (auto simp: queue_ok_def flying_def)
  qed
qed

lemma promote_due_ok_work:
  assumes "queue_ok q"
  shows "queue_ok (promote_due now q) \<and> flying (promote_due now q) = flying q \<and>
    q_starve (promote_due now q) = q_starve q \<and> waiting (promote_due now q) = waiting q"
proof -
  have "\<forall>(d, n, x) \<in> set (q_delayed q). ri_priority x \<in> set priorities"
    using assms by (simp add: queue_ok_def)
  from promote_ok_work [OF assms this, of now] show ?thesis by (simp add: promote_due_def)
qed


lemma waiting_lane_take:
  assumes "p \<in> set priorities" "lane q p = x # xs"
  shows "waiting q = add_mset (work_of x) (waiting (q\<lparr>q_lanes := dset p xs (q_lanes q), q_seq := s, q_inflight := f\<rparr>))"
proof -
  from assms(1) consider "p = ''p0''" | "p = ''p1''" | "p = ''p2''" by (auto simp: priorities_def)
  then show ?thesis using assms(2) by cases (simp_all add: waiting_def lane_def)
qed

lemma dvals_dset_absent: "map_of d k = None \<Longrightarrow> mset (dvals (dset k v d)) = add_mset v (mset (dvals d))"
  by (simp add: dkeys_dset_absent)

lemma dvals_dpop: "dict_ok d \<Longrightarrow> map_of d k = Some v \<Longrightarrow> mset (dvals d) = add_mset v (mset (dvals (dpop k d)))"
proof (induction d)
  case Nil
  then show ?case by simp
next
  case (Cons p d)
  then show ?case
    by (cases p) (auto simp: dict_ok_def map_of_eq_None_iff delete_idem split: if_splits)
qed

text \<open>One item off a lane: what a step of the claiming loop does.\<close>

lemma take_one:
  assumes "queue_ok q" "p \<in> set priorities" "lane q p = x # xs"
  defines "x' \<equiv> x\<lparr>ri_handle := Some (q_seq q)\<rparr>"
  defines "q' \<equiv> q\<lparr>q_lanes := dset p xs (q_lanes q), q_seq := q_seq q + 1, q_inflight := dset (q_seq q) x' (q_inflight q)\<rparr>"
  shows "queue_ok q'" "waiting q = add_mset (work_of x) (waiting q')" "flying q' = add_mset (work_of x) (flying q)"
    "lane q' p' = (if p' = p then xs else lane q p')" "q_starve q' = q_starve q"
proof -
  have fresh: "map_of (q_inflight q) (q_seq q) = None"
    using assms(1) by (cases "map_of (q_inflight q) (q_seq q)") (auto simp: queue_ok_def)
  have w: "work_of x' = work_of x" by (simp add: x'_def work_of_def)
  show "queue_ok q'"
    using assms(1,2) by (auto simp: queue_ok_def q'_def x'_def keys_of_lane less_Suc_eq)
  show "waiting q = add_mset (work_of x) (waiting q')"
    unfolding q'_def by (rule waiting_lane_take [OF assms(2,3)])
  show "flying q' = add_mset (work_of x) (flying q)"
    using dvals_dset_absent [OF fresh, of x'] w by (simp add: flying_def q'_def)
  show "lane q' p' = (if p' = p then xs else lane q p')" by (simp add: q'_def lane_def)
  show "q_starve q' = q_starve q" by (simp add: q'_def)
qed

lemma take_lane_ok_work:
  "queue_ok q \<Longrightarrow> p \<in> set priorities \<Longrightarrow> take_lane n p q = (out, q') \<Longrightarrow>
   queue_ok q' \<and> waiting q = image_mset work_of (mset out) + waiting q' \<and>
   flying q' = image_mset work_of (mset out) + flying q \<and> q_starve q' = q_starve q"
proof (induction n p q arbitrary: out q' rule: take_lane.induct)
  case (1 p q)
  then show ?case by simp
next
  case (2 n p q)
  show ?case
  proof (cases "lane q p")
    case Nil
    with 2 show ?thesis by simp
  next
    case (Cons x xs)
    let ?x = "x\<lparr>ri_handle := Some (q_seq q)\<rparr>"
    let ?q = "q\<lparr>q_lanes := dset p xs (q_lanes q), q_seq := q_seq q + 1, q_inflight := dset (q_seq q) ?x (q_inflight q)\<rparr>"
    obtain o' where o: "take_lane n p ?q = (o', q')" "out = ?x # o'"
      using 2(4) Cons by (cases "take_lane n p ?q") (simp add: Let_def)
    note one = take_one [OF 2(2,3) Cons]
    have w: "work_of ?x = work_of x" by (simp add: work_of_def)
    from 2(1) [OF Cons refl refl one(1) 2(3) o(1)] show ?thesis
      using one o(2) w by simp
  qed
qed

lemma take_lanes_ok_work:
  "queue_ok q \<Longrightarrow> set ps \<subseteq> set priorities \<Longrightarrow> take_lanes n ps q = (out, q') \<Longrightarrow>
   queue_ok q' \<and> waiting q = image_mset work_of (mset out) + waiting q' \<and>
   flying q' = image_mset work_of (mset out) + flying q \<and> q_starve q' = q_starve q"
proof (induction ps arbitrary: n q out q')
  case Nil
  then show ?case by simp
next
  case (Cons p ps)
  obtain o1 q1 where 1: "take_lane n p q = (o1, q1)" by fastforce
  then obtain o2 where o: "take_lanes (n - length o1) ps q1 = (o2, q')" "out = o1 @ o2"
    using Cons.prems(3) by (cases "take_lanes (n - length o1) ps q1") simp
  have "p \<in> set priorities" using Cons.prems(2) by simp
  from take_lane_ok_work [OF Cons.prems(1) this 1] have a: "queue_ok q1" "waiting q = image_mset work_of (mset o1) + waiting q1"
    "flying q1 = image_mset work_of (mset o1) + flying q" "q_starve q1 = q_starve q" by simp_all
  have "set ps \<subseteq> set priorities" using Cons.prems(2) by simp
  from Cons.IH [OF a(1) this o(1)] show ?case using a(2-4) o(2) by simp
qed

lemma claim_ok_work:
  assumes "queue_ok q" "q_claim now n q = (out, q')"
  shows "queue_ok q' \<and> waiting q = image_mset work_of (mset out) + waiting q' \<and>
    flying q' = image_mset work_of (mset out) + flying q \<and> q_starve q' = (q_starve q + 1) mod 5"
proof -
  define s where "s = (q_starve q + 1) mod 5"
  define ps where "ps = (if s = 0 then [''p2'', ''p1'', ''p0''] else priorities)"
  note p = promote_due_ok_work [OF assms(1), of now]
  then have "q_claim now n q = take_lanes n ps (promote_due now q\<lparr>q_starve := s\<rparr>)"
    by (simp only: q_claim_def Let_def s_def ps_def)
  moreover have "queue_ok (promote_due now q\<lparr>q_starve := s\<rparr>)"
    using p by (simp add: queue_ok_def)
  moreover have "set ps \<subseteq> set priorities" by (auto simp: ps_def priorities_def)
  ultimately have "queue_ok q' \<and> waiting (promote_due now q\<lparr>q_starve := s\<rparr>) = image_mset work_of (mset out) + waiting q' \<and>
     flying q' = image_mset work_of (mset out) + flying (promote_due now q\<lparr>q_starve := s\<rparr>) \<and> q_starve q' = s"
    using take_lanes_ok_work [of "promote_due now q\<lparr>q_starve := s\<rparr>" ps n out q'] assms(2) by simp
  moreover have "waiting (promote_due now q\<lparr>q_starve := s\<rparr>) = waiting q" "flying (promote_due now q\<lparr>q_starve := s\<rparr>) = flying q"
    using p by (simp_all add: waiting_def flying_def)
  ultimately show ?thesis by (simp add: s_def)
qed


subsection \<open>Histories\<close>

text \<open>
  What the clients of a queue do: enqueue, claim, and settle an item they hold.  A worker gives
  back the object it was handed, so an acknowledgement names the handle and the queue's own entry
  is the item.
\<close>

datatype queue_event = QEnqueue rat "rat option" runnable | QClaim rat nat | QAck nat | QNack rat rat nat

primrec q_event :: "queue_event \<Rightarrow> run_queue \<Rightarrow> runnable list \<times> run_queue" where
  "q_event (QEnqueue now nb x) q = ([], q_enqueue now nb x q)"
| "q_event (QClaim now n) q = q_claim now n q"
| "q_event (QAck h) q = ([], case map_of (q_inflight q) h of None \<Rightarrow> q | Some x \<Rightarrow> q_ack x q)"
| "q_event (QNack now b h) q = ([], case map_of (q_inflight q) h of None \<Rightarrow> q | Some x \<Rightarrow> q_nack now b x q)"

text \<open>The work a history puts in, and the work it takes out for good.\<close>

primrec work_in :: "queue_event \<Rightarrow> work multiset" where
  "work_in (QEnqueue now nb x) = {#work_of x#}"
| "work_in (QClaim now n) = {#}"
| "work_in (QAck h) = {#}"
| "work_in (QNack now b h) = {#}"

primrec work_done :: "queue_event \<Rightarrow> run_queue \<Rightarrow> work multiset" where
  "work_done (QEnqueue now nb x) q = {#}"
| "work_done (QClaim now n) q = {#}"
| "work_done (QAck h) q = (case map_of (q_inflight q) h of None \<Rightarrow> {#} | Some x \<Rightarrow> {#work_of x#})"
| "work_done (QNack now b h) q = {#}"

primrec q_history :: "queue_event list \<Rightarrow> run_queue \<Rightarrow> work multiset \<times> work multiset \<times> run_queue" where
  "q_history [] q = ({#}, {#}, q)"
| "q_history (e # es) q =
     (case q_history es (snd (q_event e q)) of (i, d, q') \<Rightarrow> (work_in e + i, work_done e q + d, q'))"

lemma ack_ok_work:
  assumes "queue_ok q" "map_of (q_inflight q) h = Some x"
  shows "queue_ok (q_ack x q) \<and> waiting (q_ack x q) = waiting q \<and> flying q = add_mset (work_of x) (flying (q_ack x q))
    \<and> q_starve (q_ack x q) = q_starve q \<and> lane (q_ack x q) p = lane q p"
proof -
  have h: "ri_handle x = Some h" "dict_ok (q_inflight q)" using assms by (auto simp: queue_ok_def)
  then have a: "q_ack x q = q\<lparr>q_inflight := dpop h (q_inflight q)\<rparr>" by (simp add: q_ack_def pop_inflight_def)
  have "queue_ok (q_ack x q)" using assms(1) unfolding a by (auto simp: queue_ok_def)
  moreover have "waiting (q_ack x q) = waiting q" unfolding a by (simp add: waiting_def)
  moreover have "flying q = add_mset (work_of x) (flying (q_ack x q))"
    using dvals_dpop [OF h(2) assms(2)] unfolding a by (simp add: flying_def)
  ultimately show ?thesis unfolding a by simp
qed

lemma nack_is_ack_enqueue:
  "q_nack now b x q = q_enqueue now (if b = 0 then None else Some (now + b))
     (x\<lparr>ri_attempt := ri_attempt x + 1, ri_handle := None\<rparr>) (q_ack x q)"
  by (simp add: q_nack_def q_ack_def)

lemma nack_ok_work:
  assumes "queue_ok q" "map_of (q_inflight q) h = Some x"
  shows "queue_ok (q_nack now b x q) \<and> waiting (q_nack now b x q) + flying (q_nack now b x q) = waiting q + flying q"
proof -
  let ?x = "x\<lparr>ri_attempt := ri_attempt x + 1, ri_handle := None\<rparr>"
  have w: "work_of ?x = work_of x" by (simp add: work_of_def)
  from ack_ok_work [OF assms] have a: "queue_ok (q_ack x q)" "waiting (q_ack x q) = waiting q"
    "flying q = add_mset (work_of x) (flying (q_ack x q))" by simp_all
  from enqueue_ok_work [OF a(1)] a(2,3) w show ?thesis unfolding nack_is_ack_enqueue by simp
qed

lemma event_ok_work:
  assumes "queue_ok q"
  shows "queue_ok (snd (q_event e q)) \<and>
    waiting (snd (q_event e q)) + flying (snd (q_event e q)) + work_done e q = waiting q + flying q + work_in e"
proof (cases e)
  case (QEnqueue now nb x)
  then show ?thesis using enqueue_ok_work [OF assms] by simp
next
  case (QClaim now n)
  obtain out q' where "q_claim now n q = (out, q')" by fastforce
  with claim_ok_work [OF assms this] QClaim show ?thesis by simp
next
  case (QAck h)
  then show ?thesis using assms ack_ok_work [OF assms] by (cases "map_of (q_inflight q) h") simp_all
next
  case (QNack now b h)
  then show ?thesis using assms nack_ok_work [OF assms] by (cases "map_of (q_inflight q) h") simp_all
qed

lemma history_conserves:
  "queue_ok q \<Longrightarrow> q_history es q = (i, d, q') \<Longrightarrow>
   queue_ok q' \<and> waiting q' + flying q' + d = waiting q + flying q + i"
proof (induction es arbitrary: q i d q')
  case Nil
  then show ?case by simp
next
  case (Cons e es)
  obtain i1 d1 where 1: "q_history es (snd (q_event e q)) = (i1, d1, q')" "i = work_in e + i1" "d = work_done e q + d1"
    using Cons.prems(2) by (cases "q_history es (snd (q_event e q))") auto
  from event_ok_work [OF Cons.prems(1), of e] Cons.IH [OF _ 1(1)] 1(2,3)
  show ?case by (metis (no_types, lifting) add.assoc add.commute)
qed

lemma depth_is_waiting:
  assumes "queue_ok q"
  shows "q_depth q = size (waiting q)"
proof -
  have k: "dkeys (q_lanes q) = [''p0'', ''p1'', ''p2'']" using assms by (simp add: queue_ok_def priorities_def)
  then obtain a b c where "q_lanes q = [(''p0'', a), (''p1'', b), (''p2'', c)]"
    by (auto simp: map_eq_Cons_conv)
  then show ?thesis by (simp add: q_depth_def waiting_def lane_def dget_default_def)
qed

text \<open>No work is lost or made up by the queue: over any history of enqueues, claims,
acknowledgements and negative acknowledgements, everything enqueued is waiting (and counted by
\<open>depth\<close>), in flight, or was acknowledged, each exactly as often as it was put in; retries
keep the work they retry.\<close>

theorem queue_conserves_work:
  "case q_history es empty_queue of (put_in, acked, q) \<Rightarrow>
     waiting q + flying q + acked = put_in \<and> q_depth q = size (waiting q) \<and> q_inflight_count q = size (flying q)"
proof -
  obtain i d q where h: "q_history es empty_queue = (i, d, q)" by (cases "q_history es empty_queue") auto
  from history_conserves [OF queue_ok_empty h] have "queue_ok q" "waiting q + flying q + d = i" by simp_all
  then show ?thesis
    unfolding h by (simp add: depth_is_waiting q_inflight_count_def flying_def)
qed


subsection \<open>The order of service\<close>

definition unclaimed :: "runnable \<Rightarrow> runnable" where
  "unclaimed x = x\<lparr>ri_handle := None\<rparr>"

lemma take_lane_order:
  "take_lane n p q = (out, q') \<Longrightarrow>
   map unclaimed out = map unclaimed (take n (lane q p)) \<and>
   (\<forall>p'. lane q' p' = (if p' = p then drop n (lane q p) else lane q p'))"
proof (induction n p q arbitrary: out q' rule: take_lane.induct)
  case (1 p q)
  then show ?case by simp
next
  case (2 n p q)
  show ?case
  proof (cases "lane q p")
    case Nil
    with 2 show ?thesis by simp
  next
    case (Cons x xs)
    let ?x = "x\<lparr>ri_handle := Some (q_seq q)\<rparr>"
    let ?q = "q\<lparr>q_lanes := dset p xs (q_lanes q), q_seq := q_seq q + 1, q_inflight := dset (q_seq q) ?x (q_inflight q)\<rparr>"
    obtain o' where o: "take_lane n p ?q = (o', q')" "out = ?x # o'"
      using 2(2) Cons by (cases "take_lane n p ?q") (simp add: Let_def)
    have "lane ?q p' = (if p' = p then xs else lane q p')" for p' by (simp add: lane_def)
    with 2(1) [OF Cons refl refl o(1)] show ?thesis
      using o(2) Cons by (simp add: unclaimed_def)
  qed
qed

lemma take_lanes_order:
  "distinct ps \<Longrightarrow> take_lanes n ps q = (out, q') \<Longrightarrow>
   map unclaimed out = map unclaimed (take n (concat (map (lane q) ps))) \<and>
   concat (map (lane q') ps) = drop n (concat (map (lane q) ps)) \<and>
   (\<forall>p. \<exists>k. lane q' p = drop k (lane q p) \<and>
        set (map unclaimed (take k (lane q p))) \<subseteq> set (map unclaimed out) \<and> (p \<notin> set ps \<longrightarrow> k = 0))"
proof (induction ps arbitrary: n q out q')
  case Nil
  then have "lane q' p = drop 0 (lane q p)" for p by simp
  with Nil show ?case by fastforce
next
  case (Cons p ps)
  obtain o1 q1 where 1: "take_lane n p q = (o1, q1)" by fastforce
  then obtain o2 where o: "take_lanes (n - length o1) ps q1 = (o2, q')" "out = o1 @ o2"
    using Cons.prems(2) by (cases "take_lanes (n - length o1) ps q1") simp
  from take_lane_order [OF 1] have a: "map unclaimed o1 = map unclaimed (take n (lane q p))"
    "\<And>p'. lane q1 p' = (if p' = p then drop n (lane q p) else lane q p')" by auto
  have len: "length o1 = min n (length (lane q p))" using arg_cong [OF a(1), of length] by simp
  have ps: "distinct ps" "p \<notin> set ps" using Cons.prems(1) by simp_all
  from Cons.IH [OF ps(1) o(1)] have b:
    "map unclaimed o2 = map unclaimed (take (n - length o1) (concat (map (lane q1) ps)))"
    "concat (map (lane q') ps) = drop (n - length o1) (concat (map (lane q1) ps))"
    "\<And>p. \<exists>k. lane q' p = drop k (lane q1 p) \<and>
        set (map unclaimed (take k (lane q1 p))) \<subseteq> set (map unclaimed o2) \<and> (p \<notin> set ps \<longrightarrow> k = 0)" by blast+
  have c: "map (lane q1) ps = map (lane q) ps" using ps(2) a(2) by auto
  have d: "lane q' p = drop n (lane q p)" using b(3) [of p] ps(2) a(2) by auto
  have m: "n - min n (length (lane q p)) = n - length (lane q p)" by simp
  have "\<exists>k. lane q' p' = drop k (lane q p') \<and>
        set (map unclaimed (take k (lane q p'))) \<subseteq> set (map unclaimed out) \<and> (p' \<notin> set (p # ps) \<longrightarrow> k = 0)" for p'
  proof (cases "p' = p")
    case True
    then show ?thesis using a(1) d o(2) by (intro exI [of _ n]) (simp flip: a(1))
  next
    case False
    obtain k where k: "lane q' p' = drop k (lane q1 p')" "set (map unclaimed (take k (lane q1 p'))) \<subseteq> set (map unclaimed o2)"
      "p' \<notin> set ps \<longrightarrow> k = 0" using b(3) [of p'] by blast
    have "lane q1 p' = lane q p'" using a(2) False by simp
    with k False o(2) show ?thesis by (intro exI [of _ k]) auto
  qed
  moreover have "map unclaimed out = map unclaimed (take n (concat (map (lane q) (p # ps))))"
    using a(1) b(1) o(2) by (simp add: c len m)
  moreover have "concat (map (lane q') (p # ps)) = drop n (concat (map (lane q) (p # ps)))"
    using d b(2) by (simp add: c len m)
  ultimately show ?case by blast
qed

text \<open>The lanes in the order a claim serves them.\<close>

definition service_order :: "run_queue \<Rightarrow> string list" where
  "service_order q = (if (q_starve q + 1) mod 5 = 0 then [''p2'', ''p1'', ''p0''] else priorities)"

lemma claim_order:
  assumes "queue_ok q" "q_claim now n q = (out, q')"
  defines "q1 \<equiv> promote_due now q"
  shows "map unclaimed out = map unclaimed (take n (concat (map (lane q1) (service_order q))))"
    "concat (map (lane q') (service_order q)) = drop n (concat (map (lane q1) (service_order q)))"
    "\<exists>k. lane q' p = drop k (lane q1 p) \<and> set (map unclaimed (take k (lane q1 p))) \<subseteq> set (map unclaimed out)"
proof -
  have s: "q_starve q1 = q_starve q" using promote_due_ok_work [OF assms(1), of now] by (simp add: q1_def)
  define q2 where "q2 = q1\<lparr>q_starve := (q_starve q + 1) mod 5\<rparr>"
  have t: "take_lanes n (service_order q) q2 = (out, q')"
    using assms(2) unfolding q_claim_def Let_def q1_def [symmetric] s service_order_def q2_def by simp
  have l: "lane q2 = lane q1" by (rule ext) (simp add: q2_def)
  have d: "distinct (service_order q)" by (simp add: service_order_def priorities_def)
  from take_lanes_order [OF d t] show "map unclaimed out = map unclaimed (take n (concat (map (lane q1) (service_order q))))"
    "concat (map (lane q') (service_order q)) = drop n (concat (map (lane q1) (service_order q)))"
    "\<exists>k. lane q' p = drop k (lane q1 p) \<and> set (map unclaimed (take k (lane q1 p))) \<subseteq> set (map unclaimed out)"
    unfolding l by blast+
qed

lemma promote_extends: "\<exists>ys. lane (promote now h q) p = lane q p @ ys"
proof (induction now h q rule: promote.induct)
  case (1 now q)
  then show ?case by simp
next
  case (2 now d n x h q)
  have "\<exists>zs. lane (push_lane x q) p = lane q p @ zs" by simp
  with 2 show ?case by (cases "d \<le> now") (auto simp del: push_lane_simps)
qed

lemma promote_due_extends: "\<exists>ys. lane (promote_due now q) p = lane q p @ ys"
  by (simp add: promote_due_def promote_extends)

lemma enqueue_extends: "\<exists>ys. lane (q_enqueue now nb x q) p = lane q p @ ys"
  by (auto simp: q_enqueue_def Let_def split: option.split)

lemma enqueue_starve [simp]: "q_starve (q_enqueue now nb x q) = q_starve q"
  by (auto simp: q_enqueue_def Let_def split: option.split)

primrec q_outs :: "queue_event list \<Rightarrow> run_queue \<Rightarrow> runnable list" where
  "q_outs [] q = []"
| "q_outs (e # es) q = fst (q_event e q) @ q_outs es (snd (q_event e q))"

primrec is_claim :: "queue_event \<Rightarrow> bool" where
  "is_claim (QEnqueue now nb x) = False"
| "is_claim (QClaim now n) = True"
| "is_claim (QAck h) = False"
| "is_claim (QNack now b h) = False"

lemma other_events_extend:
  assumes "queue_ok q" "\<not> is_claim e"
  shows "q_starve (snd (q_event e q)) = q_starve q \<and> (\<exists>ys. lane (snd (q_event e q)) p = lane q p @ ys)"
proof (cases e)
  case (QEnqueue now nb x)
  then show ?thesis using enqueue_extends by simp
next
  case (QClaim now n)
  with assms(2) show ?thesis by simp
next
  case (QAck h)
  then show ?thesis using ack_ok_work [OF assms(1), of h] by (cases "map_of (q_inflight q) h") simp_all
next
  case (QNack now b h)
  show ?thesis
  proof (cases "map_of (q_inflight q) h")
    case None
    with QNack show ?thesis by simp
  next
    case (Some x)
    from ack_ok_work [OF assms(1) Some, of p] QNack Some show ?thesis
      using enqueue_extends [of now _ _ "q_ack x q" p] by (simp add: nack_is_ack_enqueue)
  qed
qed

lemma head_of_p2_claimed:
  "queue_ok q \<Longrightarrow> lane q ''p2'' = x # xs \<Longrightarrow> list_all (\<lambda>e. \<forall>now. e \<noteq> QClaim now 0) es \<Longrightarrow>
   5 - q_starve q mod 5 \<le> length (filter is_claim es) \<Longrightarrow> unclaimed x \<in> set (map unclaimed (q_outs es q))"
proof (induction es arbitrary: q xs)
  case Nil
  have "q_starve q mod 5 < 5" by simp
  with Nil show ?case by (simp only: filter.simps list.size)
next
  case (Cons e es)
  have ok: "queue_ok (snd (q_event e q))" using event_ok_work [OF Cons.prems(1)] by simp
  show ?case
  proof (cases e)
    case (QClaim now n)
    obtain out q' where c: "q_claim now n q = (out, q')" by fastforce
    obtain ys where l: "lane (promote_due now q) ''p2'' = x # ys"
      using promote_due_extends [of now q "''p2''"] Cons.prems(2) by auto
    have n: "n \<noteq> 0" using Cons.prems(3) QClaim by auto
    have st: "q_starve q' = (q_starve q + 1) mod 5" using claim_ok_work [OF Cons.prems(1) c] by simp
    show ?thesis
    proof (cases "unclaimed x \<in> set (map unclaimed out)")
      case True
      then show ?thesis using QClaim c by auto
    next
      case False
      have "(q_starve q + 1) mod 5 \<noteq> 0"
      proof
        assume 0: "(q_starve q + 1) mod 5 = 0"
        then have "service_order q = [''p2'', ''p1'', ''p0'']" by (simp add: service_order_def)
        with claim_order(1) [OF Cons.prems(1) c] l n have "unclaimed x \<in> set (map unclaimed out)"
          by (cases n) auto
        with False show False by simp
      qed
      then have turn: "5 - q_starve q' mod 5 \<le> length (filter is_claim es)"
        using Cons.prems(4) QClaim st by (auto simp: mod_Suc split: if_splits)
      obtain k where k: "lane q' ''p2'' = drop k (x # ys)" "set (map unclaimed (take k (x # ys))) \<subseteq> set (map unclaimed out)"
        using claim_order(3) [OF Cons.prems(1) c, of "''p2''"] l by auto
      have "k = 0" using k(2) False by (cases k) auto
      with k(1) have "lane q' ''p2'' = x # ys" by simp
      from Cons.IH [OF _ this _ turn] ok Cons.prems(3) QClaim c show ?thesis by auto
    qed
  qed (use Cons.IH [OF ok] Cons.prems other_events_extend [OF Cons.prems(1), of e "''p2''"] in auto)
qed

text \<open>The starvation guard serves the lowest lane: whatever is enqueued, promoted, acknowledged
or retried in between, the item at the head of the \<open>p2\<close> lane is handed out within five claims.\<close>

theorem lowest_lane_served_within_five_claims:
  assumes "q_history es0 empty_queue = (i, d, q)"
    and "lane q ''p2'' = x # xs"
    and "list_all (\<lambda>e. \<forall>now. e \<noteq> QClaim now 0) es"
    and "5 \<le> length (filter is_claim es)"
  shows "unclaimed x \<in> set (map unclaimed (q_outs es q))"
proof -
  have "queue_ok q" using history_conserves [OF queue_ok_empty assms(1)] by simp
  moreover have "5 - q_starve q mod 5 \<le> length (filter is_claim es)" using assms(4) by simp
  ultimately show ?thesis using head_of_p2_claimed assms(2,3) by blast
qed

definition demo_item :: "string \<Rightarrow> string \<Rightarrow> runnable" where
  "demo_item c p = \<lparr>ri_cont = c, ri_tenant = ''default'', ri_priority = p, ri_epoch = 1, ri_resolution = None,
     ri_attempt = 0, ri_handle = None\<rparr>"

definition demo_busy :: "queue_event list" where
  "demo_busy = concat (replicate 5 [QEnqueue 0 None (demo_item ''hot'' ''p0''), QEnqueue 0 None (demo_item ''hot'' ''p0''), QClaim 0 1])"

theorem lowest_lane_served_witness:
  "demo_item ''cold'' ''p2'' \<in> set (map unclaimed (q_outs demo_busy (q_enqueue 0 None (demo_item ''cold'' ''p2'') empty_queue)))"
proof -
  have "q_history [QEnqueue 0 None (demo_item ''cold'' ''p2'')] empty_queue
      = ({#work_of (demo_item ''cold'' ''p2'')#}, {#}, q_enqueue 0 None (demo_item ''cold'' ''p2'') empty_queue)" by simp
  moreover have "lane (q_enqueue 0 None (demo_item ''cold'' ''p2'') empty_queue) ''p2'' = [demo_item ''cold'' ''p2'']"
    by code_simp
  moreover have "list_all (\<lambda>e. \<forall>now. e \<noteq> QClaim now 0) demo_busy" "5 \<le> length (filter is_claim demo_busy)"
    by (simp_all add: demo_busy_def numeral_eq_Suc)
  ultimately have "unclaimed (demo_item ''cold'' ''p2'') \<in>
      set (map unclaimed (q_outs demo_busy (q_enqueue 0 None (demo_item ''cold'' ''p2'') empty_queue)))"
    by (rule lowest_lane_served_within_five_claims)
  then show ?thesis by (simp add: unclaimed_def demo_item_def)
qed

lemma take_lanes_0 [simp]: "take_lanes 0 ps q = ([], q)"
  by (induction ps) simp_all

lemma take_lanes_one:
  "lane q p = y # ys \<Longrightarrow> \<exists>out r. take_lanes 1 (p # ps) q = (out, r) \<and> q_delayed r = q_delayed q \<and>
     (\<forall>p'. p' \<noteq> p \<longrightarrow> lane r p' = lane q p')"
  by (auto simp: Let_def lane_def)

lemma hot_lanes_step:
  assumes "queue_ok q" "q_delayed q = []" "lane q ''p1'' = xs"
  defines "q' \<equiv> snd (q_claim 0 1 (q_enqueue 0 None (demo_item ''b'' ''p2'') (q_enqueue 0 None (demo_item ''a'' ''p0'') q)))"
  shows "queue_ok q' \<and> q_delayed q' = [] \<and> lane q' ''p1'' = xs"
proof -
  let ?q = "q_enqueue 0 None (demo_item ''b'' ''p2'') (q_enqueue 0 None (demo_item ''a'' ''p0'') q)"
  have k: "set (dkeys (q_lanes r)) = {''p0'', ''p1'', ''p2''}" if "queue_ok r" for r
    using that by (simp add: queue_ok_def priorities_def)
  have ok1: "queue_ok (q_enqueue 0 None (demo_item ''a'' ''p0'') q)" and ok2: "queue_ok ?q"
    using assms(1) enqueue_ok_work by simp_all
  have e1: "q_enqueue 0 None (demo_item ''a'' ''p0'') q = push_lane (demo_item ''a'' ''p0'') q"
    using k [OF assms(1)] unfolding q_enqueue_def demo_item_def by simp
  have e: "?q = push_lane (demo_item ''b'' ''p2'') (push_lane (demo_item ''a'' ''p0'') q)"
    using k [OF ok1] unfolding e1 by (subst q_enqueue_def) (simp add: demo_item_def)
  have l: "lane ?q ''p1'' = xs" "lane ?q ''p0'' = lane q ''p0'' @ [demo_item ''a'' ''p0'']"
    "lane ?q ''p2'' = lane q ''p2'' @ [demo_item ''b'' ''p2'']" "q_delayed ?q = []"
    unfolding e using assms(2,3) by (simp_all add: demo_item_def)
  obtain out r where c: "q_claim 0 1 ?q = (out, r)" by fastforce
  then have r: "q' = r" unfolding q'_def by simp
  have p: "promote_due 0 ?q = ?q" using l(4) by (simp add: promote_due_def)
  have "queue_ok r" using claim_ok_work [OF ok2 c] by simp
  moreover have "q_delayed r = [] \<and> lane r ''p1'' = xs"
  proof -
    let ?s = "(q_starve ?q + 1) mod 5" and ?ps = "service_order ?q"
    have "take_lanes 1 ?ps (?q\<lparr>q_starve := ?s\<rparr>) = (out, r)"
      using c unfolding q_claim_def Let_def p service_order_def .
    moreover obtain p ps where "?ps = p # ps" "p \<noteq> ''p1''" "p = ''p0'' \<or> p = ''p2''"
      by (cases "?s = 0") (simp_all add: service_order_def priorities_def)
    moreover obtain y ys where "lane ?q p = y # ys"
      using l(2,3) \<open>p = ''p0'' \<or> p = ''p2''\<close> by (metis append_is_Nil_conv list.distinct(1) neq_Nil_conv)
    ultimately show ?thesis using l(1,4) take_lanes_one [of "?q\<lparr>q_starve := ?s\<rparr>" p y ys ps] by simp
  qed
  ultimately show ?thesis unfolding r by simp
qed

text \<open>The middle lane has no such guarantee: while the other two lanes are never empty, one claim
at a time never reaches \<open>p1\<close>, however long the history (four claims in five serve \<open>p0\<close>, the fifth
serves \<open>p2\<close>).\<close>

theorem middle_lane_starves:
  "lane (((\<lambda>q. snd (q_claim 0 1 (q_enqueue 0 None (demo_item ''b'' ''p2'') (q_enqueue 0 None (demo_item ''a'' ''p0'') q)))) ^^ n)
     (q_enqueue 0 None (demo_item ''stuck'' ''p1'') empty_queue)) ''p1'' = [demo_item ''stuck'' ''p1'']"
proof -
  let ?f = "\<lambda>q. snd (q_claim 0 1 (q_enqueue 0 None (demo_item ''b'' ''p2'') (q_enqueue 0 None (demo_item ''a'' ''p0'') q)))"
  let ?q = "q_enqueue 0 None (demo_item ''stuck'' ''p1'') empty_queue"
  have "q_delayed ?q = []" "lane ?q ''p1'' = [demo_item ''stuck'' ''p1'']" by code_simp+
  moreover have "queue_ok ?q" using enqueue_ok_work [OF queue_ok_empty] by simp
  ultimately have "queue_ok ((?f ^^ n) ?q) \<and> q_delayed ((?f ^^ n) ?q) = [] \<and>
      lane ((?f ^^ n) ?q) ''p1'' = [demo_item ''stuck'' ''p1'']"
  proof (induction n)
    case 0
    then show ?case by simp
  next
    case (Suc n)
    then show ?case using hot_lanes_step [of "(?f ^^ n) ?q"] by (simp only: funpow.simps comp_apply)
  qed
  then show ?thesis by simp
qed

end
