(* ===== verification/Worker.thy ===== *)
theory Worker
  imports Parking Ledger RunQueue
begin

text \<open>
  The worker tier: the enqueuer (\<open>src/src/runtime/enqueuer.py\<close>), the resume service
  (\<open>resume_service.py\<close>) and the worker (\<open>worker.py\<close>), over the continuation store and the engine, the
  ledger and the in-memory queue.  The system state is the run-time state of the engine with the
  ledger and the queue.  A \<open>Suspend\<close> that a tool raises on its authorized re-dispatch is no
  \<open>Exception\<close>: it leaves the worker.
\<close>

type_synonym 'w executor = "string \<Rightarrow> details \<Rightarrow> details \<Rightarrow> 'w \<Rightarrow> attempt \<times> 'w"

record 'w system =
  sy_rt :: "'w rt"
  sy_ledger :: ledger
  sy_queue :: run_queue

text \<open>\<open>wv_builder\<close> is the per-continuation context builder (\<open>None\<close> when it raises); \<open>wv_enqueues\<close> and
  \<open>wv_mints\<close> say whether an enqueuer and a kernel are wired.\<close>

record 'w wenv =
  wv_engine :: "'w eenv"
  wv_context :: "'w executor option \<times> details"
  wv_builder :: "(string \<Rightarrow> ('w executor option \<times> details) option) option"
  wv_clock :: "'w \<Rightarrow> rat"
  wv_token :: "'w \<Rightarrow> string \<times> 'w"
  wv_id :: string
  wv_lease :: rat
  wv_max_crashes :: nat
  wv_enqueues :: bool
  wv_mints :: bool
  wv_ttl :: int

subsection \<open>The enqueuer\<close>

definition priority_by_source :: "(string \<times> string) list" where
  "priority_by_source =
     [(''human'', ''p0''), (''reflex'', ''p0''), (''resume'', ''p0''),
      (''cron'', ''p1''), (''scheduled'', ''p1''), (''event'', ''p1''), (''a2a'', ''p1''),
      (''autonomous'', ''p2''), (''always_on'', ''p2''), (''batch'', ''p2'')]"

definition priority_for :: "string \<Rightarrow> string" where
  "priority_for s = dget_default priority_by_source s ''p1''"

definition clock :: "'w wenv \<Rightarrow> 'w system \<Rightarrow> rat" where
  "clock env s = wv_clock env (rt_world (sy_rt s))"

definition chosen_priority :: "string option \<Rightarrow> continuation \<Rightarrow> resolution option \<Rightarrow> string" where
  "chosen_priority p c rs =
     (let dflt = priority_for (if rs = None then c_source c else ''resume'')
      in case p of None \<Rightarrow> dflt | Some x \<Rightarrow> if x = [] then dflt else x)"

definition enqueue_runnable :: "'w wenv \<Rightarrow> string \<Rightarrow> string option \<Rightarrow> rat option \<Rightarrow> resolution option \<Rightarrow> 'w system \<Rightarrow> 'w system" where
  "enqueue_runnable env i prio not_before rs s =
     (case cs_load (rt_conts (sy_rt s)) i of
        None \<Rightarrow> s
      | Some c \<Rightarrow>
        (let p = chosen_priority prio c rs; c1 = c\<lparr>c_epoch := c_epoch c + 1\<rparr>;
             item = \<lparr>ri_cont = i, ri_tenant = c_tenant c1, ri_priority = p, ri_epoch = c_epoch c1,
               ri_resolution = rs, ri_attempt = 0, ri_handle = None\<rparr>
         in s\<lparr>sy_rt := save_cont (wv_engine env) c1 (sy_rt s),
              sy_ledger := upsert_queued i (c_tenant c1) p (c_epoch c1) (sy_ledger s),
              sy_queue := q_enqueue (clock env s) not_before item (sy_queue s)\<rparr>))"

definition rebuilt_item :: "ledger_row \<Rightarrow> runnable" where
  "rebuilt_item r = \<lparr>ri_cont = lw_cont r, ri_tenant = lw_tenant r, ri_priority = lw_priority r, ri_epoch = lw_epoch r,
     ri_resolution = None, ri_attempt = 0, ri_handle = None\<rparr>"

definition rebuild_from_ledger :: "'w wenv \<Rightarrow> 'w system \<Rightarrow> nat \<times> 'w system" where
  "rebuild_from_ledger env s =
     fold (\<lambda>r (n, s). case cs_load (rt_conts (sy_rt s)) (lw_cont r) of
         None \<Rightarrow> (n, s)
       | Some _ \<Rightarrow> (n + 1, s\<lparr>sy_queue := q_enqueue (clock env s) (lw_not_before r) (rebuilt_item r) (sy_queue s)\<rparr>))
       (recover_rows (sy_ledger s)) (0, s)"

subsection \<open>The resume service\<close>

definition find_call :: "cont_store \<Rightarrow> string \<Rightarrow> (continuation \<times> tool_call) option" where
  "find_call s r =
     (case cs_find_by_ref s r of
        None \<Rightarrow> None
      | Some c \<Rightarrow> map_option (Pair c) (find (\<lambda>x. tc_ref x = Some r) (c_pending c)))"

definition enqueue_resolution :: "'w wenv \<Rightarrow> continuation \<Rightarrow> tool_call \<Rightarrow> outcome \<Rightarrow> string option \<Rightarrow> pyval \<Rightarrow> string option \<Rightarrow>
    'w system \<Rightarrow> string option \<times> 'w system" where
  "enqueue_resolution env c rec out token payload by_whom s =
     (Some (c_id c), enqueue_runnable env (c_id c) (Some ''p0'') None
        (Some \<lparr>rs_cont = c_id c, rs_use_id = tc_use_id rec, rs_outcome = out, rs_token = token, rs_payload = payload,
           rs_by = by_whom\<rparr>) s)"

definition mint_token :: "'w wenv \<Rightarrow> string \<Rightarrow> continuation \<Rightarrow> tool_call \<Rightarrow> 'w system \<Rightarrow> string option \<times> 'w system" where
  "mint_token env r c rec s =
     (if wv_mints env
      then (case wv_token env (rt_world (sy_rt s)) of
         (i, w) \<Rightarrow>
           (let k = rt_kernel (sy_rt s);
                (t, caps) = cap_issue mem_save (ev_now (wv_engine env) w) i (c_pid c) (''tool:'' @ tc_name rec) ''tool.call''
                  (Some (wv_ttl env)) [(''external_ref'', PStr r), (''continuation_id'', PStr (c_id c))] (k_caps k)
            in (Some (tok_id t), s\<lparr>sy_rt := (sy_rt s)\<lparr>rt_kernel := k\<lparr>k_caps := caps\<rparr>, rt_world := w\<rparr>\<rparr>)))
      else (None, s))"

definition approve :: "'w wenv \<Rightarrow> string \<Rightarrow> string option \<Rightarrow> 'w system \<Rightarrow> string option \<times> 'w system" where
  "approve env r by_whom s =
     (case find_call (rt_conts (sy_rt s)) r of
        None \<Rightarrow> (None, s)
      | Some (c, rec) \<Rightarrow>
        (case mint_token env r c rec s of (token, s1) \<Rightarrow> enqueue_resolution env c rec Accept token PNone by_whom s1))"

definition reject :: "'w wenv \<Rightarrow> string \<Rightarrow> string option \<Rightarrow> 'w system \<Rightarrow> string option \<times> 'w system" where
  "reject env r by_whom s =
     (case find_call (rt_conts (sy_rt s)) r of
        None \<Rightarrow> (None, s)
      | Some (c, rec) \<Rightarrow> enqueue_resolution env c rec Reject None PNone by_whom s)"

definition deliver_result :: "'w wenv \<Rightarrow> string \<Rightarrow> pyval \<Rightarrow> 'w system \<Rightarrow> string option \<times> 'w system" where
  "deliver_result env r v s =
     (case find_call (rt_conts (sy_rt s)) r of
        None \<Rightarrow> (None, s)
      | Some (c, rec) \<Rightarrow> enqueue_resolution env c rec Result None v None s)"

definition sla_timeout :: "'w wenv \<Rightarrow> string \<Rightarrow> string \<Rightarrow> 'w system \<Rightarrow> string option \<times> 'w system" where
  "sla_timeout env r on_timeout s =
     (case find_call (rt_conts (sy_rt s)) r of
        None \<Rightarrow> (None, s)
      | Some (c, rec) \<Rightarrow>
        if on_timeout = ''proceed''
        then enqueue_resolution env c rec Result None (PDict [(''timed_out'', PBool True), (''proceeded'', PBool True)]) None s
        else enqueue_resolution env c rec Reject None PNone (Some ''sla-timeout'') s)"

subsection \<open>The worker\<close>

definition task_context :: "'w wenv \<Rightarrow> string \<Rightarrow> 'w executor option \<times> details" where
  "task_context env i =
     (case wv_builder env of None \<Rightarrow> wv_context env
      | Some f \<Rightarrow> (case f i of None \<Rightarrow> wv_context env | Some x \<Rightarrow> x))"

definition run_task :: "'w wenv \<Rightarrow> runnable \<Rightarrow> 'w rt \<Rightarrow> 'w result" where
  "run_task env x st =
     (case task_context env (ri_cont x) of
        (ex, ctx) \<Rightarrow>
          (let eng = (wv_engine env)\<lparr>ev_executor := ex\<rparr>
           in case ri_resolution x of None \<Rightarrow> drive eng ctx (ri_cont x) st | Some rs \<Rightarrow> resume eng ctx rs st))"

definition ack_item :: "runnable \<Rightarrow> 'w system \<Rightarrow> 'w system" where
  "ack_item x s = s\<lparr>sy_queue := q_ack x (sy_queue s)\<rparr>"

definition finalize_row :: "string \<Rightarrow> row_status \<Rightarrow> string option \<Rightarrow> 'w system \<Rightarrow> 'w system" where
  "finalize_row i st err s = s\<lparr>sy_ledger := finalize i st err (sy_ledger s)\<rparr>"

definition ledger_status :: "run_status \<Rightarrow> row_status" where
  "ledger_status s = (if s \<in> {Done, Suspended, MaxTurns} then DoneRow else FailedRow)"

text \<open>What follows a slice that crashed, and one that returned.\<close>

definition after_crash :: "'w wenv \<Rightarrow> runnable \<Rightarrow> string \<Rightarrow> 'w system \<Rightarrow> 'w system" where
  "after_crash env x err s =
     (case mark_retryable (ri_cont x) err (wv_max_crashes env) (sy_ledger s) of
        (alive, l) \<Rightarrow>
          (let s1 = s\<lparr>sy_ledger := l\<rparr>
           in if alive then s1\<lparr>sy_queue := q_nack (clock env s1) (1 / 2 * 2 ^ ri_attempt x) x (sy_queue s1)\<rparr>
              else ack_item x s1))"

definition after_slice :: "'w wenv \<Rightarrow> runnable \<Rightarrow> run_outcome \<Rightarrow> 'w system \<Rightarrow> run_status \<times> 'w system" where
  "after_slice env x out s =
     (if ro_status out = Continue
      then (if wv_enqueues env
            then (Continue, ack_item x (enqueue_runnable env (ri_cont x) (Some (ri_priority x)) None None s))
            else (RunFailed, ack_item x (finalize_row (ri_cont x) FailedRow (Some ''CONTINUE without enqueuer'') s)))
      else (ro_status out, ack_item x (finalize_row (ri_cont x) (ledger_status (ro_status out)) (ro_error out) s)))"

definition handle_one :: "'w wenv \<Rightarrow> runnable \<Rightarrow> 'w system \<Rightarrow> (suspend + run_status option) \<times> 'w system" where
  "handle_one env x s =
     (case try_mark_running (clock env s) (ri_cont x) (wv_id env) (ri_epoch x) (wv_lease env) (sy_ledger s) of
        (won, l) \<Rightarrow>
          (let s1 = s\<lparr>sy_ledger := l\<rparr>
           in if \<not> won then (Inr None, ack_item x s1)
              else (case run_task env x (sy_rt s1) of
                 (Inl (EscSuspend sg), st) \<Rightarrow> (Inl sg, s1\<lparr>sy_rt := st\<rparr>)
               | (Inl (EscError e), st) \<Rightarrow> (Inr (Some RunFailed), after_crash env x e (s1\<lparr>sy_rt := st\<rparr>))
               | (Inr out, st) \<Rightarrow> apfst (\<lambda>r. Inr (Some r)) (after_slice env x out (s1\<lparr>sy_rt := st\<rparr>)))))"

primrec handle_all :: "'w wenv \<Rightarrow> runnable list \<Rightarrow> 'w system \<Rightarrow> (suspend + run_status option list) \<times> 'w system" where
  "handle_all env [] s = (Inr [], s)"
| "handle_all env (x # xs) s =
     (case handle_one env x s of
        (Inl sg, s1) \<Rightarrow> (Inl sg, s1)
      | (Inr r, s1) \<Rightarrow> apfst (map_sum id ((#) r)) (handle_all env xs s1))"

definition run_once :: "'w wenv \<Rightarrow> bool \<Rightarrow> nat \<Rightarrow> 'w system \<Rightarrow> (suspend + run_status option list) \<times> 'w system" where
  "run_once env draining n s =
     (if draining then (Inr [], s)
      else case q_claim (clock env s) n (sy_queue s) of
             (xs, q) \<Rightarrow> handle_all env xs (s\<lparr>sy_queue := q\<rparr>))"

text \<open>\<open>for _ in range(max_batches)\<close>; the first argument is the number of batches left.\<close>

primrec run_until_idle :: "'w wenv \<Rightarrow> bool \<Rightarrow> nat \<Rightarrow> nat \<Rightarrow> nat \<Rightarrow> 'w system \<Rightarrow> (suspend + nat) \<times> 'w system" where
  "run_until_idle env draining 0 n handled s = (Inr handled, s)"
| "run_until_idle env draining (Suc b) n handled s =
     (case run_once env draining n s of
        (Inl sg, s1) \<Rightarrow> (Inl sg, s1)
      | (Inr rs, s1) \<Rightarrow>
        if rs = [] then (Inr handled, s1)
        else run_until_idle env draining b n (handled + length (filter (\<lambda>r. r \<noteq> None) rs)) s1)"


subsection \<open>Fencing epochs\<close>

text \<open>The epochs the store holds, by continuation.  A slice of a run never changes them.\<close>

definition epochs :: "cont_store \<Rightarrow> string \<Rightarrow> nat option" where
  "epochs s i = map_option c_epoch (cs_load s i)"

lemma epochs_save: "epochs s (c_id c) = Some (c_epoch c) \<Longrightarrow> epochs (cs_save now c s) = epochs s"
  by (auto simp: epochs_def fun_eq_iff)

lemma epochs_index_refs [simp]: "epochs (index_refs i rs s) = epochs s"
  by (simp add: epochs_def fun_eq_iff)

lemma usage_add_epoch [simp]: "c_epoch (usage_add k n c) = c_epoch c"
  by (simp add: usage_add_def)

lemma account_epoch [simp]: "c_epoch (fst (account r c st)) = c_epoch c"
  by (simp add: account_def)

lemma ends_epochs:
  assumes "epochs (rt_conts st) (c_id c) = Some (c_epoch c)"
  shows "epochs (rt_conts (snd (complete_run env c text n st))) = epochs (rt_conts st)"
    and "epochs (rt_conts (snd (fail_run env c err st))) = epochs (rt_conts st)"
    and "epochs (rt_conts (snd (max_turns_reached env c n st))) = epochs (rt_conts st)"
    and "epochs (rt_conts (snd (suspend_run env c recs n st))) = epochs (rt_conts st)"
  using assms by (simp_all add: complete_run_def fail_run_def max_turns_reached_def suspend_run_def Let_def epochs_save)

text \<open>What a slice leaves alone: all epochs, and the identity and epoch of its continuation.\<close>

definition turn_keeps :: "continuation \<Rightarrow> 'w rt \<Rightarrow> (escape + turn_result) \<times> 'w rt \<Rightarrow> bool" where
  "turn_keeps c st x = (epochs (rt_conts (snd x)) = epochs (rt_conts st) \<and>
     (\<forall>t. fst x = Inr t \<longrightarrow> c_id (tr_cont t) = c_id c \<and> c_epoch (tr_cont t) = c_epoch c))"

lemma run_tools_keeps:
  assumes "epochs (rt_conts st) (c_id c) = Some (c_epoch c)"
  shows "turn_keeps c st (run_tools env ctx k r n evs c st)"
proof -
  define c1 where "c1 = usage_add ''tool_calls'' (int (length (map record_of (lr_calls r))))
    (c\<lparr>c_messages := shape_assistant_turn k r (c_messages c)\<rparr>)"
  obtain xs st1 where d: "dispatch_all env ctx c1 (map record_of (lr_calls r)) st = (xs, st1)" by fastforce
  have c1: "c_id c1 = c_id c" "c_epoch c1 = c_epoch c" by (simp_all add: c1_def)
  have s1: "rt_conts st1 = rt_conts st" using dispatch_all_conts(1) [of env ctx c1 "map record_of (lr_calls r)" st] d by simp
  show ?thesis
    unfolding run_tools_def Let_def c1_def [symmetric] d
    using assms by (simp add: turn_keeps_def turn_end_def case_prod_unfold ends_epochs c1 s1 epochs_save)
qed

lemma run_one_turn_keeps:
  assumes "epochs (rt_conts st) (c_id c) = Some (c_epoch c)"
  shows "turn_keeps c st (run_one_turn env ctx turn n evs c st)"
proof -
  let ?c = "c\<lparr>c_step := turn\<rparr>"
  obtain x w where chat: "ev_chat env (config_of ?c) (c_messages ?c) (tools_of ?c) (rt_world st) = (x, w)" by fastforce
  have resp: "turn_keeps c st (run_response env ctx m evs r ?c (st\<lparr>rt_world := w\<rparr>))" for m r
  proof -
    obtain c1 s1 where a: "account r ?c (st\<lparr>rt_world := w\<rparr>) = (c1, s1)" by fastforce
    with account_conts(1,4) [of r ?c "st\<lparr>rt_world := w\<rparr>"] account_epoch [of r ?c "st\<lparr>rt_world := w\<rparr>"]
    have f: "rt_conts s1 = rt_conts st" "c_id c1 = c_id c" "c_epoch c1 = c_epoch c" by simp_all
    with assms have e: "epochs (rt_conts s1) (c_id c1) = Some (c_epoch c1)" by simp
    show ?thesis
      using run_tools_keeps [OF e] f e by (simp add: run_response_def a turn_keeps_def turn_end_def ends_epochs)
  qed
  show ?thesis
  proof (cases x)
    case (Inl e)
    with chat show ?thesis by (simp add: run_one_turn_def turn_keeps_def)
  next
    case (Inr r)
    have "turn_keeps c st (turn_end n evs ?c (fail_run env ?c err (st\<lparr>rt_world := w\<rparr>)))" for err
      using assms by (simp add: turn_keeps_def turn_end_def ends_epochs)
    with chat Inr resp show ?thesis by (simp add: run_one_turn_def Let_def split: option.split)
  qed
qed

lemma drive_loop_keeps:
  "epochs (rt_conts st) (c_id c) = Some (c_epoch c) \<Longrightarrow>
   epochs (rt_conts (snd (drive_loop env ctx n turn m evs c st))) = epochs (rt_conts st)"
proof (induction n arbitrary: turn m evs c st)
  case 0
  then show ?case by (simp add: ends_epochs)
next
  case (Suc n)
  obtain x st1 where t: "run_one_turn env ctx turn m evs c st = (x, st1)" by fastforce
  from run_one_turn_keeps [OF Suc.prems, of env ctx turn m evs] have k: "turn_keeps c st (x, st1)" by (simp add: t)
  then have "epochs (rt_conts (snd (drive_loop env ctx n (turn + 1) m' e (tr_cont r) st1))) = epochs (rt_conts st)"
    if "x = Inr r" for r m' e
    using Suc.IH [of st1 "tr_cont r" "turn + 1" m' e] Suc.prems that by (simp add: turn_keeps_def)
  with k show ?case by (simp add: t turn_keeps_def split: sum.split option.split)
qed

lemma drive_or_step_keeps:
  assumes "epochs (rt_conts st) (c_id c) = Some (c_epoch c)"
  shows "epochs (rt_conts (snd (drive_or_step env ctx c st))) = epochs (rt_conts st)"
proof -
  obtain x st1 where t: "run_one_turn env ctx (c_step c) 0 [] c st = (x, st1)" by fastforce
  from run_one_turn_keeps [OF assms, of env ctx "c_step c" 0 "[]"] have k: "turn_keeps c st (x, st1)" by (simp add: t)
  have "epochs (rt_conts (snd (single_turn env ctx c st))) = epochs (rt_conts st)"
    using k assms by (simp add: single_turn_def Let_def t turn_keeps_def ends_epochs epochs_save split: sum.split option.split)
  with drive_loop_keeps [OF assms] show ?thesis by (simp add: drive_or_step_def drive_inline_def)
qed

lemma drive_keeps: "cs_ok (rt_conts st) \<Longrightarrow> epochs (rt_conts (snd (drive env ctx i st))) = epochs (rt_conts st)"
proof (cases "cs_load (rt_conts st) i")
  case (Some c)
  assume "cs_ok (rt_conts st)"
  from conts.load_key [OF this Some] have e: "epochs (rt_conts st) (c_id c) = Some (c_epoch c)"
    using Some by (simp add: epochs_def)
  then show ?thesis
    using drive_or_step_keeps [of _ "c\<lparr>c_status := CRunning\<rparr>" env ctx]
    by (simp add: drive_def Some Let_def epochs_save)
qed (simp add: drive_def)

lemma resume_keeps: "cs_ok (rt_conts st) \<Longrightarrow> epochs (rt_conts (snd (resume env ctx rs st))) = epochs (rt_conts st)"
proof (cases "cs_load (rt_conts st) (rs_cont rs)")
  case (Some c)
  assume "cs_ok (rt_conts st)"
  from conts.load_key [OF this Some] have e: "epochs (rt_conts st) (c_id c) = Some (c_epoch c)"
    using Some by (simp add: epochs_def)
  let ?c = "c\<lparr>c_status := CResuming\<rparr>" and ?st = "save_cont env (c\<lparr>c_status := CResuming\<rparr>) st"
  have s: "epochs (rt_conts ?st) = epochs (rt_conts st)" using e by (simp add: epochs_save)
  have settle: "epochs (rt_conts (snd (settle_resume env ctx c2 r st2))) = epochs (rt_conts st)"
    if "epochs (rt_conts st2) = epochs (rt_conts st)" "c_id c2 = c_id c" "c_epoch c2 = c_epoch c" for c2 r st2
    using that e drive_or_step_keeps [of _ "c2\<lparr>c_messages := m, c_pending := [], c_suspend_reason := None, c_status := CRunning,
        c_step := c_step c2 + 1\<rparr>" env ctx for m]
    by (simp add: settle_resume_def Let_def epochs_save)
  have apply_keeps: "epochs (rt_conts (snd (apply_resolution env ctx ?c r rs ?st))) = epochs (rt_conts st)" for r
  proof -
    obtain y st1 where d: "dispatch_authorized env ctx ?c (r\<lparr>tc_token := rs_token rs\<rparr>) ?st = (y, st1)" by fastforce
    with dispatch_authorized_conts(1) [of env ctx ?c "r\<lparr>tc_token := rs_token rs\<rparr>" ?st]
    have "epochs (rt_conts st1) = epochs (rt_conts st)" using s by simp
    with s e d show ?thesis
      by (simp add: apply_resolution_def Let_def epochs_save split: outcome.split sum.split)
  qed
  show ?thesis
  proof (cases "c_status c = CSuspended")
    case False
    with Some show ?thesis by (simp add: resume_def)
  next
    case True
    show ?thesis
    proof (cases "pending_by_id ?c (rs_use_id rs)")
      case None
      with Some True s show ?thesis by (simp add: resume_def Let_def)
    next
      case (Some rec)
      obtain y st1 where a: "apply_resolution env ctx ?c rec rs ?st = (y, st1)" by fastforce
      with apply_keeps [of rec] have k: "epochs (rt_conts st1) = epochs (rt_conts st)" by simp
      have "c_id c' = c_id c \<and> c_epoch c' = c_epoch c" if "y = Inr (c', r')" for c' r'
        using apply_resolution_effect [of env ctx ?c rec rs ?st c' r' st1] a that by simp
      then have "epochs (rt_conts (snd (settle_resume env ctx c' r' st1))) = epochs (rt_conts st)" if "y = Inr (c', r')" for c' r'
        using settle [OF k] that by simp
      moreover have "resume env ctx rs st = (if tc_status rec \<noteq> TExecuted
          then (case y of Inl e \<Rightarrow> (Inl e, st1) | Inr (c2, rec2) \<Rightarrow> settle_resume env ctx c2 rec2 st1)
          else settle_resume env ctx ?c rec ?st)"
        using Some True \<open>cs_load (rt_conts st) (rs_cont rs) = Some c\<close> a by (simp add: resume_def Let_def split: sum.split)
      moreover have "epochs (rt_conts (snd (settle_resume env ctx ?c rec ?st))) = epochs (rt_conts st)"
        using settle [OF s] by simp
      ultimately show ?thesis using k by (simp split: sum.split prod.split)
    qed
  qed
qed (simp add: resume_def)

lemma run_task_keeps: "cs_ok (rt_conts st) \<Longrightarrow> epochs (rt_conts (snd (run_task env x st))) = epochs (rt_conts st)"
  by (simp add: run_task_def Let_def case_prod_unfold drive_keeps resume_keeps split: option.split)

end
