(* ===== verification/WorkerFacts.thy ===== *)
theory WorkerFacts
  imports Worker
begin

text \<open>
  What the worker tier guarantees and where it loses work: redelivered tasks are dropped, a second
  resolution overtakes the first, a rebuilt queue forgets resolutions, a crashed resume is not
  retried, and an approval makes exactly the approved call run.
\<close>

subsection \<open>Redeliveries\<close>

lemma run_task_epoch:
  assumes "cs_ok (rt_conts (sy_rt s))"
  shows "epochs (rt_conts (snd (run_task env x (sy_rt s)))) = epochs (rt_conts (sy_rt s))"
  by (rule run_task_keeps [OF assms])

lemma claim_lost_drop:
  "\<not> fst (try_mark_running (clock env s) (ri_cont x) (wv_id env) (ri_epoch x) (wv_lease env) (sy_ledger s)) \<Longrightarrow>
   handle_one env x s = (Inr None, ack_item x s)"
proof -
  assume a: "\<not> fst (try_mark_running (clock env s) (ri_cont x) (wv_id env) (ri_epoch x) (wv_lease env) (sy_ledger s))"
  from claim_lost [OF a] a obtain l
    where "try_mark_running (clock env s) (ri_cont x) (wv_id env) (ri_epoch x) (wv_lease env) (sy_ledger s) = (False, l)" "l = sy_ledger s"
    by (cases "try_mark_running (clock env s) (ri_cont x) (wv_id env) (ri_epoch x) (wv_lease env) (sy_ledger s)") simp
  then show ?thesis by (simp add: handle_one_def Let_def)
qed

text \<open>The row of an item that was handled: settled, dead, retryable or moved on to another epoch.\<close>

lemma enqueue_row:
  assumes "epochs (rt_conts (sy_rt s)) i = Some e"
  shows "\<exists>r. map_of (sy_ledger (enqueue_runnable env i p nb rs s)) i = Some r \<and> lw_epoch r = e + 1 \<and> lw_status r = Queued"
proof -
  from assms obtain c where "cs_load (rt_conts (sy_rt s)) i = Some c" "c_epoch c = e" by (auto simp: epochs_def)
  then show ?thesis by (simp add: enqueue_runnable_def Let_def)
qed

lemma ack_item_simps [simp]:
  "sy_ledger (ack_item x s) = sy_ledger s" "sy_rt (ack_item x s) = sy_rt s"
  by (simp_all add: ack_item_def)

lemma finalize_row_simps [simp]:
  "sy_ledger (finalize_row i st err s) = finalize i st err (sy_ledger s)" "sy_rt (finalize_row i st err s) = sy_rt s"
  by (simp_all add: finalize_row_def)

definition settled_row :: "ledger \<Rightarrow> string \<Rightarrow> nat \<Rightarrow> bool" where
  "settled_row l i e = pred_option (\<lambda>r. lw_epoch r \<noteq> e \<or> \<not> claimable (lw_status r)) (map_of l i)"

lemma settled_row_lost: "settled_row l i e \<Longrightarrow> \<not> fst (try_mark_running now i w e lease l)"
  by (auto simp: settled_row_def claim_wins_iff)

lemma after_slice_settles:
  assumes "epochs (rt_conts (sy_rt s)) (ri_cont x) = Some (ri_epoch x)"
  shows "settled_row (sy_ledger (snd (after_slice env x out s))) (ri_cont x) (ri_epoch x)"
proof -
  have "settled_row (finalize i st err l) i e" if "\<not> claimable st" for i st err l e
    using that by (cases "map_of l i") (simp_all add: settled_row_def)
  moreover have "\<not> claimable (ledger_status st)" "\<not> claimable FailedRow" for st
    by (simp_all add: ledger_status_def claimable_def)
  moreover have "settled_row (sy_ledger (enqueue_runnable env (ri_cont x) p nb rs s)) (ri_cont x) (ri_epoch x)" for p nb rs
    using enqueue_row [OF assms, of env p nb rs] by (auto simp: settled_row_def)
  ultimately show ?thesis by (simp add: after_slice_def)
qed

lemma after_crash_row:
  "pred_option (\<lambda>r. lw_status r = Dead \<or> lw_status r = Retryable) (map_of (sy_ledger (after_crash env x err s)) (ri_cont x))"
proof -
  obtain alive l where m: "mark_retryable (ri_cont x) err (wv_max_crashes env) (sy_ledger s) = (alive, l)" by fastforce
  with retry_row [of "ri_cont x" err "wv_max_crashes env" "sy_ledger s" "ri_cont x"]
  have "map_of l (ri_cont x) = map_option (\<lambda>r. r\<lparr>lw_crashes := lw_crashes r + 1, lw_error := Some err, lw_owner := None,
         lw_lease_until := None, lw_status := (if wv_max_crashes env \<le> lw_crashes r + 1 then Dead else Retryable)\<rparr>)
       (map_of (sy_ledger s) (ri_cont x))" by simp
  moreover have "sy_ledger (after_crash env x err s) = l" by (simp add: after_crash_def m Let_def)
  ultimately show ?thesis by (cases "map_of (sy_ledger s) (ri_cont x)") simp_all
qed


definition demo_wenv :: "string list \<Rightarrow> demo_world wenv" where
  "demo_wenv tools = \<lparr>wv_engine = demo_eenv tools, wv_context = (ev_executor (demo_eenv tools), []), wv_builder = None,
     wv_clock = (\<lambda>w. 0), wv_token = (\<lambda>w. (''cap_9'', w)), wv_id = ''w_1'', wv_lease = 300, wv_max_crashes = 3,
     wv_enqueues = True, wv_mints = True, wv_ttl = 3600\<rparr>"

definition demo_system :: "continuation \<Rightarrow> demo_world system" where
  "demo_system c = enqueue_runnable (demo_wenv []) ''c1'' None None None
     \<lparr>sy_rt = demo_rt [c], sy_ledger = [], sy_queue = empty_queue\<rparr>"

definition demo_task :: runnable where
  "demo_task = \<lparr>ri_cont = ''c1'', ri_tenant = ''default'', ri_priority = ''p0'', ri_epoch = 1, ri_resolution = None,
     ri_attempt = 0, ri_handle = None\<rparr>"


subsection \<open>Overtaken resolutions\<close>

lemma enqueue_effect:
  assumes "cs_load (rt_conts (sy_rt s)) i = Some c" "queue_ok (sy_queue s)" "cs_ok (rt_conts (sy_rt s))"
  shows "waiting (sy_queue (enqueue_runnable env i p nb rs s)) = add_mset (i, c_epoch c + 1, rs) (waiting (sy_queue s))"
    and "queue_ok (sy_queue (enqueue_runnable env i p nb rs s))"
    and "epochs (rt_conts (sy_rt (enqueue_runnable env i p nb rs s))) i = Some (c_epoch c + 1)"
    and "cs_ok (rt_conts (sy_rt (enqueue_runnable env i p nb rs s)))"
    and "map_option lw_epoch (map_of (sy_ledger (enqueue_runnable env i p nb rs s)) i) = Some (c_epoch c + 1)"
  using assms(1) enqueue_ok_work [OF assms(2)] conts.load_key [OF assms(3,1)] assms(3)
  by (simp_all add: enqueue_runnable_def Let_def work_of_def epochs_def cs_ok_save)

lemma mint_token_frame:
  "snd (mint_token env r c rec s) = s\<lparr>sy_rt := sy_rt (snd (mint_token env r c rec s))\<rparr> \<and>
   rt_conts (sy_rt (snd (mint_token env r c rec s))) = rt_conts (sy_rt s)"
  by (simp add: mint_token_def Let_def case_prod_unfold)

lemma find_call_load:
  assumes "cs_ok s" "find_call s r = Some (c, rec)"
  shows "cs_load s (c_id c) = Some c" "rec \<in> set (c_pending c)" "tc_ref rec = Some r"
proof -
  from assms(2) have f: "cs_find_by_ref s r = Some c" "find (\<lambda>x. tc_ref x = Some r) (c_pending c) = Some rec"
    by (auto simp: find_call_def split: option.splits)
  then obtain i where "cs_load s i = Some c" by (auto simp: cs_find_by_ref_def split: option.splits if_splits)
  with conts.load_key [OF assms(1)] show "cs_load s (c_id c) = Some c" by metis
  from f(2) show "rec \<in> set (c_pending c)" "tc_ref rec = Some r" by (auto simp: find_Some_iff)
qed

lemma approve_effect:
  assumes "cs_ok (rt_conts (sy_rt s))" "queue_ok (sy_queue s)" "find_call (rt_conts (sy_rt s)) r = Some (c, rec)"
    "approve env r who s = (Some i, s1)"
  shows "i = c_id c"
    and "\<exists>rs. rs_cont rs = i \<and> rs_use_id rs = tc_use_id rec \<and> rs_outcome rs = Accept \<and>
      waiting (sy_queue s1) = add_mset (i, c_epoch c + 1, Some rs) (waiting (sy_queue s))"
    and "queue_ok (sy_queue s1)" "cs_ok (rt_conts (sy_rt s1))" "epochs (rt_conts (sy_rt s1)) i = Some (c_epoch c + 1)"
    and "map_option lw_epoch (map_of (sy_ledger s1) i) = Some (c_epoch c + 1)"
proof -
  obtain tok s' where m: "mint_token env r c rec s = (tok, s')" by fastforce
  with mint_token_frame [of env r c rec s] have f: "s' = s\<lparr>sy_rt := sy_rt s'\<rparr>" "rt_conts (sy_rt s') = rt_conts (sy_rt s)"
    by simp_all
  from f(1) have q: "sy_queue s' = sy_queue s" by (metis system.select_convs(3) system.surjective system.update_convs(1))
  define rs where "rs = \<lparr>rs_cont = c_id c, rs_use_id = tc_use_id rec, rs_outcome = Accept, rs_token = tok, rs_payload = PNone, rs_by = who\<rparr>"
  have a: "i = c_id c" "s1 = enqueue_runnable env i (Some ''p0'') None (Some rs) s'"
    using assms(4) by (auto simp: approve_def assms(3) m enqueue_resolution_def rs_def)
  have l: "cs_load (rt_conts (sy_rt s')) i = Some c"
    using find_call_load(1) [OF assms(1,3)] f(2) a(1) by simp
  have ok: "queue_ok (sy_queue s')" "cs_ok (rt_conts (sy_rt s'))" using assms(1,2) q f(2) by simp_all
  note e = enqueue_effect [OF l ok, of env "Some ''p0''" None "Some rs", folded a(2)]
  show "i = c_id c" by (rule a(1))
  show "queue_ok (sy_queue s1)" "cs_ok (rt_conts (sy_rt s1))" "epochs (rt_conts (sy_rt s1)) i = Some (c_epoch c + 1)"
    "map_option lw_epoch (map_of (sy_ledger s1) i) = Some (c_epoch c + 1)"
    by (fact e(2) e(4) e(3) e(5))+
  show "\<exists>rs. rs_cont rs = i \<and> rs_use_id rs = tc_use_id rec \<and> rs_outcome rs = Accept \<and>
      waiting (sy_queue s1) = add_mset (i, c_epoch c + 1, Some rs) (waiting (sy_queue s))"
    using e(1) q a(1) by (intro exI [of _ rs]) (simp add: rs_def)
qed

text \<open>When a second resolution for a run arrives before a worker has picked up the first, the first is
lost: the work the first \<open>approve\<close> enqueued sits in the queue, but the second call has moved the
fencing epoch on, so whichever worker takes that work drops it without running anything.\<close>

theorem second_approval_drops_the_first:
  assumes "cs_ok (rt_conts (sy_rt s))" and "queue_ok (sy_queue s)"
    and "find_call (rt_conts (sy_rt s)) r1 = Some (c, rec1)" and "approve env r1 who1 s = (Some i, s1)"
    and "approve env r2 who2 s1 = (Some i, s2)"
  shows "\<exists>rs. rs_cont rs = i \<and> rs_use_id rs = tc_use_id rec1 \<and> rs_outcome rs = Accept \<and>
     (i, c_epoch c + 1, Some rs) \<in># waiting (sy_queue s1) \<and>
     (if work_of x = (i, c_epoch c + 1, Some rs) then handle_one env' x s2 = (Inr None, ack_item x s2) else True)"
proof -
  note first = approve_effect [OF assms(1-4)]
  from assms(5) obtain c2 rec2 where f: "find_call (rt_conts (sy_rt s1)) r2 = Some (c2, rec2)"
    by (cases "find_call (rt_conts (sy_rt s1)) r2") (auto simp: approve_def)
  note second = approve_effect [OF first(4,3) f assms(5)]
  have "epochs (rt_conts (sy_rt s1)) i = Some (c_epoch c2)"
    using find_call_load(1) [OF first(4) f] second(1) by (simp add: epochs_def)
  with first(5) have "c_epoch c2 = c_epoch c + 1" by simp
  with second(6) have row: "settled_row (sy_ledger s2) i (c_epoch c + 1)"
    by (cases "map_of (sy_ledger s2) i") (auto simp: settled_row_def)
  have "handle_one env' x s2 = (Inr None, ack_item x s2)" if "work_of x = (i, c_epoch c + 1, Some rs)" for rs
    using claim_lost_drop [OF settled_row_lost, of s2 x env'] row that by (simp add: work_of_def)
  with first(2) show ?thesis by auto
qed

definition demo_parked_system :: "demo_world system" where
  "demo_parked_system = \<lparr>sy_rt = (demo_rt [demo_suspended])\<lparr>rt_conts := \<lparr>cs_by_id = [(''c1'', demo_suspended)],
     cs_refs = [(''r1'', ''c1''), (''r2'', ''c1'')]\<rparr>\<rparr>, sy_ledger = [], sy_queue = empty_queue\<rparr>"

theorem second_approval_drops_the_first_witness:
  "\<exists>rs. rs_use_id rs = ''t1'' \<and> rs_outcome rs = Accept \<and>
     (''c1'', 1, Some rs) \<in># waiting (sy_queue (snd (approve (demo_wenv []) ''r1'' None demo_parked_system)))"
proof -
  let ?s = demo_parked_system and ?env = "demo_wenv []"
  have ok: "cs_ok (rt_conts (sy_rt ?s))" "queue_ok (sy_queue ?s)"
    "find_call (rt_conts (sy_rt ?s)) ''r1'' = Some (demo_suspended, demo_pending ''t1'' ''r1'')"
    by (simp_all add: demo_parked_system_def cs_ok_def keyed_def dict_ok_def demo_suspended_def demo_cont_def
        find_call_def cs_find_by_ref_def cs_load_def demo_pending_def new_call_def)
  have "fst (approve ?env ''r1'' None ?s) = Some ''c1''"
    "fst (approve ?env ''r2'' None (snd (approve ?env ''r1'' None ?s))) = Some ''c1''" by code_simp+
  then have a: "approve ?env ''r1'' None ?s = (Some ''c1'', snd (approve ?env ''r1'' None ?s))"
    "approve ?env ''r2'' None (snd (approve ?env ''r1'' None ?s)) =
      (Some ''c1'', snd (approve ?env ''r2'' None (snd (approve ?env ''r1'' None ?s))))" by (metis prod.collapse)+
  from second_approval_drops_the_first [OF ok a] show ?thesis
    by (auto simp: demo_pending_def new_call_def demo_suspended_def demo_cont_def)
qed


subsection \<open>Rebuilding the queue\<close>

definition bare :: "run_queue \<Rightarrow> bool" where
  "bare q = (queue_ok q \<and> (\<forall>w \<in># waiting q. snd (snd w) = None))"

lemma rebuild_bare:
  "bare (sy_queue s) \<Longrightarrow> bare (sy_queue (snd (rebuild_from_ledger env s))) \<and>
   sy_rt (snd (rebuild_from_ledger env s)) = sy_rt s \<and> sy_ledger (snd (rebuild_from_ledger env s)) = sy_ledger s"
proof -
  let ?f = "\<lambda>r (n :: nat, s). case cs_load (rt_conts (sy_rt s)) (lw_cont r) of None \<Rightarrow> (n, s)
       | Some _ \<Rightarrow> (n + 1, s\<lparr>sy_queue := q_enqueue (clock env s) (lw_not_before r) (rebuilt_item r) (sy_queue s)\<rparr>)"
  have "bare (sy_queue (snd x)) \<Longrightarrow> bare (sy_queue (snd (fold ?f rows x))) \<and>
      sy_rt (snd (fold ?f rows x)) = sy_rt (snd x) \<and> sy_ledger (snd (fold ?f rows x)) = sy_ledger (snd x)" for rows x
  proof (induction rows arbitrary: x)
    case (Cons r rows)
    have "bare (sy_queue (snd (?f r x))) \<and> sy_rt (snd (?f r x)) = sy_rt (snd x) \<and> sy_ledger (snd (?f r x)) = sy_ledger (snd x)"
      using Cons.prems enqueue_ok_work [of "sy_queue (snd x)" "clock env (snd x)" "lw_not_before r" "rebuilt_item r"]
      by (cases x) (auto simp: bare_def work_of_def rebuilt_item_def split: option.split)
    with Cons.IH [of "?f r x"] show ?case by simp
  qed simp
  then show "bare (sy_queue s) \<Longrightarrow> ?thesis" by (simp add: rebuild_from_ledger_def)
qed

lemma driven_suspended:
  assumes "ri_resolution x = None" "cs_load (rt_conts (sy_rt s)) (ri_cont x) = Some c" "c_status c = CSuspended"
  shows "sy_rt (snd (handle_one env x s)) = sy_rt s"
proof -
  have "run_task env x (sy_rt s) = (Inr (suspended_outcome c), sy_rt s)"
    using assms by (simp add: run_task_def drive_def Let_def case_prod_unfold)
  then show ?thesis
    by (simp add: handle_one_def Let_def after_slice_def split: prod.split)
qed

text \<open>A rebuilt queue forgets every resolution: after the queue is lost, \<open>rebuild_from_ledger\<close> puts
back entries without resolution only, and a worker that takes such an entry for a suspended run
runs nothing and changes nothing of it, so an approval that was waiting in the queue has no effect.\<close>

theorem rebuild_forgets_resolutions:
  assumes "cs_load (rt_conts (sy_rt s)) i = Some c" and "c_status c = CSuspended"
    and "rebuild_from_ledger env (s\<lparr>sy_queue := empty_queue\<rparr>) = (n, s1)"
    and "(i, ep, rs) \<in># waiting (sy_queue s1)" and "work_of x = (i, ep, rs)"
  shows "rs = None \<and> sy_rt (snd (handle_one env' x s1)) = sy_rt s"
proof -
  have "bare (sy_queue (s\<lparr>sy_queue := empty_queue\<rparr>))" by (simp add: bare_def)
  from rebuild_bare [OF this, of env] assms(3) have b: "bare (sy_queue s1)" "sy_rt s1 = sy_rt s" by simp_all
  with assms(4) have "rs = None" by (auto simp: bare_def)
  moreover have "sy_rt (snd (handle_one env' x s1)) = sy_rt s1"
    by (rule driven_suspended) (use assms(1,2,5) b(2) \<open>rs = None\<close> in \<open>auto simp: work_of_def\<close>)
  ultimately show ?thesis using b(2) by simp
qed

definition demo_approved :: "demo_world system" where
  "demo_approved = snd (approve (demo_wenv []) ''r1'' None demo_parked_system)"

theorem rebuild_forgets_resolutions_witness:
  "sy_rt (snd (handle_one (demo_wenv []) (demo_task\<lparr>ri_epoch := 1\<rparr>)
      (snd (rebuild_from_ledger (demo_wenv []) (demo_approved\<lparr>sy_queue := empty_queue\<rparr>))))) = sy_rt demo_approved"
proof -
  let ?r = "rebuild_from_ledger (demo_wenv []) (demo_approved\<lparr>sy_queue := empty_queue\<rparr>)"
  have "map_option c_status (cs_load (rt_conts (sy_rt demo_approved)) ''c1'') = Some CSuspended" by code_simp
  then obtain c where c: "cs_load (rt_conts (sy_rt demo_approved)) ''c1'' = Some c" "c_status c = CSuspended" by auto
  have l: "lane (sy_queue (snd ?r)) ''p0'' = [demo_task]" by code_simp
  then have w: "(''c1'', 1, None) \<in># waiting (sy_queue (snd ?r))"
    by (simp add: waiting_def work_of_def demo_task_def)
  show ?thesis
    using rebuild_forgets_resolutions [OF c _ w, of "demo_wenv []" "fst ?r" "demo_task\<lparr>ri_epoch := 1\<rparr>" "demo_wenv []"]
    by (simp add: work_of_def demo_task_def)
qed

subsection \<open>Crashed resumes\<close>

definition stored_status :: "'w rt \<Rightarrow> string \<Rightarrow> cont_status option" where
  "stored_status st i = map_option c_status (cs_load (rt_conts st) i)"

lemma turn_status:
  assumes "run_one_turn env ctx turn n evs c st = (x, st1)" "stored_status st (c_id c) = Some (c_status c)"
  shows "(\<forall>e. x = Inl e \<longrightarrow> rt_conts st1 = rt_conts st) \<and>
    (\<forall>t. x = Inr t \<longrightarrow> tr_outcome t = None \<longrightarrow> c_status (tr_cont t) = c_status c \<and> c_id (tr_cont t) = c_id c \<and>
       stored_status st1 (c_id c) = Some (c_status c))"
proof -
  have tools: "fst (run_tools env ctx k r m e c' s) = Inr t \<Longrightarrow> tr_outcome t = None \<Longrightarrow> c_status (tr_cont t) = c_status c' \<and>
      c_id (tr_cont t) = c_id c' \<and> stored_status (snd (run_tools env ctx k r m e c' s)) (c_id c') = Some (c_status c')"
    for k r m e c' s t
    by (auto simp: run_tools_def Let_def case_prod_unfold turn_end_def stored_status_def split: if_splits)
  have no_esc: "fst (run_tools env ctx k r m e c' s) \<noteq> Inl esc" for k r m e c' s esc
    by (simp add: run_tools_def Let_def case_prod_unfold turn_end_def)
  let ?c = "c\<lparr>c_step := turn\<rparr>"
  obtain y w where chat: "ev_chat env (config_of ?c) (c_messages ?c) (tools_of ?c) (rt_world st) = (y, w)" by fastforce
  have resp: "(\<forall>esc. fst (run_response env ctx m e r ?c s) \<noteq> Inl esc) \<and>
      (\<forall>t. fst (run_response env ctx m e r ?c s) = Inr t \<longrightarrow> tr_outcome t = None \<longrightarrow>
        c_status (tr_cont t) = c_status c \<and> c_id (tr_cont t) = c_id c \<and>
        stored_status (snd (run_response env ctx m e r ?c s)) (c_id c) = Some (c_status c))" for m e r s
  proof (cases "lr_calls r = []")
    case True
    then show ?thesis by (auto simp: run_response_def case_prod_unfold turn_end_def)
  next
    case False
    obtain c1 s1 where a: "account r ?c s = (c1, s1)" by fastforce
    with account_conts(4,12) [of r ?c s] have "c_id c1 = c_id c" "c_status c1 = c_status c" by simp_all
    with False a tools [of _ r m e c1 s1] no_esc [of _ r m e c1 s1] show ?thesis by (simp add: run_response_def)
  qed
  show ?thesis
  proof (cases y)
    case (Inl e)
    with chat assms(1) show ?thesis by (auto simp: run_one_turn_def)
  next
    case (Inr r)
    have "x = fst (run_one_turn env ctx turn n evs c st)" "st1 = snd (run_one_turn env ctx turn n evs c st)"
      using assms(1) by simp_all
    with chat Inr resp [of _ evs r "st\<lparr>rt_world := w\<rparr>"] show ?thesis
      by (auto simp: run_one_turn_def Let_def turn_end_def split: option.splits if_splits)
  qed
qed

lemma loop_crash_status:
  "drive_loop env ctx n turn m evs c st = (Inl e, st') \<Longrightarrow> stored_status st (c_id c) = Some (c_status c) \<Longrightarrow>
   stored_status st' (c_id c) = Some (c_status c)"
proof (induction n arbitrary: turn m evs c st)
  case 0
  then show ?case by (simp add: apfst_def map_prod_def case_prod_unfold)
next
  case (Suc n)
  obtain x st1 where t: "run_one_turn env ctx turn m evs c st = (x, st1)" by fastforce
  note s = turn_status [OF t Suc.prems(2)]
  show ?case
  proof (cases x)
    case (Inl e')
    with Suc.prems s t show ?thesis by (simp add: stored_status_def)
  next
    case (Inr r)
    with Suc.prems(1) t have "tr_outcome r = None" by (cases "tr_outcome r") simp_all
    with Suc.prems(1) t Inr s Suc.IH [of "turn + 1" "tr_tokens r" "tr_events r" "tr_cont r" st1]
    show ?thesis by simp
  qed
qed

lemma step_crash_status:
  assumes "drive_or_step env ctx c st = (Inl e, st')" "stored_status st (c_id c) = Some (c_status c)"
  shows "stored_status st' (c_id c) = Some (c_status c)"
proof (cases "ev_single_step env")
  case False
  with assms loop_crash_status show ?thesis by (auto simp: drive_or_step_def drive_inline_def)
next
  case True
  obtain x st1 where t: "run_one_turn env ctx (c_step c) 0 [] c st = (x, st1)" by fastforce
  from assms(1) True t have "x = Inl e" "st' = st1"
    by (auto simp: drive_or_step_def single_turn_def Let_def apfst_def map_prod_def case_prod_unfold
        split: if_splits sum.splits option.splits)
  with turn_status [OF t assms(2)] assms(2) show ?thesis by (simp add: stored_status_def)
qed

lemma resume_crash_status:
  assumes "cs_ok (rt_conts st)" "resume env ctx rs st = (Inl e, st')"
  shows "stored_status st' (rs_cont rs) \<in> {Some CResuming, Some CRunning}"
proof -
  from assms(2) obtain c where c: "cs_load (rt_conts st) (rs_cont rs) = Some c"
    by (cases "cs_load (rt_conts st) (rs_cont rs)") (simp_all add: resume_def)
  have i: "c_id c = rs_cont rs" using conts.load_key [OF assms(1) c] by simp
  from assms(2) c have sus: "c_status c = CSuspended" by (simp add: resume_def split: if_splits)
  let ?c = "c\<lparr>c_status := CResuming\<rparr>" and ?st = "save_cont env (c\<lparr>c_status := CResuming\<rparr>) st"
  from assms(2) c sus obtain rec where p: "pending_by_id ?c (rs_use_id rs) = Some rec"
    by (cases "pending_by_id ?c (rs_use_id rs)") (simp_all add: resume_def Let_def)
  have settle: "settle_resume env ctx c2 r st2 = (Inl e, st') \<Longrightarrow> c_id c2 = c_id c \<Longrightarrow>
      stored_status st' (rs_cont rs) = Some CRunning" for c2 r st2
  proof -
    assume a: "settle_resume env ctx c2 r st2 = (Inl e, st')" and "c_id c2 = c_id c"
    let ?d = "c2\<lparr>c_messages := shape_tool_results (provider_kind (c_provider c2) (c_model c2)) (c_pending c2) (c_messages c2),
                  c_pending := [], c_suspend_reason := None, c_status := CRunning, c_step := c_step c2 + 1\<rparr>"
    from a have "drive_or_step env ctx ?d (e_transition env ?d ''running'' (save_cont env ?d st2)) = (Inl e, st')"
      by (cases "drive_or_step env ctx ?d (e_transition env ?d ''running'' (save_cont env ?d st2))";
          cases "fst (drive_or_step env ctx ?d (e_transition env ?d ''running'' (save_cont env ?d st2)))")
        (auto simp: settle_resume_def Let_def split: if_splits)
    from step_crash_status [OF this] show ?thesis using \<open>c_id c2 = c_id c\<close> i by (simp add: stored_status_def)
  qed
  show ?thesis
  proof (cases "tc_status rec = TExecuted")
    case True
    with assms(2) c sus p settle [of ?c rec ?st] show ?thesis by (simp add: resume_def Let_def)
  next
    case False
    obtain y st1 where a: "apply_resolution env ctx ?c rec rs ?st = (y, st1)" by fastforce
    show ?thesis
    proof (cases y)
      case (Inr p2)
      obtain c2 r2 where "p2 = (c2, r2)" by fastforce
      with Inr a apply_resolution_effect [of env ctx ?c rec rs ?st c2 r2 st1] have "c_id c2 = c_id c" by simp
      with assms(2) c sus p False a Inr \<open>p2 = (c2, r2)\<close> settle [of c2 r2 st1] show ?thesis by (simp add: resume_def Let_def)
    next
      case (Inl e')
      obtain z st2 where d: "dispatch_authorized env ctx ?c (rec\<lparr>tc_token := rs_token rs\<rparr>) ?st = (z, st2)" by fastforce
      with dispatch_authorized_conts(1) [of env ctx ?c "rec\<lparr>tc_token := rs_token rs\<rparr>" ?st] have "rt_conts st2 = rt_conts ?st"
        by simp
      moreover have "st1 = st2"
        using a Inl d by (auto simp: apply_resolution_def Let_def split: outcome.splits sum.splits)
      ultimately have "stored_status st1 (rs_cont rs) = Some CResuming" using i by (simp add: stored_status_def)
      with assms(2) c sus p False a Inl show ?thesis by (simp add: resume_def Let_def)
    qed
  qed
qed

text \<open>A resume that crashes is never retried with effect: when the slice raised and the worker left the
task for a retry, the retry finds the run no longer suspended, runs nothing, changes nothing of the
run, and closes the ledger row as failed, while the run itself stays in its intermediate status.\<close>

theorem crashed_resume_is_lost:
  assumes "cs_ok (rt_conts (sy_rt s))" and "ri_resolution x = Some rs" and "rs_cont rs = ri_cont x"
    and "try_mark_running (clock env s) (ri_cont x) (wv_id env) (ri_epoch x) (wv_lease env) (sy_ledger s) = (True, l)"
    and "run_task env x (sy_rt s) = (Inl (EscError e), st)"
    and "handle_one env x s = (Inr (Some RunFailed), s1)"
    and "map_of (sy_ledger s1) (ri_cont x) = Some row" and "lw_status row = Retryable"
    and "work_of x' = work_of x"
  shows "sy_rt (snd (handle_one env' x' s1)) = sy_rt s1 \<and>
    fst (handle_one env' x' s1) = Inr (Some RunFailed) \<and>
    map_option lw_status (map_of (sy_ledger (snd (handle_one env' x' s1))) (ri_cont x)) = Some FailedRow \<and>
    stored_status (sy_rt s1) (ri_cont x) \<in> {Some CResuming, Some CRunning}"
proof -
  from assms(9) have x': "ri_cont x' = ri_cont x" "ri_epoch x' = ri_epoch x" "ri_resolution x' = Some rs"
    using assms(2) by (simp_all add: work_of_def)
  obtain ex ctx where t: "task_context env (ri_cont x) = (ex, ctx)" by fastforce
  have "resume ((wv_engine env)\<lparr>ev_executor := ex\<rparr>) ctx rs (sy_rt s) = (Inl (EscError e), st)"
    using assms(2,5) by (simp add: run_task_def t)
  from resume_crash_status [OF assms(1) this] have st: "stored_status st (ri_cont x) \<in> {Some CResuming, Some CRunning}"
    using assms(3) by simp
  from assms(4-6) have s1: "s1 = after_crash env x e (s\<lparr>sy_ledger := l, sy_rt := st\<rparr>)" by (simp add: handle_one_def Let_def)
  then have rt: "sy_rt s1 = st" by (simp add: after_crash_def Let_def case_prod_unfold ack_item_def)
  have ep: "lw_epoch row = ri_epoch x"
  proof -
    obtain r0 where r0: "map_of l (ri_cont x) = Some r0" "lw_epoch r0 = ri_epoch x"
      using claim_row [of "clock env s" "ri_cont x" "wv_id env" "ri_epoch x" "wv_lease env" "sy_ledger s" "ri_cont x"]
        claim_wins_iff [of "clock env s" "ri_cont x" "wv_id env" "ri_epoch x" "wv_lease env" "sy_ledger s"] assms(4) by auto
    obtain alive l2 where m: "mark_retryable (ri_cont x) e (wv_max_crashes env) l = (alive, l2)" by fastforce
    then have "sy_ledger s1 = l2" by (simp add: s1 after_crash_def Let_def)
    with m retry_row [of "ri_cont x" e "wv_max_crashes env" l "ri_cont x"] r0 assms(7) show ?thesis by auto
  qed
  obtain l2 where l2: "try_mark_running (clock env' s1) (ri_cont x) (wv_id env') (ri_epoch x) (wv_lease env') (sy_ledger s1) = (True, l2)"
    "\<exists>r. map_of l2 (ri_cont x) = Some r"
    using assms(7,8) ep by (simp add: try_mark_running_def claimable_def)
  obtain c where c: "cs_load (rt_conts st) (ri_cont x) = Some c" "c_status c \<noteq> CSuspended"
    using st by (cases "cs_load (rt_conts st) (ri_cont x)") (auto simp: stored_status_def)
  obtain ex' ctx' where t': "task_context env' (ri_cont x) = (ex', ctx')" by fastforce
  obtain out where out: "run_task env' x' st = (Inr out, st)" "ro_status out = RunFailed"
    using c assms(3) x' t' by (simp add: run_task_def resume_def)
  show ?thesis
    using l2 out rt st x' by (auto simp: handle_one_def Let_def after_slice_def ledger_status_def)
qed


definition failing_chat :: "demo_world wenv" where
  "failing_chat = (demo_wenv [])\<lparr>wv_engine := (demo_eenv [])\<lparr>ev_chat := (\<lambda>cf ms ts w. (Inl (Raised ''down''), w))\<rparr>\<rparr>"

definition demo_resume_task :: runnable where
  "demo_resume_task = demo_task\<lparr>ri_resolution := Some (demo_resolution ''t1'' Reject)\<rparr>"

definition demo_one_parked :: "demo_world system" where
  "demo_one_parked = demo_system (demo_suspended\<lparr>c_pending := [demo_pending ''t1'' ''r1'']\<rparr>)"

theorem crashed_resume_is_lost_witness:
  "\<exists>s1. handle_one failing_chat demo_resume_task demo_one_parked = (Inr (Some RunFailed), s1) \<and>
     fst (handle_one (demo_wenv []) demo_resume_task s1) = Inr (Some RunFailed) \<and>
     sy_rt (snd (handle_one (demo_wenv []) demo_resume_task s1)) = sy_rt s1"
proof -
  let ?s = demo_one_parked and ?env = failing_chat and ?x = demo_resume_task
  have c: "cs_ok (rt_conts (sy_rt ?s))" "ri_resolution ?x = Some (demo_resolution ''t1'' Reject)"
    "rs_cont (demo_resolution ''t1'' Reject) = ri_cont ?x"
    by (simp_all add: demo_one_parked_def demo_system_def enqueue_runnable_def demo_rt_def cs_load_def demo_suspended_def
        demo_cont_def demo_task_def Let_def touch_def cs_save_def cs_ok_def keyed_def dict_ok_def demo_resume_task_def
        demo_resolution_def)
  have "fst (try_mark_running (clock ?env ?s) (ri_cont ?x) (wv_id ?env) (ri_epoch ?x) (wv_lease ?env) (sy_ledger ?s))"
    by code_simp
  then obtain l where l: "try_mark_running (clock ?env ?s) (ri_cont ?x) (wv_id ?env) (ri_epoch ?x) (wv_lease ?env) (sy_ledger ?s) = (True, l)"
    by (metis prod.collapse)
  have "(case fst (run_task ?env ?x (sy_rt ?s)) of Inl (EscError e) \<Rightarrow> True | _ \<Rightarrow> False)" by code_simp
  then obtain e st where r: "run_task ?env ?x (sy_rt ?s) = (Inl (EscError e), st)"
    by (cases "run_task ?env ?x (sy_rt ?s)") (auto split: sum.splits escape.splits)
  have "fst (handle_one ?env ?x ?s) = Inr (Some RunFailed)" by code_simp
  then obtain s1 where h: "handle_one ?env ?x ?s = (Inr (Some RunFailed), s1)" by (metis prod.collapse)
  have "map_option lw_status (map_of (sy_ledger (snd (handle_one ?env ?x ?s))) ''c1'') = Some Retryable" by code_simp
  then obtain row where row: "map_of (sy_ledger s1) (ri_cont ?x) = Some row" "lw_status row = Retryable"
    using h by (auto simp: demo_resume_task_def demo_task_def)
  from crashed_resume_is_lost [OF c l r h row, of ?x "demo_wenv []"] h show ?thesis by blast
qed

subsection \<open>Approvals\<close>

text \<open>Whatever the permission rules say, a call that carries a live token for it is admitted when the license
and the budget let it through.\<close>

lemma token_admits:
  assumes "ev_kenv eng (rt_world st) = (ke, w)" and "tok \<noteq> []"
    and "fst (cap_authorize mem_load mem_delete (e_now ke) (e_now2 ke) tok (c_pid c) (''tool:'' @ name) ''tool.call'' (k_caps (rt_kernel st)))"
    and "license_ok ke (PStr (c_tenant c))"
    and "d_action (check_budget (k_registry (rt_kernel st)) (k_enforcer (rt_kernel st)) (c_pid c) (Some 0) (k_budgets (rt_kernel st))) = Allow"
  shows "\<exists>d st1. admit_call eng c name inp (Some tok) st = (Inr d, st1) \<and> d_action d = Allow \<and> rt_world st1 = w"
proof -
  let ?args = "admit_args c inp (Some tok)"
  have args: "tenant_arg ?args = PStr (c_tenant c)" "estimate_ok ?args" "estimate ?args = Some 0"
    "arg ?args ''target_namespace'' = PNone" "arg ?args ''capability_token'' = PStr tok"
    using assms(2) by (simp_all add: admit_args_def tenant_arg_def estimate_ok_def estimate_def arg_def dget_default_def)
  have "token_ok ke ?args (c_pid c) (''tool:'' @ name) ''tool.call'' (k_caps (rt_kernel st)) = Inr True"
    using assms(2,3) args(5) by (simp add: token_ok_def token_authorizes_def)
  then have "allowed (fst (run_pipeline (the_stages ke (k_audit (rt_kernel st) \<noteq> None) None)
      (new_syscall ''tool.call'' (c_pid c) name ?args, rt_kernel st)))"
    unfolding run_pipeline_allowed_iff using args assms(4,5) by (simp add: boundary_ok_def)
  then show ?thesis
    by (auto simp: admit_call_def assms(1) kernel_syscall_run allowed_def split: prod.split)
qed



end
