(* ===== verification/Stepping.thy ===== *)
theory Stepping
  imports EngineFacts
begin

text \<open>
  The two ways of driving a run are equivalent: the inline loop of \<open>StepEngine._drive\<close>, and the
  per-turn mode of \<open>StepEngine._step\<close> (one turn per delivery, the worker enqueues the next), which stores
  and reloads the continuation between any two turns.
\<close>

subsection \<open>Writing an entry of the store\<close>

definition put_cont :: "continuation \<Rightarrow> 'w rt \<Rightarrow> 'w rt" where
  "put_cont d st = st\<lparr>rt_conts := (rt_conts st)\<lparr>cs_by_id := dset (c_id d) d (cs_by_id (rt_conts st))\<rparr>\<rparr>"

lemma put_cont_simps [simp]:
  "rt_kernel (put_cont d st) = rt_kernel st" "rt_table (put_cont d st) = rt_table st" "rt_world (put_cont d st) = rt_world st"
  "cs_load (rt_conts (put_cont d st)) i = (if i = c_id d then Some d else cs_load (rt_conts st) i)"
  by (simp_all add: put_cont_def cs_load_def)

lemma put_cont_updates [simp]:
  "(put_cont d st)\<lparr>rt_world := w\<rparr> = put_cont d (st\<lparr>rt_world := w\<rparr>)"
  "(put_cont d st)\<lparr>rt_kernel := k\<rparr> = put_cont d (st\<lparr>rt_kernel := k\<rparr>)"
  "(put_cont d st)\<lparr>rt_table := t\<rparr> = put_cont d (st\<lparr>rt_table := t\<rparr>)"
  by (simp_all add: put_cont_def)

lemma put_put [simp]: "c_id d = c_id e \<Longrightarrow> put_cont d (put_cont e st) = put_cont d st"
  by (simp add: put_cont_def)

lemma put_same: "cs_load (rt_conts st) (c_id d) = Some d \<Longrightarrow> put_cont d st = st"
  by (simp add: put_cont_def cs_load_def AList.update_triv)

lemma save_is_put: "save_cont env c st = put_cont (touch (ev_now env (rt_world st)) c) st"
  by (simp add: save_cont_def put_cont_def cs_save_def)

lemma save_put [simp]: "c_id d = c_id c \<Longrightarrow> save_cont env c (put_cont d st) = save_cont env c st"
  by (simp add: save_is_put)

lemma e_transition_put [simp]: "e_transition env c kind (put_cont d st) = put_cont d (e_transition env c kind st)"
  by (simp add: e_transition_def split: option.split)

subsection \<open>A turn does not look at the stored entry, nor at the time stamp or the step of its continuation\<close>

lemma ticket_put [simp]:
  "commit_ticket t (put_cont d st) = put_cont d (commit_ticket t st)"
  "release_ticket t (put_cont d st) = put_cont d (release_ticket t st)"
  by (simp_all add: commit_ticket_def release_ticket_def Let_def split: option.split)

lemma admit_put [simp]: "admit_call env c n i t (put_cont d st) = apsnd (put_cont d) (admit_call env c n i t st)"
  by (simp add: admit_call_def split: prod.split)

lemma open_suspension_put [simp]: "open_suspension env c r x (put_cont d st) = apsnd (put_cont d) (open_suspension env c r x st)"
  unfolding open_suspension_def Let_def put_cont_simps put_cont_updates by simp

lemma dispatch_put: "dispatch env ctx c r (put_cont d st) = apsnd (put_cont d) (dispatch env ctx c r st)"
proof -
  obtain y st1 where a: "admit_call env c (tc_name r) (tc_args r) (tc_token r) st = (y, st1)" by fastforce
  obtain z w where x: "execute_tool env (tc_name r) (tc_args r) ctx None (rt_world st1) = (z, w)" by fastforce
  show ?thesis
    by (simp add: dispatch_def a x apfst_def apsnd_def case_prod_unfold prod_eq_iff split: sum.split action.split)
qed

lemma dispatch_all_put: "dispatch_all env ctx c rs (put_cont d st) = apsnd (put_cont d) (dispatch_all env ctx c rs st)"
proof (induction rs arbitrary: st)
  case (Cons r rs)
  obtain x st1 where "dispatch env ctx c r st = (x, st1)" by fastforce
  with Cons [of st1] show ?case by (simp add: dispatch_put apfst_def apsnd_def case_prod_unfold prod_eq_iff)
qed simp

lemma admit_updated: "admit_call env (c\<lparr>c_updated := u\<rparr>) = admit_call env c"
  by (simp add: fun_eq_iff admit_call_def admit_args_def)

lemma open_suspension_updated: "open_suspension env (c\<lparr>c_updated := u\<rparr>) = open_suspension env c"
  by (simp add: fun_eq_iff open_suspension_def)

lemma dispatch_updated: "dispatch env ctx (c\<lparr>c_updated := u\<rparr>) r st = dispatch env ctx c r st"
  unfolding dispatch_def admit_updated open_suspension_updated ..

lemma dispatch_all_updated: "dispatch_all env ctx (c\<lparr>c_updated := u\<rparr>) rs st = dispatch_all env ctx c rs st"
  by (induction rs arbitrary: st) (simp_all add: dispatch_updated case_prod_unfold)

lemma save_updated [simp]: "save_cont env (c\<lparr>c_updated := u\<rparr>) st = save_cont env c st"
  by (simp add: save_is_put touch_def)

lemma usage_updated [simp]: "usage_add k n (c\<lparr>c_updated := u\<rparr>) = (usage_add k n c)\<lparr>c_updated := u\<rparr>"
  by (simp add: usage_add_def usage_get_def)

lemma account_put [simp]:
  "account r (c\<lparr>c_updated := u\<rparr>) (put_cont d st) =
     ((fst (account r c st))\<lparr>c_updated := u\<rparr>, put_cont d (snd (account r c st)))"
  by (simp add: account_def)

text \<open>What two outcomes share but for tokens and events, which count from the start of the slice.\<close>

definition erase :: "run_outcome \<Rightarrow> run_outcome" where
  "erase out = out\<lparr>ro_tokens := 0, ro_events := []\<rparr>"

lemma erase_with_events [simp]: "erase (with_events evs out) = erase out"
  by (simp add: erase_def with_events_def)

lemma erase_status [simp]: "ro_status (erase out) = ro_status out"
  by (simp add: erase_def)

lemma complete_put:
  assumes "c_id d = c_id c"
  shows "snd (complete_run env (c\<lparr>c_updated := u\<rparr>) x m (put_cont d st)) = snd (complete_run env c x n st)"
    and "erase (fst (complete_run env (c\<lparr>c_updated := u\<rparr>) x m (put_cont d st))) = erase (fst (complete_run env c x n st))"
  using assms
  by (simp_all add: complete_run_def Let_def save_is_put touch_def final_text_def erase_def with_rollup_def usage_get_def outcome_of_def)

lemma e_transition_updated [simp]: "e_transition env (c\<lparr>c_updated := u\<rparr>) kind st = e_transition env c kind st"
  by (simp add: e_transition_def phase_for_def split: option.split)

lemma fail_put:
  assumes "c_id d = c_id c"
  shows "fail_run env (c\<lparr>c_updated := u\<rparr>) e (put_cont d st) = fail_run env c e st"
proof -
  let ?c = "c\<lparr>c_status := CFailed, c_error := Some e\<rparr>"
  have eq: "(c\<lparr>c_updated := u\<rparr>)\<lparr>c_status := CFailed, c_error := Some e\<rparr> = ?c\<lparr>c_updated := u\<rparr>" by simp
  have "save_cont env ?c (put_cont d st) = save_cont env ?c st" using assms by simp
  then show ?thesis unfolding fail_run_def Let_def eq save_updated e_transition_updated by simp
qed

lemma suspend_put:
  assumes "c_id d = c_id c"
  shows "snd (suspend_run env (c\<lparr>c_updated := u\<rparr>) recs m (put_cont d st)) = snd (suspend_run env c recs n st)"
    and "erase (fst (suspend_run env (c\<lparr>c_updated := u\<rparr>) recs m (put_cont d st))) = erase (fst (suspend_run env c recs n st))"
proof -
  let ?upd = "\<lambda>c why. c\<lparr>c_pending := recs, c_status := CSuspended, c_suspend_reason := why\<rparr>"
  have eq: "?upd (c\<lparr>c_updated := u\<rparr>) why = (?upd c why)\<lparr>c_updated := u\<rparr>" for why by simp
  have sv: "save_cont env (?upd c why) (put_cont d st) = save_cont env (?upd c why) st" for why using assms by simp
  have out: "suspended_outcome (x\<lparr>c_updated := u\<rparr>) = suspended_outcome x" for x by (simp add: suspended_outcome_def)
  have i: "c_id (c\<lparr>c_updated := u\<rparr>) = c_id c" by simp
  show "snd (suspend_run env (c\<lparr>c_updated := u\<rparr>) recs m (put_cont d st)) = snd (suspend_run env c recs n st)"
    unfolding suspend_run_def Let_def eq save_updated e_transition_updated sv i snd_conv ..
  show "erase (fst (suspend_run env (c\<lparr>c_updated := u\<rparr>) recs m (put_cont d st))) = erase (fst (suspend_run env c recs n st))"
    unfolding suspend_run_def Let_def eq out fst_conv by (simp add: erase_def)
qed

text \<open>How a turn of the inline run and the same turn of the stepped run correspond: an exception leaves the
  stored entry as it was, everything else ends in the very same state.\<close>

definition turn_agrees :: "time \<Rightarrow> continuation \<Rightarrow> (escape + turn_result) \<times> 'w rt \<Rightarrow> (escape + turn_result) \<times> 'w rt \<Rightarrow> bool" where
  "turn_agrees u d x y =
     (case fst x of
        Inl e \<Rightarrow> y = (Inl e, put_cont d (snd x))
      | Inr t \<Rightarrow> snd y = snd x \<and> (\<exists>t'. fst y = Inr t' \<and> map_option erase (tr_outcome t') = map_option erase (tr_outcome t) \<and>
          tr_cont t' = (tr_cont t)\<lparr>c_updated := u\<rparr>))"

lemma turn_end_agrees:
  "snd y = snd x \<Longrightarrow> erase (fst y) = erase (fst x) \<Longrightarrow>
   turn_agrees u d (turn_end n evs c x) (turn_end m evs' (c\<lparr>c_updated := u\<rparr>) y)"
  by (simp add: turn_agrees_def turn_end_def)

lemma run_tools_agrees:
  assumes "c_id d = c_id c"
  shows "turn_agrees u d (run_tools env ctx k r n evs c st) (run_tools env ctx k r m evs' (c\<lparr>c_updated := u\<rparr>) (put_cont d st))"
proof -
  define c2 where "c2 = usage_add ''tool_calls'' (int (length (map record_of (lr_calls r))))
    (c\<lparr>c_messages := shape_assistant_turn k r (c_messages c)\<rparr>)"
  have eq: "usage_add ''tool_calls'' (int (length (map record_of (lr_calls r))))
    ((c\<lparr>c_updated := u\<rparr>)\<lparr>c_messages := shape_assistant_turn k r (c_messages (c\<lparr>c_updated := u\<rparr>))\<rparr>) = c2\<lparr>c_updated := u\<rparr>"
    by (simp add: c2_def usage_add_def usage_get_def)
  obtain xs st1 where x: "dispatch_all env ctx c2 (map record_of (lr_calls r)) st = (xs, st1)" by fastforce
  then have y: "dispatch_all env ctx (c2\<lparr>c_updated := u\<rparr>) (map record_of (lr_calls r)) (put_cont d st) = (xs, put_cont d st1)"
    by (simp add: dispatch_all_put dispatch_all_updated)
  define recs where "recs = map2 settle_call (map record_of (lr_calls r)) xs"
  have id: "c_id d = c_id c2" using assms by (simp add: c2_def)
  define c3 where "c3 = c2\<lparr>c_messages := shape_tool_results k recs (c_messages c2)\<rparr>"
  have eq3: "(c2\<lparr>c_updated := u\<rparr>)\<lparr>c_messages := shape_tool_results k recs (c_messages (c2\<lparr>c_updated := u\<rparr>))\<rparr> = c3\<lparr>c_updated := u\<rparr>"
    by (simp add: c3_def)
  have s3: "save_cont env (c3\<lparr>c_updated := u\<rparr>) (put_cont d st1) = save_cont env c3 st1" using id by (simp add: c3_def)
  obtain sigs tab where sig: "check_signals (c_pid c3) (rt_table (save_cont env c3 st1)) = (sigs, tab)" by fastforce
  have p3: "c_pid (c3\<lparr>c_updated := u\<rparr>) = c_pid c3" by simp
  let ?st = "(save_cont env c3 st1)\<lparr>rt_table := tab\<rparr>"
  have "\<exists>w. put_cont w ?st = ?st \<and> c_id w = c_id c3"
    by (rule exI [of _ "touch (ev_now env (rt_world st1)) c3"]) (simp add: save_is_put)
  then obtain w where w: "put_cont w ?st = ?st" "c_id w = c_id c3" by blast
  have comp: "snd (complete_run env (c3\<lparr>c_updated := u\<rparr>) t m' ?st) = snd (complete_run env c3 t n' ?st)"
    "erase (fst (complete_run env (c3\<lparr>c_updated := u\<rparr>) t m' ?st)) = erase (fst (complete_run env c3 t n' ?st))" for t m' n'
    using complete_put [OF w(2), of env u t m' ?st n'] w(1) by simp_all
  show ?thesis
  proof (cases "list_ex (\<lambda>r. tc_status r = TPending) recs")
    case True
    then show ?thesis
      unfolding run_tools_def Let_def c2_def [symmetric] eq x y prod.case recs_def [symmetric]
      by (simp add: turn_end_agrees suspend_put [OF id])
  next
    case False
    then show ?thesis
      unfolding run_tools_def Let_def c2_def [symmetric] eq x y prod.case recs_def [symmetric] c3_def [symmetric] eq3 s3 p3 sig
      by (simp add: turn_end_agrees comp) (simp add: turn_agrees_def)
  qed
qed

lemma run_one_turn_agrees:
  assumes "c_id d = c_id c"
  shows "turn_agrees u d (run_one_turn env ctx turn n evs c st)
    (run_one_turn env ctx turn m evs' (c\<lparr>c_step := s, c_updated := u\<rparr>) (put_cont d st))"
proof -
  let ?c = "c\<lparr>c_step := turn\<rparr>"
  have eq: "(c\<lparr>c_step := s, c_updated := u\<rparr>)\<lparr>c_step := turn\<rparr> = ?c\<lparr>c_updated := u\<rparr>" by simp
  have fields: "config_of (?c\<lparr>c_updated := u\<rparr>) = config_of ?c" "c_messages (?c\<lparr>c_updated := u\<rparr>) = c_messages ?c"
    "tools_of (?c\<lparr>c_updated := u\<rparr>) = tools_of ?c" by (simp_all add: config_of_def tools_of_def)
  obtain x w where chat: "ev_chat env (config_of ?c) (c_messages ?c) (tools_of ?c) (rt_world st) = (x, w)" by fastforce
  have id: "c_id d = c_id ?c" using assms by simp
  have resp: "turn_agrees u d (run_response env ctx n' evs r ?c s1)
      (run_response env ctx m' evs' r (?c\<lparr>c_updated := u\<rparr>) (put_cont d s1))" for n' m' r s1
  proof -
    obtain c1 s2 where a: "account r ?c s1 = (c1, s2)" by fastforce
    with account_conts(4) [of r ?c s1] assms have i: "c_id d = c_id c1" by simp
    have pk: "provider_kind (c_provider (c1\<lparr>c_updated := u\<rparr>)) (c_model (c1\<lparr>c_updated := u\<rparr>)) = provider_kind (c_provider c1) (c_model c1)"
      by simp
    show ?thesis
      unfolding run_response_def account_put a prod.case fst_conv snd_conv pk
      by (simp add: turn_end_agrees complete_put [OF i] run_tools_agrees [OF i])
  qed
  show ?thesis
  proof (cases x)
    case (Inl e)
    with chat show ?thesis
      unfolding run_one_turn_def Let_def eq fields put_cont_simps put_cont_updates by (simp add: turn_agrees_def)
  next
    case (Inr r)
    show ?thesis
      unfolding run_one_turn_def Let_def eq fields put_cont_simps put_cont_updates chat Inr prod.case sum.case
      using resp fail_put [OF id, of env u] by (auto simp: turn_end_agrees split: option.split)
  qed
qed

text \<open>No turn looks at the mode.\<close>

lemma mode_fields:
  "ev_now (env\<lparr>ev_single_step := b\<rparr>) = ev_now env" "ev_kenv (env\<lparr>ev_single_step := b\<rparr>) = ev_kenv env"
  "ev_gateway (env\<lparr>ev_single_step := b\<rparr>) = ev_gateway env" "ev_ref (env\<lparr>ev_single_step := b\<rparr>) = ev_ref env"
  "ev_sdk (env\<lparr>ev_single_step := b\<rparr>) = ev_sdk env" "ev_executor (env\<lparr>ev_single_step := b\<rparr>) = ev_executor env"
  by simp_all

lemma mode_irrelevant [simp]:
  "save_cont (env\<lparr>ev_single_step := b\<rparr>) = save_cont env"
  "e_transition (env\<lparr>ev_single_step := b\<rparr>) = e_transition env"
  "admit_call (env\<lparr>ev_single_step := b\<rparr>) = admit_call env"
  "open_suspension (env\<lparr>ev_single_step := b\<rparr>) = open_suspension env"
  "execute_tool (env\<lparr>ev_single_step := b\<rparr>) = execute_tool env"
  unfolding fun_eq_iff save_cont_def e_transition_def admit_call_def open_suspension_def execute_tool_def mode_fields
  by simp_all

lemma mode_irrelevant_ends [simp]:
  "complete_run (env\<lparr>ev_single_step := b\<rparr>) = complete_run env"
  "fail_run (env\<lparr>ev_single_step := b\<rparr>) = fail_run env"
  "max_turns_reached (env\<lparr>ev_single_step := b\<rparr>) = max_turns_reached env"
  "suspend_run (env\<lparr>ev_single_step := b\<rparr>) = suspend_run env"
  "dispatch (env\<lparr>ev_single_step := b\<rparr>) = dispatch env"
  unfolding fun_eq_iff complete_run_def fail_run_def max_turns_reached_def suspend_run_def dispatch_def mode_irrelevant
  by simp_all

lemma mode_irrelevant_turn [simp]:
  "dispatch_all (env\<lparr>ev_single_step := b\<rparr>) ctx c rs st = dispatch_all env ctx c rs st"
  "run_tools (env\<lparr>ev_single_step := b\<rparr>) ctx k r n evs c st = run_tools env ctx k r n evs c st"
  "run_response (env\<lparr>ev_single_step := b\<rparr>) ctx n evs r c st = run_response env ctx n evs r c st"
  "run_one_turn (env\<lparr>ev_single_step := b\<rparr>) ctx turn n evs c st = run_one_turn env ctx turn n evs c st"
proof -
  show d: "dispatch_all (env\<lparr>ev_single_step := b\<rparr>) ctx c rs st = dispatch_all env ctx c rs st" for c rs st
    by (induction rs arbitrary: st) simp_all
  show t: "run_tools (env\<lparr>ev_single_step := b\<rparr>) ctx k r n evs c st = run_tools env ctx k r n evs c st" for k r n evs c st
    unfolding run_tools_def d mode_irrelevant mode_irrelevant_ends ..
  show r: "run_response (env\<lparr>ev_single_step := b\<rparr>) ctx n evs r c st = run_response env ctx n evs r c st" for n evs r c st
    unfolding run_response_def t mode_irrelevant_ends ..
  have "ev_chat (env\<lparr>ev_single_step := b\<rparr>) = ev_chat env" by simp
  then show "run_one_turn (env\<lparr>ev_single_step := b\<rparr>) ctx turn n evs c st = run_one_turn env ctx turn n evs c st"
    unfolding run_one_turn_def r mode_irrelevant_ends by simp
qed

subsection \<open>Between two turns\<close>

text \<open>A process that runs: forcing it to run again changes nothing in the table.\<close>

definition table_settled :: "string \<Rightarrow> ptable option \<Rightarrow> bool" where
  "table_settled k table = (case table of None \<Rightarrow> True
     | Some t \<Rightarrow> (case map_of (processes t) k of None \<Rightarrow> True | Some p \<Rightarrow> phase_of p = Running))"

lemma settled_transition:
  assumes "table_settled (c_pid c) (rt_table st)"
  shows "e_transition env c ''running'' st = st"
proof (cases "rt_table st")
  case (Some t)
  have "snd (pt_transition now (c_pid c) Running why True True t) = t" for now why
  proof (cases "map_of (processes t) (c_pid c)")
    case None
    then show ?thesis by (simp add: pt_transition_def)
  next
    case (Some p)
    with assms \<open>rt_table st = Some t\<close> have "phase_of p = Running" by (simp add: table_settled_def)
    then show ?thesis
      by (simp add: pt_transition_def Some proc_transition_def mirror_status_def mirror_phases_def cascade_phases_def
          AList.update_triv split: option.split)
  qed
  then show ?thesis using Some by (simp add: e_transition_def phase_for_def)
qed (simp add: e_transition_def)

lemma transition_settles: "table_settled (c_pid c) (rt_table (e_transition env c ''running'' st))"
proof (cases "rt_table st")
  case (Some t)
  show ?thesis
  proof (cases "map_of (processes t) (c_pid c)")
    case None
    then show ?thesis using Some by (simp add: e_transition_def phase_for_def table_settled_def pt_transition_def)
  next
    case (Some p)
    have m: "processes (mirror_status q t') = processes t'" for q t'
      by (simp add: mirror_status_def split: option.split)
    show ?thesis using Some \<open>rt_table st = Some t\<close>
      by (simp add: e_transition_def phase_for_def table_settled_def pt_transition_def cascade_phases_def
          proc_transition_def m case_prod_unfold Let_def)
  qed
qed (simp add: e_transition_def table_settled_def)

lemma usage_settled: "table_settled k t \<Longrightarrow> table_settled k (map_option (record_usage k' a b d e f) t)"
  by (auto simp: table_settled_def record_usage_def split: option.splits)

lemma signals_settled: "table_settled k t \<Longrightarrow> table_settled k (snd (check_signals k' t))"
proof -
  have step: "table_settled k (Some (clear_signal k' s x))" if "table_settled k (Some x)" for s x
    using that by (auto simp: table_settled_def clear_signal_def split: option.splits)
  have "table_settled k (Some (fold (clear_signal k') ss x))" if "table_settled k (Some x)" for ss x
    using that by (induction ss arbitrary: x) (simp_all add: step)
  moreover assume "table_settled k t"
  ultimately show ?thesis by (cases t) (auto simp: check_signals_def split: option.split)
qed

text \<open>A turn that leaves the run unfinished: the store holds its continuation, which runs on.\<close>

definition goes_on :: "'w eenv \<Rightarrow> continuation \<Rightarrow> continuation \<Rightarrow> 'w rt \<Rightarrow> bool" where
  "goes_on env c c' st \<longleftrightarrow> c_id c' = c_id c \<and> c_pid c' = c_pid c \<and> c_status c' = c_status c \<and>
     c_max_turns c' = c_max_turns c \<and> cs_load (rt_conts st) (c_id c) = Some (touch (ev_now env (rt_world st)) c') \<and>
     table_settled (c_pid c) (rt_table st)"

lemma run_tools_goes_on:
  assumes "run_tools env ctx k r n evs c st = (Inr t, st')" and "tr_outcome t = None" and "table_settled (c_pid c) (rt_table st)"
  shows "goes_on env c (tr_cont t) st'"
proof -
  define c2 where "c2 = usage_add ''tool_calls'' (int (length (map record_of (lr_calls r))))
    (c\<lparr>c_messages := shape_assistant_turn k r (c_messages c)\<rparr>)"
  obtain xs st1 where x: "dispatch_all env ctx c2 (map record_of (lr_calls r)) st = (xs, st1)" by fastforce
  define recs where "recs = map2 settle_call (map record_of (lr_calls r)) xs"
  define c3 where "c3 = c2\<lparr>c_messages := shape_tool_results k recs (c_messages c2)\<rparr>"
  have tab: "rt_table st1 = rt_table st" using dispatch_all_conts(2) [of env ctx c2 "map record_of (lr_calls r)" st] x by simp
  obtain sigs tb where sig: "check_signals (c_pid c3) (rt_table (save_cont env c3 st1)) = (sigs, tb)" by fastforce
  have c3: "c_id c3 = c_id c" "c_pid c3 = c_pid c" "c_status c3 = c_status c" "c_max_turns c3 = c_max_turns c"
    by (simp_all add: c3_def c2_def)
  from assms(1,2) have "tr_cont t = c3" "st' = (save_cont env c3 st1)\<lparr>rt_table := tb\<rparr>"
    unfolding run_tools_def Let_def c2_def [symmetric] x prod.case recs_def [symmetric] c3_def [symmetric] sig
    by (auto simp: turn_end_def split: if_splits)
  moreover from signals_settled [OF assms(3), of "c_pid c3"] sig tab have "table_settled (c_pid c) tb" by simp
  ultimately show ?thesis using c3 by (simp add: goes_on_def)
qed

lemma run_one_turn_goes_on:
  assumes "run_one_turn env ctx turn n evs c st = (Inr t, st')" and "tr_outcome t = None" and "table_settled (c_pid c) (rt_table st)"
  shows "goes_on env c (tr_cont t) st'"
proof -
  let ?c = "c\<lparr>c_step := turn\<rparr>"
  obtain x w where chat: "ev_chat env (config_of ?c) (c_messages ?c) (tools_of ?c) (rt_world st) = (x, w)" by fastforce
  have resp: "goes_on env c (tr_cont t) st'"
    if "run_response env ctx n' evs r ?c (st\<lparr>rt_world := w\<rparr>) = (Inr t, st')" for n' r
  proof -
    obtain c1 s1 where a: "account r ?c (st\<lparr>rt_world := w\<rparr>) = (c1, s1)" by fastforce
    with account_conts [of r ?c "st\<lparr>rt_world := w\<rparr>"] have c1: "c_id c1 = c_id c" "c_pid c1 = c_pid c"
      "c_status c1 = c_status c" "c_max_turns c1 = c_max_turns c" by simp_all
    have s1: "table_settled (c_pid c1) (rt_table s1)"
      using a assms(3) c1(2) by (auto simp: account_def usage_settled)
    from that assms(2) have "run_tools env ctx (provider_kind (c_provider c1) (c_model c1)) r n' evs c1 s1 = (Inr t, st')"
      unfolding run_response_def a prod.case by (auto simp: turn_end_def split: if_splits)
    from run_tools_goes_on [OF this assms(2) s1] c1 show ?thesis by (simp add: goes_on_def)
  qed
  show ?thesis
  proof (cases x)
    case (Inl e)
    from assms(1) show ?thesis unfolding run_one_turn_def Let_def chat Inl prod.case sum.case by simp
  next
    case (Inr r)
    from assms(1,2) resp show ?thesis
      unfolding run_one_turn_def Let_def chat Inr prod.case sum.case
      by (auto simp: turn_end_def split: option.splits if_splits)
  qed
qed

subsection \<open>The two modes\<close>

text \<open>Deliveries of the same run, one after the other, as long as the engine asks for the next turn:
  at most \<open>n\<close> more after the first.\<close>

primrec stepwise :: "'w eenv \<Rightarrow> details \<Rightarrow> string \<Rightarrow> nat \<Rightarrow> 'w rt \<Rightarrow> 'w result" where
  "stepwise env ctx i 0 st = drive env ctx i st"
| "stepwise env ctx i (Suc n) st =
     (case drive env ctx i st of
        (Inl e, st1) \<Rightarrow> (Inl e, st1)
      | (Inr out, st1) \<Rightarrow> if ro_status out = Continue then stepwise env ctx i n st1 else (Inr out, st1))"

text \<open>The state but for the step counter of the run.\<close>

definition forget_step :: "string \<Rightarrow> 'w rt \<Rightarrow> 'w rt" where
  "forget_step i st = st\<lparr>rt_conts := (rt_conts st)\<lparr>cs_by_id := dmod i (\<lambda>c. c\<lparr>c_step := 0\<rparr>) (cs_by_id (rt_conts st))\<rparr>\<rparr>"

definition same_slice :: "string \<Rightarrow> 'w result \<Rightarrow> 'w result \<Rightarrow> bool" where
  "same_slice i x y \<longleftrightarrow> map_sum id erase (fst y) = map_sum id erase (fst x) \<and> forget_step i (snd y) = forget_step i (snd x)"

lemma dmod_dset: "dmod k f (dset k v d) = dset k (f v) d"
  by (simp add: dmod_def)

lemma forget_put:
  assumes "c_id d = i" and "cs_load (rt_conts st) i = Some e" and "d\<lparr>c_step := 0\<rparr> = e\<lparr>c_step := 0\<rparr>"
  shows "forget_step i (put_cont d st) = forget_step i st"
proof -
  have "dmod i (\<lambda>c. c\<lparr>c_step := 0\<rparr>) (dset i d D) = dmod i (\<lambda>c. c\<lparr>c_step := 0\<rparr>) D" if "map_of D i = Some e" for D
    using that assms(3) by (simp add: dmod_dset) (simp add: dmod_def)
  with assms(1,2) show ?thesis by (simp add: forget_step_def put_cont_def cs_load_def)
qed

lemma forget_put_put:
  assumes "c_id d = i" and "c_id e = i" and "d\<lparr>c_step := 0\<rparr> = e\<lparr>c_step := 0\<rparr>"
  shows "forget_step i (put_cont d st) = forget_step i (put_cont e st)"
  using assms by (simp add: forget_step_def put_cont_def dmod_dset)

text \<open>The end of a run at its turn limit, with and without the counter moved on.\<close>

lemma max_turns_same:
  assumes "c' = c\<lparr>c_step := s, c_updated := u\<rparr>" and "c_id c = i" and "c_id d = i"
  shows "same_slice i (apfst Inr (max_turns_reached env c n st)) (apfst Inr (max_turns_reached env c' m (put_cont d st)))"
proof -
  let ?c = "c\<lparr>c_status := CDone, c_output := ''[max tool turns reached]''\<rparr>"
  have c': "c'\<lparr>c_status := CDone, c_output := ''[max tool turns reached]''\<rparr> = ?c\<lparr>c_step := s, c_updated := u\<rparr>"
    by (simp add: assms(1))
  have "erase (with_rollup (?c\<lparr>c_step := s, c_updated := u\<rparr>) (out\<lparr>ro_tokens := m\<rparr>)) = erase (with_rollup ?c (out\<lparr>ro_tokens := n\<rparr>))" for out
    by (simp add: erase_def with_rollup_def usage_get_def)
  moreover have "forget_step i (save_cont env (?c\<lparr>c_step := s, c_updated := u\<rparr>) (put_cont d st)) = forget_step i (save_cont env ?c st)"
    using assms(2,3) by (simp add: save_is_put touch_def forget_put_put)
  ultimately show ?thesis
    unfolding same_slice_def max_turns_reached_def Let_def c' using assms(2) by (simp add: assms(1))
qed

definition continue_with :: "'w eenv \<Rightarrow> details \<Rightarrow> string \<Rightarrow> nat \<Rightarrow> 'w result \<Rightarrow> 'w result" where
  "continue_with env ctx i m x =
     (case x of
        (Inl e, st) \<Rightarrow> (Inl e, st)
      | (Inr out, st) \<Rightarrow> if ro_status out = Continue then (case m of 0 \<Rightarrow> (Inr out, st) | Suc k \<Rightarrow> stepwise env ctx i k st)
                        else (Inr out, st))"

lemma stepwise_unfold: "stepwise env ctx i m st = continue_with env ctx i m (drive env ctx i st)"
  by (cases m) (simp_all add: continue_with_def split: prod.split sum.split)

lemma escape_conts:
  "run_one_turn env ctx turn n evs c st = (Inl e, st') \<Longrightarrow> rt_conts st' = rt_conts st"
  by (auto simp: run_one_turn_def run_response_def run_tools_def turn_end_def Let_def case_prod_unfold
      split: prod.splits sum.splits option.splits if_splits)

lemma drive_running:
  assumes "cs_load (rt_conts st) i = Some c" and "c_status c = CRunning" and "c_id c = i"
    and "c_updated c = ev_now env (rt_world st)" and "table_settled (c_pid c) (rt_table st)"
  shows "drive env ctx i st = drive_or_step env ctx c st"
proof -
  have run: "c\<lparr>c_status := CRunning\<rparr> = c" using assms(2) by simp
  have "touch (ev_now env (rt_world st)) c = c" using assms(4) [symmetric] by (simp add: touch_def)
  then have "save_cont env c st = st" using assms(1,3) by (simp add: save_is_put put_same)
  then show ?thesis using assms settled_transition [of c st env] by (simp add: drive_def Let_def run)
qed

lemma loop_stepwise:
  assumes "n = c_max_turns c - turn" and "n \<le> m" and "c_status c = CRunning" and "c_id c = i" and "c_id d = i"
    and "cs_load (rt_conts st) i = Some e" and "d\<lparr>c_step := 0\<rparr> = e\<lparr>c_step := 0\<rparr>" and "table_settled (c_pid c) (rt_table st)"
    and env': "env' = env\<lparr>ev_single_step := True\<rparr>"
  shows "same_slice i (drive_loop env ctx n turn tok evs c st)
    (continue_with env' ctx i m (single_turn env' ctx (c\<lparr>c_step := turn, c_updated := u\<rparr>) (put_cont d st)))"
  using assms(1-8)
proof (induction n arbitrary: turn tok evs c st d e u m)
  case 0
  let ?c = "c\<lparr>c_step := turn, c_updated := u\<rparr>"
  have "single_turn env' ctx ?c (put_cont d st) = apfst Inr (max_turns_reached env ?c 0 (put_cont d st))"
    using "0.prems"(1) by (simp add: single_turn_def env')
  moreover have "continue_with env' ctx i m (apfst Inr (max_turns_reached env x k s)) = apfst Inr (max_turns_reached env x k s)" for x k s
    by (simp add: continue_with_def max_turns_reached_def Let_def)
  ultimately show ?case using max_turns_same [of ?c u turn c i d env tok st 0] "0.prems" by simp
next
  case (Suc n)
  let ?c = "c\<lparr>c_step := turn, c_updated := u\<rparr>"
  have lt: "\<not> c_max_turns c \<le> turn" using Suc.prems(1) by simp
  obtain x st1 where x: "run_one_turn env ctx turn tok evs c st = (x, st1)" by fastforce
  obtain y st2 where y: "run_one_turn env' ctx turn 0 [] ?c (put_cont d st) = (y, st2)" by fastforce
  have ag: "turn_agrees u d (x, st1) (y, st2)"
    using run_one_turn_agrees [of d c u env ctx turn tok evs st 0 "[]" turn] Suc.prems(4,5) x y by (simp add: env')
  have single: "single_turn env' ctx ?c (put_cont d st) = (case (y, st2) of (Inl e, s) \<Rightarrow> (Inl e, s)
      | (Inr t, s) \<Rightarrow> (case tr_outcome t of
           Some out \<Rightarrow> (Inr (with_events (tr_events t) out), s)
         | None \<Rightarrow>
           (let c1 = (tr_cont t)\<lparr>c_step := turn + 1, c_status := CRunning\<rparr>; s2 = save_cont env c1 s
            in if c_max_turns c1 \<le> turn + 1 then apfst Inr (max_turns_reached env c1 (tr_tokens t) s2)
               else (Inr ((outcome_of Continue (c_id c1))\<lparr>ro_tokens := tr_tokens t\<rparr>), s2))))"
    using lt y unfolding single_turn_def env' mode_irrelevant mode_irrelevant_ends Let_def by (simp split: sum.split option.split)
  show ?case
  proof (cases x)
    case (Inl ex)
    with ag have "y = Inl ex" "st2 = put_cont d st1" by (simp_all add: turn_agrees_def)
    moreover have "cs_load (rt_conts st1) i = Some e" using escape_conts x Inl Suc.prems(6) by metis
    ultimately show ?thesis
      using x Inl single forget_put [OF Suc.prems(5) _ Suc.prems(7), of st1] by (simp add: continue_with_def same_slice_def)
  next
    case (Inr t)
    with ag obtain t' where t': "y = Inr t'" "st2 = st1" "map_option erase (tr_outcome t') = map_option erase (tr_outcome t)"
      "tr_cont t' = (tr_cont t)\<lparr>c_updated := u\<rparr>" by (auto simp: turn_agrees_def)
    show ?thesis
    proof (cases "tr_outcome t")
      case (Some out)
      with t'(3) obtain out' where out': "tr_outcome t' = Some out'" "erase out' = erase out" by auto
      from run_one_turn_ok [of c env ctx turn tok evs st] x Inr Some
      have "ro_status out \<noteq> Continue" by (auto simp: turn_ok_def)
      moreover from out'(2) have "ro_status out' = ro_status out" by (metis erase_status)
      ultimately show ?thesis using x Inr single t' out' Some by (simp add: continue_with_def same_slice_def)
    next
      case None
      with t'(3) have none: "tr_outcome t' = None" by simp
      have go: "goes_on env c (tr_cont t) st1"
        by (rule run_one_turn_goes_on [OF _ None Suc.prems(8)]) (use x Inr in simp)
      let ?now = "ev_now env (rt_world st1)"
      define c1 where "c1 = (tr_cont t')\<lparr>c_step := turn + 1, c_status := CRunning\<rparr>"
      have run: "c_status (tr_cont t) = CRunning" "c_id (tr_cont t) = i" "c_max_turns (tr_cont t) = c_max_turns c"
        "c_pid (tr_cont t) = c_pid c" "cs_load (rt_conts st1) i = Some (touch ?now (tr_cont t))"
        "table_settled (c_pid (tr_cont t)) (rt_table st1)"
        using go Suc.prems(3,4) by (auto simp: goes_on_def)
      have c1: "c1 = (tr_cont t)\<lparr>c_step := turn + 1, c_updated := u\<rparr>" using t'(4) run(1) by (simp add: c1_def)
      let ?d = "touch ?now c1"
      have d: "?d = (tr_cont t)\<lparr>c_step := turn + 1, c_updated := ?now\<rparr>" "c_id ?d = i"
        using run(2) by (simp_all add: c1 touch_def)
      have sv: "save_cont env c1 st1 = put_cont ?d st1" by (simp add: save_is_put)
      have loop: "drive_loop env ctx (Suc n) turn tok evs c st
          = drive_loop env ctx n (turn + 1) (tr_tokens t) (tr_events t) (tr_cont t) st1"
        using x Inr None by simp
      have mx: "c_max_turns c1 = c_max_turns c" using run(3) by (simp add: c1)
      have sg: "single_turn env' ctx ?c (put_cont d st) =
          (if c_max_turns c \<le> turn + 1 then apfst Inr (max_turns_reached env c1 (tr_tokens t') (put_cont ?d st1))
           else (Inr ((outcome_of Continue (c_id c1))\<lparr>ro_tokens := tr_tokens t'\<rparr>), put_cont ?d st1))"
        unfolding single t'(1,2) prod.case sum.case none option.case Let_def c1_def [symmetric] sv mx ..
      show ?thesis
      proof (cases "c_max_turns c \<le> turn + 1")
        case True
        with Suc.prems(1) have "n = 0" by simp
        moreover have "single_turn env' ctx ?c (put_cont d st) = apfst Inr (max_turns_reached env c1 (tr_tokens t') (put_cont ?d st1))"
          using sg True by simp
        moreover have "continue_with env' ctx i m (apfst Inr (max_turns_reached env x k s)) = apfst Inr (max_turns_reached env x k s)" for x k s
          by (simp add: continue_with_def max_turns_reached_def Let_def)
        ultimately show ?thesis
          using loop max_turns_same [OF c1 run(2) d(2), of env "tr_tokens t" st1 "tr_tokens t'"] by simp
      next
        case False
        from Suc.prems(2) obtain k where m: "m = Suc k" "n \<le> k" by (cases m) auto
        have "single_turn env' ctx ?c (put_cont d st) = (Inr ((outcome_of Continue (c_id c1))\<lparr>ro_tokens := tr_tokens t'\<rparr>), put_cont ?d st1)"
          using sg False by simp
        then have "continue_with env' ctx i m (single_turn env' ctx ?c (put_cont d st)) = stepwise env' ctx i k (put_cont ?d st1)"
          by (simp add: continue_with_def m)
        also have "\<dots> = continue_with env' ctx i k (drive env' ctx i (put_cont ?d st1))" by (rule stepwise_unfold)
        also have "drive env' ctx i (put_cont ?d st1) = drive_or_step env' ctx ?d (put_cont ?d st1)"
          by (rule drive_running) (use d run in \<open>simp_all add: env'\<close>)
        also have "\<dots> = single_turn env' ctx ?d (put_cont ?d st1)" by (simp add: drive_or_step_def env')
        finally have eq: "continue_with env' ctx i m (single_turn env' ctx ?c (put_cont d st)) =
          continue_with env' ctx i k (single_turn env' ctx ?d (put_cont ?d st1))" .
        have "same_slice i (drive_loop env ctx n (turn + 1) (tr_tokens t) (tr_events t) (tr_cont t) st1)
          (continue_with env' ctx i k (single_turn env' ctx ((tr_cont t)\<lparr>c_step := turn + 1, c_updated := ?now\<rparr>) (put_cont ?d st1)))"
          by (rule Suc.IH [OF _ m(2) run(1,2) d(2) run(5) _ run(6)])
            (use Suc.prems(1) run(3) in simp, simp add: c1 touch_def)
        then show ?thesis unfolding loop eq d(1) [symmetric] .
      qed
    qed
  qed
qed

text \<open>C2. Driving a run in one go, or turn by turn with the continuation stored and reloaded in between, is the
  same: the same final outcome or the same exception, the same effects on the world, the
  kernel, the process table and every stored run, but for the token and event counts of the last slice
  and the step counter.  As many deliveries as there are turns left are enough.\<close>

theorem stepwise_equals_inline:
  assumes "cs_ok (rt_conts st)" and "\<not> ev_single_step env"
    and "\<And>c. cs_load (rt_conts st) i = Some c \<Longrightarrow> c_max_turns c - c_step c \<le> m"
  shows "same_slice i (drive env ctx i st) (stepwise (env\<lparr>ev_single_step := True\<rparr>) ctx i m st)"
proof -
  let ?env = "env\<lparr>ev_single_step := True\<rparr>"
  have stop: "same_slice i x (continue_with ?env ctx i m x)" if "\<And>out. fst x = Inr out \<Longrightarrow> ro_status out \<noteq> Continue" for x
    using that by (cases x; cases "fst x") (simp_all add: continue_with_def same_slice_def)
  show ?thesis
  proof (cases "cs_load (rt_conts st) i")
    case None
    then have "drive ?env ctx i st = drive env ctx i st" by (simp add: drive_def)
    with None show ?thesis unfolding stepwise_unfold by (auto simp: drive_def intro!: stop)
  next
    case (Some c)
    from conts.load_key [OF assms(1) Some] have i: "c_id c = i" .
    show ?thesis
    proof (cases "c_status c \<in> {CDone, CFailed, CSuspended}")
      case True
      with Some have "drive ?env ctx i st = drive env ctx i st" by (auto simp: drive_def)
      moreover from Some True have "ro_status out \<noteq> Continue" if "fst (drive env ctx i st) = Inr out" for out
        using that by (auto simp: drive_def split: if_splits)
      ultimately show ?thesis unfolding stepwise_unfold by (auto intro!: stop)
    next
      case False
      let ?c = "c\<lparr>c_status := CRunning\<rparr>"
      let ?st = "e_transition env ?c ''running'' (save_cont env ?c st)"
      let ?e = "touch (ev_now env (rt_world st)) ?c"
      have "drive env ctx i st = drive_or_step env ctx ?c ?st" "drive ?env ctx i st = drive_or_step ?env ctx ?c ?st"
        using Some False by (simp_all add: drive_def Let_def)
      moreover have "same_slice i (drive_loop env ctx (c_max_turns ?c - c_step ?c) (c_step ?c) 0 [] ?c ?st)
        (continue_with ?env ctx i m (single_turn ?env ctx (?c\<lparr>c_step := c_step ?c, c_updated := c_updated ?c\<rparr>) (put_cont ?e ?st)))"
        by (rule loop_stepwise [where e = ?e]) (use i assms(3) [OF Some] transition_settles [of ?c env] in simp_all)
      moreover have "put_cont ?e ?st = ?st" by (rule put_same) (simp add: i)
      ultimately show ?thesis
        unfolding stepwise_unfold using assms(2) by (simp add: drive_or_step_def drive_inline_def)
    qed
  qed
qed

text \<open>A run of two turns, the first with a tool call: stepping takes a second delivery.\<close>

lemma stepwise_equals_inline_witness:
  "same_slice ''c1'' (drive (demo_eenv [''read_logs'']) [] ''c1'' (demo_rt [demo_cont ''c1'']))
     (stepwise ((demo_eenv [''read_logs''])\<lparr>ev_single_step := True\<rparr>) [] ''c1'' 25 (demo_rt [demo_cont ''c1''])) \<and>
   map_sum (\<lambda>_. ()) ro_status (fst (drive (demo_eenv [''read_logs'']) [] ''c1'' (demo_rt [demo_cont ''c1'']))) = Inr Done \<and>
   map_sum (\<lambda>_. ()) ro_status (fst (drive ((demo_eenv [''read_logs''])\<lparr>ev_single_step := True\<rparr>) [] ''c1'' (demo_rt [demo_cont ''c1''])))
     = Inr Continue"
proof -
  let ?st = "demo_rt [demo_cont ''c1'']" and ?env = "demo_eenv [''read_logs'']"
  have ok: "cs_ok (rt_conts ?st)" by (simp add: demo_rt_def cs_ok_def keyed_def dict_ok_def demo_cont_def)
  have mode: "\<not> ev_single_step ?env" by code_simp
  have left: "c_max_turns c - c_step c \<le> 25" if "cs_load (rt_conts ?st) ''c1'' = Some c" for c
    using that by (auto simp: demo_rt_def cs_load_def demo_cont_def)
  have "map_sum (\<lambda>_. ()) ro_status (fst (drive ?env [] ''c1'' ?st)) = Inr Done"
    and "map_sum (\<lambda>_. ()) ro_status (fst (drive (?env\<lparr>ev_single_step := True\<rparr>) [] ''c1'' ?st)) = Inr Continue" by code_simp+
  with stepwise_equals_inline [OF ok mode left] show ?thesis by blast
qed

end
