(* ===== verification/TaskQueue.thy ===== *)
theory TaskQueue
  imports Capabilities Pyrt
begin

text \<open>
  The task queue for asynchronous agent-to-agent jobs (\<open>src/src/platform/task_queue.py\<close>), in memory:
  submission, polling, claims, results, failures with their attempt budget, and the clean-up.  The
  clock and the job id are arguments; a deadline is a timestamp as \<open>datetime.fromisoformat\<close> reads it,
  and one without a zone counts as UTC.
\<close>

datatype job_status = JPending | JRunning | JCompleted | JFailed | JTimeout

record job =
  jb_id :: string
  jb_caller :: string
  jb_ns :: string
  jb_name :: string
  jb_callee :: "string option"
  jb_task :: string
  jb_context :: "(string \<times> pyval) list"
  jb_status :: job_status
  jb_result :: "string option"
  jb_error :: "string option"
  jb_submitted :: time
  jb_started :: "time option"
  jb_completed :: "time option"
  jb_deadline :: "stamp option"
  jb_attempts :: nat
  jb_max :: nat

definition job_terminal :: "job \<Rightarrow> bool" where
  "job_terminal j = (jb_status j \<in> {JCompleted, JFailed, JTimeout})"

definition job_expired :: "time \<Rightarrow> job \<Rightarrow> bool" where
  "job_expired now j =
     (case jb_deadline j of
        None \<Rightarrow> False
      | Some (Unparsable s) \<Rightarrow> False
      | Some (Naive e) \<Rightarrow> e \<le> now
      | Some (Aware e) \<Rightarrow> e \<le> now)"

type_synonym job_queue = "(string, job) dict"

text \<open>\<open>submit\<close>; the attempt budget is the default of the class.\<close>

definition default_max_attempts :: nat where
  "default_max_attempts = 3"

definition submit_job :: "time \<Rightarrow> string \<Rightarrow> string \<Rightarrow> string \<Rightarrow> string \<Rightarrow> string \<Rightarrow> (string \<times> pyval) list \<Rightarrow> rat \<Rightarrow>
    job_queue \<Rightarrow> string \<times> job_queue" where
  "submit_job now fresh caller ns nm task ctx timeout q =
     (fresh, dset fresh \<lparr>jb_id = fresh, jb_caller = caller, jb_ns = ns, jb_name = nm, jb_callee = None, jb_task = task,
        jb_context = ctx, jb_status = JPending, jb_result = None, jb_error = None, jb_submitted = now, jb_started = None,
        jb_completed = None, jb_deadline = Some (Aware (now + half_even (1000000 * timeout))), jb_attempts = 0,
        jb_max = default_max_attempts\<rparr> q)"

definition get_job :: "time \<Rightarrow> string \<Rightarrow> job_queue \<Rightarrow> job option \<times> job_queue" where
  "get_job now i q =
     (let q' = dmod i (\<lambda>j. if \<not> job_terminal j \<and> job_expired now j
          then j\<lparr>jb_status := JTimeout, jb_completed := Some now, jb_error := Some ''Task deadline exceeded''\<rparr> else j) q
      in (map_of q' i, q'))"

text \<open>A poll marks the expired jobs it meets, and returns the others.\<close>

definition lapse :: "time \<Rightarrow> (job \<Rightarrow> bool) \<Rightarrow> job \<Rightarrow> job" where
  "lapse now P j = (if jb_status j = JPending \<and> P j \<and> job_expired now j
     then j\<lparr>jb_status := JTimeout, jb_completed := Some now\<rparr> else j)"

definition pending_jobs :: "time \<Rightarrow> (job \<Rightarrow> bool) \<Rightarrow> job_queue \<Rightarrow> job list \<times> job_queue" where
  "pending_jobs now P q =
     (let q' = dmap (lapse now P) q in (filter (\<lambda>j. jb_status j = JPending \<and> P j) (dvals q'), q'))"

definition get_pending :: "time \<Rightarrow> string \<Rightarrow> job_queue \<Rightarrow> job list \<times> job_queue" where
  "get_pending now callee q = pending_jobs now (\<lambda>j. jb_callee j = Some callee) q"

definition get_pending_by_name :: "time \<Rightarrow> string \<Rightarrow> string \<Rightarrow> job_queue \<Rightarrow> job list \<times> job_queue" where
  "get_pending_by_name now ns nm q = pending_jobs now (\<lambda>j. jb_ns j = ns \<and> jb_name j = nm) q"

definition claim_job :: "time \<Rightarrow> string \<Rightarrow> job_queue \<Rightarrow> job option \<times> job_queue" where
  "claim_job now i q =
     (case map_of q i of
        None \<Rightarrow> (None, q)
      | Some j \<Rightarrow>
        if jb_status j \<noteq> JPending then (None, q)
        else (let j' = j\<lparr>jb_status := JRunning, jb_started := Some now, jb_attempts := jb_attempts j + 1\<rparr>
              in (Some j', dset i j' q)))"

definition submit_result :: "time \<Rightarrow> string \<Rightarrow> string \<Rightarrow> job_queue \<Rightarrow> job_queue" where
  "submit_result now i res q = dmod i (\<lambda>j. j\<lparr>jb_status := JCompleted, jb_result := Some res, jb_completed := Some now\<rparr>) q"

definition mark_failed :: "time \<Rightarrow> string \<Rightarrow> string \<Rightarrow> job_queue \<Rightarrow> job_queue" where
  "mark_failed now i err q = dmod i (\<lambda>j.
     let j1 = j\<lparr>jb_attempts := jb_attempts j + 1\<rparr>
     in if jb_max j1 \<le> jb_attempts j1
        then j1\<lparr>jb_status := JFailed, jb_error := Some err, jb_completed := Some now\<rparr>
        else j1\<lparr>jb_status := JPending, jb_error := Some err\<rparr>) q"

definition cleanup_stale :: "time \<Rightarrow> int \<Rightarrow> job_queue \<Rightarrow> nat \<times> job_queue" where
  "cleanup_stale now max_age q =
     (let stale = filter (\<lambda>(i, j). job_terminal j \<and> (case jb_completed j of None \<Rightarrow> False | Some t \<Rightarrow> t < now - 1000000 * max_age)) q
      in (length stale, fold (\<lambda>(i, j). dpop i) stale q))"

definition list_jobs :: "job_status option \<Rightarrow> job_queue \<Rightarrow> job list" where
  "list_jobs st q = (case st of None \<Rightarrow> dvals q | Some s \<Rightarrow> filter (\<lambda>j. jb_status j = s) (dvals q))"

fun job_status_value :: "job_status \<Rightarrow> string" where
  "job_status_value JPending = ''pending''"
| "job_status_value JRunning = ''running''"
| "job_status_value JCompleted = ''completed''"
| "job_status_value JFailed = ''failed''"
| "job_status_value JTimeout = ''timeout''"

definition job_summary :: "job_queue \<Rightarrow> (string, nat) dict" where
  "job_summary q = map (\<lambda>s. (job_status_value s, length (list_jobs (Some s) q)))
     [JPending, JRunning, JCompleted, JFailed, JTimeout] @ [(''total'', length q)]"

subsection \<open>Histories\<close>

datatype job_op = JSubmit time string string string string string "(string \<times> pyval) list" rat | JGet time string
  | JPoll time string | JPollName time string string | JClaim time string | JResult time string string
  | JFail time string string | JClean time int

text \<open>The new queue, and the job that was claimed, if any.\<close>

fun job_step :: "job_op \<Rightarrow> job_queue \<Rightarrow> string option \<times> job_queue" where
  "job_step (JSubmit now i c ns nm t ctx s) q = (None, snd (submit_job now i c ns nm t ctx s q))"
| "job_step (JGet now i) q = (None, snd (get_job now i q))"
| "job_step (JPoll now c) q = (None, snd (get_pending now c q))"
| "job_step (JPollName now ns nm) q = (None, snd (get_pending_by_name now ns nm q))"
| "job_step (JClaim now i) q = apfst (map_option jb_id) (claim_job now i q)"
| "job_step (JResult now i r) q = (None, submit_result now i r q)"
| "job_step (JFail now i e) q = (None, mark_failed now i e q)"
| "job_step (JClean now a) q = (None, snd (cleanup_stale now a q))"

text \<open>How often the job \<open>i\<close> was claimed, and the queue in the end.\<close>

primrec job_run :: "string \<Rightarrow> job_op list \<Rightarrow> nat \<times> job_queue \<Rightarrow> nat \<times> job_queue" where
  "job_run i [] s = s"
| "job_run i (x # xs) s =
     (case job_step x (snd s) of (c, q) \<Rightarrow> job_run i xs (fst s + (if c = Some i then 1 else 0), q))"

fun submits :: "string \<Rightarrow> job_op \<Rightarrow> bool" where
  "submits i (JSubmit now j c ns nm t ctx s) = (j = i)"
| "submits i _ = False"

subsection \<open>The attempt budget\<close>

text \<open>The job \<open>i\<close> after \<open>n\<close> claims.  Both a claim and a failure cost an attempt.\<close>

definition budget_ok :: "string \<Rightarrow> nat \<Rightarrow> nat \<Rightarrow> job_queue \<Rightarrow> bool" where
  "budget_ok i m n q \<longleftrightarrow> keyed jb_id q \<and> 2 * n \<le> m + 1 \<and>
     (\<forall>j. map_of q i = Some j \<longrightarrow> jb_max j = m \<and> 2 * n \<le> jb_attempts j + 1 \<and>
        (jb_status j = JPending \<longrightarrow> 2 * n \<le> jb_attempts j \<and> jb_attempts j < m))"

lemma keyed_dmap: "keyed key d \<Longrightarrow> (\<And>r. key (f r) = key r) \<Longrightarrow> keyed key (dmap f d)"
  by (rule keyedI) (auto dest: keyed_dict_ok keyed_lookup)

lemma lapse_simps [simp]: "jb_id (lapse now P j) = jb_id j" "jb_max (lapse now P j) = jb_max j"
    "jb_attempts (lapse now P j) = jb_attempts j" "jb_callee (lapse now P j) = jb_callee j"
  by (simp_all add: lapse_def)

lemma lapse_pending: "jb_status (lapse now P j) = JPending \<Longrightarrow> jb_status j = JPending"
  by (simp add: lapse_def split: if_splits)

lemma budget_ok_dmod:
  assumes "budget_ok i m n q" and "\<And>j. jb_id (f j) = jb_id j"
    and "\<And>j. jb_max j = m \<Longrightarrow> 2 * n \<le> jb_attempts j + 1 \<Longrightarrow>
      (jb_status j = JPending \<longrightarrow> 2 * n \<le> jb_attempts j \<and> jb_attempts j < m) \<Longrightarrow>
      jb_max (f j) = m \<and> 2 * n \<le> jb_attempts (f j) + 1 \<and>
      (jb_status (f j) = JPending \<longrightarrow> 2 * n \<le> jb_attempts (f j) \<and> jb_attempts (f j) < m)"
  shows "budget_ok i m n (dmod k f q)"
proof -
  have "keyed jb_id (dmod k f q)"
    using assms(1,2) by (intro keyed_dmod) (auto simp: budget_ok_def)
  with assms(1,3) show ?thesis by (auto simp: budget_ok_def)
qed

lemma keyed_removed: "keyed jb_id q \<Longrightarrow> keyed jb_id (fold (\<lambda>(i, j). dpop i) st q)"
  by (induction st arbitrary: q) (auto intro: keyed_dpop)

lemma map_of_removed: "map_of (fold (\<lambda>(i, j). dpop i) st q) k = Some j \<Longrightarrow> map_of q k = Some j"
proof (induction st arbitrary: q)
  case (Cons p st)
  from Cons.prems have "map_of (fold (\<lambda>(i, j). dpop i) st (dpop (fst p) q)) k = Some j" by (simp add: case_prod_unfold)
  from Cons.IH [OF this] show ?case by (simp split: if_splits)
qed simp

lemma job_step_budget:
  assumes "budget_ok i m n q" and "\<not> submits i x"
  shows "budget_ok i m (n + (if fst (job_step x q) = Some i then 1 else 0)) (snd (job_step x q))"
proof (cases x)
  case (JSubmit now k c ns nm t ctx s)
  with assms show ?thesis by (auto simp: submit_job_def budget_ok_def intro: keyed_dset)
next
  case (JGet now k)
  have "budget_ok i m n (dmod k (\<lambda>j. if \<not> job_terminal j \<and> job_expired now j
      then j\<lparr>jb_status := JTimeout, jb_completed := Some now, jb_error := Some ''Task deadline exceeded''\<rparr> else j) q)"
    by (rule budget_ok_dmod [OF assms(1)]) auto
  with JGet show ?thesis by (simp add: get_job_def Let_def)
next
  case (JPoll now c)
  with assms show ?thesis
    by (auto simp: get_pending_def pending_jobs_def budget_ok_def Let_def intro: keyed_dmap dest: lapse_pending)
next
  case (JPollName now ns nm)
  with assms show ?thesis
    by (auto simp: get_pending_by_name_def pending_jobs_def budget_ok_def Let_def intro: keyed_dmap dest: lapse_pending)
next
  case (JClaim now k)
  show ?thesis
  proof (cases "map_of q k")
    case None
    with JClaim assms show ?thesis by (simp add: claim_job_def)
  next
    case (Some j)
    from assms(1) have "keyed jb_id q" by (simp add: budget_ok_def)
    from keyed_lookup [OF this Some] have k: "jb_id j = k" .
    let ?j = "j\<lparr>jb_status := JRunning, jb_started := Some now, jb_attempts := jb_attempts j + 1\<rparr>"
    have ks: "keyed jb_id (dset k ?j q)" using \<open>keyed jb_id q\<close> k by (intro keyed_dset) auto
    show ?thesis
    proof (cases "jb_status j = JPending")
      case True
      with JClaim Some k ks assms(1) show ?thesis by (auto simp: claim_job_def budget_ok_def Let_def)
    next
      case False
      with JClaim Some assms(1) show ?thesis by (simp add: claim_job_def)
    qed
  qed
next
  case (JResult now k r)
  have "budget_ok i m n (submit_result now k r q)"
    unfolding submit_result_def by (rule budget_ok_dmod [OF assms(1)]) auto
  with JResult show ?thesis by simp
next
  case (JFail now k e)
  have "budget_ok i m n (mark_failed now k e q)"
    unfolding mark_failed_def by (rule budget_ok_dmod [OF assms(1)]) (auto simp: Let_def)
  with JFail show ?thesis by simp
next
  case (JClean now a)
  have "budget_ok i m n (fold (\<lambda>(i, j). dpop i) st q)" for st
    using assms(1) keyed_removed [of q st] map_of_removed [of st q i] unfolding budget_ok_def by blast
  with JClean show ?thesis by (simp add: cleanup_stale_def Let_def)
qed

text \<open>A job is handed out at most half as often as its attempt budget says, rounded up: a claim and
  the failure that follows it each cost an attempt.  With the default of three attempts no job
  runs more than twice, whatever workers, callers, polls and clean-ups do.\<close>

theorem a_job_runs_at_most_half_its_attempts:
  assumes "keyed jb_id q" and "map_of q i = Some j" and "jb_attempts j = 0" and "0 < jb_max j"
    and "list_all (\<lambda>x. \<not> submits i x) ops"
  shows "2 * fst (job_run i ops (0, q)) \<le> jb_max j + 1"
proof -
  have "2 * fst (job_run i ops (n, q')) \<le> m + 1" if "budget_ok i m n q'" and "list_all (\<lambda>x. \<not> submits i x) ops" for n m q'
    using that
  proof (induction ops arbitrary: n q')
    case Nil
    then show ?case by (simp add: budget_ok_def)
  next
    case (Cons x ops)
    with job_step_budget [of i m n q' x] show ?case by (auto simp: case_prod_unfold)
  qed
  moreover have "budget_ok i (jb_max j) 0 q" using assms by (simp add: budget_ok_def)
  ultimately show ?thesis using assms(5) by blast
qed

definition demo_jobs :: job_queue where
  "demo_jobs = snd (submit_job 0 ''j'' ''a'' ''ns'' ''b'' ''do it'' [] 300 [])"

definition demo_attempts :: "job_op list" where
  "demo_attempts = concat (replicate 5 [JPollName 1 ''ns'' ''b'', JClaim 1 ''j'', JFail 2 ''j'' ''boom''])"

lemma a_job_runs_at_most_half_its_attempts_witness:
  "2 * fst (job_run ''j'' demo_attempts (0, demo_jobs)) \<le> 4 \<and> fst (job_run ''j'' demo_attempts (0, demo_jobs)) = 2 \<and>
   map_option jb_status (map_of (snd (job_run ''j'' demo_attempts (0, demo_jobs))) ''j'') = Some JFailed"
proof -
  have "map_option (\<lambda>j. (jb_attempts j, jb_max j)) (map_of demo_jobs ''j'') = Some (0, 3)" by code_simp
  then obtain j where j: "map_of demo_jobs ''j'' = Some j" "jb_attempts j = 0" "jb_max j = 3" by auto
  have k: "keyed jb_id demo_jobs" by (auto simp: demo_jobs_def submit_job_def keyed_def dict_ok_def)
  have ops: "list_all (\<lambda>x. \<not> submits ''j'' x) demo_attempts" by code_simp
  have "fst (job_run ''j'' demo_attempts (0, demo_jobs)) = 2"
    and "map_option jb_status (map_of (snd (job_run ''j'' demo_attempts (0, demo_jobs))) ''j'') = Some JFailed" by code_simp+
  with a_job_runs_at_most_half_its_attempts [OF k j(1,2) _ ops] j(3) show ?thesis by simp
qed

subsection \<open>Polling by callee\<close>

text \<open>No job ever names its callee by id, so a worker that polls by id finds nothing, ever.\<close>

definition no_callee :: "job_queue \<Rightarrow> bool" where
  "no_callee q \<longleftrightarrow> dict_ok q \<and> (\<forall>i j. map_of q i = Some j \<longrightarrow> jb_callee j = None)"

lemma no_callee_dmod: "no_callee q \<Longrightarrow> (\<And>j. jb_callee (f j) = jb_callee j) \<Longrightarrow> no_callee (dmod k f q)"
  by (auto simp: no_callee_def)

lemma job_step_no_callee:
  assumes "no_callee q"
  shows "no_callee (snd (job_step x q))"
proof (cases x)
  case (JSubmit now k c ns nm t ctx s)
  with assms show ?thesis by (simp add: submit_job_def no_callee_def)
next
  case (JGet now k)
  show ?thesis unfolding JGet job_step.simps get_job_def Let_def snd_conv
    by (rule no_callee_dmod [OF assms]) simp
next
  case (JPoll now c)
  with assms show ?thesis by (auto simp: get_pending_def pending_jobs_def no_callee_def Let_def)
next
  case (JPollName now ns nm)
  with assms show ?thesis by (auto simp: get_pending_by_name_def pending_jobs_def no_callee_def Let_def)
next
  case (JClaim now k)
  with assms show ?thesis by (simp add: claim_job_def no_callee_def Let_def split: option.split)
next
  case (JResult now k r)
  show ?thesis unfolding JResult job_step.simps submit_result_def snd_conv
    by (rule no_callee_dmod [OF assms]) simp
next
  case (JFail now k e)
  show ?thesis unfolding JFail job_step.simps mark_failed_def snd_conv
    by (rule no_callee_dmod [OF assms]) (simp add: Let_def)
next
  case (JClean now a)
  have "dict_ok (fold (\<lambda>(i, j). dpop i) st q)" if "dict_ok q" for st and q :: job_queue
    using that by (induction st arbitrary: q) auto
  with assms have "no_callee (fold (\<lambda>(i, j). dpop i) st q)" for st
    unfolding no_callee_def using map_of_removed [of st q] by blast
  with JClean show ?thesis by (simp add: cleanup_stale_def Let_def)
qed

lemma no_callee_polls_nothing:
  assumes "no_callee q"
  shows "fst (get_pending now callee q) = []"
proof -
  have "jb_callee j = None" if "j \<in> set (dvals q)" for j
    using assms that unfolding no_callee_def in_dvals_iff [OF conjunct1 [OF assms [unfolded no_callee_def]]] by blast
  then show ?thesis
    unfolding get_pending_def pending_jobs_def Let_def fst_conv dvals_dmap filter_empty_conv by simp
qed

text \<open>Polling by the id of the callee finds nothing, ever: no operation records which agent a job is
  for.\<close>

theorem polling_by_callee_id_finds_nothing:
  "fst (get_pending now callee (snd (job_run i ops (0, [])))) = []"
proof -
  have run: "no_callee (snd (job_run i ops s))" if "no_callee (snd s)" for s
    using that
  proof (induction ops arbitrary: s)
    case (Cons x ops)
    from Cons.IH job_step_no_callee [OF Cons.prems, of x] show ?case by (simp add: case_prod_unfold)
  qed simp
  have "no_callee (snd (0, []))" by (simp add: no_callee_def)
  from run [OF this] have q: "no_callee (snd (job_run i ops (0, [])))" .
  show ?thesis by (rule no_callee_polls_nothing [OF q])
qed

text \<open>A terminal state is not final: a failure reported for a completed job puts it back in the queue.\<close>

lemma completed_jobs_reopen:
  "map_of q i = Some j \<Longrightarrow> jb_attempts j + 1 < jb_max j \<Longrightarrow>
   fst (claim_job now' i (mark_failed now i err q)) \<noteq> None"
  by (simp add: claim_job_def mark_failed_def Let_def)

end
