(* ===== verification/Memory.thy ===== *)
theory Memory
  imports Pyrt "HOL-Library.List_Lexorder" "HOL-Library.Char_ord"
begin

text \<open>
  The agent memory (\<open>src/src/platform/memory_store.py\<close>): the in-memory store with its version history
  and its optimistic concurrency, and how the file-system store names the directory of an agent.
  \<open>digest\<close> stands for the truncated SHA-256 of a content; nothing is assumed of it unless a theorem
  says so.  The clock is an argument.
\<close>

record mem_entry =
  me_path :: string
  me_content :: string
  me_hash :: string
  me_author :: string
  me_created :: time
  me_updated :: time
  me_version :: nat
  me_metadata :: "(string \<times> pyval) list"

record mutation =
  mu_path :: string
  mu_content :: string
  mu_author :: string
  mu_precondition :: "string option"
  mu_metadata :: "(string \<times> pyval) list"

record mem_event =
  mh_version :: nat
  mh_hash :: string
  mh_author :: string
  mh_at :: time
  mh_action :: string

record mem_store =
  ms_tenant :: string
  ms_entries :: "(string, (string, mem_entry) dict) dict"
  ms_history :: "(string, (string, mem_event list) dict) dict"

definition empty_memory :: "string \<Rightarrow> mem_store" where
  "empty_memory ten = \<lparr>ms_tenant = ten, ms_entries = [], ms_history = []\<rparr>"

definition scoped_id :: "mem_store \<Rightarrow> string \<Rightarrow> string" where
  "scoped_id s a = (if ms_tenant s \<noteq> [] then ms_tenant s @ ''/'' @ a else a)"

text \<open>Looking up an agent creates its empty dictionary.\<close>

definition ensure :: "'k \<Rightarrow> ('k, ('a, 'b) dict) dict \<Rightarrow> ('k, ('a, 'b) dict) dict" where
  "ensure k d = (case map_of d k of None \<Rightarrow> dset k [] d | Some _ \<Rightarrow> d)"

definition agent_store :: "mem_store \<Rightarrow> string \<Rightarrow> (string, mem_entry) dict \<times> mem_store" where
  "agent_store s a = (dget_default (ms_entries s) (scoped_id s a) [], s\<lparr>ms_entries := ensure (scoped_id s a) (ms_entries s)\<rparr>)"

definition agent_history :: "mem_store \<Rightarrow> string \<Rightarrow> (string, mem_event list) dict \<times> mem_store" where
  "agent_history s a = (dget_default (ms_history s) (scoped_id s a) [], s\<lparr>ms_history := ensure (scoped_id s a) (ms_history s)\<rparr>)"

definition memory_read :: "string \<Rightarrow> string \<Rightarrow> mem_store \<Rightarrow> mem_entry option \<times> mem_store" where
  "memory_read a p s = (case agent_store s a of (d, s1) \<Rightarrow> (map_of d p, s1))"

definition append_event :: "string \<Rightarrow> string \<Rightarrow> mem_event \<Rightarrow> mem_store \<Rightarrow> mem_store" where
  "append_event a p x s =
     (case agent_history s a of (h, s1) \<Rightarrow>
        s1\<lparr>ms_history := dset (scoped_id s a) (dset p (dget_default h p [] @ [x]) h) (ms_history s1)\<rparr>)"

definition put_entry :: "string \<Rightarrow> mem_entry \<Rightarrow> mem_store \<Rightarrow> mem_store" where
  "put_entry a e s =
     (case agent_store s a of (d, s1) \<Rightarrow> s1\<lparr>ms_entries := dset (scoped_id s a) (dset (me_path e) e d) (ms_entries s1)\<rparr>)"

definition mismatch :: "mutation \<Rightarrow> string \<Rightarrow> string \<Rightarrow> py_exn" where
  "mismatch m expected got = Raised (''Precondition hash mismatch for '' @ mu_path m @ '': expected '' @ expected @ '', got '' @ got)"

definition memory_write :: "(string \<Rightarrow> string) \<Rightarrow> time \<Rightarrow> string \<Rightarrow> mutation \<Rightarrow> mem_store \<Rightarrow> mem_entry res \<times> mem_store" where
  "memory_write digest now a m s =
     (case agent_store s a of (d, s1) \<Rightarrow>
      case agent_history s1 a of (h, s2) \<Rightarrow>
        (let existing = map_of d (mu_path m);
             failed = (case (mu_precondition m, existing) of
                 (Some expected, Some e) \<Rightarrow> if me_hash e \<noteq> expected then Some (mismatch m expected (me_hash e)) else None
               | _ \<Rightarrow> None)
         in case failed of
              Some e \<Rightarrow> (Inl e, s2)
            | None \<Rightarrow>
              (let new_hash = digest (mu_content m);
                   version = (case existing of None \<Rightarrow> 1 | Some e \<Rightarrow> me_version e + 1);
                   entry = \<lparr>me_path = mu_path m, me_content = mu_content m, me_hash = new_hash, me_author = mu_author m,
                     me_created = (case existing of None \<Rightarrow> now | Some e \<Rightarrow> me_created e), me_updated = now,
                     me_version = version, me_metadata = mu_metadata m\<rparr>;
                   event = \<lparr>mh_version = version, mh_hash = new_hash, mh_author = mu_author m, mh_at = now,
                     mh_action = (if 1 < version then ''update'' else ''create'')\<rparr>
               in (Inr entry, append_event a (mu_path m) event (put_entry a entry s2)))))"

definition memory_delete :: "time \<Rightarrow> string \<Rightarrow> string \<Rightarrow> mem_store \<Rightarrow> bool \<times> mem_store" where
  "memory_delete now a p s =
     (case agent_store s a of (d, s1) \<Rightarrow>
      case agent_history s1 a of (h, s2) \<Rightarrow>
        (case map_of d p of
           None \<Rightarrow> (False, s2)
         | Some e \<Rightarrow> (True, append_event a p
              \<lparr>mh_version = me_version e, mh_hash = me_hash e, mh_author = me_author e, mh_at = now, mh_action = ''delete''\<rparr>
              (s2\<lparr>ms_entries := dset (scoped_id s a) (dpop p d) (ms_entries s2)\<rparr>))))"

definition memory_list_files :: "string \<Rightarrow> string \<Rightarrow> mem_store \<Rightarrow> string list \<times> mem_store" where
  "memory_list_files a pre s = (case agent_store s a of (d, s1) \<Rightarrow> (sort (filter (starts_with pre) (dkeys d)), s1))"

definition memory_search :: "string \<Rightarrow> string \<Rightarrow> mem_store \<Rightarrow> mem_entry list \<times> mem_store" where
  "memory_search a query s = (case agent_store s a of (d, s1) \<Rightarrow>
     (filter (\<lambda>e. is_substring (lower query) (lower (me_content e)) \<or> is_substring (lower query) (lower (me_path e))) (dvals d), s1))"

definition memory_history :: "string \<Rightarrow> string \<Rightarrow> mem_store \<Rightarrow> mem_event list \<times> mem_store" where
  "memory_history a p s = (case agent_history s a of (h, s1) \<Rightarrow> (dget_default h p [], s1))"

text \<open>The directory of an agent on disk, as the list of its parts below the root.\<close>

definition safe_char :: "char \<Rightarrow> char" where
  "safe_char c = (let n = of_char c :: nat
     in if 48 \<le> n \<and> n \<le> 57 \<or> 65 \<le> n \<and> n \<le> 90 \<or> 97 \<le> n \<and> n \<le> 122 \<or> n = 95 \<or> n = 45 then c else CHR ''_'')"

definition memory_dir :: "string \<Rightarrow> string \<Rightarrow> string list" where
  "memory_dir tenant a =
     (if tenant \<noteq> [] then [''tenants'', map safe_char tenant, map safe_char a, ''memory'']
      else [''shared'', map safe_char a, ''memory''])"

text \<open>
  The memory tools of the tool executor (\<open>tool_executor.py\<close>), with the required fields of the input
  as arguments (a missing one raises \<open>KeyError\<close> before the store is touched).  The context may be
  absent or have no agent.
\<close>

definition memory_agent_id :: "string option \<Rightarrow> string" where
  "memory_agent_id ctx = (case ctx of None \<Rightarrow> ''anonymous'' | Some a \<Rightarrow> if a \<noteq> [] then a else ''anonymous'')"

definition handle_memory_read :: "string option \<Rightarrow> string \<Rightarrow> mem_store \<Rightarrow> (string \<times> pyval) list \<times> mem_store" where
  "handle_memory_read ctx p s =
     (case memory_read (memory_agent_id ctx) p s of (r, s') \<Rightarrow>
        ((case r of None \<Rightarrow> [(''found'', PBool False), (''path'', PStr p)]
          | Some e \<Rightarrow> [(''found'', PBool True), (''path'', PStr (me_path e)), (''content'', PStr (me_content e)),
              (''content_hash'', PStr (me_hash e)), (''version'', PInt (int (me_version e))),
              (''updated_at'', PInt (me_updated e)), (''author'', PStr (me_author e))]), s'))"

definition handle_memory_write :: "(string \<Rightarrow> string) \<Rightarrow> time \<Rightarrow> string option \<Rightarrow> string \<Rightarrow> string \<Rightarrow> string option \<Rightarrow> mem_store \<Rightarrow>
    (string \<times> pyval) list \<times> mem_store" where
  "handle_memory_write digest now ctx p cont pre s =
     (case memory_write digest now (memory_agent_id ctx)
         \<lparr>mu_path = p, mu_content = cont, mu_author = memory_agent_id ctx, mu_precondition = pre, mu_metadata = []\<rparr> s of
        (r, s') \<Rightarrow>
        ((case r of Inl e \<Rightarrow> [(''error'', PStr (exn_text e)), (''type'', PStr ''concurrency_conflict'')]
          | Inr e \<Rightarrow> [(''written'', PBool True), (''path'', PStr (me_path e)), (''content_hash'', PStr (me_hash e)),
              (''version'', PInt (int (me_version e)))]), s'))"

definition handle_memory_list :: "string option \<Rightarrow> string \<Rightarrow> mem_store \<Rightarrow> (string \<times> pyval) list \<times> mem_store" where
  "handle_memory_list ctx pre s =
     (case memory_list_files (memory_agent_id ctx) pre s of (fs, s') \<Rightarrow>
        ([(''files'', PList (map PStr fs)), (''count'', PInt (int (length fs)))], s'))"

definition handle_memory_search :: "string option \<Rightarrow> string \<Rightarrow> mem_store \<Rightarrow> (string \<times> pyval) list \<times> mem_store" where
  "handle_memory_search ctx query s =
     (case memory_search (memory_agent_id ctx) query s of (rs, s') \<Rightarrow>
        ([(''results'', PList (map (\<lambda>e. PDict [(''path'', PStr (me_path e)), (''content_hash'', PStr (me_hash e)),
             (''snippet'', PStr (take 200 (me_content e)))]) rs)), (''count'', PInt (int (length rs)))], s'))"

definition event_dict :: "mem_event \<Rightarrow> pyval" where
  "event_dict v = PDict [(''version'', PInt (int (mh_version v))), (''content_hash'', PStr (mh_hash v)),
     (''author_agent_id'', PStr (mh_author v)), (''timestamp'', PInt (mh_at v)), (''action'', PStr (mh_action v))]"

definition handle_memory_history :: "string option \<Rightarrow> string \<Rightarrow> mem_store \<Rightarrow> (string \<times> pyval) list \<times> mem_store" where
  "handle_memory_history ctx p s =
     (case memory_history (memory_agent_id ctx) p s of (vs, s') \<Rightarrow>
        ([(''path'', PStr p), (''history'', PList (map event_dict vs))], s'))"

definition handle_memory_delete :: "time \<Rightarrow> string option \<Rightarrow> string \<Rightarrow> mem_store \<Rightarrow> (string \<times> pyval) list \<times> mem_store" where
  "handle_memory_delete now ctx p s =
     (case memory_delete now (memory_agent_id ctx) p s of (found, s') \<Rightarrow>
        ([(''deleted'', PBool found), (''path'', PStr p)], s'))"

subsection \<open>What a reader sees\<close>

definition entry_of :: "mem_store \<Rightarrow> string \<Rightarrow> string \<Rightarrow> mem_entry option" where
  "entry_of s a p = map_of (dget_default (ms_entries s) (scoped_id s a) []) p"

definition events_of :: "mem_store \<Rightarrow> string \<Rightarrow> string \<Rightarrow> mem_event list" where
  "events_of s a p = dget_default (dget_default (ms_history s) (scoped_id s a) []) p []"

text \<open>The same files and the same history, whatever empty dictionaries were created on the way.\<close>

definition same_files :: "mem_store \<Rightarrow> mem_store \<Rightarrow> bool" where
  "same_files s s' \<longleftrightarrow> ms_tenant s' = ms_tenant s \<and> entry_of s' = entry_of s \<and> events_of s' = events_of s"

lemma same_files_refl [simp]: "same_files s s"
  by (simp add: same_files_def)

lemma scoped_inj [simp]: "scoped_id s a = scoped_id s b \<longleftrightarrow> a = b"
  by (simp add: scoped_id_def)

lemma scoped_tenant: "ms_tenant s' = ms_tenant s \<Longrightarrow> scoped_id s' = scoped_id s"
  by (simp add: fun_eq_iff scoped_id_def)

lemma ensure_lookup [simp]: "dget_default (ensure k d) k' [] = dget_default d k' []"
  by (auto simp: ensure_def dget_default_def split: option.split)

lemma agent_store_same: "same_files s (snd (agent_store s a))"
  by (simp add: agent_store_def same_files_def entry_of_def events_of_def fun_eq_iff scoped_id_def)

lemma agent_history_same: "same_files s (snd (agent_history s a))"
  by (simp add: agent_history_def same_files_def entry_of_def events_of_def fun_eq_iff scoped_id_def)

lemma agent_store_lookup: "map_of (fst (agent_store s a)) p = entry_of s a p"
  by (simp add: agent_store_def entry_of_def)

lemma agent_history_lookup: "dget_default (fst (agent_history s a)) p [] = events_of s a p"
  by (simp add: agent_history_def events_of_def)

lemma append_event_view:
  "ms_tenant (append_event a p x s) = ms_tenant s" "entry_of (append_event a p x s) b q = entry_of s b q"
  "events_of (append_event a p x s) b q = (if b = a \<and> q = p then events_of s a p @ [x] else events_of s b q)"
  by (simp_all add: append_event_def agent_history_def entry_of_def events_of_def scoped_id_def)

lemma put_entry_view:
  "ms_tenant (put_entry a e s) = ms_tenant s" "events_of (put_entry a e s) b q = events_of s b q"
  "entry_of (put_entry a e s) b q = (if b = a \<and> q = me_path e then Some e else entry_of s b q)"
  by (simp_all add: put_entry_def agent_store_def entry_of_def events_of_def scoped_id_def)

text \<open>The history entry that a write leaves for the entry it stored.\<close>

definition recorded :: "mem_entry \<Rightarrow> mem_event" where
  "recorded e = \<lparr>mh_version = me_version e, mh_hash = me_hash e, mh_author = me_author e, mh_at = me_updated e,
     mh_action = (if 1 < me_version e then ''update'' else ''create'')\<rparr>"

lemma memory_write_view:
  assumes "memory_write digest now a m s = (r, s')"
  shows "ms_tenant s' = ms_tenant s"
    and "(\<exists>x. r = Inl x) \<longleftrightarrow> (\<exists>h e. mu_precondition m = Some h \<and> entry_of s a (mu_path m) = Some e \<and> me_hash e \<noteq> h)"
    and "r = Inl x \<Longrightarrow> same_files s s'"
    and "r = Inr e \<Longrightarrow> me_content e = mu_content m \<and> me_hash e = digest (mu_content m) \<and>
      entry_of s' b q = (if b = a \<and> q = mu_path m then Some e else entry_of s b q) \<and>
      events_of s' b q = (if b = a \<and> q = mu_path m then events_of s b q @ [recorded e] else events_of s b q)"
proof -
  obtain d s1 where 1: "agent_store s a = (d, s1)" by fastforce
  obtain h s2 where 2: "agent_history s1 a = (h, s2)" by fastforce
  have d: "map_of d (mu_path m) = entry_of s a (mu_path m)" using agent_store_lookup [of s a] 1 by simp
  have same: "same_files s s2"
    using agent_store_same [of s a] agent_history_same [of s1 a] 1 2 by (simp add: same_files_def)
  note views = append_event_view put_entry_view same [unfolded same_files_def]
  show "ms_tenant s' = ms_tenant s"
    using assms same [unfolded same_files_def] unfolding memory_write_def 1 prod.case 2 prod.case
    by (auto simp: Let_def append_event_view put_entry_view split: option.splits if_splits)
  show "(\<exists>x. r = Inl x) \<longleftrightarrow> (\<exists>h e. mu_precondition m = Some h \<and> entry_of s a (mu_path m) = Some e \<and> me_hash e \<noteq> h)"
    using assms unfolding memory_write_def 1 prod.case 2 prod.case by (auto simp: Let_def d split: option.splits if_splits)
  show "r = Inl x \<Longrightarrow> same_files s s'"
    using assms same unfolding memory_write_def 1 prod.case 2 prod.case by (auto simp: Let_def split: option.splits if_splits)
  show "r = Inr e \<Longrightarrow> me_content e = mu_content m \<and> me_hash e = digest (mu_content m) \<and>
      entry_of s' b q = (if b = a \<and> q = mu_path m then Some e else entry_of s b q) \<and>
      events_of s' b q = (if b = a \<and> q = mu_path m then events_of s b q @ [recorded e] else events_of s b q)"
    using assms unfolding memory_write_def 1 prod.case 2 prod.case
    by (auto simp: Let_def views recorded_def split: option.splits if_splits)
qed


lemma memory_delete_view:
  assumes "memory_delete now a p s = (found, s')"
  shows "ms_tenant s' = ms_tenant s" and "found \<longleftrightarrow> entry_of s a p \<noteq> None"
    and "entry_of s' b q = (if b = a \<and> q = p then None else entry_of s b q)"
    and "events_of s' b q = (case entry_of s a p of
       Some e \<Rightarrow> if b = a \<and> q = p then events_of s b q @ [\<lparr>mh_version = me_version e, mh_hash = me_hash e, mh_author = me_author e,
         mh_at = now, mh_action = ''delete''\<rparr>] else events_of s b q
     | None \<Rightarrow> events_of s b q)"
proof -
  obtain d s1 where 1: "agent_store s a = (d, s1)" by fastforce
  obtain h s2 where 2: "agent_history s1 a = (h, s2)" by fastforce
  have dict: "d = dget_default (ms_entries s) (scoped_id s a) []" using 1 by (auto simp: agent_store_def)
  have look: "map_of d p = entry_of s a p" by (simp add: dict entry_of_def)
  have same: "ms_tenant s2 = ms_tenant s" "entry_of s2 = entry_of s" "events_of s2 = events_of s"
    using agent_store_same [of s a] agent_history_same [of s1 a] 1 2 by (simp_all add: same_files_def)
  let ?s3 = "s2\<lparr>ms_entries := dset (scoped_id s a) (dpop p d) (ms_entries s2)\<rparr>"
  have drop: "ms_tenant ?s3 = ms_tenant s" "events_of ?s3 = events_of s"
    "entry_of ?s3 b q = (if b = a \<and> q = p then None else entry_of s b q)"
    using same by (auto simp: entry_of_def events_of_def fun_eq_iff scoped_id_def dict)
  note del = assms [unfolded memory_delete_def 1 prod.case 2 prod.case look]
  show "ms_tenant s' = ms_tenant s" and "found \<longleftrightarrow> entry_of s a p \<noteq> None"
    and "entry_of s' b q = (if b = a \<and> q = p then None else entry_of s b q)"
    and "events_of s' b q = (case entry_of s a p of
       Some e \<Rightarrow> if b = a \<and> q = p then events_of s b q @ [\<lparr>mh_version = me_version e, mh_hash = me_hash e, mh_author = me_author e,
         mh_at = now, mh_action = ''delete''\<rparr>] else events_of s b q
     | None \<Rightarrow> events_of s b q)"
    using del same drop by (auto simp: append_event_view split: option.splits if_splits)
qed

subsection \<open>Histories of tool calls\<close>

datatype mem_op = MRead "string option" string | MWrite time "string option" string string "string option"
  | MDelete time "string option" string | MList "string option" string | MSearch "string option" string
  | MHistory "string option" string

fun mem_step :: "(string \<Rightarrow> string) \<Rightarrow> mem_op \<Rightarrow> mem_store \<Rightarrow> mem_store" where
  "mem_step digest (MRead ctx p) s = snd (handle_memory_read ctx p s)"
| "mem_step digest (MWrite now ctx p c pre) s = snd (handle_memory_write digest now ctx p c pre s)"
| "mem_step digest (MDelete now ctx p) s = snd (handle_memory_delete now ctx p s)"
| "mem_step digest (MList ctx pre) s = snd (handle_memory_list ctx pre s)"
| "mem_step digest (MSearch ctx query) s = snd (handle_memory_search ctx query s)"
| "mem_step digest (MHistory ctx p) s = snd (handle_memory_history ctx p s)"

text \<open>
  Reading a history from the start: the version the file has after it (0 when there is no file), if
  every entry follows from the one before.
\<close>

fun live_version :: "nat \<Rightarrow> mem_event list \<Rightarrow> nat option" where
  "live_version n [] = Some n"
| "live_version n (v # vs) =
     (if mh_action v = ''delete'' then if 0 < n \<and> mh_version v = n then live_version 0 vs else None
      else if mh_version v = n + 1 \<and> mh_action v = (if n = 0 then ''create'' else ''update'') then live_version (n + 1) vs
      else None)"

definition history_tells :: "(string \<Rightarrow> string) \<Rightarrow> mem_event list \<Rightarrow> mem_entry option \<Rightarrow> bool" where
  "history_tells digest vs entry =
     (case entry of
        None \<Rightarrow> live_version 0 vs = Some 0
      | Some e \<Rightarrow> live_version 0 vs = Some (me_version e) \<and> 0 < me_version e \<and> vs \<noteq> [] \<and> mh_hash (last vs) = me_hash e \<and>
          mh_author (last vs) = me_author e \<and> mh_at (last vs) = me_updated e \<and> me_hash e = digest (me_content e))"

definition memory_ok :: "(string \<Rightarrow> string) \<Rightarrow> mem_store \<Rightarrow> bool" where
  "memory_ok digest s \<longleftrightarrow> (\<forall>a p. history_tells digest (events_of s a p) (entry_of s a p))"

lemma live_version_append [simp]:
  "live_version n (vs @ ws) = (case live_version n vs of None \<Rightarrow> None | Some k \<Rightarrow> live_version k ws)"
  by (induction n vs rule: live_version.induct) auto


lemma memory_ok_same: "same_files s s' \<Longrightarrow> memory_ok digest s' = memory_ok digest s"
  by (simp add: same_files_def memory_ok_def)

lemma reads_change_nothing:
  "same_files s (snd (handle_memory_read ctx p s))" "same_files s (snd (handle_memory_list ctx p s))"
  "same_files s (snd (handle_memory_search ctx p s))" "same_files s (snd (handle_memory_history ctx p s))"
  using agent_store_same [of s] agent_history_same [of s]
  by (simp_all add: handle_memory_read_def handle_memory_list_def handle_memory_search_def handle_memory_history_def
      memory_read_def memory_list_files_def memory_search_def memory_history_def split_beta)

lemma memory_write_version:
  assumes "memory_write digest now a m s = (Inr e, s')"
  shows "me_version e = (case entry_of s a (mu_path m) of None \<Rightarrow> 1 | Some o' \<Rightarrow> me_version o' + 1)"
proof -
  obtain d s1 where 1: "agent_store s a = (d, s1)" by fastforce
  obtain h s2 where 2: "agent_history s1 a = (h, s2)" by fastforce
  have d: "map_of d (mu_path m) = entry_of s a (mu_path m)" using agent_store_lookup [of s a] 1 by simp
  show ?thesis
    using assms unfolding memory_write_def 1 prod.case 2 prod.case by (auto simp: Let_def d split: option.splits if_splits)
qed

lemma memory_write_ok:
  assumes "memory_ok digest s" and "memory_write digest now a m s = (r, s')"
  shows "memory_ok digest s'"
proof (cases r)
  case (Inl x)
  with assms memory_write_view(3) memory_ok_same show ?thesis by blast
next
  case (Inr e)
  note view = memory_write_view(4) [OF assms(2) Inr] and ver = memory_write_version [OF assms(2) [unfolded Inr]]
  show ?thesis unfolding memory_ok_def
  proof (intro allI)
    fix b q
    have old: "history_tells digest (events_of s b q) (entry_of s b q)" using assms(1) by (simp add: memory_ok_def)
    have ev: "events_of s' b q = (if b = a \<and> q = mu_path m then events_of s b q @ [recorded e] else events_of s b q)"
      and en: "entry_of s' b q = (if b = a \<and> q = mu_path m then Some e else entry_of s b q)" using view by blast+
    have rest: "me_content e = mu_content m" "me_hash e = digest (mu_content m)" using view by blast+
    show "history_tells digest (events_of s' b q) (entry_of s' b q)"
    proof (cases "b = a \<and> q = mu_path m")
      case True
      with old ver show ?thesis unfolding ev en if_P [OF True]
        by (simp add: history_tells_def recorded_def rest split: option.splits)
    next
      case False
      show ?thesis unfolding ev en if_not_P [OF False] by (rule old)
    qed
  qed
qed

lemma memory_delete_ok:
  assumes "memory_ok digest s" and "memory_delete now a p s = (found, s')"
  shows "memory_ok digest s'"
  unfolding memory_ok_def
proof (intro allI)
  fix b q
  have old: "history_tells digest (events_of s b q) (entry_of s b q)" using assms(1) by (simp add: memory_ok_def)
  show "history_tells digest (events_of s' b q) (entry_of s' b q)"
    using old unfolding memory_delete_view(3,4) [OF assms(2)]
    by (auto simp: history_tells_def split: option.splits)
qed

lemma mem_step_ok: "memory_ok digest s \<Longrightarrow> memory_ok digest (mem_step digest x s)"
proof (cases x)
  case (MWrite now ctx p c pre)
  assume "memory_ok digest s"
  with memory_write_ok [OF this surjective_pairing] show ?thesis
    by (simp add: MWrite handle_memory_write_def split_beta)
next
  case (MDelete now ctx p)
  assume "memory_ok digest s"
  with memory_delete_ok [OF this surjective_pairing] show ?thesis
    by (simp add: MDelete handle_memory_delete_def split_beta)
qed (simp_all add: memory_ok_same [OF reads_change_nothing(1)] memory_ok_same [OF reads_change_nothing(2)]
    memory_ok_same [OF reads_change_nothing(3)] memory_ok_same [OF reads_change_nothing(4)])

lemma mem_run_ok: "memory_ok digest s \<Longrightarrow> memory_ok digest (fold (mem_step digest) ops s)"
  by (induction ops arbitrary: s) (simp_all add: mem_step_ok)

lemma empty_memory_ok: "memory_ok digest (empty_memory ten)"
  by (simp add: memory_ok_def empty_memory_def events_of_def entry_of_def history_tells_def)

text \<open>
  After any sequence of memory tool calls on a new store, the version history of every file replays:
  versions count up from 1 within each life of the file, a deletion carries the version it removed,
  and the file exists exactly when the replay ends in a live version, with that version, and with the
  hash, author and time of the last entry; its hash is the digest of its content.
\<close>

theorem history_tells_the_current_file:
  "case entry_of (fold (mem_step digest) ops (empty_memory ten)) a p of
     None \<Rightarrow> live_version 0 (events_of (fold (mem_step digest) ops (empty_memory ten)) a p) = Some 0
   | Some e \<Rightarrow> live_version 0 (events_of (fold (mem_step digest) ops (empty_memory ten)) a p) = Some (me_version e) \<and>
       0 < me_version e \<and> me_hash e = digest (me_content e) \<and>
       mh_hash (last (events_of (fold (mem_step digest) ops (empty_memory ten)) a p)) = me_hash e \<and>
       mh_author (last (events_of (fold (mem_step digest) ops (empty_memory ten)) a p)) = me_author e"
proof -
  have "history_tells digest (events_of (fold (mem_step digest) ops (empty_memory ten)) a p)
      (entry_of (fold (mem_step digest) ops (empty_memory ten)) a p)"
    using mem_run_ok [OF empty_memory_ok] by (simp add: memory_ok_def)
  then show ?thesis by (auto simp: history_tells_def split: option.splits)
qed


lemma mem_run_append: "fold (mem_step digest) (xs @ ys) s = fold (mem_step digest) ys (fold (mem_step digest) xs s)"
  by simp

lemma handle_memory_write_reply:
  assumes "handle_memory_write digest now ctx p c pre s = (reply, s')"
  shows "map_of reply ''written'' = (if \<exists>h e. pre = Some h \<and> entry_of s (memory_agent_id ctx) p = Some e \<and> me_hash e \<noteq> h
      then None else Some (PBool True))"
    and "map_of reply ''written'' = None \<Longrightarrow> same_files s s'"
    and "map_of reply ''written'' \<noteq> None \<Longrightarrow> map_option me_content (entry_of s' (memory_agent_id ctx) p) = Some c"
proof -
  let ?m = "\<lparr>mu_path = p, mu_content = c, mu_author = memory_agent_id ctx, mu_precondition = pre, mu_metadata = []\<rparr>"
  obtain r where w: "memory_write digest now (memory_agent_id ctx) ?m s = (r, s')" and
    reply: "map_of reply ''written'' = (case r of Inl _ \<Rightarrow> None | Inr _ \<Rightarrow> Some (PBool True))"
    using assms by (auto simp: handle_memory_write_def split: prod.splits sum.splits)
  note view = memory_write_view [OF w]
  show "map_of reply ''written'' = (if \<exists>h e. pre = Some h \<and> entry_of s (memory_agent_id ctx) p = Some e \<and> me_hash e \<noteq> h
      then None else Some (PBool True))" using view(2) reply by (cases r) simp_all
  show "map_of reply ''written'' = None \<Longrightarrow> same_files s s'" using view(3) reply by (cases r) simp_all
  show "map_of reply ''written'' \<noteq> None \<Longrightarrow> map_option me_content (entry_of s' (memory_agent_id ctx) p) = Some c"
    using view(4) reply by (cases r) simp_all
qed

text \<open>
  Optimistic concurrency: an agent reads a file and later writes it with the hash it read, other tool
  calls in between.  The write is refused exactly when the file exists and the digest of its content
  is not the one read; a refused write changes no file and no history, an accepted one stores the new
  content.  A file deleted in between is silently written again.
\<close>

theorem conditional_write_detects_changes:
  assumes "entry_of (fold (mem_step digest) before (empty_memory ten)) (memory_agent_id ctx) p = Some e"
    and "fold (mem_step digest) (before @ between) (empty_memory ten) = s"
    and "handle_memory_write digest now ctx p c (Some (me_hash e)) s = (reply, s')"
  shows "(map_of reply ''written'' = Some (PBool True) \<longleftrightarrow>
      (case entry_of s (memory_agent_id ctx) p of None \<Rightarrow> True | Some e' \<Rightarrow> digest (me_content e') = digest (me_content e))) \<and>
    (case map_of reply ''written'' of
       None \<Rightarrow> same_files s s'
     | Some _ \<Rightarrow> map_option me_content (entry_of s' (memory_agent_id ctx) p) = Some c)"
proof -
  let ?a = "memory_agent_id ctx"
  have hash: "me_hash e' = digest (me_content e')"
    if "entry_of (fold (mem_step digest) ops (empty_memory ten)) ?a p = Some e'" for ops e'
    using mem_run_ok [OF empty_memory_ok, of digest ops ten] that
    by (auto simp: memory_ok_def history_tells_def split: option.splits)
  have "me_hash e = digest (me_content e)" using hash [OF assms(1)] .
  moreover have "me_hash e' = digest (me_content e')" if "entry_of s ?a p = Some e'" for e'
    using hash [of "before @ between" e'] that assms(2) by simp
  ultimately have "map_of reply ''written'' = Some (PBool True) \<longleftrightarrow>
      (case entry_of s ?a p of None \<Rightarrow> True | Some e' \<Rightarrow> digest (me_content e') = digest (me_content e))"
    unfolding handle_memory_write_reply(1) [OF assms(3)] by (auto split: option.splits)
  with handle_memory_write_reply(2,3) [OF assms(3)] show ?thesis by (auto split: option.split)
qed

definition demo_notes :: "mem_op list" where
  "demo_notes = [MWrite 5 (Some ''a'') ''plan'' ''v1'' None]"

definition demo_later :: "mem_op list" where
  "demo_later = [MWrite 6 (Some ''b'') ''plan'' ''other'' None, MWrite 7 (Some ''a'') ''plan'' ''v2'' None, MRead (Some ''a'') ''plan'']"

lemma conditional_write_detects_changes_witness:
  "\<exists>e s' reply. entry_of (fold (mem_step rev) demo_notes (empty_memory ''acme'')) ''a'' ''plan'' = Some e \<and>
     handle_memory_write rev 8 (Some ''a'') ''plan'' ''v3'' (Some (me_hash e))
       (fold (mem_step rev) (demo_notes @ demo_later) (empty_memory ''acme'')) = (reply, s') \<and>
     map_of reply ''written'' \<noteq> Some (PBool True) \<and> map_of reply ''type'' = Some (PStr ''concurrency_conflict'')"
proof -
  let ?s = "fold (mem_step rev) (demo_notes @ demo_later) (empty_memory ''acme'')"
  have "map_option me_content (entry_of (fold (mem_step rev) demo_notes (empty_memory ''acme'')) ''a'' ''plan'') = Some ''v1''"
    and "map_option me_hash (entry_of (fold (mem_step rev) demo_notes (empty_memory ''acme'')) ''a'' ''plan'') = Some ''1v''"
    by code_simp+
  then obtain e where e: "entry_of (fold (mem_step rev) demo_notes (empty_memory ''acme'')) (memory_agent_id (Some ''a'')) ''plan'' = Some e"
    and c: "me_content e = ''v1''" "me_hash e = ''1v''" by (auto simp: memory_agent_id_def)
  obtain reply s' where w: "handle_memory_write rev 8 (Some ''a'') ''plan'' ''v3'' (Some (me_hash e)) ?s = (reply, s')" by fastforce
  have "map_option me_content (entry_of ?s (memory_agent_id (Some ''a'')) ''plan'') = Some ''v2''" by code_simp
  then obtain e' where e': "entry_of ?s (memory_agent_id (Some ''a'')) ''plan'' = Some e'" "me_content e' = ''v2''" by auto
  have "map_of reply ''written'' \<noteq> Some (PBool True)"
    using conditional_write_detects_changes [OF e refl w, unfolded e'(1)] e'(2) c(1) by simp
  moreover have "map_of (fst (handle_memory_write rev 8 (Some ''a'') ''plan'' ''v3'' (Some ''1v'') ?s)) ''type'' =
      Some (PStr ''concurrency_conflict'')" by code_simp
  ultimately show ?thesis using e w c by (auto simp: memory_agent_id_def)
qed

lemma memory_dirs_collide: "memory_dir ten ''sales.eu'' = memory_dir ten ''sales/eu''"
  by (simp add: memory_dir_def safe_char_def)

end
