(* ===== verification/ContStore.thy ===== *)
theory ContStore
  imports Decode Engine "HOL-Library.Monad_Syntax"
begin

text \<open>
  The durable form of a continuation (\<open>to_dict\<close> / \<open>from_dict\<close> of \<open>src/src/runtime/continuation.py\<close>) and the
  SQLite store (\<open>continuation_store.py\<close>), with the proof that it behaves as the in-memory store.
  \<open>json.loads\<close> after \<open>json.dumps\<close> is the identity on \<open>pyval\<close>; an instant is written as its number.
  \<open>from_dict\<close> does not check types; see \<open>Decode\<close>.
\<close>

subsection \<open>Dictionaries\<close>

fun call_status_value :: "call_status \<Rightarrow> string" where
  "call_status_value TPending = ''pending''" | "call_status_value TExecuted = ''executed''" | "call_status_value TRejected = ''rejected''"

definition call_dict :: "tool_call \<Rightarrow> (string \<times> pyval) list" where
  "call_dict r = [(''tool_use_id'', PStr (tc_use_id r)), (''name'', PStr (tc_name r)), (''arguments'', PDict (tc_args r)),
     (''status'', PStr (call_status_value (tc_status r))), (''suspend_reason'', opt_str_val (tc_reason r)),
     (''external_ref'', opt_str_val (tc_ref r)), (''capability_token'', opt_str_val (tc_token r)),
     (''result'', tc_result r), (''result_is_error'', PBool (tc_is_error r))]"

definition cont_dict :: "continuation \<Rightarrow> (string \<times> pyval) list" where
  "cont_dict c =
     [(''continuation_id'', PStr (c_id c)), (''pid'', PStr (c_pid c)), (''generation'', PInt (c_generation c)),
      (''run_id'', opt_str_val (c_run c)), (''session_id'', opt_str_val (c_session c)), (''tenant_id'', PStr (c_tenant c)),
      (''user_id'', PStr (c_user c)), (''namespace'', PStr (c_namespace c)), (''messages'', PList (c_messages c)),
      (''provider'', PStr (c_provider c)), (''chat_model'', PStr (c_model c)), (''endpoint'', opt_str_val (c_endpoint c)),
      (''api_key_ref'', opt_str_val (c_key_ref c)),
      (''tool_definitions'', case c_tools c of None \<Rightarrow> PNone | Some ts \<Rightarrow> PList ts), (''step_index'', PInt (int (c_step c))),
      (''max_turns'', PInt (int (c_max_turns c))), (''goal'', opt_str_val (c_goal c)),
      (''status'', PStr (cont_status_value (c_status c))), (''suspend_reason'', opt_str_val (c_suspend_reason c)),
      (''pending_calls'', PList (map (\<lambda>r. PDict (call_dict r)) (c_pending c))),
      (''resource_usage'', PDict (dmap PInt (c_usage c))), (''budget_tickets'', PList (map PStr (c_tickets c))),
      (''source'', PStr (c_source c)), (''enqueue_epoch'', PInt (int (c_epoch c))),
      (''parent_continuation_id'', opt_str_val (c_parent c)), (''last_error'', opt_str_val (c_error c)),
      (''final_output'', PStr (c_output c)), (''created_at'', PInt (c_created c)), (''updated_at'', PInt (c_updated c))]"

subsection \<open>Decoding\<close>

definition as_call_status :: "pyval \<Rightarrow> call_status res" where
  "as_call_status v = (if v = PStr ''pending'' then Inr TPending else if v = PStr ''executed'' then Inr TExecuted
     else if v = PStr ''rejected'' then Inr TRejected else Inl untyped)"

definition as_cont_status :: "pyval \<Rightarrow> cont_status res" where
  "as_cont_status v = (if v = PStr ''running'' then Inr CRunning else if v = PStr ''suspended'' then Inr CSuspended
     else if v = PStr ''resuming'' then Inr CResuming else if v = PStr ''done'' then Inr CDone
     else if v = PStr ''failed'' then Inr CFailed else Inl untyped)"

definition as_usage :: "pyval \<Rightarrow> (string, int) dict res" where
  "as_usage v = rbind (as_dict v) (all_of (\<lambda>(k, x). rbind (as_int x) (\<lambda>i. Inr (k, i))))"

definition call_of_dict :: "(string \<times> pyval) list \<Rightarrow> tool_call res" where
  "call_of_dict d =
     rbind (kwarg d ''tool_use_id'' (Inl TypeError) as_str) (\<lambda>i.
     rbind (kwarg d ''name'' (Inl TypeError) as_str) (\<lambda>n.
     rbind (kwarg d ''arguments'' (Inr []) as_dict) (\<lambda>args.
     rbind (kwarg d ''status'' (Inr TPending) as_call_status) (\<lambda>st.
     rbind (kwarg d ''suspend_reason'' (Inr None) as_opt_str) (\<lambda>why.
     rbind (kwarg d ''external_ref'' (Inr None) as_opt_str) (\<lambda>ref.
     rbind (kwarg d ''capability_token'' (Inr None) as_opt_str) (\<lambda>tok.
     rbind (kwarg d ''result'' (Inr PNone) Inr) (\<lambda>r.
     rbind (kwarg d ''result_is_error'' (Inr False) as_bool) (\<lambda>err.
       Inr \<lparr>tc_use_id = i, tc_name = n, tc_args = args, tc_status = st, tc_reason = why, tc_ref = ref, tc_token = tok,
            tc_result = r, tc_is_error = err\<rparr>)))))))))"

text \<open>\<open>data.get("pending_calls") or []\<close>\<close>

definition as_calls :: "pyval \<Rightarrow> tool_call list res" where
  "as_calls v = (if \<not> truthy v then Inr [] else rbind (as_list v) (all_of (\<lambda>x. rbind (as_dict x) call_of_dict)))"

definition as_tools :: "pyval \<Rightarrow> pyval list option res" where
  "as_tools v = (case v of PNone \<Rightarrow> Inr None | PList ts \<Rightarrow> Inr (Some ts) | _ \<Rightarrow> Inl untyped)"

text \<open>The fresh id and the time are the defaults of \<open>continuation_id\<close> and the two time stamps.\<close>

definition cont_of_dict :: "string \<Rightarrow> time \<Rightarrow> (string \<times> pyval) list \<Rightarrow> continuation res" where
  "cont_of_dict fresh now d =
     rbind (kwarg d ''continuation_id'' (Inr fresh) as_str) (\<lambda>i.
     rbind (kwarg d ''pid'' (Inr []) as_str) (\<lambda>pid.
     rbind (kwarg d ''generation'' (Inr 1) as_int) (\<lambda>gen.
     rbind (kwarg d ''run_id'' (Inr None) as_opt_str) (\<lambda>run.
     rbind (kwarg d ''session_id'' (Inr None) as_opt_str) (\<lambda>session.
     rbind (kwarg d ''tenant_id'' (Inr ''default'') as_str) (\<lambda>tenant.
     rbind (kwarg d ''user_id'' (Inr ''default'') as_str) (\<lambda>user.
     rbind (kwarg d ''namespace'' (Inr ''default'') as_str) (\<lambda>ns.
     rbind (kwarg d ''messages'' (Inr []) as_list) (\<lambda>msgs.
     rbind (kwarg d ''provider'' (Inr ''anthropic'') as_str) (\<lambda>prov.
     rbind (kwarg d ''chat_model'' (Inr []) as_str) (\<lambda>model.
     rbind (kwarg d ''endpoint'' (Inr None) as_opt_str) (\<lambda>endpoint.
     rbind (kwarg d ''api_key_ref'' (Inr None) as_opt_str) (\<lambda>key.
     rbind (kwarg d ''tool_definitions'' (Inr None) as_tools) (\<lambda>tools.
     rbind (kwarg d ''step_index'' (Inr 0) as_nat) (\<lambda>step.
     rbind (kwarg d ''max_turns'' (Inr 300) as_nat) (\<lambda>turns.
     rbind (kwarg d ''goal'' (Inr None) as_opt_str) (\<lambda>goal.
     rbind (kwarg d ''status'' (Inr CRunning) as_cont_status) (\<lambda>st.
     rbind (kwarg d ''suspend_reason'' (Inr None) as_opt_str) (\<lambda>why.
     rbind (kwarg d ''pending_calls'' (Inr []) as_calls) (\<lambda>calls.
     rbind (kwarg d ''resource_usage'' (Inr []) as_usage) (\<lambda>usage.
     rbind (kwarg d ''budget_tickets'' (Inr []) (\<lambda>v. rbind (as_list v) (all_of as_str))) (\<lambda>tickets.
     rbind (kwarg d ''source'' (Inr ''manual'') as_str) (\<lambda>src.
     rbind (kwarg d ''enqueue_epoch'' (Inr 0) as_nat) (\<lambda>epoch.
     rbind (kwarg d ''parent_continuation_id'' (Inr None) as_opt_str) (\<lambda>parent.
     rbind (kwarg d ''last_error'' (Inr None) as_opt_str) (\<lambda>err.
     rbind (kwarg d ''final_output'' (Inr []) as_str) (\<lambda>out.
     rbind (kwarg d ''created_at'' (Inr now) as_int) (\<lambda>created.
     rbind (kwarg d ''updated_at'' (Inr now) as_int) (\<lambda>updated.
       Inr \<lparr>c_id = i, c_pid = pid, c_generation = gen, c_run = run, c_session = session, c_tenant = tenant, c_user = user,
            c_namespace = ns, c_messages = msgs, c_provider = prov, c_model = model, c_endpoint = endpoint, c_key_ref = key,
            c_tools = tools, c_step = step, c_max_turns = turns, c_goal = goal, c_status = st, c_suspend_reason = why,
            c_pending = calls, c_usage = usage, c_tickets = tickets, c_source = src, c_epoch = epoch, c_parent = parent,
            c_error = err, c_output = out, c_created = created, c_updated = updated\<rparr>)))))))))))))))))))))))))))))"

subsection \<open>The round trip\<close>

lemma as_call_status_value [simp]: "as_call_status (PStr (call_status_value s)) = Inr s"
  by (cases s) (simp_all add: as_call_status_def)

lemma as_cont_status_value [simp]: "as_cont_status (PStr (cont_status_value s)) = Inr s"
  by (cases s) (simp_all add: as_cont_status_def)

lemma call_roundtrip [simp]: "call_of_dict (call_dict r) = Inr r"
  by (simp add: call_of_dict_def call_dict_def)

lemma as_calls_roundtrip [simp]: "as_calls (PList (map (\<lambda>r. PDict (call_dict r)) rs)) = Inr rs"
  using all_of_map [of "\<lambda>x. rbind (as_dict x) call_of_dict" "\<lambda>r. PDict (call_dict r)" id rs] by (simp add: as_calls_def)

lemma as_usage_roundtrip [simp]: "as_usage (PDict (dmap PInt u)) = Inr u"
  using all_of_map [of "\<lambda>(k, x). rbind (as_int x) (\<lambda>i. Inr (k, i))" "\<lambda>(k, i). (k, PInt i)" id u]
  by (simp add: as_usage_def dmap_def split_beta)

lemma as_tools_roundtrip [simp]: "as_tools (case ts of None \<Rightarrow> PNone | Some ts \<Rightarrow> PList ts) = Inr ts"
  by (simp add: as_tools_def split: option.split)

lemma cont_fields [simp]:
  "kwarg (cont_dict c @ u) ''continuation_id'' x f = f (PStr (c_id c))"
  "kwarg (cont_dict c @ u) ''pid'' x f = f (PStr (c_pid c))"
  "kwarg (cont_dict c @ u) ''generation'' x f = f (PInt (c_generation c))"
  "kwarg (cont_dict c @ u) ''run_id'' x f = f (opt_str_val (c_run c))"
  "kwarg (cont_dict c @ u) ''session_id'' x f = f (opt_str_val (c_session c))"
  "kwarg (cont_dict c @ u) ''tenant_id'' x f = f (PStr (c_tenant c))"
  "kwarg (cont_dict c @ u) ''user_id'' x f = f (PStr (c_user c))"
  "kwarg (cont_dict c @ u) ''namespace'' x f = f (PStr (c_namespace c))"
  "kwarg (cont_dict c @ u) ''messages'' x f = f (PList (c_messages c))"
  "kwarg (cont_dict c @ u) ''provider'' x f = f (PStr (c_provider c))"
  "kwarg (cont_dict c @ u) ''chat_model'' x f = f (PStr (c_model c))"
  "kwarg (cont_dict c @ u) ''endpoint'' x f = f (opt_str_val (c_endpoint c))"
  "kwarg (cont_dict c @ u) ''api_key_ref'' x f = f (opt_str_val (c_key_ref c))"
  "kwarg (cont_dict c @ u) ''tool_definitions'' x f = f (case c_tools c of None \<Rightarrow> PNone | Some ts \<Rightarrow> PList ts)"
  "kwarg (cont_dict c @ u) ''step_index'' x f = f (PInt (int (c_step c)))"
  "kwarg (cont_dict c @ u) ''max_turns'' x f = f (PInt (int (c_max_turns c)))"
  "kwarg (cont_dict c @ u) ''goal'' x f = f (opt_str_val (c_goal c))"
  "kwarg (cont_dict c @ u) ''status'' x f = f (PStr (cont_status_value (c_status c)))"
  "kwarg (cont_dict c @ u) ''suspend_reason'' x f = f (opt_str_val (c_suspend_reason c))"
  "kwarg (cont_dict c @ u) ''pending_calls'' x f = f (PList (map (\<lambda>r. PDict (call_dict r)) (c_pending c)))"
  "kwarg (cont_dict c @ u) ''resource_usage'' x f = f (PDict (dmap PInt (c_usage c)))"
  "kwarg (cont_dict c @ u) ''budget_tickets'' x f = f (PList (map PStr (c_tickets c)))"
  "kwarg (cont_dict c @ u) ''source'' x f = f (PStr (c_source c))"
  "kwarg (cont_dict c @ u) ''enqueue_epoch'' x f = f (PInt (int (c_epoch c)))"
  "kwarg (cont_dict c @ u) ''parent_continuation_id'' x f = f (opt_str_val (c_parent c))"
  "kwarg (cont_dict c @ u) ''last_error'' x f = f (opt_str_val (c_error c))"
  "kwarg (cont_dict c @ u) ''final_output'' x f = f (PStr (c_output c))"
  "kwarg (cont_dict c @ u) ''created_at'' x f = f (PInt (c_created c))"
  "kwarg (cont_dict c @ u) ''updated_at'' x f = f (PInt (c_updated c))"
  by (simp_all add: kwarg_def cont_dict_def)

text \<open>
  A continuation survives its dictionary: decoding returns it exactly, keys that the class does not know
  are ignored, and a row written before the fields \<open>user_id\<close>, \<open>endpoint\<close> and \<open>api_key_ref\<close> existed decodes
  with their defaults and is otherwise unchanged.
\<close>

theorem continuation_roundtrip:
  "cont_of_dict fresh now (cont_dict c @ unknown) = Inr c \<and>
   cont_of_dict fresh now (filter (\<lambda>(k, v). k \<notin> {''user_id'', ''endpoint'', ''api_key_ref''}) (cont_dict c)) =
     Inr (c\<lparr>c_user := ''default'', c_endpoint := None, c_key_ref := None\<rparr>)"
  unfolding cont_of_dict_def kwarg_filter by (simp add: cont_fields [where u = "[]", simplified append_Nil2])

lemma cont_decode [simp]: "cont_of_dict fresh now (cont_dict c) = Inr c"
  unfolding cont_of_dict_def by (simp add: cont_fields [where u = "[]", simplified append_Nil2])

subsection \<open>The SQLite store\<close>

record cont_row =
  cr_id :: string
  cr_pid :: string
  cr_tenant :: string
  cr_status :: string
  cr_updated :: time
  cr_data :: pyval

record sql_conts =
  sq_rows :: "(string, cont_row) dict"
  sq_refs :: "(string, string) dict"

definition empty_sql :: sql_conts where
  "empty_sql = \<lparr>sq_rows = [], sq_refs = []\<rparr>"

definition cont_row_of :: "continuation \<Rightarrow> cont_row" where
  "cont_row_of c = \<lparr>cr_id = c_id c, cr_pid = c_pid c, cr_tenant = c_tenant c, cr_status = cont_status_value (c_status c),
     cr_updated = c_updated c, cr_data = PDict (cont_dict c)\<rparr>"

text \<open>\<open>from_dict(json.loads(row["data"]))\<close>; an absent row is \<open>None\<close>.\<close>

definition hydrate :: "string \<Rightarrow> time \<Rightarrow> cont_row option \<Rightarrow> continuation option res" where
  "hydrate fresh now r = (case r of None \<Rightarrow> Inr None
     | Some r \<Rightarrow> rbind (as_dict (cr_data r)) (\<lambda>d. rbind (cont_of_dict fresh now d) (\<lambda>c. Inr (Some c))))"

definition csql_save :: "time \<Rightarrow> continuation \<Rightarrow> sql_conts \<Rightarrow> sql_conts" where
  "csql_save now c s = s\<lparr>sq_rows := dset (c_id c) (cont_row_of (touch now c)) (sq_rows s)\<rparr>"

definition csql_load :: "string \<Rightarrow> time \<Rightarrow> sql_conts \<Rightarrow> string \<Rightarrow> continuation option res" where
  "csql_load fresh now s i = hydrate fresh now (map_of (sq_rows s) i)"

text \<open>
  \<open>ORDER BY updated_at DESC LIMIT 1\<close> is the parameter \<open>latest\<close>: SQL does not say which of several rows
  with the same time it returns.
\<close>

definition csql_load_for_pid :: "(cont_row list \<Rightarrow> cont_row option) \<Rightarrow> string \<Rightarrow> time \<Rightarrow> sql_conts \<Rightarrow> string \<Rightarrow> cont_status option \<Rightarrow>
    continuation option res" where
  "csql_load_for_pid latest fresh now s p st =
     hydrate fresh now (latest (filter (\<lambda>r. cr_pid r = p \<and> (case st of None \<Rightarrow> True | Some x \<Rightarrow> cr_status r = cont_status_value x))
       (dvals (sq_rows s))))"

text \<open>\<open>json_extract(data, '$.session_id')\<close>\<close>

definition row_session :: "cont_row \<Rightarrow> pyval" where
  "row_session r = (case cr_data r of PDict d \<Rightarrow> dget_default d ''session_id'' PNone | _ \<Rightarrow> PNone)"

definition csql_load_latest_for_session :: "(cont_row list \<Rightarrow> cont_row option) \<Rightarrow> string \<Rightarrow> time \<Rightarrow> sql_conts \<Rightarrow> string \<Rightarrow>
    cont_status option \<Rightarrow> continuation option res" where
  "csql_load_latest_for_session latest fresh now s i st =
     hydrate fresh now (latest (filter (\<lambda>r. row_session r = PStr i \<and>
       (case st of None \<Rightarrow> True | Some x \<Rightarrow> cr_status r = cont_status_value x)) (dvals (sq_rows s))))"

definition csql_find_by_ref :: "string \<Rightarrow> time \<Rightarrow> sql_conts \<Rightarrow> string \<Rightarrow> continuation option res" where
  "csql_find_by_ref fresh now s r = (case map_of (sq_refs s) r of None \<Rightarrow> Inr None | Some i \<Rightarrow> csql_load fresh now s i)"

definition csql_index_ref :: "string \<Rightarrow> string \<Rightarrow> sql_conts \<Rightarrow> sql_conts" where
  "csql_index_ref r i s = s\<lparr>sq_refs := dset r i (sq_refs s)\<rparr>"

definition csql_delete :: "string \<Rightarrow> sql_conts \<Rightarrow> bool \<times> sql_conts" where
  "csql_delete i s = (map_of (sq_rows s) i \<noteq> None,
     s\<lparr>sq_rows := dpop i (sq_rows s), sq_refs := filter (\<lambda>(r, j). j \<noteq> i) (sq_refs s)\<rparr>)"

definition csql_list_suspended :: "string \<Rightarrow> time \<Rightarrow> sql_conts \<Rightarrow> continuation list res" where
  "csql_list_suspended fresh now s =
     all_of (\<lambda>r. rbind (as_dict (cr_data r)) (cont_of_dict fresh now)) (filter (\<lambda>r. cr_status r = ''suspended'') (dvals (sq_rows s)))"

text \<open>What SQL promises of the query.\<close>

locale sql_latest =
  fixes latest :: "cont_row list \<Rightarrow> cont_row option"
  assumes latest_none: "latest rs = None \<longleftrightarrow> rs = []"
    and latest_mem: "latest rs = Some r \<Longrightarrow> r \<in> set rs"
    and latest_max: "latest rs = Some r \<Longrightarrow> r' \<in> set rs \<Longrightarrow> cr_updated r' \<le> cr_updated r"
begin

lemma latest_unique:
  assumes "latest rs = Some r" and "r' \<in> set rs" and "\<And>x. x \<in> set rs \<Longrightarrow> cr_updated x \<le> cr_updated r'"
    and "inj_on cr_updated (set rs)"
  shows "r = r'"
proof -
  from assms(1) latest_mem have r: "r \<in> set rs" by blast
  have "cr_updated r = cr_updated r'"
    using latest_max [OF assms(1,2)] assms(3) [OF r] by simp
  with assms(4) r assms(2) show ?thesis by (auto dest: inj_onD)
qed

end

text \<open>The first of the most recent rows is one such choice.\<close>

fun newest_row :: "cont_row list \<Rightarrow> cont_row option" where
  "newest_row [] = None"
| "newest_row (r # rs) = (case newest_row rs of None \<Rightarrow> Some r
     | Some q \<Rightarrow> if cr_updated r < cr_updated q then Some q else Some r)"

lemma newest_row_mem: "newest_row rs = Some r \<Longrightarrow> r \<in> set rs"
  by (induction rs arbitrary: r) (auto split: option.splits if_splits)

lemma newest_row_none: "newest_row rs = None \<longleftrightarrow> rs = []"
  by (cases rs) (auto split: option.splits)

lemma newest_row_max: "newest_row rs = Some r \<Longrightarrow> r' \<in> set rs \<Longrightarrow> cr_updated r' \<le> cr_updated r"
proof (induction rs arbitrary: r)
  case (Cons a rs)
  show ?case
  proof (cases "newest_row rs")
    case None
    with Cons.prems show ?thesis by (auto simp: newest_row_none)
  next
    case (Some q)
    with Cons.prems Cons.IH [of q] show ?thesis by (auto split: if_splits)
  qed
qed simp

interpretation newest: sql_latest newest_row
  by unfold_locales (auto intro: newest_row_mem newest_row_max simp: newest_row_none)

subsection \<open>It behaves as the store in memory\<close>

text \<open>The rows are the continuations of the in-memory store, row for row.\<close>

definition stores_same :: "sql_conts \<Rightarrow> cont_store \<Rightarrow> bool" where
  "stores_same s m \<longleftrightarrow> sq_rows s = dmap cont_row_of (cs_by_id m) \<and> sq_refs s = cs_refs m"

lemma hydrate_row [simp]: "hydrate fresh now (map_option cont_row_of c) = Inr c"
  by (cases c) (simp_all add: hydrate_def cont_row_of_def)

lemma same_empty: "stores_same empty_sql empty_conts"
  by (simp add: stores_same_def empty_sql_def empty_conts_def dmap_def)

lemma same_save: "stores_same s m \<Longrightarrow> stores_same (csql_save now c s) (cs_save now c m)"
  by (simp add: stores_same_def csql_save_def cs_save_def)

lemma same_index: "stores_same s m \<Longrightarrow> stores_same (csql_index_ref r i s) (cs_index_ref r i m)"
  by (simp add: stores_same_def csql_index_ref_def cs_index_ref_def)

lemma same_delete: "stores_same s m \<Longrightarrow> fst (csql_delete i s) = fst (cs_delete i m) \<and> stores_same (snd (csql_delete i s)) (snd (cs_delete i m))"
  by (simp add: stores_same_def csql_delete_def cs_delete_def)

lemma same_load: "stores_same s m \<Longrightarrow> csql_load fresh now s i = Inr (cs_load m i)"
  by (simp add: stores_same_def csql_load_def cs_load_def)

lemma same_list: "stores_same s m \<Longrightarrow> csql_list_suspended fresh now s = Inr (cs_list_suspended m)"
proof -
  assume same: "stores_same s m"
  have susp: "cr_status (cont_row_of c) = ''suspended'' \<longleftrightarrow> c_status c = CSuspended" for c
    by (cases "c_status c") (simp_all add: cont_row_of_def)
  have "filter (\<lambda>r. cr_status r = ''suspended'') (dvals (sq_rows s)) =
      map cont_row_of (filter (\<lambda>c. c_status c = CSuspended) (dvals (cs_by_id m)))"
    using same by (simp add: stores_same_def filter_map comp_def susp)
  moreover have "all_of (\<lambda>r. rbind (as_dict (cr_data r)) (cont_of_dict fresh now)) (map cont_row_of cs) = Inr cs" for cs
    using all_of_map [of "\<lambda>r. rbind (as_dict (cr_data r)) (cont_of_dict fresh now)" cont_row_of id cs] by (simp add: cont_row_of_def)
  ultimately show ?thesis by (simp add: csql_list_suspended_def cs_list_suspended_def)
qed

lemma same_find:
  "stores_same s m \<Longrightarrow> map_of (cs_refs m) r \<noteq> Some [] \<Longrightarrow> csql_find_by_ref fresh now s r = Inr (cs_find_by_ref m r)"
  using same_load [of s m]
  by (auto simp: csql_find_by_ref_def cs_find_by_ref_def stores_same_def split: option.split)

lemma row_of_updated [simp]: "cr_updated (cont_row_of c) = c_updated c" "cr_pid (cont_row_of c) = c_pid c" "row_session (cont_row_of c) = opt_str_val (c_session c)"
  by (simp_all add: cont_row_of_def row_session_def cont_dict_def dget_default_def)

lemma opt_str_val_PStr [simp]: "opt_str_val x = PStr i \<longleftrightarrow> x = Some i"
  by (simp add: opt_str_val_def split: option.split)

lemma cont_status_value_inj [simp]: "cont_status_value x = cont_status_value y \<longleftrightarrow> x = y"
  by (cases x; cases y) simp_all

lemma status_filter:
  "(case st of None \<Rightarrow> True | Some x \<Rightarrow> cr_status (cont_row_of c) = cont_status_value x) \<longleftrightarrow> (st = None \<or> st = Some (c_status c))"
  by (auto simp: cont_row_of_def split: option.split)

text \<open>A query for the latest row among rows with distinct times finds what the in-memory search finds.\<close>

lemma latest_of_rows:
  assumes "sql_latest latest" and "inj_on c_updated (set cs)"
  shows "latest (map cont_row_of cs) = map_option cont_row_of (most_recent cs)"
proof (cases "most_recent cs")
  case None
  then have "cs = []" by (simp only: most_recent_None)
  moreover have "latest [] = None" using sql_latest.latest_none [OF assms(1), of "[]"] by (simp only: refl)
  ultimately show ?thesis by simp
next
  case (Some c)
  have ne: "latest (map cont_row_of cs) \<noteq> None"
    using Some sql_latest.latest_none [OF assms(1), of "map cont_row_of cs"] by auto
  then obtain r where r: "latest (map cont_row_of cs) = Some r" by blast
  have "r = cont_row_of c"
  proof (rule sql_latest.latest_unique [OF assms(1) r])
    show "cont_row_of c \<in> set (map cont_row_of cs)" using most_recent_mem [OF Some] by simp
    show "cr_updated x \<le> cr_updated (cont_row_of c)" if "x \<in> set (map cont_row_of cs)" for x
      using that most_recent_upper [OF Some] by auto
    show "inj_on cr_updated (set (map cont_row_of cs))"
      using assms(2) by (auto simp: inj_on_def)
  qed
  with r Some show ?thesis by simp
qed

lemma same_load_for_pid:
  assumes "stores_same s m" and "sql_latest latest" and "inj_on c_updated (set (cs_list_all m))"
  shows "csql_load_for_pid latest fresh now s p st = Inr (cs_load_for_pid m p st)"
proof -
  let ?cs = "filter (\<lambda>c. c_pid c = p \<and> (st = None \<or> st = Some (c_status c))) (dvals (cs_by_id m))"
  have "filter (\<lambda>r. cr_pid r = p \<and> (case st of None \<Rightarrow> True | Some x \<Rightarrow> cr_status r = cont_status_value x)) (dvals (sq_rows s)) =
      map cont_row_of ?cs"
    using assms(1) by (simp add: stores_same_def filter_map comp_def status_filter)
  moreover have "inj_on c_updated (set ?cs)"
    using assms(3) by (rule inj_on_subset) (auto simp: cs_list_all_def)
  ultimately show ?thesis
    using latest_of_rows [OF assms(2)] by (simp add: csql_load_for_pid_def cs_load_for_pid_def)
qed

lemma same_load_for_session:
  assumes "stores_same s m" and "sql_latest latest" and "inj_on c_updated (set (cs_list_all m))"
  shows "csql_load_latest_for_session latest fresh now s i st = Inr (cs_load_latest_for_session m i st)"
proof -
  let ?cs = "filter (\<lambda>c. c_session c = Some i \<and> (st = None \<or> st = Some (c_status c))) (dvals (cs_by_id m))"
  have "filter (\<lambda>r. row_session r = PStr i \<and> (case st of None \<Rightarrow> True | Some x \<Rightarrow> cr_status r = cont_status_value x)) (dvals (sq_rows s)) =
      map cont_row_of ?cs"
    using assms(1) by (simp add: stores_same_def filter_map comp_def status_filter)
  moreover have "inj_on c_updated (set ?cs)"
    using assms(3) by (rule inj_on_subset) (auto simp: cs_list_all_def)
  ultimately show ?thesis
    using latest_of_rows [OF assms(2)] by (simp add: csql_load_latest_for_session_def cs_load_latest_for_session_def)
qed

datatype store_op = OSave time continuation | OIndex string string | ODelete string

fun csql_do :: "store_op \<Rightarrow> sql_conts \<Rightarrow> sql_conts" where
  "csql_do (OSave now c) s = csql_save now c s"
| "csql_do (OIndex r i) s = csql_index_ref r i s"
| "csql_do (ODelete i) s = snd (csql_delete i s)"

fun mem_do :: "store_op \<Rightarrow> cont_store \<Rightarrow> cont_store" where
  "mem_do (OSave now c) s = cs_save now c s"
| "mem_do (OIndex r i) s = cs_index_ref r i s"
| "mem_do (ODelete i) s = snd (cs_delete i s)"

fun names_ids :: "store_op \<Rightarrow> bool" where
  "names_ids (OIndex r i) = (i \<noteq> [])"
| "names_ids _ = True"

lemma same_run: "stores_same s m \<Longrightarrow> stores_same (fold csql_do ops s) (fold mem_do ops m)"
proof (induction ops arbitrary: s m)
  case (Cons x ops)
  have "stores_same (csql_do x s) (mem_do x m)"
    using Cons.prems by (cases x) (simp_all add: same_save same_index same_delete)
  with Cons.IH show ?case by simp
qed simp

lemma refs_named_update: "list_all (\<lambda>(r, j). j \<noteq> []) d \<Longrightarrow> i \<noteq> [] \<Longrightarrow> list_all (\<lambda>(r, j). j \<noteq> []) (dset r i d)"
  by (induction d) auto

lemma refs_named:
  "list_all names_ids ops \<Longrightarrow> list_all (\<lambda>(r, j). j \<noteq> []) (cs_refs m) \<Longrightarrow>
    list_all (\<lambda>(r, j). j \<noteq> []) (cs_refs (fold mem_do ops m))"
proof (induction ops arbitrary: m)
  case (Cons x ops)
  have "list_all (\<lambda>(r, j). j \<noteq> []) (cs_refs (mem_do x m))"
  proof (cases x)
    case (OIndex r i)
    with Cons.prems show ?thesis by (simp add: cs_index_ref_def refs_named_update)
  next
    case (ODelete i)
    with Cons.prems show ?thesis by (auto simp: cs_delete_def list_all_iff)
  qed (use Cons.prems in simp)
  with Cons show ?case by simp
qed simp

text \<open>C32. 
  The SQLite store refines the store in memory: after the same operations on new stores, with references
  that name continuations, loads, lookups by reference, the list of parked runs and the answers of
  further deletions agree; so do the searches by process and by session when no two stored
  continuations carry the same time, for every behaviour that SQL allows the query.
\<close>

theorem sqlite_store_refines_memory:
  assumes "list_all names_ids ops" and "sql_latest latest"
    and "inj_on c_updated (set (cs_list_all (fold mem_do ops empty_conts)))"
  shows "let s = fold csql_do ops empty_sql; m = fold mem_do ops empty_conts in
    (\<forall>i. csql_load fresh now s i = Inr (cs_load m i) \<and> fst (csql_delete i s) = fst (cs_delete i m)) \<and>
    (\<forall>r. csql_find_by_ref fresh now s r = Inr (cs_find_by_ref m r)) \<and>
    csql_list_suspended fresh now s = Inr (cs_list_suspended m) \<and>
    (\<forall>p st. csql_load_for_pid latest fresh now s p st = Inr (cs_load_for_pid m p st)) \<and>
    (\<forall>i st. csql_load_latest_for_session latest fresh now s i st = Inr (cs_load_latest_for_session m i st))"
proof -
  let ?s = "fold csql_do ops empty_sql" and ?m = "fold mem_do ops empty_conts"
  have same: "stores_same ?s ?m" by (rule same_run [OF same_empty])
  have "list_all (\<lambda>(r, j). j \<noteq> []) (cs_refs ?m)"
    by (rule refs_named [OF assms(1)]) (simp add: empty_conts_def)
  then have named: "map_of (cs_refs ?m) r \<noteq> Some []" for r
    by (auto simp: list_all_iff dest!: map_of_SomeD)
  show ?thesis
    using same_load [OF same] same_delete [OF same] same_find [OF same named] same_list [OF same]
      same_load_for_pid [OF same assms(2,3)] same_load_for_session [OF same assms(2,3)]
    by (simp add: Let_def)
qed

definition demo_cont_row :: "string \<Rightarrow> continuation" where
  "demo_cont_row i = \<lparr>c_id = i, c_pid = ''p'', c_generation = 1, c_run = None, c_session = Some ''s'', c_tenant = ''t'', c_user = ''u'',
     c_namespace = ''n'', c_messages = [PDict [(''role'', PStr ''user'')]], c_provider = ''anthropic'', c_model = ''m'', c_endpoint = None,
     c_key_ref = None, c_tools = None, c_step = 2, c_max_turns = 9, c_goal = None, c_status = CSuspended,
     c_suspend_reason = Some ''human_approval'', c_pending = [new_call ''tu'' ''mail'' []], c_usage = [(''tokens_in'', 3)],
     c_tickets = [], c_source = ''manual'', c_epoch = 1, c_parent = None, c_error = None, c_output = [], c_created = 0, c_updated = 0\<rparr>"

definition demo_saves :: "store_op list" where
  "demo_saves = [OSave 5 (demo_cont_row ''a''), OIndex ''req'' ''a'', OSave 6 (demo_cont_row ''b'')]"

lemma sqlite_store_refines_memory_witness:
  "map_sum id (map_option c_id) (csql_find_by_ref ''x'' 9 (fold csql_do demo_saves empty_sql) ''req'') = Inr (Some ''a'') \<and>
   map_sum id (map_option c_id) (csql_load_for_pid newest_row ''x'' 9 (fold csql_do demo_saves empty_sql) ''p'' (Some CSuspended)) = Inr (Some ''b'')"
proof -
  let ?m = "fold mem_do demo_saves empty_conts"
  have named: "list_all names_ids demo_saves" by (simp add: demo_saves_def)
  have "map c_updated (cs_list_all ?m) = [5, 6]" by code_simp
  then have "distinct (map c_updated (cs_list_all ?m))" by simp
  then have inj: "inj_on c_updated (set (cs_list_all ?m))" by (simp only: distinct_map)
  have "map_option c_id (cs_find_by_ref ?m ''req'') = Some ''a''" and "map_option c_id (cs_load_for_pid ?m ''p'' (Some CSuspended)) = Some ''b''"
    by code_simp+
  with sqlite_store_refines_memory [OF named newest.sql_latest_axioms inj, of "''x''" 9] show ?thesis
    by (simp add: Let_def)
qed

end
