(* ===== verification/Lineage.thy ===== *)
theory Lineage
  imports Parking
begin

text \<open>
  Who a run is for never changes: the process, tenant, user, namespace, session and parent of a
  continuation, and the model, tools, goal and turn limit it was created with, survive every slice
  that \<open>drive\<close> and \<open>resume\<close> of \<open>src/src/runtime/engine.py\<close> execute, and no other continuation is touched.
\<close>

definition identity_of :: "continuation \<Rightarrow> (string \<times> int \<times> string option \<times> string option \<times> string \<times> string \<times> string) \<times>
    (string \<times> string \<times> string option \<times> string option \<times> pyval list option \<times> nat \<times> string option) \<times> string \<times> string option \<times> time" where
  "identity_of c = ((c_pid c, c_generation c, c_run c, c_session c, c_tenant c, c_user c, c_namespace c),
     (c_provider c, c_model c, c_endpoint c, c_key_ref c, c_tools c, c_max_turns c, c_goal c), c_source c, c_parent c, c_created c)"

definition same_run_as :: "continuation \<Rightarrow> continuation \<Rightarrow> bool" where
  "same_run_as c c' \<longleftrightarrow> c_id c' = c_id c \<and> identity_of c' = identity_of c"

lemma same_run_refl [simp]: "same_run_as c c"
  by (simp add: same_run_as_def)

lemma same_run_trans: "same_run_as a b \<Longrightarrow> same_run_as b c \<Longrightarrow> same_run_as a c"
  by (simp add: same_run_as_def)

lemma same_run_updates [simp]:
  "same_run_as c (d\<lparr>c_status := x\<rparr>) = same_run_as c d" "same_run_as c (d\<lparr>c_messages := ms\<rparr>) = same_run_as c d"
  "same_run_as c (d\<lparr>c_step := n\<rparr>) = same_run_as c d" "same_run_as c (d\<lparr>c_pending := rs\<rparr>) = same_run_as c d"
  "same_run_as c (d\<lparr>c_suspend_reason := w\<rparr>) = same_run_as c d" "same_run_as c (d\<lparr>c_error := e\<rparr>) = same_run_as c d"
  "same_run_as c (d\<lparr>c_output := out\<rparr>) = same_run_as c d" "same_run_as c (usage_add k i d) = same_run_as c d"
  "same_run_as c (touch now d) = same_run_as c d" "same_run_as c (fst (account r d st)) = same_run_as c d"
  by (simp_all add: same_run_as_def identity_of_def usage_add_def touch_def account_def)

text \<open>Only the entry of this continuation changed, and it still is the same run.\<close>

definition saves_only :: "continuation \<Rightarrow> 'w rt \<Rightarrow> 'w rt \<Rightarrow> bool" where
  "saves_only c st st' \<longleftrightarrow> (\<forall>j. cs_load (rt_conts st') j = cs_load (rt_conts st) j \<or>
     (j = c_id c \<and> (\<exists>c'. cs_load (rt_conts st') j = Some c' \<and> same_run_as c c')))"

lemma saves_nothing [simp]: "rt_conts st' = rt_conts st \<Longrightarrow> saves_only c st st'"
  by (simp add: saves_only_def)

lemma saves_trans: "saves_only c st st1 \<Longrightarrow> saves_only c st1 st2 \<Longrightarrow> saves_only c st st2"
  unfolding saves_only_def by metis

lemma saves_same: "saves_only d st st' \<Longrightarrow> same_run_as c d \<Longrightarrow> saves_only c st st'"
  unfolding saves_only_def by (metis same_run_as_def same_run_trans)

lemma saves_save: "same_run_as c d \<Longrightarrow> saves_only c st (save_cont env d st)"
  by (auto simp: saves_only_def same_run_as_def [of c d])

lemma saves_load_cong:
  "saves_only c st st1 \<Longrightarrow> (\<And>j. cs_load (rt_conts st1') j = cs_load (rt_conts st1) j) \<Longrightarrow> saves_only c st st1'"
  by (simp add: saves_only_def)

lemma saves_cong: "rt_conts st1' = rt_conts st1 \<Longrightarrow> saves_only c st st1' = saves_only c st st1"
  by (simp add: saves_only_def)

lemma saves_index [simp]: "saves_only c st (st1\<lparr>rt_conts := index_refs i rs (rt_conts st1)\<rparr>) = saves_only c st st1"
  by (simp add: saves_only_def)

lemma saves_transition [simp]: "saves_only c st (e_transition env d k st1) = saves_only c st st1"
  by (rule saves_cong) simp

lemma saves_complete: "same_run_as c d \<Longrightarrow> saves_only c st (snd (complete_run env d text n st))"
  by (simp add: complete_run_def Let_def saves_save)

lemma saves_fail: "same_run_as c d \<Longrightarrow> saves_only c st (snd (fail_run env d err st))"
  by (simp add: fail_run_def Let_def saves_save)

lemma saves_max_turns: "same_run_as c d \<Longrightarrow> saves_only c st (snd (max_turns_reached env d n st))"
  by (simp add: max_turns_reached_def Let_def saves_save)

lemma saves_suspend: "same_run_as c d \<Longrightarrow> saves_only c st (snd (suspend_run env d recs n st))"
  unfolding suspend_run_def Let_def snd_conv saves_transition
  by (rule saves_load_cong [OF saves_save [of c "d\<lparr>c_pending := recs, c_status := CSuspended, c_suspend_reason := _\<rparr>"]]) simp_all

subsection \<open>A turn\<close>

definition turn_same_run :: "continuation \<Rightarrow> 'w rt \<Rightarrow> (escape + turn_result) \<times> 'w rt \<Rightarrow> bool" where
  "turn_same_run c st x \<longleftrightarrow> saves_only c st (snd x) \<and> (\<forall>t. fst x = Inr t \<longrightarrow> same_run_as c (tr_cont t))"

lemma turn_same_run_trans: "saves_only c st st1 \<Longrightarrow> turn_same_run c st1 x \<Longrightarrow> turn_same_run c st x"
  using saves_trans by (auto simp: turn_same_run_def)

lemma turn_end_same_run: "saves_only c st (snd x) \<Longrightarrow> same_run_as c d \<Longrightarrow> turn_same_run c st (turn_end n evs d x)"
  by (simp add: turn_same_run_def turn_end_def)

lemma run_tools_same_run: "same_run_as c d \<Longrightarrow> turn_same_run c st (run_tools env ctx k r n evs d st)"
proof -
  assume d: "same_run_as c d"
  define d1 where "d1 = usage_add ''tool_calls'' (int (length (map record_of (lr_calls r))))
    (d\<lparr>c_messages := shape_assistant_turn k r (c_messages d)\<rparr>)"
  have d1: "same_run_as c d1" by (simp add: d1_def d)
  obtain xs st1 where disp: "dispatch_all env ctx d1 (map record_of (lr_calls r)) st = (xs, st1)" by fastforce
  have st1: "saves_only c st st1" using dispatch_all_conts(1) [of env ctx d1 "map record_of (lr_calls r)" st] by (simp add: disp)
  have park: "turn_same_run c st (turn_end n e d1 (suspend_run env d1 rs m st1))" for e rs m
    by (intro turn_end_same_run saves_trans [OF st1] saves_suspend d1)
  show ?thesis
  proof -
    let ?rs = "map2 settle_call (map record_of (lr_calls r)) xs"
    let ?d2 = "d1\<lparr>c_messages := shape_tool_results k ?rs (c_messages d1)\<rparr>"
    have d2: "same_run_as c ?d2" using d1 by simp
    have saved: "saves_only c st (save_cont env ?d2 st1)" by (rule saves_trans [OF st1 saves_save [OF d2]])
    obtain sigs table where sig: "check_signals (c_pid ?d2) (rt_table (save_cont env ?d2 st1)) = (sigs, table)" by fastforce
    let ?st3 = "(save_cont env ?d2 st1)\<lparr>rt_table := table\<rparr>"
    have st3: "saves_only c st ?st3" using saved by (simp add: saves_only_def)
    have fin: "turn_same_run c st (turn_end n e ?d2 (complete_run env ?d2 answer m ?st3))" for e answer m
      by (intro turn_end_same_run saves_trans [OF st3] saves_complete d2)
    show ?thesis
      unfolding run_tools_def Let_def d1_def [symmetric] disp prod.case sig
      using park fin [of _ "lr_text r" n] st3 d2 by (simp add: turn_same_run_def [of _ _ "(Inr _, _)"])
  qed
qed

lemma run_one_turn_same_run: "turn_same_run c st (run_one_turn env ctx turn n evs c st)"
proof -
  let ?c = "c\<lparr>c_step := turn\<rparr>"
  have same: "same_run_as c ?c" by simp
  obtain x w where chat: "ev_chat env (config_of ?c) (c_messages ?c) (tools_of ?c) (rt_world st) = (x, w)" by fastforce
  let ?st = "st\<lparr>rt_world := w\<rparr>"
  have st: "saves_only c st ?st" by simp
  have resp: "turn_same_run c st (run_response env ctx m evs r ?c ?st)" for m r
  proof -
    obtain c1 s1 where a: "account r ?c ?st = (c1, s1)" by fastforce
    have c1: "same_run_as c c1" using same_run_updates(10) [of c r ?c ?st] a by simp
    have s1: "saves_only c st s1" using account_conts(1) [of r ?c ?st] a by simp
    show ?thesis
      using turn_same_run_trans [OF s1 run_tools_same_run [OF c1]] turn_end_same_run [OF saves_trans [OF s1 saves_complete [OF c1]] c1]
      by (simp add: run_response_def a)
  qed
  have fail: "turn_same_run c st (turn_end m evs ?c (fail_run env ?c err ?st))" for m err
    by (intro turn_end_same_run saves_trans [OF st] saves_fail same)
  show ?thesis
    using chat resp fail by (cases x) (auto simp: run_one_turn_def Let_def turn_same_run_def [of _ _ "(Inl _, _)"] split: option.split)
qed

subsection \<open>Slices\<close>

lemma drive_loop_same_run: "same_run_as c d \<Longrightarrow> saves_only c st (snd (drive_loop env ctx n turn tokens evs d st))"
proof (induction n arbitrary: turn tokens evs d st)
  case 0
  then show ?case by (simp add: saves_max_turns)
next
  case (Suc n)
  obtain x st1 where t: "run_one_turn env ctx turn tokens evs d st = (x, st1)" by fastforce
  from run_one_turn_same_run [of d st env ctx turn tokens evs] have ok: "turn_same_run d st (x, st1)" by (simp add: t)
  then have st1: "saves_only c st st1" using saves_same Suc.prems by (auto simp: turn_same_run_def)
  show ?case
  proof (cases x)
    case (Inl e)
    with t st1 show ?thesis by simp
  next
    case (Inr r)
    with ok Suc.prems have "same_run_as c (tr_cont r)" using same_run_trans by (auto simp: turn_same_run_def)
    from saves_trans [OF st1 Suc.IH [OF this]] t Inr st1 show ?thesis by (simp split: option.split)
  qed
qed

lemma single_turn_same_run: "same_run_as c d \<Longrightarrow> saves_only c st (snd (single_turn env ctx d st))"
proof -
  assume d: "same_run_as c d"
  obtain x st1 where t: "run_one_turn env ctx (c_step d) 0 [] d st = (x, st1)" by fastforce
  from run_one_turn_same_run [of d st env ctx "c_step d" 0 "[]"] have ok: "turn_same_run d st (x, st1)" by (simp add: t)
  then have st1: "saves_only c st st1" using saves_same d by (auto simp: turn_same_run_def)
  show ?thesis
  proof (cases x)
    case (Inl e)
    with t st1 d show ?thesis by (simp add: single_turn_def Let_def saves_max_turns)
  next
    case (Inr r)
    with ok d have r: "same_run_as c (tr_cont r)" using same_run_trans by (auto simp: turn_same_run_def)
    let ?c1 = "(tr_cont r)\<lparr>c_step := c_step d + 1, c_status := CRunning\<rparr>"
    have c1: "same_run_as c ?c1" using r by simp
    have saved: "saves_only c st (save_cont env ?c1 st1)" by (rule saves_trans [OF st1 saves_save [OF c1]])
    from saves_trans [OF saved saves_max_turns [OF c1]] saved st1 t Inr d show ?thesis
      by (simp add: single_turn_def Let_def saves_max_turns split: option.split)
  qed
qed

lemma drive_or_step_same_run: "same_run_as c d \<Longrightarrow> saves_only c st (snd (drive_or_step env ctx d st))"
  by (simp add: drive_or_step_def drive_inline_def single_turn_same_run drive_loop_same_run)

lemma apply_resolution_same_run:
  assumes "same_run_as c d"
  shows "saves_only c st (snd (apply_resolution env ctx d rec rs st))"
    and "fst (apply_resolution env ctx d rec rs st) = Inr (d', rec') \<Longrightarrow> same_run_as c d'"
proof -
  obtain x st1 where a: "dispatch_authorized env ctx d (rec\<lparr>tc_token := rs_token rs\<rparr>) st = (x, st1)" by fastforce
  then have st1: "saves_only c st st1"
    using dispatch_authorized_conts(1) [of env ctx d "rec\<lparr>tc_token := rs_token rs\<rparr>" st] by simp
  have put: "same_run_as c (d\<lparr>c_pending := rs'\<rparr>)" for rs' using assms by simp
  show "saves_only c st (snd (apply_resolution env ctx d rec rs st))"
    using saves_save [OF put, of st env] saves_trans [OF st1 saves_save [OF put], of env] st1
    by (simp add: apply_resolution_def Let_def a split: outcome.split sum.split)
  show "fst (apply_resolution env ctx d rec rs st) = Inr (d', rec') \<Longrightarrow> same_run_as c d'"
    using put by (auto simp: apply_resolution_def Let_def a split: outcome.splits sum.splits)
qed

lemma settle_resume_same_run: "same_run_as c d \<Longrightarrow> saves_only c st (snd (settle_resume env ctx d rec st))"
proof -
  assume d: "same_run_as c d"
  let ?d1 = "d\<lparr>c_messages := shape_tool_results (provider_kind (c_provider d) (c_model d)) (c_pending d) (c_messages d),
                  c_pending := [], c_suspend_reason := None, c_status := CRunning, c_step := c_step d + 1\<rparr>"
  have d1: "same_run_as c ?d1" and d2: "same_run_as c (d\<lparr>c_status := CSuspended\<rparr>)" using d by simp_all
  have "saves_only c st (e_transition env ?d1 ''running'' (save_cont env ?d1 st))" using saves_save [OF d1] by simp
  from saves_trans [OF this drive_or_step_same_run [OF d1], of env ctx] saves_save [OF d2, of st env] show ?thesis
    by (simp add: settle_resume_def Let_def)
qed

lemma drive_same_run:
  assumes "cs_load (rt_conts st) i = Some c"
  shows "saves_only c st (snd (drive env ctx i st))"
proof -
  let ?c = "c\<lparr>c_status := CRunning\<rparr>"
  have same: "same_run_as c ?c" by simp
  have "saves_only c st (e_transition env ?c ''running'' (save_cont env ?c st))" using saves_save [OF same] by simp
  from saves_trans [OF this drive_or_step_same_run [OF same], of env ctx] assms show ?thesis
    by (simp add: drive_def Let_def)
qed

lemma resume_same_run:
  assumes "cs_load (rt_conts st) (rs_cont rs) = Some c"
  shows "saves_only c st (snd (resume env ctx rs st))"
proof -
  let ?c = "c\<lparr>c_status := CResuming\<rparr>"
  have same: "same_run_as c ?c" by simp
  have saved: "saves_only c st (save_cont env ?c st)" by (rule saves_save [OF same])
  have app: "saves_only c st (snd (apply_resolution env ctx ?c rec rs (save_cont env ?c st)))" for rec
    by (rule saves_trans [OF saved apply_resolution_same_run(1) [OF same]])
  have settle: "saves_only c st (snd (settle_resume env ctx ?c rec (save_cont env ?c st)))" for rec
    by (rule saves_trans [OF saved settle_resume_same_run [OF same]])
  have both: "saves_only c st (snd (settle_resume env ctx d rec' st2))"
    if "apply_resolution env ctx ?c rec rs (save_cont env ?c st) = (Inr (d, rec'), st2)" for rec d rec' st2
  proof -
    have "same_run_as c d" using apply_resolution_same_run(2) [OF same, of env ctx rec rs "save_cont env ?c st" d rec'] that
      by (simp del: same_run_updates)
    from saves_trans [OF _ settle_resume_same_run [OF this]] app [of rec] that show ?thesis by simp
  qed
  show ?thesis
    using assms saved app settle both
    by (auto simp: resume_def Let_def split: option.split sum.split prod.split) (metis snd_conv)+
qed

text \<open>C38. 
  A slice touches one continuation and keeps whose run it is: after \<open>drive\<close> or \<open>resume\<close>, whatever the
  model, the tools and the humans did, every stored continuation is still stored, unchanged if it is
  another one, and with the same process, tenant, user, namespace, session, parent, model, tools, goal
  and turn limit if it is the one that ran.
\<close>

theorem runs_keep_their_identity:
  assumes "cs_load (rt_conts st) i = Some c" and "cs_ok (rt_conts st)"
    and "st' = snd (drive env ctx j st) \<or> st' = snd (resume env ctx rs st) \<and> rs_cont rs = j"
  shows "\<exists>c'. cs_load (rt_conts st') i = Some c' \<and> identity_of c' = identity_of c \<and> (i = j \<or> c' = c)"
proof (cases "cs_load (rt_conts st) j")
  case None
  with assms(3) have "st' = st" by (auto simp: drive_def resume_def)
  with assms(1) show ?thesis by auto
next
  case (Some d)
  with conts.load_key [OF assms(2)] have j: "c_id d = j" by blast
  have "saves_only d st st'" using assms(3) drive_same_run [OF Some] resume_same_run [of st rs d] Some by auto
  then have "cs_load (rt_conts st') i = cs_load (rt_conts st) i \<or>
      i = j \<and> (\<exists>c'. cs_load (rt_conts st') i = Some c' \<and> same_run_as d c')"
    unfolding saves_only_def j by blast
  with assms(1) Some show ?thesis by (auto simp: same_run_as_def)
qed

lemma runs_keep_their_identity_witness:
  "\<exists>c'. cs_load (rt_conts (snd (drive (demo_eenv [''mail.send'']) [] ''c1'' (demo_rt [demo_cont ''c1''])))) ''c1'' = Some c' \<and>
     identity_of c' = identity_of (demo_cont ''c1'') \<and> c_status c' = CSuspended"
proof -
  let ?st = "demo_rt [demo_cont ''c1'']" and ?env = "demo_eenv [''mail.send'']"
  let ?st' = "snd (drive ?env [] ''c1'' ?st)"
  have l: "cs_load (rt_conts ?st) ''c1'' = Some (demo_cont ''c1'')" and ok: "cs_ok (rt_conts ?st)"
    by (simp_all add: demo_rt_def cs_ok_def keyed_def dict_ok_def cs_load_def demo_cont_def)
  obtain c' where c': "cs_load (rt_conts ?st') ''c1'' = Some c'" "identity_of c' = identity_of (demo_cont ''c1'')"
    using runs_keep_their_identity [OF l ok, of ?st' ?env "[]" "''c1''"] by blast
  have "map_option c_status (cs_load (rt_conts ?st') ''c1'') = Some CSuspended" by code_simp
  with c' show ?thesis by simp
qed

end
