(* ===== verification/ExecutorFacts.thy ===== *)
theory ExecutorFacts
  imports Executor
begin

text \<open>
  What the platform executor guarantees: a deployment takes effect completely or not at all, a stopped agent
  is detached from every trigger, a restarted autonomous loop continues where it was, recovery
  wires exactly the agents that may run; and where it fails.
\<close>

subsection \<open>Well-behaved collaborators\<close>

text \<open>An awaited call that is not cancelled and changes nothing of the platform but the world.\<close>

definition quiet :: "('w, 'a) awaited \<Rightarrow> bool" where
  "quiet f \<longleftrightarrow> (\<forall>s. (\<exists>w. snd (f s) = s\<lparr>pf_world := w\<rparr>) \<and> fst (f s) \<noteq> Inl Cancelled)"

definition quiet_adapter :: "'w adapter \<Rightarrow> bool" where
  "quiet_adapter ad \<longleftrightarrow> (\<forall>a. quiet (ad_scaffold ad a)) \<and> (\<forall>a. quiet (ad_create ad a)) \<and> (\<forall>k. quiet (ad_start_loop ad k)) \<and>
     (\<forall>k. quiet (ad_stop ad k)) \<and> quiet (ad_recover ad)"

definition quiet_env :: "'w xenv \<Rightarrow> bool" where
  "quiet_env env \<longleftrightarrow> (\<forall>st ad. map_of (xv_adapters env) st = Some ad \<longrightarrow> quiet_adapter ad) \<and>
     (\<forall>p s. \<exists>w. xv_rmtree env p s = s\<lparr>pf_world := w\<rparr>)"

lemma quietE:
  assumes "quiet f"
  obtains x w where "f s = (x, s\<lparr>pf_world := w\<rparr>)" and "x \<noteq> Inl Cancelled"
  using assms unfolding quiet_def by (metis prod.collapse)

definition platform_ok :: "'w platform \<Rightarrow> bool" where
  "platform_ok s \<longleftrightarrow> pt_ok (pf_table s) \<and> registry_of (pf_table s) \<noteq> None \<and> subs_ok (pf_bus s)"

lemma platform_registry: "platform_ok s \<Longrightarrow> registry_of (pf_table s) = Some (pf_registry s) \<and> reg_ok (pf_registry s)"
  by (auto simp: platform_ok_def pf_registry_def pt_ok_def)

subsection \<open>Frames\<close>

lemma world_frame [simp]: "pf_table (s\<lparr>pf_world := w\<rparr>) = pf_table s" "pf_registry (s\<lparr>pf_world := w\<rparr>) = pf_registry s"
  by (simp_all add: pf_registry_def)

lemma transition_frame [simp]:
  "pf_sched (x_transition env k ph why f s) = pf_sched s" "pf_bus (x_transition env k ph why f s) = pf_bus s"
  "pf_ckpts (x_transition env k ph why f s) = pf_ckpts s" "pf_auto (x_transition env k ph why f s) = pf_auto s"
  "pf_invoking (x_transition env k ph why f s) = pf_invoking s" "pf_sessions (x_transition env k ph why f s) = pf_sessions s"
  "pf_world (x_transition env k ph why f s) = pf_world s"
  by (simp_all add: x_transition_def)

lemma on_registry_frame [simp]:
  "pf_sched (on_registry g s) = pf_sched s" "pf_bus (on_registry g s) = pf_bus s" "pf_ckpts (on_registry g s) = pf_ckpts s"
  "pf_auto (on_registry g s) = pf_auto s" "pf_invoking (on_registry g s) = pf_invoking s"
  "pf_sessions (on_registry g s) = pf_sessions s" "pf_world (on_registry g s) = pf_world s"
  "processes (pf_table (on_registry g s)) = processes (pf_table s)" "pf_registry (on_registry g s) = g (pf_registry s)"
  by (simp_all add: on_registry_def pf_registry_def)

lemma set_status_frame [simp]:
  "pf_sched (set_status k st s) = pf_sched s" "pf_bus (set_status k st s) = pf_bus s" "pf_ckpts (set_status k st s) = pf_ckpts s"
  "pf_auto (set_status k st s) = pf_auto s" "pf_invoking (set_status k st s) = pf_invoking s"
  "pf_sessions (set_status k st s) = pf_sessions s" "pf_world (set_status k st s) = pf_world s"
  "processes (pf_table (set_status k st s)) = processes (pf_table s)"
  "pf_registry (set_status k st s) = reg_set_status k st (pf_registry s)"
  by (simp_all add: set_status_def)

lemma fold_subscribe:
  "subs_ok b \<Longrightarrow> subs_ok (fold (\<lambda>t. subscribe t k k) ts b)"
  "callback_of (fold (\<lambda>t. subscribe t k k) ts b) ev a = (if ev \<in> set ts \<and> a = k then Some k else callback_of b ev a)"
  by (induction ts arbitrary: b) (auto simp: subscribe_ok)

subsection \<open>One process among the others\<close>

text \<open>No other process is a child of this one.\<close>

definition childless :: "string \<Rightarrow> 'w platform \<Rightarrow> bool" where
  "childless k s \<longleftrightarrow> (\<forall>p \<in> set (dvals (processes (pf_table s))). parent_pid (ident p) \<noteq> Some k)"

lemma childless_on_registry [simp]: "childless k (on_registry g s) = childless k s"
  by (simp add: childless_def)

lemma childless_cascade: "childless k s \<Longrightarrow> cascade_to_children now k ph why (pf_table s) = pf_table s"
proof -
  assume "childless k s"
  then have "children_of (pf_table s) k = []" by (auto simp: childless_def children_of_def filter_empty_conv)
  then show ?thesis by (simp add: cascade_to_children_def)
qed

text \<open>The platform with one more process, under a key it did not have.\<close>

definition with_process :: "string \<Rightarrow> process \<Rightarrow> 'w platform \<Rightarrow> 'w platform" where
  "with_process k p s = s\<lparr>pf_table := (pf_table s)\<lparr>processes := processes (pf_table s) @ [(k, p)]\<rparr>\<rparr>"

lemma dset_absent: "map_of d k = None \<Longrightarrow> dset k v d = d @ [(k, v)]"
  by (induction d) (auto split: if_splits)

lemma dset_last: "map_of d k = None \<Longrightarrow> dset k v (d @ [(k, u)]) = d @ [(k, v)]"
  by (induction d) (auto split: if_splits)

lemma dpop_last: "map_of d k = None \<Longrightarrow> dpop k (d @ [(k, u)]) = d"
  by (induction d) (auto split: if_splits)

lemma with_process_frame [simp]:
  "pf_sched (with_process k p s) = pf_sched s" "pf_bus (with_process k p s) = pf_bus s" "pf_ckpts (with_process k p s) = pf_ckpts s"
  "pf_auto (with_process k p s) = pf_auto s" "pf_sessions (with_process k p s) = pf_sessions s" "pf_world (with_process k p s) = pf_world s"
  "pf_registry (with_process k p s) = pf_registry s" "registry_of (pf_table (with_process k p s)) = registry_of (pf_table s)"
  "processes (pf_table (with_process k p s)) = processes (pf_table s) @ [(k, p)]"
  "(with_process k p s)\<lparr>pf_world := w\<rparr> = with_process k p (s\<lparr>pf_world := w\<rparr>)"
  "on_registry g (with_process k p s) = with_process k p (on_registry g s)"
  by (simp_all add: with_process_def pf_registry_def on_registry_def)

definition fresh_process :: "string \<Rightarrow> process \<Rightarrow> 'w platform \<Rightarrow> bool" where
  "fresh_process k p s \<longleftrightarrow> map_of (processes (pf_table s)) k = None \<and> childless k s \<and> pid (ident p) = k \<and> parent_pid (ident p) \<noteq> Some k"

lemma fresh_world [simp]: "fresh_process k p (s\<lparr>pf_world := w\<rparr>) = fresh_process k p s"
  "fresh_process k p (on_registry g s) = fresh_process k p s"
  by (simp_all add: fresh_process_def childless_def)

lemma x_transition_new:
  assumes "fresh_process k p s" and "f \<or> can_transition (phase_of p) ph \<or> phase_of p = ph"
  shows "x_transition env k ph why f (with_process k p s) =
     (let p' = snd (proc_transition (xv_now env (with_process k p s)) ph why f p)
      in s\<lparr>pf_table := mirror_status p' (pf_table (with_process k p' s))\<rparr>)"
proof -
  let ?s = "with_process k p s"
  define p' where "p' = snd (proc_transition (xv_now env ?s) ph why f p)"
  have fresh: "map_of (processes (pf_table s)) k = None" using assms(1) by (simp add: fresh_process_def)
  have id: "ident p' = ident p" by (simp add: p'_def)
  have ok: "proc_transition (xv_now env ?s) ph why f p = (True, p')"
    using assms(2) proc_transition_ok [of "xv_now env ?s" ph why f p] by (auto simp: p'_def prod_eq_iff)
  have "childless k (with_process k p' s)"
    using assms(1) id by (auto simp: fresh_process_def childless_def)
  then have "children_of (pf_table (with_process k p' s)) k = []"
    by (auto simp: childless_def children_of_def filter_empty_conv)
  then have none: "cascade_to_children now k ph why (mirror_status p' (pf_table (with_process k p' s))) =
      mirror_status p' (pf_table (with_process k p' s))" for now
    by (simp add: cascade_to_children_def children_of_def)
  have look: "map_of (processes (pf_table ?s)) k = Some p" using fresh by (simp add: map_add_def)
  have upd: "(pf_table ?s)\<lparr>processes := dset k p' (processes (pf_table ?s))\<rparr> = pf_table (with_process k p' s)"
    using fresh by (simp add: with_process_def dset_last)
  have "snd (pt_transition (xv_now env ?s) k ph why f True (pf_table ?s)) = mirror_status p' (pf_table (with_process k p' s))"
    unfolding pt_transition_def look option.case ok Let_def prod.case upd using none by simp
  then show ?thesis unfolding x_transition_def p'_def [symmetric] Let_def by (simp add: with_process_def)
qed

lemma mirror_quiet: "phase_of p \<notin> set mirror_phases \<Longrightarrow> mirror_status p t = t"
  by (simp add: mirror_status_def split: option.split)

lemma x_transition_up:
  assumes "fresh_process k p s" and "can_transition (phase_of p) ph" and "ph \<in> {Starting, Running}"
  obtains p' where "x_transition env k ph [] False (with_process k p s) = with_process k p' s" and "phase_of p' = ph" and "ident p' = ident p"
    and "spec_ref p' = spec_ref p"
proof -
  let ?p = "snd (proc_transition (xv_now env (with_process k p s)) ph [] False p)"
  have ph: "phase_of ?p = ph" using assms(2) by (auto simp: proc_transition_def)
  with assms(3) have "mirror_status ?p t = t" for t by (intro mirror_quiet) (auto simp: mirror_phases_def)
  then have "x_transition env k ph [] False (with_process k p s) = with_process k ?p s"
    using x_transition_new [OF assms(1), of False ph env "[]"] assms(2) by (simp add: with_process_def)
  with ph that show ?thesis by simp
qed

lemma fresh_ident: "ident p' = ident p \<Longrightarrow> fresh_process k p' s = fresh_process k p s"
  by (simp add: fresh_process_def)

subsection \<open>Deployment\<close>

text \<open>What wiring the execution type leaves behind.\<close>

definition wired :: "agent_def \<Rightarrow> 'w platform \<Rightarrow> 'w platform" where
  "wired a s =
     (case a_execution a of
        AlwaysOn \<Rightarrow> set_status (a_id a) SRunning s
      | Scheduled \<Rightarrow> (case a_schedule a of
             None \<Rightarrow> s
           | Some cron \<Rightarrow> if cron = [] then s
                          else s\<lparr>pf_sched := add_job (a_id a) cron (a_id a, scheduled_prompt cron) (pf_sched s)\<rparr>)
      | EventDriven \<Rightarrow> s\<lparr>pf_bus := fold (\<lambda>t. subscribe t (a_id a) (a_id a)) (a_triggers a) (pf_bus s)\<rparr>
      | Reflex \<Rightarrow> set_status (a_id a) SIdle s
      | Autonomous \<Rightarrow> set_status (a_id a) SRunning (auto_add (a_id a) s))"

lemma wired_process: "wired a (with_process k p s) = with_process k p (wired a s)"
  by (simp add: wired_def with_process_def set_status_def on_registry_def auto_add_def pf_registry_def
      split: execution_type.split option.split)

lemma wired_fresh [simp]: "fresh_process k p (wired a s) = fresh_process k p s"
  by (simp add: wired_def fresh_process_def childless_def auto_add_def split: execution_type.split option.split)

lemma wire_execution_cases:
  assumes "quiet_adapter ad"
  obtains (raised) e w where "wire_execution ad a s = (Inl (Exc e), s\<lparr>pf_world := w\<rparr>)"
  | (wired) w where "wire_execution ad a s = (Inr (), wired a (s\<lparr>pf_world := w\<rparr>))"
proof (cases "a_execution a = AlwaysOn")
  case True
  from assms have "quiet (ad_start_loop ad (a_id a))" by (simp add: quiet_adapter_def)
  then obtain x w where x: "ad_start_loop ad (a_id a) s = (x, s\<lparr>pf_world := w\<rparr>)" "x \<noteq> Inl Cancelled" by (rule quietE)
  show ?thesis
  proof (cases x)
    case (Inl h)
    with x obtain e where "x = Inl (Exc e)" by (cases h) auto
    with x True show ?thesis using raised by (simp add: wire_execution_def)
  next
    case (Inr u)
    with x True show ?thesis using wired by (simp add: wire_execution_def wired_def)
  qed
next
  case False
  have "wire_execution ad a s = (Inr (), wired a (s\<lparr>pf_world := pf_world s\<rparr>))"
    using False by (auto simp: wire_execution_def wired_def split: execution_type.split option.split)
  then show ?thesis by (rule wired)
qed

lemma bring_up_cases:
  assumes quiet: "quiet_adapter ad" and fresh: "fresh_process (a_id a) p s" and adm: "phase_of p = Admitted"
  obtains (raised) e q w where "bring_up env ad a (with_process (a_id a) p s) = (Inl (Exc e), with_process (a_id a) q (s\<lparr>pf_world := w\<rparr>))"
      and "ident q = ident p"
  | (up) q w where "bring_up env ad a (with_process (a_id a) p s) = (Inr (), with_process (a_id a) q (wired a (s\<lparr>pf_world := w\<rparr>)))"
      and "ident q = ident p" and "phase_of q = Running"
proof -
  let ?k = "a_id a"
  from quiet have q: "quiet (ad_scaffold ad a)" "quiet (ad_create ad a)" by (simp_all add: quiet_adapter_def)
  obtain x w1 where x: "ad_scaffold ad a (with_process ?k p s) = (x, with_process ?k p (s\<lparr>pf_world := w1\<rparr>))" "x \<noteq> Inl Cancelled"
    using quietE [OF q(1), of "with_process ?k p s"] by (metis with_process_frame(10))
  show ?thesis
  proof (cases x)
    case (Inl h)
    with x obtain e where "x = Inl (Exc e)" by (cases h) auto
    with x raised [of e p w1] show ?thesis by (simp add: bring_up_def)
  next
    case (Inr u)
    have f1: "fresh_process ?k p (s\<lparr>pf_world := w1\<rparr>)" using fresh by simp
    have "can_transition (phase_of p) Starting" by (simp add: adm can_transition_def)
    then obtain p1 where p1: "x_transition env ?k Starting [] False (with_process ?k p (s\<lparr>pf_world := w1\<rparr>)) = with_process ?k p1 (s\<lparr>pf_world := w1\<rparr>)"
      "phase_of p1 = Starting" "ident p1 = ident p"
      using x_transition_up [OF f1, of Starting] by auto
    obtain y w2 where y: "ad_create ad a (with_process ?k p1 (s\<lparr>pf_world := w1\<rparr>)) = (y, with_process ?k p1 (s\<lparr>pf_world := w2\<rparr>))" "y \<noteq> Inl Cancelled"
      using quietE [OF q(2), of "with_process ?k p1 (s\<lparr>pf_world := w1\<rparr>)"] by (metis with_process_frame(10) platform.surjective platform.update_convs(8))
    show ?thesis
    proof (cases y)
      case (Inl h)
      with y obtain e where "y = Inl (Exc e)" by (cases h) auto
      with x p1 y Inr raised [of e p1 w2] show ?thesis by (simp add: bring_up_def)
    next
      case y2: (Inr v)
      note up1 = x(1) Inr p1(1) y(1) y2
      show ?thesis
      proof (rule wire_execution_cases [OF quiet, of a "with_process ?k p1 (s\<lparr>pf_world := w2\<rparr>)"])
        fix e w assume "wire_execution ad a (with_process ?k p1 (s\<lparr>pf_world := w2\<rparr>)) = (Inl (Exc e), (with_process ?k p1 (s\<lparr>pf_world := w2\<rparr>))\<lparr>pf_world := w\<rparr>)"
        with up1 p1(3) raised [of e p1 w] show ?thesis by (simp add: bring_up_def)
      next
        fix w assume w: "wire_execution ad a (with_process ?k p1 (s\<lparr>pf_world := w2\<rparr>)) = (Inr (), wired a ((with_process ?k p1 (s\<lparr>pf_world := w2\<rparr>))\<lparr>pf_world := w\<rparr>))"
        have f2: "fresh_process ?k p1 (wired a (s\<lparr>pf_world := w\<rparr>))" using fresh by (simp add: fresh_ident [OF p1(3)])
        have "can_transition (phase_of p1) Running" by (simp add: p1(2) can_transition_def)
        then obtain p2 where "x_transition env ?k Running [] False (with_process ?k p1 (wired a (s\<lparr>pf_world := w\<rparr>))) = with_process ?k p2 (wired a (s\<lparr>pf_world := w\<rparr>))"
          "phase_of p2 = Running" "ident p2 = ident p"
          using x_transition_up [OF f2, of Running] p1(3) by auto
        with up1 w up [of p2 w] show ?thesis by (simp add: bring_up_def wired_process)
      qed
    qed
  qed
qed

lemma registered_then_removed:
  assumes "reg_ok r" and "reg_register a r = Inr (i, r')"
  shows "snd (reg_unregister (a_id a) (reg_set_status (a_id a) st r')) = r"
proof -
  have none: "map_of (r_agents r) (a_id a) = None" "map_of (r_statuses r) (a_id a) = None"
    using assms by (auto simp: reg_register_def reg_ok_def split: if_splits)
  have r': "r' = r\<lparr>r_agents := r_agents r @ [(a_id a, a)], r_statuses := r_statuses r @ [(a_id a, SIdle)]\<rparr>"
    using assms(2) none by (auto simp: reg_register_def dset_absent split: if_splits)
  have pop: "dpop (a_id a) (r_agents r @ [(a_id a, a)]) = r_agents r" "dpop (a_id a) (r_statuses r @ [(a_id a, st)]) = r_statuses r"
    by (simp_all add: none dpop_last)
  show ?thesis
    unfolding r' using none by (simp add: reg_set_status_def reg_unregister_def dset_last map_add_def pop)
qed

lemma register_process_fresh:
  assumes "map_of (processes (pf_table s)) (a_id a) = None"
  shows "register_process env a s = with_process (a_id a) (new_process (xv_now env s) (identity_for a) (a_id a) Admitted) s"
  using assms mirror_quiet [of "new_process (xv_now env s) (identity_for a) (a_id a) Admitted"]
  by (simp add: register_process_def pt_register_def identity_for_def new_process_def mirror_phases_def with_process_def dset_absent Let_def)

lemma roll_back_restores:
  assumes "quiet_env env" and "platform_ok s" and "reg_register a (pf_registry s) = Inr (i, r)"
    and "fresh_process (a_id a) q s"
  shows "\<exists>w'. roll_back env a dir e (with_process (a_id a) q ((on_registry (\<lambda>_. r) s)\<lparr>pf_world := w\<rparr>)) = s\<lparr>pf_world := w'\<rparr>"
proof -
  let ?k = "a_id a"
  let ?s = "(on_registry (\<lambda>_. r) s)\<lparr>pf_world := w\<rparr>"
  let ?why = "''deploy failed: '' @ exn_text e"
  define q' where "q' = snd (proc_transition (xv_now env (with_process ?k q ?s)) Failed ?why True q)"
  have fresh: "fresh_process ?k q ?s" "map_of (processes (pf_table s)) ?k = None" using assms(4) by (simp_all add: fresh_process_def childless_def)
  have q': "phase_of q' = Failed" "pid (ident q') = ?k"
    using assms(4) by (auto simp: q'_def proc_transition_def fresh_process_def)
  have t: "x_transition env ?k Failed ?why True (with_process ?k q ?s) = ?s\<lparr>pf_table := mirror_status q' (pf_table (with_process ?k q' ?s))\<rparr>"
    using x_transition_new [OF fresh(1), of True Failed env ?why] by (simp add: q'_def Let_def)
  have "agent_status_of_value (status_value_from_phase Failed) = Some SFailed" by code_simp
  then have m: "mirror_status q' (pf_table (with_process ?k q' ?s)) =
      (pf_table (with_process ?k q' ?s))\<lparr>registry_of := Some (reg_set_status ?k SFailed r)\<rparr>"
    using q' by (simp add: mirror_status_def mirror_phases_def on_registry_def with_process_def)
  let ?u = "?s\<lparr>pf_table := mirror_status q' (pf_table (with_process ?k q' ?s))\<rparr>"
  have undone: "on_registry (\<lambda>r. snd (reg_unregister ?k r)) (?u\<lparr>pf_table := snd (pt_unregister ?k (pf_table ?u))\<rparr>) =
      (on_registry (\<lambda>_. snd (reg_unregister ?k (reg_set_status ?k SFailed r))) s)\<lparr>pf_world := w\<rparr>"
    unfolding m using fresh(2) by (simp add: pt_unregister_def on_registry_def pf_registry_def with_process_def dpop_last)
  also have "\<dots> = s\<lparr>pf_world := w\<rparr>"
    using registered_then_removed [OF _ assms(3)] platform_registry [OF assms(2)] by (simp add: on_registry_def)
  finally have restored: "on_registry (\<lambda>r. snd (reg_unregister ?k r)) (?u\<lparr>pf_table := snd (pt_unregister ?k (pf_table ?u))\<rparr>) = s\<lparr>pf_world := w\<rparr>" .
  from assms(1) obtain w' where "xv_rmtree env (path_str dir) (s\<lparr>pf_world := w\<rparr>) = s\<lparr>pf_world := w'\<rparr>"
    unfolding quiet_env_def by (metis platform.surjective platform.update_convs(8))
  then show ?thesis unfolding roll_back_def t Let_def restored by blast
qed

text \<open>The triggers of an agent lead to it.\<close>

definition listens :: "agent_def \<Rightarrow> 'w platform \<Rightarrow> bool" where
  "listens a s =
     (case a_execution a of
        Scheduled \<Rightarrow> (case a_schedule a of None \<Rightarrow> True
           | Some cron \<Rightarrow> cron = [] \<or> map_option (\<lambda>j. (jb_cron j, jb_callback j)) (map_of (sd_jobs (pf_sched s)) (a_id a)) =
               Some (cron, (a_id a, scheduled_prompt cron)))
      | EventDriven \<Rightarrow> (\<forall>t \<in> set (a_triggers a). callback_of (pf_bus s) t (a_id a) = Some (a_id a))
      | Autonomous \<Rightarrow> a_id a \<in> set (pf_auto s)
      | _ \<Rightarrow> True)"

lemma listens_same:
  assumes "a_id b = a_id a" "a_execution b = a_execution a" "a_schedule b = a_schedule a" "a_triggers b = a_triggers a"
    and "pf_sched t = pf_sched s" "pf_bus t = pf_bus s" "pf_auto t = pf_auto s"
  shows "listens b s = listens a t"
  unfolding listens_def assms ..

lemma wired_listens: "subs_ok (pf_bus s) \<Longrightarrow> listens a (wired a s)"
  by (auto simp: listens_def wired_def fold_subscribe add_job_def scheduled_job_def start_job_def Let_def auto_add_def
      split: execution_type.split option.split)

lemma wired_reg: "pf_registry (wired a s) = pf_registry s \<or> (\<exists>st. pf_registry (wired a s) = reg_set_status (a_id a) st (pf_registry s))"
  by (auto simp: wired_def auto_add_def pf_registry_def set_status_def on_registry_def split: execution_type.split option.split)

lemma wired_agents [simp]: "r_agents (pf_registry (wired a s)) = r_agents (pf_registry s)"
  using wired_reg [of a s] by auto

lemma wired_table [simp]: "processes (pf_table (wired a s)) = processes (pf_table s)"
  by (simp add: wired_def auto_add_def split: execution_type.split option.split)

lemma note_tools_frame [simp]:
  "processes (pf_table (note_missing_tools ad a s)) = processes (pf_table s)" "pf_sched (note_missing_tools ad a s) = pf_sched s"
  "pf_bus (note_missing_tools ad a s) = pf_bus s" "pf_auto (note_missing_tools ad a s) = pf_auto s"
  by (simp_all add: note_missing_tools_def Let_def)

lemma note_tools_agents:
  "map_option (\<lambda>b. b\<lparr>a_metadata := m\<rparr>) (map_of (r_agents (pf_registry (note_missing_tools ad a s))) k) =
   map_option (\<lambda>b. b\<lparr>a_metadata := m\<rparr>) (map_of (r_agents (pf_registry s)) k)"
  by (auto simp: note_missing_tools_def Let_def option.map_comp o_def)

lemma routed_fields [simp]:
  "a_id (routed_stack env low a) = a_id a" "a_name (routed_stack env low a) = a_name a" "a_namespace (routed_stack env low a) = a_namespace a"
  "a_execution (routed_stack env low a) = a_execution a" "a_schedule (routed_stack env low a) = a_schedule a"
  "a_triggers (routed_stack env low a) = a_triggers a" "a_metadata (routed_stack env low a) = a_metadata a"
  "a_owner (routed_stack env low a) = a_owner a" "a_tenant (routed_stack env low a) = a_tenant a"
  by (simp_all add: routed_stack_def)

lemma deployed_cases:
  assumes "quiet_env env" and ok: "platform_ok s" and new: "map_of (processes (pf_table s)) (a_id a) = None"
    and alone: "childless (a_id a) s" and "meta a ''parent_pid'' PNone \<noteq> PStr (a_id a)"
    and ad: "map_of (xv_adapters env) (a_stack b) = Some ad"
    and reg: "reg_register b (pf_registry s) = Inr (i, r)"
    and b: "b = (routed_stack env low a)\<lparr>a_config_path := path\<rparr>"
    and d: "deploy env a s =
      (case bring_up env ad b (register_process env b (on_registry (\<lambda>_. r) s)) of
         (Inl Cancelled, s1) \<Rightarrow> (Inl Cancelled, s1)
       | (Inl (Exc e), s1) \<Rightarrow> (Inl (Exc e), roll_back env b dir e s1)
       | (Inr _, s1) \<Rightarrow> (Inr i, note_missing_tools ad b s1))"
  shows "case deploy env a s of
      (Inl h, s') \<Rightarrow> \<exists>w. s' = s\<lparr>pf_world := w\<rparr>
    | (Inr i, s') \<Rightarrow> i = a_id a \<and> listens a s' \<and>
        (\<exists>p. pt_get (pf_table s') i = Some p \<and> phase_of p = Running \<and> ident p = identity_for a) \<and>
        (\<exists>b. reg_get (pf_registry s') i = Some b \<and> a_id b = i \<and> a_name b = a_name a \<and> a_namespace b = a_namespace a \<and>
           a_execution b = a_execution a) \<and>
        (\<forall>k. k \<noteq> i \<longrightarrow> pt_get (pf_table s') k = pt_get (pf_table s) k \<and> reg_get (pf_registry s') k = reg_get (pf_registry s) k)"
proof -
  let ?k = "a_id a" and ?s = "on_registry (\<lambda>_. r) s"
  let ?p = "new_process (xv_now env ?s) (identity_for b) (a_id b) Admitted"
  have id: "a_id b = ?k" "identity_for b = identity_for a" "pid (identity_for a) = ?k" "a_name b = a_name a" "a_namespace b = a_namespace a"
    "a_execution b = a_execution a" "a_schedule b = a_schedule a" "a_triggers b = a_triggers a"
    by (simp_all add: b identity_for_def meta_def)
  have i: "i = ?k" using reg id(1) by (auto simp: reg_register_def split: if_splits)
  have "parent_pid (identity_for a) \<noteq> Some ?k" using assms(5) by (auto simp: identity_for_def split: pyval.split)
  then have fresh: "fresh_process ?k ?p s" "fresh_process ?k ?p ?s"
    using new alone id by (simp_all add: fresh_process_def new_process_def)
  have start: "register_process env b ?s = with_process ?k ?p ?s"
    using register_process_fresh [of ?s b env] new id by simp
  have q: "quiet_adapter ad" using assms(1) ad by (auto simp: quiet_env_def)
  have adm: "phase_of ?p = Admitted" by (simp add: new_process_def)
  show ?thesis
  proof (rule bring_up_cases [OF q, of b ?p ?s env])
    show "fresh_process (a_id b) ?p ?s" using fresh id by simp
    show "phase_of ?p = Admitted" by (rule adm)
  next
    fix e p' w
    assume up: "bring_up env ad b (with_process (a_id b) ?p ?s) = (Inl (Exc e), with_process (a_id b) p' (?s\<lparr>pf_world := w\<rparr>))" "ident p' = ident ?p"
    have "fresh_process (a_id b) p' s" using fresh id by (simp add: fresh_ident [OF up(2)])
    from roll_back_restores [OF assms(1) ok reg this, of dir e w] up id
    show ?thesis unfolding d start by simp
  next
    fix p' w
    assume up: "bring_up env ad b (with_process (a_id b) ?p ?s) = (Inr (), with_process (a_id b) p' (wired b (?s\<lparr>pf_world := w\<rparr>)))"
      "ident p' = ident ?p" "phase_of p' = Running"
    let ?t = "note_missing_tools ad b (with_process ?k p' (wired b (?s\<lparr>pf_world := w\<rparr>)))"
    have at: "deploy env a s = (Inr ?k, ?t)" unfolding d start using up(1) id(1) i by simp
    have l: "listens b (wired b (?s\<lparr>pf_world := w\<rparr>))"
      by (rule wired_listens) (use ok in \<open>simp add: platform_ok_def\<close>)
    then have "listens a ?t" by (rule iffD1 [OF listens_same, rotated -1]) (use id in simp_all)
    moreover have "pt_get (pf_table ?t) ?k = Some p'" using new by (simp add: pt_get_def map_add_def)
    moreover have "pt_get (pf_table ?t) k = pt_get (pf_table s) k" if "k \<noteq> ?k" for k using that by (simp add: pt_get_def map_add_def split: option.split)
    moreover have "r_agents r = dset ?k b (r_agents (pf_registry s))" using reg id by (auto simp: reg_register_def split: if_splits)
    then have base: "r_agents (pf_registry (with_process ?k p' (wired b (?s\<lparr>pf_world := w\<rparr>)))) = dset ?k b (r_agents (pf_registry s))" by simp
    have "\<exists>c m. reg_get (pf_registry ?t) ?k = Some c \<and> c\<lparr>a_metadata := m\<rparr> = b\<lparr>a_metadata := m\<rparr>"
      using note_tools_agents [of "[]" ad b "with_process ?k p' (wired b (?s\<lparr>pf_world := w\<rparr>))" ?k] unfolding base reg_get_def by auto
    then obtain c m where c: "reg_get (pf_registry ?t) ?k = Some c" "c\<lparr>a_metadata := m\<rparr> = b\<lparr>a_metadata := m\<rparr>" by blast
    from c(2) have "a_id c = ?k" "a_name c = a_name a" "a_namespace c = a_namespace a" "a_execution c = a_execution a"
      using id by (metis agent_def.select_convs agent_def.surjective agent_def.update_convs)+
    moreover have "reg_get (pf_registry ?t) k = reg_get (pf_registry s) k" if "k \<noteq> ?k" for k
      using that id base by (simp add: reg_get_def note_missing_tools_def Let_def)
    ultimately show ?thesis using c(1) up(2,3) id at by (simp add: new_process_def)
  qed
qed

text \<open>C7. 
  A deployment takes effect completely or not at all. If it raises, the registry, the process table, the
  scheduler, the bus, the checkpoints and the tasks are as before, whatever step failed; if it returns, the agent is registered under its id
  with the name, namespace and execution type it was given, its process is running, its timer, events
  or task lead to it, and every other process and agent is as before.  The adapters change nothing of the platform themselves, the id
  is new to the process table and nobody's parent.
\<close>

theorem deploy_all_or_nothing:
  assumes "quiet_env env" and "platform_ok s" and "map_of (processes (pf_table s)) (a_id a) = None"
    and "childless (a_id a) s" and "meta a ''parent_pid'' PNone \<noteq> PStr (a_id a)"
  shows "case deploy env a s of
      (Inl h, s') \<Rightarrow> \<exists>w. s' = s\<lparr>pf_world := w\<rparr>
    | (Inr i, s') \<Rightarrow> i = a_id a \<and> listens a s' \<and>
        (\<exists>p. pt_get (pf_table s') i = Some p \<and> phase_of p = Running \<and> ident p = identity_for a) \<and>
        (\<exists>b. reg_get (pf_registry s') i = Some b \<and> a_id b = i \<and> a_name b = a_name a \<and> a_namespace b = a_namespace a \<and>
           a_execution b = a_execution a) \<and>
        (\<forall>k. k \<noteq> i \<longrightarrow> pt_get (pf_table s') k = pt_get (pf_table s) k \<and> reg_get (pf_registry s') k = reg_get (pf_registry s) k)"
proof -
  obtain h s' where d: "deploy env a s = (h, s')" by fastforce
  have same: "\<exists>w. s = s\<lparr>pf_world := w\<rparr>" by (rule exI [of _ "pf_world s"]) simp
  show ?thesis
  proof (cases "valid_name (a_name a) \<and> \<not> name_taken a s")
    case False
    then have "deploy env a s = (Inl (Exc ValueError), s)" by (auto simp: deploy_def)
    with same show ?thesis by simp
  next
    case named: True
    show ?thesis
    proof (cases "untrusted a")
      case (Inl e)
      with named have "deploy env a s = (Inl (Exc e), s)" by (simp add: deploy_def)
      with same show ?thesis by simp
    next
      case low: (Inr low)
      let ?a1 = "routed_stack env low a"
      show ?thesis
      proof (cases "map_of (xv_adapters env) (a_stack ?a1)")
        case None
        with named low have "deploy env a s = (Inl (Exc ValueError), s)" by (simp add: deploy_def Let_def)
        with same show ?thesis by simp
      next
        case ad: (Some ad)
        show ?thesis
        proof (cases "resolve_agent_dir (xv_root env) ?a1")
          case (Inl e)
          with named low ad have "deploy env a s = (Inl (Exc e), s)" by (simp add: deploy_def Let_def)
          with same show ?thesis by simp
        next
          case dir: (Inr dir)
          let ?a = "?a1\<lparr>a_config_path := path_str dir\<rparr>"
          show ?thesis
          proof (cases "reg_register ?a (pf_registry s)")
            case (Inl e)
            with named low ad dir have "deploy env a s = (Inl (Exc ValueError), s)" by (simp add: deploy_def Let_def)
            with same show ?thesis by simp
          next
            case (Inr ir)
            then obtain r where reg: "reg_register ?a (pf_registry s) = Inr (a_id a, r)"
              by (cases ir) (auto simp: reg_register_def split: if_splits)
            have at: "deploy env a s =
                (case bring_up env ad ?a (register_process env ?a (on_registry (\<lambda>_. r) s)) of
                   (Inl Cancelled, s1) \<Rightarrow> (Inl Cancelled, s1)
                 | (Inl (Exc e), s1) \<Rightarrow> (Inl (Exc e), roll_back env ?a dir e s1)
                 | (Inr _, s1) \<Rightarrow> (Inr (a_id a), note_missing_tools ad ?a s1))"
              using named low ad dir reg by (simp add: deploy_def Let_def)
            have ad': "map_of (xv_adapters env) (a_stack ?a) = Some ad" using ad by simp
            show ?thesis by (rule deployed_cases [OF assms ad' reg refl at])
          qed
        qed
      qed
    qed
  qed
qed

text \<open>A platform with one adapter; it counts the invocations in its world and refuses agents without a description.\<close>

definition demo_stack :: "nat adapter" where
  "demo_stack = \<lparr>ad_scaffold = (\<lambda>a s. (Inr (), s)),
     ad_create = (\<lambda>a s. (if a_description a = [] then Inl (Exc (Raised ''no description'')) else Inr (), s)),
     ad_invoke = (\<lambda>k p c h s. (Inr ((failed_result [])\<lparr>rz_status := SIdle, rz_output := p\<rparr>), s\<lparr>pf_world := pf_world s + 1\<rparr>)),
     ad_start_loop = (\<lambda>k s. (Inr (), s)), ad_stop = (\<lambda>k s. (Inr (), s)), ad_recover = (\<lambda>s. (Inr 0, s)), ad_tools = (\<lambda>s. [])\<rparr>"

definition demo_executor :: "nat xenv" where
  "demo_executor = \<lparr>xv_adapters = [(''demo'', demo_stack)], xv_root = [''srv'', ''agents''], xv_now = (\<lambda>s. 7),
     xv_run_started = (\<lambda>k t p n s. (None, s)), xv_run_finished = (\<lambda>n k r s. s), xv_inject = None, xv_pending = None,
     xv_price = (\<lambda>m i j. 0), xv_sleep = (\<lambda>d s. (Inr (), s)), xv_rmtree = (\<lambda>p s. s)\<rparr>"

definition demo_worker :: "string \<Rightarrow> string \<Rightarrow> agent_def" where
  "demo_worker k about = \<lparr>a_id = k, a_name = ''bob'', a_namespace = ''ops'', a_stack = ''demo'', a_execution = Autonomous,
     a_ownership = Shared, a_owner = None, a_department = ''d'', a_tools = [], a_tenant = None, a_capabilities = None,
     a_boundaries = None, a_governance = None, a_llm = default_llm, a_schedule = None, a_triggers = [], a_goal = None, a_prompt = [],
     a_description = about, a_config_path = [], a_metadata = []\<rparr>"

definition demo_empty_platform :: "nat platform" where
  "demo_empty_platform = \<lparr>pf_table = empty_ptable (Some empty_registry), pf_sched = empty_scheduler, pf_bus = empty_bus,
     pf_ckpts = [], pf_auto = [], pf_invoking = [], pf_sessions = None, pf_world = 0\<rparr>"

lemma demo_executor_quiet: "quiet_env demo_executor"
proof -
  have "\<exists>w. s = s\<lparr>pf_world := w\<rparr>" for s :: "nat platform" by (rule exI [of _ "pf_world s"]) simp
  then show ?thesis by (auto simp: quiet_env_def quiet_adapter_def quiet_def demo_executor_def demo_stack_def)
qed

lemma demo_empty_ok: "platform_ok demo_empty_platform"
  by (simp add: platform_ok_def demo_empty_platform_def empty_ptable_def pt_ok_def keyed_def dict_ok_def subs_ok_empty
      reg_ok_def empty_registry_def)

lemma deploy_all_or_nothing_witness:
  "(\<exists>w. snd (deploy demo_executor (demo_worker ''x'' []) demo_empty_platform) = demo_empty_platform\<lparr>pf_world := w\<rparr>) \<and>
   (\<exists>p. pt_get (pf_table (snd (deploy demo_executor (demo_worker ''x'' ''helps'') demo_empty_platform))) ''x'' = Some p \<and> phase_of p = Running)"
proof -
  have pre: "map_of (processes (pf_table demo_empty_platform)) (a_id (demo_worker ''x'' d)) = None"
    "childless (a_id (demo_worker ''x'' d)) demo_empty_platform" "meta (demo_worker ''x'' d) ''parent_pid'' PNone \<noteq> PStr (a_id (demo_worker ''x'' d))" for d
    by (simp_all add: demo_empty_platform_def empty_ptable_def childless_def demo_worker_def meta_def dget_default_def)
  note whole = deploy_all_or_nothing [OF demo_executor_quiet demo_empty_ok pre]
  have "isl (fst (deploy demo_executor (demo_worker ''x'' []) demo_empty_platform))"
    "fst (deploy demo_executor (demo_worker ''x'' ''helps'') demo_empty_platform) = Inr ''x''" by code_simp+
  then show ?thesis using whole [of "[]"] whole [of "''helps''"] by (auto simp: split_beta split: sum.splits)
qed

end
