(* ===== verification/ExecutorRuns.thy ===== *)
theory ExecutorRuns
  imports ExecutorFacts
begin

text \<open>
  What the platform executor guarantees of running agents: a stopped agent is detached from every trigger, an
  autonomous loop that is restarted continues at its checkpoint, recovery wires exactly the agents that may
  run; and what does not happen: an invocation never raises, so the loop's handling of crashes is dead code.
\<close>

subsection \<open>Stopping\<close>

lemma transition_ident:
  "pt_ok (pf_table s) \<Longrightarrow>
   map_option ident (map_of (processes (pf_table (x_transition env k ph why f s))) j) = map_option ident (map_of (processes (pf_table s)) j)"
  by (auto simp: x_transition_def pt_transition_refines abs_transition_def cascade_effect_def Let_def drain_child_def option.map_comp o_def
      split: option.split intro!: option.map_cong0)

lemma transition_ok: "pt_ok (pf_table s) \<Longrightarrow> pt_ok (pf_table (x_transition env k ph why f s))"
  by (simp add: x_transition_def pt_ok_transition)

definition mirrors :: "ptable \<Rightarrow> ptable \<Rightarrow> bool" where
  "mirrors t t' \<longleftrightarrow> (case registry_of t of None \<Rightarrow> registry_of t' = None
     | Some r \<Rightarrow> \<exists>r'. registry_of t' = Some r' \<and> r_agents r' = r_agents r)"

lemma mirrors_trans: "mirrors t u \<Longrightarrow> mirrors u v \<Longrightarrow> mirrors t v"
  by (auto simp: mirrors_def split: option.splits)

lemma mirrors_mirror: "mirrors t u \<Longrightarrow> mirrors t (mirror_status p u)"
  by (auto simp: mirror_status_def mirrors_def split: option.splits)

lemma mirrors_processes [simp]: "mirrors t (u\<lparr>processes := d\<rparr>) = mirrors t u"
  by (simp add: mirrors_def split: option.split)

lemma mirrors_one: "mirrors t u \<Longrightarrow> mirrors t (cascade_one now sig why c u)"
  by (auto simp: cascade_one_def Let_def intro!: mirrors_mirror)

lemma mirrors_cascade: "mirrors t u \<Longrightarrow> mirrors t (fold (cascade_one now sig why) cs u)"
  by (induction cs arbitrary: u) (simp_all add: mirrors_one)

lemma mirrors_transition: "mirrors t (snd (pt_transition now k ph why f c t))"
proof -
  have "mirrors t t" by (simp add: mirrors_def split: option.split)
  then show ?thesis
    by (auto simp: pt_transition_def Let_def split_beta cascade_to_children_def split: option.split
        intro!: mirrors_mirror mirrors_cascade)
qed

lemma transition_agents [simp]: "r_agents (pf_registry (x_transition env k ph why f s)) = r_agents (pf_registry s)"
  using mirrors_transition [of "pf_table s" "xv_now env s" k ph why f True]
  by (auto simp: x_transition_def pf_registry_def mirrors_def split: option.splits)

lemma pf_registry_frames [simp]:
  "pf_registry (s\<lparr>pf_sched := q\<rparr>) = pf_registry s" "pf_registry (s\<lparr>pf_bus := b\<rparr>) = pf_registry s"
  "pf_registry (s\<lparr>pf_ckpts := c\<rparr>) = pf_registry s" "pf_registry (s\<lparr>pf_auto := u\<rparr>) = pf_registry s"
  "pf_registry (s\<lparr>pf_invoking := u\<rparr>) = pf_registry s" "pf_registry (s\<lparr>pf_sessions := ss\<rparr>) = pf_registry s"
  by (simp_all add: pf_registry_def)

text \<open>Whether anything still leads to an agent.\<close>

definition detached :: "string \<Rightarrow> 'w platform \<Rightarrow> bool" where
  "detached k s \<longleftrightarrow> map_of (sd_jobs (pf_sched s)) k = None \<and> (\<forall>ev. callback_of (pf_bus s) ev k = None) \<and> k \<notin> set (pf_auto s) \<and>
     ck_load (pf_ckpts s) k = None"

definition same_triggers :: "string \<Rightarrow> 'w platform \<Rightarrow> 'w platform \<Rightarrow> bool" where
  "same_triggers j s s' \<longleftrightarrow> map_of (sd_jobs (pf_sched s')) j = map_of (sd_jobs (pf_sched s)) j \<and>
     (\<forall>ev. callback_of (pf_bus s') ev j = callback_of (pf_bus s) ev j) \<and> (j \<in> set (pf_auto s') \<longleftrightarrow> j \<in> set (pf_auto s)) \<and>
     ck_load (pf_ckpts s') j = ck_load (pf_ckpts s) j \<and> reg_get (pf_registry s') j = reg_get (pf_registry s) j"

text \<open>
  Stopping an agent detaches it from everything that could run it: its timer, its subscriptions,
  its autonomous task and its checkpoint are gone, and the triggers, the checkpoint and the registration of every other
  agent are as before; unless the adapter's own stop raises: then nothing has happened. An agent that is not registered is
  not stopped, and the platform is not touched.
\<close>

theorem stopped_agents_are_detached:
  assumes "\<forall>st ad. map_of (xv_adapters env) st = Some ad \<longrightarrow> quiet (ad_stop ad k)"
  shows "case stop_agent env k s of
      (Inl h, s') \<Rightarrow> h \<noteq> Cancelled \<and> (\<exists>w. s' = s\<lparr>pf_world := w\<rparr>)
    | (Inr done, s') \<Rightarrow> done = (reg_get (pf_registry s) k \<noteq> None) \<and>
        (if done then detached k s' \<and> (\<forall>j. j \<noteq> k \<longrightarrow> same_triggers j s s') else s' = s)"
proof (cases "reg_get (pf_registry s) k")
  case None
  then show ?thesis by (simp add: stop_agent_def)
next
  case (Some a)
  define stopped where "stopped = (case map_of (xv_adapters env) (a_stack a) of None \<Rightarrow> (Inr (), s) | Some ad \<Rightarrow> ad_stop ad k s)"
  obtain x w where x: "stopped = (x, s\<lparr>pf_world := w\<rparr>)" "x \<noteq> Inl Cancelled"
  proof (cases "map_of (xv_adapters env) (a_stack a)")
    case None
    with that [of "Inr ()" "pf_world s"] show ?thesis by (simp add: stopped_def)
  next
    case (Some ad)
    with assms have "quiet (ad_stop ad k)" by blast
    from quietE [OF this, of s] that show ?thesis unfolding stopped_def \<open>map_of (xv_adapters env) (a_stack a) = Some ad\<close> option.case by blast
  qed
  show ?thesis
  proof (cases x)
    case (Inl h)
    with x Some show ?thesis by (auto simp: stop_agent_def stopped_def [symmetric])
  next
    case (Inr u)
    have "detached k (snd (stop_agent env k s))"
      unfolding stop_agent_def Some option.case stopped_def [symmetric] x(1) prod.case Inr sum.case
      by (simp add: detached_def remove_job_def drop_checkpoint_def ck_delete_def ck_load_def auto_drop_def unsubscribe_all delete_conv)
    moreover have "same_triggers j s (snd (stop_agent env k s))" if "j \<noteq> k" for j
      unfolding stop_agent_def Some option.case stopped_def [symmetric] x(1) prod.case Inr sum.case using that
      by (simp add: same_triggers_def remove_job_def drop_checkpoint_def ck_delete_def ck_load_def auto_drop_def unsubscribe_all delete_conv reg_get_def)
    moreover have "fst (stop_agent env k s) = Inr True"
      unfolding stop_agent_def Some option.case stopped_def [symmetric] x(1) prod.case Inr sum.case by (simp add: Let_def)
    ultimately show ?thesis using Some by (simp add: split_beta)
  qed
qed

lemma stopped_agents_are_detached_witness:
  "let s = snd (deploy demo_executor (demo_worker ''x'' ''helps'') demo_empty_platform)
   in ''x'' \<in> set (pf_auto s) \<and> detached ''x'' (snd (stop_agent demo_executor ''x'' s))"
proof -
  define s where "s = snd (deploy demo_executor (demo_worker ''x'' ''helps'') demo_empty_platform)"
  have armed: "''x'' \<in> set (pf_auto s)" "fst (stop_agent demo_executor ''x'' s) = Inr True" unfolding s_def by code_simp+
  have "\<forall>st ad. map_of (xv_adapters demo_executor) st = Some ad \<longrightarrow> quiet (ad_stop ad ''x'')"
    using demo_executor_quiet by (auto simp: quiet_env_def quiet_adapter_def)
  from stopped_agents_are_detached [OF this, where s = s] armed have "detached ''x'' (snd (stop_agent demo_executor ''x'' s))"
    by (auto simp: split_beta split: sum.splits)
  with armed show ?thesis unfolding s_def [symmetric] Let_def by blast
qed

subsection \<open>Invocations never raise\<close>

lemma invoke_never_raises: "fst (invoke env k prompt ctx sid s) \<noteq> Inl (Exc e)"
  by (simp add: invoke_def Let_def split_beta split: option.split sum.split halt.split)

text \<open>The loop without its handling of crashes: no count of crashes, no quarantine, no waiting after a crash.\<close>

primrec plain_iterations :: "'w xenv \<Rightarrow> string \<Rightarrow> loop_settings \<Rightarrow> nat \<Rightarrow> int \<Rightarrow> ('w, loop_exit) awaited" where
  "plain_iterations env k lo 0 i s = (Inr Exhausted, s)"
| "plain_iterations env k lo (Suc n) i s =
     (if reg_get_status (pf_registry s) k = SStopped then (Inr Exited, s)
      else case invoke env k (iteration_prompt lo i) None None s of
        (Inl h, s1) \<Rightarrow> (Inl h, s1)
      | (Inr r, s1) \<Rightarrow>
          (let s2 = save_checkpoint env k (progress_at lo (i + 1) 0 (summary_of r)) s1
           in if rz_status r = SCompleted then (Inr GoalReached, s2)
              else if rz_status r = SFailed \<and> \<not> lo_restart lo then (Inr Exited, set_status k SFailed s2)
              else (case xv_sleep env (lo_interval lo) s2 of
                      (Inl h, s3) \<Rightarrow> (Inl h, s3) | (Inr _, s3) \<Rightarrow> plain_iterations env k lo n (i + 1) s3)))"

lemma crash_handling_dead:
  "iterations env k lo n i crashes s = plain_iterations env k lo n i s"
proof (induction n arbitrary: i crashes s)
  case 0
  show ?case by simp
next
  case (Suc n)
  obtain y s1 where y: "invoke env k (iteration_prompt lo i) None None s = (y, s1)" by fastforce
  then have "y \<noteq> Inl (Exc e)" for e using invoke_never_raises [of env k "iteration_prompt lo i" None None s e] by simp
  then show ?case
    by (simp add: y Suc.IH Let_def split: sum.split halt.split prod.split)
qed

text \<open>
  The loop's handling of crashes never runs, as long as the registry and the history of runs do not raise: \<open>invoke\<close> turns every exception of an adapter into a failed
  result, so the loop is the loop without it, and the number of crashes it allows and the crash count it resumes with are without effect. An agent that fails in every iteration and asks for
  restarts is neither quarantined after the crashes it allows nor delayed by a growing interval; it fails until its iterations are used up.
\<close>

theorem crash_handling_is_dead:
  "iterations env k lo n i crashes s = plain_iterations env k lo n i s \<and>
   iterations env k (lo\<lparr>lo_max_crashes := m\<rparr>) n i crashes s = iterations env k lo n i 0 s"
proof -
  have "plain_iterations env k (lo\<lparr>lo_max_crashes := m\<rparr>) n i s = plain_iterations env k lo n i s" for s i
    by (induction n arbitrary: i s) (simp_all add: iteration_prompt_def progress_at_def Let_def split: sum.split prod.split)
  then show ?thesis by (simp add: crash_handling_dead)
qed

subsection \<open>Restarts\<close>

text \<open>What the loop of an agent relies on: the other parts leave its checkpoint and its generation alone.\<close>

definition generation_of :: "'w platform \<Rightarrow> string \<Rightarrow> int option" where
  "generation_of s k = map_option (\<lambda>p. generation (ident p)) (map_of (processes (pf_table s)) k)"

definition keeps :: "string \<Rightarrow> 'w platform \<Rightarrow> 'w platform \<Rightarrow> bool" where
  "keeps k s s' \<longleftrightarrow> (pt_ok (pf_table s) \<longrightarrow> pt_ok (pf_table s') \<and> ck_load (pf_ckpts s') k = ck_load (pf_ckpts s) k \<and>
     generation_of s' k = generation_of s k)"

definition calm :: "string \<Rightarrow> ('w platform \<Rightarrow> 'w platform) \<Rightarrow> bool" where
  "calm k g \<longleftrightarrow> (\<forall>s. keeps k s (g s))"

definition calm_env :: "string \<Rightarrow> 'w xenv \<Rightarrow> bool" where
  "calm_env k env \<longleftrightarrow>
     (\<forall>st ad. map_of (xv_adapters env) st = Some ad \<longrightarrow>
        (\<forall>a. calm k (\<lambda>s. snd (ad_create ad a s))) \<and> (\<forall>j p c h. calm k (\<lambda>s. snd (ad_invoke ad j p c h s)))) \<and>
     (\<forall>j t p n. calm k (\<lambda>s. snd (xv_run_started env j t p n s))) \<and> (\<forall>n j r. calm k (xv_run_finished env n j r)) \<and>
     (\<forall>f t u j c. xv_inject env = Some f \<longrightarrow> calm k (\<lambda>s. snd (f t u j c s))) \<and>
     (\<forall>f j. xv_pending env = Some f \<longrightarrow> calm k (\<lambda>s. snd (f j s))) \<and> (\<forall>d. calm k (\<lambda>s. snd (xv_sleep env d s)))"

lemma keeps_refl [simp]: "keeps k s s"
  by (simp add: keeps_def)

lemma keeps_trans: "keeps k s t \<Longrightarrow> keeps k t u \<Longrightarrow> keeps k s u"
  by (simp add: keeps_def)

lemma keeps_transition: "keeps k s (x_transition env j ph why f s)"
  unfolding keeps_def generation_of_def
  using transition_ok [of s env j ph why f] transition_ident [of s env j ph why f k]
  by (auto simp: option.map_comp [of generation ident, unfolded o_def, symmetric])

lemma keeps_heartbeat: "keeps k s (x_heartbeat env j s)"
  by (auto simp: keeps_def generation_of_def x_heartbeat_def heartbeat_def option.map_comp o_def
      intro!: pt_ok_processes keyed_dmod pt_ok_keyed)

lemma reg_ok_empty_registry: "reg_ok empty_registry"
  by (simp add: reg_ok_def empty_registry_def)

lemma pt_ok_pf_registry: "pt_ok (pf_table s) \<Longrightarrow> reg_ok (pf_registry s)"
  by (auto simp: pt_ok_def pf_registry_def reg_ok_empty_registry split: option.split)

lemma keeps_status: "keeps k s (set_status j st s)"
  using pt_ok_pf_registry [of s]
  by (auto simp: keeps_def generation_of_def set_status_def on_registry_def pt_ok_def intro: reg_ok_set_status)

lemma keeps_charge: "keeps k s (charge env j r s)"
proof -
  have "keeps k s (s\<lparr>pf_table := record_usage j i out d c ms (pf_table s)\<rparr>)" for i out d c ms
    by (auto simp: keeps_def generation_of_def option.map_comp o_def pt_ok_record_usage)
       (simp add: record_usage_def option.map_comp o_def)
  then show ?thesis unfolding charge_def Let_def by (blast intro: keeps_trans keeps_heartbeat)
qed

lemma keeps_fields [simp]: "keeps k s (s\<lparr>pf_invoking := u\<rparr>)" "keeps k s (s\<lparr>pf_sessions := ss\<rparr>)" "keeps k s (s\<lparr>pf_auto := v\<rparr>)"
  by (simp_all add: keeps_def generation_of_def)

lemma keeps_turn: "keeps k s (record_turn a p c sid sess r s)"
  by (auto simp: record_turn_def split: option.split)

lemmas keeps_after =
  keeps_trans [OF _ keeps_transition] keeps_trans [OF _ keeps_heartbeat] keeps_trans [OF _ keeps_status]
  keeps_trans [OF _ keeps_charge] keeps_trans [OF _ keeps_turn]

lemma calm_envD:
  assumes "calm_env k env"
  shows "map_of (xv_adapters env) st = Some ad \<Longrightarrow> keeps k s (snd (ad_create ad a s))"
    and "map_of (xv_adapters env) st = Some ad \<Longrightarrow> keeps k s (snd (ad_invoke ad j p c h s))"
    and "keeps k s (snd (xv_run_started env j tr p n s))" and "keeps k s (xv_run_finished env run j r s)"
    and "xv_inject env = Some ji \<Longrightarrow> keeps k s (snd (ji x1 x2 x3 ctx s))"
    and "xv_pending env = Some pend \<Longrightarrow> keeps k s (snd (pend j s))" and "keeps k s (snd (xv_sleep env d s))"
  using assms by (auto simp: calm_env_def calm_def)

lemma keeps_wind_up:
  assumes "calm_env k env" and "keeps k t s"
  shows "keeps k t (wind_up env j run r s)"
proof -
  let ?s1 = "s\<lparr>pf_invoking := removeAll j (pf_invoking s)\<rparr>"
  have s1: "keeps k t ?s1" using assms(2) by (rule keeps_trans) simp
  define s2 where "s2 = (case xv_pending env of None \<Rightarrow> ?s1
                | Some pending \<Rightarrow> (case pending j ?s1 of
                     (True, t) \<Rightarrow> x_transition env j AwaitingHuman ''pending A2H request(s)'' True t
                   | (False, t) \<Rightarrow> t))"
  have s2: "keeps k t s2"
  proof (cases "xv_pending env")
    case None
    with s1 show ?thesis by (simp add: s2_def)
  next
    case (Some f)
    obtain b u where u: "f j ?s1 = (b, u)" by fastforce
    then have "keeps k ?s1 u" using calm_envD(6) [OF assms(1) Some, of ?s1 j] by simp
    with s1 have "keeps k t u" by (rule keeps_trans)
    with Some u show ?thesis by (cases b) (simp_all add: s2_def keeps_after)
  qed
  have fin: "keeps k t u \<Longrightarrow> keeps k t (xv_run_finished env run j x u)" for u x
    by (erule keeps_trans) (rule calm_envD(4) [OF assms(1)])
  have "wind_up env j run r s = (case r of None \<Rightarrow> s2 | Some x \<Rightarrow>
      xv_run_finished env run j x (if truthy (dget_default (rz_metadata x) ''queued'' PNone) then set_status j SIdle s2 else s2))"
    unfolding wind_up_def s2_def Let_def ..
  with s2 show ?thesis by (cases r) (auto intro!: fin keeps_after)
qed

lemma keeps_adapter:
  assumes "calm_env k env" and "map_of (xv_adapters env) st = Some ad"
  shows "keeps k s (snd (invoke_adapter ad j a p c h s))"
proof -
  obtain x s1 where x: "ad_invoke ad j p c h s = (x, s1)" by fastforce
  obtain y s2 where y: "ad_create ad a s1 = (y, s2)" by fastforce
  obtain z s3 where z: "ad_invoke ad j p c h s2 = (z, s3)" by fastforce
  have s1: "keeps k s s1" using calm_envD(2) [OF assms, of s j p c h] by (simp add: x)
  have s2: "keeps k s s2" using keeps_trans [OF s1 calm_envD(1) [OF assms, of s1 a]] by (simp add: y)
  have s3: "keeps k s s3" using keeps_trans [OF s2 calm_envD(2) [OF assms, of s2 j p c h]] by (simp add: z)
  show ?thesis using s1 s2 s3 by (simp add: invoke_adapter_def x y z split: sum.split halt.split)
qed

lemma keeps_context:
  assumes "calm_env k env"
  shows "keeps k s (snd (invoke_context env a run ctx s))"
  using calm_envD(5) [OF assms] by (simp add: invoke_context_def Let_def split: option.split)

lemma keeps_invoke:
  assumes env: "calm_env k env"
  shows "keeps k s (snd (invoke env j p ctx sid s))"
proof (cases "reg_get (pf_registry s) j")
  case None
  then show ?thesis by (simp add: invoke_def)
next
  case a: (Some a)
  show ?thesis
  proof (cases "map_of (xv_adapters env) (a_stack a)")
    case None
    with a show ?thesis by (simp add: invoke_def)
  next
    case ad: (Some ad)
    define s1 where "s1 = x_heartbeat env j (set_status j SRunning s)"
    define s2 where "s2 = s1\<lparr>pf_invoking := List.insert j (pf_invoking s1)\<rparr>"
    have s2: "keeps k s s2" unfolding s2_def s1_def by (rule keeps_trans [OF _ keeps_fields(1)]) (intro keeps_after keeps_refl)
    obtain run s3 where run: "xv_run_started env j (ctx_str ctx ''_trigger'' ''manual'') p (ctx_str ctx ''tenant_id'' ''default'') s2 = (run, s3)" by fastforce
    have s3: "keeps k s s3" using keeps_trans [OF s2 calm_envD(3) [OF env, of s2 j "ctx_str ctx ''_trigger'' ''manual''" p "ctx_str ctx ''tenant_id'' ''default''"]] by (simp only: run snd_conv)
    obtain c s4 where c: "invoke_context env a run ctx s3 = (c, s4)" by fastforce
    have s4: "keeps k s s4" using keeps_trans [OF s3 keeps_context [OF env, of s3 a run ctx]] by (simp only: c snd_conv)
    obtain x s5 where x: "invoke_adapter ad j a p c (map_option sn_messages (loaded_session sid s)) s4 = (x, s5)" by fastforce
    have s5: "keeps k s s5"
      using keeps_trans [OF s4 keeps_adapter [OF env ad, of s4 j a p c "map_option sn_messages (loaded_session sid s)"]] by (simp only: x snd_conv)
    have "snd (invoke env j p ctx sid s) =
       (case x of Inl h \<Rightarrow> (case h of Cancelled \<Rightarrow> wind_up env j run None s5
           | Exc e \<Rightarrow> wind_up env j run (Some (failed_result (exn_text e))) (set_status j SFailed s5))
        | Inr r \<Rightarrow> wind_up env j run (Some r) (record_turn a p ctx sid (loaded_session sid s) r (charge env j r (set_status j (rz_status r) s5))))"
      unfolding invoke_def a ad option.case Let_def s1_def [symmetric] s2_def [symmetric] run c x prod.case by (simp split: sum.split halt.split)
    then show ?thesis
      using s5 by (auto split: sum.split halt.split intro!: keeps_wind_up [OF env] keeps_after)
  qed
qed

text \<open>The platform after so many iterations, each with its pause, if the loop got that far.\<close>

primrec boundary :: "'w xenv \<Rightarrow> string \<Rightarrow> loop_settings \<Rightarrow> nat \<Rightarrow> int \<Rightarrow> 'w platform \<Rightarrow> 'w platform option" where
  "boundary env k lo 0 i s = Some s"
| "boundary env k lo (Suc n) i s =
     (if reg_get_status (pf_registry s) k = SStopped then None
      else case invoke env k (iteration_prompt lo i) None None s of
        (Inl h, s1) \<Rightarrow> None
      | (Inr r, s1) \<Rightarrow>
          (let s2 = save_checkpoint env k (progress_at lo (i + 1) 0 (summary_of r)) s1
           in if rz_status r = SCompleted \<or> rz_status r = SFailed \<and> \<not> lo_restart lo then None
              else (case xv_sleep env (lo_interval lo) s2 of
                      (Inl h, s3) \<Rightarrow> None | (Inr _, s3) \<Rightarrow> boundary env k lo n (i + 1) s3)))"

lemma boundary_iterations:
  "boundary env k lo n i s = Some s' \<Longrightarrow> plain_iterations env k lo (n + m) i s = plain_iterations env k lo m (i + int n) s'"
proof (induction n arbitrary: i s)
  case 0
  then show ?case by simp
next
  case (Suc n)
  obtain y s1 where y: "invoke env k (iteration_prompt lo i) None None s = (y, s1)" by fastforce
  from Suc.prems show ?case
    using Suc.IH [of "i + 1"] by (auto simp: y Let_def add.assoc split: sum.splits prod.splits if_splits)
qed

lemma saved_checkpoint:
  assumes "pt_ok (pf_table s)" and "generation_of s k = Some g"
  shows "\<exists>c. ck_load (pf_ckpts (save_checkpoint env k pr s)) k = Some c \<and> cp_progress c = pr \<and> cp_generation c = g"
    and "pf_table (save_checkpoint env k pr s) = pf_table s" and "pf_registry (save_checkpoint env k pr s) = pf_registry s"
proof -
  from assms(2) obtain p where p: "map_of (processes (pf_table s)) k = Some p" "generation (ident p) = g" by (auto simp: generation_of_def)
  have "pid (ident p) = k" using keyed_lookup [OF pt_ok_keyed [OF assms(1)] p(1)] .
  with p show "\<exists>c. ck_load (pf_ckpts (save_checkpoint env k pr s)) k = Some c \<and> cp_progress c = pr \<and> cp_generation c = g"
    by (simp add: save_checkpoint_def pt_get_def ck_load_def ck_save_def checkpoint_of_process_def)
  show "pf_table (save_checkpoint env k pr s) = pf_table s" "pf_registry (save_checkpoint env k pr s) = pf_registry s"
    by (simp_all add: save_checkpoint_def split: option.split)
qed

lemma boundary_checkpoint:
  assumes "calm_env k env"
  shows "boundary env k lo n i s = Some s' \<Longrightarrow> 0 < n \<Longrightarrow> pt_ok (pf_table s) \<Longrightarrow> generation_of s k = Some g \<Longrightarrow>
    (\<exists>c. ck_load (pf_ckpts s') k = Some c \<and> lp_step (cp_progress c) = i + int n \<and> lp_crashes (cp_progress c) = 0 \<and> cp_generation c = g) \<and>
    generation_of s' k = Some g"
proof (induction n arbitrary: i s)
  case (Suc n)
  obtain y s1 where y: "invoke env k (iteration_prompt lo i) None None s = (y, s1)" by fastforce
  with Suc.prems(1) obtain r where r: "y = Inr r" by (auto split: sum.splits if_splits)
  have k1: "keeps k s s1" using keeps_invoke [OF assms, of s k "iteration_prompt lo i" None None] by (simp add: y)
  then have ok1: "pt_ok (pf_table s1)" "generation_of s1 k = Some g" using Suc.prems(3,4) by (simp_all add: keeps_def)
  define s2 where "s2 = save_checkpoint env k (progress_at lo (i + 1) 0 (summary_of r)) s1"
  note saved = saved_checkpoint [OF ok1, of env "progress_at lo (i + 1) 0 (summary_of r)", folded s2_def]
  have ok2: "pt_ok (pf_table s2)" "generation_of s2 k = Some g" using ok1 saved(2) by (simp_all add: generation_of_def)
  obtain z s3 where z: "xv_sleep env (lo_interval lo) s2 = (z, s3)" by fastforce
  have k3: "keeps k s2 s3" using calm_envD(7) [OF assms, of s2 "lo_interval lo"] by (simp add: z)
  then have ok3: "pt_ok (pf_table s3)" "generation_of s3 k = Some g" "ck_load (pf_ckpts s3) k = ck_load (pf_ckpts s2) k"
    using ok2 by (simp_all add: keeps_def)
  have next_one: "boundary env k lo n (i + 1) s3 = Some s'"
    using Suc.prems(1) by (simp add: y r Let_def s2_def [symmetric] z split: sum.splits if_splits)
  show ?case
  proof (cases "n = 0")
    case True
    with next_one ok3 saved(1) show ?thesis by (auto simp: progress_at_def)
  next
    case False
    then show ?thesis using Suc.IH [OF next_one _ ok3(1,2)] by (simp add: ac_simps)
  qed
qed simp

text \<open>C14. 
  A restarted autonomous loop continues where it was. Whatever point between two iterations the loop has reached,
  the task started from there, with a fresh process table and registry as long as the agent's checkpoint survived and its generation is the same,
  performs exactly the remaining iterations, numbered on; and restarting at that point
  instead of going on makes no difference to the whole run. The adapter and the other parts leave the
  checkpoint and the generation of the agent alone.
\<close>

theorem restart_continues_the_run:
  assumes "calm_env (a_id a) env" and "pt_ok (pf_table s)" and "generation_of s (a_id a) = Some g"
    and "loop_settings_of a = Inr lo" and "resume_point (a_id a) s = ((i, c), s)"
    and "boundary env (a_id a) lo n i s = Some s'" and "0 < n" and "i + int n \<le> lo_max lo"
  shows "run_autonomous_loop env a s' = run_autonomous_loop env a s \<and>
    (\<forall>t. ck_load (pf_ckpts t) (a_id a) = ck_load (pf_ckpts s') (a_id a) \<and> generation_of t (a_id a) \<in> {None, Some g} \<longrightarrow>
      run_autonomous_loop env a t =
        loop_ending (a_id a) (iterations env (a_id a) lo (nat (lo_max lo - (i + int n))) (i + int n) 0 t))"
proof -
  let ?k = "a_id a"
  obtain c' where c: "ck_load (pf_ckpts s') ?k = Some c'" "lp_step (cp_progress c') = i + int n" "lp_crashes (cp_progress c') = 0" "cp_generation c' = g"
    and g: "generation_of s' ?k = Some g"
    using boundary_checkpoint [OF assms(1,6,7,2,3)] by blast
  have from_there: "run_autonomous_loop env a t =
        loop_ending ?k (iterations env ?k lo (nat (lo_max lo - (i + int n))) (i + int n) 0 t)"
    if "ck_load (pf_ckpts t) ?k = ck_load (pf_ckpts s') ?k" "generation_of t ?k \<in> {None, Some g}" for t
  proof -
    have "resume_point ?k t = ((i + int n, 0), t)"
      using that c by (auto simp: resume_point_def generation_of_def pt_get_def split: option.split)
    then show ?thesis using assms(4) by (simp add: run_autonomous_loop_def)
  qed
  have "nat (lo_max lo - i) = n + nat (lo_max lo - (i + int n))" using assms(7,8) by linarith
  then have "run_autonomous_loop env a s = loop_ending ?k (plain_iterations env ?k lo (n + nat (lo_max lo - (i + int n))) i s)"
    using assms(4,5) by (simp add: run_autonomous_loop_def crash_handling_dead)
  then have "run_autonomous_loop env a s' = run_autonomous_loop env a s"
    using from_there [of s'] g by (simp add: boundary_iterations [OF assms(6)] crash_handling_dead)
  with from_there show ?thesis by blast
qed

lemma demo_executor_calm: "calm_env k demo_executor"
proof -
  have "keeps k s (s\<lparr>pf_world := w\<rparr>)" for s :: "nat platform" and w by (simp add: keeps_def generation_of_def)
  then show ?thesis by (auto simp: calm_env_def calm_def demo_executor_def demo_stack_def)
qed

lemma restart_continues_the_run_witness:
  "let s = snd (deploy demo_executor (demo_worker ''x'' ''helps'') demo_empty_platform)
   in \<exists>s'. pf_world s' = 2 \<and> run_autonomous_loop demo_executor (demo_worker ''x'' ''helps'') s' =
        run_autonomous_loop demo_executor (demo_worker ''x'' ''helps'') s"
proof -
  let ?a = "demo_worker ''x'' ''helps''" and ?lo = "\<lparr>lo_goal = default_goal, lo_max = 50, lo_interval = 30, lo_restart = False, lo_max_crashes = 3\<rparr>"
  define s where "s = snd (deploy demo_executor ?a demo_empty_platform)"
  have lo: "loop_settings_of ?a = Inr ?lo" by code_simp
  have c: "pf_ckpts s = []" "map_option pf_world (boundary demo_executor ''x'' ?lo 2 0 s) = Some 2" "generation_of s ''x'' = Some 1"
    "processes (pf_table s) = [(''x'', snd (hd (processes (pf_table s))))]" "pid (ident (snd (hd (processes (pf_table s))))) = ''x''"
    unfolding s_def by code_simp+
  have r: "registry_of (pf_table s) = Some \<lparr>r_agents = [(''x'', ?a\<lparr>a_config_path := ''/srv/agents/shared/bob''\<rparr>)], r_statuses = [(''x'', SRunning)]\<rparr>"
    unfolding s_def by code_simp
  from c(2) obtain s' where s': "boundary demo_executor ''x'' ?lo 2 0 s = Some s'" "pf_world s' = 2" by auto
  have i: "a_id ?a = ''x''" by (simp add: demo_worker_def)
  have res: "resume_point ''x'' s = ((0, 0), s)" by (simp add: resume_point_def c(1) ck_load_def)
  have ok: "pt_ok (pf_table s)"
    unfolding pt_ok_def r by (subst c(4)) (simp add: keyed_def dict_ok_def c(5) reg_ok_def demo_worker_def)
  from restart_continues_the_run [of ?a demo_executor s 1 ?lo 0 0 2 s', unfolded i] demo_executor_calm ok c(3) lo res s'
  show ?thesis unfolding Let_def s_def [symmetric] by auto
qed

subsection \<open>Where the executor fails\<close>

text \<open>
  The directory of a shared agent depends on its name alone, while names are unique only within a namespace; and an owner with dots in its
  name moves a personal agent into the directory of a shared one.
\<close>

lemma namesakes_share_a_directory:
  "a_ownership a = Shared \<Longrightarrow> a_ownership b = Shared \<Longrightarrow> a_name a = a_name b \<Longrightarrow> resolve_agent_dir base a = resolve_agent_dir base b"
  by (simp add: resolve_agent_dir_def agent_dir_def)

lemma dotted_owner_shares_a_directory:
  "map_sum id path_resolve (resolve_agent_dir [''agents''] ((demo_worker ''x'' [])\<lparr>a_ownership := Personal, a_owner := Some ''../shared''\<rparr>)) =
     resolve_agent_dir [''agents''] (demo_worker ''x'' [])"
  by code_simp

text \<open>Two agents of one name in two namespaces: undeploying the first removes the files of the second, which keeps running.\<close>

definition filing_stack :: "string list adapter" where
  "filing_stack = \<lparr>ad_scaffold = (\<lambda>a s. (Inr (), s\<lparr>pf_world := List.insert (a_config_path a) (pf_world s)\<rparr>)),
     ad_create = (\<lambda>a s. (Inr (), s)), ad_invoke = (\<lambda>k p c h s. (Inr ((failed_result [])\<lparr>rz_status := SIdle\<rparr>), s)),
     ad_start_loop = (\<lambda>k s. (Inr (), s)), ad_stop = (\<lambda>k s. (Inr (), s)), ad_recover = (\<lambda>s. (Inr 0, s)), ad_tools = (\<lambda>s. [])\<rparr>"

definition filing_executor :: "string list adapter \<Rightarrow> string list xenv" where
  "filing_executor ad = \<lparr>xv_adapters = [(''demo'', ad)], xv_root = [''agents''], xv_now = (\<lambda>s. 7),
     xv_run_started = (\<lambda>k t p n s. (None, s)), xv_run_finished = (\<lambda>n k r s. s), xv_inject = None, xv_pending = None,
     xv_price = (\<lambda>m i j. 0), xv_sleep = (\<lambda>d s. (Inr (), s)), xv_rmtree = (\<lambda>p s. s\<lparr>pf_world := removeAll p (pf_world s)\<rparr>)\<rparr>"

definition filing_platform :: "string list platform" where
  "filing_platform = \<lparr>pf_table = empty_ptable (Some empty_registry), pf_sched = empty_scheduler, pf_bus = empty_bus,
     pf_ckpts = [], pf_auto = [], pf_invoking = [], pf_sessions = None, pf_world = []\<rparr>"

lemma namesake_loses_its_files:
  "let env = filing_executor filing_stack;
       s1 = snd (deploy env (demo_worker ''x'' []) filing_platform);
       s2 = snd (deploy env ((demo_worker ''y'' [])\<lparr>a_namespace := ''lab''\<rparr>) s1);
       s3 = snd (undeploy env ''x'' s2)
   in pf_world s2 = [''/agents/shared/bob''] \<and> map_option a_config_path (reg_get (pf_registry s3) ''y'') = Some ''/agents/shared/bob'' \<and>
      map_option phase_of (pt_get (pf_table s3) ''y'') = Some Running \<and> pf_world s3 = []"
  by code_simp

text \<open>
  An agent that is stopped while it is invoked stays stopped as a process, but its registered status becomes
  that of the result, which counts as live: whatever the status was when the adapter returned, it is overwritten.
\<close>

lemma charge_registry [simp]: "pf_registry (charge env k r s) = pf_registry s"
  by (simp add: charge_def Let_def x_heartbeat_def heartbeat_def record_usage_def pf_registry_def)

lemma turn_registry [simp]: "pf_registry (record_turn a p c sid sess r s) = pf_registry s"
  by (simp add: record_turn_def split: option.split)

lemma result_overrides_a_stop:
  assumes "reg_get (pf_registry s) k = Some a" and "map_of (xv_adapters env) (a_stack a) = Some ad" and "xv_pending env = None"
    and "\<And>run r t. pf_registry (xv_run_finished env run k r t) = pf_registry t"
    and "\<And>c h t. \<exists>t'. ad_invoke ad k prompt c h t = (Inr r, t') \<and> reg_get (pf_registry t') k \<noteq> None" and "rz_status r \<noteq> SFailed"
  shows "reg_get_status (pf_registry (snd (invoke env k prompt ctx sid s))) k =
    (if truthy (dget_default (rz_metadata r) ''queued'' PNone) then SIdle else rz_status r)"
proof -
  have r: "\<not> forgotten r" using assms(6) by (simp add: forgotten_def)
  obtain t where t: "snd (invoke env k prompt ctx sid s) = wind_up env k (fst t) (Some r) (record_turn a prompt ctx sid (loaded_session sid s) r
      (charge env k r (set_status k (rz_status r) (snd t))))" "reg_get (pf_registry (snd t)) k \<noteq> None"
  proof -
    define s1 where "s1 = x_heartbeat env k (set_status k SRunning s)"
    define s2 where "s2 = s1\<lparr>pf_invoking := List.insert k (pf_invoking s1)\<rparr>"
    obtain run s3 where run: "xv_run_started env k (ctx_str ctx ''_trigger'' ''manual'') prompt (ctx_str ctx ''tenant_id'' ''default'') s2 = (run, s3)" by fastforce
    obtain c s4 where c: "invoke_context env a run ctx s3 = (c, s4)" by fastforce
    obtain t' where t': "ad_invoke ad k prompt c (map_option sn_messages (loaded_session sid s)) s4 = (Inr r, t')" "reg_get (pf_registry t') k \<noteq> None"
      using assms(5) by blast
    have "invoke_adapter ad k a prompt c (map_option sn_messages (loaded_session sid s)) s4 = (Inr r, t')"
      using t' r by (simp add: invoke_adapter_def)
    then have "snd (invoke env k prompt ctx sid s) = wind_up env k run (Some r) (record_turn a prompt ctx sid (loaded_session sid s) r
      (charge env k r (set_status k (rz_status r) t')))"
      unfolding invoke_def assms(1,2) option.case Let_def s1_def [symmetric] s2_def [symmetric] run c prod.case by simp
    with that [of "(run, t')"] t' show thesis by simp
  qed
  then show ?thesis using assms(3,4) by (auto simp: wind_up_def Let_def reg_get_def reg_set_status_def reg_get_status_def dget_default_def)
qed

end
