(* ===== verification/Recovery.thy ===== *)
theory Recovery
  imports ExecutorRuns
begin

text \<open>
  Recovery after a restart of the platform (\<open>recover_platform\<close> in \<open>src/src/platform/executor.py\<close>): which agents are
  wired again, and in what state it leaves the others.
\<close>

subsection \<open>What a step leaves alone\<close>

definition leaves :: "string \<Rightarrow> 'w platform \<Rightarrow> 'w platform \<Rightarrow> bool" where
  "leaves j s s' \<longleftrightarrow> (platform_ok s \<longrightarrow> platform_ok s' \<and> same_triggers j s s' \<and>
     reg_get_status (pf_registry s') j = reg_get_status (pf_registry s) j)"

lemma leaves_refl [simp]: "leaves j s s"
  by (simp add: leaves_def same_triggers_def)

lemma leaves_trans: "leaves j s t \<Longrightarrow> leaves j t u \<Longrightarrow> leaves j s u"
  by (auto simp: leaves_def same_triggers_def)

lemma leaves_world [simp]: "leaves j s (s\<lparr>pf_world := w\<rparr>)"
  by (simp add: leaves_def same_triggers_def platform_ok_def)

text \<open>The registered status after a transition: only that of the process itself can change.\<close>

lemma status_after_mirror:
  "registry_of (mirror_status p t) = map_option (\<lambda>r. if phase_of p \<in> set mirror_phases
     then reg_set_status (pid (ident p)) (case agent_status_of_value (status_value_from_phase (phase_of p)) of Some st \<Rightarrow> st | None \<Rightarrow> undefined) r
     else r) (registry_of t)"
proof -
  have "agent_status_of_value (status_value_from_phase (phase_of p)) \<noteq> None" by (cases "phase_of p") (simp_all add: agent_status_of_value_def)
  then show ?thesis by (auto simp: mirror_status_def split: option.split)
qed

lemma drained_child_phase: "phase_of (drain_child now sig why c) = Draining"
  by (simp add: drain_child_def proc_transition_def)

lemma cascade_registry [simp]: "registry_of (cascade_to_children now k ph why t) = registry_of t"
proof -
  have "registry_of (fold (cascade_one now sig why) cs t) = registry_of t" for sig why cs
    by (induction cs arbitrary: t) (simp_all add: cascade_one_def Let_def status_after_mirror drained_child_phase mirror_phases_def option.map_ident)
  then show ?thesis by (simp add: cascade_to_children_def)
qed

lemma transition_registry:
  assumes "pt_ok t" and "map_of (processes t) k = Some p"
  shows "registry_of (snd (pt_transition now k ph why f c t)) =
    (let q = proc_transition now ph why f p in if fst q then registry_of (mirror_status (snd q) t) else registry_of t)"
  using assms by (simp add: pt_transition_def Let_def split_beta status_after_mirror)

lemma leaves_transition:
  assumes "j \<noteq> k"
  shows "leaves j s (x_transition env k ph why f s)"
proof -
  let ?s = "x_transition env k ph why f s"
  have "platform_ok ?s" "reg_get_status (pf_registry ?s) j = reg_get_status (pf_registry s) j" if ok: "platform_ok s"
  proof -
    have pt: "pt_ok (pf_table s)" "registry_of (pf_table s) \<noteq> None" using ok by (simp_all add: platform_ok_def)
    have st: "registry_of (pf_table ?s) \<noteq> None \<and> reg_get_status (pf_registry ?s) j = reg_get_status (pf_registry s) j"
    proof (cases "map_of (processes (pf_table s)) k")
      case None
      with pt show ?thesis by (simp add: x_transition_def pt_transition_def)
    next
      case (Some p)
      have "pid (ident p) = k" using keyed_lookup [OF pt_ok_keyed [OF pt(1)] Some] .
      with pt(2) assms show ?thesis
        by (auto simp: x_transition_def pf_registry_def transition_registry [OF pt(1) Some] Let_def status_after_mirror reg_get_status_def
            reg_set_status_def dget_default_def)
    qed
    then show "platform_ok ?s" "reg_get_status (pf_registry ?s) j = reg_get_status (pf_registry s) j"
      using ok transition_ok [OF pt(1)] by (simp_all add: platform_ok_def)
  qed
  then show ?thesis by (simp add: leaves_def same_triggers_def reg_get_def)
qed

lemma register_process_step:
  "\<exists>t. register_process env a s = s\<lparr>pf_table := t\<rparr> \<and> (pt_ok (pf_table s) \<longrightarrow> pt_ok t \<and> map_of (processes t) (a_id a) \<noteq> None)"
proof (cases "map_of (processes (pf_table s)) (a_id a)")
  case None
  then show ?thesis
    using pt_ok_register [of "pf_table s" "xv_now env s" "identity_for a" "a_id a" Admitted]
    by (auto simp: register_process_def pt_register_def identity_for_def Let_def)
next
  case (Some p)
  have "map_of (processes (pf_table (x_transition env (a_id a) Admitted [] True s))) (a_id a) \<noteq> None" if "pt_ok (pf_table s)"
    using transition_ident [OF that, of env "a_id a" Admitted "[]" True "a_id a"] Some by auto
  with Some show ?thesis
    using transition_ok [of s env "a_id a" Admitted "[]" True]
    by (auto simp: register_process_def pt_register_def identity_for_def x_transition_def)
qed

lemma leaves_register:
  assumes "j \<noteq> a_id a"
  shows "leaves j s (register_process env a s)"
proof (cases "map_of (processes (pf_table s)) (a_id a)")
  case None
  have "mirror_status (new_process now i r Admitted) t = t" for now i r t by (rule mirror_quiet) (simp add: new_process_def mirror_phases_def)
  with None have "register_process env a s =
      with_process (a_id a) (new_process (xv_now env s) (identity_for a) (a_id a) Admitted) s" by (simp add: register_process_fresh)
  moreover have "pt_ok ((pf_table s)\<lparr>processes := processes (pf_table s) @ [(a_id a, p)]\<rparr>)"
    if "pt_ok (pf_table s)" "pid (ident p) = a_id a" for p
    using pt_ok_processes [OF that(1) keyed_dset [OF pt_ok_keyed [OF that(1)], of p "a_id a"]] None that(2) by (simp add: dset_absent)
  ultimately show ?thesis
    by (simp add: leaves_def platform_ok_def same_triggers_def) (simp add: with_process_def new_process_def identity_for_def)
next
  case (Some p)
  then show ?thesis using leaves_transition [OF assms] by (simp add: register_process_def pt_register_def identity_for_def)
qed

lemma platform_ok_status: "platform_ok s \<Longrightarrow> platform_ok (set_status k st s)"
  using keeps_status [of k s k st] by (simp add: platform_ok_def keeps_def) (simp add: set_status_def on_registry_def)

lemma leaves_status: "j \<noteq> k \<Longrightarrow> leaves j s (set_status k st s)"
  using platform_ok_status [of s k st]
  by (auto simp: leaves_def same_triggers_def reg_get_status_def reg_set_status_def reg_get_def dget_default_def)

lemma leaves_auto: "j \<noteq> k \<Longrightarrow> leaves j s (auto_add k s)"
  by (simp add: leaves_def same_triggers_def auto_add_def platform_ok_def)

lemma leaves_wired: "j \<noteq> a_id a \<Longrightarrow> leaves j s (wired a s)"
proof -
  assume j: "j \<noteq> a_id a"
  then have "leaves j s (s\<lparr>pf_sched := add_job (a_id a) cron cb (pf_sched s)\<rparr>)" for cron cb
    by (simp add: leaves_def same_triggers_def platform_ok_def add_job_def remove_job_def Let_def delete_conv)
  moreover from j have "leaves j s (s\<lparr>pf_bus := fold (\<lambda>t. subscribe t (a_id a) (a_id a)) ts (pf_bus s)\<rparr>)" for ts
    by (simp add: leaves_def same_triggers_def platform_ok_def fold_subscribe)
  ultimately show ?thesis
    by (simp add: wired_def leaves_status [OF j] leaves_trans [OF leaves_auto [OF j] leaves_status [OF j]] split: execution_type.split option.split)
qed

subsection \<open>One agent\<close>

text \<open>Nothing but its own task or timer can run an agent; the checkpoint may be there.\<close>

definition unattached :: "string \<Rightarrow> 'w platform \<Rightarrow> bool" where
  "unattached k s \<longleftrightarrow> map_of (sd_jobs (pf_sched s)) k = None \<and> (\<forall>ev. callback_of (pf_bus s) ev k = None) \<and> k \<notin> set (pf_auto s)"

lemma unattached_frame [simp]:
  "unattached k (s\<lparr>pf_world := w\<rparr>) = unattached k s" "unattached k (x_transition env j ph why f s) = unattached k s"
  "unattached k (s\<lparr>pf_table := t\<rparr>) = unattached k s"
  by (simp_all add: unattached_def)

text \<open>What recovery makes of an agent: the agent, the platform before, the platform after.\<close>

definition recovered_as :: "'w xenv \<Rightarrow> agent_def \<Rightarrow> 'w platform \<Rightarrow> 'w platform \<Rightarrow> bool" where
  "recovered_as env a s s' \<longleftrightarrow>
     (let k = a_id a; st = reg_get_status (pf_registry s) k; st' = reg_get_status (pf_registry s') k
      in if map_of (xv_adapters env) (a_stack a) = None \<or> \<not> recoverable a st then unattached k s' \<and> st' = st
         else listens a s' \<or> unattached k s' \<and> st' = SFailed)"

lemma transition_keeps_registry:
  assumes "ph \<notin> set mirror_phases"
  shows "pf_registry (x_transition env k ph why f s) = pf_registry s"
proof (cases "map_of (processes (pf_table s)) k")
  case None
  then show ?thesis by (simp add: x_transition_def pf_registry_def pt_transition_def)
next
  case (Some p)
  then show ?thesis
    using assms by (auto simp: x_transition_def pf_registry_def pt_transition_def Let_def split_beta proc_transition_def mirror_quiet mirror_phases_def cascade_phases_def)
qed

lemma failed_status:
  assumes "platform_ok s" and "map_of (processes (pf_table s)) k \<noteq> None" and "reg_get (pf_registry s) k \<noteq> None"
  shows "reg_get_status (pf_registry (x_transition env k Failed why True s)) k = SFailed"
proof -
  have pt: "pt_ok (pf_table s)" using assms(1) by (simp add: platform_ok_def)
  from assms(2) obtain p where p: "map_of (processes (pf_table s)) k = Some p" by blast
  obtain r where r: "registry_of (pf_table s) = Some r" "pf_registry s = r" using platform_registry [OF assms(1)] by blast
  have id: "pid (ident p) = k" using keyed_lookup [OF pt_ok_keyed [OF pt] p] .
  have q: "fst (proc_transition now Failed why True p)" "phase_of (snd (proc_transition now Failed why True p)) = Failed" for now
    by (auto simp: proc_transition_def)
  have f: "agent_status_of_value (status_value_from_phase Failed) = Some SFailed" by (simp add: agent_status_of_value_def)
  show ?thesis
    using assms(3) r f by (simp add: x_transition_def pf_registry_def transition_registry [OF pt p] Let_def status_after_mirror q id mirror_phases_def
        reg_get_status_def reg_set_status_def dget_default_def reg_get_def)
qed

lemma wired_ok: "platform_ok s \<Longrightarrow> platform_ok (wired a s)"
proof -
  assume "platform_ok s"
  moreover obtain j where "j \<noteq> a_id a" by (metis not_Cons_self2)
  ultimately show ?thesis using leaves_wired [of j a s] by (simp add: leaves_def)
qed

lemma transition_ok_platform: "platform_ok s \<Longrightarrow> platform_ok (x_transition env k ph why f s)"
proof -
  assume "platform_ok s"
  moreover obtain j where "j \<noteq> k" by (metis not_Cons_self2)
  ultimately show ?thesis using leaves_transition [of j k s] by (simp add: leaves_def)
qed

lemma registered_ok: "platform_ok s \<Longrightarrow> platform_ok (register_process env a s)"
proof -
  assume "platform_ok s"
  moreover obtain j where "j \<noteq> a_id a" by (metis not_Cons_self2)
  ultimately show ?thesis using leaves_register [of j a s] by (simp add: leaves_def)
qed

text \<open>
  The cases of recovering one agent with quiet adapters: left alone, wired, or failed before anything was attached.
\<close>

definition starting :: "'w xenv \<Rightarrow> agent_def \<Rightarrow> 'w platform \<Rightarrow> 'w platform" where
  "starting env a s = x_transition env (a_id a) Starting [] False (register_process env a s)"

lemma recover_one_cases:
  assumes "quiet_env env"
  obtains (alone) w where "recover_one env a n s = (Inr n, s\<lparr>pf_world := w\<rparr>)"
      and "map_of (xv_adapters env) (a_stack a) = None \<or> \<not> recoverable a (reg_get_status (pf_registry s) (a_id a))"
  | (wired) w where "recover_one env a n s = (Inr (n + 1), x_transition env (a_id a) Running [] False (wired a ((starting env a s)\<lparr>pf_world := w\<rparr>)))"
      and "map_of (xv_adapters env) (a_stack a) \<noteq> None" and "recoverable a (reg_get_status (pf_registry s) (a_id a))"
  | (failed) w e where "recover_one env a n s = (Inr n, x_transition env (a_id a) Failed (''recover failed: '' @ exn_text e) True ((starting env a s)\<lparr>pf_world := w\<rparr>))"
      and "map_of (xv_adapters env) (a_stack a) \<noteq> None" and "recoverable a (reg_get_status (pf_registry s) (a_id a))"
proof (cases "map_of (xv_adapters env) (a_stack a)")
  case None
  then show ?thesis using alone [of "pf_world s"] by (simp add: recover_one_def)
next
  case (Some ad)
  let ?st = "reg_get_status (pf_registry s) (a_id a)"
  have q: "quiet_adapter ad" using assms Some by (auto simp: quiet_env_def)
  then have create: "quiet (ad_create ad a)" by (simp add: quiet_adapter_def)
  show ?thesis
  proof (cases "recoverable a ?st")
    case False
    obtain x w where "ad_create ad a s = (x, s\<lparr>pf_world := w\<rparr>)" "x \<noteq> Inl Cancelled" by (rule quietE [OF create])
    moreover from this have "recover_one env a n s = (Inr n, s\<lparr>pf_world := if ?st = SQuarantined then pf_world s else w\<rparr>)"
      using Some False by (auto simp: recover_one_def Let_def split: sum.split halt.split)
    ultimately show ?thesis using alone False by blast
  next
    case True
    then have nq: "?st \<noteq> SQuarantined" by (simp add: recoverable_def)
    obtain x w where x: "ad_create ad a (starting env a s) = (x, (starting env a s)\<lparr>pf_world := w\<rparr>)" "x \<noteq> Inl Cancelled" by (rule quietE [OF create])
    show ?thesis
    proof (cases x)
      case (Inl h)
      with x obtain e where "x = Inl (Exc e)" by (cases h) auto
      with x Some True nq failed [of e w] show ?thesis by (simp add: recover_one_def rewire_def Let_def starting_def)
    next
      case (Inr u)
      show ?thesis
      proof (rule wire_execution_cases [OF q, of a "(starting env a s)\<lparr>pf_world := w\<rparr>"])
        fix e w' assume "wire_execution ad a ((starting env a s)\<lparr>pf_world := w\<rparr>) = (Inl (Exc e), (starting env a s)\<lparr>pf_world := w\<rparr>\<lparr>pf_world := w'\<rparr>)"
        with x Inr Some True nq failed [of e w'] show ?thesis by (simp add: recover_one_def rewire_def Let_def starting_def)
      next
        fix w' assume "wire_execution ad a ((starting env a s)\<lparr>pf_world := w\<rparr>) = (Inr (), wired a ((starting env a s)\<lparr>pf_world := w\<rparr>\<lparr>pf_world := w'\<rparr>))"
        with x Inr Some True nq wired [of w'] show ?thesis by (simp add: recover_one_def rewire_def Let_def starting_def)
      qed
    qed
  qed
qed

lemma leaves_starting: "j \<noteq> a_id a \<Longrightarrow> leaves j s (starting env a s)"
  unfolding starting_def by (blast intro: leaves_trans leaves_register leaves_transition)

lemma starting_frame [simp]:
  "pf_sched (starting env a s) = pf_sched s" "pf_bus (starting env a s) = pf_bus s" "pf_auto (starting env a s) = pf_auto s"
  using register_process_step [of env a s] by (auto simp: starting_def)

lemma recover_one_leaves:
  assumes "quiet_env env" and "j \<noteq> a_id a"
  shows "leaves j s (snd (recover_one env a n s))"
proof -
  note chain = leaves_trans [OF leaves_trans [OF leaves_starting [OF assms(2)] leaves_world]]
  show ?thesis
    by (rule recover_one_cases [OF assms(1), of a n s])
      (auto intro: chain leaves_transition [OF assms(2)] leaves_trans [OF leaves_wired [OF assms(2)] leaves_transition [OF assms(2)]])
qed

lemma recover_one_effect:
  assumes "quiet_env env" and ok: "platform_ok s" and "unattached (a_id a) s" and "reg_get (pf_registry s) (a_id a) \<noteq> None"
  shows "platform_ok (snd (recover_one env a n s)) \<and> (\<exists>m. fst (recover_one env a n s) = Inr m) \<and> recovered_as env a s (snd (recover_one env a n s))"
proof (rule recover_one_cases [OF assms(1), of a n s])
  fix w assume "recover_one env a n s = (Inr n, s\<lparr>pf_world := w\<rparr>)"
    and "map_of (xv_adapters env) (a_stack a) = None \<or> \<not> recoverable a (reg_get_status (pf_registry s) (a_id a))"
  with ok assms(3) show ?thesis by (simp add: recovered_as_def Let_def platform_ok_def)
next
  let ?k = "a_id a" and ?s = "starting env a s"
  have start: "platform_ok (?s\<lparr>pf_world := w\<rparr>)" for w
    using transition_ok_platform [OF registered_ok [OF ok]] by (simp add: starting_def platform_ok_def)
  have rows: "r_agents (pf_registry ?s) = r_agents (pf_registry s)"
  proof (cases "map_of (processes (pf_table s)) ?k")
    case None
    then show ?thesis by (simp add: starting_def register_process_fresh)
  next
    case (Some p)
    then show ?thesis by (simp add: starting_def register_process_def pt_register_def identity_for_def)
  qed
  fix w assume r: "map_of (xv_adapters env) (a_stack a) \<noteq> None" "recoverable a (reg_get_status (pf_registry s) ?k)"
  {
    assume x: "recover_one env a n s = (Inr (n + 1), x_transition env ?k Running [] False (wired a (?s\<lparr>pf_world := w\<rparr>)))"
    have "subs_ok (pf_bus (?s\<lparr>pf_world := w\<rparr>))" using ok by (simp add: platform_ok_def)
    then have "listens a (x_transition env ?k Running [] False (wired a (?s\<lparr>pf_world := w\<rparr>)))"
      using wired_listens [of "?s\<lparr>pf_world := w\<rparr>" a] listens_same [of a a "x_transition env ?k Running [] False (wired a (?s\<lparr>pf_world := w\<rparr>))" "wired a (?s\<lparr>pf_world := w\<rparr>)"]
      by simp
    with x r start show ?thesis by (auto simp: recovered_as_def Let_def transition_ok_platform wired_ok)
  }
  fix e assume x: "recover_one env a n s = (Inr n, x_transition env ?k Failed (''recover failed: '' @ exn_text e) True (?s\<lparr>pf_world := w\<rparr>))"
  have "pt_ok (pf_table s)" using ok by (simp add: platform_ok_def)
  then obtain t where t: "register_process env a s = s\<lparr>pf_table := t\<rparr>" "pt_ok t" "map_of (processes t) ?k \<noteq> None"
    using register_process_step [of env a s] by blast
  have "map_of (processes (pf_table ?s)) ?k \<noteq> None"
    using transition_ident [of "s\<lparr>pf_table := t\<rparr>" env ?k Starting "[]" False ?k] t by (auto simp: starting_def)
  then have "reg_get_status (pf_registry (x_transition env ?k Failed (''recover failed: '' @ exn_text e) True (?s\<lparr>pf_world := w\<rparr>))) ?k = SFailed"
    using assms(4) by (intro failed_status start) (simp_all add: reg_get_def rows)
  with x r start assms(3) show ?thesis by (auto simp: recovered_as_def Let_def transition_ok_platform) (simp_all add: unattached_def)
qed

subsection \<open>All agents\<close>

lemma unattached_same: "same_triggers j s t \<Longrightarrow> unattached j t = unattached j s"
  by (simp add: unattached_def same_triggers_def)

lemma recovered_before: "leaves (a_id a) s t \<Longrightarrow> platform_ok s \<Longrightarrow> recovered_as env a t u \<Longrightarrow> recovered_as env a s u"
  by (simp add: recovered_as_def leaves_def)

lemma recovered_after:
  assumes "leaves (a_id a) t u" and "platform_ok t" and "recovered_as env a s t"
  shows "recovered_as env a s u"
proof -
  have same: "same_triggers (a_id a) t u" "reg_get_status (pf_registry u) (a_id a) = reg_get_status (pf_registry t) (a_id a)"
    using assms(1,2) by (simp_all add: leaves_def)
  have "listens a t = listens a u" using same(1) by (simp add: listens_def same_triggers_def split: execution_type.split option.split)
  with assms(3) same unattached_same [OF same(1)] show ?thesis by (auto simp: recovered_as_def Let_def split: if_splits)
qed

lemma recover_agents_effect:
  assumes "quiet_env env"
  shows "platform_ok s \<Longrightarrow> distinct (map a_id as) \<Longrightarrow> (\<And>a. a \<in> set as \<Longrightarrow> unattached (a_id a) s \<and> reg_get (pf_registry s) (a_id a) \<noteq> None) \<Longrightarrow>
    \<exists>m s'. recover_agents env as n s = (Inr m, s') \<and> platform_ok s' \<and> (\<forall>a \<in> set as. recovered_as env a s s') \<and> (\<forall>j. j \<notin> a_id ` set as \<longrightarrow> leaves j s s')"
proof (induction "as" arbitrary: n s)
  case Nil
  then show ?case by simp
next
  case (Cons a as)
  have nd: "a_id a \<notin> a_id ` set as" using Cons.prems(2) by simp
  obtain x t where x: "recover_one env a n s = (x, t)" by fastforce
  from recover_one_effect [OF assms Cons.prems(1), where a = a and n = n] Cons.prems(3) [of a] x
  obtain m where t: "platform_ok t" "x = Inr m" "recovered_as env a s t" by auto
  have lv: "leaves j s t" if "j \<noteq> a_id a" for j using recover_one_leaves [OF assms that, where n = n and s = s] by (simp add: x)
  have "unattached (a_id b) t \<and> reg_get (pf_registry t) (a_id b) \<noteq> None" if b: "b \<in> set as" for b
  proof -
    have "a_id b \<noteq> a_id a" using nd b by (metis imageI)
    from lv [OF this] Cons.prems(1) have "same_triggers (a_id b) s t" by (simp add: leaves_def)
    with Cons.prems(3) [of b] b show ?thesis using unattached_same by (auto simp: same_triggers_def)
  qed
  from Cons.IH [OF t(1) _ this, where n = m] Cons.prems(2)
  obtain m' u where u: "recover_agents env as m t = (Inr m', u)" "platform_ok u" "\<forall>b \<in> set as. recovered_as env b t u" "\<And>j. j \<notin> a_id ` set as \<Longrightarrow> leaves j t u"
    by auto
  have "recovered_as env b s u" if "b \<in> set (a # as)" for b
  proof (cases "b = a")
    case True
    have "leaves (a_id a) t u" using u(4) Cons.prems(2) by simp
    with True t show ?thesis by (blast intro: recovered_after)
  next
    case False
    with that have b: "b \<in> set as" by simp
    then have "a_id b \<noteq> a_id a" using nd by (metis imageI)
    with b have "b \<in> set as" "a_id b \<noteq> a_id a" by simp_all
    then show ?thesis using u(3) lv Cons.prems(1) by (blast intro: recovered_before)
  qed
  moreover have "leaves j s u" if "j \<notin> a_id ` set (a # as)" for j using that lv u(4) by (auto intro: leaves_trans)
  ultimately show ?case using x t u by simp
qed

lemma recover_adapters_effect:
  "(\<And>ad. ad \<in> set ads \<Longrightarrow> quiet (ad_recover ad)) \<Longrightarrow> \<exists>m w. recover_adapters ads n s = (Inr m, s\<lparr>pf_world := w\<rparr>)"
proof (induction ads arbitrary: n s)
  case Nil
  show ?case by (rule exI [of _ n], rule exI [of _ "pf_world s"]) simp
next
  case (Cons ad ads)
  obtain x w where "ad_recover ad s = (x, s\<lparr>pf_world := w\<rparr>)" "x \<noteq> Inl Cancelled"
    by (rule quietE [of "ad_recover ad" s]) (use Cons.prems in auto)
  moreover obtain m w' where "recover_adapters ads n (s\<lparr>pf_world := w\<rparr>) = (Inr m, s\<lparr>pf_world := w\<rparr>\<lparr>pf_world := w'\<rparr>)"
    using Cons.IH [where n = n and s = "s\<lparr>pf_world := w\<rparr>"] Cons.prems by auto
  ultimately show ?case by (auto split: sum.split halt.split)
qed

text \<open>C19. 
  Recovery wires exactly the agents that may run. An agent without an adapter, one in quarantine, and
  one that failed or was stopped and does not ask for restarts is led to by no timer, event or task
  afterwards and keeps its status; every other agent is either wired by its execution type or, when bringing it up raised, marked as failed
  and not led to. The others' triggers do not depend on it, nor on the order.
\<close>

theorem recovery_wires_exactly_the_recoverable:
  assumes "quiet_env env" and "dict_ok (xv_adapters env)" and "platform_ok s" and "\<forall>a \<in> set (reg_list_all (pf_registry s)). unattached (a_id a) s"
  shows "(\<exists>n. fst (recover_platform env s) = Inr n) \<and>
    (\<forall>a \<in> set (reg_list_all (pf_registry s)). recovered_as env a s (snd (recover_platform env s)))"
proof -
  have reg: "reg_ok (pf_registry s)" using platform_registry [OF assms(3)] by blast
  have d: "distinct (map a_id (reg_list_all (pf_registry s)))"
    using reg keyed_vals_distinct [of a_id "r_agents (pf_registry s)"] by (simp add: reg_ok_def reg_list_all_def)
  have g: "reg_get (pf_registry s) (a_id a) = Some a" if "a \<in> set (reg_list_all (pf_registry s))" for a
    using reg keyed_vals [of a_id "r_agents (pf_registry s)" a] that by (simp add: reg_ok_def reg_list_all_def reg_get_def)
  obtain m t where t: "recover_agents env (reg_list_all (pf_registry s)) 0 s = (Inr m, t)"
    "platform_ok t" "\<forall>a \<in> set (reg_list_all (pf_registry s)). recovered_as env a s t"
    using recover_agents_effect [OF assms(1,3) d, where n = 0] assms(4) g by auto
  have "quiet (ad_recover ad)" if "ad \<in> set (dvals (xv_adapters env))" for ad
  proof -
    from that obtain st where "(st, ad) \<in> set (xv_adapters env)" by auto
    then have "map_of (xv_adapters env) st = Some ad" using assms(2) by (simp add: dict_ok_def map_of_is_SomeI)
    with assms(1) show ?thesis by (auto simp: quiet_env_def quiet_adapter_def)
  qed
  then obtain m' w where "recover_adapters (dvals (xv_adapters env)) m t = (Inr m', t\<lparr>pf_world := w\<rparr>)"
    using recover_adapters_effect [of "dvals (xv_adapters env)" m t] by auto
  moreover have "recovered_as env a s (t\<lparr>pf_world := w\<rparr>)" if "recovered_as env a s t" for a
    using that t(2) by (blast intro: recovered_after leaves_world)
  ultimately show ?thesis using t by (simp add: recover_platform_def)
qed

lemma recovery_wires_exactly_the_recoverable_witness:
  "let s = on_registry (\<lambda>r. \<lparr>r_agents = [(''x'', demo_worker ''x'' ''helps''), (''y'', demo_worker ''y'' ''helps'')],
             r_statuses = [(''x'', SCompleted), (''y'', SFailed)]\<rparr>) demo_empty_platform;
       s' = snd (recover_platform demo_executor s)
   in ''x'' \<in> set (pf_auto s') \<and> unattached ''y'' s'"
proof -
  define s where "s = on_registry (\<lambda>r. \<lparr>r_agents = [(''x'', demo_worker ''x'' ''helps''), (''y'', demo_worker ''y'' ''helps'')],
             r_statuses = [(''x'', SCompleted), (''y'', SFailed)]\<rparr>) demo_empty_platform"
  have r: "pf_registry s = \<lparr>r_agents = [(''x'', demo_worker ''x'' ''helps''), (''y'', demo_worker ''y'' ''helps'')],
             r_statuses = [(''x'', SCompleted), (''y'', SFailed)]\<rparr>" by (simp add: s_def)
  have ok: "platform_ok s" "\<forall>a \<in> set (reg_list_all (pf_registry s)). unattached (a_id a) s"
    using demo_empty_ok by (simp_all add: platform_ok_def s_def on_registry_def pt_ok_def reg_ok_def keyed_def dict_ok_def demo_worker_def unattached_def
        demo_empty_platform_def empty_scheduler_def reg_list_all_def pf_registry_def)
  have d: "dict_ok (xv_adapters demo_executor)" by (simp add: demo_executor_def dict_ok_def)
  have st: "reg_get_status (pf_registry s) ''x'' = SCompleted" "reg_get_status (pf_registry s) ''y'' = SFailed" by (simp_all add: r reg_get_status_def dget_default_def)
  have end_st: "reg_get_status (pf_registry (snd (recover_platform demo_executor s))) ''x'' = SRunning" unfolding s_def by code_simp
  have "recovered_as demo_executor a s (snd (recover_platform demo_executor s))" if "a \<in> {demo_worker ''x'' ''helps'', demo_worker ''y'' ''helps''}" for a
    using recovery_wires_exactly_the_recoverable [OF demo_executor_quiet d ok] that by (auto simp: r reg_list_all_def)
  from this [of "demo_worker ''x'' ''helps''"] this [of "demo_worker ''y'' ''helps''"] st end_st
  have "listens (demo_worker ''x'' ''helps'') (snd (recover_platform demo_executor s))" "unattached ''y'' (snd (recover_platform demo_executor s))"
    by (auto simp: recovered_as_def Let_def demo_worker_def demo_executor_def recoverable_def meta_def dget_default_def)
  then show ?thesis unfolding s_def [symmetric] Let_def by (simp add: listens_def demo_worker_def)
qed

end
