(* ===== verification/Callbacks.thy ===== *)
theory Callbacks
  imports Pyrt
begin

text \<open>
  Typed callbacks (\<open>src/src/platform/callbacks.py\<close>): registrations with a priority and filters, and the dispatch
  that runs the matching ones in priority order.  A callback is a value of type \<open>'cb\<close>; running it is the
  parameter \<open>call\<close>, which may read and change the world.
\<close>

type_synonym cb_args = "(string \<times> pyval) list"

datatype cb_level = AgentLevel | ModelLevel | ToolLevel
datatype cb_timing = Before | After
datatype cb_decision = Approve | DenyCall | Modify | Defer | Guide

record cb_context =
  cx_agent :: string
  cx_namespace :: string
  cx_level :: cb_level
  cx_timing :: cb_timing
  cx_event :: string
  cx_args :: cb_args

record cb_result =
  cr_decision :: cb_decision
  cr_reason :: string
  cr_modified :: "cb_args option"

definition cb_approve :: cb_result where
  "cb_approve = \<lparr>cr_decision = Approve, cr_reason = [], cr_modified = None\<rparr>"

text \<open>An empty filter does not filter.\<close>

record 'cb registration =
  rg_id :: string
  rg_level :: cb_level
  rg_timing :: cb_timing
  rg_event :: string
  rg_callback :: 'cb
  rg_priority :: int
  rg_agent :: "string option"
  rg_namespace :: "string option"

text \<open>The stable sort after appending.\<close>

definition cb_register :: "'cb registration \<Rightarrow> 'cb registration list \<Rightarrow> 'cb registration list" where
  "cb_register r rs = sort_key rg_priority (rs @ [r])"

definition cb_unregister :: "string \<Rightarrow> 'cb registration list \<Rightarrow> bool \<times> 'cb registration list" where
  "cb_unregister i rs = (let rs' = filter (\<lambda>r. rg_id r \<noteq> i) rs in (length rs' < length rs, rs'))"

definition filter_passes :: "string option \<Rightarrow> string \<Rightarrow> bool" where
  "filter_passes f x = (case f of None \<Rightarrow> True | Some y \<Rightarrow> y = [] \<or> y = x)"

definition cb_matches :: "cb_context \<Rightarrow> 'cb registration \<Rightarrow> bool" where
  "cb_matches ctx r \<longleftrightarrow> rg_level r = cx_level ctx \<and> rg_timing r = cx_timing ctx \<and>
     (rg_event r = ''*'' \<or> rg_event r = cx_event ctx) \<and> filter_passes (rg_agent r) (cx_agent ctx) \<and> filter_passes (rg_namespace r) (cx_namespace ctx)"

definition cb_match :: "cb_context \<Rightarrow> 'cb registration list \<Rightarrow> 'cb registration list" where
  "cb_match ctx rs = filter (cb_matches ctx) rs"

fun precedence :: "cb_decision \<Rightarrow> nat" where
  "precedence DenyCall = 0"
| "precedence Defer = 1"
| "precedence Guide = 2"
| "precedence Modify = 3"
| "precedence Approve = 4"

text \<open>What a callback does: it answers, returns something that is no \<open>CallbackResult\<close>, or raises.\<close>

datatype cb_answer = Answer cb_result | NoResult | CbRaised

definition better :: "cb_result \<Rightarrow> cb_result \<Rightarrow> cb_result" where
  "better best r = (if precedence (cr_decision r) \<le> precedence (cr_decision best) then r else best)"

primrec cb_loop :: "('cb \<Rightarrow> cb_context \<Rightarrow> 'w \<Rightarrow> cb_answer \<times> 'w) \<Rightarrow> cb_context \<Rightarrow> 'cb registration list \<Rightarrow> cb_result \<Rightarrow> 'w \<Rightarrow>
    cb_result \<times> 'w" where
  "cb_loop call ctx [] best w = (best, w)"
| "cb_loop call ctx (r # rs) best w =
     (case call (rg_callback r) ctx w of
        (Answer a, w1) \<Rightarrow> if cr_decision a = DenyCall then (a, w1) else cb_loop call ctx rs (better best a) w1
      | (_, w1) \<Rightarrow> cb_loop call ctx rs best w1)"

definition cb_dispatch :: "('cb \<Rightarrow> cb_context \<Rightarrow> 'w \<Rightarrow> cb_answer \<times> 'w) \<Rightarrow> 'cb registration list \<Rightarrow> cb_context \<Rightarrow> 'w \<Rightarrow>
    cb_result \<times> 'w" where
  "cb_dispatch call rs ctx w = cb_loop call ctx (cb_match ctx rs) cb_approve w"

subsection \<open>Which answer wins\<close>

definition reply_of :: "cb_answer \<Rightarrow> cb_result list" where
  "reply_of x = (case x of Answer a \<Rightarrow> [a] | _ \<Rightarrow> [])"

text \<open>The answers that are \<open>CallbackResult\<close>s, in priority order, of callbacks whose answers do not depend on the world.\<close>

definition cb_answers :: "('cb \<Rightarrow> cb_context \<Rightarrow> cb_answer) \<Rightarrow> 'cb registration list \<Rightarrow> cb_context \<Rightarrow> cb_result list" where
  "cb_answers ans rs ctx = concat (map (\<lambda>r. reply_of (ans (rg_callback r) ctx)) (cb_match ctx rs))"

text \<open>The last of the most severe results, or the first denial.\<close>

primrec winner :: "cb_result \<Rightarrow> cb_result list \<Rightarrow> cb_result" where
  "winner best [] = best"
| "winner best (a # as) = (if cr_decision a = DenyCall then a else winner (better best a) as)"

lemma cb_loop_winner:
  assumes "\<And>cb w. fst (call cb ctx w) = ans cb ctx"
  shows "fst (cb_loop call ctx rs best w) = winner best (concat (map (\<lambda>r. reply_of (ans (rg_callback r) ctx)) rs))"
proof (induction rs arbitrary: best w)
  case (Cons r rs)
  obtain x w1 where x: "call (rg_callback r) ctx w = (x, w1)" by fastforce
  with assms [of "rg_callback r" w] have "ans (rg_callback r) ctx = x" by simp
  with x Cons.IH show ?case by (cases x) (simp_all add: reply_of_def)
qed simp

lemma precedence_zero: "precedence d = 0 \<longleftrightarrow> d = DenyCall"
  by (cases d) simp_all

lemma precedence_inj: "precedence d = precedence e \<longleftrightarrow> d = e"
  by (cases d; cases e) simp_all

lemma winner_in: "winner best as \<in> insert best (set as)"
  by (induction as arbitrary: best) (auto simp: better_def split: if_splits)

lemma winner_least: "a \<in> insert best (set as) \<Longrightarrow> precedence (cr_decision (winner best as)) \<le> precedence (cr_decision a)"
proof (induction as arbitrary: best a)
  case (Cons b as)
  show ?case
  proof (cases "cr_decision b = DenyCall")
    case False
    then have w: "winner best (b # as) = winner (better best b) as" by simp
    have "precedence (cr_decision (winner (better best b) as)) \<le> precedence (cr_decision (better best b))"
      using Cons.IH by blast
    moreover have "precedence (cr_decision (better best b)) \<le> precedence (cr_decision best)"
      "precedence (cr_decision (better best b)) \<le> precedence (cr_decision b)" by (auto simp: better_def)
    ultimately show ?thesis using Cons.prems Cons.IH [of a "better best b"] w by fastforce
  qed simp
qed simp

lemma winner_last:
  assumes "\<forall>a \<in> set as. cr_decision a \<noteq> DenyCall" and "d \<le> precedence (cr_decision best)" and "\<forall>a \<in> set as. d \<le> precedence (cr_decision a)"
    and "precedence (cr_decision b) = d" and "cr_decision b \<noteq> DenyCall \<longrightarrow> (\<forall>c \<in> set cs. d < precedence (cr_decision c))"
  shows "winner best (as @ b # cs) = b"
proof -
  have keep: "winner b cs = b" if "cr_decision b \<noteq> DenyCall" "\<forall>c \<in> set cs. precedence (cr_decision b) < precedence (cr_decision c)" for b cs
    using that(2)
  proof (induction cs)
    case (Cons c cs)
    then have "cr_decision c \<noteq> DenyCall" using precedence_zero [of "cr_decision c"] by auto
    with Cons show ?case by (simp add: better_def)
  qed simp
  show ?thesis
    using assms
  proof (induction as arbitrary: best)
    case Nil
    then show ?case using keep by (auto simp: better_def)
  next
    case (Cons a as)
    have "d \<le> precedence (cr_decision (better best a))" using Cons.prems by (auto simp: better_def)
    with Cons show ?case by simp
  qed
qed

text \<open>
  Which of several callbacks decides: the first denial in priority order if anyone denies, else the most severe
  result (defer before guide before modify before approve), and among equally severe ones the last, that
  is the one of the lowest priority, although the documentation lets the first win.  A callback that raises, or returns
  something else, is as if it was not registered: an access check that crashes approves.
\<close>

theorem callbacks_most_severe_last:
  assumes "\<And>cb w. fst (call cb ctx w) = ans cb ctx"
  shows "let xs = cb_approve # cb_answers ans rs ctx; r = fst (cb_dispatch call rs ctx w) in
     r \<in> set xs \<and> (\<forall>x \<in> set xs. precedence (cr_decision r) \<le> precedence (cr_decision x)) \<and>
     (\<forall>as b cs. cb_answers ans rs ctx = as @ b # cs \<longrightarrow>
        (\<forall>x \<in> set as. precedence (cr_decision b) \<le> precedence (cr_decision x)) \<longrightarrow>
        (cr_decision b = DenyCall \<and> (\<forall>x \<in> set as. cr_decision x \<noteq> DenyCall) \<or>
         cr_decision b \<noteq> DenyCall \<and> (\<forall>x \<in> set cs. precedence (cr_decision b) < precedence (cr_decision x))) \<longrightarrow> r = b)"
proof -
  have r: "fst (cb_dispatch call rs ctx w) = winner cb_approve (cb_answers ans rs ctx)"
    unfolding cb_dispatch_def cb_answers_def by (rule cb_loop_winner) (rule assms)
  have ap: "precedence (cr_decision b) \<le> precedence (cr_decision cb_approve)" for b :: cb_result
    by (cases "cr_decision b") (simp_all add: cb_approve_def)
  have last: "winner cb_approve (as @ b # cs) = b"
    if "\<forall>x \<in> set as. precedence (cr_decision b) \<le> precedence (cr_decision x)"
      "cr_decision b = DenyCall \<and> (\<forall>x \<in> set as. cr_decision x \<noteq> DenyCall) \<or>
       cr_decision b \<noteq> DenyCall \<and> (\<forall>x \<in> set cs. precedence (cr_decision b) < precedence (cr_decision x))" for as b cs
  proof (rule winner_last [where d = "precedence (cr_decision b)"])
    show "\<forall>a \<in> set as. cr_decision a \<noteq> DenyCall" using that precedence_zero by (metis le_zero_eq)
  qed (use that ap in auto)
  show ?thesis
    unfolding r Let_def using winner_in [of cb_approve] winner_least [of _ cb_approve] last by simp
qed

definition demo_guard :: "string \<Rightarrow> int \<Rightarrow> nat registration" where
  "demo_guard i p = \<lparr>rg_id = i, rg_level = ToolLevel, rg_timing = Before, rg_event = ''*'', rg_callback = length i,
     rg_priority = p, rg_agent = None, rg_namespace = None\<rparr>"

definition demo_answer :: "nat \<Rightarrow> cb_context \<Rightarrow> cb_answer" where
  "demo_answer n ctx = (if n = 1 then Answer \<lparr>cr_decision = Modify, cr_reason = ''first'', cr_modified = None\<rparr>
     else if n = 2 then Answer \<lparr>cr_decision = Modify, cr_reason = ''second'', cr_modified = None\<rparr> else CbRaised)"

lemma callbacks_most_severe_last_witness:
  "map_option cr_reason (Some (fst (cb_dispatch (\<lambda>cb ctx w. (demo_answer cb ctx, w))
     (cb_register (demo_guard ''bb'' 9) (cb_register (demo_guard ''ccc'' 5) [demo_guard ''a'' 1]))
     \<lparr>cx_agent = ''x'', cx_namespace = ''n'', cx_level = ToolLevel, cx_timing = Before, cx_event = ''tool.execute'', cx_args = []\<rparr> ())))
   = Some ''second''"
proof -
  let ?rs = "cb_register (demo_guard ''bb'' 9) (cb_register (demo_guard ''ccc'' 5) [demo_guard ''a'' 1])"
  let ?ctx = "\<lparr>cx_agent = ''x'', cx_namespace = ''n'', cx_level = ToolLevel, cx_timing = Before, cx_event = ''tool.execute'', cx_args = []\<rparr>"
  have ans: "cb_answers demo_answer ?rs ?ctx = [\<lparr>cr_decision = Modify, cr_reason = ''first'', cr_modified = None\<rparr>]
      @ \<lparr>cr_decision = Modify, cr_reason = ''second'', cr_modified = None\<rparr> # []" by code_simp
  have "fst (cb_dispatch (\<lambda>cb ctx w. (demo_answer cb ctx, w)) ?rs ?ctx ()) =
      \<lparr>cr_decision = Modify, cr_reason = ''second'', cr_modified = None\<rparr>"
    by (rule callbacks_most_severe_last [of "\<lambda>cb ctx w. (demo_answer cb ctx, w)" ?ctx demo_answer ?rs "()", unfolded Let_def,
          THEN conjunct2, THEN conjunct2, rule_format, OF _ ans]) simp_all
  then show ?thesis by simp
qed

end
