(* ===== verification/AgenticLoop.thy ===== *)
theory AgenticLoop
  imports AgentContext Callbacks
begin

text \<open>
  The loop of the stacks that cannot suspend (\<open>run_agentic_loop\<close> in \<open>src/src/platform/agentic_loop.py\<close>): the model is asked, its
  calls are checked by the callbacks and run, and it is asked again.  The opening messages and the assistant turns
  are those of the step engine (the code repeats them); the results lack the engine's error flag.  The
  model, the tools, the SDK runtime, the callbacks and the usage enforcer act on the world and
  are fields of the environment. The calls of a turn are run one after the other.
\<close>

subsection \<open>The environment\<close>

record routed_response = llm_response +
  lr_model :: string

definition plain_response :: "routed_response \<Rightarrow> llm_response" where
  "plain_response r = \<lparr>lr_text = lr_text r, lr_reasoning = lr_reasoning r, lr_error = lr_error r, lr_tokens = lr_tokens r,
     lr_input_tokens = lr_input_tokens r, lr_output_tokens = lr_output_tokens r, lr_calls = lr_calls r\<rparr>"

text \<open>The usage enforcer: whether a tenant may go on, with what it used and its limit (\<open>None\<close> when it raises), and a record of usage.\<close>

record 'w usage_enforcer =
  en_tokens :: "string \<Rightarrow> pyval \<Rightarrow> 'w \<Rightarrow> (bool \<times> int \<times> int) option \<times> 'w"
  en_monthly :: "string \<Rightarrow> rat \<Rightarrow> 'w \<Rightarrow> (bool \<times> rat) option \<times> 'w"
  en_record :: "string \<Rightarrow> string \<Rightarrow> rat \<Rightarrow> 'w \<Rightarrow> 'w"

record 'w lenv =
  le_chat :: "llm_config \<Rightarrow> pyval list \<Rightarrow> details list option \<Rightarrow> 'w \<Rightarrow> routed_response res \<times> 'w"
  le_executor :: "(string \<Rightarrow> details \<Rightarrow> details \<Rightarrow> rat \<Rightarrow> 'w \<Rightarrow> attempt \<times> 'w) option"
  le_sdk :: "string \<Rightarrow> details \<Rightarrow> 'w \<Rightarrow> decision option \<times> 'w"
  le_callbacks :: "(cb_context \<Rightarrow> 'w \<Rightarrow> cb_result \<times> 'w) option"
  le_enforcer :: "'w usage_enforcer option"
  le_price :: "string \<Rightarrow> int \<Rightarrow> int \<Rightarrow> rat"

subsection \<open>Guidance\<close>

definition max_guidance_retries :: int where
  "max_guidance_retries = 3"

definition guided_result :: "string \<Rightarrow> int \<Rightarrow> string \<Rightarrow> pyval" where
  "guided_result name count reason =
     (if max_guidance_retries \<le> count
      then PDict [(''error'', PStr (''Denied: tool '' @ quoted name @ '' guided '' @ str_int count @
             '' times without correction. Last guidance: '' @ reason)), (''denied'', PBool True)]
      else PDict [(''error'', PStr (''Guidance: '' @ reason)), (''guidance'', PBool True)])"

text \<open>A callback's verdict on a call: the result that replaces it, if any, and the counts of guidance per tool.\<close>

definition guidance_verdict :: "string \<Rightarrow> cb_result \<Rightarrow> (string, int) dict \<Rightarrow> pyval option \<times> (string, int) dict" where
  "guidance_verdict name r counts =
     (if cr_decision r = Guide
      then (let count = dget_default counts name 0 + 1 in (Some (guided_result name count (cr_reason r)), dset name count counts))
      else if cr_decision r = DenyCall then (Some (PDict [(''error'', PStr (''Denied: '' @ cr_reason r)), (''denied'', PBool True)]), counts)
      else (None, counts))"

definition ctx_text :: "details \<Rightarrow> string \<Rightarrow> string \<Rightarrow> string" where
  "ctx_text ctx k d = py_str (dget_default ctx k (PStr d))"

definition call_context :: "details \<Rightarrow> string \<Rightarrow> details \<Rightarrow> cb_context" where
  "call_context ctx name inp = \<lparr>cx_agent = ctx_text ctx ''agent_id'' [], cx_namespace = ctx_text ctx ''namespace'' ''default'',
     cx_level = ToolLevel, cx_timing = Before, cx_event = ''tool.execute'',
     cx_args = [(''tool_name'', PStr name), (''tool_input'', PDict inp)]\<rparr>"

definition check_guidance :: "'w lenv \<Rightarrow> details \<Rightarrow> string \<Rightarrow> details \<Rightarrow> (string, int) dict \<Rightarrow> 'w \<Rightarrow> (pyval option \<times> (string, int) dict) \<times> 'w" where
  "check_guidance env ctx name inp counts w =
     (case le_callbacks env of
        None \<Rightarrow> ((None, counts), w)
      | Some dispatch_cb \<Rightarrow> apfst (\<lambda>r. guidance_verdict name r counts) (dispatch_cb (call_context ctx name inp) w))"

subsection \<open>Running a tool\<close>

definition default_timeout :: rat where
  "default_timeout = 60"

text \<open>The timeout of the first definition with this name; a value that is no number raises.\<close>

definition tool_timeout_for :: "string \<Rightarrow> details list \<Rightarrow> rat res" where
  "tool_timeout_for name defs =
     (case find (\<lambda>t. dget_default t ''name'' PNone = PStr name) defs of
        None \<Rightarrow> Inr default_timeout
      | Some t \<Rightarrow> (case num_of (dget_default t ''timeout_seconds'' (PFloat default_timeout)) of None \<Rightarrow> Inl TypeError | Some x \<Rightarrow> Inr x))"

definition suspend_text :: "suspend \<Rightarrow> string" where
  "suspend_text sg = ''Suspend(reason='' @ py_repr (PStr (sg_reason sg)) @ '', tool_use_id='' @ py_repr (PStr (sg_use_id sg)) @
     '', ref='' @ py_repr (opt_str_val (sg_ref sg)) @ '')''"

primrec attempts :: "(rat \<Rightarrow> 'w \<Rightarrow> attempt \<times> 'w) \<Rightarrow> string \<Rightarrow> rat \<Rightarrow> nat \<Rightarrow> string \<Rightarrow> 'w \<Rightarrow> (suspend + pyval) \<times> 'w" where
  "attempts call name t 0 err w = (Inr (error_result err), w)"
| "attempts call name t (Suc n) err w =
     (case call t w of
        (Returned v, w') \<Rightarrow> (Inr v, w')
      | (TimedOut, w') \<Rightarrow> attempts call name t n (''Tool '' @ quoted name @ '' timed out after '' @ str_float t @ ''s'') w'
      | (RaisedError e, w') \<Rightarrow> attempts call name t n e w'
      | (RaisedSuspend sg, w') \<Rightarrow> (Inl sg, w'))"

definition loop_execute :: "'w lenv \<Rightarrow> details \<Rightarrow> string \<Rightarrow> details \<Rightarrow> rat \<Rightarrow> 'w \<Rightarrow> (suspend + pyval) \<times> 'w" where
  "loop_execute env ctx name inp t w =
     (case le_executor env of
        None \<Rightarrow> (Inr (error_result (''No tool executor available for tool '' @ quoted name)), w)
      | Some ex \<Rightarrow>
        (case le_sdk env name inp w of
           (d, w') \<Rightarrow> (case sdk_refusal d of
              Some v \<Rightarrow> (Inr v, w')
            | None \<Rightarrow> attempts (ex name inp ctx) name t (tool_max_retries + 1) ''unknown'' w')))"

subsection \<open>One turn\<close>

record loop_state =
  ls_messages :: "pyval list"
  ls_tokens :: int
  ls_in :: int
  ls_out :: int
  ls_model :: "string option"
  ls_calls :: "(string \<times> details) list"
  ls_guided :: "(string, int) dict"

text \<open>All calls of a turn are checked before the first of them runs; a call that may run comes with its timeout.\<close>

primrec guide_calls :: "'w lenv \<Rightarrow> details \<Rightarrow> details list \<Rightarrow> llm_call list \<Rightarrow> (string, int) dict \<Rightarrow> 'w \<Rightarrow>
    (rat + pyval) list res \<times> (string, int) dict \<times> 'w" where
  "guide_calls env ctx defs [] counts w = (Inr [], counts, w)"
| "guide_calls env ctx defs (c # cs) counts w =
     (case check_guidance env ctx (lc_name c) (lc_input c) counts w of
        ((g, counts1), w1) \<Rightarrow>
          (case (case g of Some v \<Rightarrow> Inr (Inr v) | None \<Rightarrow> rbind (tool_timeout_for (lc_name c) defs) (\<lambda>t. Inr (Inl t))) of
             Inl e \<Rightarrow> (Inl e, counts1, w1)
           | Inr x \<Rightarrow> (case guide_calls env ctx defs cs counts1 w1 of
                 (xs, counts2, w2) \<Rightarrow> (rbind xs (\<lambda>ys. Inr (x # ys)), counts2, w2))))"

primrec run_guided :: "'w lenv \<Rightarrow> details \<Rightarrow> (llm_call \<times> (rat + pyval)) list \<Rightarrow> 'w \<Rightarrow> string list \<times> 'w" where
  "run_guided env ctx [] w = ([], w)"
| "run_guided env ctx (p # ps) w =
     (case p of (c, x) \<Rightarrow>
        (case (case x of Inr v \<Rightarrow> (content_str v, w)
               | Inl t \<Rightarrow> (case loop_execute env ctx (lc_name c) (lc_input c) t w of
                    (Inr v, w1) \<Rightarrow> (content_str v, w1) | (Inl sg, w1) \<Rightarrow> (suspend_text sg, w1))) of
           (s, w2) \<Rightarrow> apfst ((#) s) (run_guided env ctx ps w2)))"

definition loop_results :: "kind \<Rightarrow> (llm_call \<times> string) list \<Rightarrow> pyval list" where
  "loop_results k rs =
     (case k of
        Vertex \<Rightarrow> [PDict [(''role'', PStr ''user''), (''parts'', PList (map (\<lambda>(c, s).
           PDict [(''functionResponse'', PDict [(''name'', PStr (lc_name c)), (''response'', PDict [(''content'', PStr s)])])]) rs))]]
      | OpenAI \<Rightarrow> map (\<lambda>(c, s). PDict [(''role'', PStr ''tool''), (''tool_call_id'', PStr (lc_id c)), (''content'', PStr s)]) rs
      | Anthropic \<Rightarrow> [message ''user'' (PList (map (\<lambda>(c, s). PDict [(''type'', PStr ''tool_result''),
           (''tool_use_id'', PStr (lc_id c)), (''content'', PStr s)]) rs))])"

definition record_tokens :: "'w lenv \<Rightarrow> pyval \<Rightarrow> routed_response \<Rightarrow> 'w \<Rightarrow> 'w" where
  "record_tokens env tenant r w =
     (case le_enforcer env of
        None \<Rightarrow> w
      | Some en \<Rightarrow>
        if truthy tenant \<and> 0 < lr_tokens r
        then (let w1 = en_record en (py_str tenant) ''tokens'' (of_int (lr_tokens r)) w;
                  cost = le_price env (lr_model r) (tokens_in (plain_response r)) (lr_output_tokens r)
              in if 0 < cost then en_record en (py_str tenant) ''cost_usd'' cost w1 else w1)
        else w)"

definition count_response :: "routed_response \<Rightarrow> loop_state \<Rightarrow> loop_state" where
  "count_response r st = st\<lparr>ls_tokens := ls_tokens st + lr_tokens r, ls_in := ls_in st + tokens_in (plain_response r),
     ls_out := ls_out st + lr_output_tokens r, ls_model := (if lr_model r = [] then ls_model st else Some (lr_model r))\<rparr>"

definition run_turn_calls :: "'w lenv \<Rightarrow> llm_config \<Rightarrow> details \<Rightarrow> details list \<Rightarrow> routed_response \<Rightarrow> loop_state \<Rightarrow> 'w \<Rightarrow> loop_state res \<times> 'w" where
  "run_turn_calls env cfg ctx defs r st w =
     (let k = provider_kind (cf_provider cfg) (cf_model cfg); calls = lr_calls r
      in case guide_calls env ctx defs calls (ls_guided st) w of
           (Inl e, counts, w1) \<Rightarrow> (Inl e, w1)
         | (Inr xs, counts, w1) \<Rightarrow>
           (case run_guided env ctx (zip calls xs) w1 of
              (rs, w2) \<Rightarrow>
                (Inr (st\<lparr>ls_messages := ls_messages st @ assistant_turn k (plain_response r) # loop_results k (zip calls rs),
                   ls_calls := ls_calls st @ map (\<lambda>c. (lc_name c, lc_input c)) calls, ls_guided := counts\<rparr>), w2)))"

subsection \<open>The loop\<close>

text \<open>Without a single turn the name \<open>response\<close> is unbound after the loop.\<close>

datatype loop_end = LoopRaised py_exn | LlmFailed string | Ended string

definition has_error :: "routed_response \<Rightarrow> bool" where
  "has_error r = (case lr_error r of None \<Rightarrow> False | Some e \<Rightarrow> e \<noteq> [])"

primrec agent_turns :: "'w lenv \<Rightarrow> llm_config \<Rightarrow> details \<Rightarrow> details list \<Rightarrow> nat \<Rightarrow> string option \<Rightarrow> loop_state \<Rightarrow> 'w \<Rightarrow>
    (loop_end \<times> loop_state) \<times> 'w" where
  "agent_turns env cfg ctx defs 0 last_text st w =
     ((case last_text of None \<Rightarrow> LoopRaised (Raised ''UnboundLocalError'') | Some s \<Rightarrow> Ended s, st), w)"
| "agent_turns env cfg ctx defs (Suc n) last_text st w =
     (case le_chat env cfg (ls_messages st) (if defs = [] then None else Some defs) w of
        (Inl e, w1) \<Rightarrow> ((LoopRaised e, st), w1)
      | (Inr r, w1) \<Rightarrow>
        if has_error r then ((LlmFailed (case lr_error r of None \<Rightarrow> [] | Some e \<Rightarrow> e), st), w1)
        else (let st1 = count_response r st; w2 = record_tokens env (arg ctx ''tenant_id'') r w1
              in if lr_calls r = [] then ((Ended (lr_text r), st1), w2)
                 else (case run_turn_calls env cfg ctx defs r st1 w2 of
                         (Inl e, w3) \<Rightarrow> ((LoopRaised e, st1), w3)
                       | (Inr st2, w3) \<Rightarrow> agent_turns env cfg ctx defs n (Some (lr_text r)) st2 w3)))"

text \<open>Whether the tenant is over a limit before the first turn; what raises is passed over.\<close>

definition over_tokens :: "'w usage_enforcer \<Rightarrow> details \<Rightarrow> 'w \<Rightarrow> string option \<times> 'w" where
  "over_tokens en ctx w =
     (case en_tokens en (py_str (arg ctx ''tenant_id'')) (dget_default ctx ''plan'' (PStr ''starter'')) w of
        (Some (False, used, quota), w1) \<Rightarrow> (Some (''Daily token limit exceeded: '' @ str_int used @ ''/'' @ str_int quota), w1)
      | (_, w1) \<Rightarrow> (None, w1))"

definition over_cost :: "'w usage_enforcer \<Rightarrow> details \<Rightarrow> 'w \<Rightarrow> string option \<times> 'w" where
  "over_cost en ctx w =
     (let limit = arg ctx ''monthly_limit_usd''
      in case num_of limit of
           None \<Rightarrow> (None, w)
         | Some m \<Rightarrow>
           if m = 0 then (None, w)
           else (case en_monthly en (py_str (arg ctx ''tenant_id'')) m w of
                   (Some (False, cost), w1) \<Rightarrow> (Some (''Monthly cost limit exceeded: $'' @ fmt2 cost @ ''/$'' @ fmt2 m), w1)
                 | (_, w1) \<Rightarrow> (None, w1)))"

definition over_budget :: "'w lenv \<Rightarrow> details \<Rightarrow> 'w \<Rightarrow> string option \<times> 'w" where
  "over_budget env ctx w =
     (case le_enforcer env of
        None \<Rightarrow> (None, w)
      | Some en \<Rightarrow>
        if \<not> truthy (arg ctx ''tenant_id'') then (None, w)
        else (case over_tokens en ctx w of (Some m, w1) \<Rightarrow> (Some m, w1) | (None, w1) \<Rightarrow> over_cost en ctx w1))"

definition final_usage :: "'w lenv \<Rightarrow> details \<Rightarrow> loop_state \<Rightarrow> 'w \<Rightarrow> 'w" where
  "final_usage env ctx st w =
     (case le_enforcer env of
        None \<Rightarrow> w
      | Some en \<Rightarrow>
        (let tenant = arg ctx ''tenant_id''
         in if \<not> truthy tenant then w
            else (let w1 = en_record en (py_str tenant) ''agent_invocations'' 1 w
                  in if ls_calls st = [] then w1 else en_record en (py_str tenant) ''tool_calls'' (of_nat (length (ls_calls st))) w1)))"

definition loop_status :: "string option \<Rightarrow> string \<Rightarrow> agent_status \<times> string" where
  "loop_status goal s =
     (if goal = None \<or> goal = Some [] then (SCompleted, s)
      else if goal_complete s then (SCompleted, strip (drop_markers s))
      else (SIdle, s))"

definition call_value :: "string \<times> details \<Rightarrow> pyval" where
  "call_value c = PDict [(''name'', PStr (fst c)), (''input'', PDict (snd c))]"

definition run_agentic_loop :: "'w lenv \<Rightarrow> llm_config \<Rightarrow> string \<Rightarrow> string \<Rightarrow> details list \<Rightarrow> details \<Rightarrow> nat \<Rightarrow> details \<Rightarrow> pyval list \<Rightarrow>
    string option \<Rightarrow> 'w \<Rightarrow> agent_result res \<times> 'w" where
  "run_agentic_loop env cfg system prompt defs ctx n ictx history goal w =
     (case over_budget env ctx w of
        (Some err, w1) \<Rightarrow> (Inr (failed_result err), w1)
      | (None, w1) \<Rightarrow>
        (case agent_turns env cfg ctx defs n None
               \<lparr>ls_messages = shape_initial system history prompt ictx goal, ls_tokens = 0, ls_in = 0, ls_out = 0, ls_model = None,
                 ls_calls = [], ls_guided = []\<rparr> w1 of
           ((LoopRaised e, st), w2) \<Rightarrow> (Inl e, w2)
         | ((LlmFailed err, st), w2) \<Rightarrow> (Inr ((failed_result err)\<lparr>rz_tokens := ls_tokens st\<rparr>), w2)
         | ((Ended s, st), w2) \<Rightarrow>
             (Inr ((failed_result [])\<lparr>rz_status := fst (loop_status goal s), rz_output := snd (loop_status goal s), rz_error := None,
                rz_tool_calls := map call_value (ls_calls st), rz_tokens := ls_tokens st, rz_input_tokens := ls_in st,
                rz_output_tokens := ls_out st, rz_model := ls_model st\<rparr>), final_usage env ctx st w2)))"

subsection \<open>The transcript\<close>

lemma plain_fields [simp]: "lr_calls (plain_response r) = lr_calls r" "lr_text (plain_response r) = lr_text r"
  by (simp_all add: plain_response_def)

lemma guide_calls_length: "guide_calls env ctx defs cs counts w = (Inr xs, counts', w') \<Longrightarrow> length xs = length cs"
proof (induction cs arbitrary: counts w xs)
  case (Cons c cs)
  obtain g c1 w1 where g: "check_guidance env ctx (lc_name c) (lc_input c) counts w = ((g, c1), w1)" by (metis surj_pair)
  obtain ys c2 w2 where ys: "guide_calls env ctx defs cs c1 w1 = (ys, c2, w2)" by (metis surj_pair)
  from Cons.prems obtain zs x where "ys = Inr zs" "xs = x # zs"
    by (cases ys) (auto simp: g ys rbind_def split: sum.splits)
  with Cons.IH [of c1 w1 zs] ys Cons.prems show ?case by (auto simp: g rbind_def split: sum.splits)
qed simp

lemma run_guided_length: "length (fst (run_guided env ctx ps w)) = length ps"
  by (induction ps arbitrary: w) (simp_all split: prod.split)

lemma zip_first: "length xs = length cs \<Longrightarrow> map (\<lambda>(c, x). f c) (zip cs xs) = map f cs"
  by (induction cs xs rule: list_induct2') auto

lemma loop_results_keys:
  assumes "length rs = length cs"
  shows "result_keys k (loop_results k (zip cs rs)) = map (\<lambda>c. PStr (if k = Vertex then lc_name c else lc_id c)) cs"
proof (cases k)
  case Anthropic
  then show ?thesis
    using zip_first [OF assms, of "\<lambda>c. PStr (lc_id c)"] by (simp add: result_keys_def loop_results_def message_def case_prod_beta' o_def pget_def)
next
  case OpenAI
  then show ?thesis
    using zip_first [OF assms, of "\<lambda>c. PStr (lc_id c)"] by (simp add: result_keys_def loop_results_def case_prod_beta' o_def)
next
  case Vertex
  then show ?thesis
    using zip_first [OF assms, of "\<lambda>c. PStr (lc_name c)"] by (simp add: result_keys_def loop_results_def case_prod_beta' o_def pget_def)
qed

text \<open>Messages that grow by whole rounds: an assistant turn with calls, and the results that answer exactly these calls.\<close>

inductive rounds :: "kind \<Rightarrow> pyval list \<Rightarrow> nat \<Rightarrow> pyval list \<Rightarrow> bool" for k start where
  at_start: "rounds k start 0 start"
| round: "rounds k start n ms \<Longrightarrow> call_keys k turn \<noteq> [] \<Longrightarrow> result_keys k results = call_keys k turn \<Longrightarrow>
    rounds k start (Suc n) (ms @ turn # results)"

lemma turn_is_round:
  assumes "run_turn_calls env cfg ctx defs r st w = (Inr st', w')" and "lr_calls r \<noteq> []"
    and "rounds (provider_kind (cf_provider cfg) (cf_model cfg)) start n (ls_messages st)"
  shows "rounds (provider_kind (cf_provider cfg) (cf_model cfg)) start (Suc n) (ls_messages st')"
proof -
  let ?k = "provider_kind (cf_provider cfg) (cf_model cfg)"
  from assms(1) obtain xs counts w1 rs w2 where g: "guide_calls env ctx defs (lr_calls r) (ls_guided st) w = (Inr xs, counts, w1)"
    "run_guided env ctx (zip (lr_calls r) xs) w1 = (rs, w2)"
    "ls_messages st' = ls_messages st @ assistant_turn ?k (plain_response r) # loop_results ?k (zip (lr_calls r) rs)"
    by (auto simp: run_turn_calls_def Let_def split: prod.splits sum.splits)
  have "length rs = length (lr_calls r)"
    using run_guided_length [of env ctx "zip (lr_calls r) xs" w1] guide_calls_length [OF g(1)] g(2) by simp
  then show ?thesis
    unfolding g(3) using assms(2,3) by (intro rounds.round) (simp_all add: loop_results_keys call_keys_turn)
qed

lemma turns_are_rounds:
  "rounds (provider_kind (cf_provider cfg) (cf_model cfg)) start m (ls_messages st) \<Longrightarrow>
   \<exists>j \<le> n. rounds (provider_kind (cf_provider cfg) (cf_model cfg)) start (m + j)
     (ls_messages (snd (fst (agent_turns env cfg ctx defs n last_text st w))))"
proof (induction n arbitrary: m last_text st w)
  case 0
  then show ?case by auto
next
  case (Suc n)
  have counted: "ls_messages (count_response r st) = ls_messages st" for r by (simp add: count_response_def)
  show ?case
  proof (cases "le_chat env cfg (ls_messages st) (if defs = [] then None else Some defs) w")
    case (Pair x w1)
    show ?thesis
    proof (cases "\<exists>r. x = Inr r \<and> \<not> has_error r \<and> lr_calls r \<noteq> []")
      case False
      with Pair Suc.prems show ?thesis by (intro exI [of _ 0]) (auto simp: Let_def counted split: sum.split)
    next
      case True
      then obtain r where r: "x = Inr r" "\<not> has_error r" "lr_calls r \<noteq> []" by blast
      obtain y w3 where y: "run_turn_calls env cfg ctx defs r (count_response r st) (record_tokens env (arg ctx ''tenant_id'') r w1) = (y, w3)" by fastforce
      show ?thesis
      proof (cases y)
        case (Inl e)
        with Pair r y Suc.prems show ?thesis by (intro exI [of _ 0]) (simp add: Let_def counted)
      next
        case (Inr st2)
        have "rounds (provider_kind (cf_provider cfg) (cf_model cfg)) start (Suc m) (ls_messages st2)"
          using turn_is_round [OF y [unfolded Inr] r(3)] Suc.prems by (simp add: counted)
        from Suc.IH [OF this] obtain j where "j \<le> n"
          "rounds (provider_kind (cf_provider cfg) (cf_model cfg)) start (Suc m + j) (ls_messages (snd (fst (agent_turns env cfg ctx defs n (Some (lr_text r)) st2 w3))))"
          by blast
        with Pair r y Inr show ?thesis by (intro exI [of _ "Suc j"]) (simp add: Let_def)
      qed
    qed
  qed
qed

text \<open>
  Whatever the model, the tools and the callbacks do, the messages of the loop are the opening messages followed by whole
  rounds, at most one for each turn allowed: every turn of the assistant with calls is followed by results that answer exactly
  its calls, in order, in the provider's dialect. The loop ends with a text only if a turn was allowed.
\<close>

theorem transcript_pairs_calls_and_results:
  "\<exists>j \<le> n. rounds (provider_kind (cf_provider cfg) (cf_model cfg)) (ls_messages st) j
     (ls_messages (snd (fst (agent_turns env cfg ctx defs n last_text st w))))"
  using turns_are_rounds [of cfg "ls_messages st" 0 st n env ctx defs last_text w] by (simp add: rounds.at_start)

subsection \<open>Guidance is bounded\<close>

text \<open>The verdicts on a sequence of calls with the callbacks' answers, as the loop threads the counts through its turns.\<close>

fun verdicts :: "(string \<times> cb_result) list \<Rightarrow> (string, int) dict \<Rightarrow> pyval option list" where
  "verdicts [] counts = []"
| "verdicts ((name, r) # xs) counts = (case guidance_verdict name r counts of (v, counts') \<Rightarrow> v # verdicts xs counts')"

definition is_guidance :: "pyval option \<Rightarrow> bool" where
  "is_guidance v = (case v of Some (PDict d) \<Rightarrow> map_of d ''guidance'' = Some (PBool True) | _ \<Rightarrow> False)"

lemma guided_result_kind: "is_guidance (Some (guided_result name n reason)) \<longleftrightarrow> n < 3"
  by (simp add: guided_result_def is_guidance_def max_guidance_retries_def)

lemma verdict_count:
  "dget_default (snd (guidance_verdict name r counts)) k 0 = dget_default counts k (0::int) + (if name = k \<and> cr_decision r = Guide then 1 else 0)"
  by (simp add: guidance_verdict_def Let_def dget_default_def split: option.split)

lemma verdict_guides: "is_guidance (fst (guidance_verdict name r counts)) \<longleftrightarrow> cr_decision r = Guide \<and> dget_default counts name 0 < (2::int)"
  by (auto simp: guidance_verdict_def Let_def guided_result_kind) (simp_all add: is_guidance_def)

lemma guidance_left:
  "0 \<le> dget_default counts k (0::int) \<Longrightarrow>
   int (length (filter (\<lambda>(x, v). fst x = k \<and> is_guidance v) (zip xs (verdicts xs counts)))) \<le> max 0 (2 - dget_default counts k 0)"
proof (induction xs arbitrary: counts)
  case (Cons x xs)
  obtain name r where x: "x = (name, r)" by fastforce
  obtain v c' where v: "guidance_verdict name r counts = (v, c')" by fastforce
  have c': "dget_default c' k 0 = dget_default counts k 0 + (if name = k \<and> cr_decision r = Guide then 1 else 0)"
    using verdict_count [of name r counts k] by (simp add: v)
  have g: "is_guidance v \<longleftrightarrow> cr_decision r = Guide \<and> dget_default counts name 0 < 2" using verdict_guides [of name r counts] by (simp add: v)
  from Cons.IH [of c'] Cons.prems c' show ?case by (auto simp: x v g split: if_splits)
qed simp

text \<open>
  A tool is guided at most twice in a run: of all answers of the callbacks to calls of one tool at most two turn into guidance, every later
  \<open>GUIDE\<close> is a denial, and a denial always is. But only these two stop a call: a callback that modifies the arguments or defers
  the call to a human changes nothing, the call runs as it is.
\<close>

theorem guidance_is_bounded:
  "length (filter (\<lambda>(x, v). fst x = name \<and> is_guidance v) (zip xs (verdicts xs []))) \<le> 2 \<and>
   (fst (guidance_verdict name r counts) \<noteq> None \<longleftrightarrow> cr_decision r \<in> {Guide, DenyCall}) \<and>
   (cr_decision r = Guide \<and> 2 \<le> dget_default counts name 0 \<longrightarrow> \<not> is_guidance (fst (guidance_verdict name r counts)))"
  using guidance_left [of "[]" name xs] verdict_guides [of name r counts] by (auto simp: guidance_verdict_def Let_def)

subsection \<open>The cap on turns\<close>

text \<open>
  A run that never comes to an answer: a model that goes on calling tools is stopped by the cap on turns, and the run is
  reported as completed, with the text of its last turn.
\<close>

lemma turn_cap_reports_success:
  assumes "\<And>ms ts w. \<exists>r w'. le_chat env cfg ms ts w = (Inr r, w') \<and> \<not> has_error r \<and> lr_calls r \<noteq> [] \<and> lr_text r = said" and "0 < n"
  shows "fst (fst (agent_turns env cfg ctx [] n last_text st w)) = Ended said"
proof -
  have timeout: "guide_calls env ctx [] cs counts w \<noteq> (Inl e, c', w')" for cs counts w e c' w'
    by (induction cs arbitrary: counts w c' w') (auto simp: tool_timeout_for_def rbind_def split: prod.splits option.splits sum.splits)
  have "fst (fst (agent_turns env cfg ctx [] n last_text st w)) = Ended said" if "last_text = Some said \<or> 0 < n" for last_text
    using that
  proof (induction n arbitrary: last_text st w)
    case 0
    then show ?case by simp
  next
    case (Suc n)
    obtain r w1 where r: "le_chat env cfg (ls_messages st) None w = (Inr r, w1)" "\<not> has_error r" "lr_calls r \<noteq> []" "lr_text r = said"
      using assms(1) by blast
    obtain y w3 where y: "run_turn_calls env cfg ctx [] r (count_response r st) (record_tokens env (arg ctx ''tenant_id'') r w1) = (y, w3)" by fastforce
    then obtain st2 where "y = Inr st2" using timeout by (auto simp: run_turn_calls_def Let_def split: prod.splits sum.splits)
    with r y Suc.IH show ?case by (simp add: Let_def)
  qed
  with assms(2) show ?thesis by blast
qed

end
