(* ===== verification/ForgeStack.thy ===== *)
theory ForgeStack
  imports AgenticLoop WorkerFacts ExecutorRuns
begin

text \<open>
  The platform's own stack (\<open>src/stacks/forgeos/adapter.py\<close>) and the service that queues its runs
  (\<open>src/src/runtime/service.py\<close>).  The adapter and the service share one engine and one store, as the bootstrap wires
  them.  The call of an agent's pod over HTTP is a parameter.  The routing keys that the adapter copies from an agent's metadata into
  its model configuration are left out, with the keys of the configuration that the development does not have.
\<close>

subsection \<open>State and environment\<close>

record 'v forge =
  fg_agents :: "(string, agent_def) dict"
  fg_loops :: "string list"
  fg_sys :: "'v system"

text \<open>What a pod answers: whether it completed, its output and its error; or the text of the exception.\<close>

record 'v forge_env =
  fv_worker :: "'v wenv"
  fv_loop :: "'v lenv"
  fv_loop_turns :: nat
  fv_router :: bool
  fv_v2 :: bool
  fv_kernel :: bool
  fv_service :: bool
  fv_tools :: "tool_source option"
  fv_client :: "(string \<Rightarrow> client_tools) option"
  fv_pod :: "string \<Rightarrow> string \<Rightarrow> 'v \<Rightarrow> (string + bool \<times> string \<times> string) \<times> 'v"

definition on_world :: "('v \<Rightarrow> 'a \<times> 'v) \<Rightarrow> 'v forge \<Rightarrow> 'a \<times> 'v forge" where
  "on_world f s =
     (case f (rt_world (sy_rt (fg_sys s))) of
        (x, w) \<Rightarrow> (x, s\<lparr>fg_sys := (fg_sys s)\<lparr>sy_rt := (sy_rt (fg_sys s))\<lparr>rt_world := w\<rparr>\<rparr>\<rparr>))"

subsection \<open>Requests\<close>

definition system_prompt :: "agent_def \<Rightarrow> string" where
  "system_prompt a = (if a_prompt a \<noteq> [] then a_prompt a else ''You are '' @ a_name a @ ''. '' @ a_description a)"

definition agent_goal :: "agent_def \<Rightarrow> string option" where
  "agent_goal a = (case a_goal a of None \<Rightarrow> None | Some g \<Rightarrow> if g = [] then None else Some g)"

definition tools_for :: "'v forge_env \<Rightarrow> agent_def \<Rightarrow> string \<Rightarrow> details \<Rightarrow> details list" where
  "tools_for env a k ctx =
     append_client_mcp_tools (build_tool_definitions (fv_tools env) (a_tools a)) (fv_client env)
       (arg (build_agent_context a k None ctx) ''client_id'') (a_tools a)"

definition base_request :: "agent_def \<Rightarrow> string \<Rightarrow> details list \<Rightarrow> details \<Rightarrow> run_request" where
  "base_request a prompt tools ctx = \<lparr>rq_pid = a_id a, rq_system = system_prompt a, rq_prompt = prompt,
     rq_provider = cf_provider (a_llm a), rq_model = cf_model (a_llm a), rq_endpoint = cf_endpoint (a_llm a), rq_key_ref = cf_key_ref (a_llm a),
     rq_tools = (if tools = [] then None else Some (map PDict tools)), rq_session = None, rq_history = [], rq_context = ctx,
     rq_goal = agent_goal a, rq_tenant = py_str (dget_default ctx ''tenant_id'' (PStr ''default'')), rq_namespace = a_namespace a,
     rq_run = None, rq_source = py_str (dget_default ctx ''_trigger'' (PStr ''manual'')), rq_generation = 1, rq_max_turns = None,
     rq_status = CRunning\<rparr>"

definition inline_request :: "agent_def \<Rightarrow> string \<Rightarrow> details list \<Rightarrow> details \<Rightarrow> pyval list option \<Rightarrow> run_request" where
  "inline_request a prompt tools ctx hist = (base_request a prompt tools ctx)\<lparr>rq_history := or_nil hist\<rparr>"

text \<open>The earlier turns of a session: the text of the session's latest finished run.\<close>

definition session_history :: "details \<Rightarrow> cont_store \<Rightarrow> pyval list" where
  "session_history ctx s =
     (let sid = arg ctx ''session_id''
      in if \<not> truthy sid then []
         else (case cs_load_latest_for_session s (py_str sid) (Some CDone) of None \<Rightarrow> [] | Some c \<Rightarrow> extract_chat_history (c_messages c)))"

definition queued_request :: "agent_def \<Rightarrow> string \<Rightarrow> details list \<Rightarrow> details \<Rightarrow> cont_store \<Rightarrow> run_request" where
  "queued_request a prompt tools ctx s = (base_request a prompt tools ctx)\<lparr>
     rq_session := (case arg ctx ''session_id'' of PNone \<Rightarrow> None | v \<Rightarrow> Some (py_str v)), rq_history := session_history ctx s,
     rq_tenant := py_str (dget_default ctx ''tenant_id'' (meta a ''tenant_id'' (PStr ''default'')))\<rparr>"

subsection \<open>The runtime service\<close>

text \<open>The context the worker gives the tools of a continuation; the tool executor is that of the environment.\<close>

definition context_for :: "registry \<Rightarrow> cont_store \<Rightarrow> string \<Rightarrow> details" where
  "context_for r conts i =
     (case cs_load conts i of
        None \<Rightarrow> [(''agent_id'', PStr []), (''namespace'', PStr ''default'')]
      | Some c \<Rightarrow>
        (case reg_get r (c_pid c) of
           None \<Rightarrow> [(''agent_id'', PStr (c_pid c)), (''namespace'', PStr (c_namespace c))]
         | Some a \<Rightarrow> build_agent_context a (a_id a) None [(''user_id'', PStr (c_user c))]))"

definition enqueue_invoke :: "'v forge_env \<Rightarrow> agent_def \<Rightarrow> string \<Rightarrow> details \<Rightarrow> 'v system \<Rightarrow> string \<times> 'v system" where
  "enqueue_invoke env a prompt ctx s =
     (let tools = tools_for env a (a_id a) ctx
      in case create_continuation (wv_engine (fv_worker env)) (queued_request a prompt tools ctx (rt_conts (sy_rt s))) (sy_rt s) of
           (c, st) \<Rightarrow> (c_id c, enqueue_runnable (fv_worker env) (c_id c) (Some (priority_for (c_source c))) None None (s\<lparr>sy_rt := st\<rparr>)))"

subsection \<open>The adapter\<close>

definition forge_create :: "agent_def \<Rightarrow> 'v forge \<Rightarrow> 'v forge" where
  "forge_create a s = s\<lparr>fg_agents := dset (a_id a) a (fg_agents s)\<rparr>"

definition forge_start_loop :: "string \<Rightarrow> 'v forge \<Rightarrow> 'v forge" where
  "forge_start_loop k s = (if map_of (fg_agents s) k = None then s else s\<lparr>fg_loops := List.insert k (fg_loops s)\<rparr>)"

definition forge_stop :: "string \<Rightarrow> 'v forge \<Rightarrow> 'v forge" where
  "forge_stop k s = s\<lparr>fg_loops := removeAll k (fg_loops s)\<rparr>"

definition forge_status :: "string \<Rightarrow> 'v forge \<Rightarrow> agent_status" where
  "forge_status k s = (if k \<in> set (fg_loops s) then SRunning else if map_of (fg_agents s) k \<noteq> None then SIdle else SStopped)"

definition event_value :: "tool_event \<Rightarrow> pyval" where
  "event_value e = PDict ((case te_use_id e of None \<Rightarrow> [] | Some i \<Rightarrow> [(''tool_use_id'', PStr i)]) @
     [(''name'', PStr (te_name e)), (''input'', PDict (te_input e)), (''result'', te_result e), (''is_error'', PBool (te_is_error e))])"

definition pending_value :: "pending_info \<Rightarrow> pyval" where
  "pending_value p = PDict [(''tool_use_id'', PStr (pi_use_id p)), (''name'', PStr (pi_name p)), (''arguments'', PDict (pi_args p)),
     (''suspend_reason'', opt_str_val (pi_reason p)), (''external_ref'', opt_str_val (pi_ref p))]"

definition forge_result :: "run_outcome \<Rightarrow> agent_result" where
  "forge_result out =
     (let r = failed_result []; evs = map event_value (ro_events out); cid = (''continuation_id'', PStr (ro_cont out))
      in if ro_status out = Suspended
         then r\<lparr>rz_status := SPaused, rz_error := None, rz_tokens := ro_tokens out, rz_tool_calls := evs,
                rz_metadata := [cid, (''suspend_reason'', opt_str_val (ro_suspend_reason out)),
                  (''pending'', PList (map pending_value (ro_pending out))), (''tool_events'', PList evs)]\<rparr>
         else if ro_status out = RunFailed then r\<lparr>rz_error := ro_error out, rz_metadata := [cid]\<rparr>
         else r\<lparr>rz_status := SCompleted, rz_error := None, rz_output := ro_output out, rz_tokens := ro_tokens out,
                rz_tool_calls := (if evs \<noteq> [] then evs else replicate (nat (ro_tool_calls out)) (PDict [])),
                rz_input_tokens := ro_input_tokens out, rz_output_tokens := ro_output_tokens out, rz_model := ro_model out,
                rz_metadata := [cid, (''tool_events'', PList evs)]\<rparr>)"

definition queued_result :: "string \<Rightarrow> agent_result" where
  "queued_result i = (failed_result [])\<lparr>rz_status := SRunning, rz_error := None,
     rz_metadata := [(''continuation_id'', PStr i), (''run_id'', PStr i), (''queued'', PBool True)]\<rparr>"

definition invoke_via_engine :: "'v forge_env \<Rightarrow> agent_def \<Rightarrow> string \<Rightarrow> string \<Rightarrow> details list \<Rightarrow> details \<Rightarrow> pyval list option \<Rightarrow> 'v forge \<Rightarrow>
    (escape + agent_result) \<times> 'v forge" where
  "invoke_via_engine env a k prompt tools ctx hist s =
     (if fv_service env \<and> \<not> truthy (arg ctx ''_inline'')
      then (case enqueue_invoke env a prompt ctx (fg_sys s) of (i, sys) \<Rightarrow> (Inr (queued_result i), s\<lparr>fg_sys := sys\<rparr>))
      else (case run (wv_engine (fv_worker env))
                   (build_agent_context a k (case arg ctx ''invocation_id'' of PNone \<Rightarrow> None | v \<Rightarrow> Some (py_str v)) ctx)
                   (inline_request a prompt tools ctx hist) (sy_rt (fg_sys s)) of
              (x, st) \<Rightarrow> (map_sum id forge_result x, s\<lparr>fg_sys := (fg_sys s)\<lparr>sy_rt := st\<rparr>\<rparr>)))"

definition pod_result :: "string + bool \<times> string \<times> string \<Rightarrow> agent_result" where
  "pod_result x =
     (case x of
        Inl e \<Rightarrow> failed_result (''pod forward failed: '' @ e)
      | Inr (ok, out, err) \<Rightarrow> (failed_result err)\<lparr>rz_status := (if ok then SCompleted else SFailed), rz_output := out,
          rz_error := (if ok then None else Some err)\<rparr>)"

definition simulated_result :: "agent_def \<Rightarrow> string \<Rightarrow> agent_result" where
  "simulated_result a prompt = (failed_result ''No LLM provider available. Set ANTHROPIC_API_KEY or OPENAI_API_KEY.'')\<lparr>
     rz_status := SCompleted, rz_output := ''[SIMULATED - No LLM API key configured] Agent '' @ quoted (a_name a) @ '' received: '' @
       take 100 prompt @ ''. Configure ANTHROPIC_API_KEY or OPENAI_API_KEY in .env for real LLM execution.''\<rparr>"

definition forge_invoke :: "'v forge_env \<Rightarrow> string \<Rightarrow> string \<Rightarrow> details \<Rightarrow> pyval list option \<Rightarrow> 'v forge \<Rightarrow> (escape + agent_result) \<times> 'v forge" where
  "forge_invoke env k prompt ctx hist s =
     (case map_of (fg_agents s) k of
        None \<Rightarrow> (Inr (failed_result ''Agent not found''), s)
      | Some a \<Rightarrow>
        (let url = meta a ''pod_service_url'' PNone; tools = tools_for env a k ctx
         in if truthy url then apfst (\<lambda>x. Inr (pod_result x)) (on_world (fv_pod env (py_str url) prompt) s)
            else if \<not> fv_router env then (Inr (simulated_result a prompt), s)
            else if fv_v2 env \<and> fv_kernel env then invoke_via_engine env a k prompt tools ctx hist s
            else apfst (map_sum (\<lambda>e. EscError (exn_text e)) id)
                   (on_world (run_agentic_loop (fv_loop env) (a_llm a) (system_prompt a) prompt tools
                      (build_agent_context a k (case arg ctx ''invocation_id'' of PNone \<Rightarrow> None | v \<Rightarrow> Some (py_str v)) ctx)
                      (fv_loop_turns env) ctx (or_nil hist) (a_goal a)) s)))"

text \<open>As a stack of the executor: the process table is the executor's.\<close>

definition on_forge :: "('v forge \<Rightarrow> 'a \<times> 'v forge) \<Rightarrow> 'v forge platform \<Rightarrow> 'a \<times> 'v forge platform" where
  "on_forge f s =
     (let g = pf_world s; sys = fg_sys g; rt = sy_rt sys
      in case f (g\<lparr>fg_sys := sys\<lparr>sy_rt := rt\<lparr>rt_table := Some (pf_table s)\<rparr>\<rparr>\<rparr>) of
           (x, g') \<Rightarrow> (x, s\<lparr>pf_table := (case rt_table (sy_rt (fg_sys g')) of None \<Rightarrow> pf_table s | Some t \<Rightarrow> t), pf_world := g'\<rparr>))"

definition escaped :: "escape \<Rightarrow> halt" where
  "escaped e = (case e of EscError m \<Rightarrow> Exc (Raised m) | EscSuspend sg \<Rightarrow> Cancelled)"

definition forge_adapter :: "'v forge_env \<Rightarrow> 'v forge adapter" where
  "forge_adapter env = \<lparr>ad_scaffold = (\<lambda>a s. (Inr (), s)),
     ad_create = (\<lambda>a. on_forge (\<lambda>g. (Inr (), forge_create a g))),
     ad_invoke = (\<lambda>k p c h. on_forge (\<lambda>g. apfst (map_sum escaped id) (forge_invoke env k p c h g))),
     ad_start_loop = (\<lambda>k. on_forge (\<lambda>g. (Inr (), forge_start_loop k g))),
     ad_stop = (\<lambda>k. on_forge (\<lambda>g. (Inr (), forge_stop k g))),
     ad_recover = (\<lambda>s. (Inr 0, s)), ad_tools = (\<lambda>s. map tool_name (build_tool_definitions (fv_tools env) []))\<rparr>"

subsection \<open>Goals\<close>

lemma forge_result_status: "rz_status (forge_result out) \<in> {SPaused, SFailed, SCompleted}"
  by (simp add: forge_result_def Let_def failed_result_def)

lemma engine_status:
  assumes "fst (invoke_via_engine env a k prompt tools ctx hist s) = Inr r" and "\<not> fv_service env"
  shows "rz_status r \<in> {SPaused, SFailed, SCompleted}"
  using assms forge_result_status by (auto simp: invoke_via_engine_def map_sum_def split: prod.splits sum.splits)

lemma forge_invoke_status:
  assumes "fst (forge_invoke env k prompt ctx hist s) = Inr r" and "fv_v2 env" "fv_kernel env" "\<not> fv_service env"
  shows "rz_status r \<in> {SPaused, SFailed, SCompleted}"
proof (cases "map_of (fg_agents s) k")
  case None
  with assms(1) show ?thesis by (auto simp: forge_invoke_def failed_result_def)
next
  case (Some a)
  show ?thesis
  proof (cases "truthy (meta a ''pod_service_url'' PNone)")
    case True
    with Some assms(1) show ?thesis
      by (auto simp: forge_invoke_def Let_def on_world_def pod_result_def failed_result_def split: prod.splits sum.splits if_splits)
  next
    case False
    then have "fst (forge_invoke env k prompt ctx hist s) =
        (if fv_router env then fst (invoke_via_engine env a k prompt (tools_for env a k ctx) ctx hist s) else Inr (simulated_result a prompt))"
      using Some assms(2,3) by (simp add: forge_invoke_def Let_def)
    with assms(1) show ?thesis using engine_status [OF _ assms(4)] by (auto simp: simulated_result_def split: if_splits)
  qed
qed

lemma invoke_result:
  assumes "fst (invoke env k prompt ctx sid s) = Inr r"
  shows "rz_status r = SFailed \<or> (\<exists>st ad c h t. map_of (xv_adapters env) st = Some ad \<and> fst (ad_invoke ad k prompt c h t) = Inr r)"
proof -
  have via: "\<exists>t. fst (ad_invoke ad k prompt c h t) = Inr r" if "invoke_adapter ad k a prompt c h t = (Inr r, t')" for ad a c h t t'
    using that unfolding invoke_adapter_def by (auto split: prod.splits sum.splits halt.splits if_splits) (metis fst_conv)+
  from assms show ?thesis
    by (auto simp: invoke_def Let_def failed_result_def split: option.splits prod.splits sum.splits halt.splits) (use via in blast)+
qed

text \<open>C33. 
  On the platform's own stack, with the engine that is the default, a goal counts as reached after the first answer. The engine reports a finished run
  as completed whether or not the agent claimed its goal, so a loop of an
  autonomous agent gets beyond an iteration only if that iteration was parked for a human, or failed and the agent asks for restarts.
\<close>

theorem goal_counts_as_reached_after_one_answer:
  assumes "\<forall>st ad. map_of (xv_adapters env) st = Some ad \<longrightarrow> ad = forge_adapter fe" and "fv_v2 fe" "fv_kernel fe" "\<not> fv_service fe"
  shows "(\<forall>r. fst (invoke env k (iteration_prompt lo i) None None s) = Inr r \<and> rz_status r \<notin> {SPaused, SFailed} \<and>
        reg_get_status (pf_registry s) k \<noteq> SStopped \<longrightarrow> fst (iterations env k lo (Suc n) i crashes s) = Inr GoalReached) \<and>
    (boundary env k lo 1 i s = Some s' \<longrightarrow>
      (\<exists>r. fst (invoke env k (iteration_prompt lo i) None None s) = Inr r \<and> (rz_status r = SPaused \<or> rz_status r = SFailed \<and> lo_restart lo)))"
proof -
  have status: "rz_status r \<in> {SPaused, SFailed, SCompleted}" if r: "fst (invoke env k (iteration_prompt lo i) None None s) = Inr r" for r
    using invoke_result [OF r]
  proof
    assume "\<exists>st ad c h t. map_of (xv_adapters env) st = Some ad \<and> fst (ad_invoke ad k (iteration_prompt lo i) c h t) = Inr r"
    then obtain c h t where "fst (ad_invoke (forge_adapter fe) k (iteration_prompt lo i) c h t) = Inr r" using assms(1) by blast
    then obtain g where "fst (forge_invoke fe k (iteration_prompt lo i) c h g) = Inr r"
      by (auto simp: forge_adapter_def on_forge_def Let_def map_sum_def apfst_def map_prod_def split: prod.splits sum.splits) (metis fst_conv)
    then show ?thesis using assms(2-4) by (rule forge_invoke_status)
  qed simp
  obtain y s1 where y: "invoke env k (iteration_prompt lo i) None None s = (y, s1)" by fastforce
  show ?thesis
    using status by (cases y) (auto simp: y Let_def split: sum.splits prod.splits if_splits)
qed

definition demo_loop_env :: "demo_world lenv" where
  "demo_loop_env = \<lparr>le_chat = (\<lambda>cf ms ts w. (Inl ValueError, w)), le_executor = None, le_sdk = (\<lambda>n i w. (None, w)), le_callbacks = None,
     le_enforcer = None, le_price = (\<lambda>m i j. 0)\<rparr>"

definition demo_forge :: "demo_world forge_env" where
  "demo_forge = \<lparr>fv_worker = demo_wenv [], fv_loop = demo_loop_env, fv_loop_turns = 300, fv_router = True, fv_v2 = True, fv_kernel = True,
     fv_service = False, fv_tools = None, fv_client = None, fv_pod = (\<lambda>u p w. (Inl ''no pod'', w))\<rparr>"

definition demo_forge_executor :: "demo_world forge xenv" where
  "demo_forge_executor = \<lparr>xv_adapters = [(''demo'', forge_adapter demo_forge)], xv_root = [''agents''], xv_now = (\<lambda>s. 7),
     xv_run_started = (\<lambda>k t p n s. (None, s)), xv_run_finished = (\<lambda>n k r s. s), xv_inject = None, xv_pending = None,
     xv_price = (\<lambda>m i j. 0), xv_sleep = (\<lambda>d s. (Inr (), s)), xv_rmtree = (\<lambda>p s. s)\<rparr>"

definition demo_forge_platform :: "demo_world forge platform" where
  "demo_forge_platform = \<lparr>pf_table = empty_ptable (Some \<lparr>r_agents = [(''x'', demo_worker ''x'' ''helps'')], r_statuses = [(''x'', SRunning)]\<rparr>),
     pf_sched = empty_scheduler, pf_bus = empty_bus, pf_ckpts = [], pf_auto = [''x''], pf_invoking = [], pf_sessions = None,
     pf_world = \<lparr>fg_agents = [(''x'', demo_worker ''x'' ''helps'')], fg_loops = [],
       fg_sys = \<lparr>sy_rt = demo_rt [], sy_ledger = [], sy_queue = empty_queue\<rparr>\<rparr>\<rparr>"

lemma goal_counts_as_reached_after_one_answer_witness:
  "fst (iterations demo_forge_executor ''x'' \<lparr>lo_goal = ''do it'', lo_max = 50, lo_interval = 30, lo_restart = False, lo_max_crashes = 3\<rparr>
     50 0 0 demo_forge_platform) = Inr GoalReached"
proof -
  let ?lo = "\<lparr>lo_goal = ''do it'', lo_max = 50, lo_interval = 30, lo_restart = False, lo_max_crashes = 3\<rparr>"
  have a: "\<forall>st ad. map_of (xv_adapters demo_forge_executor) st = Some ad \<longrightarrow> ad = forge_adapter demo_forge"
    by (simp add: demo_forge_executor_def)
  have f: "fv_v2 demo_forge" "fv_kernel demo_forge" "\<not> fv_service demo_forge" by (simp_all add: demo_forge_def)
  have "map_sum (\<lambda>h. ()) rz_status (fst (invoke demo_forge_executor ''x'' (iteration_prompt ?lo 0) None None demo_forge_platform)) = Inr SCompleted"
    by code_simp
  then obtain r where "fst (invoke demo_forge_executor ''x'' (iteration_prompt ?lo 0) None None demo_forge_platform) = Inr r" "rz_status r = SCompleted"
    by (cases "fst (invoke demo_forge_executor ''x'' (iteration_prompt ?lo 0) None None demo_forge_platform)") auto
  moreover have "reg_get_status (pf_registry demo_forge_platform) ''x'' \<noteq> SStopped" by code_simp
  ultimately show ?thesis
    using goal_counts_as_reached_after_one_answer [OF a f, where k = "''x''" and lo = ?lo and i = 0 and s = demo_forge_platform and n = 49 and crashes = 0 and s' = demo_forge_platform]
    by (auto simp: eval_nat_numeral simp del: iterations.simps)
qed

subsection \<open>Injected credentials\<close>

text \<open>\<open>inject_for_invocation\<close> on the context of an invocation, once the token of the user is found.\<close>

definition inject_token :: "string \<Rightarrow> details \<Rightarrow> details" where
  "inject_token pat ctx =
     (if pat = [] then ctx
      else dset ''_credentials'' (PDict (dset ''gh_token'' (PStr pat) (case dget_default ctx ''_credentials'' (PDict []) of PDict d \<Rightarrow> d | _ \<Rightarrow> []))) ctx)"

lemma substring_inside: "is_substring p (a @ p @ b)"
proof (induction a)
  case Nil
  have "starts_with p (p @ b)" by (auto simp: starts_with_append)
  then show ?case by (cases "p @ b") (auto simp: starts_with_append)
qed simp

definition plain_text :: "string \<Rightarrow> bool" where
  "plain_text s = list_all (\<lambda>c. json_char c = [c]) s"

lemma plain_json: "plain_text s \<Longrightarrow> concat (map json_char s) = s"
  by (induction s) (auto simp: plain_text_def)

lemma joined_item: "x \<in> set xs \<Longrightarrow> \<exists>a b. joined sep xs = a @ x @ b"
proof -
  assume "x \<in> set xs"
  then obtain ys zs where xs: "xs = ys @ x # zs" by (meson split_list)
  show ?thesis
  proof (cases ys)
    case Nil
    then have "joined sep xs = [] @ x @ concat (map (\<lambda>y. sep @ y) zs)" by (simp add: xs joined_def)
    then show ?thesis by blast
  next
    case (Cons y ys')
    then have "joined sep xs = (y @ concat (map (\<lambda>y. sep @ y) ys') @ sep) @ x @ concat (map (\<lambda>y. sep @ y) zs)"
      by (simp add: xs joined_def)
    then show ?thesis by blast
  qed
qed

lemma json_items_map: "json_items d = map json_item d"
  by (induction d) auto

lemma json_entry:
  assumes "map_of d k = Some v"
  shows "\<exists>a b. json_dumps (PDict d) = a @ json_dumps v @ b"
proof -
  have "json_item (k, v) \<in> set (json_items d)" using map_of_SomeD [OF assms] unfolding json_items_map set_map by (rule imageI)
  then obtain a b where "joined '', '' (json_items d) = a @ json_item (k, v) @ b" using joined_item by blast
  then have "json_dumps (PDict d) = (''{'' @ a @ json_str k @ '': '') @ json_dumps v @ (b @ ''}'')" by simp
  then show ?thesis by blast
qed



subsection \<open>Queued runs\<close>

lemma context_fields:
  "arg (build_agent_context a k i ctx) ''tenant_id'' = or_else (arg ctx ''tenant_id'') (meta a ''tenant_id'' (PStr ''default''))"
  "arg (build_agent_context a k i ctx) ''user_id'' = context_user ctx"
  "arg (build_agent_context a k i ctx) ''client_id'' = client_route a ctx"
  by (simp_all add: build_agent_context_def arg_def)

lemma drive_fields_keys: "map_of (drive_fields a) ''_credentials'' = None" "map_of (drive_fields a) ''invocation_id'' = None"
  by (auto simp: drive_fields_def Let_def split: pyval.split)

lemma context_credentials:
  "arg (build_agent_context a k i ctx) ''_credentials'' = (case arg ctx ''_credentials'' of PDict d \<Rightarrow> PDict d | _ \<Rightarrow> PNone)"
  using drive_fields_keys [of a]
  by (cases "arg ctx ''_credentials''") (auto simp: build_agent_context_def arg_def dget_default_def map_add_def split: option.splits)

text \<open>
  A run that goes through the queue keeps the acting user of its invocation and nothing else: its tools run
  under the tenant of the agent's metadata, whatever tenant the run belongs to, without the credentials injected for
  the invocation, and through the connection the agent would have without a \<open>client_id\<close>. Run inline, they get all three from the
  invocation.
\<close>

theorem queued_runs_lose_their_context:
  assumes "cs_load conts i = Some c" and "reg_get r (c_pid c) = Some a"
  shows "arg (context_for r conts i) ''user_id'' = context_user [(''user_id'', PStr (c_user c))] \<and>
    arg (context_for r conts i) ''tenant_id'' = meta a ''tenant_id'' (PStr ''default'') \<and>
    arg (context_for r conts i) ''_credentials'' = PNone \<and>
    arg (context_for r conts i) ''client_id'' = client_route a [(''user_id'', PStr (c_user c))] \<and>
    (\<forall>ctx d. arg ctx ''_credentials'' = PDict d \<and> truthy (arg ctx ''tenant_id'') \<longrightarrow>
       arg (build_agent_context a (a_id a) None ctx) ''_credentials'' = PDict d \<and>
       arg (build_agent_context a (a_id a) None ctx) ''tenant_id'' = arg ctx ''tenant_id'')"
proof -
  have u: "arg [(''user_id'', PStr (c_user c))] ''tenant_id'' = PNone" "arg [(''user_id'', PStr (c_user c))] ''_credentials'' = PNone"
    by (simp_all add: arg_def)
  show ?thesis
    unfolding context_for_def assms option.case context_fields context_credentials u by (simp add: or_else_def)
qed

lemma queued_runs_lose_their_context_witness:
  "let c = (demo_cont ''c1'')\<lparr>c_pid := ''x'', c_tenant := ''acme''\<rparr>;
       r = \<lparr>r_agents = [(''x'', demo_worker ''x'' ''helps'')], r_statuses = []\<rparr>;
       conts = \<lparr>cs_by_id = [(''c1'', c)], cs_refs = []\<rparr>
   in arg (context_for r conts ''c1'') ''tenant_id'' = PStr ''default'' \<and> c_tenant c = ''acme''"
proof -
  let ?c = "(demo_cont ''c1'')\<lparr>c_pid := ''x'', c_tenant := ''acme''\<rparr>"
  have "cs_load \<lparr>cs_by_id = [(''c1'', ?c)], cs_refs = []\<rparr> ''c1'' = Some ?c" by (simp add: cs_load_def)
  from queued_runs_lose_their_context [OF this, of "\<lparr>r_agents = [(''x'', demo_worker ''x'' ''helps'')], r_statuses = []\<rparr>" "demo_worker ''x'' ''helps''"]
  show ?thesis by (simp add: Let_def reg_get_def meta_def demo_worker_def dget_default_def)
qed

end
