(* ===== verification/Dialects.thy ===== *)
theory Dialects
  imports AgenticLoop Approvals
begin

text \<open>
  The dialects of the model providers (\<open>src/src/platform/llm_router.py\<close>): how the history and the tools become the payload of
  a request, and how a reply is read, for Gemini (Vertex and AI Studio), OpenAI and Anthropic. A turn that is already in Gemini's
  own format goes into the payload as the very object of the history, and joining it with the next turn changes it there.
  Messages are dictionaries, and the \<open>parts\<close> of such a native turn a list.
\<close>

primrec each :: "('a \<Rightarrow> 'b res) \<Rightarrow> 'a list \<Rightarrow> 'b list res" where
  "each f [] = Inr []"
| "each f (x # xs) = rbind (f x) (\<lambda>y. rbind (each f xs) (\<lambda>ys. Inr (y # ys)))"

definition item :: "details \<Rightarrow> string \<Rightarrow> pyval res" where
  "item d k = (case map_of d k of None \<Rightarrow> Inl (KeyError k) | Some v \<Rightarrow> Inr v)"

definition role_of :: "details \<Rightarrow> pyval" where
  "role_of d = dget_default d ''role'' PNone"

definition parts_of :: "details \<Rightarrow> pyval list" where
  "parts_of d = plist (dget_default d ''parts'' (PList []))"

definition turn :: "string \<Rightarrow> pyval list \<Rightarrow> details" where
  "turn role ps = [(''role'', PStr role), (''parts'', PList ps)]"

definition text_turn :: "string \<Rightarrow> details" where
  "text_turn s = turn ''user'' [PDict [(''text'', PStr s)]]"

subsection \<open>The history for Gemini\<close>

definition system_text :: "details list \<Rightarrow> string" where
  "system_text ms = concat (map (\<lambda>m.
     if dget_default m ''role'' (PStr ''user'') = PStr ''system''
     then (case dget_default m ''content'' (PStr []) of PStr s \<Rightarrow> s @ [newline] | _ \<Rightarrow> [])
     else []) ms)"

text \<open>A content block; only AI Studio translates the results of tools.\<close>

definition part_of_block :: "bool \<Rightarrow> pyval \<Rightarrow> pyval list res" where
  "part_of_block studio b =
     (case b of
        PDict d \<Rightarrow>
          (let ty = dget_default d ''type'' PNone
           in if ty = PStr ''text'' then rbind (item d ''text'') (\<lambda>t. Inr [PDict [(''text'', t)]])
              else if ty = PStr ''tool_use''
              then rbind (item d ''name'') (\<lambda>n. Inr [PDict [(''functionCall'',
                     PDict [(''name'', n), (''args'', dget_default d ''input'' (PDict []))])]])
              else if studio \<and> ty = PStr ''tool_result''
              then Inr [PDict [(''functionResponse'', PDict [(''name'', dget_default d ''name'' (PStr ''tool'')),
                     (''response'', PDict [(''content'', dget_default d ''content'' (PStr []))])])]]
              else Inr [])
      | _ \<Rightarrow> Inr [])"

definition native_turn :: "details \<Rightarrow> bool" where
  "native_turn m \<longleftrightarrow> map_of m ''parts'' \<noteq> None \<and> dget_default m ''role'' (PStr ''user'') \<in> {PStr ''model'', PStr ''user''}"

text \<open>What one message contributes, with its place in the history when it goes in as it is.\<close>

type_synonym placed = "nat option \<times> details"

definition turn_of_message :: "bool \<Rightarrow> nat \<times> details \<Rightarrow> placed list res" where
  "turn_of_message studio im =
     (case im of (i, m) \<Rightarrow>
       if dget_default m ''role'' (PStr ''user'') = PStr ''system'' then Inr []
       else if native_turn m then Inr [(Some i, m)]
       else (let role = (if dget_default m ''role'' (PStr ''user'') = PStr ''assistant'' then ''model'' else ''user'')
             in case dget_default m ''content'' (PStr []) of
                 PStr s \<Rightarrow> Inr (if s = [] then [] else [(None, turn role [PDict [(''text'', PStr s)]])])
               | PList bs \<Rightarrow> rbind (each (part_of_block studio) bs)
                   (\<lambda>ps. Inr (if concat ps = [] then [] else [(None, turn role (concat ps))]))
               | _ \<Rightarrow> Inr []))"

definition turns_of :: "bool \<Rightarrow> details list \<Rightarrow> placed list res" where
  "turns_of studio ms = rbind (each (turn_of_message studio) (zip [0..<length ms] ms)) (\<lambda>ts. Inr (concat ts))"

text \<open>Joining adjacent turns of one role, in place.\<close>

definition join_turn :: "placed list \<Rightarrow> placed \<Rightarrow> placed list" where
  "join_turn acc t =
     (if acc \<noteq> [] \<and> role_of (snd (last acc)) = role_of (snd t)
      then butlast acc @ [apsnd (\<lambda>l. dset ''parts'' (PList (parts_of l @ parts_of (snd t))) l) (last acc)]
      else acc @ [t])"

definition joined_turns :: "placed list \<Rightarrow> placed list" where
  "joined_turns ts = foldl join_turn [] ts"

definition begun :: "placed list \<Rightarrow> placed list" where
  "begun ts = (if ts = [] then [(None, text_turn ''Begin.'')] else ts)"

definition opened :: "placed list \<Rightarrow> placed list" where
  "opened ts = (if ts \<noteq> [] \<and> role_of (snd (hd ts)) = PStr ''model'' then (None, text_turn ''Continue.'') # ts else ts)"

definition part_has :: "string \<Rightarrow> pyval \<Rightarrow> bool" where
  "part_has k p = (case p of PDict d \<Rightarrow> map_of d k \<noteq> None | _ \<Rightarrow> False)"

definition calls_function :: "details \<Rightarrow> bool" where
  "calls_function t \<longleftrightarrow> (\<exists>p\<in>set (parts_of t). part_has ''functionCall'' p) \<and> role_of t = PStr ''model''"

definition may_precede :: "details \<Rightarrow> bool" where
  "may_precede t \<longleftrightarrow> t \<noteq> [] \<and> role_of t = PStr ''user'' \<and>
     (\<exists>p\<in>set (parts_of t). part_has ''text'' p \<or> part_has ''functionResponse'' p)"

definition bridge_turn :: "details list \<Rightarrow> details \<Rightarrow> details list" where
  "bridge_turn acc t =
     (if calls_function t \<and> \<not> (acc \<noteq> [] \<and> may_precede (last acc)) then acc @ [text_turn ''Continue.'', t] else acc @ [t])"

definition bridged :: "details list \<Rightarrow> details list" where
  "bridged ts = foldl bridge_turn [] ts"

text \<open>The contents of the request, and the history as the request leaves it.\<close>

definition gemini_contents :: "bool \<Rightarrow> details list \<Rightarrow> (details list \<times> details list) res" where
  "gemini_contents studio ms =
     rbind (turns_of studio ms) (\<lambda>ts.
       let js = joined_turns (begun ts)
       in Inr (bridged (map snd (opened js)),
               fold (\<lambda>(o', t) hist. case o' of None \<Rightarrow> hist | Some i \<Rightarrow> hist[i := t]) js ms))"

subsection \<open>Tools\<close>

definition object_schema :: pyval where
  "object_schema = PDict [(''type'', PStr ''object''), (''properties'', PDict [])]"

definition function_declaration :: "details \<Rightarrow> details list res" where
  "function_declaration t =
     (let n = dget_default t ''name'' (PStr [])
      in if \<not> truthy n then Inr []
         else (case dget_default t ''input_schema'' object_schema of
             PDict s \<Rightarrow> Inr [[(''name'', n), (''description'', dget_default t ''description'' (PStr [])),
                (''parameters'', PDict ([(''type'', dget_default s ''type'' (PStr ''object'')),
                   (''properties'', dget_default s ''properties'' (PDict []))] @
                   (if truthy (dget_default s ''required'' PNone) then [(''required'', dget_default s ''required'' PNone)] else [])))]]
           | _ \<Rightarrow> Inl (AttributeError ''get'')))"

definition gemini_tools :: "details list \<Rightarrow> details res" where
  "gemini_tools ts = rbind (each function_declaration ts) (\<lambda>ds.
     Inr (if concat ds = [] then []
          else [(''tools'', PList [PDict [(''functionDeclarations'', PList (map PDict (concat ds)))]])]))"

text \<open>Whether the request can be built, its payload, and the history it leaves. The history changes even if the tools then fail.\<close>

definition gemini_payload :: "bool \<Rightarrow> details list \<Rightarrow> details list option \<Rightarrow> details res \<times> details list" where
  "gemini_payload studio ms tools =
     (case gemini_contents studio ms of
        Inl e \<Rightarrow> (Inl e, ms)
      | Inr (cs, ms') \<Rightarrow>
          (rbind (gemini_tools (or_nil tools)) (\<lambda>td.
             Inr ([(''contents'', PList (map PDict cs))] @
               (if system_text ms = [] then []
                else [(''systemInstruction'', PDict [(''parts'', PList [PDict [(''text'', PStr (strip (system_text ms)))]])])]) @ td)),
           ms'))"

text \<open>The same for OpenAI: a tool without a name is skipped, one that is already converted stays.\<close>

definition openai_tool :: "details \<Rightarrow> details list" where
  "openai_tool t =
     (if dget_default t ''type'' PNone = PStr ''function'' then [t]
      else (let n = dget_default t ''name'' (PStr [])
            in if \<not> truthy n then []
               else (let s = dget_default t ''input_schema'' PNone
                     in [[(''type'', PStr ''function''), (''function'', PDict [(''name'', n),
                          (''description'', dget_default t ''description'' (PStr [])),
                          (''parameters'', if s = PNone then object_schema else s)])]])))"

definition to_openai_tools :: "details list \<Rightarrow> details list" where
  "to_openai_tools ts = concat (map openai_tool ts)"

text \<open>Anthropic takes the system messages apart; joining them needs texts.\<close>

definition is_system :: "details \<Rightarrow> bool" where
  "is_system m \<longleftrightarrow> dget_default m ''role'' PNone = PStr ''system''"

definition anthropic_payload :: "string \<Rightarrow> details list \<Rightarrow> details list option \<Rightarrow> details res" where
  "anthropic_payload model ms tools =
     rbind (each (\<lambda>m. case dget_default m ''content'' (PStr []) of PStr s \<Rightarrow> Inr s | _ \<Rightarrow> Inl TypeError) (filter is_system ms)) (\<lambda>sys.
       Inr ([(''model'', PStr model), (''max_tokens'', PInt 16384),
             (''messages'', PList (map PDict (filter (\<lambda>m. \<not> is_system m) ms)))] @
            (if sys = [] then [] else [(''system'', PStr (joined [newline, newline] sys))]) @
            (if or_nil tools = [] then [] else [(''tools'', PList (map PDict (or_nil tools)))])))"

definition openai_payload :: "int \<Rightarrow> string \<Rightarrow> details list \<Rightarrow> details list option \<Rightarrow> details" where
  "openai_payload max_tokens model ms tools =
     [(''model'', PStr model), (''messages'', PList (map PDict ms)), (''max_tokens'', PInt max_tokens)] @
     (if or_nil tools = [] then [] else [(''tools'', PList (map PDict (to_openai_tools (or_nil tools))))])"

subsection \<open>Replies\<close>

text \<open>\<open>LLMResponse\<close>, without the raw excerpt. Token counts are integers, the arguments of a call an object.\<close>

record model_response = routed_response +
  mr_provider :: string
  mr_finish :: string

definition response :: "string \<Rightarrow> string \<Rightarrow> string \<Rightarrow> int \<Rightarrow> int \<Rightarrow> int \<Rightarrow> string \<Rightarrow> llm_call list \<Rightarrow> string \<Rightarrow> model_response" where
  "response text model provider tokens i o' finish calls reasoning =
     \<lparr>lr_text = text, lr_reasoning = reasoning, lr_error = None, lr_tokens = tokens, lr_input_tokens = i, lr_output_tokens = o',
      lr_calls = calls, lr_model = model, mr_provider = provider, mr_finish = finish\<rparr>"

definition int_at :: "details \<Rightarrow> string \<Rightarrow> int" where
  "int_at d k = (case dget_default d k (PInt 0) of PInt n \<Rightarrow> n | _ \<Rightarrow> 0)"

definition dict_at :: "details \<Rightarrow> string \<Rightarrow> details" where
  "dict_at d k = (case dget_default d k (PDict []) of PDict e \<Rightarrow> e | _ \<Rightarrow> [])"

definition gemini_call :: "string \<Rightarrow> nat \<Rightarrow> details \<Rightarrow> llm_call res" where
  "gemini_call prefix n fc = rbind (item fc ''name'') (\<lambda>v. Inr
     \<lparr>lc_id = prefix @ ''_'' @ py_str v @ ''_'' @ str_nat n, lc_name = py_str v, lc_input = dict_at fc ''args''\<rparr>)"

fun read_parts :: "string \<Rightarrow> pyval list \<Rightarrow> string \<Rightarrow> llm_call list \<Rightarrow> (string \<times> llm_call list) res" where
  "read_parts prefix [] text calls = Inr (text, calls)"
| "read_parts prefix (PDict d # ps) text calls =
     (case map_of d ''text'' of
        Some (PStr s) \<Rightarrow> read_parts prefix ps (text @ s) calls
      | Some _ \<Rightarrow> Inl TypeError
      | None \<Rightarrow>
        (case map_of d ''functionCall'' of
           None \<Rightarrow> read_parts prefix ps text calls
         | Some (PDict fc) \<Rightarrow> rbind (gemini_call prefix (length calls) fc) (\<lambda>c. read_parts prefix ps text (calls @ [c]))
         | Some _ \<Rightarrow> Inl TypeError))"
| "read_parts prefix (_ # ps) text calls = Inl TypeError"

definition gemini_response :: "string \<Rightarrow> string \<Rightarrow> string \<Rightarrow> details \<Rightarrow> model_response res" where
  "gemini_response provider prefix model d =
     (let u = dict_at d ''usageMetadata''; i = int_at u ''promptTokenCount''; o' = int_at u ''candidatesTokenCount''
      in case plist (dget_default d ''candidates'' (PList [])) of
           [] \<Rightarrow> Inr (response [] model provider (i + o') i o' ''STOP'' [] [])
         | PDict c # _ \<Rightarrow> rbind (read_parts prefix (parts_of (dict_at c ''content'')) [] []) (\<lambda>(text, calls).
             Inr (response text model provider (i + o') i o' (py_str (dget_default c ''finishReason'' (PStr ''STOP''))) calls []))
         | _ \<Rightarrow> Inl (AttributeError ''get''))"

datatype reply_block = TextBlock string | ToolUseBlock string string details | OtherBlock

record anthropic_reply =
  ar_content :: "reply_block list"
  ar_in :: int
  ar_out :: int
  ar_stop :: "string option"

definition anthropic_response :: "string \<Rightarrow> anthropic_reply \<Rightarrow> model_response" where
  "anthropic_response model r =
     response (concat (map (\<lambda>b. case b of TextBlock s \<Rightarrow> s | _ \<Rightarrow> []) (ar_content r))) model ''anthropic'' (ar_in r + ar_out r)
       (ar_in r) (ar_out r) (case set_filter (ar_stop r) of None \<Rightarrow> ''stop'' | Some s \<Rightarrow> s)
       (concat (map (\<lambda>b. case b of ToolUseBlock i n a \<Rightarrow> [\<lparr>lc_id = i, lc_name = n, lc_input = a\<rparr>] | _ \<Rightarrow> []) (ar_content r))) []"

text \<open>The arguments of a call as \<open>json.loads\<close> reads their text; \<open>None\<close> for a text that is no JSON.\<close>

record openai_call =
  oc_id :: string
  oc_name :: string
  oc_empty :: bool
  oc_args :: "details option"

record openai_choice =
  oh_content :: "string option"
  oh_calls :: "openai_call list"
  oh_reasoning :: "string option"
  oh_reasoning_content :: "string option"
  oh_finish :: "string option"

record openai_reply =
  op_choices :: "openai_choice list"
  op_usage :: "(int \<times> int \<times> int) option"

definition openai_tool_call :: "openai_call \<Rightarrow> llm_call res" where
  "openai_tool_call c =
     (if oc_empty c then Inr \<lparr>lc_id = oc_id c, lc_name = oc_name c, lc_input = []\<rparr>
      else (case oc_args c of None \<Rightarrow> Inl ValueError | Some a \<Rightarrow> Inr \<lparr>lc_id = oc_id c, lc_name = oc_name c, lc_input = a\<rparr>))"

definition text_of_option :: "string option \<Rightarrow> string" where
  "text_of_option x = (case x of None \<Rightarrow> [] | Some s \<Rightarrow> s)"

definition openai_response :: "string \<Rightarrow> openai_reply \<Rightarrow> model_response res" where
  "openai_response model r =
     (case op_choices r of
        [] \<Rightarrow> Inl (Raised ''list index out of range'')
      | h # _ \<Rightarrow> rbind (each openai_tool_call (oh_calls h)) (\<lambda>calls.
          let reasoning = (if text_of_option (oh_reasoning h) = [] then text_of_option (oh_reasoning_content h) else text_of_option (oh_reasoning h));
              text = (if text_of_option (oh_content h) = [] \<and> calls = [] then reasoning else text_of_option (oh_content h));
              (t, i, o') = (case op_usage r of None \<Rightarrow> (0, 0, 0) | Some u \<Rightarrow> u)
          in Inr (response text model ''openai'' t i o' (case set_filter (oh_finish h) of None \<Rightarrow> ''stop'' | Some s \<Rightarrow> s) calls reasoning)))"

subsection \<open>What Gemini is sent\<close>

definition step_ok :: "details \<Rightarrow> details \<Rightarrow> bool" where
  "step_ok a b \<longleftrightarrow> (calls_function b \<longrightarrow> may_precede a) \<and> (role_of a \<noteq> role_of b \<or> b = text_turn ''Continue.'')"

definition gemini_ok :: "details list \<Rightarrow> bool" where
  "gemini_ok cs \<longleftrightarrow> cs \<noteq> [] \<and> role_of (hd cs) = PStr ''user'' \<and> successively step_ok cs"

definition two_roles :: "details \<Rightarrow> bool" where
  "two_roles t \<longleftrightarrow> role_of t \<in> {PStr ''user'', PStr ''model''}"

definition alternating :: "details list \<Rightarrow> bool" where
  "alternating ts \<longleftrightarrow> successively (\<lambda>a b. role_of a \<noteq> role_of b) ts \<and> (\<forall>t\<in>set ts. two_roles t)"

lemma role_of_dset_parts [simp]: "role_of (dset ''parts'' v t) = role_of t"
  by (simp add: role_of_def dget_default_def)

lemma role_of_turn [simp]: "role_of (turn r ps) = PStr r" "role_of (text_turn s) = PStr ''user''"
  by (simp_all add: turn_def text_turn_def role_of_def)

lemma parts_of_turn [simp]: "parts_of (turn r ps) = ps" "parts_of (text_turn s) = [PDict [(''text'', PStr s)]]"
  by (simp_all add: turn_def text_turn_def parts_of_def)

lemma may_precede_text [simp]: "may_precede (text_turn s)"
  by (simp add: may_precede_def part_has_def) (simp add: text_turn_def turn_def)

lemma text_calls_nothing [simp]: "\<not> calls_function (text_turn s)"
  by (simp add: calls_function_def)

lemma successively_snoc: "successively P (xs @ [x]) \<longleftrightarrow> successively P xs \<and> (xs \<noteq> [] \<longrightarrow> P (last xs) x)"
  by (auto simp: successively_append_iff)

lemma join_turn_alternates:
  assumes "alternating (map snd acc)" and "two_roles (snd t)"
  shows "alternating (map snd (join_turn acc t)) \<and> join_turn acc t \<noteq> []"
proof (cases "acc \<noteq> [] \<and> role_of (snd (last acc)) = role_of (snd t)")
  case True
  then obtain b l where acc: "acc = b @ [l]" by (cases acc rule: rev_cases) auto
  with True assms show ?thesis
    by (auto simp: join_turn_def alternating_def successively_snoc two_roles_def last_map)
next
  case False
  with assms show ?thesis
    by (auto simp: join_turn_def alternating_def successively_snoc last_map)
qed

lemma joined_turns_alternate:
  assumes "\<forall>t\<in>set ts. two_roles (snd t)"
  shows "alternating (map snd (joined_turns ts)) \<and> (ts \<noteq> [] \<longrightarrow> joined_turns ts \<noteq> [])"
  using assms
proof (induction ts rule: rev_induct)
  case Nil
  then show ?case by (simp add: joined_turns_def alternating_def)
next
  case (snoc t ts)
  with join_turn_alternates [of "joined_turns ts" t] show ?case by (simp add: joined_turns_def)
qed

lemma bridged_ok:
  assumes "alternating ts" and "ts \<noteq> []" and "role_of (hd ts) = PStr ''user''"
  shows "gemini_ok (bridged ts) \<and> last (bridged ts) = last ts"
  using assms
proof (induction ts rule: rev_induct)
  case (snoc t ts)
  show ?case
  proof (cases "ts = []")
    case True
    with snoc.prems show ?thesis
      by (auto simp: bridged_def bridge_turn_def gemini_ok_def calls_function_def)
  next
    case False
    from snoc.prems have a: "alternating ts" "role_of (last ts) \<noteq> role_of t"
      using False by (auto simp: alternating_def successively_snoc)
    have "role_of (hd ts) = PStr ''user''" using snoc.prems(3) False by simp
    with snoc.IH [OF a(1) False] have ih: "gemini_ok (bridged ts)" "last (bridged ts) = last ts" by simp_all
    have unfold: "bridged (ts @ [t]) = bridge_turn (bridged ts) t" by (simp add: bridged_def)
    show ?thesis
    proof (cases "calls_function t \<and> \<not> may_precede (last ts)")
      case True
      then have "role_of t = PStr ''model''" by (simp add: calls_function_def)
      with True ih show ?thesis
        by (auto simp: unfold bridge_turn_def gemini_ok_def successively_append_iff step_ok_def)
    next
      case False
      with ih a(2) show ?thesis
        by (auto simp: unfold bridge_turn_def gemini_ok_def successively_snoc step_ok_def)
    qed
  qed
qed simp

lemma each_origin: "each f xs = Inr ys \<Longrightarrow> y \<in> set ys \<Longrightarrow> \<exists>x\<in>set xs. f x = Inr y"
  by (induction xs arbitrary: ys) (auto simp: rbind_eq_Inr)

lemma two_roles_turn [simp]: "two_roles (turn ''user'' ps)" "two_roles (turn ''model'' ps)" "two_roles (text_turn s)"
  by (simp_all add: two_roles_def)

lemma native_two_roles: "map_of m ''role'' \<noteq> None \<Longrightarrow> native_turn m \<Longrightarrow> two_roles m"
  by (auto simp: native_turn_def two_roles_def role_of_def dget_default_def)

lemma turn_of_message_roles:
  assumes "map_of m ''role'' \<noteq> None" and "turn_of_message studio (i, m) = Inr ts"
  shows "\<forall>t\<in>set ts. two_roles (snd t)"
  using assms native_two_roles [OF assms(1)]
  by (auto simp: turn_of_message_def Let_def rbind_eq_Inr split: if_splits pyval.splits)

lemma turns_of_roles:
  assumes "turns_of studio ms = Inr ts" and "\<forall>m\<in>set ms. map_of m ''role'' \<noteq> None"
  shows "\<forall>t\<in>set ts. two_roles (snd t)"
proof
  fix t assume "t \<in> set ts"
  with assms(1) obtain tss l where "each (turn_of_message studio) (zip [0..<length ms] ms) = Inr tss" "l \<in> set tss" "t \<in> set l"
    by (auto simp: turns_of_def rbind_eq_Inr)
  then obtain i m where "(i, m) \<in> set (zip [0..<length ms] ms)" "turn_of_message studio (i, m) = Inr l"
    using each_origin by fastforce
  with turn_of_message_roles [of m studio i l] assms(2) \<open>t \<in> set l\<close> show "two_roles (snd t)"
    by (auto dest: set_zip_rightD)
qed


subsection \<open>What a request does to the history\<close>

definition after_request :: "bool \<Rightarrow> details list \<Rightarrow> details list" where
  "after_request studio ms = (case gemini_contents studio ms of Inl e \<Rightarrow> ms | Inr (cs, ms') \<Rightarrow> ms')"

lemma parts_of_dset [simp]: "parts_of (dset ''parts'' (PList ps) t) = ps"
  by (simp add: parts_of_def)

lemma native_in_place: "native_turn a \<Longrightarrow> map_of a ''role'' = Some (PStr ''user'') \<Longrightarrow> turn_of_message studio (i, a) = Inr [(Some i, a)]"
  by (simp add: turn_of_message_def dget_default_def)

lemma after_request_two:
  assumes "native_turn a" and "map_of a ''role'' = Some (PStr ''user'')"
    and "turn_of_message studio (1, b) = Inr [(x, t)]" and "role_of t = PStr ''user''"
  shows "after_request studio [a, b] = [dset ''parts'' (PList (parts_of a @ parts_of t)) a, b]"
proof -
  have "turns_of studio [a, b] = Inr [(Some 0, a), (x, t)]"
    using assms(3) native_in_place [OF assms(1,2), of studio 0] by (simp add: turns_of_def)
  moreover have "role_of a = PStr ''user''" using assms(2) by (simp add: role_of_def)
  ultimately show ?thesis
    using assms(4) by (simp add: after_request_def gemini_contents_def joined_turns_def begun_def join_turn_def)
qed


definition lost_name :: "tool_call \<Rightarrow> pyval" where
  "lost_name r = PDict [(''functionResponse'', PDict [(''name'', PStr ''tool''),
     (''response'', PDict [(''content'', PStr (content_str (tc_result r)))])])]"

lemma blocks_of_results:
  "each (part_of_block True) (map (\<lambda>r. PDict [(''type'', PStr ''tool_result''), (''tool_use_id'', PStr (tc_use_id r)),
     (''content'', PStr (content_str (tc_result r))), (''is_error'', PBool (tc_is_error r))]) recs) = Inr (map (\<lambda>r. [lost_name r]) recs)"
  by (induction recs) (simp_all add: part_of_block_def Let_def lost_name_def)

lemma blocks_of_results_vertex:
  "each (part_of_block False) (map (\<lambda>r. PDict [(''type'', PStr ''tool_result''), (''tool_use_id'', PStr (tc_use_id r)),
     (''content'', PStr (content_str (tc_result r))), (''is_error'', PBool (tc_is_error r))]) recs) = Inr (map (\<lambda>r. []) recs)"
  by (induction recs) (simp_all add: part_of_block_def Let_def)

lemma concat_singletons: "concat (map (\<lambda>r. [f r]) xs) = map f xs"
  by (induction xs) simp_all

text \<open>C3: The engine shapes the turns of the provider \<open>google\<close> in Anthropic's format. AI Studio then gets every result under the
  name ''tool'' instead of the function's, and Vertex, reached by failover, gets no result at all.\<close>

theorem gemini_loses_shaped_results:
  assumes "recs \<noteq> []"
  shows "\<exists>m. tool_result_messages (provider_kind ''google'' ''gemini-2.5-pro'') recs = [PDict m] \<and>
    turn_of_message True (i, m) = Inr [(None, turn ''user'' (map lost_name recs))] \<and> turn_of_message False (i, m) = Inr []"
proof -
  let ?bs = "map (\<lambda>r. PDict [(''type'', PStr ''tool_result''), (''tool_use_id'', PStr (tc_use_id r)),
     (''content'', PStr (content_str (tc_result r))), (''is_error'', PBool (tc_is_error r))]) recs"
  let ?m = "[(''role'', PStr ''user''), (''content'', PList ?bs)]"
  have "provider_kind ''google'' ''gemini-2.5-pro'' = Anthropic"
    by (simp add: provider_kind_def openai_providers_def openai_model_prefixes_def starts_with_def)
  then have "tool_result_messages (provider_kind ''google'' ''gemini-2.5-pro'') recs = [PDict ?m]"
    by (simp add: tool_result_messages_def message_def)
  moreover have "turn_of_message True (i, ?m) = Inr [(None, turn ''user'' (map lost_name recs))]"
    using assms by (simp add: turn_of_message_def native_turn_def blocks_of_results concat_singletons)
  moreover have "turn_of_message False (i, ?m) = Inr []"
    by (simp add: turn_of_message_def native_turn_def blocks_of_results_vertex)
  ultimately show ?thesis by blast
qed

subsection \<open>The ids of Gemini's calls\<close>

lemma read_parts_ids:
  assumes "read_parts prefix ps said calls = Inr (t, cs)"
    and "\<forall>k<length calls. lc_id (calls ! k) = prefix @ ''_'' @ lc_name (calls ! k) @ ''_'' @ str_nat k"
  shows "\<forall>k<length cs. lc_id (cs ! k) = prefix @ ''_'' @ lc_name (cs ! k) @ ''_'' @ str_nat k"
  using assms
proof (induction prefix ps said calls rule: read_parts.induct)
  case (2 prefix d ps said calls)
  show ?case
  proof (cases "map_of d ''text''")
    case (Some v)
    with 2 show ?thesis by (auto split: pyval.splits)
  next
    case None
    show ?thesis
    proof (cases "map_of d ''functionCall''")
      case (Some v)
      with None "2.prems"(1) obtain fc c where fc: "v = PDict fc" "gemini_call prefix (length calls) fc = Inr c"
        "read_parts prefix ps said (calls @ [c]) = Inr (t, cs)"
        by (auto simp: rbind_eq_Inr split: pyval.splits)
      from fc(2) have "lc_id c = prefix @ ''_'' @ lc_name c @ ''_'' @ str_nat (length calls)"
        by (auto simp: gemini_call_def rbind_eq_Inr)
      with "2.prems"(2) have "\<forall>k<length (calls @ [c]). lc_id ((calls @ [c]) ! k) = prefix @ ''_'' @ lc_name ((calls @ [c]) ! k) @ ''_'' @ str_nat k"
        by (auto simp: nth_append less_Suc_eq)
      from "2.IH"(2) [OF None Some fc(1) fc(3) this] show ?thesis .
    qed (use None 2 in auto)
  qed
qed auto

text \<open>C4: The ids that are made up for Gemini's calls number the calls of one reply only: in every two replies the calls of one
  function at one position have the same id, so the answer to the one is taken for an answer to the other.\<close>

theorem gemini_ids_repeat_across_turns:
  assumes "gemini_response provider prefix model d1 = Inr r1" and "gemini_response provider prefix model d2 = Inr r2"
    and "k < length (lr_calls r1)" and "k < length (lr_calls r2)" and "lc_name (lr_calls r1 ! k) = lc_name (lr_calls r2 ! k)"
  shows "lc_id (lr_calls r1 ! k) = lc_id (lr_calls r2 ! k)"
proof -
  have ids: "lc_id (lr_calls r ! k) = prefix @ ''_'' @ lc_name (lr_calls r ! k) @ ''_'' @ str_nat k"
    if "gemini_response provider prefix model d = Inr r" "k < length (lr_calls r)" for d r
    using that read_parts_ids [where calls = "[]" and prefix = prefix]
    by (auto simp: gemini_response_def Let_def response_def rbind_eq_Inr split: list.splits pyval.splits)
  from ids [OF assms(1,3)] ids [OF assms(2,4)] assms(5) show ?thesis by simp
qed

subsection \<open>A small history\<close>

definition demo_call_turn :: details where
  "demo_call_turn = turn ''model'' [PDict [(''functionCall'', PDict [(''name'', PStr ''mail''), (''args'', PDict [])])]]"

definition demo_result_turn :: details where
  "demo_result_turn = turn ''user'' [PDict [(''functionResponse'', PDict [(''name'', PStr ''mail'')])]]"

definition demo_hint :: details where
  "demo_hint = [(''role'', PStr ''user''), (''content'', PStr ''hurry'')]"

definition demo_reply :: "string \<Rightarrow> details" where
  "demo_reply why = [(''candidates'', PList [PDict [(''content'', PDict (turn ''model''
     [PDict [(''functionCall'', PDict [(''name'', PStr ''mail''), (''args'', PDict [(''why'', PStr why)])])]]))]])]"



lemma gemini_loses_shaped_results_witness:
  "\<exists>m. tool_result_messages (provider_kind ''google'' ''gemini-2.5-pro'') [new_call ''c1'' ''mail'' []] = [PDict m] \<and>
     turn_of_message True (4, m) = Inr [(None, turn ''user'' [lost_name (new_call ''c1'' ''mail'' [])])] \<and> turn_of_message False (4, m) = Inr []"
  using gemini_loses_shaped_results [of "[new_call ''c1'' ''mail'' []]" 4] by simp

lemma gemini_ids_repeat_across_turns_witness:
  "\<exists>r1 r2. gemini_response ''vertex'' ''vertex'' ''gemini'' (demo_reply ''first'') = Inr r1 \<and>
     gemini_response ''vertex'' ''vertex'' ''gemini'' (demo_reply ''second'') = Inr r2 \<and>
     lc_id (lr_calls r1 ! 0) = lc_id (lr_calls r2 ! 0) \<and> lc_input (lr_calls r1 ! 0) \<noteq> lc_input (lr_calls r2 ! 0)"
proof -
  have r: "\<exists>r. gemini_response ''vertex'' ''vertex'' ''gemini'' (demo_reply why) = Inr r \<and> 0 < length (lr_calls r) \<and>
      lc_name (lr_calls r ! 0) = ''mail'' \<and> lc_input (lr_calls r ! 0) = [(''why'', PStr why)]" for why
    by (simp add: gemini_response_def demo_reply_def turn_def dict_at_def parts_of_def gemini_call_def item_def response_def py_str_def Let_def)
  from r [of "''first''"] r [of "''second''"] obtain r1 r2 where
    r1: "gemini_response ''vertex'' ''vertex'' ''gemini'' (demo_reply ''first'') = Inr r1" "0 < length (lr_calls r1)"
    "lc_name (lr_calls r1 ! 0) = ''mail''" "lc_input (lr_calls r1 ! 0) = [(''why'', PStr ''first'')]"
    and r2: "gemini_response ''vertex'' ''vertex'' ''gemini'' (demo_reply ''second'') = Inr r2" "0 < length (lr_calls r2)"
    "lc_name (lr_calls r2 ! 0) = ''mail''" "lc_input (lr_calls r2 ! 0) = [(''why'', PStr ''second'')]"
    by (elim exE conjE) (rule that)
  from r1(3) r2(3) have same: "lc_name (lr_calls r1 ! 0) = lc_name (lr_calls r2 ! 0)" by simp
  have "lc_input (lr_calls r1 ! 0) \<noteq> lc_input (lr_calls r2 ! 0)" using r1(4) r2(4) by simp
  with gemini_ids_repeat_across_turns [OF r1(1) r2(1) r1(2) r2(2) same] r1(1) r2(1) show ?thesis
    by (intro exI conjI)
qed

end
