(* ===== verification/LlmRouter.thy ===== *)
theory LlmRouter
  imports Dialects Secrets Callbacks
begin

text \<open>
  The router of model calls (\<open>src/src/platform/llm_router.py\<close>): clients and keys, retries, failover and the callbacks around a
  call. The SDKs, the credentials of Google and the sleep are parameters; requests change the world \<open>'w\<close>, and those to
  Gemini the history too.
\<close>

subsection \<open>Errors and retries\<close>

record sdk_error =
  xc_type :: string
  xc_code :: pyval
  xc_status :: pyval
  xc_text :: string

definition plain_error :: "string \<Rightarrow> string \<Rightarrow> sdk_error" where
  "plain_error ty msg = \<lparr>xc_type = ty, xc_code = PNone, xc_status = PNone, xc_text = msg\<rparr>"

definition as_error :: "py_exn \<Rightarrow> sdk_error" where
  "as_error e = plain_error (case e of TypeError \<Rightarrow> ''TypeError'' | ValueError \<Rightarrow> ''ValueError'' | KeyError k \<Rightarrow> ''KeyError''
     | AttributeError a \<Rightarrow> ''AttributeError'' | Raised m \<Rightarrow> ''Exception'') (exn_text e)"

definition retryable_names :: "string list" where
  "retryable_names = [''RateLimitError'', ''APIConnectionError'', ''APITimeoutError'', ''InternalServerError'', ''ServiceUnavailableError'',
     ''TimeoutError'', ''ReadTimeout'', ''ConnectTimeout'', ''ConnectionError'']"

definition mentions_timeout :: "string \<Rightarrow> bool" where
  "mentions_timeout s \<longleftrightarrow> (let m = lower s in is_substring ''timeout'' m \<or> is_substring ''timed out'' m \<or> is_substring ''rate limit'' m)"

definition is_retryable :: "sdk_error \<Rightarrow> bool" where
  "is_retryable e =
     (case (if truthy (xc_code e) then xc_code e else xc_status e) of
        PInt n \<Rightarrow> 500 \<le> n \<or> n = 429 \<or> n = 408
      | PBool b \<Rightarrow> False
      | _ \<Rightarrow> xc_type e \<in> set retryable_names \<or> mentions_timeout (xc_text e))"

datatype client = OpenAiClient "string option" string | AnthropicClient string | VertexClient string string | GoogleClient string

text \<open>A reply over HTTP, with the body as JSON reads it.\<close>

record http_reply =
  ht_status :: int
  ht_text :: string
  ht_json :: "details option"

record ('w, 'g) router_env =
  lm_attempts :: nat
  lm_base :: rat
  lm_max :: rat
  lm_jitter :: "'w \<Rightarrow> rat \<times> 'w"
  lm_sleep :: "rat \<Rightarrow> 'w \<Rightarrow> 'w"
  lm_anthropic :: "client \<Rightarrow> details \<Rightarrow> 'w \<Rightarrow> (sdk_error + anthropic_reply) \<times> 'w"
  lm_openai :: "client \<Rightarrow> details \<Rightarrow> 'w \<Rightarrow> (sdk_error + openai_reply) \<times> 'w"
  lm_token :: "'w \<Rightarrow> string option \<times> 'w"
  lm_post :: "string \<Rightarrow> string \<Rightarrow> details \<Rightarrow> 'w \<Rightarrow> (sdk_error + http_reply) \<times> 'w"
  lm_status_error :: "http_reply \<Rightarrow> sdk_error"
  lm_max_tokens :: int
  lm_has_openai :: bool
  lm_has_anthropic :: bool
  lm_base_url :: "client \<Rightarrow> string"
  lm_fingerprint :: "string \<Rightarrow> string"
  lm_secrets :: "'g secret_env"
  lm_callbacks :: "(cb_context \<Rightarrow> 'w \<Rightarrow> cb_result \<times> 'w) option"
  lm_clock :: "'w \<Rightarrow> kenv \<times> 'w"

record 'g router =
  rt_clients :: "(string, client) dict"
  rt_keys :: "(string, string) dict"
  rt_managed :: bool
  rt_vault :: "'g secrets"
  rt_audit :: "audit_log option"

text \<open>The history that a request may change, and the world.\<close>

type_synonym 'w scene = "details list \<times> 'w"

definition retry_delay :: "('w, 'g) router_env \<Rightarrow> nat \<Rightarrow> rat" where
  "retry_delay env attempt = min (lm_max env) (lm_base env * 2 ^ (attempt - 1))"

definition pause :: "('w, 'g) router_env \<Rightarrow> nat \<Rightarrow> 'w scene \<Rightarrow> 'w scene" where
  "pause env attempt s = (case lm_jitter env (snd s) of (j, w) \<Rightarrow> (fst s, lm_sleep env (retry_delay env attempt + j) w))"

text \<open>The attempts that are left; with none at all the function returns \<open>None\<close>.\<close>

primrec attempts_left :: "('w, 'g) router_env \<Rightarrow> ('w scene \<Rightarrow> (sdk_error + 'a) \<times> 'w scene) \<Rightarrow> nat \<Rightarrow> 'w scene \<Rightarrow>
    (sdk_error + 'a) option \<times> 'w scene" where
  "attempts_left env call 0 s = (None, s)"
| "attempts_left env call (Suc n) s =
     (case call s of
        (Inr x, s1) \<Rightarrow> (Some (Inr x), s1)
      | (Inl e, s1) \<Rightarrow> if \<not> is_retryable e \<or> n = 0 then (Some (Inl e), s1)
                      else attempts_left env call n (pause env (lm_attempts env - n) s1))"

definition with_retry :: "('w, 'g) router_env \<Rightarrow> ('w scene \<Rightarrow> (sdk_error + 'a) \<times> 'w scene) \<Rightarrow> 'w scene \<Rightarrow>
    (sdk_error + 'a) option \<times> 'w scene" where
  "with_retry env call s = attempts_left env call (lm_attempts env) s"

subsection \<open>Requests\<close>

definition call_anthropic :: "('w, 'g) router_env \<Rightarrow> client \<Rightarrow> string \<Rightarrow> details list option \<Rightarrow> 'w scene \<Rightarrow>
    (sdk_error + model_response) \<times> 'w scene" where
  "call_anthropic env c model tools s =
     (case anthropic_payload model (fst s) tools of
        Inl e \<Rightarrow> (Inl (as_error e), s)
      | Inr p \<Rightarrow> (case lm_anthropic env c p (snd s) of (r, w) \<Rightarrow> (map_sum id (anthropic_response model) r, (fst s, w))))"

definition call_openai :: "('w, 'g) router_env \<Rightarrow> client \<Rightarrow> string \<Rightarrow> details list option \<Rightarrow> 'w scene \<Rightarrow>
    (sdk_error + model_response) \<times> 'w scene" where
  "call_openai env c model tools s =
     (case lm_openai env c (openai_payload (lm_max_tokens env) model (fst s) tools) (snd s) of
        (Inl e, w) \<Rightarrow> (Inl e, (fst s, w))
      | (Inr r, w) \<Rightarrow> (map_sum as_error id (openai_response model r), (fst s, w)))"

definition json_of :: "http_reply \<Rightarrow> details res" where
  "json_of r = (case ht_json r of None \<Rightarrow> Inl ValueError | Some d \<Rightarrow> Inr d)"

definition vertex_url :: "string \<Rightarrow> string \<Rightarrow> string \<Rightarrow> string" where
  "vertex_url project region model = ''https://'' @ region @ ''-aiplatform.googleapis.com/v1/projects/'' @ project @ ''/locations/'' @
     region @ ''/publishers/google/models/'' @ model @ '':generateContent''"

definition call_vertex :: "('w, 'g) router_env \<Rightarrow> string \<Rightarrow> string \<Rightarrow> string \<Rightarrow> details list option \<Rightarrow> 'w scene \<Rightarrow>
    (sdk_error + model_response) \<times> 'w scene" where
  "call_vertex env project region model tools s =
     (case lm_token env (snd s) of
        (tok, w) \<Rightarrow>
          (case set_filter tok of
             None \<Rightarrow> (Inl (plain_error ''RuntimeError''
               ''Failed to get Vertex AI access token (tried google.auth ADC and gcloud CLI)''), (fst s, w))
           | Some t \<Rightarrow>
             (case gemini_payload False (fst s) tools of
                (Inl e, ms) \<Rightarrow> (Inl (as_error e), (ms, w))
              | (Inr p, ms) \<Rightarrow>
                (case lm_post env (vertex_url project region model) (''Bearer '' @ t) p w of
                   (Inl e, w1) \<Rightarrow> (Inl e, (ms, w1))
                 | (Inr r, w1) \<Rightarrow>
                   (if \<not> (200 \<le> ht_status r \<and> ht_status r < 300) then (Inl (lm_status_error env r), (ms, w1))
                    else (map_sum as_error id (rbind (json_of r) (gemini_response ''vertex'' ''vertex'' model)), (ms, w1)))))))"

definition gemini_failure :: "string \<Rightarrow> http_reply \<Rightarrow> sdk_error" where
  "gemini_failure model r = plain_error ''RuntimeError''
     (''Gemini API '' @ str_int (ht_status r) @ '' for model='' @ model @ '': '' @ take 600 (ht_text r))"

definition call_google :: "('w, 'g) router_env \<Rightarrow> string \<Rightarrow> string \<Rightarrow> details list option \<Rightarrow> 'w scene \<Rightarrow>
    (sdk_error + model_response) \<times> 'w scene" where
  "call_google env key model tools s =
     (case gemini_payload True (fst s) tools of
        (Inl e, ms) \<Rightarrow> (Inl (as_error e), (ms, snd s))
      | (Inr p, ms) \<Rightarrow>
        (case lm_post env (''https://generativelanguage.googleapis.com/v1beta/models/'' @ model @ '':generateContent'') key p (snd s) of
           (Inl e, w1) \<Rightarrow> (Inl e, (ms, w1))
         | (Inr r, w1) \<Rightarrow>
           (if 400 \<le> ht_status r then (Inl (gemini_failure model r), (ms, w1))
            else (map_sum as_error id (rbind (json_of r) (gemini_response ''google'' ''genai'' model)), (ms, w1)))))"

subsection \<open>Clients\<close>

definition openai_compatible :: "string list" where
  "openai_compatible = [''vllm'', ''atlas'', ''openai'']"

definition env_var :: "('w, 'g) router_env \<Rightarrow> string \<Rightarrow> string \<Rightarrow> string" where
  "env_var env k dflt = dget_default (se_environ (lm_secrets env)) k dflt"

text \<open>The clients of the boot, one per configured key.\<close>

definition boot_client :: "('w, 'g) router_env \<Rightarrow> string \<Rightarrow> string \<Rightarrow> client option" where
  "boot_client env provider key =
     (if provider = ''anthropic'' \<and> key \<noteq> [] then (if lm_has_anthropic env then Some (AnthropicClient key) else None)
      else if provider = ''openai'' \<and> key \<noteq> [] then (if lm_has_openai env then Some (OpenAiClient None key) else None)
      else if provider = ''atlas'' \<and> key \<noteq> []
      then (if lm_has_openai env then Some (OpenAiClient (Some (env_var env ''ATLAS_GATEWAY_URL''
              ''https://atlas-gateway-YOUR_PROJECT_NUMBER.europe-west1.run.app/v1'')) key) else None)
      else if provider = ''vertex'' \<and> key \<noteq> [] then Some (VertexClient key (env_var env ''GCP_REGION'' ''us-central1''))
      else if provider = ''google'' \<and> key \<noteq> [] then Some (GoogleClient key)
      else if provider = ''vllm''
      then (if lm_has_openai env then Some (OpenAiClient (Some (env_var env ''VLLM_BASE_URL'' ''http://localhost:8000/v1''))
              (if key = [] then ''EMPTY'' else key)) else None)
      else None)"

definition add_boot_client :: "('w, 'g) router_env \<Rightarrow> string \<times> string \<Rightarrow> (string, client) dict \<Rightarrow> (string, client) dict" where
  "add_boot_client env pk d = (case boot_client env (fst pk) (snd pk) of None \<Rightarrow> d | Some c \<Rightarrow> dset (fst pk) c d)"

definition or_empty :: "string option \<Rightarrow> string" where
  "or_empty k = (case set_filter k of None \<Rightarrow> ''EMPTY'' | Some x \<Rightarrow> x)"

definition init_clients :: "('w, 'g) router_env \<Rightarrow> (string, string) dict \<Rightarrow> (string, client) dict" where
  "init_clients env keys =
     (let d = fold (add_boot_client env) keys []
      in if map_of d ''vllm'' = None \<and> env_var env ''VLLM_BASE_URL'' [] \<noteq> [] \<and> lm_has_openai env
         then dset ''vllm'' (OpenAiClient (Some (env_var env ''VLLM_BASE_URL'' [])) (or_empty (map_of keys ''vllm''))) d
         else d)"

text \<open>The address and the key of a call with overrides, and the place of its client in the cache.\<close>

definition effective_url :: "('w, 'g) router_env \<Rightarrow> string \<Rightarrow> string option \<Rightarrow> 'g router \<Rightarrow> string option" where
  "effective_url env provider base r =
     (case set_filter base of
        Some u \<Rightarrow> Some u
      | None \<Rightarrow> (case map_of (rt_clients r) provider of None \<Rightarrow> None | Some c \<Rightarrow> set_filter (Some (lm_base_url env c))))"

definition effective_key :: "string \<Rightarrow> string option \<Rightarrow> 'g router \<Rightarrow> string" where
  "effective_key provider key r = (case set_filter key of Some k \<Rightarrow> k | None \<Rightarrow> or_empty (map_of (rt_keys r) provider))"

definition client_key :: "('w, 'g) router_env \<Rightarrow> string \<Rightarrow> string option \<Rightarrow> string \<Rightarrow> string" where
  "client_key env provider url key =
     provider @ ''::'' @ (case url of None \<Rightarrow> ''default'' | Some u \<Rightarrow> u) @ ''::'' @ lm_fingerprint env key"

definition openai_client_for :: "('w, 'g) router_env \<Rightarrow> string \<Rightarrow> string option \<Rightarrow> string option \<Rightarrow> 'g router \<Rightarrow> client option \<times> 'g router" where
  "openai_client_for env provider base key r =
     (if set_filter base = None \<and> set_filter key = None then (map_of (rt_clients r) provider, r)
      else (let u = effective_url env provider base r; k = effective_key provider key r; ck = client_key env provider u k
            in case map_of (rt_clients r) ck of
                 Some c \<Rightarrow> (Some c, r)
               | None \<Rightarrow> if lm_has_openai env
                         then (Some (OpenAiClient u k), r\<lparr>rt_clients := dset ck (OpenAiClient u k) (rt_clients r)\<rparr>)
                         else (None, r)))"

subsection \<open>A call\<close>

definition error_response :: "string \<Rightarrow> string \<Rightarrow> string \<Rightarrow> string \<Rightarrow> model_response" where
  "error_response body model provider msg = (response body model provider 0 0 0 ''stop'' [] [])\<lparr>lr_error := Some msg\<rparr>"

definition simulated :: "string \<Rightarrow> string \<Rightarrow> details list \<Rightarrow> model_response" where
  "simulated provider model ms =
     response (''[Simulated '' @ provider @ ''/'' @ model @ ''] Processed '' @ str_int (int (length ms)) @ '' message(s).'')
       model provider 0 0 0 ''stop'' [] []"

record overrides =
  ov_url :: "string option"
  ov_key :: "string option"
  ov_ns :: string
  ov_user :: string

definition no_overrides :: overrides where
  "no_overrides = \<lparr>ov_url = None, ov_key = None, ov_ns = ''default'', ov_user = ''default''\<rparr>"

type_synonym call_outcome = "(sdk_error + model_response) option"

definition call_model :: "('w, 'g) router_env \<Rightarrow> string \<Rightarrow> string \<Rightarrow> details list option \<Rightarrow> overrides \<Rightarrow> 'g router \<Rightarrow> 'w scene \<Rightarrow>
    call_outcome \<times> 'g router \<times> 'w scene" where
  "call_model env provider model tools ov r s =
     (if provider \<in> set openai_compatible
      then (case lm_clock env (snd s) of
          (ke, w) \<Rightarrow>
            (case resolve_api_key (lm_secrets env) (e_now ke) (rt_managed r) (ov_key ov) (ov_ns ov) (ov_user ov) (rt_vault r) of
               (key, v) \<Rightarrow>
                 (case openai_client_for env provider (ov_url ov) key (r\<lparr>rt_vault := v\<rparr>) of
                    (None, r1) \<Rightarrow> (Some (Inr (simulated provider model (fst s))), r1, (fst s, w))
                  | (Some c, r1) \<Rightarrow> (case with_retry env (call_openai env c model tools) (fst s, w) of (x, s1) \<Rightarrow> (x, r1, s1)))))
      else (case map_of (rt_clients r) provider of
          Some (AnthropicClient k) \<Rightarrow>
            (if provider = ''anthropic''
             then (case with_retry env (call_anthropic env (AnthropicClient k) model tools) s of (x, s1) \<Rightarrow> (x, r, s1))
             else (Some (Inr (simulated provider model (fst s))), r, s))
        | Some (VertexClient p g) \<Rightarrow>
            (if provider = ''vertex'' then (case with_retry env (call_vertex env p g model tools) s of (x, s1) \<Rightarrow> (x, r, s1))
             else (Some (Inr (simulated provider model (fst s))), r, s))
        | Some (GoogleClient k) \<Rightarrow>
            (if provider = ''google'' then (case with_retry env (call_google env k model tools) s of (x, s1) \<Rightarrow> (x, r, s1))
             else (Some (Inr (simulated provider model (fst s))), r, s))
        | _ \<Rightarrow> (Some (Inr (simulated provider model (fst s))), r, s)))"

definition record_failover :: "('w, 'g) router_env \<Rightarrow> string \<Rightarrow> string \<Rightarrow> string \<Rightarrow> string \<Rightarrow> 'g router \<Rightarrow> 'w scene \<Rightarrow> 'g router \<times> 'w scene" where
  "record_failover env provider fallback model msg r s =
     (case rt_audit r of
        None \<Rightarrow> (r, s)
      | Some l \<Rightarrow> (case lm_clock env (snd s) of
          (ke, w) \<Rightarrow> (r\<lparr>rt_audit := Some (snd (audit_record (e_digest ke) (e_entry_id ke) (e_now ke) ''platform.llm_failover'' ''system''
              ''llm'' (provider @ '':'' @ model) ''pending''
              [(''from_provider'', PStr provider), (''to_provider'', PStr fallback), (''model'', PStr model), (''error'', PStr msg)] l))\<rparr>,
             (fst s, w))))"

definition call_with_failover :: "('w, 'g) router_env \<Rightarrow> string \<Rightarrow> string \<Rightarrow> details list option \<Rightarrow> string option \<Rightarrow> overrides \<Rightarrow>
    'g router \<Rightarrow> 'w scene \<Rightarrow> model_response option \<times> 'g router \<times> 'w scene" where
  "call_with_failover env provider model tools fallback ov r s =
     (case call_model env provider model tools ov r s of
        (None, r1, s1) \<Rightarrow> (None, r1, s1)
      | (Some (Inr x), r1, s1) \<Rightarrow> (Some x, r1, s1)
      | (Some (Inl e), r1, s1) \<Rightarrow>
        (case set_filter fallback of
           None \<Rightarrow> (Some (error_response (''[Error] '' @ xc_text e) model provider (xc_text e)), r1, s1)
         | Some fb \<Rightarrow>
           if fb = provider then (Some (error_response (''[Error] '' @ xc_text e) model provider (xc_text e)), r1, s1)
           else (case record_failover env provider fb model (xc_text e) r1 s1 of
               (r2, s2) \<Rightarrow>
                 (case call_model env fb model tools no_overrides r2 s2 of
                    (None, r3, s3) \<Rightarrow> (None, r3, s3)
                  | (Some (Inr x), r3, s3) \<Rightarrow> (Some x, r3, s3)
                  | (Some (Inl f), r3, s3) \<Rightarrow>
                    (let msg = ''primary='' @ xc_text e @ '' fallback='' @ xc_text f
                     in (Some (error_response (''[Error] '' @ msg) model provider msg), r3, s3))))))"

subsection \<open>Chat\<close>

record router_config = llm_config +
  rc_reasoning :: string
  rc_meta :: details

definition meta_text :: "details \<Rightarrow> string \<Rightarrow> string \<Rightarrow> string" where
  "meta_text d k dflt = py_str (dget_default d k (PStr dflt))"

definition meta_option :: "details \<Rightarrow> string \<Rightarrow> string option" where
  "meta_option d k = (case dget_default d k PNone of PStr x \<Rightarrow> set_filter (Some x) | _ \<Rightarrow> None)"

definition first_of :: "string option \<Rightarrow> string option \<Rightarrow> string option" where
  "first_of a b = (case set_filter a of Some x \<Rightarrow> Some x | None \<Rightarrow> b)"

definition overrides_of :: "router_config \<Rightarrow> overrides" where
  "overrides_of c =
     \<lparr>ov_url = first_of (cf_endpoint c) (meta_option (rc_meta c) ''base_url''),
      ov_key = first_of (cf_key_ref c) (meta_option (rc_meta c) ''api_key_ref''),
      ov_ns = meta_text (rc_meta c) ''namespace'' ''default'', ov_user = meta_text (rc_meta c) ''user_id'' ''default''\<rparr>"

definition model_event :: "router_config \<Rightarrow> cb_timing \<Rightarrow> cb_args \<Rightarrow> cb_context" where
  "model_event c t args =
     \<lparr>cx_agent = meta_text (rc_meta c) ''agent_id'' [], cx_namespace = meta_text (rc_meta c) ''namespace'' ''default'',
      cx_level = ModelLevel, cx_timing = t, cx_event = (if t = Before then ''model.chat.before'' else ''model.chat.after''),
      cx_args = args\<rparr>"

definition dicts_of :: "pyval \<Rightarrow> details list" where
  "dicts_of v = map (\<lambda>x. case x of PDict d \<Rightarrow> d | _ \<Rightarrow> []) (plist v)"

definition tools_value :: "details list option \<Rightarrow> pyval" where
  "tools_value ts = (case ts of None \<Rightarrow> PNone | Some l \<Rightarrow> PList (map PDict l))"

text \<open>What the callback before the call makes of messages and tools: a refusal, or the lists that go out. The lists that a callback
  puts in place are its own.\<close>

definition before_chat :: "('w, 'g) router_env \<Rightarrow> router_config \<Rightarrow> details list \<Rightarrow> details list option \<Rightarrow> 'w \<Rightarrow>
    (string + details list \<times> details list option) \<times> 'w" where
  "before_chat env c ms tools w =
     (case lm_callbacks env of
        None \<Rightarrow> (Inr (ms, tools), w)
      | Some run_cbs \<Rightarrow>
        (case run_cbs (model_event c Before [(''messages'', PList (map PDict ms)), (''tools'', tools_value tools)]) w of
           (a, w1) \<Rightarrow>
             if cr_decision a = DenyCall then (Inl (cr_reason a), w1)
             else if cr_decision a = Modify \<and> or_nil (cr_modified a) \<noteq> []
             then (let d = or_nil (cr_modified a)
                   in (Inr (case map_of d ''messages'' of None \<Rightarrow> ms | Some v \<Rightarrow> dicts_of v,
                            case map_of d ''tools'' of None \<Rightarrow> tools | Some PNone \<Rightarrow> None | Some v \<Rightarrow> Some (dicts_of v)), w1))
             else (Inr (ms, tools), w1)))"

definition after_chat :: "('w, 'g) router_env \<Rightarrow> router_config \<Rightarrow> model_response \<Rightarrow> 'w \<Rightarrow> model_response \<times> 'w" where
  "after_chat env c x w =
     (case lm_callbacks env of
        None \<Rightarrow> (x, w)
      | Some run_cbs \<Rightarrow>
        (case run_cbs (model_event c After [(''response'', PStr (lr_text x))]) w of
           (a, w1) \<Rightarrow>
             if cr_decision a = Modify
             then (case map_of (or_nil (cr_modified a)) ''text'' of
                 None \<Rightarrow> (x, w1)
               | Some v \<Rightarrow> (x\<lparr>lr_text := py_str v, lr_reasoning := []\<rparr>, w1))
             else (x, w1)))"

text \<open>The answer, and the history of the caller as the call leaves it.\<close>

definition chat :: "('w, 'g) router_env \<Rightarrow> router_config \<Rightarrow> details list option \<Rightarrow> 'g router \<Rightarrow> 'w scene \<Rightarrow>
    model_response option \<times> 'g router \<times> 'w scene" where
  "chat env c tools r s =
     (case before_chat env c (fst s) tools (snd s) of
        (Inl why, w) \<Rightarrow> (Some (error_response [] (cf_model c) (cf_provider c) why), r, (fst s, w))
      | (Inr (ms, ts), w) \<Rightarrow>
        (case call_with_failover env (cf_provider c) (cf_model c) ts (meta_option (rc_meta c) ''fallback_provider'') (overrides_of c) r (ms, w) of
           (x, r1, s1) \<Rightarrow>
             (let hist = (if ms = fst s then fst s1 else fst s)
              in case x of
                   None \<Rightarrow> (None, r1, (hist, snd s1))
                 | Some a \<Rightarrow> (case after_chat env c a (snd s1) of (a', w2) \<Rightarrow> (Some a', r1, (hist, w2))))))"

definition reason :: "('w, 'g) router_env \<Rightarrow> router_config \<Rightarrow> 'g router \<Rightarrow> 'w scene \<Rightarrow> model_response option \<times> 'g router \<times> 'w scene" where
  "reason env c r s =
     call_with_failover env (cf_provider c) (if rc_reasoning c = [] then cf_model c else rc_reasoning c) None
       (meta_option (rc_meta c) ''fallback_provider'') no_overrides r s"

definition available_providers :: "'g router \<Rightarrow> string list" where
  "available_providers r = (if rt_clients r = [] then [''simulated''] else dkeys (rt_clients r))"

subsection \<open>Retries\<close>

text \<open>The scene before the next attempt after \<open>k\<close> transient failures, the first of them in attempt \<open>a + 1\<close>.\<close>

primrec ready :: "('w, 'g) router_env \<Rightarrow> ('w scene \<Rightarrow> (sdk_error + 'a) \<times> 'w scene) \<Rightarrow> nat \<Rightarrow> nat \<Rightarrow> 'w scene \<Rightarrow> 'w scene option" where
  "ready env call a 0 s = Some s"
| "ready env call a (Suc k) s =
     (case call s of
        (Inl e, s1) \<Rightarrow> if is_retryable e then ready env call (Suc a) k (pause env (Suc a) s1) else None
      | (Inr x, s1) \<Rightarrow> None)"

definition conclusive :: "sdk_error + 'a \<Rightarrow> bool" where
  "conclusive x = (case x of Inl e \<Rightarrow> \<not> is_retryable e | Inr y \<Rightarrow> True)"

lemma attempts_left_iff:
  assumes "n \<le> lm_attempts env"
  shows "attempts_left env call n s = (Some x, s') \<longleftrightarrow>
    (\<exists>k<n. \<exists>t. ready env call (lm_attempts env - n) k s = Some t \<and> call t = (x, s') \<and> (conclusive x \<or> Suc k = n))"
  using assms
proof (induction n arbitrary: s)
  case (Suc n)
  obtain y s1 where c: "call s = (y, s1)" by (cases "call s")
  have a: "Suc (lm_attempts env - Suc n) = lm_attempts env - n" using Suc.prems by simp
  have split: "(\<exists>k<Suc n. P k) \<longleftrightarrow> P 0 \<or> (\<exists>k<n. P (Suc k))" for P
    by (auto simp: less_Suc_eq_0_disj)
  show ?case
  proof (cases "\<exists>e. y = Inl e \<and> is_retryable e \<and> n \<noteq> 0")
    case True
    then obtain e where e: "y = Inl e" "is_retryable e" "n \<noteq> 0" by blast
    from Suc.IH [of "pause env (lm_attempts env - n) s1"] Suc.prems
    have "attempts_left env call n (pause env (lm_attempts env - n) s1) = (Some x, s') \<longleftrightarrow>
      (\<exists>k<n. \<exists>t. ready env call (lm_attempts env - n) k (pause env (lm_attempts env - n) s1) = Some t \<and> call t = (x, s') \<and>
        (conclusive x \<or> Suc k = n))" by simp
    with e c a show ?thesis
      by (subst split) (auto simp: conclusive_def)
  next
    case False
    with c show ?thesis
      by (subst split) (auto simp: conclusive_def split: sum.splits)
  qed
qed simp

text \<open>C20. C1: A call with retries returns the result of the first attempt that is not a transient failure, or of the last attempt: exactly the
  attempt that is reached through transient failures alone, each followed by its pause.\<close>

theorem retry_returns_the_first_verdict:
  "with_retry env call s = (Some x, s') \<longleftrightarrow>
    (\<exists>k t. k < lm_attempts env \<and> ready env call 0 k s = Some t \<and> call t = (x, s') \<and> (conclusive x \<or> Suc k = lm_attempts env))"
  using attempts_left_iff [of "lm_attempts env" env call s x s'] by (auto simp: with_retry_def)

text \<open>A request raises a counter of requests by at most one, nothing else touches it.\<close>

definition counts :: "('w, 'g) router_env \<Rightarrow> ('w \<Rightarrow> nat) \<Rightarrow> bool" where
  "counts env n \<longleftrightarrow> (\<forall>c p w. n (snd (lm_anthropic env c p w)) \<le> Suc (n w)) \<and> (\<forall>c p w. n (snd (lm_openai env c p w)) \<le> Suc (n w)) \<and>
     (\<forall>u k p w. n (snd (lm_post env u k p w)) \<le> Suc (n w)) \<and> (\<forall>w. n (snd (lm_jitter env w)) = n w) \<and>
     (\<forall>d w. n (lm_sleep env d w) = n w) \<and> (\<forall>w. n (snd (lm_token env w)) = n w) \<and> (\<forall>w. n (snd (lm_clock env w)) = n w) \<and>
     (\<forall>f x w. lm_callbacks env = Some f \<longrightarrow> n (snd (f x w)) = n w)"

lemma countsD:
  assumes "counts env n"
  shows "lm_anthropic env c p w = (a, w1) \<Longrightarrow> n w1 \<le> Suc (n w)" "lm_openai env c p w = (o', w1) \<Longrightarrow> n w1 \<le> Suc (n w)"
    "lm_post env u k p w = (h, w1) \<Longrightarrow> n w1 \<le> Suc (n w)" "lm_jitter env w = (j, w1) \<Longrightarrow> n w1 = n w"
    "n (lm_sleep env d w) = n w" "lm_token env w = (t, w1) \<Longrightarrow> n w1 = n w" "lm_clock env w = (ke, w1) \<Longrightarrow> n w1 = n w"
    "lm_callbacks env = Some f \<Longrightarrow> f x w = (cb, w1) \<Longrightarrow> n w1 = n w"
  using assms unfolding counts_def by (metis snd_conv)+

definition single :: "('w \<Rightarrow> nat) \<Rightarrow> ('w scene \<Rightarrow> 'a \<times> 'w scene) \<Rightarrow> bool" where
  "single n call \<longleftrightarrow> (\<forall>s x t. call s = (x, t) \<longrightarrow> n (snd t) \<le> Suc (n (snd s)))"

lemma attempts_left_count:
  assumes "counts env n" and "single n call" and "attempts_left env call m s = (x, t)"
  shows "n (snd t) \<le> n (snd s) + m"
  using assms(3)
proof (induction m arbitrary: s)
  case (Suc m)
  obtain y s1 where c: "call s = (y, s1)" by (cases "call s")
  with assms(2) have one: "n (snd s1) \<le> Suc (n (snd s))" unfolding single_def by blast
  have p: "n (snd (pause env a s1)) = n (snd s1)" for a
    using countsD(4,5) [OF assms(1)] by (auto simp: pause_def split: prod.split)
  show ?case
  proof (cases "t = s1")
    case False
    with Suc.prems c have "attempts_left env call m (pause env (lm_attempts env - m) s1) = (x, t)"
      by (auto split: sum.splits if_splits)
    from Suc.IH [OF this] p one show ?thesis by simp
  qed (use one in simp)
qed simp

lemma with_retry_count:
  "counts env n \<Longrightarrow> single n call \<Longrightarrow> with_retry env call s = (x, t) \<Longrightarrow> n (snd t) \<le> n (snd s) + lm_attempts env"
  unfolding with_retry_def by (rule attempts_left_count)

lemma single_calls:
  assumes "counts env n"
  shows "single n (call_anthropic env c model tools)" "single n (call_openai env c model tools)"
    "single n (call_vertex env pr g model tools)" "single n (call_google env key model tools)"
proof -
  show "single n (call_anthropic env c model tools)"
    using countsD(1) [OF assms] by (auto simp: single_def call_anthropic_def split: sum.splits prod.splits)
  show "single n (call_openai env c model tools)"
    using countsD(2) [OF assms] by (auto simp: single_def call_openai_def split: sum.splits prod.splits)
  show "single n (call_google env key model tools)"
    using countsD(3) [OF assms] by (auto simp: single_def call_google_def split: sum.splits prod.splits if_splits)
  show "single n (call_vertex env pr g model tools)"
    unfolding single_def
  proof (intro allI impI)
    fix s x t assume c: "call_vertex env pr g model tools s = (x, t)"
    obtain tok w where tok: "lm_token env (snd s) = (tok, w)" by (cases "lm_token env (snd s)")
    with countsD(6) [OF assms tok] c countsD(3) [OF assms] show "n (snd t) \<le> Suc (n (snd s))"
      by (force simp: call_vertex_def split: option.splits sum.splits prod.splits if_splits)
  qed
qed

lemma call_model_count:
  assumes "counts env n" and "call_model env provider model tools ov r s = (x, r1, t)"
  shows "n (snd t) \<le> n (snd s) + lm_attempts env"
proof (cases "provider \<in> set openai_compatible")
  case True
  obtain ke w where w: "lm_clock env (snd s) = (ke, w)" by (cases "lm_clock env (snd s)")
  from countsD(7) [OF assms(1) w] have "n w = n (snd s)" .
  have retried: "n (snd t') \<le> n (snd s) + lm_attempts env"
    if "with_retry env (call_openai env c model tools) (fst s, w) = (y, t')" for c y t'
    using with_retry_count [OF assms(1) single_calls(2) [OF assms(1)] that] \<open>n w = n (snd s)\<close> by simp
  with assms(2) True w \<open>n w = n (snd s)\<close> show ?thesis
    by (auto simp: call_model_def split: prod.splits option.splits)
next
  case False
  have retried: "n (snd t') \<le> n (snd s) + lm_attempts env" if "single n call" "with_retry env call s = (y, t')" for call y t'
    using with_retry_count [OF assms(1) that] .
  note one = retried [OF single_calls(1) [OF assms(1)]] retried [OF single_calls(3) [OF assms(1)]]
    retried [OF single_calls(4) [OF assms(1)]]
  show ?thesis
  proof (cases "map_of (rt_clients r) provider")
    case None
    with assms(2) False show ?thesis by (simp add: call_model_def)
  next
    case (Some c)
    with assms(2) False one show ?thesis
      by (cases c) (auto simp: call_model_def split: prod.splits if_splits)
  qed
qed

lemma record_failover_count:
  "counts env n \<Longrightarrow> record_failover env p fb model msg r s = (r1, t) \<Longrightarrow> n (snd t) = n (snd s)"
  using countsD(7) by (fastforce simp: record_failover_def split: option.splits prod.splits)

lemma call_with_failover_count:
  assumes "counts env n" and "call_with_failover env provider model tools fallback ov r s = (x, r1, t)"
  shows "n (snd t) \<le> n (snd s) + 2 * lm_attempts env"
proof -
  obtain y r2 s2 where c: "call_model env provider model tools ov r s = (y, r2, s2)" by (metis prod_cases3)
  have one: "n (snd s2) \<le> n (snd s) + lm_attempts env" by (rule call_model_count [OF assms(1) c])
  show ?thesis
  proof (cases "t = s2")
    case False
    with assms(2) c obtain e fb where e: "y = Some (Inl e)" "set_filter fallback = Some fb" "fb \<noteq> provider"
      by (auto simp: call_with_failover_def split: option.splits sum.splits if_splits)
    obtain r3 s3 where f: "record_failover env provider fb model (xc_text e) r2 s2 = (r3, s3)" by (metis surj_pair)
    obtain z r4 s4 where c2: "call_model env fb model tools no_overrides r3 s3 = (z, r4, s4)" by (metis prod_cases3)
    have "t = s4" using assms(2) c e f c2
      by (auto simp: call_with_failover_def Let_def split: option.splits sum.splits)
    with one call_model_count [OF assms(1) c2] record_failover_count [OF assms(1) f] show ?thesis by simp
  qed (use one in simp)
qed


subsection \<open>Errors that are not retried\<close>

text \<open>C3: The retry of AI Studio goes by the words of the error text, since the router wraps every failed reply in a plain error without
  a status: an overloaded service (429, 503) is asked once, unless its reply happens to mention a timeout or a rate limit.\<close>

theorem overloaded_gemini_is_asked_once:
  assumes "0 < lm_attempts env" and "gemini_payload True ms tools = (Inr p, ms')"
    and "lm_post env (''https://generativelanguage.googleapis.com/v1beta/models/'' @ model @ '':generateContent'') key p w = (Inr h, w1)"
    and "ht_status h \<in> {408, 429, 500, 502, 503, 504}" and "\<not> mentions_timeout (xc_text (gemini_failure model h))"
  shows "with_retry env (call_google env key model tools) (ms, w) = (Some (Inl (gemini_failure model h)), (ms', w1))"
proof -
  have c: "call_google env key model tools (ms, w) = (Inl (gemini_failure model h), (ms', w1))"
    using assms(2-4) by (auto simp: call_google_def)
  have "\<not> is_retryable (gemini_failure model h)"
    using assms(5) by (simp add: is_retryable_def gemini_failure_def plain_error_def retryable_names_def)
  with c assms(1) show ?thesis by (cases "lm_attempts env") (simp_all add: with_retry_def)
qed

subsection \<open>Clients and keys\<close>

lemma set_filter_simps [simp]: "set_filter None = None" "set_filter (Some []) = None" "x \<noteq> [] \<Longrightarrow> set_filter (Some x) = Some x"
  by (simp_all add: set_filter_def)

text \<open>C9. C4: A call to an OpenAI-compatible provider goes to the address that the definition of the agent names; when the agent brings no key of
  its own, it carries the key of the platform for that provider there.\<close>

theorem platform_key_goes_to_the_agents_address:
  assumes "cf_provider c \<in> set openai_compatible" and "cf_endpoint c = Some u" and "u \<noteq> []" and "ov_key (overrides_of c) = None"
    and "map_of (rt_keys r) (cf_provider c) = Some k" and "k \<noteq> []" and "lm_has_openai env"
    and "map_of (rt_clients r) (client_key env (cf_provider c) (Some u) k) = None" and "lm_clock env (snd s) = (ke, w)"
  shows "\<exists>r1. call_model env (cf_provider c) model tools (overrides_of c) r s =
    (case with_retry env (call_openai env (OpenAiClient (Some u) k) model tools) (fst s, w) of (x, s1) \<Rightarrow> (x, r1, s1))"
proof -
  have u: "ov_url (overrides_of c) = Some u" using assms(2,3) by (simp add: overrides_of_def first_of_def)
  have "resolve_api_key (lm_secrets env) (e_now ke) (rt_managed r) None (ov_ns (overrides_of c)) (ov_user (overrides_of c)) (rt_vault r) =
      (None, rt_vault r)" by (simp add: resolve_api_key_def non_empty_def)
  moreover have "openai_client_for env (cf_provider c) (Some u) None (r\<lparr>rt_vault := rt_vault r\<rparr>) =
      (Some (OpenAiClient (Some u) k), r\<lparr>rt_clients := dset (client_key env (cf_provider c) (Some u) k) (OpenAiClient (Some u) k) (rt_clients r)\<rparr>)"
    using assms(3,5-8) by (simp add: openai_client_for_def effective_url_def effective_key_def or_empty_def Let_def)
  ultimately show ?thesis using assms(1,4,9) u by (simp add: call_model_def split: prod.split)
qed

text \<open>The clients that were built for overrides are found under their own address and key.\<close>

definition plain_names :: "string list" where
  "plain_names = [''anthropic'', ''openai'', ''atlas'', ''vertex'', ''google'', ''vllm'']"

definition well_placed :: "('w, 'g) router_env \<Rightarrow> (string, client) dict \<Rightarrow> bool" where
  "well_placed env d \<longleftrightarrow> (\<forall>ck c. map_of d ck = Some c \<longrightarrow> ck \<in> set plain_names \<or>
     (\<exists>p u k. p \<in> set openai_compatible \<and> c = OpenAiClient u k \<and> ck = client_key env p u k))"

type_synonym lookup = "string \<times> string option \<times> string option"

definition lookup_step :: "('w, 'g) router_env \<Rightarrow> lookup \<Rightarrow> 'g router \<Rightarrow> 'g router" where
  "lookup_step env l r = (if fst l \<in> set openai_compatible then snd (openai_client_for env (fst l) (fst (snd l)) (snd (snd l)) r) else r)"

lemma well_placed_dset_plain: "well_placed env d \<Longrightarrow> p \<in> set plain_names \<Longrightarrow> well_placed env (dset p c d)"
  by (simp add: well_placed_def)

lemma boot_client_plain: "boot_client env p k = Some c \<Longrightarrow> p \<in> set plain_names"
  by (auto simp: boot_client_def plain_names_def split: if_splits)

lemma init_clients_well_placed: "well_placed env (init_clients env keys)"
proof -
  have step: "well_placed env (add_boot_client env pk d)" if "well_placed env d" for pk d
    using that boot_client_plain by (auto simp: add_boot_client_def intro!: well_placed_dset_plain split: option.splits)
  have "well_placed env (fold (add_boot_client env) keys d)" if "well_placed env d" for d
    using that by (induction keys arbitrary: d) (auto intro: step)
  moreover have "well_placed env []" by (simp add: well_placed_def)
  moreover have "''vllm'' \<in> set plain_names" by (simp add: plain_names_def)
  ultimately show ?thesis by (auto simp: init_clients_def Let_def intro!: well_placed_dset_plain)
qed

lemma lookup_step_well_placed:
  assumes "well_placed env (rt_clients r)"
  shows "well_placed env (rt_clients (lookup_step env l r))"
proof (cases l)
  case (fields p base key)
  then show ?thesis using assms
    by (auto simp: lookup_step_def openai_client_for_def Let_def well_placed_def split: option.splits)
qed

lemma lookups_well_placed:
  "well_placed env (rt_clients r) \<Longrightarrow> well_placed env (rt_clients (fold (lookup_step env) ls r))"
  by (induction ls arbitrary: r) (auto intro: lookup_step_well_placed)

lemma openai_compatible_colon: "p \<in> set openai_compatible \<Longrightarrow> CHR '':'' \<notin> set p"
  by (auto simp: openai_compatible_def)

lemma client_key_plain: "p \<in> set openai_compatible \<Longrightarrow> client_key env p u k \<notin> set plain_names"
  by (auto simp: openai_compatible_def plain_names_def client_key_def)

lemma client_key_eq:
  assumes "client_key env p u k = client_key env p' u' k'" and "p \<in> set openai_compatible" and "p' \<in> set openai_compatible"
    and "\<And>x. length (lm_fingerprint env x) = 12"
  shows "(case u of None \<Rightarrow> ''default'' | Some x \<Rightarrow> x) = (case u' of None \<Rightarrow> ''default'' | Some x \<Rightarrow> x) \<and>
    lm_fingerprint env k = lm_fingerprint env k'"
proof -
  have cut: "takeWhile (\<lambda>c. c \<noteq> CHR '':'') (client_key env q v x) = q" if "q \<in> set openai_compatible" for q v x
    using openai_compatible_colon [OF that] by (induction q) (auto simp: client_key_def)
  from cut [OF assms(2), of u k] cut [OF assms(3), of u' k'] assms(1) have "p = p'" by simp
  with assms(1) have "(case u of None \<Rightarrow> ''default'' | Some x \<Rightarrow> x) @ ''::'' @ lm_fingerprint env k =
      (case u' of None \<Rightarrow> ''default'' | Some x \<Rightarrow> x) @ ''::'' @ lm_fingerprint env k'"
    by (simp add: client_key_def)
  moreover have "length (''::'' @ lm_fingerprint env k) = length (''::'' @ lm_fingerprint env k')" using assms(4) by simp
  ultimately show ?thesis by (metis append_eq_append_conv same_append_eq)
qed

text \<open>C17. C5: Whatever clients were built before for other agents, a call with an address or key of its own gets a client with exactly its
  effective address and key, as long as the fingerprints of its key and of the cached keys do not collide and no address is the
  word ''default''.\<close>

theorem clients_are_never_shared_across_agents:
  assumes "rt_clients r0 = init_clients env keys" and "r = fold (lookup_step env) ls r0"
    and "provider \<in> set openai_compatible" and "set_filter base \<noteq> None \<or> set_filter key \<noteq> None"
    and "openai_client_for env provider base key r = (Some c, r1)"
    and "\<forall>x. length (lm_fingerprint env x) = 12"
    and "\<forall>u k. OpenAiClient u k \<in> set (dvals (rt_clients r)) \<longrightarrow> u \<noteq> Some ''default'' \<and>
      (lm_fingerprint env k = lm_fingerprint env (effective_key provider key r) \<longrightarrow> k = effective_key provider key r)"
    and "effective_url env provider base r \<noteq> Some ''default''"
  shows "c = OpenAiClient (effective_url env provider base r) (effective_key provider key r)"
proof (cases "map_of (rt_clients r) (client_key env provider (effective_url env provider base r) (effective_key provider key r))")
  case None
  with assms(4,5) show ?thesis by (auto simp: openai_client_for_def Let_def split: if_splits)
next
  case (Some c')
  with assms(4,5) have "c' = c" by (auto simp: openai_client_for_def Let_def split: if_splits)
  have "well_placed env (rt_clients r)"
    using assms(1,2) init_clients_well_placed lookups_well_placed by metis
  with Some client_key_plain [OF assms(3)] obtain p u k where p: "p \<in> set openai_compatible" and c': "c' = OpenAiClient u k"
    and ck: "client_key env provider (effective_url env provider base r) (effective_key provider key r) = client_key env p u k"
    unfolding well_placed_def by blast
  from client_key_eq [OF ck assms(3) p] assms(6)
  have same: "(case effective_url env provider base r of None \<Rightarrow> ''default'' | Some x \<Rightarrow> x) = (case u of None \<Rightarrow> ''default'' | Some x \<Rightarrow> x)"
    "lm_fingerprint env (effective_key provider key r) = lm_fingerprint env k" by simp_all
  have "c' \<in> set (dvals (rt_clients r))" using map_of_SomeD [OF Some] by force
  with assms(7) c' have "u \<noteq> Some ''default''"
    "lm_fingerprint env k = lm_fingerprint env (effective_key provider key r) \<longrightarrow> k = effective_key provider key r" by blast+
  with same assms(8) have "u = effective_url env provider base r" "k = effective_key provider key r"
    by (auto split: option.splits)
  with c' \<open>c' = c\<close> show ?thesis by simp
qed

subsection \<open>Missing clients\<close>

text \<open>C40. C6: A provider for which the platform has no client answers all the same: the agent gets a made-up text that is no error, so the
  model appears to have answered.\<close>

theorem missing_client_answers_as_if_it_worked:
  assumes "lm_callbacks env = None" and "map_of (rt_clients r) (cf_provider c) = None"
    and "ov_url (overrides_of c) = None" and "ov_key (overrides_of c) = None"
  shows "\<exists>a r1 s1. chat env c tools r s = (Some a, r1, s1) \<and> lr_error a = None \<and> lr_calls a = [] \<and>
    starts_with ''[Simulated '' (lr_text a) \<and> fst s1 = fst s"
proof -
  have none: "resolve_api_key (lm_secrets env) now managed None ns user v = (None, v)" for now managed ns user v
    by (simp add: resolve_api_key_def non_empty_def)
  have "\<exists>r1 w. call_model env (cf_provider c) (cf_model c) tools (overrides_of c) r s =
      (Some (Inr (simulated (cf_provider c) (cf_model c) (fst s))), r1, (fst s, w))"
    using assms(2-4) by (cases s) (auto simp: call_model_def none openai_client_for_def split: prod.splits)
  then obtain r1 w where "call_model env (cf_provider c) (cf_model c) tools (overrides_of c) r s =
      (Some (Inr (simulated (cf_provider c) (cf_model c) (fst s))), r1, (fst s, w))" by blast
  then have "chat env c tools r s = (Some (simulated (cf_provider c) (cf_model c) (fst s)), r1, (fst s, w))"
    using assms(1) by (cases s) (simp add: chat_def before_chat_def after_chat_def call_with_failover_def Let_def)
  then show ?thesis by (simp add: simulated_def response_def starts_with_def)
qed

subsection \<open>A router with one configured key\<close>

text \<open>The world counts the requests; OpenAI times out once, Gemini is overloaded.\<close>

definition demo_lm :: "(nat, unit) router_env" where
  "demo_lm = \<lparr>lm_attempts = 3, lm_base = 1, lm_max = 30, lm_jitter = (\<lambda>w. (0, w)), lm_sleep = (\<lambda>d w. w),
     lm_anthropic = (\<lambda>c p w. (Inl (plain_error ''APITimeoutError'' ''slow''), Suc w)),
     lm_openai = (\<lambda>c p w. (if w = 0 then Inl (plain_error ''APITimeoutError'' ''slow'') else Inr \<lparr>op_choices = [], op_usage = None\<rparr>, Suc w)),
     lm_token = (\<lambda>w. (Some ''t'', w)),
     lm_post = (\<lambda>u k p w. (Inr \<lparr>ht_status = 503, ht_text = ''overloaded'', ht_json = None\<rparr>, Suc w)),
     lm_status_error = (\<lambda>h. plain_error ''HTTPStatusError'' (ht_text h)), lm_max_tokens = 65536, lm_has_openai = True,
     lm_has_anthropic = True, lm_base_url = (\<lambda>c. ''https://api.openai.com/v1/''),
     lm_fingerprint = (\<lambda>k. take 12 (k @ replicate 12 (CHR ''0''))), lm_secrets = demo_secret_env, lm_callbacks = None,
     lm_clock = (\<lambda>w. (demo_env, w))\<rparr>"

definition demo_keys :: "(string, string) dict" where
  "demo_keys = [(''openai'', ''platform'')]"

definition demo_router :: "unit router" where
  "demo_router = \<lparr>rt_clients = init_clients demo_lm demo_keys, rt_keys = demo_keys, rt_managed = False, rt_vault = demo_vault,
     rt_audit = None\<rparr>"

definition demo_config :: "string \<Rightarrow> string option \<Rightarrow> router_config" where
  "demo_config provider url = \<lparr>cf_model = ''m'', cf_provider = provider, cf_endpoint = url, cf_key_ref = None, rc_reasoning = [],
     rc_meta = []\<rparr>"

lemma demo_clients: "rt_clients demo_router = [(''openai'', OpenAiClient None ''platform'')]"
  by (simp add: demo_router_def init_clients_def demo_keys_def add_boot_client_def boot_client_def demo_lm_def env_var_def Let_def)


lemma overloaded_gemini_is_asked_once_witness:
  "\<exists>ms e. with_retry demo_lm (call_google demo_lm ''key'' ''g'' None) ([], 0) = (Some (Inl e), (ms, 1))"
proof -
  let ?h = "\<lparr>ht_status = 503, ht_text = ''overloaded'', ht_json = None\<rparr>"
  have "\<exists>p ms'. gemini_payload True [] None = (Inr p, ms')"
    by (simp add: gemini_payload_def gemini_contents_def turns_of_def gemini_tools_def or_nil_def Let_def)
  then obtain p ms' where p: "gemini_payload True [] None = (Inr p, ms')" by blast
  have post: "lm_post demo_lm (''https://generativelanguage.googleapis.com/v1beta/models/'' @ ''g'' @ '':generateContent'') ''key'' p 0 = (Inr ?h, 1)"
    by (simp add: demo_lm_def)
  have "\<not> mentions_timeout (xc_text (gemini_failure ''g'' ?h))" by code_simp
  with overloaded_gemini_is_asked_once [OF _ p post] show ?thesis by (auto simp: demo_lm_def)
qed

lemma platform_key_goes_to_the_agents_address_witness:
  "\<exists>r1. call_model demo_lm ''openai'' ''m'' None (overrides_of (demo_config ''openai'' (Some ''http://evil''))) demo_router ([], 0) =
    (case with_retry demo_lm (call_openai demo_lm (OpenAiClient (Some ''http://evil'') ''platform'') ''m'' None) ([], 0) of (x, s1) \<Rightarrow> (x, r1, s1))"
proof -
  let ?c = "demo_config ''openai'' (Some ''http://evil'')"
  have c: "cf_provider ?c = ''openai''" "cf_endpoint ?c = Some ''http://evil''" "ov_key (overrides_of ?c) = None"
    by (simp_all add: demo_config_def overrides_of_def first_of_def meta_option_def)
  have k: "map_of (rt_keys demo_router) ''openai'' = Some ''platform''" by (simp add: demo_router_def demo_keys_def)
  have fresh: "map_of (rt_clients demo_router) (client_key demo_lm ''openai'' (Some ''http://evil'') ''platform'') = None"
    by (simp add: demo_clients client_key_def)
  have prems: "cf_provider ?c \<in> set openai_compatible" "''http://evil'' \<noteq> []" "''platform'' \<noteq> []" "lm_has_openai demo_lm"
    "map_of (rt_keys demo_router) (cf_provider ?c) = Some ''platform''"
    "map_of (rt_clients demo_router) (client_key demo_lm (cf_provider ?c) (Some ''http://evil'') ''platform'') = None"
    "lm_clock demo_lm (snd ([], 0)) = (demo_env, 0)"
    using c k fresh by (simp_all add: openai_compatible_def demo_lm_def)
  from platform_key_goes_to_the_agents_address [OF prems(1) c(2) prems(2) c(3) prems(5) prems(3,4,6,7), of "''m''" None]
  show ?thesis by (simp add: c(1))
qed

lemma clients_are_never_shared_across_agents_witness:
  "fst (openai_client_for demo_lm ''openai'' (Some ''http://a'') None
      (fold (lookup_step demo_lm) [(''openai'', Some ''http://b'', Some ''other'')] demo_router)) = Some (OpenAiClient (Some ''http://a'') ''platform'')"
proof -
  let ?r = "fold (lookup_step demo_lm) [(''openai'', Some ''http://b'', Some ''other'')] demo_router"
  have cs: "rt_clients ?r = [(''openai'', OpenAiClient None ''platform''),
      (client_key demo_lm ''openai'' (Some ''http://b'') ''other'', OpenAiClient (Some ''http://b'') ''other'')]"
    and ks: "rt_keys ?r = demo_keys"
    by (simp_all add: lookup_step_def openai_compatible_def openai_client_for_def demo_clients effective_url_def effective_key_def Let_def
        client_key_def) (simp_all add: demo_lm_def demo_router_def)
  have u: "effective_url demo_lm ''openai'' (Some ''http://a'') ?r = Some ''http://a''" by (simp add: effective_url_def)
  have k: "effective_key ''openai'' None ?r = ''platform''" unfolding effective_key_def ks by (simp add: demo_keys_def or_empty_def)
  have fp: "\<forall>x. length (lm_fingerprint demo_lm x) = 12" by (auto simp: demo_lm_def min_def)
  have other: "lm_fingerprint demo_lm ''other'' \<noteq> lm_fingerprint demo_lm ''platform''" by (simp add: demo_lm_def)
  have openai: "lm_has_openai demo_lm" by (simp add: demo_lm_def)
  obtain c r1 where get: "openai_client_for demo_lm ''openai'' (Some ''http://a'') None ?r = (Some c, r1)"
    using openai by (cases "map_of (rt_clients ?r) (client_key demo_lm ''openai'' (effective_url demo_lm ''openai'' (Some ''http://a'') ?r)
      (effective_key ''openai'' None ?r))") (simp_all add: openai_client_for_def Let_def)
  have "c = OpenAiClient (effective_url demo_lm ''openai'' (Some ''http://a'') ?r) (effective_key ''openai'' None ?r)"
  proof (rule clients_are_never_shared_across_agents [OF _ refl _ _ get fp])
    show "rt_clients demo_router = init_clients demo_lm demo_keys" by (simp add: demo_router_def)
    show "''openai'' \<in> set openai_compatible" by (simp add: openai_compatible_def)
    show "set_filter (Some ''http://a'') \<noteq> None \<or> set_filter None \<noteq> None" by simp
    show "effective_url demo_lm ''openai'' (Some ''http://a'') ?r \<noteq> Some ''default''" using u by simp
    show "\<forall>u k. OpenAiClient u k \<in> set (dvals (rt_clients ?r)) \<longrightarrow> u \<noteq> Some ''default'' \<and>
        (lm_fingerprint demo_lm k = lm_fingerprint demo_lm (effective_key ''openai'' None ?r) \<longrightarrow> k = effective_key ''openai'' None ?r)"
      unfolding cs k using other by auto
  qed
  with get u k show ?thesis by simp
qed

lemma missing_client_answers_as_if_it_worked_witness:
  "\<exists>a r1 s1. chat demo_lm (demo_config ''mistral'' None) None demo_router ([], 0) = (Some a, r1, s1) \<and> lr_error a = None \<and>
    lr_calls a = [] \<and> starts_with ''[Simulated '' (lr_text a) \<and> fst s1 = []"
proof -
  let ?c = "demo_config ''mistral'' None"
  have n: "lm_callbacks demo_lm = None" by (simp add: demo_lm_def)
  have c: "ov_url (overrides_of ?c) = None" "ov_key (overrides_of ?c) = None"
    by (simp_all add: demo_config_def overrides_of_def first_of_def meta_option_def)
  have "map_of (rt_clients demo_router) (cf_provider ?c) = None" by (simp add: demo_clients demo_config_def)
  from missing_client_answers_as_if_it_worked [where s = "([], 0)" and tools = None, OF n this c] show ?thesis by simp
qed

end
