(* ===== verification/Teams.thy ===== *)
theory Teams
  imports ExecutorRuns
begin

text \<open>
  Teams of agents (\<open>deploy_team\<close>, \<open>undeploy_team\<close> and their helpers in \<open>src/src/platform/executor.py\<close>): the definition of a
  member from the team's defaults, the lists of who may call whom, and the deployment of the members one by one. The sections of a
  member (\<open>_capabilities\<close>, \<open>_boundaries\<close>) stay in its metadata here; the ids are arguments.
\<close>

record team_member =
  mb_name :: string
  mb_role :: string
  mb_stack :: "string option"
  mb_execution :: "execution_type option"
  mb_llm :: "llm_config option"
  mb_tools :: "string list"
  mb_prompt :: string
  mb_schedule :: "string option"
  mb_triggers :: "string list"
  mb_goal :: string
  mb_boundaries :: "pyval option"
  mb_metadata :: "(string \<times> pyval) list"

datatype orchestration = Supervised | Parallel | Sequential | Mesh

record team =
  tm_name :: string
  tm_ns :: string
  tm_orchestration :: orchestration
  tm_members :: "team_member list"
  tm_stack :: string
  tm_llm :: "llm_config option"
  tm_boundaries :: "pyval option"
  tm_shared_tools :: "string list option"

subsection \<open>Members\<close>

text \<open>The model and the provider are taken over; the endpoint and the key of the configuration are not.\<close>

definition member_llm :: "team \<Rightarrow> team_member \<Rightarrow> llm_config" where
  "member_llm t m =
     (case (case mb_llm m of Some l \<Rightarrow> Some l | None \<Rightarrow> tm_llm t) of
        None \<Rightarrow> default_llm
      | Some l \<Rightarrow> \<lparr>cf_model = cf_model l, cf_provider = cf_provider l, cf_endpoint = None, cf_key_ref = None\<rparr>)"

definition add_tool :: "string \<Rightarrow> string list \<Rightarrow> string list" where
  "add_tool x ts = (if x \<in> set ts then ts else ts @ [x])"

definition member_metadata :: "team \<Rightarrow> team_member \<Rightarrow> (string \<times> pyval) list" where
  "member_metadata t m =
     (let d = dset ''_namespace'' (PStr (tm_ns t)) (dset ''_team_role'' (PStr (mb_role m)) (dset ''_team'' (PStr (tm_name t)) (mb_metadata m)))
      in case mb_boundaries m of
           Some b \<Rightarrow> dset ''_boundaries'' b d
         | None \<Rightarrow> (case tm_boundaries t of Some b \<Rightarrow> dset ''_boundaries'' b d | None \<Rightarrow> d))"

definition build_agent_from_team :: "string \<Rightarrow> team \<Rightarrow> team_member \<Rightarrow> agent_def" where
  "build_agent_from_team fresh t m =
     \<lparr>a_id = fresh, a_name = mb_name m, a_namespace = tm_ns t, a_stack = text_or (mb_stack m) (text_or (Some (tm_stack t)) ''forgeos''),
      a_execution = (case mb_execution m of None \<Rightarrow> Reflex | Some x \<Rightarrow> x), a_ownership = Shared, a_owner = None, a_department = [],
      a_tools = fold add_tool (or_nil (tm_shared_tools t)) (mb_tools m), a_tenant = None, a_capabilities = None, a_boundaries = None,
      a_governance = None, a_llm = member_llm t m, a_schedule = mb_schedule m, a_triggers = mb_triggers m, a_goal = Some (mb_goal m),
      a_prompt = mb_prompt m, a_description = [], a_config_path = [], a_metadata = member_metadata t m\<rparr>"

subsection \<open>Who may call whom\<close>

definition peers :: "string \<Rightarrow> string list \<Rightarrow> pyval" where
  "peers ns who = PList [PDict [(''namespace'', PStr ns), (''agents'', PList (map PStr who))]]"

definition dict_entry :: "(string \<times> pyval) list \<Rightarrow> string \<Rightarrow> (string \<times> pyval) list" where
  "dict_entry d k = (case dget_default d k (PDict []) of PDict e \<Rightarrow> e | _ \<Rightarrow> [])"

definition team_a2a :: "team \<Rightarrow> nat \<Rightarrow> (string \<times> pyval) list \<Rightarrow> (string \<times> pyval) list" where
  "team_a2a t i a2a =
     (let m = tm_members t ! i; who = map mb_name (tm_members t); others = filter (\<lambda>n. n \<noteq> mb_name m) who; ns = tm_ns t
      in case tm_orchestration t of
           Supervised \<Rightarrow>
             if mb_role m = ''supervisor'' then dset ''canCall'' (peers ns others) a2a
             else dset ''canBeCalledBy'' (peers ns (map mb_name (filter (\<lambda>x. mb_role x = ''supervisor'') (tm_members t)))) a2a
         | Sequential \<Rightarrow>
             (let a1 = (if i < length who - 1 then dset ''canCall'' (peers ns [who ! (i + 1)]) a2a else a2a)
              in if 0 < i then dset ''canBeCalledBy'' (peers ns [who ! (i - 1)]) a1 else a1)
         | Mesh \<Rightarrow> dset ''canBeCalledBy'' (peers ns others) (dset ''canCall'' (peers ns others) a2a)
         | Parallel \<Rightarrow> a2a)"

definition wire_team_a2a :: "team \<Rightarrow> nat \<Rightarrow> agent_def \<Rightarrow> agent_def" where
  "wire_team_a2a t i a =
     (let caps = dict_entry (a_metadata a) ''_capabilities''; a2a = team_a2a t i (dict_entry caps ''a2a'')
      in a\<lparr>a_metadata := dset ''_capabilities'' (PDict (dset ''a2a'' (PDict a2a) caps)) (a_metadata a)\<rparr>)"

definition team_agent :: "team \<Rightarrow> nat \<Rightarrow> string \<Rightarrow> agent_def" where
  "team_agent t i fresh = wire_team_a2a t i (build_agent_from_team fresh t (tm_members t ! i))"

subsection \<open>Deployment\<close>

definition set_parent :: "string \<Rightarrow> string \<Rightarrow> 'w platform \<Rightarrow> 'w platform" where
  "set_parent k parent s = s\<lparr>pf_table := (pf_table s)\<lparr>processes :=
     dmod k (\<lambda>p. p\<lparr>ident := (ident p)\<lparr>parent_pid := Some parent\<rparr>\<rparr>) (processes (pf_table s))\<rparr>\<rparr>"

text \<open>The supervisor so far is \<open>None\<close> until its turn has come.\<close>

primrec deploy_members :: "'w xenv \<Rightarrow> team \<Rightarrow> (nat \<times> string) list \<Rightarrow> string list \<Rightarrow> string option \<Rightarrow> ('w, string list) awaited" where
  "deploy_members env t [] ids chief s = (Inr ids, s)"
| "deploy_members env t (x # xs) ids chief s =
     (case deploy env (team_agent t (fst x) (snd x)) s of
        (Inl h, s1) \<Rightarrow> (Inl h, s1)
      | (Inr k, s1) \<Rightarrow>
        (let boss = (tm_orchestration t = Supervised \<and> mb_role (tm_members t ! fst x) = ''supervisor'');
             chief' = (if boss then Some k else chief);
             s2 = (if tm_orchestration t = Supervised \<and> \<not> boss
                   then (case chief' of None \<Rightarrow> s1 | Some p \<Rightarrow> set_parent k p s1) else s1)
         in deploy_members env t xs (ids @ [k]) chief' s2))"

definition deploy_team :: "'w xenv \<Rightarrow> team \<Rightarrow> string list \<Rightarrow> ('w, string list) awaited" where
  "deploy_team env t fresh = deploy_members env t (zip [0..<length (tm_members t)] fresh) [] None"

definition in_team :: "string \<Rightarrow> string \<Rightarrow> agent_def \<Rightarrow> bool" where
  "in_team nm ns a \<longleftrightarrow> meta a ''_team'' PNone = PStr nm \<and> a_namespace a = ns"

primrec stop_members :: "'w xenv \<Rightarrow> agent_def list \<Rightarrow> nat \<Rightarrow> ('w, nat) awaited" where
  "stop_members env [] n s = (Inr n, s)"
| "stop_members env (a # as) n s =
     (case stop_agent env (a_id a) s of
        (Inl Cancelled, s1) \<Rightarrow> (Inl Cancelled, s1)
      | (Inl (Exc e), s1) \<Rightarrow> stop_members env as n s1
      | (Inr _, s1) \<Rightarrow> stop_members env as (n + 1) s1)"

definition undeploy_team :: "'w xenv \<Rightarrow> string \<Rightarrow> string \<Rightarrow> ('w, nat) awaited" where
  "undeploy_team env nm ns s = stop_members env (filter (in_team nm ns) (reg_list_all (pf_registry s))) 0 s"

subsection \<open>The lists agree\<close>

text \<open>The names in the first entry of a list of peers of this namespace.\<close>

definition peer_names :: "string \<Rightarrow> agent_def \<Rightarrow> string list" where
  "peer_names k a = (case map_of (dict_entry (dict_entry (a_metadata a) ''_capabilities'') ''a2a'') k of
     Some (PList [PDict d]) \<Rightarrow> (case map_of d ''agents'' of Some (PList ns) \<Rightarrow> map py_str ns | _ \<Rightarrow> []) | _ \<Rightarrow> [])"

lemma peer_names_team:
  assumes "map_of (mb_metadata (tm_members t ! i)) ''_capabilities'' = None"
  shows "peer_names k (team_agent t i f) = (case map_of (team_a2a t i []) k of
     Some (PList [PDict d]) \<Rightarrow> (case map_of d ''agents'' of Some (PList ns) \<Rightarrow> map py_str ns | _ \<Rightarrow> []) | _ \<Rightarrow> [])"
proof -
  have "map_of (a_metadata (build_agent_from_team f t (tm_members t ! i))) ''_capabilities'' = None"
    using assms by (simp add: build_agent_from_team_def member_metadata_def Let_def split: option.split)
  then show ?thesis by (simp add: peer_names_def team_agent_def wire_team_a2a_def dict_entry_def Let_def dget_default_def)
qed

lemma peer_text [simp]: "py_str (PStr x) = x" "py_str ` PStr ` A = A"
  by (simp_all add: py_str_def image_image)


subsection \<open>Undeploying\<close>

lemma stop_agent_agents:
  assumes "quiet_env env"
  shows "r_agents (pf_registry (snd (stop_agent env k s))) = r_agents (pf_registry s)"
proof (cases "reg_get (pf_registry s) k")
  case None
  then show ?thesis by (simp add: stop_agent_def)
next
  case (Some a)
  obtain x w where x: "(case map_of (xv_adapters env) (a_stack a) of None \<Rightarrow> (Inr (), s) | Some ad \<Rightarrow> ad_stop ad k s) =
      (x, s\<lparr>pf_world := w\<rparr>)"
  proof (cases "map_of (xv_adapters env) (a_stack a)")
    case None
    have "s = s\<lparr>pf_world := pf_world s\<rparr>" by simp
    with None that [of "Inr ()" "pf_world s"] show ?thesis by simp
  next
    case (Some ad)
    with assms have "quiet (ad_stop ad k)" by (auto simp: quiet_env_def quiet_adapter_def)
    from quietE [OF this, of s] Some that show ?thesis by (metis option.simps(5))
  qed
  have set: "r_agents (pf_registry (set_status k st u)) = r_agents (pf_registry u)" for st u
    by (simp add: set_status_def reg_set_status_def)
  have drop: "r_agents (pf_registry (drop_checkpoint k u)) = r_agents (pf_registry u)"
    "r_agents (pf_registry (auto_drop k u)) = r_agents (pf_registry u)" for u
    by (simp_all add: drop_checkpoint_def auto_drop_def)
  show ?thesis
    by (cases x) (simp_all add: stop_agent_def Some x Let_def set drop)
qed

lemma stop_members_agents:
  "quiet_env env \<Longrightarrow> r_agents (pf_registry (snd (stop_members env as n s))) = r_agents (pf_registry s)"
proof (induction as arbitrary: n s)
  case (Cons a as)
  obtain x s1 where x: "stop_agent env (a_id a) s = (x, s1)" by fastforce
  with stop_agent_agents [OF Cons.prems, of "a_id a" s] have "r_agents (pf_registry s1) = r_agents (pf_registry s)" by simp
  with Cons.IH [OF Cons.prems, of _ s1] x show ?case by (simp split: sum.split halt.split)
qed simp

text \<open>C37. C2: Undeploying a team stops its members but leaves them registered, so their names stay taken: deploying the team again
  fails at the first member, with nothing done.\<close>

theorem undeployed_team_cannot_be_redeployed:
  assumes "quiet_env env" and "tm_members t = m # ms" and "fresh \<noteq> []"
    and "b \<in> set (reg_list_all (pf_registry s))" and "a_name b = mb_name m" and "a_namespace b = tm_ns t"
    and "undeploy_team env (tm_name t) (tm_ns t) s = (x, s')"
  shows "deploy_team env t fresh s' = (Inl (Exc ValueError), s')"
proof -
  from stop_members_agents [OF assms(1)] assms(7) have "r_agents (pf_registry s') = r_agents (pf_registry s)"
    by (metis undeploy_team_def snd_conv)
  with assms(4) have "b \<in> set (reg_list_all (pf_registry s'))" by (simp add: reg_list_all_def)
  moreover have "a_name (team_agent t 0 f) = mb_name m" "a_namespace (team_agent t 0 f) = tm_ns t" for f
    using assms(2) by (simp_all add: team_agent_def wire_team_a2a_def build_agent_from_team_def Let_def)
  ultimately have "name_taken (team_agent t 0 f) s'" for f
    using assms(5,6) by (auto simp: name_taken_def list_ex_iff)
  then have "deploy env (team_agent t 0 f) s' = (Inl (Exc ValueError), s')" for f by (simp add: deploy_def)
  moreover obtain f fs where "fresh = f # fs" using assms(3) by (cases fresh) auto
  moreover obtain rest where "[0..<length (tm_members t)] = 0 # rest"
    using assms(2) upt_conv_Cons [of 0 "length (tm_members t)"] by auto
  ultimately show ?thesis by (simp add: deploy_team_def)
qed

subsection \<open>A team of three\<close>

definition demo_member :: "string \<Rightarrow> string \<Rightarrow> team_member" where
  "demo_member nm role = \<lparr>mb_name = nm, mb_role = role, mb_stack = Some ''demo'', mb_execution = None, mb_llm = None, mb_tools = [],
     mb_prompt = ''work'', mb_schedule = None, mb_triggers = [], mb_goal = [], mb_boundaries = None, mb_metadata = []\<rparr>"

definition demo_team :: "orchestration \<Rightarrow> team" where
  "demo_team w = \<lparr>tm_name = ''crew'', tm_ns = ''ops'', tm_orchestration = w, tm_members = [demo_member ''ann'' ''supervisor'',
     demo_member ''bob'' ''worker'', demo_member ''eve'' ''worker''], tm_stack = ''forgeos'', tm_llm = None, tm_boundaries = None,
     tm_shared_tools = None\<rparr>"

text \<open>An executor whose stack takes every member.\<close>

definition crew_executor :: "nat xenv" where
  "crew_executor = demo_executor\<lparr>xv_adapters := [(''demo'', demo_stack\<lparr>ad_create := (\<lambda>a s. (Inr (), s))\<rparr>)]\<rparr>"

lemma crew_executor_quiet: "quiet_env crew_executor"
proof -
  have "\<exists>w. s = s\<lparr>pf_world := w\<rparr>" for s :: "nat platform" by (rule exI [of _ "pf_world s"]) simp
  then show ?thesis by (auto simp: quiet_env_def quiet_adapter_def quiet_def crew_executor_def demo_executor_def demo_stack_def)
qed


lemma undeployed_team_cannot_be_redeployed_witness:
  "\<exists>s ks x s'. deploy_team crew_executor (demo_team Sequential) [''x'', ''y'', ''z''] demo_empty_platform = (Inr ks, s) \<and> ks = [''x'', ''y'', ''z''] \<and>
     undeploy_team crew_executor ''crew'' ''ops'' s = (x, s') \<and>
     deploy_team crew_executor (demo_team Sequential) [''u'', ''v'', ''w''] s' = (Inl (Exc ValueError), s')"
proof -
  obtain r s where r: "deploy_team crew_executor (demo_team Sequential) [''x'', ''y'', ''z''] demo_empty_platform = (r, s)" by fastforce
  have "fst (deploy_team crew_executor (demo_team Sequential) [''x'', ''y'', ''z''] demo_empty_platform) = Inr [''x'', ''y'', ''z'']"
    and "map (\<lambda>b. (a_name b, a_namespace b)) (reg_list_all (pf_registry
      (snd (deploy_team crew_executor (demo_team Sequential) [''x'', ''y'', ''z''] demo_empty_platform)))) =
      [(''ann'', ''ops''), (''bob'', ''ops''), (''eve'', ''ops'')]" by code_simp+
  with r have up: "r = Inr [''x'', ''y'', ''z'']"
    "map (\<lambda>b. (a_name b, a_namespace b)) (reg_list_all (pf_registry s)) = [(''ann'', ''ops''), (''bob'', ''ops''), (''eve'', ''ops'')]" by simp_all
  from up(2) obtain b where b: "b \<in> set (reg_list_all (pf_registry s))" "a_name b = ''ann''" "a_namespace b = ''ops''"
    by (cases "reg_list_all (pf_registry s)") auto
  obtain x s' where u: "undeploy_team crew_executor ''crew'' ''ops'' s = (x, s')" by fastforce
  have "deploy_team crew_executor (demo_team Sequential) [''u'', ''v'', ''w''] s' = (Inl (Exc ValueError), s')"
    by (rule undeployed_team_cannot_be_redeployed [OF crew_executor_quiet, where m = "demo_member ''ann'' ''supervisor''" and b = b and s = s])
      (use b u in \<open>simp_all add: demo_team_def demo_member_def\<close>)
  with r up(1) u show ?thesis by blast
qed

end
