(* ===== verification/Spec2Isabelle.thy ===== *)
theory Spec2Isabelle
  imports Handlers Process Syscall Admission Facade WorkerFacts Stepping Chat TaskQueue Memory Secrets ContStore Lineage
    Checkpoint EventBus Scheduler Sessions Recovery ForgeStack LlmRouter Teams
begin

text \<open>
  \<^bold>\<open>Verification of the HeliosOS agent kernel and its durable runtime.\<close>

  HeliosOS runs language-model agents as processes of an operating system. A caller invokes an agent;
  the invocation becomes a continuation that an engine drives turn by turn: ask the model, admit every
  tool call through the kernel, execute it or park the run on a human, append the results, go on.
  Durable runs travel through a ledger and a priority queue to workers; answers of humans come back as
  resolutions of parked calls. The development models these parts as they are written in Python
  (paths below are relative to \<open>src/\<close> of the repository) and proves what each promises.

  \<^bold>\<open>Conventions of the model.\<close>
  \<^item> A dictionary is an association list in insertion order (\<^theory_text>\<open>type_synonym dict\<close> in \<open>Prelude\<close>), since Python
    iterates in that order; \<open>dset\<close>, \<open>dpop\<close>, \<open>map_of\<close> and \<open>dget_default\<close> are assignment, \<open>pop\<close>, \<open>get\<close>
    and \<open>get\<close> with a default. JSON-like values are the datatype \<open>pyval\<close>.
  \<^item> An exception is a value: \<open>'a res\<close> is \<open>py_exn + 'a\<close>, sequenced by \<open>rbind\<close> (\<open>Pyrt\<close>); an \<open>except\<close>
    clause is a case split on the sum. A read of a missing key is \<open>Inl KeyError\<close>.
  \<^item> Integers are \<open>int\<close>, counters that only grow from zero \<open>nat\<close>. Money and other floating-point amounts
    are exact rationals: rounding is not modelled. Time is an \<open>int\<close> of microseconds (or the unit the
    source uses) and an argument of every operation that reads the clock.
  \<^item> Generated identifiers are arguments. Where their uniqueness matters a theorem says so.
  \<^item> What is not under \<open>src/\<close> is a parameter: the language model, the tool implementations, SHA-256,
    Fernet, the license manager, the cloud secret manager, the A2A handler. The engine's collaborators
    act on an abstract world \<open>'w\<close> that they may read and change at will.
  \<^item> Objects shared by reference are values in one store: the code saves a continuation after every change
    that others can observe, and a theorem about a store speaks of what was saved. Coroutines gathered
    with \<open>asyncio.gather\<close> run in list order; the interleaving of workers, of requests and of redeliveries
    enters through arbitrary histories of operations.

  \<^bold>\<open>The theories, from the bottom up.\<close>
  \<^item> \<open>Prelude\<close>, \<open>Pyrt\<close>: dictionaries with the locale \<open>keyed_store\<close> of stores keyed by an attribute of
    their values, strings, exceptions, \<open>str\<close>, \<open>repr\<close>, \<open>int\<close>, \<open>split\<close>.
  \<^item> \<open>Manifest\<close> (\<open>src/forgeos_sdk/manifest.py\<close>, \<open>stacks/base.py\<close>) and \<open>Registry\<close>
    (\<open>src/platform/registry.py\<close>): agent definitions, the manifest sections the kernel reads, the registry.
  \<^item> \<open>Process\<close> (\<open>kernel/_process.py\<close>): phases, the transition table, cascades, signals, usage. A
    transition refines a pointwise specification, histories keep the table consistent.
  \<^item> \<open>Rules\<close>, \<open>Permissions\<close>, \<open>Budget\<close>, \<open>AuditTrail\<close>, \<open>Facade\<close>, \<open>Admission\<close> (\<open>kernel/_facade.py\<close>,
    \<open>audit.py\<close>): decisions, JSON-logic rules and policies, the permission and boundary managers, budget
    tickets, the hash-chained log, the composite checks and admission. Each check is characterised by the
    exact condition under which it allows; the books of the budget balance over every history; a log can
    only be forged through a collision.
  \<^item> \<open>Capabilities\<close> (\<open>kernel/_capabilities.py\<close>, \<open>runtime/capability_store.py\<close>), \<open>Syscall\<close>
    (\<open>kernel/_syscall.py\<close>, \<open>_license_stage.py\<close>), \<open>NamespacePolicy\<close> (\<open>namespace_policy.py\<close>): tokens and their
    stores (the SQLite one refines the one in memory), the pipeline of stages, policy merging and globs.
  \<^item> \<open>Continuation\<close>, \<open>ContStore\<close>, \<open>Shaping\<close>, \<open>Engine\<close> (\<open>src/runtime/continuation.py\<close>,
    \<open>continuation_store.py\<close>, \<open>signals.py\<close>, \<open>shaping.py\<close>, \<open>engine.py\<close>): the data of a run, its encoding
    and its stores, the message dialects, and every operation of the step engine.
  \<^item> \<open>EngineFacts\<close>, \<open>Parking\<close>, \<open>Lineage\<close>, \<open>Stepping\<close>: what the engine guarantees. Driving ends, is final and
    is bounded; tools that are never permitted never run; parked calls can be found and are answered
    under their own ids; a slice touches one run and never changes whose it is; driving turn by turn through the
    store is equivalent to driving inline.
  \<^item> \<open>Ledger\<close>, \<open>RunQueue\<close>, \<open>Worker\<close>, \<open>WorkerFacts\<close> (\<open>ledger.py\<close>, \<open>queue.py\<close>, \<open>enqueuer.py\<close>,
    \<open>resume_service.py\<close>, \<open>worker.py\<close>): at-most-once claims by epoch, the conservation of work and the order of the
    lanes, redelivery, approval, and where work is lost.
  \<^item> \<open>Approvals\<close>, \<open>Chat\<close>, \<open>TaskQueue\<close>, \<open>Memory\<close>, \<open>Secrets\<close> (\<open>a2h.py\<close>, \<open>a2h_chat.py\<close>, \<open>task_queue.py\<close>,
    \<open>memory_store.py\<close>, \<open>core/secrets.py\<close>, \<open>credentials.py\<close>): the gateway to humans, chats, jobs between agents, the
    versioned memory of an agent, and three-tier credentials.
  \<^item> \<open>Decode\<close>, \<open>Checkpoint\<close> (\<open>kernel/_checkpoint.py\<close>), \<open>EventBus\<close> (\<open>event_bus.py\<close>), \<open>Scheduler\<close>
    (\<open>scheduler.py\<close>), \<open>Callbacks\<close> (\<open>callbacks.py\<close>), \<open>Sessions\<close> (\<open>core/session_store.py\<close>): reading JSON into records, and
    the services around a running agent. Fired events reach their subscribers in order, jobs fire at their interval, the
    most severe callback wins, checkpoints survive their dictionary form.
  \<^item> \<open>Executor\<close>, \<open>ExecutorFacts\<close>, \<open>ExecutorRuns\<close>, \<open>Recovery\<close> (\<open>executor.py\<close>): deploying, invoking, stopping and
    recovering agents over the table, the scheduler, the bus and the checkpoints. A deployment takes effect completely or
    not at all, a stopped agent is detached from every trigger, a restarted loop continues at its checkpoint, recovery
    wires exactly the agents that may run.
  \<^item> \<open>AgentContext\<close> (\<open>stacks/base.py\<close>), \<open>AgenticLoop\<close> (\<open>agentic_loop.py\<close>), \<open>ForgeStack\<close> (\<open>stacks/forgeos/adapter.py\<close>,
    \<open>runtime/service.py\<close>): the tools an agent is shown, the loop of the stacks that cannot suspend, and the stack of the
    platform, which chooses between the engine, the loop, a pod and the queue and composes the theories above.
  \<^item> \<open>McpPool\<close> (\<open>mcp/client_mcp_manager.py\<close>), \<open>ToolExecutor\<close>, \<open>Handlers\<close> (\<open>mcp/tool_executor.py\<close>): the pool of the
    connections of clients with its eviction (a \<open>while\<close> loop that may hang, and a theorem when it does), the gates, the
    dispatch and the audit of a tool call, and the tools that reach humans over \<open>Approvals\<close> and \<open>Chat\<close>. Only admitted calls
    are carried out, sessions stay with their client, secrets stay out of the audit.
  \<^item> \<open>Dialects\<close>, \<open>LlmRouter\<close> (\<open>llm_router.py\<close>): the payloads and replies of the model providers, where a request to Gemini
    may change the history in place, and the router with its clients, keys, retries, failover and callbacks. The contents
    sent are well formed, the number of requests is bounded, a call ends at its first conclusive attempt, clients are never
    shared across agents.
  \<^item> \<open>Teams\<close> (\<open>executor.py\<close>): teams of agents. The lists of who may call and who may be called agree in every pattern.

  \<^bold>\<open>Interfaces.\<close> \<open>keyed_store\<close> (a dictionary keyed by an attribute of its values) is interpreted by the
  store of continuations and by the store of policies; \<open>capability_store\<close> extends it and is interpreted by the
  in-memory and by the SQLite store of tokens; \<open>sql_latest\<close> states what SQL promises of
  \<open>ORDER BY updated_at DESC LIMIT 1\<close>.

  \<^bold>\<open>Bounds.\<close> No definition needs fuel that the code does not have: the loop of \<open>drive\<close> recurses on
  \<open>max_turns - step_index\<close>, the retry of a tool on its number of attempts, stepwise driving on a number of deliveries
  (\<open>stepwise_equals_inline\<close> holds for every number of at least the turns left). The attempts of the model router are the configured number, the eviction of the connection pool is a
  \<open>while_option\<close> whose \<open>None\<close> is the hang. The remaining recursions are structural or have a
  \<^theory_text>\<open>termination\<close> proof.

  \<^bold>\<open>Not modelled.\<close> Code that only moves data to and from external services: the Postgres and Redis stores, HTTP views and
  clients, provider SDKs, subprocesses and file I/O; the bootstrap wiring; command lines and dashboards; the handlers of
  the platform tools that reach into these; the adapters of third-party agent frameworks; stubs that stand in for the
  kernel. The components of the manifest list each with the reason, and for those that are modelled in part what is left
  out.
\<close>

end
